(* ===== verification/Wms_Prelude.thy ===== *)
theory Wms_Prelude
  imports Main
begin

text \<open>
  Shared ground of the development: the errors the Python code raises, results of fallible
  operations, the fragment of Python's built-in strings and integers the code uses, and the
  generic facts on lists and sums the component theories build on.

  An operation of the program that may raise is a function into \<open>py_error + 'a\<close>. An
  operation that reads and writes the database has type \<open>'s \<Rightarrow> py_error + ('a \<times> 's)\<close>: a raised
  error carries no state, because every entry point runs in one transaction that is rolled
  back when an exception leaves it.

  A Python \<open>str\<close> is a HOL \<open>string\<close>. The characters are ASCII: blanks are the ASCII blanks
  and case conversion acts on ASCII letters. Messages that the source writes in Chinese are
  represented by an English key; the values a message interpolates are left out.
\<close>

section \<open>Errors and results\<close>

datatype py_error =
    ValueError string
  | LookupError string
  | RuntimeError string
  | OverflowError string
  | IntegrityError string        \<comment> \<open>a database constraint refuses a row\<close>
  | HTTPException int string     \<comment> \<open>status code and detail\<close>

type_synonym 'a result = "py_error + 'a"

named_theorems res_simps \<open>inversion of results: what a successful run went through\<close>
named_theorems py_simps \<open>evaluation of the Python built-ins\<close>

definition bindR :: "'a result \<Rightarrow> ('a \<Rightarrow> 'b result) \<Rightarrow> 'b result" where
  "bindR m f = (case m of Inl e \<Rightarrow> Inl e | Inr x \<Rightarrow> f x)"

definition ensure :: "bool \<Rightarrow> py_error \<Rightarrow> unit result" where
  "ensure b e = (if b then Inr () else Inl e)"

definition require_some :: "'a option \<Rightarrow> py_error \<Rightarrow> 'a result" where
  "require_some m e = (case m of None \<Rightarrow> Inl e | Some x \<Rightarrow> Inr x)"

lemma bindR_simps [simp]:
  "bindR (Inl e) f = Inl e"
  "bindR (Inr x) f = f x"
  by (simp_all add: bindR_def)

lemma bindR_Inr [res_simps]: "bindR m f = Inr y \<longleftrightarrow> (\<exists>x. m = Inr x \<and> f x = Inr y)"
  by (cases m) auto

lemma bindR_Inl: "bindR m f = Inl e \<longleftrightarrow> m = Inl e \<or> (\<exists>x. m = Inr x \<and> f x = Inl e)"
  by (cases m) auto

lemma bindR_assoc: "bindR (bindR m f) g = bindR m (\<lambda>x. bindR (f x) g)"
  by (cases m) auto

lemma bindR_cong [fundef_cong]:
  "m = m' \<Longrightarrow> (\<And>x. m' = Inr x \<Longrightarrow> f x = g x) \<Longrightarrow> bindR m f = bindR m' g"
  by (cases m') auto

lemma ensure_simps [simp]:
  "ensure True e = Inr ()"
  "ensure False e = Inl e"
  by (simp_all add: ensure_def)

lemma ensure_Inr [res_simps]: "ensure b e = Inr u \<longleftrightarrow> b"
  by (simp add: ensure_def)

lemma ensure_Inl [simp]: "ensure b e = Inl e' \<longleftrightarrow> \<not> b \<and> e' = e"
  by (auto simp: ensure_def)

lemma require_some_simps [simp]:
  "require_some None e = Inl e"
  "require_some (Some x) e = Inr x"
  by (simp_all add: require_some_def)

lemma require_some_Inr [res_simps]: "require_some m e = Inr x \<longleftrightarrow> m = Some x"
  by (cases m) auto

lemma refusedI: "(\<And>x. m = Inr x \<Longrightarrow> False) \<Longrightarrow> \<exists>e. m = Inl e"
  by (cases m) auto

lemma if_Inl_else_Inr [res_simps]: "(if b then Inl e else r) = Inr y \<longleftrightarrow> \<not> b \<and> r = Inr y"
  by simp

section \<open>Loops over a list that thread the state\<close>

text \<open>The Python loop \<open>for x in xs: out.append(f(session, x))\<close>, which stops at the first error.\<close>

fun map_loop :: "('a \<Rightarrow> 's \<Rightarrow> ('b \<times> 's) result) \<Rightarrow> 'a list \<Rightarrow> 's \<Rightarrow> ('b list \<times> 's) result" where
  "map_loop f [] s = Inr ([], s)"
| "map_loop f (x # xs) s =
     bindR (f x s) (\<lambda>(y, s'). bindR (map_loop f xs s') (\<lambda>(ys, s''). Inr (y # ys, s'')))"

text \<open>A loop that only checks: the first failing element raises.\<close>

fun check_all :: "('a \<Rightarrow> unit result) \<Rightarrow> 'a list \<Rightarrow> unit result" where
  "check_all f [] = Inr ()"
| "check_all f (x # xs) = bindR (f x) (\<lambda>_. check_all f xs)"

lemma map_loop_append:
  "map_loop f (xs @ ys) s =
     bindR (map_loop f xs s) (\<lambda>(us, s'). bindR (map_loop f ys s') (\<lambda>(vs, s''). Inr (us @ vs, s'')))"
proof (induction xs arbitrary: s)
  case Nil
  show ?case by (cases "map_loop f ys s") auto
next
  case (Cons x xs)
  show ?case
  proof (cases "f x s")
    case (Inr p)
    then show ?thesis
      by (cases p) (simp add: Cons.IH bindR_assoc split_def)
  qed simp
qed

lemma map_loop_length: "map_loop f xs s = Inr (ys, s') \<Longrightarrow> length ys = length xs"
  by (induction xs arbitrary: s ys s') (auto simp: res_simps)

text \<open>What one round keeps, the loop keeps.\<close>

lemma map_loop_invariant:
  assumes "\<And>x s y s'. x \<in> set xs \<Longrightarrow> I s \<Longrightarrow> f x s = Inr (y, s') \<Longrightarrow> I s'"
    and "I s" and "map_loop f xs s = Inr (ys, s')"
  shows "I s'"
  using assms
proof (induction xs arbitrary: s ys)
  case (Cons x xs)
  from Cons.prems(3) obtain y t ys' where step: "f x s = Inr (y, t)"
    and rest: "map_loop f xs t = Inr (ys', s')"
    by (auto simp: res_simps)
  have t: "I t" by (rule Cons.prems(1) [OF _ Cons.prems(2) step]) simp
  show ?case
    by (rule Cons.IH [OF _ t rest]) (rule Cons.prems(1), auto)
qed simp

lemma map_loop_list_all2:
  assumes "\<And>x s y s'. f x s = Inr (y, s') \<Longrightarrow> R x y" and "map_loop f xs s = Inr (ys, s')"
  shows "list_all2 R xs ys"
  using assms(2)
proof (induction xs arbitrary: s ys)
  case (Cons x xs)
  then obtain y t ys' where "f x s = Inr (y, t)" "map_loop f xs t = Inr (ys', s')" "ys = y # ys'"
    by (auto simp: res_simps)
  with Cons.IH assms(1) show ?case by auto
qed simp

text \<open>In a loop that succeeds every round succeeded, from a state the rounds before had led to.\<close>

lemma map_loop_memD:
  assumes "map_loop f xs s = Inr (ys, s')" and "x \<in> set xs" and "I s"
    and "\<And>z t y t'. z \<in> set xs \<Longrightarrow> I t \<Longrightarrow> f z t = Inr (y, t') \<Longrightarrow> I t'"
  shows "\<exists>t y t'. I t \<and> f x t = Inr (y, t')"
  using assms
proof (induction xs arbitrary: s ys)
  case (Cons a xs)
  from Cons.prems(1) obtain y t ys' where one: "f a s = Inr (y, t)" and rest: "map_loop f xs t = Inr (ys', s')" by (auto simp: res_simps)
  show ?case
  proof (cases "x = a")
    case True
    with one Cons.prems(3) show ?thesis by blast
  next
    case False
    have "I t" by (rule Cons.prems(4) [OF _ Cons.prems(3) one]) simp
    moreover from False Cons.prems(2) have "x \<in> set xs" by simp
    moreover have "I t'" if "z \<in> set xs" "I u" "f z u = Inr (v, t')" for z u v t'
      by (rule Cons.prems(4) [OF _ that(2,3)]) (simp add: that(1))
    ultimately show ?thesis by (intro Cons.IH [OF rest])
  qed
qed simp

text \<open>A loop whose rounds succeed from every state they can reach succeeds.\<close>

lemma map_loop_succeeds:
  assumes "I s" and "\<And>z t. z \<in> set xs \<Longrightarrow> I t \<Longrightarrow> \<exists>y t'. f z t = Inr (y, t') \<and> I t'"
  shows "\<exists>ys s'. map_loop f xs s = Inr (ys, s') \<and> I s'"
  using assms
proof (induction xs arbitrary: s)
  case (Cons a xs)
  obtain y t where one: "f a s = Inr (y, t)" "I t" using Cons.prems(2) [of a s] Cons.prems(1) by auto
  moreover have "\<exists>ys s'. map_loop f xs t = Inr (ys, s') \<and> I s'"
    by (rule Cons.IH [OF one(2)]) (rule Cons.prems(2), simp_all)
  then obtain ys s' where "map_loop f xs t = Inr (ys, s')" "I s'" by blast
  ultimately show ?case by simp
qed simp

lemma list_all2_memD: "list_all2 R xs ys \<Longrightarrow> x \<in> set xs \<Longrightarrow> \<exists>y \<in> set ys. R x y"
  by (induction rule: list_all2_induct) auto

lemma list_all2_map_eq: "list_all2 (\<lambda>x y. f x = g y) xs ys \<Longrightarrow> map f xs = map g ys"
  by (induction rule: list_all2_induct) auto

lemma map_fst_zip_eq: "length ys = length xs \<Longrightarrow> map (\<lambda>(x, y). f x) (zip xs ys) = map f xs"
  by (rule nth_equalityI) auto

text \<open>The loop numbers its lines from 1: \<open>for idx, line in enumerate(lines, start=1)\<close>.\<close>

definition numbered :: "'a list \<Rightarrow> (int \<times> 'a) list" where
  "numbered xs = zip (map int [1..<Suc (length xs)]) xs"

lemma numbered_simps [simp]: "length (numbered xs) = length xs" "map snd (numbered xs) = xs"
  "map fst (numbered xs) = map int [1..<Suc (length xs)]"
  by (simp_all add: numbered_def del: upt_Suc)

lemma numbered_nth: "i < length xs \<Longrightarrow> numbered xs ! i = (int (Suc i), xs ! i)"
  by (simp add: numbered_def del: upt_Suc)

lemma check_all_Inr [res_simps]: "check_all f xs = Inr u \<longleftrightarrow> (\<forall>x \<in> set xs. f x = Inr ())"
  by (induction xs) (auto simp: res_simps)

lemma check_all_eq_Inr_unit: "(\<forall>x \<in> set xs. f x = Inr ()) \<Longrightarrow> check_all f xs = Inr ()"
  by (simp add: check_all_Inr)

section \<open>Python strings\<close>

definition is_space :: "char \<Rightarrow> bool" where
  "is_space c = (let n = (of_char c :: nat) in (9 \<le> n \<and> n \<le> 13) \<or> (28 \<le> n \<and> n \<le> 32))"

definition is_digit :: "char \<Rightarrow> bool" where
  "is_digit c = (let n = (of_char c :: nat) in 48 \<le> n \<and> n \<le> 57)"

definition char_upper :: "char \<Rightarrow> char" where
  "char_upper c = (let n = (of_char c :: nat) in if 97 \<le> n \<and> n \<le> 122 then char_of (n - 32) else c)"

definition char_lower :: "char \<Rightarrow> char" where
  "char_lower c = (let n = (of_char c :: nat) in if 65 \<le> n \<and> n \<le> 90 then char_of (n + 32) else c)"

definition py_strip :: "string \<Rightarrow> string" where
  "py_strip s = rev (dropWhile is_space (rev (dropWhile is_space s)))"

definition py_upper :: "string \<Rightarrow> string" where
  "py_upper = map char_upper"

definition py_lower :: "string \<Rightarrow> string" where
  "py_lower = map char_lower"

lemma dropWhile_idem [simp]: "dropWhile P (dropWhile P xs) = dropWhile P xs"
  by (induction xs) auto

lemma dropWhile_eq_self: "xs = [] \<or> \<not> P (hd xs) \<Longrightarrow> dropWhile P xs = xs"
  by (cases xs) auto

lemma dropWhile_rev_hd:
  "xs = [] \<or> \<not> P (hd xs) \<Longrightarrow> rev (dropWhile P (rev xs)) = [] \<or> \<not> P (hd (rev (dropWhile P (rev xs))))"
proof (induction xs rule: rev_induct)
  case (snoc x xs)
  then show ?case by (cases xs) auto
qed simp

lemma py_strip_idem [simp]: "py_strip (py_strip s) = py_strip s"
proof -
  let ?t = "dropWhile is_space s"
  have "?t = [] \<or> \<not> is_space (hd ?t)"
    by (metis hd_dropWhile dropWhile_eq_Nil_conv)
  then have "rev (dropWhile is_space (rev ?t)) = [] \<or>
      \<not> is_space (hd (rev (dropWhile is_space (rev ?t))))"
    by (rule dropWhile_rev_hd)
  then have "dropWhile is_space (rev (dropWhile is_space (rev ?t))) = rev (dropWhile is_space (rev ?t))"
    by (rule dropWhile_eq_self)
  then show ?thesis by (simp add: py_strip_def)
qed

lemma py_strip_Nil [simp]: "py_strip [] = []"
  by (simp add: py_strip_def)

text \<open>
  \<open>str(v).strip() or None\<close>: the helper that the services repeat under the names
  \<open>_norm_text\<close>, \<open>_clean_text\<close> and \<open>_normalize_name\<close>.
\<close>

definition norm_text :: "string option \<Rightarrow> string option" where
  "norm_text v =
     (case v of None \<Rightarrow> None
      | Some t \<Rightarrow> (let s = py_strip t in if s = [] then None else Some s))"

lemma norm_text_idem [simp]: "norm_text (norm_text v) = norm_text v"
  by (cases v) (auto simp: norm_text_def Let_def)

lemma norm_text_Some_ne: "norm_text v = Some s \<Longrightarrow> s \<noteq> []"
  by (auto simp: norm_text_def Let_def split: option.splits if_splits)

section \<open>Python integers from text\<close>

text \<open>
  \<open>int(s)\<close> on a string: surrounding blanks, one optional sign, then digits with single
  underscores between digits.
\<close>

fun digits_value :: "int \<Rightarrow> string \<Rightarrow> int option" where
  "digits_value acc [] = None"
| "digits_value acc [c] =
     (if is_digit c then Some (acc * 10 + int (of_char c) - 48) else None)"
| "digits_value acc (c # d # cs) =
     (if \<not> is_digit c then None
      else if d = CHR ''_'' then digits_value (acc * 10 + int (of_char c) - 48) cs
      else digits_value (acc * 10 + int (of_char c) - 48) (d # cs))"

definition py_int_of_string :: "string \<Rightarrow> int option" where
  "py_int_of_string t =
     (case py_strip t of
        [] \<Rightarrow> None
      | c # cs \<Rightarrow>
          (if c = CHR ''-'' then map_option uminus (digits_value 0 cs)
           else if c = CHR ''+'' then digits_value 0 cs
           else digits_value 0 (c # cs)))"

text \<open>The dynamically typed values that the \<open>meta\<close> dictionaries and \<open>ref_line\<close> carry.\<close>

datatype pyval = PNone | PBool bool | PInt int | PStr string

definition py_int :: "pyval \<Rightarrow> int option" where
  "py_int v =
     (case v of
        PNone \<Rightarrow> None
      | PBool b \<Rightarrow> Some (if b then 1 else 0)
      | PInt n \<Rightarrow> Some n
      | PStr s \<Rightarrow> py_int_of_string s)"

lemma py_int_simps [simp]:
  "py_int (PInt n) = Some n"
  "py_int PNone = None"
  by (simp_all add: py_int_def)

lemmas py_eval [py_simps] =
  is_space_def is_digit_def char_upper_def char_lower_def py_strip_def py_upper_def py_lower_def
  py_int_of_string_def py_int_def norm_text_def

section \<open>Lists of rows\<close>

text \<open>
  A table is the list of its rows. \<open>SELECT ... ORDER BY key LIMIT 1\<close> is \<open>first_by\<close>,
  \<open>SUM\<close> with a \<open>WHERE\<close> clause is \<open>sum_where\<close>.
\<close>

definition first_by :: "('a \<Rightarrow> 'k::linorder) \<Rightarrow> ('a \<Rightarrow> bool) \<Rightarrow> 'a list \<Rightarrow> 'a option" where
  "first_by k P xs = (case sort_key k (filter P xs) of [] \<Rightarrow> None | x # _ \<Rightarrow> Some x)"

definition sum_where :: "('a \<Rightarrow> int) \<Rightarrow> ('a \<Rightarrow> bool) \<Rightarrow> 'a list \<Rightarrow> int" where
  "sum_where f P xs = sum_list (map f (filter P xs))"

lemma first_by_Some: "first_by k P xs = Some x \<Longrightarrow> x \<in> set xs \<and> P x"
proof -
  assume "first_by k P xs = Some x"
  then obtain ys where "sort_key k (filter P xs) = x # ys"
    by (auto simp: first_by_def split: list.splits)
  then have "x \<in> set (sort_key k (filter P xs))" by (metis list.set_intros(1))
  then show ?thesis by simp
qed

lemma first_by_None: "first_by k P xs = None \<longleftrightarrow> (\<forall>x \<in> set xs. \<not> P x)"
proof -
  have "first_by k P xs = None \<longleftrightarrow> sort_key k (filter P xs) = []"
    by (simp add: first_by_def split: list.splits)
  also have "\<dots> \<longleftrightarrow> set (sort_key k (filter P xs)) = {}"
    by (simp only: set_empty)
  finally show ?thesis by auto
qed

lemma first_by_least:
  assumes "first_by k P xs = Some x" and "y \<in> set xs" and "P y"
  shows "k x \<le> k y"
proof -
  from assms(1) obtain ys where s: "sort_key k (filter P xs) = x # ys"
    by (auto simp: first_by_def split: list.splits)
  have "sorted (map k (x # ys))" using sorted_sort_key [of k "filter P xs"] s by simp
  moreover have "y \<in> set (x # ys)" using assms(2,3) s [symmetric] by simp
  ultimately show ?thesis by auto
qed

lemma sum_where_simps [simp]:
  "sum_where f P [] = 0"
  "sum_where f P (x # xs) = (if P x then f x else 0) + sum_where f P xs"
  "sum_where f P (xs @ ys) = sum_where f P xs + sum_where f P ys"
  by (simp_all add: sum_where_def)

lemma sum_where_cong:
  "(\<And>x. x \<in> set xs \<Longrightarrow> P x = Q x) \<Longrightarrow> (\<And>x. x \<in> set xs \<Longrightarrow> P x \<Longrightarrow> f x = g x) \<Longrightarrow>
   sum_where f P xs = sum_where g Q xs"
  by (induction xs) auto

lemma sum_where_none: "(\<And>x. x \<in> set xs \<Longrightarrow> \<not> P x) \<Longrightarrow> sum_where f P xs = 0"
  by (induction xs) auto

lemma sum_where_nonneg: "(\<And>x. x \<in> set xs \<Longrightarrow> P x \<Longrightarrow> 0 \<le> f x) \<Longrightarrow> 0 \<le> sum_where f P xs"
  by (induction xs) auto

text \<open>A table whose rows have distinct keys holds at most one row per key.\<close>

lemma distinct_key_unique:
  "distinct (map k xs) \<Longrightarrow> x \<in> set xs \<Longrightarrow> y \<in> set xs \<Longrightarrow> k x = k y \<Longrightarrow> x = y"
  by (induction xs) (auto simp: rev_image_eqI)

lemma sum_where_unique:
  assumes "distinct (map k xs)" and "x \<in> set xs"
  shows "sum_where f (\<lambda>y. k y = k x) xs = f x"
  using assms
proof (induction xs)
  case (Cons y xs)
  show ?case
  proof (cases "x = y")
    case True
    from Cons.prems(1) have "k y \<notin> k ` set xs" by simp
    then have "sum_where f (\<lambda>z. k z = k y) xs = 0"
      by (intro sum_where_none) (metis image_eqI)
    with True show ?thesis by simp
  next
    case False
    with Cons.prems have "x \<in> set xs" and "k y \<noteq> k x" by auto
    with Cons show ?thesis by simp
  qed
qed simp

lemma find_Some_iff_unique:
  assumes "distinct (map k xs)" and "x \<in> set xs"
  shows "find (\<lambda>y. k y = k x) xs = Some x"
  using assms
proof (induction xs)
  case (Cons y xs)
  then show ?case by (auto simp: rev_image_eqI dest: distinct_key_unique)
qed simp

lemma find_SomeD: "find P xs = Some x \<Longrightarrow> x \<in> set xs \<and> P x"
  by (induction xs) (auto split: if_splits)

lemma find_NoneD: "find P xs = None \<Longrightarrow> x \<in> set xs \<Longrightarrow> \<not> P x"
  by (induction xs) (auto split: if_splits)

end
