(* ===== verification/Wms_Dates.thy ===== *)
theory Wms_Dates
  imports Wms_Prelude
begin

text \<open>
  Calendar dates as Python's \<open>datetime.date\<close> has them: the proleptic Gregorian calendar with
  years 1 to 9999, comparison by year, month and day, and \<open>date + timedelta(days=n)\<close> through
  the day ordinal. Both month arithmetics of the program stand here side by side,
  \<open>expiry_rules.add_months\<close> and \<open>lots._add_months\<close>, with \<open>lots._add_years\<close>.
  The lemmas show that the ordinal is a bijection between the valid dates and 1..3652059 that
  respects the order, and that the two month arithmetics agree.
\<close>

section \<open>Dates\<close>

datatype date = Date (year: int) (month: int) (day: int)

instantiation date :: linorder
begin

definition less_eq_date :: "date \<Rightarrow> date \<Rightarrow> bool" where
  "less_eq_date a b \<longleftrightarrow>
     year a < year b \<or> (year a = year b \<and>
       (month a < month b \<or> (month a = month b \<and> day a \<le> day b)))"

definition less_date :: "date \<Rightarrow> date \<Rightarrow> bool" where
  "less_date a b \<longleftrightarrow>
     year a < year b \<or> (year a = year b \<and>
       (month a < month b \<or> (month a = month b \<and> day a < day b)))"

instance
proof
  fix x y z :: date
  show "(x < y) = (x \<le> y \<and> \<not> y \<le> x)"
    by (auto simp: less_eq_date_def less_date_def)
  show "x \<le> x" by (simp add: less_eq_date_def)
  show "x \<le> y \<Longrightarrow> y \<le> z \<Longrightarrow> x \<le> z" by (auto simp: less_eq_date_def)
  show "x \<le> y \<Longrightarrow> y \<le> x \<Longrightarrow> x = y"
    by (cases x; cases y) (auto simp: less_eq_date_def)
  show "x \<le> y \<or> y \<le> x" by (auto simp: less_eq_date_def)
qed

end

definition is_leap :: "int \<Rightarrow> bool" where
  "is_leap y \<longleftrightarrow> y mod 4 = 0 \<and> (y mod 100 \<noteq> 0 \<or> y mod 400 = 0)"

definition month_days :: "bool \<Rightarrow> int \<Rightarrow> int" where
  "month_days leap m =
     (if m = 2 then (if leap then 29 else 28)
      else if m \<in> {4, 6, 9, 11} then 30 else 31)"

definition days_before_month :: "bool \<Rightarrow> int \<Rightarrow> int" where
  "days_before_month leap m =
     (if m \<le> 1 then 0 else if m = 2 then 31 else if m = 3 then 59 else if m = 4 then 90
      else if m = 5 then 120 else if m = 6 then 151 else if m = 7 then 181 else if m = 8 then 212
      else if m = 9 then 243 else if m = 10 then 273 else if m = 11 then 304 else 334)
     + (if 2 < m \<and> leap then 1 else 0)"

text \<open>\<open>calendar.monthrange(year, month)[1]\<close>\<close>

definition monthrange :: "int \<Rightarrow> int \<Rightarrow> int" where
  "monthrange y m = month_days (is_leap y) m"

definition valid_date :: "date \<Rightarrow> bool" where
  "valid_date d \<longleftrightarrow> 1 \<le> year d \<and> year d \<le> 9999 \<and> 1 \<le> month d \<and> month d \<le> 12
     \<and> 1 \<le> day d \<and> day d \<le> monthrange (year d) (month d)"

definition in_year :: "date \<Rightarrow> bool" where
  "in_year d \<longleftrightarrow> 1 \<le> month d \<and> month d \<le> 12 \<and> 1 \<le> day d \<and> day d \<le> monthrange (year d) (month d)"

lemma valid_date_iff_in_year: "valid_date d \<longleftrightarrow> in_year d \<and> 1 \<le> year d \<and> year d \<le> 9999"
  by (auto simp: valid_date_def in_year_def)

lemma valid_date_in_year [intro]: "valid_date d \<Longrightarrow> in_year d"
  by (simp add: valid_date_iff_in_year)

text \<open>The constructor \<open>date(y, m, d)\<close> raises on anything that is not a date.\<close>

definition mk_date :: "int \<Rightarrow> int \<Rightarrow> int \<Rightarrow> date result" where
  "mk_date y m d =
     (if valid_date (Date y m d) then Inr (Date y m d) else Inl (ValueError ''date''))"

lemma mk_date_Inr [res_simps]: "mk_date y m d = Inr e \<longleftrightarrow> e = Date y m d \<and> valid_date (Date y m d)"
  by (auto simp: mk_date_def)

section \<open>Day ordinals\<close>

definition days_before_year :: "int \<Rightarrow> int" where
  "days_before_year y = (y - 1) * 365 + (y - 1) div 4 - (y - 1) div 100 + (y - 1) div 400"

definition toordinal :: "date \<Rightarrow> int" where
  "toordinal d = days_before_year (year d) + days_before_month (is_leap (year d)) (month d) + day d"

definition max_ordinal :: int where
  "max_ordinal = 3652059"

text \<open>The month of the \<open>n\<close>-th day (from 0) of a year, and the number of days before that month.\<close>

definition split_month :: "bool \<Rightarrow> int \<Rightarrow> int \<times> int" where
  "split_month leap n =
     (let m = (n + 50) div 32; p = days_before_month leap m
      in if n < p then (m - 1, p - month_days leap (m - 1)) else (m, p))"

definition ymd_of :: "int \<Rightarrow> int \<Rightarrow> int \<Rightarrow> int \<Rightarrow> int \<Rightarrow> date" where
  "ymd_of a b c e r =
     (let y = 400 * a + 100 * b + 4 * c + e + 1
      in if e = 4 \<or> b = 4 then Date (y - 1) 12 31
         else (case split_month (e = 3 \<and> (c \<noteq> 24 \<or> b = 3)) r of (m, p) \<Rightarrow> Date y m (r - p + 1)))"

definition fromordinal :: "int \<Rightarrow> date" where
  "fromordinal n =
     (let a = (n - 1) div 146097; r1 = (n - 1) mod 146097;
          b = r1 div 36524; r2 = r1 mod 36524;
          c = r2 div 1461; r3 = r2 mod 1461
      in ymd_of a b c (r3 div 365) (r3 mod 365))"

text \<open>\<open>d + timedelta(days=n)\<close>\<close>

definition add_days :: "date \<Rightarrow> int \<Rightarrow> date result" where
  "add_days d n =
     (let k = toordinal d + n
      in if 1 \<le> k \<and> k \<le> max_ordinal then Inr (fromordinal k) else Inl (OverflowError ''date''))"

lemma days_before_year_split:
  assumes "0 \<le> b" "b \<le> 3" "0 \<le> c" "c \<le> 24" "0 \<le> e" "e \<le> (3::int)"
  shows "days_before_year (400 * a + 100 * b + 4 * c + e + 1) =
           146097 * a + 36524 * b + 1461 * c + 365 * e"
proof -
  have "(400 * a + 100 * b + 4 * c + e) div 4 = 100 * a + 25 * b + c"
    by (rule int_div_pos_eq [where r = e]) (use assms in auto)
  moreover have "(400 * a + 100 * b + 4 * c + e) div 100 = 4 * a + b"
    by (rule int_div_pos_eq [where r = "4 * c + e"]) (use assms in auto)
  moreover have "(400 * a + 100 * b + 4 * c + e) div 400 = a"
    by (rule int_div_pos_eq [where r = "100 * b + 4 * c + e"]) (use assms in auto)
  ultimately show ?thesis by (simp add: days_before_year_def)
qed

lemma multiple_in_range: "0 < x \<Longrightarrow> x \<le> n \<Longrightarrow> x mod n = 0 \<longleftrightarrow> x = (n::int)"
  by (cases "x = n") (auto simp: mod_pos_pos_trivial)

lemma is_leap_split:
  assumes "0 \<le> b" "b \<le> 3" "0 \<le> c" "c \<le> 24" "0 \<le> e" "e \<le> (3::int)"
  shows "is_leap (400 * a + 100 * b + 4 * c + e + 1) \<longleftrightarrow> e = 3 \<and> (c \<noteq> 24 \<or> b = 3)"
proof -
  let ?y = "400 * a + 100 * b + 4 * c + e + 1"
  have "?y mod 4 = (e + 1) mod 4"
    using mod_mult_self2 [of "e + 1" 4 "100 * a + 25 * b + c"] by (simp add: algebra_simps)
  moreover have "(e + 1) mod 4 = 0 \<longleftrightarrow> e + 1 = 4"
    by (rule multiple_in_range) (use assms in auto)
  moreover have "?y mod 100 = (4 * c + e + 1) mod 100"
    using mod_mult_self2 [of "4 * c + e + 1" 100 "4 * a + b"] by (simp add: algebra_simps)
  moreover have "(4 * c + e + 1) mod 100 = 0 \<longleftrightarrow> 4 * c + e + 1 = 100"
    by (rule multiple_in_range) (use assms in auto)
  moreover have "?y mod 400 = (100 * b + 4 * c + e + 1) mod 400"
    using mod_mult_self2 [of "100 * b + 4 * c + e + 1" 400 a] by (simp add: algebra_simps)
  moreover have "(100 * b + 4 * c + e + 1) mod 400 = 0 \<longleftrightarrow> 100 * b + 4 * c + e + 1 = 400"
    by (rule multiple_in_range) (use assms in auto)
  ultimately have "is_leap ?y \<longleftrightarrow>
      e = 3 \<and> (4 * c + e + 1 \<noteq> 100 \<or> 100 * b + 4 * c + e + 1 = 400)"
    by (simp add: is_leap_def)
  then show ?thesis using assms by auto
qed

text \<open>The month search is checked on every day of both kinds of year.\<close>

definition split_month_ok :: "bool \<Rightarrow> int \<Rightarrow> bool" where
  "split_month_ok leap n =
     (case split_month leap n of (m, p) \<Rightarrow>
        1 \<le> m \<and> m \<le> 12 \<and> p = days_before_month leap m \<and> p \<le> n \<and> n < p + month_days leap m)"

lemma split_month_common: "list_all (split_month_ok False) [0..364]"
  by code_simp

lemma split_month_leap: "list_all (split_month_ok True) [0..365]"
  by code_simp

lemma split_month_days:
  assumes "0 \<le> n" and "n < 365 + (if leap then 1 else 0)"
  shows "split_month_ok leap n"
  using assms split_month_common split_month_leap
  by (cases leap) (auto simp: list_all_iff)

lemma split_monthD:
  assumes "split_month leap n = (m, p)" and "0 \<le> n" and "n < 365 + (if leap then 1 else 0)"
  shows "1 \<le> m" "m \<le> 12" "p = days_before_month leap m" "p \<le> n" "n < p + month_days leap m"
  using split_month_days [OF assms(2,3)] assms(1) by (auto simp: split_month_ok_def)

lemma month_days_pos: "28 \<le> month_days leap m" and month_days_le: "month_days leap m \<le> 31"
  by (auto simp: month_days_def)

lemma days_before_month_table:
  "list_all (\<lambda>m. \<forall>leap \<in> set [True, False].
     days_before_month leap m + month_days leap m =
       (if m = 12 then 365 + (if leap then 1 else 0) else days_before_month leap (m + 1))) [1..12]"
  by code_simp

lemma days_before_month_step:
  "1 \<le> m \<Longrightarrow> m \<le> 12 \<Longrightarrow>
   days_before_month leap m + month_days leap m =
     (if m = 12 then 365 + (if leap then 1 else 0) else days_before_month leap (m + 1))"
  using days_before_month_table by (cases leap) (auto simp: list_all_iff)

lemma days_before_month_mono:
  assumes "1 \<le> m" and "m < m'" and "m' \<le> 12"
  shows "days_before_month leap m + month_days leap m \<le> days_before_month leap m'"
proof -
  have "m + 1 \<le> m'" using assms(2) by simp
  then have "m' \<le> 12 \<Longrightarrow> days_before_month leap (m + 1) \<le> days_before_month leap m'"
  proof (induction m' rule: int_ge_induct)
    case (step k)
    then show ?case
      using days_before_month_step [of k leap] month_days_pos [of leap k] assms(1) by simp
  qed simp
  with assms days_before_month_step [of m leap] show ?thesis by simp
qed

lemma div_pred_step:
  assumes "1 < (n::int)"
  shows "y div n = (y - 1) div n + (if y mod n = 0 then 1 else 0)"
proof -
  obtain q r where q: "q = (y - 1) div n" and r: "r = (y - 1) mod n" by simp
  have y: "y = n * q + (r + 1)" by (simp add: q r minus_mult_div_eq_mod [symmetric])
  have r0: "0 \<le> r" "r < n" using assms by (simp_all add: r)
  have "y div n = q + (if y mod n = 0 then 1 else 0)"
  proof (cases "r + 1 = n")
    case True
    with y have y': "y = n * (q + 1) + 0" by (simp add: algebra_simps)
    have "y div n = q + 1" by (rule int_div_pos_eq [OF y']) (use assms in auto)
    moreover have "y mod n = 0" by (rule int_mod_pos_eq [OF y']) (use assms in auto)
    ultimately show ?thesis by simp
  next
    case False
    have "y div n = q" by (rule int_div_pos_eq [OF y]) (use r0 False in auto)
    moreover have "y mod n = r + 1" by (rule int_mod_pos_eq [OF y]) (use r0 False in auto)
    ultimately show ?thesis using r0 by simp
  qed
  then show ?thesis by (simp add: q)
qed

lemma days_before_year_Suc:
  "days_before_year (y + 1) = days_before_year y + 365 + (if is_leap y then 1 else 0)"
proof -
  have count: "y * 365 + D4 - D100 + D400 =
      (y - 1) * 365 + d4 - d100 + d400 + 365 + (if m4 \<and> (\<not> m100 \<or> m400) then 1 else 0)"
    if "D4 = d4 + (if m4 then 1 else 0)" "D100 = d100 + (if m100 then 1 else 0)"
      "D400 = d400 + (if m400 then 1 else 0)" "m400 \<longrightarrow> m100" "m100 \<longrightarrow> m4"
    for D4 D100 D400 d4 d100 d400 :: int and m4 m100 m400
    using that(4,5) unfolding that(1-3)
    by (cases m4; cases m100; cases m400) (simp_all add: algebra_simps)
  have "(100::int) dvd 400" "(4::int) dvd 100" by simp_all
  then have "y mod 400 = 0 \<longrightarrow> y mod 100 = 0" "y mod 100 = 0 \<longrightarrow> y mod 4 = 0"
    unfolding mod_eq_0_iff_dvd by (blast intro: dvd_trans)+
  then show ?thesis
    unfolding days_before_year_def is_leap_def add_diff_cancel_right'
    by (intro count div_pred_step) simp_all
qed

lemma days_before_year_mono:
  assumes "y < y'"
  shows "days_before_year y + 365 + (if is_leap y then 1 else 0) \<le> days_before_year y'"
proof -
  have "days_before_year (y + 1) \<le> days_before_year y'" if "y + 1 \<le> y'"
    using that by (induction y' rule: int_ge_induct) (auto simp: days_before_year_Suc)
  with assms show ?thesis by (simp add: days_before_year_Suc)
qed

lemma day_of_year_bounds:
  assumes "in_year d"
  shows "1 \<le> days_before_month (is_leap (year d)) (month d) + day d"
    and "days_before_month (is_leap (year d)) (month d) + day d \<le> 365 + (if is_leap (year d) then 1 else 0)"
proof -
  let ?l = "is_leap (year d)"
  show "1 \<le> days_before_month ?l (month d) + day d"
    using assms by (auto simp: in_year_def days_before_month_def)
  have "days_before_month ?l (month d) + month_days ?l (month d) \<le> 365 + (if ?l then 1 else 0)"
    using assms days_before_month_step [of "month d" ?l] days_before_month_mono [of "month d" 12 ?l]
    by (auto simp: in_year_def days_before_month_def month_days_def)
  then show "days_before_month ?l (month d) + day d \<le> 365 + (if ?l then 1 else 0)"
    using assms by (simp add: in_year_def monthrange_def)
qed

lemma toordinal_strict_mono:
  assumes v: "in_year d" "in_year d'" and less: "d < d'"
  shows "toordinal d < toordinal d'"
proof -
  consider "year d < year d'" | "year d = year d'" "month d < month d'"
    | "year d = year d'" "month d = month d'" "day d < day d'"
    using less by (auto simp: less_date_def)
  then show ?thesis
  proof cases
    case 1
    then show ?thesis
      using days_before_year_mono [OF 1] day_of_year_bounds [OF v(1)] day_of_year_bounds [OF v(2)]
      by (simp add: toordinal_def)
  next
    case 2
    then show ?thesis
      using days_before_month_mono [of "month d" "month d'" "is_leap (year d)"] v
      by (auto simp: toordinal_def in_year_def monthrange_def)
  next
    case 3
    then show ?thesis by (simp add: toordinal_def)
  qed
qed

lemma toordinal_less_iff [simp]:
  "valid_date d \<Longrightarrow> valid_date d' \<Longrightarrow> toordinal d < toordinal d' \<longleftrightarrow> d < d'"
  by (metis toordinal_strict_mono not_less_iff_gr_or_eq valid_date_in_year)

lemma toordinal_eq_iff [simp]:
  "valid_date d \<Longrightarrow> valid_date d' \<Longrightarrow> toordinal d = toordinal d' \<longleftrightarrow> d = d'"
  by (metis toordinal_strict_mono neq_iff valid_date_in_year)

lemma toordinal_range:
  assumes "valid_date d"
  shows "1 \<le> toordinal d" and "toordinal d \<le> max_ordinal"
proof -
  have "days_before_year 1 \<le> days_before_year (year d)"
    using assms days_before_year_mono [of 1 "year d"]
    by (cases "year d = 1") (auto simp: valid_date_def split: if_splits)
  then show "1 \<le> toordinal d"
    using day_of_year_bounds [OF valid_date_in_year [OF assms]] by (simp add: toordinal_def days_before_year_def)
  have "days_before_year (year d + 1) \<le> days_before_year 10000"
    using assms days_before_year_mono [of "year d + 1" 10000]
    by (cases "year d = 9999") (auto simp: valid_date_def split: if_splits)
  then show "toordinal d \<le> max_ordinal"
    using day_of_year_bounds [OF valid_date_in_year [OF assms]]
    by (simp add: toordinal_def days_before_year_Suc max_ordinal_def) (simp add: days_before_year_def)
qed

text \<open>The date of a day count, split into cycles of 400, 100 and 4 years, years and days.\<close>

lemma ymd_of_last_day:
  assumes "0 \<le> b" "b \<le> 3" "0 \<le> c" "c \<le> 24" and leap: "c \<noteq> 24 \<or> b = 3"
  shows "in_year (Date (400 * a + 100 * b + 4 * c + 3 + 1) 12 31)"
    and "toordinal (Date (400 * a + 100 * b + 4 * c + 3 + 1) 12 31) =
           146097 * a + 36524 * b + 1461 * c + 1460 + 1"
proof -
  have "is_leap (400 * a + 100 * b + 4 * c + 3 + 1)"
    using is_leap_split [of b c 3 a] assms by simp
  moreover have "days_before_year (400 * a + 100 * b + 4 * c + 3 + 1) =
      146097 * a + 36524 * b + 1461 * c + 365 * 3"
    using days_before_year_split [of b c 3 a] assms by simp
  ultimately show "in_year (Date (400 * a + 100 * b + 4 * c + 3 + 1) 12 31)"
    and "toordinal (Date (400 * a + 100 * b + 4 * c + 3 + 1) 12 31) =
      146097 * a + 36524 * b + 1461 * c + 1460 + 1"
    by (simp_all add: in_year_def toordinal_def monthrange_def month_days_def days_before_month_def)
qed

lemma ymd_of_inner_day:
  assumes "0 \<le> b" "b \<le> 3" "0 \<le> c" "c \<le> 24" "0 \<le> e" "e \<le> 3" "0 \<le> r" "r < 365"
  shows "in_year (ymd_of a b c e r)"
    and "toordinal (ymd_of a b c e r) = 146097 * a + 36524 * b + 1461 * c + 365 * e + r + 1"
proof -
  let ?leap = "e = 3 \<and> (c \<noteq> 24 \<or> b = 3)" and ?y = "400 * a + 100 * b + 4 * c + e + 1"
  obtain m p where mp: "split_month ?leap r = (m, p)" by fastforce
  have d: "ymd_of a b c e r = Date ?y m (r - p + 1)"
    using assms(2,6) mp by (simp add: ymd_of_def Let_def)
  note sm = split_monthD [OF mp assms(7)]
  have r': "r < 365 + (if ?leap then 1 else 0)" using assms(8) by simp
  have l: "is_leap ?y = ?leap" by (rule is_leap_split) (use assms in auto)
  have y: "days_before_year ?y = 146097 * a + 36524 * b + 1461 * c + 365 * e"
    by (rule days_before_year_split) (use assms in auto)
  show "in_year (ymd_of a b c e r)"
    using sm [OF r'] by (simp add: d in_year_def monthrange_def l)
  show "toordinal (ymd_of a b c e r) = 146097 * a + 36524 * b + 1461 * c + 365 * e + r + 1"
    using sm(3) [OF r'] by (simp add: d toordinal_def l y)
qed

lemma ymd_of_correct:
  assumes "0 \<le> b" "0 \<le> c" "0 \<le> e" "0 \<le> r" "r < 365"
    and e: "365 * e + r < 1461" and c: "1461 * c + 365 * e + r < 36524"
    and b: "36524 * b + 1461 * c + 365 * e + r < 146097"
  shows "in_year (ymd_of a b c e r)"
    and "toordinal (ymd_of a b c e r) = 146097 * a + 36524 * b + 1461 * c + 365 * e + r + 1"
proof -
  have be: "b \<le> 4" "c \<le> 24" "e \<le> 4" using assms by linarith+
  have "in_year (ymd_of a b c e r) \<and>
      toordinal (ymd_of a b c e r) = 146097 * a + 36524 * b + 1461 * c + 365 * e + r + 1"
  proof -
    consider "b = 4" | "b \<le> 3" "e = 4" | "b \<le> 3" "e \<le> 3" using be by linarith
    then show ?thesis
    proof cases
      case 1
      then have "c = 0" "e = 0" "r = 0" using assms by linarith+
      with 1 ymd_of_last_day [of 3 24 a] show ?thesis by (simp add: ymd_of_def Let_def)
    next
      case 2
      then have "r = 0" "c \<noteq> 24" using assms be by linarith+
      with 2 ymd_of_last_day [of b c a] assms be show ?thesis by (simp add: ymd_of_def Let_def)
    next
      case 3
      with ymd_of_inner_day [of b c e r a] assms be show ?thesis by simp
    qed
  qed
  then show "in_year (ymd_of a b c e r)"
    and "toordinal (ymd_of a b c e r) = 146097 * a + 36524 * b + 1461 * c + 365 * e + r + 1" by auto
qed

lemma split_div: "(x::int) = n * (x div n) + x mod n"
  by simp

lemma fromordinal_in_year: "in_year (fromordinal n) \<and> toordinal (fromordinal n) = n"
proof -
  define x where "x = n - 1"
  define r1 where "r1 = x mod 146097"
  define r2 where "r2 = r1 mod 36524"
  define r3 where "r3 = r2 mod 1461"
  obtain a b c e r where q: "a = x div 146097" "b = r1 div 36524" "c = r2 div 1461"
      "e = r3 div 365" "r = r3 mod 365"
    by simp
  have x: "x = 146097 * a + r1" "r1 = 36524 * b + r2" "r2 = 1461 * c + r3" "r3 = 365 * e + r"
    by (simp_all only: q r1_def r2_def r3_def split_div [symmetric])
  have lim: "0 \<le> r1" "r1 < 146097" "0 \<le> r2" "r2 < 36524" "0 \<le> r3" "r3 < 1461" "0 \<le> r" "r < 365"
    by (simp_all add: r1_def r2_def r3_def q)
  have pos: "0 \<le> b" "0 \<le> c" "0 \<le> e"
    using lim by (simp_all add: q pos_imp_zdiv_nonneg_iff)
  have d: "fromordinal n = ymd_of a b c e r"
    by (simp add: fromordinal_def Let_def q r1_def r2_def r3_def x_def)
  have "in_year (ymd_of a b c e r)"
    and "toordinal (ymd_of a b c e r) = 146097 * a + 36524 * b + 1461 * c + 365 * e + r + 1"
    by (rule ymd_of_correct; use pos lim x in linarith)+
  moreover have "146097 * a + 36524 * b + 1461 * c + 365 * e + r + 1 = n"
    using x x_def by linarith
  ultimately show ?thesis by (simp add: d)
qed

lemma valid_fromordinal:
  assumes "1 \<le> n" and "n \<le> max_ordinal"
  shows "valid_date (fromordinal n)"
proof -
  let ?d = "fromordinal n"
  have d: "in_year ?d" "toordinal ?d = n" using fromordinal_in_year [of n] by auto
  have "1 \<le> year ?d"
  proof (rule ccontr)
    assume "\<not> 1 \<le> year ?d"
    then have "days_before_year (year ?d) + 365 + (if is_leap (year ?d) then 1 else 0) \<le> days_before_year 1"
      by (intro days_before_year_mono) simp
    then show False
      using day_of_year_bounds(2) [OF d(1)] d(2) assms(1) by (simp add: toordinal_def days_before_year_def [of 1])
  qed
  moreover have "year ?d \<le> 9999"
  proof (rule ccontr)
    assume "\<not> year ?d \<le> 9999"
    then have "days_before_year 9999 + 365 + (if is_leap 9999 then 1 else 0) \<le> days_before_year (year ?d)"
      by (intro days_before_year_mono) simp
    moreover have "days_before_year 9999 + 365 = max_ordinal"
      by (simp add: days_before_year_def max_ordinal_def)
    ultimately show False
      using day_of_year_bounds(1) [OF d(1)] d(2) assms(2) by (simp add: toordinal_def split: if_splits)
  qed
  ultimately show ?thesis using d(1) by (simp add: valid_date_iff_in_year)
qed

lemma toordinal_fromordinal [simp]: "toordinal (fromordinal n) = n"
  using fromordinal_in_year by blast

lemma fromordinal_toordinal [simp]:
  assumes "valid_date d" shows "fromordinal (toordinal d) = d"
proof -
  have "valid_date (fromordinal (toordinal d))"
    by (rule valid_fromordinal) (use toordinal_range [OF assms] in auto)
  with toordinal_eq_iff [OF this assms] show ?thesis by simp
qed

lemma add_days_Inr [res_simps]:
  "add_days d n = Inr e \<longleftrightarrow>
     1 \<le> toordinal d + n \<and> toordinal d + n \<le> max_ordinal \<and> e = fromordinal (toordinal d + n)"
  by (auto simp: add_days_def Let_def)

lemma add_days_valid: "add_days d n = Inr e \<Longrightarrow> valid_date e"
  by (auto simp: res_simps valid_fromordinal)

lemma add_days_ordinal: "add_days d n = Inr e \<Longrightarrow> toordinal e = toordinal d + n"
  by (auto simp: res_simps)

lemma add_days_back:
  "valid_date d \<Longrightarrow> add_days d n = Inr e \<Longrightarrow> add_days e (- n) = Inr d"
  by (auto simp: res_simps toordinal_range)

lemma add_days_less:
  assumes "valid_date d" and "add_days d n = Inr e" and "0 < n"
  shows "d < e"
  using toordinal_less_iff [OF assms(1) add_days_valid [OF assms(2)]] add_days_ordinal [OF assms(2)] assms(3)
  by simp

section \<open>Month and year arithmetic\<close>

text \<open>\<open>expiry_rules.add_months\<close>\<close>

definition add_months :: "date \<Rightarrow> int \<Rightarrow> date result" where
  "add_months d months =
     (if months = 0 then Inr d
      else (let total_months = year d * 12 + (month d - 1) + months;
                y = total_months div 12;
                m = total_months mod 12 + 1;
                last_day = monthrange y m
            in mk_date y m (min (day d) last_day)))"

text \<open>\<open>lots._add_months\<close> and \<open>lots._add_years\<close>\<close>

definition lots_add_months :: "date \<Rightarrow> int \<Rightarrow> date result" where
  "lots_add_months base months =
     (let month_index = (month base - 1) + months;
          y = year base + month_index div 12;
          m = month_index mod 12 + 1;
          d = min (day base) (monthrange y m)
      in mk_date y m d)"

definition lots_add_years :: "date \<Rightarrow> int \<Rightarrow> date result" where
  "lots_add_years base years =
     (let y = year base + years;
          d = min (day base) (monthrange y (month base))
      in mk_date y (month base) d)"

text \<open>Months counted from year 0: both arithmetics move this count and clamp the day.\<close>

definition month_count :: "date \<Rightarrow> int" where
  "month_count d = year d * 12 + (month d - 1)"

definition date_of_month :: "int \<Rightarrow> int \<Rightarrow> date result" where
  "date_of_month k d =
     mk_date (k div 12) (k mod 12 + 1) (min d (monthrange (k div 12) (k mod 12 + 1)))"

lemma month_count_div_mod:
  assumes "in_year d"
  shows "month_count d div 12 = year d" and "month_count d mod 12 = month d - 1"
proof -
  have k: "month_count d = 12 * year d + (month d - 1)" by (simp add: month_count_def)
  show "month_count d div 12 = year d"
    by (rule int_div_pos_eq [OF k]) (use assms in \<open>auto simp: in_year_def\<close>)
  show "month_count d mod 12 = month d - 1"
    by (rule int_mod_pos_eq [OF k]) (use assms in \<open>auto simp: in_year_def\<close>)
qed

lemma date_of_month_count: "valid_date d \<Longrightarrow> date_of_month (month_count d) (day d) = Inr d"
  by (cases d) (auto simp: date_of_month_def month_count_div_mod valid_date_in_year mk_date_def valid_date_def)

lemma add_months_count:
  "valid_date d \<Longrightarrow> add_months d n = date_of_month (month_count d + n) (day d)"
proof (cases "n = 0")
  case True
  then show "valid_date d \<Longrightarrow> ?thesis" by (simp add: add_months_def date_of_month_count)
next
  case False
  then show ?thesis by (simp add: add_months_def date_of_month_def Let_def month_count_def)
qed

lemma lots_add_months_count:
  assumes "valid_date d"
  shows "lots_add_months d n = date_of_month (month_count d + n) (day d)"
proof -
  have "(month_count d + n) div 12 = year d + (month d - 1 + n) div 12"
    using div_mult_self4 [of 12 "year d" "month d - 1 + n"] by (simp add: month_count_def algebra_simps)
  moreover have "(month_count d + n) mod 12 = (month d - 1 + n) mod 12"
    using mod_mult_self4 [of 12 "year d" "month d - 1 + n"] by (simp add: month_count_def algebra_simps)
  ultimately show ?thesis by (simp add: lots_add_months_def date_of_month_def Let_def)
qed

lemma lots_add_years_count:
  assumes "valid_date d"
  shows "lots_add_years d n = date_of_month (month_count d + 12 * n) (day d)"
proof -
  have "(month_count d + 12 * n) div 12 = year d + n" "(month_count d + 12 * n) mod 12 = month d - 1"
    using month_count_div_mod [OF valid_date_in_year [OF assms]] by simp_all
  then show ?thesis by (simp only: lots_add_years_def date_of_month_def Let_def diff_add_cancel)
qed

lemma date_of_month_Inr:
  assumes "date_of_month k d = Inr e"
  shows "valid_date e" and "month_count e = k" and "day e = min d (monthrange (year e) (month e))"
proof -
  have e: "e = Date (k div 12) (k mod 12 + 1) (min d (monthrange (k div 12) (k mod 12 + 1)))"
    and v: "valid_date e"
    using assms by (auto simp: date_of_month_def res_simps)
  show "valid_date e" by (rule v)
  show "month_count e = k" by (simp add: e month_count_def)
  show "day e = min d (monthrange (year e) (month e))" by (simp add: e)
qed

lemma less_by_month_count:
  assumes "valid_date a" and "valid_date b" and "month_count a < month_count b"
  shows "a < b"
proof -
  have "year a < year b \<or> (year a = year b \<and> month a < month b)"
    using assms by (auto simp: valid_date_def month_count_def)
  then show ?thesis by (auto simp: less_date_def)
qed

lemma date_eq_by_month_count:
  assumes "valid_date a" and "valid_date b" and "month_count a = month_count b" and "day a = day b"
  shows "a = b"
proof -
  have "year a = year b" "month a = month b"
    using assms(3) month_count_div_mod [OF valid_date_in_year [OF assms(1)]]
      month_count_div_mod [OF valid_date_in_year [OF assms(2)]] by auto
  with assms(4) show ?thesis by (cases a; cases b) simp
qed

lemma le_same_month_count:
  assumes "valid_date a" and "valid_date b" and "month_count a = month_count b" and "day a \<le> day b"
  shows "a \<le> b"
proof -
  have "year a = year b" "month a = month b"
    using assms(3) month_count_div_mod [OF valid_date_in_year [OF assms(1)]]
      month_count_div_mod [OF valid_date_in_year [OF assms(2)]] by auto
  with assms(4) show ?thesis by (simp add: less_eq_date_def)
qed

end
