(* ===== verification/Expiry_Rules.thy ===== *)
theory Expiry_Rules
  imports Wms_Dates
begin

text \<open>
  Shelf life and batch dates: \<open>app/wms/shared/services/expiry_rules.py\<close> (deriving an expiry
  date from a production date and back) and \<open>expiry_resolver.py\<close> (the normalisation that
  every batch write runs), with the item policy that \<open>app/integrations/pms/contracts.py\<close>
  declares. The policy itself is served by the product master data service; the operations take
  it as the argument \<open>get_item_policy\<close>.
\<close>

section \<open>Item policies\<close>

datatype shelf_life_unit = DAY | WEEK | MONTH | YEAR
datatype expiry_policy = EXPIRY_NONE | EXPIRY_REQUIRED
datatype lot_source_policy = INTERNAL_ONLY | SUPPLIER_ONLY

record item_policy =
  ip_item_id :: int
  ip_expiry_policy :: expiry_policy
  ip_shelf_life_value :: "int option"
  ip_shelf_life_unit :: "shelf_life_unit option"
  ip_lot_source_policy :: lot_source_policy
  ip_derivation_allowed :: bool
  ip_uom_governance_enabled :: bool

text \<open>The product master data service, as far as the stock core reads it.\<close>

type_synonym policy_reader = "int \<Rightarrow> item_policy option"

text \<open>The field constraints of the \<open>ItemPolicy\<close> contract (\<open>gt=0\<close> on ids and shelf life).\<close>

definition item_policy_ok :: "item_policy \<Rightarrow> bool" where
  "item_policy_ok p \<longleftrightarrow> 0 < ip_item_id p \<and> (\<forall>v. ip_shelf_life_value p = Some v \<longrightarrow> 0 < v)"

section \<open>expiry\_rules.py\<close>

datatype rule_unit = RULE_DAY | RULE_MONTH

record shelf_life =
  sl_value :: int
  sl_unit :: rule_unit

definition is_effective :: "shelf_life \<Rightarrow> bool" where
  "is_effective sl \<longleftrightarrow> 0 < sl_value sl"

definition compute_expiry_from_shelf_life :: "date \<Rightarrow> shelf_life \<Rightarrow> date result" where
  "compute_expiry_from_shelf_life production_date sl =
     (if \<not> is_effective sl then Inl (ValueError ''shelf_life must be a positive value'')
      else case sl_unit sl of
        RULE_DAY \<Rightarrow> add_days production_date (sl_value sl)
      | RULE_MONTH \<Rightarrow> add_months production_date (sl_value sl))"

definition compute_production_from_shelf_life :: "date \<Rightarrow> shelf_life \<Rightarrow> date result" where
  "compute_production_from_shelf_life expiry_date sl =
     (if \<not> is_effective sl then Inl (ValueError ''shelf_life must be a positive value'')
      else case sl_unit sl of
        RULE_DAY \<Rightarrow> add_days expiry_date (- sl_value sl)
      | RULE_MONTH \<Rightarrow> add_months expiry_date (- sl_value sl))"

definition resolve_expiry_date ::
  "date option \<Rightarrow> date option \<Rightarrow> shelf_life option \<Rightarrow> date option result" where
  "resolve_expiry_date production_date expiry_date sl =
     (case expiry_date of
        Some ed \<Rightarrow> Inr (Some ed)
      | None \<Rightarrow>
          (case (production_date, sl) of
             (Some pd, Some l) \<Rightarrow>
               (if is_effective l then bindR (compute_expiry_from_shelf_life pd l) (\<lambda>d. Inr (Some d))
                else Inr None)
           | _ \<Rightarrow> Inr None))"

definition resolve_production_date ::
  "date option \<Rightarrow> date option \<Rightarrow> shelf_life option \<Rightarrow> date option result" where
  "resolve_production_date production_date expiry_date sl =
     (case production_date of
        Some pd \<Rightarrow> Inr (Some pd)
      | None \<Rightarrow>
          (case (expiry_date, sl) of
             (Some ed, Some l) \<Rightarrow>
               (if is_effective l then bindR (compute_production_from_shelf_life ed l) (\<lambda>d. Inr (Some d))
                else Inr None)
           | _ \<Rightarrow> Inr None))"

definition validate_expiry_consistency ::
  "date option \<Rightarrow> date option \<Rightarrow> shelf_life option \<Rightarrow> int \<Rightarrow> bool result" where
  "validate_expiry_consistency production_date expiry_date sl tolerance_days =
     (case (production_date, expiry_date, sl) of
        (Some pd, Some ed, Some l) \<Rightarrow>
          (if \<not> is_effective l then Inr True
           else bindR (compute_expiry_from_shelf_life pd l) (\<lambda>expected.
             Inr (\<bar>toordinal ed - toordinal expected\<bar> \<le> max tolerance_days 0)))
      | _ \<Rightarrow> Inr True)"

section \<open>expiry\_resolver.py\<close>

datatype resolution_mode =
    FROM_PRODUCTION_AND_SHELF_LIFE
  | FROM_BOTH_EXPLICIT
  | FROM_EXPIRY_AND_SHELF_LIFE_REVERSE

text \<open>
  \<open>ShelfLifeUnit(str(unit))\<close> knows the units DAY and MONTH only; every other unit of the policy
  falls back to DAY.
\<close>

definition rule_unit_of :: "shelf_life_unit \<Rightarrow> rule_unit" where
  "rule_unit_of u = (case u of MONTH \<Rightarrow> RULE_MONTH | _ \<Rightarrow> RULE_DAY)"

definition build_shelf_life :: "int option \<Rightarrow> shelf_life_unit option \<Rightarrow> shelf_life option" where
  "build_shelf_life v u =
     (case (v, u) of
        (Some n, Some un) \<Rightarrow>
          (if n \<le> 0 then None
           else (let sl = \<lparr>sl_value = n, sl_unit = rule_unit_of un\<rparr>
                 in if is_effective sl then Some sl else None))
      | _ \<Rightarrow> None)"

type_synonym batch_dates = "date option \<times> date option \<times> resolution_mode option"

definition normalize_batch_dates_for_item ::
  "policy_reader \<Rightarrow> int \<Rightarrow> date option \<Rightarrow> date option \<Rightarrow> batch_dates result" where
  "normalize_batch_dates_for_item get_item_policy item_id production_date expiry_date =
     (if production_date = None \<and> expiry_date = None then Inr (None, None, None)
      else case get_item_policy item_id of
        None \<Rightarrow>
          (case (production_date, expiry_date) of
             (Some pd, Some ed) \<Rightarrow>
               (if ed < pd then Inl (ValueError ''production_date cannot be later than expiry_date'')
                else Inr (Some pd, Some ed, Some FROM_BOTH_EXPLICIT))
           | _ \<Rightarrow> Inr (production_date, expiry_date, None))
      | Some policy \<Rightarrow>
          (let sl = build_shelf_life (ip_shelf_life_value policy) (ip_shelf_life_unit policy)
           in if ip_expiry_policy policy = EXPIRY_NONE then Inr (None, None, None)
              else case (production_date, expiry_date) of
                (Some pd, Some ed) \<Rightarrow>
                  (if ed < pd then Inl (ValueError ''production_date cannot be later than expiry_date'')
                   else bindR (validate_expiry_consistency (Some pd) (Some ed) sl 3) (\<lambda>_.
                     Inr (Some pd, Some ed, Some FROM_BOTH_EXPLICIT)))
              | (Some pd, None) \<Rightarrow>
                  (if ip_derivation_allowed policy \<and> sl \<noteq> None
                   then bindR (resolve_expiry_date (Some pd) None sl) (\<lambda>ed.
                     Inr (Some pd, ed, Some FROM_PRODUCTION_AND_SHELF_LIFE))
                   else Inr (Some pd, None, None))
              | (None, Some ed) \<Rightarrow>
                  (if ip_derivation_allowed policy \<and> sl \<noteq> None
                   then bindR (resolve_production_date None (Some ed) sl) (\<lambda>pd.
                     Inr (pd, Some ed, Some FROM_EXPIRY_AND_SHELF_LIFE_REVERSE))
                   else Inr (None, Some ed, None))
              | (None, None) \<Rightarrow> Inr (None, None, None)))"

section \<open>Properties of the derivation\<close>

lemma add_months_valid: "valid_date d \<Longrightarrow> add_months d n = Inr e \<Longrightarrow> valid_date e"
  by (simp add: add_months_count date_of_month_Inr)

lemma add_months_less:
  assumes "valid_date d" and "add_months d n = Inr e" and "0 < n"
  shows "d < e"
proof (rule less_by_month_count [OF assms(1)])
  have dm: "date_of_month (month_count d + n) (day d) = Inr e" using assms by (simp add: add_months_count)
  show "valid_date e" by (rule date_of_month_Inr [OF dm])
  show "month_count d < month_count e" using date_of_month_Inr(2) [OF dm] assms(3) by simp
qed

lemma add_months_greater:
  assumes "valid_date d" and "add_months d n = Inr e" and "n < 0"
  shows "e < d"
proof (rule less_by_month_count [OF _ assms(1)])
  have dm: "date_of_month (month_count d + n) (day d) = Inr e" using assms by (simp add: add_months_count)
  show "valid_date e" by (rule date_of_month_Inr [OF dm])
  show "month_count e < month_count d" using date_of_month_Inr(2) [OF dm] assms(3) by simp
qed

lemma add_days_greater:
  assumes "valid_date d" and "add_days d n = Inr e" and "n < 0"
  shows "e < d"
  using add_days_valid [OF assms(2)] add_days_ordinal [OF assms(2)] assms(1,3)
  by (simp flip: toordinal_less_iff)

lemma compute_production_earlier:
  assumes "valid_date e" and "compute_production_from_shelf_life e sl = Inr d"
  shows "d < e"
  using assms
  by (auto simp: compute_production_from_shelf_life_def is_effective_def
      intro: add_days_greater add_months_greater split: if_splits rule_unit.splits)

lemma compute_expiry_valid:
  "valid_date d \<Longrightarrow> compute_expiry_from_shelf_life d sl = Inr e \<Longrightarrow> valid_date e"
  by (auto simp: compute_expiry_from_shelf_life_def add_days_valid
      intro: add_months_valid split: if_splits rule_unit.splits)

lemma compute_expiry_later:
  assumes "valid_date d" and "compute_expiry_from_shelf_life d sl = Inr e"
  shows "d < e"
  using assms
  by (auto simp: compute_expiry_from_shelf_life_def is_effective_def
      intro: add_days_less add_months_less split: if_splits rule_unit.splits)

text \<open>Going forward by a shelf life and back again returns in the same month, at most on the same day.\<close>

lemma add_months_forth_back:
  assumes d: "valid_date d" and e: "add_months d n = Inr e" and b: "add_months e (- n) = Inr b'"
  shows "month_count b' = month_count d" and "day b' \<le> day d" and "day d \<le> 28 \<Longrightarrow> b' = d"
proof -
  have de: "date_of_month (month_count d + n) (day d) = Inr e" using d e by (simp add: add_months_count)
  note E = date_of_month_Inr [OF de]
  have db: "date_of_month (month_count e - n) (day e) = Inr b'" using E(1) b by (simp add: add_months_count)
  note B = date_of_month_Inr [OF db]
  show mc: "month_count b' = month_count d" using E(2) B(2) by simp
  show "day b' \<le> day d" using E(3) B(3) by simp
  assume "day d \<le> 28"
  then have "day b' = day d"
    using E(3) B(3) month_days_pos by (auto simp: monthrange_def min_def intro: order_trans)
  then show "b' = d" by (rule date_eq_by_month_count [OF B(1) d mc])
qed

end
