(* ===== verification/Lot_Code.thy ===== *)
theory Lot_Code
  imports Expiry_Rules
begin

text \<open>
  Lot codes and the \<open>meta\<close> dictionary: \<open>app/wms/shared/services/lot_code_contract.py\<close> (what a
  client may send for an item that requires a batch and for one that must not carry a batch),
  \<open>app/wms/stock/services/stock_adjust/lot_code_keys.py\<close> and \<open>meta.py\<close>, with the movement
  types of \<open>app/wms/shared/enums.py\<close>.
\<close>

section \<open>lot\_code\_contract.py\<close>

definition forbidden_fake_codes :: "string list" where
  "forbidden_fake_codes = [''NOEXP'', ''NEAR'', ''FAR'', ''IDEM'']"

definition http_422 :: "string \<Rightarrow> py_error" where
  "http_422 error_code = HTTPException 422 error_code"

definition normalize_optional_lot_code :: "string option \<Rightarrow> string option" where
  "normalize_optional_lot_code raw =
     (case raw of
        None \<Rightarrow> None
      | Some r \<Rightarrow>
          (let s = py_strip r
           in if s = [] then None else if py_lower s = ''none'' then None else Some s))"

definition validate_lot_code_contract :: "bool \<Rightarrow> string option \<Rightarrow> string option result" where
  "validate_lot_code_contract requires_batch lot_code =
     (if requires_batch then
        (case normalize_optional_lot_code lot_code of
           None \<Rightarrow> Inl (http_422 ''batch_required'')
         | Some s \<Rightarrow>
             (if py_lower s = ''none'' then Inl (http_422 ''batch_invalid'') else Inr (Some s)))
      else
        (case lot_code of
           None \<Rightarrow> Inr None
         | Some c \<Rightarrow>
             (let raw = py_strip c
              in if raw = [] then Inl (http_422 ''batch_forbidden'')
                 else if py_upper raw \<in> set forbidden_fake_codes \<or> py_lower raw = ''none''
                   then Inl (http_422 ''batch_forbidden'')
                   else Inl (http_422 ''batch_forbidden''))))"

definition requires_batch_from_expiry_policy :: "expiry_policy \<Rightarrow> bool" where
  "requires_batch_from_expiry_policy p \<longleftrightarrow> p = EXPIRY_REQUIRED"

section \<open>lot\_code\_keys.py\<close>

definition norm_lot_code :: "string option \<Rightarrow> string option" where
  "norm_lot_code lot_code =
     (case lot_code of
        None \<Rightarrow> None
      | Some c \<Rightarrow>
          (let s = py_strip c in if s = [] \<or> py_lower s = ''none'' then None else Some s))"

section \<open>lots.py: normalize\_lot\_code\<close>

definition normalize_lot_code :: "string option \<Rightarrow> (string \<times> string) result" where
  "normalize_lot_code code =
     (let s = py_strip (case code of None \<Rightarrow> [] | Some c \<Rightarrow> c)
      in if s = [] then Inl (ValueError ''lot_code empty'') else Inr (s, s))"

section \<open>meta.py and the meta reader of adjust\_lot\_impl.py\<close>

type_synonym meta = "(string \<times> pyval) list"

text \<open>\<open>meta.get(key)\<close> of an optional dictionary; a missing key and \<open>None\<close> read the same.\<close>

definition meta_get :: "meta option \<Rightarrow> string \<Rightarrow> pyval" where
  "meta_get m key =
     (case m of None \<Rightarrow> PNone
      | Some d \<Rightarrow> (case map_of d key of None \<Rightarrow> PNone | Some v \<Rightarrow> v))"

definition meta_bool :: "meta option \<Rightarrow> string \<Rightarrow> bool" where
  "meta_bool m key \<longleftrightarrow> meta_get m key = PBool True"

definition meta_str :: "meta option \<Rightarrow> string \<Rightarrow> string option result" where
  "meta_str m key =
     (case meta_get m key of
        PNone \<Rightarrow> Inr None
      | PStr v \<Rightarrow> Inr (norm_text (Some v))
      | _ \<Rightarrow> Inl (ValueError ''meta value must be a string''))"

definition meta_int :: "meta option \<Rightarrow> string \<Rightarrow> int option result" where
  "meta_int m key =
     (case meta_get m key of
        PNone \<Rightarrow> Inr None
      | v \<Rightarrow>
          (case py_int v of
             None \<Rightarrow> Inl (ValueError ''meta value must be int'')
           | Some iv \<Rightarrow> Inr (if iv > 0 then Some iv else None)))"

text \<open>\<open>meta_out = dict(meta or {}); meta_out.setdefault(key, v)\<close>.\<close>

definition meta_setdefault :: "string \<Rightarrow> pyval \<Rightarrow> meta \<Rightarrow> meta" where
  "meta_setdefault key v d = (case map_of d key of None \<Rightarrow> d @ [(key, v)] | Some _ \<Rightarrow> d)"

section \<open>enums.py: MovementType\<close>

datatype movement_type = RECEIPT | SHIPMENT | TRANSFER | ADJUSTMENT

definition movement_value :: "movement_type \<Rightarrow> string" where
  "movement_value m =
     (case m of RECEIPT \<Rightarrow> ''RECEIPT'' | SHIPMENT \<Rightarrow> ''SHIPMENT''
      | TRANSFER \<Rightarrow> ''TRANSFER'' | ADJUSTMENT \<Rightarrow> ''ADJUSTMENT'')"

text \<open>The aliases that the modelled services use.\<close>

abbreviation "MovementType_INBOUND \<equiv> RECEIPT"
abbreviation "MovementType_RETURN \<equiv> RECEIPT"
abbreviation "MovementType_SHIP \<equiv> SHIPMENT"
abbreviation "MovementType_COUNT \<equiv> ADJUSTMENT"

datatype reason_arg = ReasonStr string | ReasonMovement movement_type

definition reason_value :: "reason_arg \<Rightarrow> string" where
  "reason_value r = (case r of ReasonStr s \<Rightarrow> s | ReasonMovement m \<Rightarrow> movement_value m)"

section \<open>Properties\<close>

lemma norm_lot_code_eq: "norm_lot_code c = normalize_optional_lot_code c"
  by (simp add: norm_lot_code_def normalize_optional_lot_code_def Let_def split: option.split)

lemma norm_lot_code_Some:
  assumes "norm_lot_code c = Some s"
  shows "s \<noteq> []" and "py_lower s \<noteq> ''none''" and "py_strip s = s"
  using assms by (auto simp: norm_lot_code_def Let_def split: option.splits if_splits)

lemma norm_lot_code_idem: "norm_lot_code (norm_lot_code c) = norm_lot_code c"
  by (auto simp: norm_lot_code_def Let_def split: option.splits)

lemma validate_required_Inr:
  "validate_lot_code_contract True c = Inr r \<longleftrightarrow> (\<exists>s. norm_lot_code c = Some s \<and> r = Some s)"
  using norm_lot_code_Some
  by (auto simp: validate_lot_code_contract_def norm_lot_code_eq [symmetric] split: option.splits)

lemma validate_none_Inr: "validate_lot_code_contract False c = Inr r \<longleftrightarrow> c = None \<and> r = None"
  by (auto simp: validate_lot_code_contract_def Let_def split: option.splits)

lemmas validate_lot_code_Inr = validate_required_Inr validate_none_Inr

end
