(* ===== verification/Wms_State.thy ===== *)
theory Wms_State
  imports Lot_Code
begin

text \<open>
  The database: one record per row type, one list of rows per table, in the order of insertion,
  with the constraints that the SQLAlchemy models under \<open>app/wms\<close> declare (checks, unique
  constraints and indexes, foreign keys). A statement that violates a constraint raises
  \<open>IntegrityError\<close>. Column widths and the 32-bit range of \<open>Integer\<close> columns are not modelled,
  nor are the columns that no modelled operation reads.

  A timestamp is an \<open>int\<close> (microseconds, UTC); its calendar day counts proleptic Gregorian
  ordinals. A fresh primary key is one more than the largest key in the table.
\<close>

section \<open>Time\<close>

type_synonym datetime = int

definition day_us :: int where
  "day_us = 86400000000"

definition date_of :: "datetime \<Rightarrow> date" where
  "date_of t = fromordinal (t div day_us)"

section \<open>Rows\<close>

datatype lot_code_source = SUPPLIER | INTERNAL

record lot =
  lot_id :: int
  lot_warehouse_id :: int
  lot_item_id :: int
  lot_source :: lot_code_source
  lot_code :: "string option"
  lot_production_date :: "date option"
  lot_expiry_date :: "date option"
  lot_source_receipt_id :: "int option"
  lot_source_line_no :: "int option"
  lot_shelf_life_value :: "int option"
  lot_shelf_life_unit :: "shelf_life_unit option"
  lot_source_policy :: lot_source_policy
  lot_expiry_policy :: expiry_policy
  lot_derivation_allowed :: bool
  lot_uom_governance_enabled :: bool

record stock_lot =
  st_id :: int
  st_warehouse_id :: int
  st_item_id :: int
  st_lot_id :: int
  st_qty :: int

record ledger_row =
  led_id :: int
  led_warehouse_id :: int
  led_item_id :: int
  led_lot_id :: int
  led_reason :: string
  led_reason_canon :: "string option"
  led_sub_reason :: "string option"
  led_ref :: string
  led_ref_line :: int
  led_delta :: int
  led_after_qty :: int
  led_occurred_at :: datetime
  led_trace_id :: "string option"
  led_event_id :: "int option"
  led_production_date :: "date option"
  led_expiry_date :: "date option"

datatype event_type = EV_INBOUND | EV_OUTBOUND | EV_COUNT
datatype event_kind = EV_COMMIT | EV_REVERSAL | EV_CORRECTION
datatype event_status = EV_COMMITTED | EV_VOIDED | EV_SUPERSEDED

record wms_event =
  ev_id :: int
  ev_no :: string
  ev_type :: event_type
  ev_warehouse_id :: int
  ev_source_type :: string
  ev_source_ref :: "string option"
  ev_occurred_at :: datetime
  ev_trace_id :: string
  ev_kind :: event_kind
  ev_target_event_id :: "int option"
  ev_status :: event_status
  ev_remark :: "string option"

record inbound_event_line =
  iel_id :: int
  iel_event_id :: int
  iel_line_no :: int
  iel_item_id :: int
  iel_uom_id :: int
  iel_qty_input :: int
  iel_ratio :: int
  iel_qty_base :: int
  iel_lot_code_input :: "string option"
  iel_production_date :: "date option"
  iel_expiry_date :: "date option"
  iel_lot_id :: "int option"
  iel_source_line_id :: "int option"
  iel_remark :: "string option"

record outbound_event_line =
  oel_id :: int
  oel_event_id :: int
  oel_ref_line :: int
  oel_item_id :: int
  oel_qty_outbound :: int
  oel_lot_id :: int
  oel_lot_code_snapshot :: "string option"
  oel_order_line_id :: "int option"
  oel_manual_doc_line_id :: "int option"
  oel_remark :: "string option"

record warehouse =
  wh_id :: int
  wh_name :: string
  wh_active :: bool

record order_address =
  oa_receiver_name :: "string option"
  oa_receiver_phone :: "string option"
  oa_province :: "string option"
  oa_city :: "string option"
  oa_district :: "string option"
  oa_detail :: "string option"
  oa_zipcode :: "string option"

record order_head =
  ord_id :: int
  ord_platform :: string
  ord_store_code :: string
  ord_ext_order_no :: string
  ord_buyer_name :: "string option"
  ord_buyer_phone :: "string option"
  ord_address :: "order_address option"

record order_line =
  ol_id :: int
  ol_order_id :: int
  ol_item_id :: int
  ol_req_qty :: int

datatype manual_doc_status = MD_DRAFT | MD_RELEASED | MD_COMPLETED | MD_VOIDED

record manual_doc =
  md_id :: int
  md_warehouse_id :: int
  md_doc_no :: string
  md_doc_type :: string
  md_status :: manual_doc_status
  md_recipient_name :: "string option"
  md_receiver_phone :: "string option"
  md_receiver_province :: "string option"
  md_receiver_city :: "string option"
  md_receiver_district :: "string option"
  md_receiver_address :: "string option"
  md_receiver_postcode :: "string option"
  md_remark :: "string option"

record manual_line =
  ml_id :: int
  ml_doc_id :: int
  ml_line_no :: int
  ml_item_id :: int
  ml_item_uom_id :: int
  ml_requested_qty :: int

datatype export_status = EX_PENDING | EX_EXPORTED | EX_FAILED | EX_CANCELLED
datatype logistics_status = LG_NOT_IMPORTED | LG_IMPORTED | LG_IN_PROGRESS | LG_COMPLETED | LG_FAILED
datatype source_doc_type = ORDER_OUTBOUND | MANUAL_OUTBOUND

record export_record =
  xr_id :: int
  xr_source_doc_type :: source_doc_type
  xr_source_doc_id :: int
  xr_source_doc_no :: string
  xr_source_ref :: string
  xr_export_status :: export_status
  xr_logistics_status :: logistics_status
  xr_request_id :: "int option"
  xr_request_no :: "string option"
  xr_exported_at :: "datetime option"
  xr_completed_at :: "datetime option"
  xr_last_error :: "string option"

datatype shipment_source = ORDER_LINE int | MANUAL_OUTBOUND_LINE int | UNKNOWN_LINE

record shipment_item =
  si_source :: shipment_source
  si_line_no :: int
  si_item_id :: int
  si_qty_outbound :: int

record handoff_payload =
  hp_export_record_id :: int
  hp_source_doc_type :: source_doc_type
  hp_source_doc_id :: int
  hp_source_doc_no :: string
  hp_source_ref :: string
  hp_platform :: "string option"
  hp_store_code :: "string option"
  hp_order_ref :: "string option"
  hp_ext_order_no :: "string option"
  hp_warehouse_id :: int
  hp_warehouse_name :: "string option"
  hp_receiver_name :: "string option"
  hp_receiver_phone :: "string option"
  hp_receiver_province :: "string option"
  hp_receiver_city :: "string option"
  hp_receiver_district :: "string option"
  hp_receiver_address :: "string option"
  hp_receiver_postcode :: "string option"
  hp_outbound_event_id :: int
  hp_outbound_source_ref :: string
  hp_outbound_completed_at :: datetime
  hp_shipment_items :: "shipment_item list"

datatype count_doc_status = CD_DRAFT | CD_FROZEN | CD_COUNTED | CD_POSTED | CD_VOIDED

record count_doc =
  cd_id :: int
  cd_count_no :: string
  cd_warehouse_id :: int
  cd_snapshot_at :: datetime
  cd_status :: count_doc_status
  cd_posted_event_id :: "int option"
  cd_counted_by :: "string option"
  cd_reviewed_by :: "string option"
  cd_remark :: "string option"
  cd_created_at :: datetime
  cd_counted_at :: "datetime option"
  cd_posted_at :: "datetime option"

record count_doc_line =
  cl_id :: int
  cl_doc_id :: int
  cl_line_no :: int
  cl_item_id :: int
  cl_snapshot_qty :: int
  cl_uom_id :: "int option"
  cl_uom_name :: "string option"
  cl_ratio :: "int option"
  cl_qty_input :: "int option"
  cl_counted_qty :: "int option"
  cl_diff_qty :: "int option"

record lot_snapshot =
  ls_id :: int
  ls_line_id :: int
  ls_lot_id :: int
  ls_lot_code :: "string option"
  ls_qty :: int

section \<open>Tables\<close>

record db =
  db_warehouses :: "warehouse list"
  db_inbound_receipts :: "int list"    \<comment> \<open>ids of the rows of \<open>inbound_receipts\<close>\<close>
  db_lots :: "lot list"
  db_stocks_lot :: "stock_lot list"
  db_stock_ledger :: "ledger_row list"
  db_wms_events :: "wms_event list"
  db_inbound_event_lines :: "inbound_event_line list"
  db_outbound_event_lines :: "outbound_event_line list"
  db_orders :: "order_head list"
  db_order_lines :: "order_line list"
  db_manual_docs :: "manual_doc list"
  db_manual_lines :: "manual_line list"
  db_export_records :: "export_record list"
  db_handoff_payloads :: "handoff_payload list"
  db_count_docs :: "count_doc list"
  db_count_doc_lines :: "count_doc_line list"
  db_lot_snapshots :: "lot_snapshot list"

definition empty_db :: db where
  "empty_db = \<lparr>db_warehouses = [], db_inbound_receipts = [], db_lots = [], db_stocks_lot = [],
     db_stock_ledger = [], db_wms_events = [], db_inbound_event_lines = [],
     db_outbound_event_lines = [], db_orders = [], db_order_lines = [], db_manual_docs = [],
     db_manual_lines = [], db_export_records = [], db_handoff_payloads = [], db_count_docs = [],
     db_count_doc_lines = [], db_lot_snapshots = []\<rparr>"

type_synonym 'a action = "db \<Rightarrow> ('a \<times> db) result"

definition next_id :: "int list \<Rightarrow> int" where
  "next_id ids = 1 + foldr max ids 0"

lemma foldr_max_ge: "n \<in> set ids \<Longrightarrow> n \<le> foldr max ids (m::int)"
  by (induction ids) auto

lemma foldr_max_start: "(m::int) \<le> foldr max ids m"
  by (induction ids) auto

lemma next_id_fresh [simp]: "next_id ids \<notin> set ids"
  using foldr_max_ge [of "next_id ids" ids 0] by (auto simp: next_id_def)

lemma next_id_fresh_map [simp]: "next_id (map f xs) \<notin> f ` set xs"
  using next_id_fresh [of "map f xs"] by simp

lemma next_id_fresh_row: "next_id (map f xs) = f x \<Longrightarrow> x \<in> set xs \<Longrightarrow> False"
  using next_id_fresh_map [of f xs] by auto

lemma next_id_pos [simp]: "0 < next_id ids"
  using foldr_max_start [of 0 ids] by (simp add: next_id_def)

section \<open>Stock dimensions\<close>

text \<open>A balance is kept per warehouse, item and lot.\<close>

type_synonym dims = "int \<times> int \<times> int"

definition st_dims :: "stock_lot \<Rightarrow> dims" where
  "st_dims s = (st_warehouse_id s, st_item_id s, st_lot_id s)"

definition led_dims :: "ledger_row \<Rightarrow> dims" where
  "led_dims r = (led_warehouse_id r, led_item_id r, led_lot_id r)"

definition lot_dims :: "lot \<Rightarrow> dims" where
  "lot_dims l = (lot_warehouse_id l, lot_item_id l, lot_id l)"

text \<open>\<open>uq_ledger_wh_lot_item_reason_ref_line\<close>, the idempotency key of the ledger.\<close>

definition led_key :: "ledger_row \<Rightarrow> string \<times> string \<times> int \<times> dims" where
  "led_key r = (led_reason r, led_ref r, led_ref_line r, led_dims r)"

text \<open>The quantity on hand, and the balance that the ledger gives.\<close>

definition on_hand :: "db \<Rightarrow> dims \<Rightarrow> int" where
  "on_hand d k = sum_where st_qty (\<lambda>s. st_dims s = k) (db_stocks_lot d)"

definition balance :: "db \<Rightarrow> dims \<Rightarrow> int" where
  "balance d k = sum_where led_delta (\<lambda>r. led_dims r = k) (db_stock_ledger d)"

section \<open>Constraints of the tables\<close>

text \<open>The checks of \<open>lots\<close> (stock/models/lot.py).\<close>

definition lot_checks :: "lot \<Rightarrow> bool" where
  "lot_checks l \<longleftrightarrow>
     (lot_shelf_life_value l = None) = (lot_shelf_life_unit l = None) \<and>
     (lot_expiry_policy l = EXPIRY_REQUIRED \<or>
        (lot_shelf_life_value l = None \<and> lot_shelf_life_unit l = None)) \<and>
     (lot_expiry_policy l = EXPIRY_REQUIRED) = (lot_production_date l \<noteq> None) \<and>
     (case (lot_production_date l, lot_expiry_date l) of
        (Some pd, Some ed) \<Rightarrow> pd \<le> ed | _ \<Rightarrow> True) \<and>
     (lot_expiry_policy l = EXPIRY_REQUIRED \<longrightarrow> lot_source l = SUPPLIER \<longrightarrow> lot_expiry_date l \<noteq> None) \<and>
     (lot_expiry_policy l = EXPIRY_REQUIRED \<longrightarrow> lot_source l = SUPPLIER)"

text \<open>The two partial unique indexes of \<open>lots\<close>: the key of a row that an index covers.\<close>

definition required_lot_key :: "lot \<Rightarrow> (int \<times> int \<times> date) option" where
  "required_lot_key l =
     (case lot_production_date l of
        Some pd \<Rightarrow>
          (if lot_source l = SUPPLIER \<and> lot_expiry_policy l = EXPIRY_REQUIRED
           then Some (lot_warehouse_id l, lot_item_id l, pd) else None)
      | None \<Rightarrow> None)"

definition internal_lot_key :: "lot \<Rightarrow> (int \<times> int) option" where
  "internal_lot_key l =
     (if lot_source l = INTERNAL \<and> lot_code l = None
      then Some (lot_warehouse_id l, lot_item_id l) else None)"

definition conflicts :: "('a \<Rightarrow> 'k option) \<Rightarrow> 'a \<Rightarrow> 'a list \<Rightarrow> bool" where
  "conflicts key x xs \<longleftrightarrow> key x \<noteq> None \<and> (\<exists>y \<in> set xs. key y = key x)"

definition lot_fks :: "db \<Rightarrow> lot \<Rightarrow> bool" where
  "lot_fks d l \<longleftrightarrow>
     lot_warehouse_id l \<in> set (map wh_id (db_warehouses d)) \<and>
     (case lot_source_receipt_id l of None \<Rightarrow> True | Some r \<Rightarrow> r \<in> set (db_inbound_receipts d))"

text \<open>
  \<open>INSERT INTO lots ... ON CONFLICT ... DO NOTHING RETURNING id\<close>. The list of indexes is the
  conflict target; a conflict outside it is an error.
\<close>

datatype lot_index = REQUIRED_INDEX | INTERNAL_INDEX

definition lot_conflict :: "lot_index \<Rightarrow> db \<Rightarrow> lot \<Rightarrow> bool" where
  "lot_conflict ix d l =
     (case ix of
        REQUIRED_INDEX \<Rightarrow> conflicts required_lot_key l (db_lots d)
      | INTERNAL_INDEX \<Rightarrow> conflicts internal_lot_key l (db_lots d))"

definition insert_lot :: "lot_index list \<Rightarrow> lot \<Rightarrow> int option action" where
  "insert_lot targets l d =
     (let row = l\<lparr>lot_id := next_id (map lot_id (db_lots d))\<rparr>
      in bindR (ensure (lot_checks row) (IntegrityError ''lots check'')) (\<lambda>_.
         if \<exists>ix \<in> set targets. lot_conflict ix d row then Inr (None, d)
         else bindR (ensure (\<not> lot_conflict REQUIRED_INDEX d row \<and> \<not> lot_conflict INTERNAL_INDEX d row)
                (IntegrityError ''lots unique'')) (\<lambda>_.
              bindR (ensure (lot_fks d row) (IntegrityError ''lots foreign key'')) (\<lambda>_.
              Inr (Some (lot_id row), d\<lparr>db_lots := db_lots d @ [row]\<rparr>)))))"

text \<open>\<open>INSERT INTO stocks_lot ... ON CONFLICT ON CONSTRAINT uq_stocks_lot_item_wh_lot DO NOTHING\<close>.\<close>

definition dims_in_lots :: "db \<Rightarrow> dims \<Rightarrow> bool" where
  "dims_in_lots d k \<longleftrightarrow> k \<in> set (map lot_dims (db_lots d))"

definition new_slot :: "db \<Rightarrow> dims \<Rightarrow> stock_lot" where
  "new_slot d k = \<lparr>st_id = next_id (map st_id (db_stocks_lot d)), st_warehouse_id = fst k,
     st_item_id = fst (snd k), st_lot_id = snd (snd k), st_qty = 0\<rparr>"

lemma new_slot_simps [simp]:
  "st_dims (new_slot d k) = k" "st_qty (new_slot d k) = 0"
  "st_id (new_slot d k) = next_id (map st_id (db_stocks_lot d))"
  by (simp_all add: new_slot_def st_dims_def)

definition insert_stock_slot :: "dims \<Rightarrow> unit action" where
  "insert_stock_slot k d =
     (if \<exists>s \<in> set (db_stocks_lot d). st_dims s = k then Inr ((), d)
      else bindR (ensure (dims_in_lots d k) (IntegrityError ''fk_stocks_lot_lot_dims'')) (\<lambda>_.
        Inr ((), d\<lparr>db_stocks_lot := db_stocks_lot d @ [new_slot d k]\<rparr>)))"

text \<open>\<open>INSERT INTO stock_ledger\<close>; the flag says that a key conflict is skipped, not raised.\<close>

definition event_fk :: "db \<Rightarrow> int option \<Rightarrow> bool" where
  "event_fk d e \<longleftrightarrow> (case e of None \<Rightarrow> True | Some i \<Rightarrow> i \<in> set (map ev_id (db_wms_events d)))"

definition insert_ledger :: "bool \<Rightarrow> ledger_row \<Rightarrow> int option action" where
  "insert_ledger do_nothing r d =
     (let row = r\<lparr>led_id := next_id (map led_id (db_stock_ledger d))\<rparr>
      in if \<exists>x \<in> set (db_stock_ledger d). led_key x = led_key row
         then (if do_nothing then Inr (None, d)
               else Inl (IntegrityError ''uq_ledger_wh_lot_item_reason_ref_line''))
         else bindR (ensure (dims_in_lots d (led_dims row)) (IntegrityError ''fk_stock_ledger_lot_dims'')) (\<lambda>_.
              bindR (ensure (event_fk d (led_event_id row)) (IntegrityError ''fk_stock_ledger_event'')) (\<lambda>_.
              Inr (Some (led_id row), d\<lparr>db_stock_ledger := db_stock_ledger d @ [row]\<rparr>))))"

text \<open>\<open>INSERT INTO wms_events\<close> (inbound/models/inbound_event.py).\<close>

definition event_source_types :: "string list" where
  "event_source_types =
     [''PURCHASE_ORDER'', ''MANUAL'', ''RETURN'', ''TRANSFER_IN'', ''ADJUST_IN'', ''ORDER'',
      ''ORDER_SHIP'', ''INTERNAL_OUTBOUND'', ''TRANSFER_OUT'', ''SCRAP'', ''ADJUST_OUT'',
      ''COUNT_TASK'', ''MANUAL_COUNT'']"

definition insert_event :: "wms_event \<Rightarrow> wms_event action" where
  "insert_event e d =
     (let row = e\<lparr>ev_id := next_id (map ev_id (db_wms_events d))\<rparr>
      in bindR (ensure (ev_source_type row \<in> set event_source_types) (IntegrityError ''ck_wms_events_source_type'')) (\<lambda>_.
         bindR (ensure (ev_no row \<notin> set (map ev_no (db_wms_events d))) (IntegrityError ''uq_wms_events_event_no'')) (\<lambda>_.
         bindR (ensure (ev_trace_id row \<notin> set (map ev_trace_id (db_wms_events d)))
            (IntegrityError ''uq_wms_events_trace_id'')) (\<lambda>_.
         bindR (ensure (ev_warehouse_id row \<in> set (map wh_id (db_warehouses d))) (IntegrityError ''fk_wms_events_warehouse'')) (\<lambda>_.
         bindR (ensure (event_fk d (ev_target_event_id row)) (IntegrityError ''fk_wms_events_target_event'')) (\<lambda>_.
         Inr (row, d\<lparr>db_wms_events := db_wms_events d @ [row]\<rparr>)))))))"

end
