(* ===== verification/Books.thy ===== *)
theory Books
  imports Wms_State
begin

text \<open>
  The invariant of the stock core, over the tables \<open>lots\<close>, \<open>stocks_lot\<close> and \<open>stock_ledger\<close>:
  keys are unique, foreign keys hold, no balance is negative, every balance is the sum of the
  ledger's deltas, and \<open>after_qty\<close> of a ledger row is the running balance at that row. The
  statements of \<open>Wms_State\<close> are shown to keep it; the components build on these lemmas.
  The last section states the interface of an operation that writes stock as locales.
\<close>

section \<open>The invariant\<close>

definition unique_index :: "('a \<Rightarrow> 'k option) \<Rightarrow> 'a list \<Rightarrow> bool" where
  "unique_index key xs \<longleftrightarrow> distinct (filter (\<lambda>k. k \<noteq> None) (map key xs))"

definition lots_ok :: "db \<Rightarrow> bool" where
  "lots_ok d \<longleftrightarrow>
     distinct (map lot_id (db_lots d)) \<and>
     (\<forall>l \<in> set (db_lots d). lot_checks l \<and> 0 < lot_id l) \<and>
     unique_index required_lot_key (db_lots d) \<and>
     unique_index internal_lot_key (db_lots d)"

definition stocks_ok :: "db \<Rightarrow> bool" where
  "stocks_ok d \<longleftrightarrow>
     distinct (map st_id (db_stocks_lot d)) \<and>
     distinct (map st_dims (db_stocks_lot d)) \<and>
     (\<forall>s \<in> set (db_stocks_lot d). 0 \<le> st_qty s \<and> dims_in_lots d (st_dims s))"

text \<open>\<open>after_qty\<close> continues the running balance of the rows seen so far.\<close>

fun running :: "ledger_row list \<Rightarrow> ledger_row list \<Rightarrow> bool" where
  "running seen [] = True"
| "running seen (r # rs) \<longleftrightarrow>
     led_after_qty r = sum_where led_delta (\<lambda>x. led_dims x = led_dims r) seen + led_delta r \<and>
     0 \<le> led_after_qty r \<and>
     running (seen @ [r]) rs"

definition slot_exists :: "db \<Rightarrow> dims \<Rightarrow> bool" where
  "slot_exists d k \<longleftrightarrow> (\<exists>s \<in> set (db_stocks_lot d). st_dims s = k)"

definition ledger_ok :: "db \<Rightarrow> bool" where
  "ledger_ok d \<longleftrightarrow>
     distinct (map led_id (db_stock_ledger d)) \<and>
     distinct (map led_key (db_stock_ledger d)) \<and>
     (\<forall>r \<in> set (db_stock_ledger d). slot_exists d (led_dims r)) \<and>
     running [] (db_stock_ledger d)"

definition balanced :: "db \<Rightarrow> bool" where
  "balanced d \<longleftrightarrow> (\<forall>k. on_hand d k = balance d k)"

definition books_ok :: "db \<Rightarrow> bool" where
  "books_ok d \<longleftrightarrow>
     lots_ok d \<and> stocks_ok d \<and> ledger_ok d \<and> balanced d"

lemmas books_defs = books_ok_def lots_ok_def stocks_ok_def ledger_ok_def

lemma books_ok_empty: "books_ok empty_db"
  by (simp add: books_defs empty_db_def unique_index_def on_hand_def balance_def balanced_def)

lemma balancedD: "books_ok d \<Longrightarrow> on_hand d k = balance d k"
  by (simp only: books_ok_def balanced_def)

lemma balancedI: "(\<And>k. on_hand d k = balance d k) \<Longrightarrow> balanced d"
  by (simp only: balanced_def) blast

lemma balanced_cong:
  "db_stocks_lot d' = db_stocks_lot d \<Longrightarrow> db_stock_ledger d' = db_stock_ledger d \<Longrightarrow>
   balanced d' = balanced d"
  by (simp only: balanced_def on_hand_def balance_def)

lemmas books_frame = balanced_def on_hand_def balance_def dims_in_lots_def slot_exists_def

section \<open>Unique indexes\<close>

lemma unique_index_Nil [simp]: "unique_index key []"
  by (simp add: unique_index_def)

lemma unique_index_snoc [simp]:
  "unique_index key (xs @ [x]) \<longleftrightarrow> unique_index key xs \<and> \<not> conflicts key x xs"
  by (auto simp: unique_index_def conflicts_def image_iff)

lemma unique_indexD:
  assumes "unique_index key xs" and "x \<in> set xs" and "y \<in> set xs"
    and "key x = key y" and "key x \<noteq> None"
  shows "x = y"
  using assms
proof (induction xs)
  case (Cons a xs)
  have "unique_index key xs" using Cons.prems(1) by (auto simp: unique_index_def split: if_splits)
  moreover have "key a \<noteq> None \<Longrightarrow> key a \<notin> key ` set xs"
    using Cons.prems(1) by (auto simp: unique_index_def split: if_splits)
  ultimately show ?case using Cons by (metis image_eqI set_ConsD)
qed simp

lemma unique_index_map:
  assumes "\<And>x. x \<in> set xs \<Longrightarrow> key (f x) = key x"
  shows "unique_index key (map f xs) = unique_index key xs"
proof -
  have "map key (map f xs) = map key xs" using assms by simp
  then show ?thesis by (simp only: unique_index_def)
qed

section \<open>Sums over tables\<close>

lemma sum_where_map:
  assumes "\<And>x. x \<in> set xs \<Longrightarrow> P (g x) = P x" and "\<And>x. x \<in> set xs \<Longrightarrow> f (g x) = f x"
  shows "sum_where f P (map g xs) = sum_where f P xs"
  using assms by (induction xs) auto

lemma on_hand_row:
  assumes "distinct (map st_dims (db_stocks_lot d))" and "s \<in> set (db_stocks_lot d)"
  shows "on_hand d (st_dims s) = st_qty s"
  using sum_where_unique [OF assms] by (simp add: on_hand_def)

lemma on_hand_absent: "k \<notin> set (map st_dims (db_stocks_lot d)) \<Longrightarrow> on_hand d k = 0"
  by (auto simp: on_hand_def intro!: sum_where_none)

lemma on_hand_nonneg: "stocks_ok d \<Longrightarrow> 0 \<le> on_hand d k"
  by (auto simp: on_hand_def stocks_ok_def intro!: sum_where_nonneg)

lemma on_hand_cong: "db_stocks_lot d' = db_stocks_lot d \<Longrightarrow> on_hand d' k = on_hand d k"
  by (simp add: on_hand_def)

lemma sum_where_set_one:
  assumes "distinct (map k xs)" and "x \<in> set xs" and "\<And>y. k (g y) = k y"
  shows "sum_where f (\<lambda>y. k y = c) (map (\<lambda>y. if k y = k x then g y else y) xs)
         = sum_where f (\<lambda>y. k y = c) xs + (if c = k x then f (g x) - f x else 0)"
  using assms
proof (induction xs)
  case (Cons a xs)
  show ?case
  proof (cases "k a = k x")
    case True
    then have ax: "a = x" using Cons.prems by (auto simp: image_iff dest: distinct_key_unique)
    have "\<forall>y \<in> set xs. k y \<noteq> k x" using Cons.prems(1) ax by (auto simp: image_iff)
    then have "map (\<lambda>y. if k y = k x then g y else y) xs = xs" by (induction xs) auto
    with True ax show ?thesis using Cons.prems(3) by simp
  next
    case False
    then have "x \<in> set xs" using Cons.prems(2) by auto
    with Cons False show ?thesis by simp
  qed
qed simp

section \<open>The running balance\<close>

lemma running_snoc:
  "running seen (rs @ [r]) \<longleftrightarrow>
     running seen rs \<and>
     led_after_qty r = sum_where led_delta (\<lambda>x. led_dims x = led_dims r) (seen @ rs) + led_delta r \<and>
     0 \<le> led_after_qty r"
  by (induction rs arbitrary: seen) (auto simp: ac_simps)

lemma running_map:
  assumes f: "\<And>r. led_dims (f r) = led_dims r" "\<And>r. led_delta (f r) = led_delta r"
    "\<And>r. led_after_qty (f r) = led_after_qty r"
  shows "running (map f seen) (map f rs) = running seen rs"
proof (induction rs arbitrary: seen)
  case (Cons r rs)
  have s: "sum_where led_delta (\<lambda>x. led_dims x = led_dims r) (map f seen)
         = sum_where led_delta (\<lambda>x. led_dims x = led_dims r) seen" for r
    by (rule sum_where_map) (simp_all add: f)
  show ?case using Cons.IH [of "seen @ [r]"] by (simp add: f s)
qed simp

text \<open>The last ledger row of a dimension carries the balance.\<close>

lemma running_last:
  assumes "running [] (xs @ r # ys)" and "\<And>y. y \<in> set ys \<Longrightarrow> led_dims y \<noteq> led_dims r"
  shows "led_after_qty r = sum_where led_delta (\<lambda>x. led_dims x = led_dims r) (xs @ r # ys)"
  using assms
proof (induction ys rule: rev_induct)
  case Nil
  then show ?case by (simp add: running_snoc)
next
  case (snoc y ys)
  have "running [] (xs @ r # ys)" using snoc.prems(1) running_snoc [of "[]" "xs @ r # ys" y] by simp
  with snoc show ?case by simp
qed

section \<open>The statements keep the invariant\<close>

definition set_stock_qty :: "(stock_lot \<Rightarrow> bool) \<Rightarrow> int \<Rightarrow> db \<Rightarrow> db" where
  "set_stock_qty P q d =
     d\<lparr>db_stocks_lot := map (\<lambda>s. if P s then s\<lparr>st_qty := q\<rparr> else s) (db_stocks_lot d)\<rparr>"

lemma st_dims_upd [simp]: "st_dims (s\<lparr>st_qty := q\<rparr>) = st_dims s"
  by (simp add: st_dims_def)

lemma led_upd [simp]: "led_dims (r\<lparr>led_id := i\<rparr>) = led_dims r" "led_key (r\<lparr>led_id := i\<rparr>) = led_key r"
  by (simp_all add: led_dims_def led_key_def)

lemma set_stock_qty_map [simp]:
  "map st_dims (db_stocks_lot (set_stock_qty P q d)) = map st_dims (db_stocks_lot d)"
  "map st_id (db_stocks_lot (set_stock_qty P q d)) = map st_id (db_stocks_lot d)"
  by (simp_all add: set_stock_qty_def if_distrib [of st_dims] if_distrib [of st_id] cong: if_cong)

lemma slot_exists_image: "slot_exists d k \<longleftrightarrow> k \<in> set (map st_dims (db_stocks_lot d))"
  by (auto simp: slot_exists_def)

lemma slot_exists_set_stock_qty [simp]: "slot_exists (set_stock_qty P q d) k = slot_exists d k"
  using arg_cong [OF set_stock_qty_map(1), of set P q d] by (simp add: slot_exists_image)

lemma set_stock_qty_other [simp]:
  "db_lots (set_stock_qty P q d) = db_lots d"
  "db_stock_ledger (set_stock_qty P q d) = db_stock_ledger d"
  "db_wms_events (set_stock_qty P q d) = db_wms_events d"
  "db_warehouses (set_stock_qty P q d) = db_warehouses d"
  by (simp_all add: set_stock_qty_def)

text \<open>A slot is addressed by its id or by its dimensions.\<close>

lemma set_stock_qty_by_id:
  assumes "distinct (map st_id (db_stocks_lot d))" and "distinct (map st_dims (db_stocks_lot d))"
    and "s \<in> set (db_stocks_lot d)"
  shows "set_stock_qty (\<lambda>x. st_id x = st_id s) q d = set_stock_qty (\<lambda>x. st_dims x = st_dims s) q d"
proof -
  have "st_id x = st_id s \<longleftrightarrow> st_dims x = st_dims s" if "x \<in> set (db_stocks_lot d)" for x
    using assms that by (metis distinct_key_unique)
  then show ?thesis by (simp add: set_stock_qty_def)
qed

lemma on_hand_set_stock_qty:
  assumes "distinct (map st_dims (db_stocks_lot d))" and "s \<in> set (db_stocks_lot d)"
  shows "on_hand (set_stock_qty (\<lambda>x. st_dims x = st_dims s) q d) k =
         on_hand d k + (if k = st_dims s then q - st_qty s else 0)"
  using sum_where_set_one [OF assms, where g = "\<lambda>y. y\<lparr>st_qty := q\<rparr>" and f = st_qty and c = k]
  by (simp add: on_hand_def set_stock_qty_def)

lemma stocks_ok_set_stock_qty:
  assumes "stocks_ok d" and "0 \<le> q"
  shows "stocks_ok (set_stock_qty P q d)"
proof -
  have "0 \<le> st_qty x \<and> dims_in_lots d (st_dims x)" if "x \<in> set (db_stocks_lot (set_stock_qty P q d))" for x
    using that assms by (auto simp: set_stock_qty_def stocks_ok_def)
  moreover have "dims_in_lots (set_stock_qty P q d) = dims_in_lots d"
    by (simp add: dims_in_lots_def fun_eq_iff)
  ultimately show ?thesis
    using assms by (simp only: stocks_ok_def set_stock_qty_map) auto
qed

text \<open>Booking: one ledger row and the new balance of its slot.\<close>

definition book :: "ledger_row \<Rightarrow> db \<Rightarrow> db" where
  "book r d = set_stock_qty (\<lambda>s. st_dims s = led_dims r) (led_after_qty r)
     (d\<lparr>db_stock_ledger := db_stock_ledger d @ [r]\<rparr>)"

lemma book_other [simp]:
  "db_lots (book r d) = db_lots d"
  "db_stock_ledger (book r d) = db_stock_ledger d @ [r]"
  "db_wms_events (book r d) = db_wms_events d"
  "db_warehouses (book r d) = db_warehouses d"
  by (simp_all add: book_def)

lemma on_hand_book:
  assumes "books_ok d" and "s \<in> set (db_stocks_lot d)" and "led_dims r = st_dims s"
    and "led_after_qty r = st_qty s + led_delta r"
  shows "on_hand (book r d) k = on_hand d k + (if k = led_dims r then led_delta r else 0)"
proof -
  let ?d = "d\<lparr>db_stock_ledger := db_stock_ledger d @ [r]\<rparr>"
  have "distinct (map st_dims (db_stocks_lot ?d))" "s \<in> set (db_stocks_lot ?d)"
    using assms by (simp_all add: books_defs)
  from on_hand_set_stock_qty [OF this, of "led_after_qty r" k] assms(3,4) show ?thesis
    by (simp add: book_def on_hand_def)
qed

lemma books_ok_book:
  assumes ok: "books_ok d" and s: "s \<in> set (db_stocks_lot d)" and dims: "led_dims r = st_dims s"
    and after: "led_after_qty r = st_qty s + led_delta r" and nn: "0 \<le> led_after_qty r"
    and key: "led_key r \<notin> set (map led_key (db_stock_ledger d))"
    and rid: "led_id r \<notin> set (map led_id (db_stock_ledger d))"
  shows "books_ok (book r d)"
proof -
  have qty: "st_qty s = balance d (led_dims r)"
    using ok s dims on_hand_row [of d s] balancedD [OF ok] by (simp add: books_defs)
  have "on_hand (book r d) k = balance (book r d) k" for k
    using on_hand_book [OF ok s dims after, of k] balancedD [OF ok, of k] by (auto simp: balance_def)
  then have bal: "balanced (book r d)" by (rule balancedI)
  have stk: "stocks_ok (book r d)"
    unfolding book_def
    by (rule stocks_ok_set_stock_qty [OF _ nn]) (use ok in \<open>simp add: books_defs dims_in_lots_def\<close>)
  have led: "ledger_ok (book r d)"
    using ok s dims after nn key rid qty
    by (auto simp: books_defs running_snoc book_def balance_def image_iff)
      (auto simp: slot_exists_def)
  have "lots_ok (book r d)" using ok by (simp add: books_defs)
  with bal stk led show ?thesis by (simp add: books_ok_def)
qed

lemma insert_stock_slot_Inr:
  assumes "insert_stock_slot k d = Inr (u, d')"
  shows "slot_exists d' k"
    and "on_hand d' k' = on_hand d k'"
    and "db_stock_ledger d' = db_stock_ledger d" and "db_lots d' = db_lots d"
    and "db_wms_events d' = db_wms_events d"
    and "books_ok d \<Longrightarrow> books_ok d'"
proof -
  have two: "d' = d \<and> slot_exists d k \<or>
     (dims_in_lots d k \<and> \<not> slot_exists d k \<and>
      d' = d\<lparr>db_stocks_lot := db_stocks_lot d @ [new_slot d k]\<rparr>)"
    using assms by (auto simp: insert_stock_slot_def res_simps slot_exists_def split: if_splits)
  then show "slot_exists d' k" by (auto simp: slot_exists_def)
  from two show "db_stock_ledger d' = db_stock_ledger d" "db_lots d' = db_lots d"
    "db_wms_events d' = db_wms_events d" by auto
  from two show oh: "on_hand d' k' = on_hand d k'" for k' by (auto simp: on_hand_def)
  assume ok: "books_ok d"
  have "balanced d'"
    by (rule balancedI) (use oh two balancedD [OF ok] in \<open>auto simp: balance_def\<close>)
  moreover have "lots_ok d'" "ledger_ok d'" "stocks_ok d'"
    using ok two
    by (auto simp: books_defs dims_in_lots_def slot_exists_def dest: next_id_fresh_row) blast
  ultimately show "books_ok d'" by (simp add: books_ok_def)
qed

lemma insert_lot_Inr:
  assumes "insert_lot ts l d = Inr (r, d')"
  shows "db_stocks_lot d' = db_stocks_lot d" and "db_stock_ledger d' = db_stock_ledger d"
    and "db_wms_events d' = db_wms_events d"
    and "case r of None \<Rightarrow> d' = d
        | Some i \<Rightarrow> i = next_id (map lot_id (db_lots d)) \<and> db_lots d' = db_lots d @ [l\<lparr>lot_id := i\<rparr>]"
    and "books_ok d \<Longrightarrow> books_ok d'"
proof -
  let ?i = "next_id (map lot_id (db_lots d))"
  have two: "r = None \<and> d' = d \<or>
      (r = Some ?i \<and> d' = d\<lparr>db_lots := db_lots d @ [l\<lparr>lot_id := ?i\<rparr>]\<rparr> \<and> lot_checks (l\<lparr>lot_id := ?i\<rparr>) \<and>
       \<not> conflicts required_lot_key (l\<lparr>lot_id := ?i\<rparr>) (db_lots d) \<and>
       \<not> conflicts internal_lot_key (l\<lparr>lot_id := ?i\<rparr>) (db_lots d))"
    using assms by (auto simp: insert_lot_def Let_def res_simps lot_conflict_def split: if_splits)
  then show "db_stocks_lot d' = db_stocks_lot d" "db_stock_ledger d' = db_stock_ledger d"
    "db_wms_events d' = db_wms_events d"
    "case r of None \<Rightarrow> d' = d
        | Some i \<Rightarrow> i = next_id (map lot_id (db_lots d)) \<and> db_lots d' = db_lots d @ [l\<lparr>lot_id := i\<rparr>]"
    by auto
  assume ok: "books_ok d"
  have "balanced d'" using ok two balanced_cong [of d' d] by (auto simp: books_ok_def)
  moreover have "stocks_ok d'" "ledger_ok d'" using ok two by (auto simp: books_defs dims_in_lots_def slot_exists_def)
  moreover have "lots_ok d'" using ok two by (auto simp: books_defs dest: next_id_fresh_row)
  ultimately show "books_ok d'" by (simp add: books_ok_def)
qed

lemma insert_event_Inr:
  assumes "insert_event e d = Inr (row, d')"
  shows "d' = d\<lparr>db_wms_events := db_wms_events d @ [row]\<rparr>"
    and "row = e\<lparr>ev_id := next_id (map ev_id (db_wms_events d))\<rparr>"
    and "books_ok d \<Longrightarrow> books_ok d'" and "on_hand d' k = on_hand d k"
  using assms
  by (auto simp: insert_event_def Let_def res_simps books_defs books_frame)

section \<open>The interface of an operation that writes stock\<close>

text \<open>
  The clients of the stock core are loops over lines that call one writing operation per line.
  What they rely on is the contract below: the operation keeps the books, and it moves the
  quantity on hand by a stated amount per dimension.
\<close>

locale books_keeper =
  fixes wr :: "'a \<Rightarrow> 'b action"
  assumes keeps: "books_ok d \<Longrightarrow> wr a d = Inr (b, d') \<Longrightarrow> books_ok d'"
begin

lemma loop_keeps: "books_ok d \<Longrightarrow> map_loop wr as d = Inr (bs, d') \<Longrightarrow> books_ok d'"
  by (rule map_loop_invariant [where I = books_ok and f = wr]) (auto intro: keeps)

lemma nonneg_after: "books_ok d \<Longrightarrow> wr a d = Inr (b, d') \<Longrightarrow> 0 \<le> on_hand d' k"
  by (drule (1) keeps) (simp add: on_hand_nonneg books_ok_def)

end

locale stock_writer = books_keeper wr
  for wr :: "'a \<Rightarrow> 'b action" +
  fixes effect :: "'a \<Rightarrow> 'b \<Rightarrow> dims \<Rightarrow> int"
  assumes moves: "books_ok d \<Longrightarrow> wr a d = Inr (b, d') \<Longrightarrow> on_hand d' k = on_hand d k + effect a b k"
begin

lemma loop_moves:
  "books_ok d \<Longrightarrow> map_loop wr as d = Inr (bs, d') \<Longrightarrow>
   on_hand d' k = on_hand d k + (\<Sum>(a, b) \<leftarrow> zip as bs. effect a b k)"
proof (induction as arbitrary: d bs)
  case (Cons a as)
  then obtain b t bs' where one: "wr a d = Inr (b, t)" and rest: "map_loop wr as t = Inr (bs', d')"
    and bs: "bs = b # bs'" by (auto simp: res_simps)
  show ?case
    using Cons.IH [OF keeps [OF Cons.prems(1) one] rest] moves [OF Cons.prems(1) one, of k] bs by simp
qed simp

lemma ledger_moves:
  assumes "books_ok d" and "wr a d = Inr (b, d')"
  shows "balance d' k = balance d k + effect a b k"
  using moves [OF assms, of k] balancedD [OF assms(1), of k] balancedD [OF keeps [OF assms], of k] by simp

text \<open>What is taken from a dimension was there.\<close>

lemma takes_at_most:
  assumes "books_ok d" and "wr a d = Inr (b, d')"
  shows "- effect a b k \<le> on_hand d k"
  using moves [OF assms, of k] nonneg_after [OF assms, of k] by simp

end

text \<open>An operation that leaves every balance alone.\<close>

locale stock_neutral = books_keeper wr
  for wr :: "'a \<Rightarrow> 'b action" +
  assumes still: "wr a d = Inr (b, d') \<Longrightarrow> on_hand d' k = on_hand d k"

sublocale stock_neutral \<subseteq> as_writer: stock_writer wr "\<lambda>_ _ _. 0"
  by unfold_locales (simp add: still)

interpretation event_insert: stock_neutral insert_event
  by unfold_locales (auto dest: insert_event_Inr)

interpretation slot_insert: stock_neutral insert_stock_slot
  by unfold_locales (auto dest: insert_stock_slot_Inr)

interpretation lot_insert: stock_neutral "insert_lot ts"
  by unfold_locales (auto dest: insert_lot_Inr intro: on_hand_cong)

end
