(* ===== verification/Lots.thy ===== *)
theory Lots
  imports Books
begin

text \<open>
  Lot identity: \<open>app/wms/stock/services/lots.py\<close> (the only entry points that create lots),
  \<open>lot_service.py\<close>, \<open>lot_resolver.py\<close>, \<open>lot_guard.py\<close> and \<open>stock_contract_resolver.py\<close>.
  An item that requires a batch has one supplier lot per warehouse and production date; any
  other item has one internal lot per warehouse.

  The policy arguments of these functions have the enumerated types of the master data contract,
  so the textual synonyms of units (\<open>_normalize_shelf_life_unit\<close>) and of dates
  (\<open>_normalize_date_value\<close>) do not arise.
\<close>

section \<open>lots.py\<close>

definition pair_or_null :: "int option \<Rightarrow> int option \<Rightarrow> (int option \<times> int option) result" where
  "pair_or_null a b =
     (if a = None \<and> b = None then Inr (None, None)
      else if a \<noteq> None \<and> b \<noteq> None then Inr (a, b)
      else Inl (ValueError ''internal_source_receipt_line_pair_required''))"

definition normalize_positive_int :: "int option \<Rightarrow> int option" where
  "normalize_positive_int v = (case v of None \<Rightarrow> None | Some n \<Rightarrow> if n > 0 then Some n else None)"

definition shift_date_by_shelf_life ::
  "date \<Rightarrow> int option \<Rightarrow> shelf_life_unit option \<Rightarrow> int \<Rightarrow> date option result" where
  "shift_date_by_shelf_life base v u direction =
     (case (v, u) of
        (Some n, Some un) \<Rightarrow>
          (let step = (if direction \<ge> 0 then n else - n);
               shifted = (case un of
                    DAY \<Rightarrow> add_days base step
                  | WEEK \<Rightarrow> add_days base (7 * step)
                  | MONTH \<Rightarrow> lots_add_months base step
                  | YEAR \<Rightarrow> lots_add_years base step)
           in bindR shifted (\<lambda>d. Inr (Some d)))
      | _ \<Rightarrow> Inr None)"

definition load_item_policy :: "policy_reader \<Rightarrow> int \<Rightarrow> item_policy result" where
  "load_item_policy get_item_policy item_id =
     require_some (get_item_policy item_id) (ValueError ''item_not_found'')"

definition item_policy_expiry_context ::
  "item_policy \<Rightarrow> expiry_policy \<times> int option \<times> shelf_life_unit option" where
  "item_policy_expiry_context p =
     (ip_expiry_policy p, normalize_positive_int (ip_shelf_life_value p), ip_shelf_life_unit p)"

text \<open>A new row, with the columns that freeze the item policy at the creation of the lot.\<close>

definition lot_row ::
  "int \<Rightarrow> int \<Rightarrow> lot_code_source \<Rightarrow> string option \<Rightarrow> date option \<Rightarrow> date option \<Rightarrow>
   int option \<Rightarrow> int option \<Rightarrow> item_policy \<Rightarrow> lot" where
  "lot_row w i src code pd ed rid rln p =
     \<lparr>lot_id = 0, lot_warehouse_id = w, lot_item_id = i, lot_source = src, lot_code = code,
       lot_production_date = pd, lot_expiry_date = ed, lot_source_receipt_id = rid,
       lot_source_line_no = rln,
       lot_shelf_life_value = normalize_positive_int (ip_shelf_life_value p),
       lot_shelf_life_unit = ip_shelf_life_unit p, lot_source_policy = ip_lot_source_policy p,
       lot_expiry_policy = ip_expiry_policy p, lot_derivation_allowed = ip_derivation_allowed p,
       lot_uom_governance_enabled = ip_uom_governance_enabled p\<rparr>"

definition get_supplier_lot_by_production_date :: "int \<Rightarrow> int \<Rightarrow> date \<Rightarrow> db \<Rightarrow> int option" where
  "get_supplier_lot_by_production_date item_id warehouse_id pd d =
     map_option lot_id (first_by lot_id
       (\<lambda>l. lot_warehouse_id l = warehouse_id \<and> lot_item_id l = item_id \<and>
            lot_source l = SUPPLIER \<and> lot_production_date l = Some pd)
       (db_lots d))"

definition get_supplier_lot_ids_by_lot_code :: "int \<Rightarrow> int \<Rightarrow> string \<Rightarrow> db \<Rightarrow> int list" where
  "get_supplier_lot_ids_by_lot_code item_id warehouse_id code d =
     take 2 (map lot_id (sort_key lot_id (filter
       (\<lambda>l. lot_warehouse_id l = warehouse_id \<and> lot_item_id l = item_id \<and>
            lot_source l = SUPPLIER \<and> lot_code l = Some code)
       (db_lots d))))"

text \<open>The update re-evaluates the row's checks.\<close>

definition patch_lot_expiry_if_null :: "int \<Rightarrow> date option \<Rightarrow> unit action" where
  "patch_lot_expiry_if_null lid expiry_date d =
     (case expiry_date of
        None \<Rightarrow> Inr ((), d)
      | Some ed \<Rightarrow>
          (let rows = map (\<lambda>l. if lot_id l = lid \<and> lot_expiry_date l = None
                               then l\<lparr>lot_expiry_date := Some ed\<rparr> else l) (db_lots d)
           in bindR (ensure (list_all lot_checks rows) (IntegrityError ''lots check'')) (\<lambda>_.
              Inr ((), d\<lparr>db_lots := rows\<rparr>))))"

definition find_internal_lot :: "int \<Rightarrow> int \<Rightarrow> db \<Rightarrow> int option" where
  "find_internal_lot item_id warehouse_id d =
     map_option lot_id (first_by lot_id
       (\<lambda>l. lot_warehouse_id l = warehouse_id \<and> lot_item_id l = item_id \<and>
            lot_source l = INTERNAL \<and> lot_code l = None)
       (db_lots d))"

definition ensure_internal_lot_singleton ::
  "policy_reader \<Rightarrow> int \<Rightarrow> int \<Rightarrow> int option \<Rightarrow> int option \<Rightarrow> int action" where
  "ensure_internal_lot_singleton get_item_policy item_id warehouse_id source_receipt_id source_line_no d =
     bindR (pair_or_null source_receipt_id source_line_no) (\<lambda>(rid, rln).
     case find_internal_lot item_id warehouse_id d of
       Some lid \<Rightarrow> Inr (lid, d)
     | None \<Rightarrow>
         bindR (load_item_policy get_item_policy item_id) (\<lambda>p.
         bindR (insert_lot [REQUIRED_INDEX, INTERNAL_INDEX]
                  (lot_row warehouse_id item_id INTERNAL None None None rid rln p) d) (\<lambda>(got, d1).
         case got of
           Some lid \<Rightarrow> Inr (lid, d1)
         | None \<Rightarrow>
             (case find_internal_lot item_id warehouse_id d1 of
                Some lid \<Rightarrow> Inr (lid, d1)
              | None \<Rightarrow> Inl (RuntimeError ''ensure_internal_lot_singleton failed'')))))"

definition resolve_lot_dates ::
  "item_policy \<Rightarrow> date option \<Rightarrow> date option \<Rightarrow> (date option \<times> date option) result" where
  "resolve_lot_dates p pd ed =
     (case item_policy_expiry_context p of (expiry_policy, v, u) \<Rightarrow>
        if expiry_policy \<noteq> EXPIRY_REQUIRED then Inr (pd, ed)
        else
          bindR (case (ed, pd) of (None, Some base) \<Rightarrow> shift_date_by_shelf_life base v u 1 | _ \<Rightarrow> Inr ed) (\<lambda>ed1.
          bindR (case (pd, ed1) of (None, Some base) \<Rightarrow> shift_date_by_shelf_life base v u (- 1) | _ \<Rightarrow> Inr pd) (\<lambda>pd1.
          Inr (pd1, ed1))))"

text \<open>
  The three branches of \<open>ensure_lot_full\<close>: a lot found by its code, a lot identified by its
  production date, and the creation of that lot.
\<close>

definition lot_by_code :: "int \<Rightarrow> int \<Rightarrow> string \<Rightarrow> py_error \<Rightarrow> db \<Rightarrow> int result" where
  "lot_by_code item_id warehouse_id code_raw missing d =
     (case get_supplier_lot_ids_by_lot_code item_id warehouse_id code_raw d of
        [lid] \<Rightarrow> Inr lid
      | [] \<Rightarrow> Inl missing
      | _ \<Rightarrow> Inl (ValueError ''supplier_lot_code_ambiguous''))"

definition create_required_lot ::
  "int \<Rightarrow> int \<Rightarrow> string \<Rightarrow> date \<Rightarrow> date \<Rightarrow> item_policy \<Rightarrow> int action" where
  "create_required_lot item_id warehouse_id code_raw pd ed p d =
     bindR (insert_lot [REQUIRED_INDEX]
       (lot_row warehouse_id item_id SUPPLIER (Some code_raw) (Some pd) (Some ed) None None p) d) (\<lambda>(got, d1).
     case got of
       Some lid \<Rightarrow> Inr (lid, d1)
     | None \<Rightarrow>
         (case get_supplier_lot_by_production_date item_id warehouse_id pd d1 of
            Some lid \<Rightarrow> bindR (patch_lot_expiry_if_null lid (Some ed) d1) (\<lambda>(_, d2). Inr (lid, d2))
          | None \<Rightarrow> Inl (RuntimeError ''ensure_lot_full failed'')))"

definition ensure_required_lot ::
  "int \<Rightarrow> int \<Rightarrow> string \<Rightarrow> date \<Rightarrow> date option \<Rightarrow> item_policy \<Rightarrow> int action" where
  "ensure_required_lot item_id warehouse_id code_raw pd ed p d =
     (case get_supplier_lot_by_production_date item_id warehouse_id pd d of
        Some lid \<Rightarrow> bindR (patch_lot_expiry_if_null lid ed d) (\<lambda>(_, d1). Inr (lid, d1))
      | None \<Rightarrow>
          bindR (require_some ed (ValueError ''expiry_date_required_for_required_lot'')) (\<lambda>y.
          create_required_lot item_id warehouse_id code_raw pd y p d))"

definition ensure_lot_full ::
  "policy_reader \<Rightarrow> int \<Rightarrow> int \<Rightarrow> string option \<Rightarrow> date option \<Rightarrow> date option \<Rightarrow> int action" where
  "ensure_lot_full get_item_policy item_id warehouse_id code production_date expiry_date d =
     bindR (normalize_lot_code code) (\<lambda>(code_raw, _).
     bindR (load_item_policy get_item_policy item_id) (\<lambda>p.
     bindR (resolve_lot_dates p production_date expiry_date) (\<lambda>(pd, ed).
     bindR (ensure (case (pd, ed) of (Some x, Some y) \<Rightarrow> x \<le> y | _ \<Rightarrow> True)
              (ValueError ''expiry_date_cannot_be_earlier_than_production_date'')) (\<lambda>_.
     if ip_expiry_policy p = EXPIRY_REQUIRED then
       (case pd of
          None \<Rightarrow>
            bindR (lot_by_code item_id warehouse_id code_raw
                     (ValueError ''production_date_required_for_required_lot'') d) (\<lambda>lid.
            bindR (patch_lot_expiry_if_null lid ed d) (\<lambda>(_, d1). Inr (lid, d1)))
        | Some x \<Rightarrow> ensure_required_lot item_id warehouse_id code_raw x ed p d)
     else
       bindR (lot_by_code item_id warehouse_id code_raw
                (ValueError ''supplier_lot_not_allowed_for_nonrequired_item'') d) (\<lambda>lid.
       Inr (lid, d))))))"

section \<open>lot\_guard.py, lot\_resolver.py, lot\_service.py, stock\_contract\_resolver.py\<close>

definition assert_lot_belongs_to :: "int \<Rightarrow> int \<Rightarrow> int option \<Rightarrow> db \<Rightarrow> unit result" where
  "assert_lot_belongs_to warehouse_id item_id lid d =
     (case lid of
        None \<Rightarrow> Inr ()
      | Some n \<Rightarrow>
          (case find (\<lambda>l. lot_id l = n) (db_lots d) of
             None \<Rightarrow> Inl (ValueError ''lot_not_found'')
           | Some l \<Rightarrow>
               (if lot_warehouse_id l \<noteq> warehouse_id \<or> lot_item_id l \<noteq> item_id
                then Inl (ValueError ''lot_mismatch'') else Inr ())))"

definition requires_batch :: "policy_reader \<Rightarrow> int \<Rightarrow> bool result" where
  "requires_batch get_item_policy item_id =
     bindR (require_some (get_item_policy item_id) (ValueError ''item_not_found'')) (\<lambda>p.
     Inr (ip_expiry_policy p = EXPIRY_REQUIRED))"

definition ensure_supplier_lot_id ::
  "policy_reader \<Rightarrow> int \<Rightarrow> int \<Rightarrow> string \<Rightarrow> date option \<Rightarrow> date option \<Rightarrow> int action" where
  "ensure_supplier_lot_id get_item_policy warehouse_id item_id code pd ed =
     ensure_lot_full get_item_policy item_id warehouse_id (Some code) pd ed"

definition ensure_internal_lot_id :: "policy_reader \<Rightarrow> int \<Rightarrow> int \<Rightarrow> int action" where
  "ensure_internal_lot_id get_item_policy warehouse_id item_id =
     ensure_internal_lot_singleton get_item_policy item_id warehouse_id None None"

definition snapshot_equal :: "lot \<Rightarrow> item_policy \<Rightarrow> bool" where
  "snapshot_equal l p \<longleftrightarrow>
     lot_shelf_life_value l = ip_shelf_life_value p \<and>
     lot_shelf_life_unit l = ip_shelf_life_unit p \<and>
     lot_source_policy l = ip_lot_source_policy p \<and>
     lot_expiry_policy l = ip_expiry_policy p \<and>
     lot_derivation_allowed l = ip_derivation_allowed p \<and>
     lot_uom_governance_enabled l = ip_uom_governance_enabled p"

text \<open>\<open>except ValueError as e: raise HTTPException(422, str(e))\<close>.\<close>

definition value_error_as_422 :: "'a result \<Rightarrow> 'a result" where
  "value_error_as_422 r =
     (case r of Inl (ValueError m) \<Rightarrow> Inl (HTTPException (if m = ''supplier_lot_legacy_key_conflict'' then 409 else 422) m)
      | _ \<Rightarrow> r)"

definition resolve_or_create_lot ::
  "policy_reader \<Rightarrow> int \<Rightarrow> item_policy \<Rightarrow> string \<Rightarrow> string option \<Rightarrow> date option \<Rightarrow> date option \<Rightarrow>
   int option \<Rightarrow> int option \<Rightarrow> int action" where
  "resolve_or_create_lot get_item_policy warehouse_id p source code pd ed rid rln d =
     (let src = py_strip (py_upper source)
      in if src = ''SUPPLIER'' then
           bindR (ensure (norm_text code \<noteq> None) (HTTPException 422 ''supplier_lot_code_required'')) (\<lambda>_.
           bindR (ensure (\<not> (ip_expiry_policy p = EXPIRY_REQUIRED \<and> pd = None))
                    (HTTPException 422 ''production_date_required_for_required_lot'')) (\<lambda>_.
           bindR (value_error_as_422
                    (ensure_lot_full get_item_policy (ip_item_id p) warehouse_id code pd ed d)) (\<lambda>(lid, d1).
           case find (\<lambda>l. lot_id l = lid) (db_lots d1) of
             None \<Rightarrow> Inl (HTTPException 500 ''lot_create_or_resolve_failed'')
           | Some l \<Rightarrow>
               bindR (ensure (snapshot_equal l p) (HTTPException 409 ''lot_snapshot_conflict'')) (\<lambda>_.
               Inr (lot_id l, d1)))))
         else if src = ''INTERNAL'' then
           value_error_as_422 (ensure_internal_lot_singleton get_item_policy (ip_item_id p) warehouse_id rid rln d)
         else Inl (HTTPException 422 ''invalid_lot_code_source''))"

text \<open>\<open>lot_id or await ...\<close>: a lot id of zero counts as absent.\<close>

definition given_lot :: "int option \<Rightarrow> int option" where
  "given_lot lid = (case lid of Some n \<Rightarrow> if n = 0 then None else Some n | None \<Rightarrow> None)"

definition resolve_lot_for_stock_adjust ::
  "policy_reader \<Rightarrow> int \<Rightarrow> int \<Rightarrow> string option \<Rightarrow> int option \<Rightarrow> date option \<Rightarrow> date option \<Rightarrow>
   (int \<times> string option) action" where
  "resolve_lot_for_stock_adjust get_item_policy item_id warehouse_id code lid pd ed d =
     bindR (requires_batch get_item_policy item_id) (\<lambda>rb.
     bindR (validate_lot_code_contract rb code) (\<lambda>code_norm.
     case given_lot lid of
       Some n \<Rightarrow> Inr ((n, code_norm), d)
     | None \<Rightarrow>
         (case code_norm of
            None \<Rightarrow>
              bindR (ensure_internal_lot_id get_item_policy warehouse_id item_id d) (\<lambda>(n, d1).
              Inr ((n, None), d1))
          | Some c \<Rightarrow>
              bindR (ensure_supplier_lot_id get_item_policy warehouse_id item_id c pd ed d) (\<lambda>(n, d1).
              Inr ((n, Some c), d1)))))"

section \<open>What the statements change\<close>

lemma find_unique_id:
  "distinct (map lot_id (db_lots d)) \<Longrightarrow> l \<in> set (db_lots d) \<Longrightarrow>
   find (\<lambda>x. lot_id x = lot_id l) (db_lots d) = Some l"
  by (rule find_Some_iff_unique)

text \<open>Lots are never removed and keep everything but a missing expiry date.\<close>

definition lot_refines :: "lot \<Rightarrow> lot \<Rightarrow> bool" where
  "lot_refines l l' \<longleftrightarrow>
     l' = l \<or> (lot_expiry_date l = None \<and> (\<exists>ed. l' = l\<lparr>lot_expiry_date := Some ed\<rparr>))"

definition lots_extend :: "db \<Rightarrow> db \<Rightarrow> bool" where
  "lots_extend d d' \<longleftrightarrow>
     (\<exists>old new. db_lots d' = old @ new \<and> list_all2 lot_refines (db_lots d) old)"

lemma lot_refines_refl [simp]: "lot_refines l l"
  by (simp add: lot_refines_def)

lemma lots_extend_refl [simp]: "lots_extend d d"
  unfolding lots_extend_def by (rule exI [of _ "db_lots d"]) (simp add: list_all2_same)

lemma lots_extend_snoc: "db_lots d' = db_lots d @ xs \<Longrightarrow> lots_extend d d'"
  unfolding lots_extend_def by (rule exI [of _ "db_lots d"]) (simp add: list_all2_same)

lemma lots_extend_list_all2: "list_all2 lot_refines (db_lots d) (db_lots d') \<Longrightarrow> lots_extend d d'"
  unfolding lots_extend_def by (rule exI [of _ "db_lots d'"], rule exI [of _ "[]"]) simp

lemma patch_lot_Inr:
  assumes "patch_lot_expiry_if_null lid ed d = Inr (u, d')"
  shows "db_stocks_lot d' = db_stocks_lot d" and "db_stock_ledger d' = db_stock_ledger d"
    and "db_wms_events d' = db_wms_events d"
    and "map lot_dims (db_lots d') = map lot_dims (db_lots d)"
    and "books_ok d \<Longrightarrow> books_ok d'"
    and "lots_extend d d'"
proof -
  let ?f = "\<lambda>x l. if lot_id l = lid \<and> lot_expiry_date l = None then l\<lparr>lot_expiry_date := Some x\<rparr> else l"
  have two: "d' = d \<or> (\<exists>x. d' = d\<lparr>db_lots := map (?f x) (db_lots d)\<rparr> \<and> list_all lot_checks (map (?f x) (db_lots d)))"
    using assms by (auto simp: patch_lot_expiry_if_null_def Let_def res_simps split: option.splits)
  then show "db_stocks_lot d' = db_stocks_lot d" "db_stock_ledger d' = db_stock_ledger d"
    "db_wms_events d' = db_wms_events d" by auto
  have f: "lot_dims (?f x l) = lot_dims l" "lot_id (?f x l) = lot_id l"
    "required_lot_key (?f x l) = required_lot_key l" "internal_lot_key (?f x l) = internal_lot_key l"
    "lot_refines l (?f x l)" for x l
    by (auto simp: lot_dims_def required_lot_key_def internal_lot_key_def lot_refines_def split: option.split)
  from two show dims: "map lot_dims (db_lots d') = map lot_dims (db_lots d)" by (auto simp: f)
  from two show "lots_extend d d'"
    by (auto simp: list_all2_conv_all_nth f intro!: lots_extend_list_all2)
  assume ok: "books_ok d"
  have "balanced d'" using ok two balanced_cong [of d' d] by (auto simp: books_ok_def)
  moreover have "stocks_ok d'" "ledger_ok d'" using ok two dims
    by (auto simp: books_defs dims_in_lots_def slot_exists_def simp flip: set_map)
  moreover have "lots_ok d'"
    using two
  proof
    assume "\<exists>x. d' = d\<lparr>db_lots := map (?f x) (db_lots d)\<rparr> \<and> list_all lot_checks (map (?f x) (db_lots d))"
    then obtain x where dd: "d' = d\<lparr>db_lots := map (?f x) (db_lots d)\<rparr>"
      and chk: "list_all lot_checks (map (?f x) (db_lots d))" by blast
    from dd have d': "db_lots d' = map (?f x) (db_lots d)" by simp
    have "map lot_id (db_lots d') = map lot_id (db_lots d)" by (simp add: d' f)
    moreover have "0 < lot_id l" if "l \<in> set (db_lots d')" for l
      using that ok by (auto simp: d' books_defs)
    moreover have "unique_index required_lot_key (db_lots d') = unique_index required_lot_key (db_lots d)"
      "unique_index internal_lot_key (db_lots d') = unique_index internal_lot_key (db_lots d)"
      unfolding d' by (rule unique_index_map, rule f)+
    ultimately show ?thesis using ok chk by (simp add: books_defs d' [symmetric] list_all_iff)
  qed (use ok in \<open>simp add: books_ok_def\<close>)
  ultimately show "books_ok d'" by (simp add: books_ok_def)
qed

section \<open>What resolving a lot does\<close>

lemma get_by_production_date_Some:
  assumes "get_supplier_lot_by_production_date i w x d = Some lid"
  shows "\<exists>l \<in> set (db_lots d). lot_id l = lid \<and> lot_warehouse_id l = w \<and> lot_item_id l = i \<and>
           lot_source l = SUPPLIER \<and> lot_production_date l = Some x"
  using assms by (auto simp: get_supplier_lot_by_production_date_def dest!: first_by_Some)

lemma get_by_lot_code_mem:
  assumes "lid \<in> set (get_supplier_lot_ids_by_lot_code i w c d)"
  shows "\<exists>l \<in> set (db_lots d). lot_id l = lid \<and> lot_warehouse_id l = w \<and> lot_item_id l = i \<and>
           lot_source l = SUPPLIER \<and> lot_code l = Some c"
  using assms by (auto simp: get_supplier_lot_ids_by_lot_code_def dest!: in_set_takeD)

lemma find_internal_lot_Some:
  assumes "find_internal_lot i w d = Some lid"
  shows "\<exists>l \<in> set (db_lots d). lot_id l = lid \<and> lot_warehouse_id l = w \<and> lot_item_id l = i \<and>
           lot_source l = INTERNAL \<and> lot_code l = None"
  using assms by (auto simp: find_internal_lot_def dest!: first_by_Some)

lemma dims_in_lots_iff:
  "dims_in_lots d (w, i, lid) \<longleftrightarrow>
     (\<exists>l \<in> set (db_lots d). lot_id l = lid \<and> lot_warehouse_id l = w \<and> lot_item_id l = i)"
  by (auto simp: dims_in_lots_def lot_dims_def)

text \<open>
  The three ways in which a lot is resolved: it was there, it was there and got its expiry
  date, or it was created.
\<close>

inductive lot_step :: "int \<Rightarrow> int \<Rightarrow> db \<Rightarrow> int \<Rightarrow> db \<Rightarrow> bool" for w i d where
  found: "dims_in_lots d (w, i, lid) \<Longrightarrow> lot_step w i d lid d"
| patched: "dims_in_lots d (w, i, lid) \<Longrightarrow> patch_lot_expiry_if_null lid ed d = Inr (u, d') \<Longrightarrow>
    lot_step w i d lid d'"
| created: "insert_lot ts row d = Inr (Some lid, d') \<Longrightarrow> lot_warehouse_id row = w \<Longrightarrow>
    lot_item_id row = i \<Longrightarrow> lot_step w i d lid d'"

lemma lot_step_effect:
  assumes "lot_step w i d lid d'"
  shows "db_stocks_lot d' = db_stocks_lot d" and "db_stock_ledger d' = db_stock_ledger d"
    and "db_wms_events d' = db_wms_events d" and "dims_in_lots d' (w, i, lid)"
    and "lots_extend d d'" and "books_ok d \<Longrightarrow> books_ok d'" and "on_hand d' k = on_hand d k"
proof -
  show st: "db_stocks_lot d' = db_stocks_lot d"
    using assms by cases (simp_all add: patch_lot_Inr(1) insert_lot_Inr(1))
  show "db_stock_ledger d' = db_stock_ledger d"
    using assms by cases (simp_all add: patch_lot_Inr(2) insert_lot_Inr(2))
  show "db_wms_events d' = db_wms_events d"
    using assms by cases (simp_all add: patch_lot_Inr(3) insert_lot_Inr(3))
  show "books_ok d'" if "books_ok d"
    using assms by cases (use that in \<open>blast dest: patch_lot_Inr(5) insert_lot_Inr(5)\<close>)+
  from st show "on_hand d' k = on_hand d k" by (rule on_hand_cong)
  show "dims_in_lots d' (w, i, lid)"
    using assms
  proof cases
    case (patched ed u)
    with patch_lot_Inr(4) [OF patched(2)] show ?thesis by (simp add: dims_in_lots_def del: set_map)
  next
    case (created ts row)
    with insert_lot_Inr(4) [OF created(1)] show ?thesis by (auto simp: dims_in_lots_iff)
  qed simp
  show "lots_extend d d'"
    using assms
  proof cases
    case (created ts row)
    with insert_lot_Inr(4) [OF created(1)] show ?thesis by (auto intro: lots_extend_snoc)
  qed (auto dest: patch_lot_Inr(6))
qed

lemma ensure_internal_lot_step:
  assumes "ensure_internal_lot_singleton pol i w rid rln d = Inr (lid, d')"
  shows "lot_step w i d lid d'"
proof (cases "find_internal_lot i w d")
  case (Some l)
  then have "dims_in_lots d (w, i, l)" by (auto simp: dims_in_lots_iff dest: find_internal_lot_Some)
  with assms Some show ?thesis
    by (auto simp: ensure_internal_lot_singleton_def res_simps intro: lot_step.found)
next
  case None
  from assms None obtain a b p got d1 where
      ins: "insert_lot [REQUIRED_INDEX, INTERNAL_INDEX] (lot_row w i INTERNAL None None None a b p) d = Inr (got, d1)"
    and res: "(case got of Some l \<Rightarrow> Inr (l, d1)
         | None \<Rightarrow> (case find_internal_lot i w d1 of Some l \<Rightarrow> Inr (l, d1)
              | None \<Rightarrow> Inl (RuntimeError ''ensure_internal_lot_singleton failed''))) = Inr (lid, d')"
    by (auto simp: ensure_internal_lot_singleton_def res_simps)
  show ?thesis
  proof (cases got)
    case (Some l)
    with ins res show ?thesis by (auto simp: lot_row_def intro: lot_step.created)
  next
    case None
    with insert_lot_Inr(4) [OF ins] have "d1 = d" by simp
    with None \<open>find_internal_lot i w d = None\<close> res show ?thesis by simp
  qed
qed

lemma lot_by_code_Inr: "lot_by_code i w c e d = Inr lid \<Longrightarrow> get_supplier_lot_ids_by_lot_code i w c d = [lid]"
  by (auto simp: lot_by_code_def split: list.splits)

lemma lot_by_code_dims: "lot_by_code i w c e d = Inr lid \<Longrightarrow> dims_in_lots d (w, i, lid)"
  by (drule lot_by_code_Inr) (use get_by_lot_code_mem [of lid i w c d] in \<open>auto simp: dims_in_lots_iff\<close>)

lemma lot_by_date_dims:
  "get_supplier_lot_by_production_date i w x d = Some lid \<Longrightarrow> dims_in_lots d (w, i, lid)"
  by (auto simp: dims_in_lots_iff dest: get_by_production_date_Some)

lemma create_required_lot_step:
  assumes "create_required_lot i w c x y p d = Inr (lid, d')"
  shows "lot_step w i d lid d'"
proof -
  from assms obtain got d1 where
      ins: "insert_lot [REQUIRED_INDEX] (lot_row w i SUPPLIER (Some c) (Some x) (Some y) None None p) d = Inr (got, d1)"
    and res: "(case got of Some lid \<Rightarrow> Inr (lid, d1)
      | None \<Rightarrow> (case get_supplier_lot_by_production_date i w x d1 of
            Some lid \<Rightarrow> bindR (patch_lot_expiry_if_null lid (Some y) d1) (\<lambda>(_, d2). Inr (lid, d2))
          | None \<Rightarrow> Inl (RuntimeError ''ensure_lot_full failed''))) = Inr (lid, d')"
    by (auto simp: create_required_lot_def res_simps)
  show ?thesis
  proof (cases got)
    case (Some l)
    with ins res show ?thesis by (auto simp: lot_row_def intro: lot_step.created)
  next
    case None
    with insert_lot_Inr(4) [OF ins] have "d1 = d" by simp
    with None res show ?thesis
      by (auto simp: res_simps intro: lot_step.patched lot_by_date_dims split: option.splits)
  qed
qed

lemma ensure_required_lot_step:
  "ensure_required_lot i w c x ed p d = Inr (lid, d') \<Longrightarrow> lot_step w i d lid d'"
  by (auto simp: ensure_required_lot_def res_simps
      intro: lot_step.patched create_required_lot_step lot_by_date_dims split: option.splits)

lemma ensure_lot_full_step:
  assumes "ensure_lot_full pol i w c pd ed d = Inr (lid, d')"
  shows "lot_step w i d lid d'"
  using assms
  by (auto simp: ensure_lot_full_def res_simps
      intro: lot_step.found lot_step.patched ensure_required_lot_step lot_by_code_dims
      split: if_splits option.splits)

lemma value_error_as_422_Inr [res_simps]: "value_error_as_422 r = Inr y \<longleftrightarrow> r = Inr y"
  by (auto simp: value_error_as_422_def split: sum.splits py_error.splits)

lemma resolve_or_create_lot_step:
  assumes "resolve_or_create_lot pol w p src c pd ed rid rln d = Inr (lid, d')"
  shows "lot_step w (ip_item_id p) d lid d'"
proof -
  have "ensure_lot_full pol (ip_item_id p) w c pd ed d = Inr (lid, d') \<or>
        ensure_internal_lot_singleton pol (ip_item_id p) w rid rln d = Inr (lid, d')"
    using assms
    by (auto simp only: resolve_or_create_lot_def Let_def res_simps prod.case split: if_splits option.splits)
      (auto dest: find_SomeD)
  then show ?thesis by (auto intro: ensure_lot_full_step ensure_internal_lot_step)
qed

lemma resolve_lot_for_stock_adjust_step:
  assumes "resolve_lot_for_stock_adjust pol i w c lid pd ed d = Inr ((n, c'), d')" and "given_lot lid = None"
  shows "lot_step w i d n d'"
  using assms
  by (auto simp: resolve_lot_for_stock_adjust_def res_simps ensure_internal_lot_id_def
      ensure_supplier_lot_id_def intro: ensure_lot_full_step ensure_internal_lot_step
      split: option.splits)

lemma assert_lot_belongs_to_Inr:
  assumes "distinct (map lot_id (db_lots d))"
  shows "assert_lot_belongs_to w i (Some lid) d = Inr u \<longleftrightarrow> dims_in_lots d (w, i, lid)"
proof
  show "assert_lot_belongs_to w i (Some lid) d = Inr u \<Longrightarrow> dims_in_lots d (w, i, lid)"
    by (auto simp: assert_lot_belongs_to_def dims_in_lots_iff dest!: find_SomeD split: option.splits if_splits)
next
  assume "dims_in_lots d (w, i, lid)"
  then obtain l where "l \<in> set (db_lots d)" "lot_id l = lid" "lot_warehouse_id l = w" "lot_item_id l = i"
    by (auto simp: dims_in_lots_iff)
  with find_unique_id [OF assms] show "assert_lot_belongs_to w i (Some lid) d = Inr u"
    by (auto simp: assert_lot_belongs_to_def)
qed

interpretation internal_lot: stock_neutral "\<lambda>(i, w, rid, rln). ensure_internal_lot_singleton pol i w rid rln"
  by unfold_locales (auto dest!: ensure_internal_lot_step dest: lot_step_effect)

interpretation supplier_lot: stock_neutral "\<lambda>(i, w, c, pd, ed). ensure_lot_full pol i w c pd ed"
  by unfold_locales (auto dest!: ensure_lot_full_step dest: lot_step_effect)

section \<open>Lot identity\<close>

lemma first_by_the_only:
  assumes "x \<in> set xs" and "P x" and "\<And>y. y \<in> set xs \<Longrightarrow> P y \<Longrightarrow> y = x"
  shows "first_by k P xs = Some x"
proof (cases "first_by k P xs")
  case None
  with assms(1,2) show ?thesis by (auto simp: first_by_None)
next
  case (Some y)
  then have "y = x" using first_by_Some [OF Some] by (intro assms(3)) auto
  with Some show ?thesis by simp
qed

lemma required_lot_unique:
  assumes ok: "books_ok d" and l: "l \<in> set (db_lots d)" "lot_warehouse_id l = w" "lot_item_id l = i"
    "lot_source l = SUPPLIER" "lot_production_date l = Some x"
  shows "get_supplier_lot_by_production_date i w x d = Some (lot_id l)"
proof -
  have key: "required_lot_key y = Some (w, i, x)"
    if "y \<in> set (db_lots d)" "lot_warehouse_id y = w" "lot_item_id y = i" "lot_source y = SUPPLIER"
      "lot_production_date y = Some x" for y
    using ok that by (auto simp: books_defs lot_checks_def required_lot_key_def)
  have "unique_index required_lot_key (db_lots d)" using ok by (simp add: books_defs)
  then have "y = l" if "y \<in> set (db_lots d)" "lot_warehouse_id y = w" "lot_item_id y = i"
      "lot_source y = SUPPLIER" "lot_production_date y = Some x" for y
    by (rule unique_indexD) (use key that l in auto)
  then have "first_by lot_id (\<lambda>l. lot_warehouse_id l = w \<and> lot_item_id l = i \<and>
      lot_source l = SUPPLIER \<and> lot_production_date l = Some x) (db_lots d) = Some l"
    by (intro first_by_the_only conjI l) blast
  then show ?thesis by (simp add: get_supplier_lot_by_production_date_def)
qed

lemma internal_lot_unique:
  assumes ok: "books_ok d" and l: "l \<in> set (db_lots d)" "lot_warehouse_id l = w" "lot_item_id l = i"
    "lot_source l = INTERNAL" "lot_code l = None"
  shows "find_internal_lot i w d = Some (lot_id l)"
proof -
  have "unique_index internal_lot_key (db_lots d)" using ok by (simp add: books_defs)
  then have "y = l" if "y \<in> set (db_lots d)" "lot_warehouse_id y = w" "lot_item_id y = i"
      "lot_source y = INTERNAL" "lot_code y = None" for y
    by (rule unique_indexD) (use that l in \<open>auto simp: internal_lot_key_def\<close>)
  then have "first_by lot_id (\<lambda>l. lot_warehouse_id l = w \<and> lot_item_id l = i \<and>
      lot_source l = INTERNAL \<and> lot_code l = None) (db_lots d) = Some l"
    by (intro first_by_the_only conjI l) blast
  then show ?thesis by (simp add: find_internal_lot_def)
qed

lemma patch_lot_mem:
  assumes "patch_lot_expiry_if_null lid ed d = Inr (u, d')" and "l \<in> set (db_lots d)"
  shows "\<exists>l' \<in> set (db_lots d'). lot_refines l l'"
proof (cases ed)
  case None
  with assms show ?thesis by (auto simp: patch_lot_expiry_if_null_def intro: lot_refines_refl)
next
  case (Some x)
  with assms have "db_lots d' = map (\<lambda>l. if lot_id l = lid \<and> lot_expiry_date l = None
      then l\<lparr>lot_expiry_date := Some x\<rparr> else l) (db_lots d)"
    by (auto simp: patch_lot_expiry_if_null_def Let_def res_simps)
  with assms(2) show ?thesis
    by (intro bexI [of _ "if lot_id l = lid \<and> lot_expiry_date l = None
        then l\<lparr>lot_expiry_date := Some x\<rparr> else l"]) (auto simp: lot_refines_def)
qed

lemma lot_refines_same:
  assumes "lot_refines l l'"
  shows "lot_id l' = lot_id l" "lot_warehouse_id l' = lot_warehouse_id l" "lot_item_id l' = lot_item_id l"
    "lot_source l' = lot_source l" "lot_code l' = lot_code l"
    "lot_production_date l' = lot_production_date l" "lot_expiry_policy l' = lot_expiry_policy l"
  using assms by (auto simp: lot_refines_def)

lemma patch_required_lot:
  assumes ok: "books_ok d" and p: "patch_lot_expiry_if_null lid ed d = Inr (u, d')"
    and g: "get_supplier_lot_by_production_date i w x d = Some lid"
  shows "get_supplier_lot_by_production_date i w x d' = Some lid"
proof -
  from get_by_production_date_Some [OF g] obtain l where l: "l \<in> set (db_lots d)" "lot_id l = lid"
    "lot_warehouse_id l = w" "lot_item_id l = i" "lot_source l = SUPPLIER" "lot_production_date l = Some x"
    by blast
  from patch_lot_mem [OF p l(1)] obtain l' where "l' \<in> set (db_lots d')" "lot_refines l l'" by blast
  with required_lot_unique [OF patch_lot_Inr(5) [OF p ok], of l' w i x] l show ?thesis
    by (simp add: lot_refines_same)
qed

lemma create_required_lot_found:
  assumes ok: "books_ok d" and c: "create_required_lot i w c x y p d = Inr (lid, d')"
  shows "get_supplier_lot_by_production_date i w x d' = Some lid"
proof -
  from c obtain got d1 where
      ins: "insert_lot [REQUIRED_INDEX] (lot_row w i SUPPLIER (Some c) (Some x) (Some y) None None p) d = Inr (got, d1)"
    and res: "(case got of Some lid \<Rightarrow> Inr (lid, d1)
      | None \<Rightarrow> (case get_supplier_lot_by_production_date i w x d1 of
            Some lid \<Rightarrow> bindR (patch_lot_expiry_if_null lid (Some y) d1) (\<lambda>(_, d2). Inr (lid, d2))
          | None \<Rightarrow> Inl (RuntimeError ''ensure_lot_full failed''))) = Inr (lid, d')"
    by (auto simp: create_required_lot_def res_simps)
  note ok1 = insert_lot_Inr(5) [OF ins ok]
  show ?thesis
  proof (cases got)
    case (Some l)
    with ins res insert_lot_Inr(4) [OF ins] show ?thesis
      using required_lot_unique [OF ok1, of "(lot_row w i SUPPLIER (Some c) (Some x) (Some y) None None p)\<lparr>lot_id := l\<rparr>" w i x]
      by (simp add: lot_row_def)
  next
    case None
    with res ok1 show ?thesis by (auto simp: res_simps intro: patch_required_lot split: option.splits)
  qed
qed

lemma ensure_required_lot_found:
  assumes ok: "books_ok d" and e: "ensure_required_lot i w c x ed p d = Inr (lid, d')"
  shows "get_supplier_lot_by_production_date i w x d' = Some lid"
  using e ok
  by (auto simp: ensure_required_lot_def res_simps intro: patch_required_lot create_required_lot_found
      split: option.splits)

lemma patch_lot_idem:
  assumes "patch_lot_expiry_if_null lid ed d = Inr (u, d')"
  shows "patch_lot_expiry_if_null lid ed d' = Inr ((), d')"
proof (cases ed)
  case (Some x)
  define f where "f l = (if lot_id l = lid \<and> lot_expiry_date l = None
      then l\<lparr>lot_expiry_date := Some x\<rparr> else l)" for l :: lot
  have ff: "f (f l) = f l" for l by (simp add: f_def)
  have "d' = d\<lparr>db_lots := map f (db_lots d)\<rparr>" "list_all lot_checks (map f (db_lots d))"
    using assms Some by (auto simp: patch_lot_expiry_if_null_def Let_def res_simps f_def [abs_def])
  then show ?thesis
    using Some by (simp add: patch_lot_expiry_if_null_def Let_def f_def [abs_def, symmetric] comp_def ff list.pred_map)
qed (use assms in \<open>simp add: patch_lot_expiry_if_null_def\<close>)

text \<open>Resolving the same lot again finds it, and changes nothing.\<close>

lemma ensure_required_lot_idem:
  assumes ok: "books_ok d" and e: "ensure_required_lot i w c x ed p d = Inr (lid, d')"
  shows "ensure_required_lot i w c x ed p d' = Inr (lid, d')"
proof -
  have g: "get_supplier_lot_by_production_date i w x d' = Some lid"
    by (rule ensure_required_lot_found [OF ok e])
  have "patch_lot_expiry_if_null lid ed d' = Inr ((), d')"
  proof (cases "get_supplier_lot_by_production_date i w x d")
    case (Some l)
    with e show ?thesis by (auto simp: ensure_required_lot_def res_simps intro: patch_lot_idem)
  next
    case None
    then obtain y where y: "ed = Some y" and cr: "create_required_lot i w c x y p d = Inr (lid, d')"
      using e by (auto simp: ensure_required_lot_def res_simps)
    have okd: "books_ok d'" using lot_step_effect(6) [OF ensure_required_lot_step [OF e]] ok by simp
    have "lot_expiry_date l \<noteq> None" if "l \<in> set (db_lots d')" "lot_id l = lid" for l
    proof -
      from get_by_production_date_Some [OF g] obtain m where m: "m \<in> set (db_lots d')" "lot_id m = lid"
        "lot_source m = SUPPLIER" "lot_production_date m = Some x" by blast
      have "l = m" using okd that m distinct_key_unique [of lot_id "db_lots d'" l m] by (simp add: books_defs)
      with m okd show ?thesis by (auto simp: books_defs lot_checks_def)
    qed
    then have "map (\<lambda>l. if lot_id l = lid \<and> lot_expiry_date l = None
        then l\<lparr>lot_expiry_date := Some y\<rparr> else l) (db_lots d') = db_lots d'"
      by (intro map_idI) auto
    with okd y show ?thesis by (simp add: patch_lot_expiry_if_null_def list_all_iff books_defs)
  qed
  with g show ?thesis by (simp add: ensure_required_lot_def)
qed

lemma map_insort_key: "map k (insort_key k x xs) = insort (k x) (map k xs)"
  by (induction xs) auto

lemma map_sort_key: "map k (sort_key k xs) = sort (map k xs)"
  by (induction xs) (auto simp: map_insort_key)

lemma patch_lot_codes:
  assumes p: "patch_lot_expiry_if_null lid ed d = Inr (u, d')"
  shows "get_supplier_lot_ids_by_lot_code i w c d' = get_supplier_lot_ids_by_lot_code i w c d"
proof (cases ed)
  case (Some x)
  define f where "f l = (if lot_id l = lid \<and> lot_expiry_date l = None
      then l\<lparr>lot_expiry_date := Some x\<rparr> else l)" for l :: lot
  have d': "db_lots d' = map f (db_lots d)"
    using p Some by (auto simp: patch_lot_expiry_if_null_def Let_def res_simps f_def [abs_def])
  have f: "lot_id (f l) = lot_id l" "lot_warehouse_id (f l) = lot_warehouse_id l" "lot_item_id (f l) = lot_item_id l"
    "lot_source (f l) = lot_source l" "lot_code (f l) = lot_code l" for l by (simp_all add: f_def)
  show ?thesis by (simp add: get_supplier_lot_ids_by_lot_code_def d' filter_map comp_def f map_sort_key)
qed (use p in \<open>simp add: patch_lot_expiry_if_null_def\<close>)

lemma ensure_lot_full_idem:
  assumes ok: "books_ok d" and e: "ensure_lot_full pol i w c pd ed d = Inr (lid, d')"
  shows "ensure_lot_full pol i w c pd ed d' = Inr (lid, d')"
proof -
  let ?err = "ValueError ''production_date_required_for_required_lot''"
  from e obtain c1 c2 p pd' ed' where pre: "normalize_lot_code c = Inr (c1, c2)" "load_item_policy pol i = Inr p"
      "resolve_lot_dates p pd ed = Inr (pd', ed')" "case (pd', ed') of (Some x, Some y) \<Rightarrow> x \<le> y | _ \<Rightarrow> True"
    by (auto simp: ensure_lot_full_def res_simps)
  consider "ip_expiry_policy p \<noteq> EXPIRY_REQUIRED" | "ip_expiry_policy p = EXPIRY_REQUIRED" "pd' = None"
    | x where "ip_expiry_policy p = EXPIRY_REQUIRED" "pd' = Some x" by (cases pd') auto
  then show ?thesis
  proof cases
    case 1
    then have "d' = d" using e pre by (auto simp: ensure_lot_full_def res_simps)
    with e show ?thesis by simp
  next
    case 2
    then have l: "lot_by_code i w c1 ?err d = Inr lid" and q: "patch_lot_expiry_if_null lid ed' d = Inr ((), d')"
      using e pre by (auto simp: ensure_lot_full_def res_simps)
    have "lot_by_code i w c1 ?err d' = Inr lid"
      using l patch_lot_codes [OF q, of i w c1] by (simp add: lot_by_code_def)
    with 2 pre patch_lot_idem [OF q] show ?thesis by (simp add: ensure_lot_full_def)
  next
    case 3
    then have "ensure_required_lot i w c1 x ed' p d = Inr (lid, d')"
      using e pre by (simp add: ensure_lot_full_def res_simps)
    from ensure_required_lot_idem [OF ok this] 3 pre show ?thesis by (simp add: ensure_lot_full_def)
  qed
qed

lemma ensure_internal_lot_found:
  assumes ok: "books_ok d" and e: "ensure_internal_lot_singleton pol i w rid rln d = Inr (lid, d')"
  shows "find_internal_lot i w d' = Some lid"
proof (cases "find_internal_lot i w d")
  case (Some l)
  with e show ?thesis by (auto simp: ensure_internal_lot_singleton_def res_simps)
next
  case None
  with e obtain a b p got d1 where
      ins: "insert_lot [REQUIRED_INDEX, INTERNAL_INDEX] (lot_row w i INTERNAL None None None a b p) d = Inr (got, d1)"
    and res: "(case got of Some l \<Rightarrow> Inr (l, d1)
         | None \<Rightarrow> (case find_internal_lot i w d1 of Some l \<Rightarrow> Inr (l, d1)
              | None \<Rightarrow> Inl (RuntimeError ''ensure_internal_lot_singleton failed''))) = Inr (lid, d')"
    by (auto simp: ensure_internal_lot_singleton_def res_simps)
  show ?thesis
  proof (cases got)
    case (Some l)
    with res insert_lot_Inr(4) [OF ins] show ?thesis
      using internal_lot_unique [OF insert_lot_Inr(5) [OF ins ok],
          of "(lot_row w i INTERNAL None None None a b p)\<lparr>lot_id := l\<rparr>" w i]
      by (simp add: lot_row_def)
  qed (use res in \<open>auto split: option.splits\<close>)
qed

end
