(* ===== verification/Ledger.thy ===== *)
theory Ledger
  imports Lots
begin

text \<open>
  The stock ledger writer, \<open>app/wms/ledger/services/ledger_writer.py\<close>: an insert that is skipped
  when the idempotency key is present, followed in that case by a patch that only fills
  columns that are null. Production and expiry dates are kept on receipts only.
\<close>

section \<open>ledger\_writer.py\<close>

definition canon_reason :: "string \<Rightarrow> string option" where
  "canon_reason reason =
     (let r = py_upper (py_strip reason)
      in if r = [] then None
         else if r \<in> {''RECEIPT'', ''INBOUND'', ''RECEIVE'', ''RETURN'', ''RETURN_IN'',
                       ''RETURN_CUSTOMER'', ''RMA_IN''} then Some ''RECEIPT''
         else if r \<in> {''SHIPMENT'', ''SHIP'', ''OUTBOUND'', ''OUTBOUND_SHIP'', ''OUTBOUND_COMMIT'',
                       ''DISPATCH'', ''RETURN_OUT'', ''RTV''} then Some ''SHIPMENT''
         else if r \<in> {''ADJUSTMENT'', ''ADJUST'', ''COUNT'', ''PICK'', ''PACK'', ''SCRAP'',
                       ''CORRECT'', ''MANUAL_ADJUST''} then Some ''ADJUSTMENT''
         else None)"

definition need_patch ::
  "string option \<Rightarrow> string option \<Rightarrow> string option \<Rightarrow> int option \<Rightarrow> date option \<Rightarrow> date option \<Rightarrow> bool" where
  "need_patch canon sub_reason trace_id event_id pd ed \<longleftrightarrow>
     canon \<noteq> None \<or> sub_reason \<noteq> None \<or> trace_id \<noteq> None \<or> event_id \<noteq> None \<or> pd \<noteq> None \<or> ed \<noteq> None"

definition coalesce :: "'a option \<Rightarrow> 'a option \<Rightarrow> 'a option" where
  "coalesce a b = (case a of None \<Rightarrow> b | Some _ \<Rightarrow> a)"

definition patch_row :: "ledger_row \<Rightarrow> ledger_row \<Rightarrow> ledger_row" where
  "patch_row new r =
     r\<lparr>led_reason_canon := coalesce (led_reason_canon r) (led_reason_canon new),
       led_sub_reason := coalesce (led_sub_reason r) (led_sub_reason new),
       led_trace_id := coalesce (led_trace_id r) (led_trace_id new),
       led_event_id := coalesce (led_event_id r) (led_event_id new),
       led_production_date := coalesce (led_production_date r) (led_production_date new),
       led_expiry_date := coalesce (led_expiry_date r) (led_expiry_date new)\<rparr>"

text \<open>The row that \<open>write_ledger\<close> builds from its arguments (\<open>base_values\<close>).\<close>

definition base_values ::
  "int \<Rightarrow> int \<Rightarrow> string \<Rightarrow> string option \<Rightarrow> int \<Rightarrow> int \<Rightarrow> string \<Rightarrow> int \<Rightarrow> datetime \<Rightarrow> string option \<Rightarrow>
   int option \<Rightarrow> date option \<Rightarrow> date option \<Rightarrow> int \<Rightarrow> ledger_row" where
  "base_values w i reason sub_reason delta after ref ref_line occurred_at trace_id event_id pd ed lid =
     (let canon = canon_reason reason; receipt = (canon = Some ''RECEIPT'')
      in \<lparr>led_id = 0, led_warehouse_id = w, led_item_id = i, led_lot_id = lid, led_reason = reason,
          led_reason_canon = canon, led_sub_reason = sub_reason, led_ref = ref, led_ref_line = ref_line,
          led_delta = delta, led_after_qty = after, led_occurred_at = occurred_at,
          led_trace_id = trace_id, led_event_id = event_id,
          led_production_date = (if receipt then pd else None),
          led_expiry_date = (if receipt then ed else None)\<rparr>)"

definition write_ledger ::
  "int \<Rightarrow> int \<Rightarrow> string \<Rightarrow> string option \<Rightarrow> int \<Rightarrow> int \<Rightarrow> string \<Rightarrow> int \<Rightarrow> datetime \<Rightarrow> string option \<Rightarrow>
   int option \<Rightarrow> date option \<Rightarrow> date option \<Rightarrow> int \<Rightarrow> int action" where
  "write_ledger w i reason sub_reason delta after ref ref_line occurred_at trace_id event_id pd ed lid d =
     bindR (assert_lot_belongs_to w i (Some lid) d) (\<lambda>_.
     (let row = base_values w i reason sub_reason delta after ref ref_line occurred_at trace_id event_id pd ed lid
      in bindR (insert_ledger True row d) (\<lambda>(new_id, d1).
         case new_id of
           Some n \<Rightarrow> Inr (n, d1)
         | None \<Rightarrow>
             (if \<not> need_patch (led_reason_canon row) sub_reason trace_id event_id
                    (led_production_date row) (led_expiry_date row)
              then Inr (0, d1)
              else
                (let rows = map (\<lambda>r. if led_key r = led_key row then patch_row row r else r) (db_stock_ledger d1)
                 in bindR (ensure (list_all (\<lambda>r. event_fk d1 (led_event_id r)) rows)
                      (IntegrityError ''fk_stock_ledger_event'')) (\<lambda>_.
                    Inr (0, d1\<lparr>db_stock_ledger := rows\<rparr>)))))))"

section \<open>Properties\<close>

lemma patch_row_same [simp]:
  "led_id (patch_row n r) = led_id r" "led_key (patch_row n r) = led_key r"
  "led_dims (patch_row n r) = led_dims r" "led_delta (patch_row n r) = led_delta r"
  "led_after_qty (patch_row n r) = led_after_qty r" "led_reason (patch_row n r) = led_reason r"
  by (simp_all add: patch_row_def led_key_def led_dims_def)

lemma base_values_simps [simp]:
  "led_dims (base_values w i re su de af rf rl oc tr ev pd ed lid) = (w, i, lid)"
  "led_key (base_values w i re su de af rf rl oc tr ev pd ed lid) = (re, rf, rl, (w, i, lid))"
  "led_delta (base_values w i re su de af rf rl oc tr ev pd ed lid) = de"
  "led_after_qty (base_values w i re su de af rf rl oc tr ev pd ed lid) = af"
  "led_reason (base_values w i re su de af rf rl oc tr ev pd ed lid) = re"
  "led_reason_canon (base_values w i re su de af rf rl oc tr ev pd ed lid) = canon_reason re"
  "led_event_id (base_values w i re su de af rf rl oc tr ev pd ed lid) = ev"
  by (simp_all add: base_values_def Let_def led_dims_def led_key_def)

lemma insert_ledger_Inr:
  assumes "insert_ledger dn r d = Inr (Some n, d')"
  shows "n = next_id (map led_id (db_stock_ledger d))"
    and "d' = d\<lparr>db_stock_ledger := db_stock_ledger d @ [r\<lparr>led_id := n\<rparr>]\<rparr>"
    and "led_key r \<notin> set (map led_key (db_stock_ledger d))"
    and "dims_in_lots d (led_dims r)" and "event_fk d (led_event_id r)"
  using assms by (auto simp: insert_ledger_def Let_def res_simps image_iff split: if_splits)

lemma insert_ledger_fresh:
  assumes "led_key r \<notin> set (map led_key (db_stock_ledger d))" and "insert_ledger dn r d = Inr (m, d')"
  shows "m = Some (next_id (map led_id (db_stock_ledger d)))"
  using assms by (auto simp: insert_ledger_def Let_def res_simps image_iff split: if_splits)

text \<open>Writing a fresh key appends one row.\<close>

lemma write_ledger_fresh:
  assumes "write_ledger w i re su de af rf rl oc tr ev pd ed lid d = Inr (n, d')"
    and "(re, rf, rl, (w, i, lid)) \<notin> set (map led_key (db_stock_ledger d))"
  shows "d' = d\<lparr>db_stock_ledger := db_stock_ledger d @
           [(base_values w i re su de af rf rl oc tr ev pd ed lid)
              \<lparr>led_id := next_id (map led_id (db_stock_ledger d))\<rparr>]\<rparr>"
    and "n = next_id (map led_id (db_stock_ledger d))" and "event_fk d ev"
proof -
  let ?row = "base_values w i re su de af rf rl oc tr ev pd ed lid"
  have fresh: "led_key ?row \<notin> set (map led_key (db_stock_ledger d))" using assms(2) by simp
  from assms(1) obtain m d1 where ins: "insert_ledger True ?row d = Inr (m, d1)"
    by (auto simp: write_ledger_def Let_def res_simps)
  note m = insert_ledger_fresh [OF fresh ins]
  have res: "n = next_id (map led_id (db_stock_ledger d)) \<and> d' = d1"
    using assms(1) ins m by (auto simp: write_ledger_def Let_def res_simps)
  from m ins have ins': "insert_ledger True ?row d = Inr (Some (next_id (map led_id (db_stock_ledger d))), d1)"
    by simp
  show "d' = d\<lparr>db_stock_ledger := db_stock_ledger d @
           [?row\<lparr>led_id := next_id (map led_id (db_stock_ledger d))\<rparr>]\<rparr>"
    using insert_ledger_Inr(2) [OF ins'] res by simp
  show "n = next_id (map led_id (db_stock_ledger d))" using res by simp
  show "event_fk d ev" using insert_ledger_Inr(5) [OF ins'] by simp
qed

text \<open>A key that is present changes no quantity: the ledger only fills nulls.\<close>

lemma write_ledger_present:
  assumes "write_ledger w i re su de af rf rl oc tr ev pd ed lid d = Inr (n, d')"
    and "(re, rf, rl, (w, i, lid)) \<in> set (map led_key (db_stock_ledger d))"
  shows "n = 0"
    and "d' = d \<or> d' = d\<lparr>db_stock_ledger := map (\<lambda>r. if led_key r = (re, rf, rl, (w, i, lid))
           then patch_row (base_values w i re su de af rf rl oc tr ev pd ed lid) r else r) (db_stock_ledger d)\<rparr>"
  using assms
  by (auto simp: write_ledger_def insert_ledger_def Let_def res_simps image_iff split: if_splits)

text \<open>
  Only receipts carry dates. The second conjunct makes the first stable: the canonical reason of
  a row says receipt exactly when its reason does.
\<close>

definition row_dates_ok :: "ledger_row \<Rightarrow> bool" where
  "row_dates_ok r \<longleftrightarrow>
     (led_production_date r \<noteq> None \<or> led_expiry_date r \<noteq> None \<longrightarrow> led_reason_canon r = Some ''RECEIPT'') \<and>
     (led_reason_canon r = Some ''RECEIPT'') = (canon_reason (led_reason r) = Some ''RECEIPT'')"

definition dates_ok :: "db \<Rightarrow> bool" where
  "dates_ok d \<longleftrightarrow> (\<forall>r \<in> set (db_stock_ledger d). row_dates_ok r)"

lemma row_dates_ok_id [simp]: "row_dates_ok (r\<lparr>led_id := n\<rparr>) = row_dates_ok r"
  by (simp add: row_dates_ok_def)

lemma row_dates_ok_base: "row_dates_ok (base_values w i re su de af rf rl oc tr ev pd ed lid)"
  by (simp add: row_dates_ok_def base_values_def Let_def)

lemma row_dates_ok_patch:
  assumes "row_dates_ok r" and "row_dates_ok n" and "led_reason n = led_reason r"
    and "led_reason_canon n = canon_reason (led_reason r)"
  shows "row_dates_ok (patch_row n r)"
  using assms by (auto simp: row_dates_ok_def patch_row_def coalesce_def split: option.splits)

lemma write_ledger_dates:
  assumes run: "write_ledger w i re su de af rf rl oc tr ev pd ed lid d = Inr (n, d')" and ok: "dates_ok d"
  shows "dates_ok d'"
proof (cases "(re, rf, rl, (w, i, lid)) \<in> set (map led_key (db_stock_ledger d))")
  case False
  with write_ledger_fresh(1) [OF run] ok show ?thesis by (auto simp: dates_ok_def row_dates_ok_base)
next
  case True
  let ?row = "base_values w i re su de af rf rl oc tr ev pd ed lid"
  have "row_dates_ok (patch_row ?row r)" if "led_key r = (re, rf, rl, (w, i, lid))" "r \<in> set (db_stock_ledger d)" for r
    using that ok by (intro row_dates_ok_patch row_dates_ok_base) (auto simp: led_key_def dates_ok_def)
  with write_ledger_present(2) [OF run True] ok show ?thesis by (auto simp: dates_ok_def)
qed

end
