(* ===== verification/Samples.thy ===== *)
theory Samples
  imports Ledger
begin

text \<open>
  A small database on which the hypotheses of the theorems are evaluated: one warehouse, item 1
  without expiry control (internal lot 1, ten pieces on hand) and item 2 with expiry control and a
  shelf life of twelve months (supplier lot 2, four pieces).
\<close>

definition sample_policy :: policy_reader where
  "sample_policy i =
     (if i = 1 then Some \<lparr>ip_item_id = 1, ip_expiry_policy = EXPIRY_NONE, ip_shelf_life_value = None,
         ip_shelf_life_unit = None, ip_lot_source_policy = INTERNAL_ONLY, ip_derivation_allowed = True,
         ip_uom_governance_enabled = True\<rparr>
      else if i = 2 then Some \<lparr>ip_item_id = 2, ip_expiry_policy = EXPIRY_REQUIRED,
         ip_shelf_life_value = Some 12, ip_shelf_life_unit = Some MONTH,
         ip_lot_source_policy = SUPPLIER_ONLY, ip_derivation_allowed = True,
         ip_uom_governance_enabled = True\<rparr>
      else None)"

definition sample_lots :: "lot list" where
  "sample_lots =
     [\<lparr>lot_id = 1, lot_warehouse_id = 1, lot_item_id = 1, lot_source = INTERNAL, lot_code = None,
       lot_production_date = None, lot_expiry_date = None, lot_source_receipt_id = None,
       lot_source_line_no = None, lot_shelf_life_value = None, lot_shelf_life_unit = None,
       lot_source_policy = INTERNAL_ONLY, lot_expiry_policy = EXPIRY_NONE,
       lot_derivation_allowed = True, lot_uom_governance_enabled = True\<rparr>,
      \<lparr>lot_id = 2, lot_warehouse_id = 1, lot_item_id = 2, lot_source = SUPPLIER, lot_code = Some ''B1'',
       lot_production_date = Some (Date 2025 1 15), lot_expiry_date = Some (Date 2026 1 15),
       lot_source_receipt_id = None, lot_source_line_no = None, lot_shelf_life_value = Some 12,
       lot_shelf_life_unit = Some MONTH, lot_source_policy = SUPPLIER_ONLY,
       lot_expiry_policy = EXPIRY_REQUIRED, lot_derivation_allowed = True,
       lot_uom_governance_enabled = True\<rparr>]"

definition sample_ledger :: "ledger_row list" where
  "sample_ledger =
     [\<lparr>led_id = 1, led_warehouse_id = 1, led_item_id = 1, led_lot_id = 1, led_reason = ''RECEIPT'',
       led_reason_canon = Some ''RECEIPT'', led_sub_reason = None, led_ref = ''IN-1'', led_ref_line = 1,
       led_delta = 10, led_after_qty = 10, led_occurred_at = 1, led_trace_id = None, led_event_id = None,
       led_production_date = None, led_expiry_date = None\<rparr>,
      \<lparr>led_id = 2, led_warehouse_id = 1, led_item_id = 2, led_lot_id = 2, led_reason = ''RECEIPT'',
       led_reason_canon = Some ''RECEIPT'', led_sub_reason = None, led_ref = ''IN-1'', led_ref_line = 2,
       led_delta = 4, led_after_qty = 4, led_occurred_at = 1, led_trace_id = None, led_event_id = None,
       led_production_date = Some (Date 2025 1 15), led_expiry_date = Some (Date 2026 1 15)\<rparr>]"

definition sample_db :: db where
  "sample_db = empty_db
     \<lparr>db_warehouses := [\<lparr>wh_id = 1, wh_name = ''Main'', wh_active = True\<rparr>], db_lots := sample_lots,
      db_stocks_lot :=
        [\<lparr>st_id = 1, st_warehouse_id = 1, st_item_id = 1, st_lot_id = 1, st_qty = 10\<rparr>,
         \<lparr>st_id = 2, st_warehouse_id = 1, st_item_id = 2, st_lot_id = 2, st_qty = 4\<rparr>],
      db_stock_ledger := sample_ledger\<rparr>"

text \<open>A run that returns, with what holds of the result.\<close>

definition succeeds :: "'a result \<Rightarrow> ('a \<Rightarrow> bool) \<Rightarrow> bool" where
  "succeeds m P = (case m of Inl _ \<Rightarrow> False | Inr x \<Rightarrow> P x)"

lemma succeedsD: "succeeds m P \<Longrightarrow> \<exists>x. m = Inr x \<and> P x"
  by (auto simp: succeeds_def split: sum.splits)

lemma succeeds_pairD: "succeeds m P \<Longrightarrow> \<exists>x y. m = Inr (x, y) \<and> P (x, y)"
  by (auto simp: succeeds_def split: sum.splits)

text \<open>The balance condition needs to be looked at only where there are rows.\<close>

lemma balanced_code [code]:
  "balanced d \<longleftrightarrow>
     (\<forall>k \<in> set (map st_dims (db_stocks_lot d) @ map led_dims (db_stock_ledger d)). on_hand d k = balance d k)"
proof
  assume fin: "\<forall>k \<in> set (map st_dims (db_stocks_lot d) @ map led_dims (db_stock_ledger d)). on_hand d k = balance d k"
  show "balanced d"
  proof (rule balancedI)
    fix k
    show "on_hand d k = balance d k"
    proof (cases "k \<in> set (map st_dims (db_stocks_lot d) @ map led_dims (db_stock_ledger d))")
      case False
      then have "on_hand d k = 0" "balance d k = 0"
        unfolding on_hand_def balance_def by (auto intro!: sum_where_none)
      then show ?thesis by simp
    qed (use fin in blast)
  qed
qed (simp only: balanced_def, blast)

lemma sample_books_ok: "books_ok sample_db"
  by code_simp

lemma sample_dates_ok: "dates_ok sample_db"
  by code_simp

end
