(* ===== verification/Lot_Identity.thy ===== *)
theory Lot_Identity
  imports Samples
begin

text \<open>
  The properties of expiry dates and lot identity: the two date arithmetics of the program agree,
  normalised batch dates are ordered, a lot is identified by warehouse, item and production date,
  resolving it again finds it, and the item policy frozen in a lot never changes.
\<close>

section \<open>Dates\<close>

text \<open>
  The program has two month arithmetics, \<open>expiry_rules.add_months\<close> and
  \<open>lots._add_months\<close>. They are the same function on calendar dates, errors included, and
  \<open>lots._add_years\<close> is a shift by twelve months per year.
\<close>

lemma month_arithmetics_agree:
  assumes "valid_date d"
  shows "lots_add_months d n = add_months d n \<and> lots_add_years d n = add_months d (12 * n)"
  using assms by (simp add: add_months_count lots_add_months_count lots_add_years_count)

lemma month_arithmetics_agree_witness:
  "lots_add_months (Date 2024 1 31) 1 = Inr (Date 2024 2 29) \<and> lots_add_years (Date 2024 2 29) 1 = Inr (Date 2025 2 28)"
proof -
  have v: "valid_date (Date 2024 1 31)" "valid_date (Date 2024 2 29)" by code_simp+
  have "add_months (Date 2024 1 31) 1 = Inr (Date 2024 2 29)" "add_months (Date 2024 2 29) 12 = Inr (Date 2025 2 28)"
    by code_simp+
  with month_arithmetics_agree [OF v(1), of 1] month_arithmetics_agree [OF v(2), of 1] show ?thesis by simp
qed

text \<open>
  A shelf life counted in days is invertible: the production date is recovered from the
  derived expiry date. A shelf life counted in months is invertible for production days up to the
  28th; after that the round trip stays in the month and can only move to an earlier day.
\<close>

lemma shelf_life_round_trip:
  assumes "valid_date pd" and "compute_expiry_from_shelf_life pd sl = Inr ed"
    and "compute_production_from_shelf_life ed sl = Inr pd'"
  shows "pd' \<le> pd \<and> month_count pd' = month_count pd \<and> (sl_unit sl = RULE_DAY \<or> day pd \<le> 28 \<longrightarrow> pd' = pd)"
proof (cases "sl_unit sl")
  case RULE_DAY
  then have "add_days pd (sl_value sl) = Inr ed" "add_days ed (- sl_value sl) = Inr pd'"
    using assms by (auto simp: compute_expiry_from_shelf_life_def compute_production_from_shelf_life_def split: if_splits)
  with add_days_back [of pd "sl_value sl" ed] assms(1) have "pd' = pd" by simp
  then show ?thesis by simp
next
  case RULE_MONTH
  then have e: "add_months pd (sl_value sl) = Inr ed" and b: "add_months ed (- sl_value sl) = Inr pd'"
    using assms by (auto simp: compute_expiry_from_shelf_life_def compute_production_from_shelf_life_def split: if_splits)
  note F = add_months_forth_back [OF assms(1) e b]
  have "valid_date pd'" by (rule add_months_valid [OF compute_expiry_valid [OF assms(1,2)] b])
  with F RULE_MONTH le_same_month_count [of pd' pd] assms(1) show ?thesis by auto
qed

lemma shelf_life_round_trip_witness:
  "compute_production_from_shelf_life (Date 2025 2 28) \<lparr>sl_value = 1, sl_unit = RULE_MONTH\<rparr> = Inr (Date 2025 1 28)
     \<and> Date 2025 1 28 \<le> Date 2025 1 31"
proof -
  have "valid_date (Date 2025 1 31)"
    "compute_expiry_from_shelf_life (Date 2025 1 31) \<lparr>sl_value = 1, sl_unit = RULE_MONTH\<rparr> = Inr (Date 2025 2 28)"
    "compute_production_from_shelf_life (Date 2025 2 28) \<lparr>sl_value = 1, sl_unit = RULE_MONTH\<rparr> = Inr (Date 2025 1 28)"
    by code_simp+
  with shelf_life_round_trip [OF this] show ?thesis by simp
qed

text \<open>
  The dates that \<open>normalize_batch_dates_for_item\<close> returns are in order: whatever the
  policy and whatever was given, a returned production date is not after the returned expiry date.
\<close>

lemma normalized_dates_ordered:
  assumes "normalize_batch_dates_for_item pol item_id pd0 ed0 = Inr (Some pd, Some ed, m)"
    and "\<And>x. pd0 = Some x \<Longrightarrow> valid_date x" and "\<And>x. ed0 = Some x \<Longrightarrow> valid_date x"
  shows "pd \<le> ed"
  using assms
  by (auto simp: normalize_batch_dates_for_item_def resolve_expiry_date_def resolve_production_date_def Let_def res_simps
        split: option.splits if_splits intro: less_imp_le compute_expiry_later compute_production_earlier)

lemma normalized_dates_ordered_witness:
  "normalize_batch_dates_for_item sample_policy 2 (Some (Date 2025 1 15)) None =
     Inr (Some (Date 2025 1 15), Some (Date 2026 1 15), Some FROM_PRODUCTION_AND_SHELF_LIFE) \<and>
   Date 2025 1 15 \<le> Date 2026 1 15"
proof -
  have run: "normalize_batch_dates_for_item sample_policy 2 (Some (Date 2025 1 15)) None =
     Inr (Some (Date 2025 1 15), Some (Date 2026 1 15), Some FROM_PRODUCTION_AND_SHELF_LIFE)" by code_simp
  have "valid_date (Date 2025 1 15)" by code_simp
  with normalized_dates_ordered [OF run] run show ?thesis by blast
qed

text \<open>
  The two derivations of an expiry date disagree on years. For a policy with a shelf life
  of two years, \<open>normalize_batch_dates_for_item\<close> (the date of the ledger row) adds two days to the
  production date, while the lot that \<open>ensure_lot_full\<close> creates expires two years after it.
\<close>

lemma year_shelf_life_counts_days:
  assumes "pol item_id = Some p" and "ip_expiry_policy p = EXPIRY_REQUIRED" and "ip_derivation_allowed p"
    and "ip_shelf_life_value p = Some 2" and "ip_shelf_life_unit p = Some YEAR"
  shows "normalize_batch_dates_for_item pol item_id (Some (Date 2025 3 1)) None =
           Inr (Some (Date 2025 3 1), Some (Date 2025 3 3), Some FROM_PRODUCTION_AND_SHELF_LIFE) \<and>
         resolve_lot_dates p (Some (Date 2025 3 1)) None =
           Inr (Some (Date 2025 3 1), Some (Date 2027 3 1))"
proof -
  have "add_days (Date 2025 3 1) 2 = Inr (Date 2025 3 3)" "lots_add_years (Date 2025 3 1) 2 = Inr (Date 2027 3 1)"
    by code_simp+
  with assms show ?thesis
    by (simp add: normalize_batch_dates_for_item_def build_shelf_life_def rule_unit_of_def is_effective_def
        resolve_expiry_date_def compute_expiry_from_shelf_life_def resolve_lot_dates_def
        item_policy_expiry_context_def normalize_positive_int_def shift_date_by_shelf_life_def Let_def)
qed

definition two_year_policy :: item_policy where
  "two_year_policy = \<lparr>ip_item_id = 3, ip_expiry_policy = EXPIRY_REQUIRED, ip_shelf_life_value = Some 2,
     ip_shelf_life_unit = Some YEAR, ip_lot_source_policy = SUPPLIER_ONLY, ip_derivation_allowed = True,
     ip_uom_governance_enabled = True\<rparr>"

lemma year_shelf_life_counts_days_witness:
  "resolve_lot_dates two_year_policy (Some (Date 2025 3 1)) None = Inr (Some (Date 2025 3 1), Some (Date 2027 3 1))"
  using year_shelf_life_counts_days [of "\<lambda>_. Some two_year_policy" 3 two_year_policy]
  by (simp add: two_year_policy_def)

section \<open>Lots\<close>

lemma lots_extend_mem:
  assumes "lots_extend d d'" and "l \<in> set (db_lots d)"
  shows "\<exists>l' \<in> set (db_lots d'). lot_refines l l'"
proof -
  from assms(1) obtain old new where "db_lots d' = old @ new" and r: "list_all2 lot_refines (db_lots d) old"
    by (auto simp: lots_extend_def)
  moreover have "\<exists>l' \<in> set old. lot_refines l l'"
    using r assms(2) by (induction rule: list_all2_induct) auto
  ultimately show ?thesis by auto
qed

lemma resolve_lot_dates_keeps_production:
  assumes "resolve_lot_dates p (Some x) ed = Inr (pd, ed')"
  shows "pd = Some x"
  using assms by (auto simp: resolve_lot_dates_def item_policy_expiry_context_def res_simps split: if_splits)

text \<open>The lot that a call resolves, in a later database.\<close>

lemma ensure_lot_full_row:
  assumes ok: "books_ok d" and req: "pol i = Some p" "ip_expiry_policy p = EXPIRY_REQUIRED"
    and run: "ensure_lot_full pol i w c (Some x) ed d = Inr (a, d')"
  shows "\<exists>l \<in> set (db_lots d'). lot_id l = a \<and> lot_warehouse_id l = w \<and> lot_item_id l = i \<and>
           lot_source l = SUPPLIER \<and> lot_production_date l = Some x"
proof -
  from run req obtain c' ed' where "ensure_required_lot i w c' x ed' p d = Inr (a, d')"
    by (auto simp: ensure_lot_full_def load_item_policy_def res_simps dest: resolve_lot_dates_keeps_production)
  from get_by_production_date_Some [OF ensure_required_lot_found [OF ok this]] show ?thesis .
qed

text \<open>
  Claim C4. The identity of a batch lot is its production date. Two calls of \<open>ensure_lot_full\<close> for
  the same warehouse and the same expiry-controlled item, one after the other, with any lot codes
  and expiry dates, give the same lot exactly when they name the same production date.
\<close>

theorem lot_identity_is_production_date:
  assumes "books_ok d" and "pol i = Some p" and "ip_expiry_policy p = EXPIRY_REQUIRED"
    and "ensure_lot_full pol i w c1 (Some x) ed1 d = Inr (a, d1)"
    and "ensure_lot_full pol i w c2 (Some y) ed2 d1 = Inr (b, d2)"
  shows "a = b \<longleftrightarrow> x = y"
proof -
  note s1 = ensure_lot_full_step [OF assms(4)] and s2 = ensure_lot_full_step [OF assms(5)]
  have ok1: "books_ok d1" by (rule lot_step_effect(6) [OF s1 assms(1)])
  have ok2: "books_ok d2" by (rule lot_step_effect(6) [OF s2 ok1])
  obtain l where l: "l \<in> set (db_lots d1)" "lot_id l = a" "lot_warehouse_id l = w" "lot_item_id l = i"
      "lot_source l = SUPPLIER" "lot_production_date l = Some x"
    using ensure_lot_full_row [OF assms(1-4)] by blast
  obtain l' where l': "l' \<in> set (db_lots d2)" "lot_refines l l'"
    using lots_extend_mem [OF lot_step_effect(5) [OF s2] l(1)] by blast
  obtain m where m: "m \<in> set (db_lots d2)" "lot_id m = b" "lot_warehouse_id m = w" "lot_item_id m = i"
      "lot_source m = SUPPLIER" "lot_production_date m = Some y"
    using ensure_lot_full_row [OF ok1 assms(2,3,5)] by blast
  note R = lot_refines_same [OF l'(2)]
  have "x = y" if "a = b"
    using ok2 distinct_key_unique [of lot_id "db_lots d2" l' m] l' m R l that by (simp add: books_defs)
  moreover have "a = b" if "x = y"
    using required_lot_unique [OF ok2 l'(1), of w i x] required_lot_unique [OF ok2 m(1), of w i x] R l m that by simp
  ultimately show ?thesis by blast
qed

theorem lot_identity_is_production_date_witness:
  "\<exists>a d1 b d2. ensure_lot_full sample_policy 2 1 (Some ''B1'') (Some (Date 2025 1 15)) None sample_db = Inr (a, d1) \<and>
     ensure_lot_full sample_policy 2 1 (Some ''B9'') (Some (Date 2025 2 15)) None d1 = Inr (b, d2) \<and> a \<noteq> b"
proof -
  define r1 where "r1 = ensure_lot_full sample_policy 2 1 (Some ''B1'') (Some (Date 2025 1 15)) None sample_db"
  have e1: "r1 = Inr (2, sample_db)" unfolding r1_def by code_simp
  have "case ensure_lot_full sample_policy 2 1 (Some ''B9'') (Some (Date 2025 2 15)) None sample_db of
      Inr _ \<Rightarrow> True | Inl _ \<Rightarrow> False" by code_simp
  then obtain b d2 where e2: "ensure_lot_full sample_policy 2 1 (Some ''B9'') (Some (Date 2025 2 15)) None sample_db = Inr (b, d2)"
    by (auto split: sum.splits)
  have "(2::int) = b \<longleftrightarrow> Date 2025 1 15 = Date 2025 2 15"
    by (rule lot_identity_is_production_date [OF sample_books_ok _ _ e1 [unfolded r1_def] e2])
      (auto simp: sample_policy_def)
  with e1 e2 show ?thesis unfolding r1_def by auto
qed

text \<open>
  Resolving a lot is idempotent: after \<open>ensure_lot_full\<close> has returned a lot, the same call
  returns the same lot and changes nothing more.
\<close>

lemma ensure_lot_full_idempotent:
  assumes "books_ok d" and "ensure_lot_full pol i w c pd ed d = Inr (lid, d')"
  shows "ensure_lot_full pol i w c pd ed d' = Inr (lid, d')"
  by (rule ensure_lot_full_idem [OF assms])

lemma ensure_lot_full_idempotent_witness:
  "ensure_lot_full sample_policy 2 1 (Some ''B1'') (Some (Date 2025 1 15)) None sample_db = Inr (2, sample_db)"
proof (rule ensure_lot_full_idempotent [OF sample_books_ok])
  show "ensure_lot_full sample_policy 2 1 (Some ''B1'') (Some (Date 2025 1 15)) None sample_db = Inr (2, sample_db)"
    by code_simp
qed

text \<open>
  The internal lot is a singleton. \<open>ensure_internal_lot_singleton\<close> returns the one internal
  lot of the item in the warehouse, keeps the books, moves no balance, and a second call returns
  the same lot without a change.
\<close>

lemma internal_lot_singleton:
  assumes "books_ok d" and "ensure_internal_lot_singleton pol i w rid rln d = Inr (lid, d')"
  shows "ensure_internal_lot_singleton pol i w rid rln d' = Inr (lid, d') \<and> books_ok d' \<and>
     (\<forall>k. on_hand d' k = on_hand d k) \<and>
     (\<forall>l \<in> set (db_lots d'). lot_warehouse_id l = w \<and> lot_item_id l = i \<and> internal_lot_key l \<noteq> None
        \<longrightarrow> lot_id l = lid)"
proof -
  note st = lot_step_effect [OF ensure_internal_lot_step [OF assms(2)]]
  have f: "find_internal_lot i w d' = Some lid" by (rule ensure_internal_lot_found [OF assms])
  have "pair_or_null rid rln \<noteq> Inl e" for e using assms(2) by (auto simp: ensure_internal_lot_singleton_def)
  then have "ensure_internal_lot_singleton pol i w rid rln d' = Inr (lid, d')"
    using f by (cases "pair_or_null rid rln") (auto simp: ensure_internal_lot_singleton_def)
  moreover have "lot_id l = lid" if "l \<in> set (db_lots d')" "lot_warehouse_id l = w" "lot_item_id l = i"
      "internal_lot_key l \<noteq> None" for l
    using internal_lot_unique [OF st(6) [OF assms(1)] that(1-3)] that(4) f
    by (auto simp: internal_lot_key_def split: if_splits)
  ultimately show ?thesis using st(6,7) assms(1) by blast
qed

lemma internal_lot_singleton_witness:
  "ensure_internal_lot_singleton sample_policy 1 1 None None sample_db = Inr (1, sample_db) \<and> books_ok sample_db"
proof -
  have "ensure_internal_lot_singleton sample_policy 1 1 None None sample_db = Inr (1, sample_db)" by code_simp
  from internal_lot_singleton [OF sample_books_ok this] show ?thesis by blast
qed

text \<open>
  Lots are frozen. A call of \<open>resolve_or_create_lot\<close> removes no lot; a lot that existed keeps
  every column, the snapshot of the item policy included, except that a missing expiry date may
  be filled; the returned lot belongs to the warehouse and the item; no balance and no ledger row
  changes.
\<close>

lemma lots_are_frozen:
  assumes "resolve_or_create_lot pol w p src c pd ed rid rln d = Inr (lid, d')"
  shows "(\<forall>l \<in> set (db_lots d). \<exists>l' \<in> set (db_lots d').
            l' = l \<or> (lot_expiry_date l = None \<and> (\<exists>e. l' = l\<lparr>lot_expiry_date := Some e\<rparr>))) \<and>
     dims_in_lots d' (w, ip_item_id p, lid) \<and>
     db_stock_ledger d' = db_stock_ledger d \<and> db_stocks_lot d' = db_stocks_lot d"
proof -
  note st = lot_step_effect [OF resolve_or_create_lot_step [OF assms]]
  show ?thesis using lots_extend_mem [OF st(5)] st(1,2,4) by (auto simp: lot_refines_def)
qed

lemma lots_are_frozen_witness:
  "\<exists>lid d'. resolve_or_create_lot sample_policy 1 (the (sample_policy 2)) '' supplier'' (Some ''B7'')
       (Some (Date 2025 6 1)) None None None sample_db = Inr (lid, d') \<and>
     db_stock_ledger d' = db_stock_ledger sample_db"
proof -
  have "case resolve_or_create_lot sample_policy 1 (the (sample_policy 2)) '' supplier'' (Some ''B7'')
       (Some (Date 2025 6 1)) None None None sample_db of Inr _ \<Rightarrow> True | Inl _ \<Rightarrow> False" by code_simp
  then obtain lid d' where "resolve_or_create_lot sample_policy 1 (the (sample_policy 2)) '' supplier'' (Some ''B7'')
       (Some (Date 2025 6 1)) None None None sample_db = Inr (lid, d')" by (auto split: sum.splits)
  with lots_are_frozen [OF this] show ?thesis by blast
qed

end
