(* ===== verification/Stock_Adjust.thy ===== *)
theory Stock_Adjust
  imports Samples
begin

text \<open>
  The single entry point of stock writes, \<open>app/wms/stock/services/stock_adjust/\<close>
  (\<open>adjust_lot_impl.py\<close>, \<open>date_rules.py\<close>, \<open>db_items.py\<close>, \<open>idempotency.py\<close>,
  \<open>stocks_lot_repo.py\<close>) and \<open>StockService.adjust_lot\<close>. It keeps the books, moves the balance of
  one slot by the requested delta, never below zero, and is idempotent in the ledger key.

  The result of a run that books nothing (\<open>idempotent=True, applied=False\<close>) is \<open>AdjustSkipped\<close>.
  The look-up of the display code at the end of \<open>adjust_lot_impl\<close> has no effect and is left out.
\<close>

section \<open>The pieces\<close>

definition item_requires_batch :: "policy_reader \<Rightarrow> int \<Rightarrow> bool result" where
  "item_requires_batch get_item_policy item_id =
     bindR (require_some (get_item_policy item_id) (ValueError ''item_not_found'')) (\<lambda>p.
     Inr (ip_expiry_policy p = EXPIRY_REQUIRED))"

definition resolve_and_validate_dates_for_inbound ::
  "policy_reader \<Rightarrow> int \<Rightarrow> int \<Rightarrow> string option \<Rightarrow> date option \<Rightarrow> date option \<Rightarrow>
   (date option \<times> date option) result" where
  "resolve_and_validate_dates_for_inbound get_item_policy item_id delta code production_date expiry_date =
     (if code = None then Inr (None, None)
      else bindR (normalize_batch_dates_for_item get_item_policy item_id production_date expiry_date)
        (\<lambda>(pd, ed, _).
        bindR (ensure (\<not> (delta > 0 \<and> pd = None)) (ValueError ''production_date required'')) (\<lambda>_.
        bindR (ensure (\<not> (delta > 0 \<and> ed = None)) (ValueError ''expiry_date required'')) (\<lambda>_.
        bindR (ensure (case (pd, ed) of (Some x, Some y) \<Rightarrow> x \<le> y | _ \<Rightarrow> True)
                 (ValueError ''expiry_date < production_date'')) (\<lambda>_.
        Inr (pd, ed))))))"

definition idem_hit_by_lot_key :: "int \<Rightarrow> int \<Rightarrow> int \<Rightarrow> string \<Rightarrow> string \<Rightarrow> int \<Rightarrow> db \<Rightarrow> bool" where
  "idem_hit_by_lot_key w i lid reason ref ref_line d \<longleftrightarrow>
     (\<exists>r \<in> set (db_stock_ledger d). led_warehouse_id r = w \<and> led_item_id r = i \<and> led_lot_id r = lid \<and>
        led_reason r = reason \<and> led_ref r = ref \<and> led_ref_line r = ref_line)"

definition ensure_stocks_lot_slot_exists :: "int \<Rightarrow> int \<Rightarrow> int \<Rightarrow> unit action" where
  "ensure_stocks_lot_slot_exists i w lid = insert_stock_slot (w, i, lid)"

definition lock_stocks_lot_slot_for_update :: "int \<Rightarrow> int \<Rightarrow> int \<Rightarrow> db \<Rightarrow> (int \<times> int) result" where
  "lock_stocks_lot_slot_for_update i w lid d =
     (case find (\<lambda>s. st_dims s = (w, i, lid)) (db_stocks_lot d) of
        None \<Rightarrow> Inl (ValueError ''stocks_lot slot missing'')
      | Some s \<Rightarrow> Inr (st_id s, st_qty s))"

definition apply_stocks_lot_set_qty :: "int \<Rightarrow> int \<Rightarrow> db \<Rightarrow> db" where
  "apply_stocks_lot_set_qty slot_id new_qty = set_stock_qty (\<lambda>s. st_id s = slot_id) new_qty"

section \<open>adjust\_lot\_impl\<close>

record adjust_args =
  aa_item_id :: int
  aa_warehouse_id :: int
  aa_lot_id :: "int option"
  aa_delta :: int
  aa_reason :: reason_arg
  aa_ref :: string
  aa_ref_line :: pyval
  aa_occurred_at :: "datetime option"
  aa_meta :: "meta option"
  aa_lot_code :: "string option"
  aa_production_date :: "date option"
  aa_expiry_date :: "date option"
  aa_trace_id :: "string option"

record adjust_info =
  adj_lot_id :: int
  adj_before :: int
  adj_delta :: int
  adj_after :: int
  adj_reason :: string
  adj_ref :: string
  adj_ref_line :: int
  adj_meta :: meta
  adj_occurred_at :: datetime
  adj_production_date :: "date option"
  adj_expiry_date :: "date option"

datatype adjust_result = AdjustSkipped | AdjustApplied adjust_info

definition ref_line_of :: "pyval \<Rightarrow> int result" where
  "ref_line_of v =
     (if v = PNone then Inr 1
      else require_some (py_int v) (ValueError ''invalid literal for int()''))"

definition meta_out_of :: "meta option \<Rightarrow> string option \<Rightarrow> int option \<Rightarrow> meta" where
  "meta_out_of m trace_id event_id =
     (let m0 = (case m of None \<Rightarrow> [] | Some d \<Rightarrow> d);
          m1 = (case trace_id of Some t \<Rightarrow> if t = [] then m0 else meta_setdefault ''trace_id'' (PStr t) m0
                | None \<Rightarrow> m0)
      in case event_id of Some e \<Rightarrow> meta_setdefault ''event_id'' (PInt e) m1 | None \<Rightarrow> m1)"

text \<open>The part after the idempotency check: the slot, its new balance, the ledger row.\<close>

definition adjust_slot ::
  "int \<Rightarrow> int \<Rightarrow> int \<Rightarrow> int \<Rightarrow> string \<Rightarrow> string option \<Rightarrow> string \<Rightarrow> int \<Rightarrow> datetime \<Rightarrow> string option \<Rightarrow>
   int option \<Rightarrow> date option \<Rightarrow> date option \<Rightarrow> (int \<times> int) action" where
  "adjust_slot i w lid delta reason sub_reason ref rl ts trace_id event_id pd ed d =
     bindR (ensure_stocks_lot_slot_exists i w lid d) (\<lambda>(_, d1).
     bindR (lock_stocks_lot_slot_for_update i w lid d1) (\<lambda>(slot_id, before_qty).
     (let new_qty = (if delta = 0 then before_qty else before_qty + delta)
      in bindR (ensure (delta = 0 \<or> new_qty \<ge> 0) (ValueError ''insufficient stock(lot)'')) (\<lambda>_.
         bindR (write_ledger w i reason sub_reason delta new_qty ref rl ts trace_id event_id pd ed lid d1) (\<lambda>(_, d2).
         Inr ((before_qty, new_qty),
              if delta \<noteq> 0 then apply_stocks_lot_set_qty slot_id new_qty d2 else d2))))))"

definition adjust_lot_impl :: "policy_reader \<Rightarrow> datetime \<Rightarrow> adjust_args \<Rightarrow> adjust_result action" where
  "adjust_lot_impl get_item_policy utc_now a d =
     bindR (ref_line_of (aa_ref_line a)) (\<lambda>rl.
     (let reason_val = reason_value (aa_reason a);
          ts = (case aa_occurred_at a of Some t \<Rightarrow> t | None \<Rightarrow> utc_now);
          delta = aa_delta a;
          allow_zero = meta_bool (aa_meta a) ''allow_zero_delta_ledger''
      in bindR (meta_str (aa_meta a) ''sub_reason'') (\<lambda>sub_reason.
         bindR (meta_int (aa_meta a) ''event_id'') (\<lambda>event_id.
         if delta = 0 \<and> \<not> allow_zero then Inr (AdjustSkipped, d)
         else if delta = 0 \<and> allow_zero \<and> sub_reason = None
           then Inl (ValueError ''delta==0 requires meta.sub_reason'')
         else
         bindR (require_some (aa_lot_id a) (ValueError ''lot_id is required in lot-only world.'')) (\<lambda>lid.
         bindR (item_requires_batch get_item_policy (aa_item_id a)) (\<lambda>rb.
         bindR (ensure (\<not> (rb \<and> lid = 0)) (ValueError ''batch item requires lot_id'')) (\<lambda>_.
         bindR (assert_lot_belongs_to (aa_warehouse_id a) (aa_item_id a) (Some lid) d) (\<lambda>_.
         bindR (resolve_and_validate_dates_for_inbound get_item_policy (aa_item_id a) delta
                  (norm_lot_code (aa_lot_code a)) (aa_production_date a) (aa_expiry_date a)) (\<lambda>(pd, ed).
         if idem_hit_by_lot_key (aa_warehouse_id a) (aa_item_id a) lid reason_val (aa_ref a) rl d
         then Inr (AdjustSkipped, d)
         else
         bindR (adjust_slot (aa_item_id a) (aa_warehouse_id a) lid delta reason_val sub_reason (aa_ref a) rl
                  ts (aa_trace_id a) event_id pd ed d) (\<lambda>((before_qty, new_qty), d').
         Inr (AdjustApplied
                \<lparr>adj_lot_id = lid, adj_before = before_qty, adj_delta = delta, adj_after = new_qty,
                 adj_reason = reason_val, adj_ref = aa_ref a, adj_ref_line = rl,
                 adj_meta = meta_out_of (aa_meta a) (aa_trace_id a) event_id, adj_occurred_at = ts,
                 adj_production_date = pd, adj_expiry_date = ed\<rparr>, d')))))))))))"

text \<open>\<open>StockService.adjust_lot\<close> passes its arguments through.\<close>

definition adjust_lot :: "policy_reader \<Rightarrow> datetime \<Rightarrow> adjust_args \<Rightarrow> adjust_result action" where
  "adjust_lot get_item_policy utc_now a = adjust_lot_impl get_item_policy utc_now a"

section \<open>What a booking does\<close>

lemma idem_hit_iff:
  "idem_hit_by_lot_key w i lid reason ref rl d \<longleftrightarrow>
     (reason, ref, rl, (w, i, lid)) \<in> set (map led_key (db_stock_ledger d))"
  by (auto simp: idem_hit_by_lot_key_def led_key_def led_dims_def image_iff)

lemma set_stock_qty_same:
  assumes "distinct (map st_dims (db_stocks_lot d))" and "s \<in> set (db_stocks_lot d)"
  shows "set_stock_qty (\<lambda>x. st_dims x = st_dims s) (st_qty s) d = d"
proof -
  have "(if st_dims x = st_dims s then x\<lparr>st_qty := st_qty s\<rparr> else x) = x" if "x \<in> set (db_stocks_lot d)" for x
    using distinct_key_unique [OF assms(1) that assms(2)] by auto
  then have "map (\<lambda>x. if st_dims x = st_dims s then x\<lparr>st_qty := st_qty s\<rparr> else x) (db_stocks_lot d) = db_stocks_lot d"
    by (rule map_idI)
  then show ?thesis by (simp add: set_stock_qty_def)
qed

text \<open>The ledger row of a booking.\<close>

abbreviation booked_row where
  "booked_row d1 w i re su de af rf rl oc tr ev pd ed lid \<equiv>
     (base_values w i re su de af rf rl oc tr ev pd ed lid)\<lparr>led_id := next_id (map led_id (db_stock_ledger d1))\<rparr>"

lemma adjust_slot_parts:
  assumes "adjust_slot i w lid de re su rf rl ts tr ev pd ed d = Inr ((b, n), d')"
  obtains d1 sid d2 m where
    "insert_stock_slot (w, i, lid) d = Inr ((), d1)"
    "lock_stocks_lot_slot_for_update i w lid d1 = Inr (sid, b)"
    "n = (if de = 0 then b else b + de)" "de = 0 \<or> 0 \<le> n"
    "write_ledger w i re su de n rf rl ts tr ev pd ed lid d1 = Inr (m, d2)"
    "d' = (if de \<noteq> 0 then apply_stocks_lot_set_qty sid n d2 else d2)"
  using assms by (auto simp: adjust_slot_def ensure_stocks_lot_slot_exists_def Let_def res_simps)

lemma adjust_slot_dates:
  assumes "adjust_slot i w lid de re su rf rl ts tr ev pd ed d = Inr ((b, n), d')" and "dates_ok d"
  shows "dates_ok d'"
  using assms(1)
proof (rule adjust_slot_parts)
  fix d1 sid d2 m
  assume ins: "insert_stock_slot (w, i, lid) d = Inr ((), d1)"
    and wl: "write_ledger w i re su de n rf rl ts tr ev pd ed lid d1 = Inr (m, d2)"
    and d': "d' = (if de \<noteq> 0 then apply_stocks_lot_set_qty sid n d2 else d2)"
  have "dates_ok d1" using assms(2) insert_stock_slot_Inr(3) [OF ins] by (simp add: dates_ok_def)
  then have "dates_ok d2" by (rule write_ledger_dates [OF wl])
  then show ?thesis by (simp add: d' dates_ok_def apply_stocks_lot_set_qty_def)
qed

lemma adjust_slot_book:
  assumes ok: "books_ok d"
    and run: "adjust_slot i w lid de re su rf rl ts tr ev pd ed d = Inr ((b, n), d')"
    and key: "(re, rf, rl, (w, i, lid)) \<notin> set (map led_key (db_stock_ledger d))"
  obtains d1 s where "insert_stock_slot (w, i, lid) d = Inr ((), d1)" "s \<in> set (db_stocks_lot d1)"
    "st_dims s = (w, i, lid)" "b = st_qty s" "n = st_qty s + de" "0 \<le> n" "event_fk d1 ev"
    "d' = book (booked_row d1 w i re su de n rf rl ts tr ev pd ed lid) d1"
proof -
  from run obtain d1 sid d2 m where
      ins: "insert_stock_slot (w, i, lid) d = Inr ((), d1)"
    and lock: "lock_stocks_lot_slot_for_update i w lid d1 = Inr (sid, b)"
    and n: "n = (if de = 0 then b else b + de)" "de = 0 \<or> 0 \<le> n"
    and wl: "write_ledger w i re su de n rf rl ts tr ev pd ed lid d1 = Inr (m, d2)"
    and d': "d' = (if de \<noteq> 0 then apply_stocks_lot_set_qty sid n d2 else d2)"
    by (rule adjust_slot_parts)
  from lock obtain s where s: "s \<in> set (db_stocks_lot d1)" "st_dims s = (w, i, lid)" "sid = st_id s" "b = st_qty s"
    by (auto simp: lock_stocks_lot_slot_for_update_def split: option.splits dest!: find_SomeD)
  note ok1 = insert_stock_slot_Inr(6) [OF ins ok]
  have st: "distinct (map st_id (db_stocks_lot d1))" "distinct (map st_dims (db_stocks_lot d1))" "0 \<le> st_qty s"
    using ok1 s(1) by (auto simp: books_defs)
  have key1: "(re, rf, rl, (w, i, lid)) \<notin> set (map led_key (db_stock_ledger d1))"
    using key insert_stock_slot_Inr(3) [OF ins] by simp
  let ?row = "booked_row d1 w i re su de n rf rl ts tr ev pd ed lid"
  let ?d2 = "d1\<lparr>db_stock_ledger := db_stock_ledger d1 @ [?row]\<rparr>"
  have d2: "d2 = ?d2" by (rule write_ledger_fresh(1) [OF wl key1])
  have st2: "distinct (map st_id (db_stocks_lot d2))" "distinct (map st_dims (db_stocks_lot d2))"
    "s \<in> set (db_stocks_lot d2)" using st s(1) d2 by simp_all
  have "d' = set_stock_qty (\<lambda>x. st_dims x = st_dims s) n d2"
    using d' n s(3,4) set_stock_qty_by_id [OF st2] set_stock_qty_same [OF st2(2,3)]
    by (auto simp: apply_stocks_lot_set_qty_def)
  then have "d' = book ?row d1" using d2 s(2) by (simp add: book_def)
  moreover have "n = st_qty s + de" "0 \<le> n" using n s(4) st(3) by auto
  ultimately show thesis using ins s write_ledger_fresh(3) [OF wl key1] by (intro that) auto
qed

lemma adjust_slot_effect:
  assumes ok: "books_ok d"
    and run: "adjust_slot i w lid de re su rf rl ts tr ev pd ed d = Inr ((b, n), d')"
    and key: "(re, rf, rl, (w, i, lid)) \<notin> set (map led_key (db_stock_ledger d))"
  shows "books_ok d'" and "on_hand d' k = on_hand d k + (if k = (w, i, lid) then de else 0)"
    and "b = on_hand d (w, i, lid)" and "n = on_hand d' (w, i, lid)"
    and "db_stock_ledger d' = db_stock_ledger d @ [booked_row d w i re su de n rf rl ts tr ev pd ed lid]"
    and "db_lots d' = db_lots d" and "db_wms_events d' = db_wms_events d"
proof -
  obtain d1 s where ins: "insert_stock_slot (w, i, lid) d = Inr ((), d1)" and s: "s \<in> set (db_stocks_lot d1)"
      "st_dims s = (w, i, lid)" and b: "b = st_qty s" and n: "n = st_qty s + de" "0 \<le> n"
      and d': "d' = book (booked_row d1 w i re su de n rf rl ts tr ev pd ed lid) d1"
    by (rule adjust_slot_book [OF ok run key])
  note I = insert_stock_slot_Inr [OF ins]
  note ok1 = I(6) [OF ok]
  let ?row = "booked_row d1 w i re su de n rf rl ts tr ev pd ed lid"
  show "books_ok d'" unfolding d'
    by (rule books_ok_book [OF ok1 s(1)]) (use s n key I(3) in \<open>auto simp: next_id_fresh_row\<close>)
  have move: "on_hand d' k = on_hand d1 k + (if k = led_dims ?row then led_delta ?row else 0)" for k
    unfolding d' by (rule on_hand_book [OF ok1 s(1)]) (use s n in auto)
  then show m: "on_hand d' k = on_hand d k + (if k = (w, i, lid) then de else 0)" for k using I(2) by simp
  have "on_hand d1 (w, i, lid) = st_qty s" using on_hand_row [of d1 s] ok1 s by (simp add: books_defs)
  then show "b = on_hand d (w, i, lid)" "n = on_hand d' (w, i, lid)" using b n m I(2) by simp_all
  show "db_stock_ledger d' = db_stock_ledger d @ [booked_row d w i re su de n rf rl ts tr ev pd ed lid]"
    using d' I(3) by simp
  show "db_lots d' = db_lots d" "db_wms_events d' = db_wms_events d" using d' I by simp_all
qed

text \<open>The tables and the rows that a booking leaves alone.\<close>

lemma insert_stock_slot_frame:
  assumes "insert_stock_slot k d = Inr (u, d')"
  shows "d' = d\<lparr>db_stocks_lot := db_stocks_lot d'\<rparr>"
    and "filter (\<lambda>s. st_dims s \<noteq> k) (db_stocks_lot d') = filter (\<lambda>s. st_dims s \<noteq> k) (db_stocks_lot d)"
  using assms by (auto simp: insert_stock_slot_def res_simps split: if_splits)

lemma book_frame:
  "book r d = d\<lparr>db_stocks_lot := db_stocks_lot (book r d), db_stock_ledger := db_stock_ledger d @ [r]\<rparr>"
  "filter (\<lambda>s. st_dims s \<noteq> led_dims r) (db_stocks_lot (book r d)) = filter (\<lambda>s. st_dims s \<noteq> led_dims r) (db_stocks_lot d)"
  by (auto simp: book_def set_stock_qty_def filter_map o_def if_distrib [of st_dims] intro!: map_idI cong: if_cong)

lemma adjust_slot_frame:
  assumes "books_ok d" and "adjust_slot i w lid de re su rf rl ts tr ev pd ed d = Inr ((b, n), d')"
    and "(re, rf, rl, (w, i, lid)) \<notin> set (map led_key (db_stock_ledger d))"
  shows "d' = d\<lparr>db_stocks_lot := db_stocks_lot d', db_stock_ledger := db_stock_ledger d'\<rparr>"
    and "filter (\<lambda>s. st_dims s \<noteq> (w, i, lid)) (db_stocks_lot d') = filter (\<lambda>s. st_dims s \<noteq> (w, i, lid)) (db_stocks_lot d)"
proof -
  obtain d1 where ins: "insert_stock_slot (w, i, lid) d = Inr ((), d1)"
    and d': "d' = book (booked_row d1 w i re su de n rf rl ts tr ev pd ed lid) d1"
    by (rule adjust_slot_book [OF assms])
  let ?row = "booked_row d1 w i re su de n rf rl ts tr ev pd ed lid"
  have dims: "led_dims ?row = (w, i, lid)" by simp
  note I = insert_stock_slot_frame [OF ins] and B = book_frame(1) [of ?row d1] book_frame(2) [of ?row d1, unfolded dims]
  have "d' = d1\<lparr>db_stocks_lot := db_stocks_lot d', db_stock_ledger := db_stock_ledger d'\<rparr>"
    unfolding d' using B(1) by simp
  then show "d' = d\<lparr>db_stocks_lot := db_stocks_lot d', db_stock_ledger := db_stock_ledger d'\<rparr>"
    by (subst (asm) I(1)) simp
  show "filter (\<lambda>s. st_dims s \<noteq> (w, i, lid)) (db_stocks_lot d') = filter (\<lambda>s. st_dims s \<noteq> (w, i, lid)) (db_stocks_lot d)"
    unfolding d' B(2) by (rule I(2))
qed

text \<open>What a run of \<open>adjust_lot\<close> that books went through.\<close>

definition adjust_dims :: "adjust_args \<Rightarrow> adjust_info \<Rightarrow> dims" where
  "adjust_dims a x = (aa_warehouse_id a, aa_item_id a, adj_lot_id x)"

lemma adjust_lot_Applied:
  assumes "adjust_lot pol now a d = Inr (AdjustApplied x, d')"
  obtains su ev where
    "aa_lot_id a = Some (adj_lot_id x)" "adj_delta x = aa_delta a"
    "adj_reason x = reason_value (aa_reason a)" "adj_ref x = aa_ref a"
    "ref_line_of (aa_ref_line a) = Inr (adj_ref_line x)"
    "adj_occurred_at x = (case aa_occurred_at a of Some t \<Rightarrow> t | None \<Rightarrow> now)"
    "meta_str (aa_meta a) ''sub_reason'' = Inr su" "meta_int (aa_meta a) ''event_id'' = Inr ev"
    "(adj_reason x, adj_ref x, adj_ref_line x, adjust_dims a x) \<notin> set (map led_key (db_stock_ledger d))"
    "assert_lot_belongs_to (aa_warehouse_id a) (aa_item_id a) (Some (adj_lot_id x)) d = Inr ()"
    "resolve_and_validate_dates_for_inbound pol (aa_item_id a) (aa_delta a) (norm_lot_code (aa_lot_code a))
       (aa_production_date a) (aa_expiry_date a) = Inr (adj_production_date x, adj_expiry_date x)"
    "adjust_slot (aa_item_id a) (aa_warehouse_id a) (adj_lot_id x) (aa_delta a) (adj_reason x) su (adj_ref x)
       (adj_ref_line x) (adj_occurred_at x) (aa_trace_id a) ev (adj_production_date x) (adj_expiry_date x) d
       = Inr ((adj_before x, adj_after x), d')"
  using assms
  by (auto simp: adjust_lot_def adjust_lot_impl_def Let_def res_simps idem_hit_iff adjust_dims_def
      split: if_splits)

lemma adjust_applied_args:
  assumes "adjust_lot pol now a d = Inr (AdjustApplied x, d')"
  shows "aa_lot_id a = Some (adj_lot_id x)" and "adj_delta x = aa_delta a"
    and "ref_line_of (aa_ref_line a) = Inr (adj_ref_line x)"
  by (rule adjust_lot_Applied [OF assms], assumption)+

lemma adjust_lot_Skipped: "adjust_lot pol now a d = Inr (AdjustSkipped, d') \<Longrightarrow> d' = d"
  by (auto simp: adjust_lot_def adjust_lot_impl_def Let_def res_simps split: if_splits)

definition adjust_effect :: "adjust_args \<Rightarrow> adjust_result \<Rightarrow> dims \<Rightarrow> int" where
  "adjust_effect a r k =
     (case r of AdjustSkipped \<Rightarrow> 0 | AdjustApplied x \<Rightarrow> if k = adjust_dims a x then adj_delta x else 0)"

lemma adjust_lot_books_all:
  assumes ok: "books_ok d" and run: "adjust_lot pol now a d = Inr (r, d')"
  shows "books_ok d' \<and> on_hand d' k = on_hand d k + adjust_effect a r k \<and>
      db_lots d' = db_lots d \<and> db_wms_events d' = db_wms_events d"
proof (cases r)
  case AdjustSkipped
  with run ok show ?thesis by (auto simp: adjust_effect_def dest: adjust_lot_Skipped)
next
  case (AdjustApplied x)
  with run have "adjust_lot pol now a d = Inr (AdjustApplied x, d')" by simp
  then show ?thesis
  proof (rule adjust_lot_Applied)
    fix su ev
    assume x: "adj_delta x = aa_delta a"
      and key: "(adj_reason x, adj_ref x, adj_ref_line x, adjust_dims a x) \<notin> set (map led_key (db_stock_ledger d))"
      and slot: "adjust_slot (aa_item_id a) (aa_warehouse_id a) (adj_lot_id x) (aa_delta a) (adj_reason x) su (adj_ref x)
       (adj_ref_line x) (adj_occurred_at x) (aa_trace_id a) ev (adj_production_date x) (adj_expiry_date x) d
       = Inr ((adj_before x, adj_after x), d')"
    show ?thesis
      using adjust_slot_effect [OF ok slot key [unfolded adjust_dims_def]] x AdjustApplied
      by (simp add: adjust_effect_def adjust_dims_def)
  qed
qed

lemma adjust_lot_books:
  assumes "books_ok d" and "adjust_lot pol now a d = Inr (r, d')"
  shows "books_ok d'" and "on_hand d' k = on_hand d k + adjust_effect a r k"
    and "db_lots d' = db_lots d" and "db_wms_events d' = db_wms_events d"
  using adjust_lot_books_all [OF assms] by blast+

interpretation adjust: stock_writer "adjust_lot pol now" adjust_effect
  by unfold_locales (auto dest: adjust_lot_books)

section \<open>Idempotency, refusals, dates\<close>

lemma adjust_lot_replay:
  assumes ok: "books_ok d" and run: "adjust_lot pol now a d = Inr (AdjustApplied x, d')"
  shows "adjust_lot pol now' a d' = Inr (AdjustSkipped, d')"
  using run
proof (rule adjust_lot_Applied)
  fix su ev
  assume x: "aa_lot_id a = Some (adj_lot_id x)" "adj_reason x = reason_value (aa_reason a)" "adj_ref x = aa_ref a"
    "ref_line_of (aa_ref_line a) = Inr (adj_ref_line x)" "meta_str (aa_meta a) ''sub_reason'' = Inr su"
    "meta_int (aa_meta a) ''event_id'' = Inr ev"
    and key: "(adj_reason x, adj_ref x, adj_ref_line x, adjust_dims a x) \<notin> set (map led_key (db_stock_ledger d))"
    and slot: "adjust_slot (aa_item_id a) (aa_warehouse_id a) (adj_lot_id x) (aa_delta a) (adj_reason x) su (adj_ref x)
       (adj_ref_line x) (adj_occurred_at x) (aa_trace_id a) ev (adj_production_date x) (adj_expiry_date x) d
       = Inr ((adj_before x, adj_after x), d')"
  have hit: "idem_hit_by_lot_key (aa_warehouse_id a) (aa_item_id a) (adj_lot_id x) (reason_value (aa_reason a))
      (aa_ref a) (adj_ref_line x) d'"
    using adjust_slot_effect(5) [OF ok slot key [unfolded adjust_dims_def]] x
    by (simp add: idem_hit_iff)
  have lots: "db_lots d' = db_lots d" by (rule adjust_lot_books(3) [OF ok run])
  have guard: "assert_lot_belongs_to w i l d' = assert_lot_belongs_to w i l d" for w i l
    unfolding assert_lot_belongs_to_def lots ..
  show ?thesis
    using run hit
    by (auto simp: adjust_lot_def adjust_lot_impl_def Let_def res_simps guard x split: if_splits)
qed

lemma adjust_lot_dates_ok:
  assumes ok: "dates_ok d" and run: "adjust_lot pol now a d = Inr (r, d')"
  shows "dates_ok d'"
proof (cases r)
  case AdjustSkipped
  with assms show ?thesis by (auto dest: adjust_lot_Skipped)
next
  case (AdjustApplied x)
  with run have "adjust_lot pol now a d = Inr (AdjustApplied x, d')" by simp
  then show ?thesis
  proof (rule adjust_lot_Applied)
    fix su ev
    assume "adjust_slot (aa_item_id a) (aa_warehouse_id a) (adj_lot_id x) (aa_delta a) (adj_reason x) su (adj_ref x)
       (adj_ref_line x) (adj_occurred_at x) (aa_trace_id a) ev (adj_production_date x) (adj_expiry_date x) d
       = Inr ((adj_before x, adj_after x), d')"
    then show ?thesis by (rule adjust_slot_dates [OF _ ok])
  qed
qed

section \<open>When a booking goes through\<close>

text \<open>
  A request that names an existing lot of a known item, carries no lot code and no \<open>meta\<close>, and
  whose ledger key is free.
\<close>

definition adjust_ready :: "policy_reader \<Rightarrow> db \<Rightarrow> adjust_args \<Rightarrow> int \<Rightarrow> int \<Rightarrow> bool" where
  "adjust_ready pol d a lid rl \<longleftrightarrow>
     aa_lot_id a = Some lid \<and> aa_ref_line a = PInt rl \<and> aa_meta a = None \<and> aa_lot_code a = None \<and>
     aa_delta a \<noteq> 0 \<and> pol (aa_item_id a) \<noteq> None \<and>
     dims_in_lots d (aa_warehouse_id a, aa_item_id a, lid) \<and>
     \<not> idem_hit_by_lot_key (aa_warehouse_id a) (aa_item_id a) lid (reason_value (aa_reason a)) (aa_ref a) rl d"

lemma find_row_on_hand:
  assumes "stocks_ok d" and "slot_exists d k"
  shows "\<exists>s. find (\<lambda>s. st_dims s = k) (db_stocks_lot d) = Some s \<and> st_qty s = on_hand d k"
proof (cases "find (\<lambda>s. st_dims s = k) (db_stocks_lot d)")
  case None
  with assms(2) show ?thesis by (auto simp: slot_exists_def dest: find_NoneD)
next
  case (Some s)
  with find_SomeD [OF Some] on_hand_row [of d s] assms(1) show ?thesis by (auto simp: stocks_ok_def)
qed

lemma adjust_slot_decides:
  assumes ok: "books_ok d" and lot: "dims_in_lots d (w, i, lid)" and de: "de \<noteq> 0"
    and key: "(re, rf, rl, (w, i, lid)) \<notin> set (map led_key (db_stock_ledger d))" and ev: "ev = None"
  shows "if on_hand d (w, i, lid) + de < 0
         then adjust_slot i w lid de re su rf rl ts tr ev pd ed d = Inl (ValueError ''insufficient stock(lot)'')
         else \<exists>bn d'. adjust_slot i w lid de re su rf rl ts tr ev pd ed d = Inr (bn, d')"
proof -
  have "\<exists>d1. insert_stock_slot (w, i, lid) d = Inr ((), d1)" using lot by (simp add: insert_stock_slot_def)
  then obtain d1 where ins: "insert_stock_slot (w, i, lid) d = Inr ((), d1)" ..
  note I = insert_stock_slot_Inr [OF ins]
  from I(6) [OF ok] have ok1: "books_ok d1" .
  obtain s where s: "find (\<lambda>s. st_dims s = (w, i, lid)) (db_stocks_lot d1) = Some s" "st_qty s = on_hand d (w, i, lid)"
    using find_row_on_hand [of d1 "(w, i, lid)"] ok1 I(1,2) by (auto simp: books_ok_def)
  have guard: "assert_lot_belongs_to w i (Some lid) d1 = Inr ()"
    using ok1 lot I(4) by (simp add: assert_lot_belongs_to_Inr books_defs dims_in_lots_def)
  let ?n = "st_qty s + de"
  have "\<exists>m d2. write_ledger w i re su de ?n rf rl ts tr ev pd ed lid d1 = Inr (m, d2)"
    using key lot guard I(3,4) ev
    by (auto simp: write_ledger_def insert_ledger_def Let_def dims_in_lots_def event_fk_def image_iff)
  with ins s de show ?thesis
    by (auto simp: adjust_slot_def ensure_stocks_lot_slot_exists_def lock_stocks_lot_slot_for_update_def Let_def)
qed

lemma adjust_lot_ready:
  assumes ok: "books_ok d" and ready: "adjust_ready pol d a lid rl"
    and nz: "lid \<noteq> 0"
  shows "adjust_lot pol now a d =
     bindR (adjust_slot (aa_item_id a) (aa_warehouse_id a) lid (aa_delta a) (reason_value (aa_reason a)) None
        (aa_ref a) rl (case aa_occurred_at a of Some t \<Rightarrow> t | None \<Rightarrow> now) (aa_trace_id a) None None None d)
      (\<lambda>((b, n), d'). Inr (AdjustApplied
        \<lparr>adj_lot_id = lid, adj_before = b, adj_delta = aa_delta a, adj_after = n,
         adj_reason = reason_value (aa_reason a), adj_ref = aa_ref a, adj_ref_line = rl,
         adj_meta = meta_out_of None (aa_trace_id a) None,
         adj_occurred_at = (case aa_occurred_at a of Some t \<Rightarrow> t | None \<Rightarrow> now),
         adj_production_date = None, adj_expiry_date = None\<rparr>, d'))"
proof -
  have guard: "assert_lot_belongs_to (aa_warehouse_id a) (aa_item_id a) (Some lid) d = Inr ()"
    using ok ready by (simp add: assert_lot_belongs_to_Inr books_defs adjust_ready_def)
  obtain p where "pol (aa_item_id a) = Some p" using ready by (auto simp: adjust_ready_def)
  with ready guard nz show ?thesis
    by (simp add: adjust_lot_def adjust_lot_impl_def adjust_ready_def ref_line_of_def Let_def meta_bool_def
        meta_get_def meta_str_def meta_int_def item_requires_batch_def norm_lot_code_def
        resolve_and_validate_dates_for_inbound_def)
qed

section \<open>Properties of StockService.adjust\_lot\<close>

text \<open>
  Claim C1. A booking is exact. When \<open>adjust_lot\<close> applies a request, the request names a lot and a line
  number, and the database that it leaves satisfies the invariant of the books again. The balance of that
  lot in the request's warehouse, for the request's item, moves from the quantity on hand to that quantity plus the
  delta, which is not negative; every other balance and every row of another slot stay. The ledger gains
  exactly one row, with the requested delta, the new balance, the requested time (the clock if none is given)
  and the idempotency key of the request: its reason, reference and line number, and that slot. No other table changes.
\<close>

theorem adjust_lot_exact:
  assumes "books_ok d" and "adjust_lot pol now a d = Inr (AdjustApplied x, d')"
  shows "books_ok d' \<and> (\<exists>lid rl r. aa_lot_id a = Some lid \<and> ref_line_of (aa_ref_line a) = Inr rl \<and>
     (let slot = (aa_warehouse_id a, aa_item_id a, lid) in
      adj_lot_id x = lid \<and> adj_before x = on_hand d slot \<and>
      adj_after x = on_hand d slot + aa_delta a \<and> 0 \<le> on_hand d slot + aa_delta a \<and>
      (\<forall>k. on_hand d' k = on_hand d k + (if k = slot then aa_delta a else 0)) \<and>
      filter (\<lambda>s. st_dims s \<noteq> slot) (db_stocks_lot d') = filter (\<lambda>s. st_dims s \<noteq> slot) (db_stocks_lot d) \<and>
      db_stock_ledger d' = db_stock_ledger d @ [r] \<and> led_delta r = aa_delta a \<and>
      led_after_qty r = on_hand d slot + aa_delta a \<and>
      led_occurred_at r = (case aa_occurred_at a of Some t \<Rightarrow> t | None \<Rightarrow> now) \<and>
      led_key r = (reason_value (aa_reason a), aa_ref a, rl, slot) \<and>
      d' = d\<lparr>db_stocks_lot := db_stocks_lot d', db_stock_ledger := db_stock_ledger d'\<rparr>))"
  using assms(2)
proof (rule adjust_lot_Applied)
  fix su ev
  assume x: "aa_lot_id a = Some (adj_lot_id x)" "ref_line_of (aa_ref_line a) = Inr (adj_ref_line x)"
      "adj_reason x = reason_value (aa_reason a)" "adj_ref x = aa_ref a"
      "adj_occurred_at x = (case aa_occurred_at a of Some t \<Rightarrow> t | None \<Rightarrow> now)"
    and key: "(adj_reason x, adj_ref x, adj_ref_line x, adjust_dims a x) \<notin> set (map led_key (db_stock_ledger d))"
    and slot: "adjust_slot (aa_item_id a) (aa_warehouse_id a) (adj_lot_id x) (aa_delta a) (adj_reason x) su (adj_ref x)
       (adj_ref_line x) (adj_occurred_at x) (aa_trace_id a) ev (adj_production_date x) (adj_expiry_date x) d
       = Inr ((adj_before x, adj_after x), d')"
  note E = adjust_slot_effect [OF assms(1) slot key [unfolded adjust_dims_def]]
    and F = adjust_slot_frame [OF assms(1) slot key [unfolded adjust_dims_def]]
  have "0 \<le> on_hand d' (aa_warehouse_id a, aa_item_id a, adj_lot_id x)" using E(1) by (simp add: books_ok_def on_hand_nonneg)
  with E(1-5) F x show ?thesis by (auto simp: Let_def led_key_def led_dims_def base_values_def)
qed

definition sample_ship :: adjust_args where
  "sample_ship = \<lparr>aa_item_id = 1, aa_warehouse_id = 1, aa_lot_id = Some 1, aa_delta = - 3,
     aa_reason = ReasonMovement MovementType_SHIP, aa_ref = ''OUT-1'', aa_ref_line = PInt 1, aa_occurred_at = Some 5,
     aa_meta = None, aa_lot_code = None, aa_production_date = None, aa_expiry_date = None, aa_trace_id = None\<rparr>"

definition sample_shipped :: "adjust_info \<times> db" where
  "sample_shipped = (case adjust_lot sample_policy 0 sample_ship sample_db of
     Inr (AdjustApplied x, d) \<Rightarrow> (x, d) | _ \<Rightarrow> undefined)"

lemma sample_ship_run:
  "adjust_lot sample_policy 0 sample_ship sample_db = Inr (AdjustApplied (fst sample_shipped), snd sample_shipped)"
  by code_simp

theorem adjust_lot_exact_witness:
  "adj_after (fst sample_shipped) = 7 \<and> on_hand (snd sample_shipped) (1, 1, 1) = 7 \<and> on_hand (snd sample_shipped) (1, 2, 2) = 4 \<and>
     db_lots (snd sample_shipped) = db_lots sample_db \<and> books_ok (snd sample_shipped)"
proof -
  have s: "aa_lot_id sample_ship = Some 1" "aa_warehouse_id sample_ship = 1" "aa_item_id sample_ship = 1" "aa_delta sample_ship = - 3"
    by (simp_all add: sample_ship_def)
  have h: "on_hand sample_db (1, 1, 1) = 10" "on_hand sample_db (1, 2, 2) = 4" by code_simp+
  from adjust_lot_exact [OF sample_books_ok sample_ship_run] have
    "books_ok (snd sample_shipped)" "adj_after (fst sample_shipped) = 7"
    "on_hand (snd sample_shipped) (1, 1, 1) = 7" "on_hand (snd sample_shipped) (1, 2, 2) = 4"
    and rest: "snd sample_shipped = sample_db\<lparr>db_stocks_lot := db_stocks_lot (snd sample_shipped), db_stock_ledger := db_stock_ledger (snd sample_shipped)\<rparr>"
    using h unfolding Let_def s by auto
  moreover have "db_lots (snd sample_shipped) = db_lots sample_db" by (subst rest) simp
  ultimately show ?thesis by simp
qed

text \<open>
  Claim C2. Replaying a request is harmless. Once a request has been applied, the same request run
  again, at any clock reading, books nothing, reports that it was skipped and leaves the database
  as it is.
\<close>

theorem adjust_lot_idempotent:
  assumes "books_ok d" and "adjust_lot pol now a d = Inr (AdjustApplied x, d')"
  shows "adjust_lot pol now' a d' = Inr (AdjustSkipped, d')"
  by (rule adjust_lot_replay [OF assms])

theorem adjust_lot_idempotent_witness:
  "adjust_lot sample_policy 99 sample_ship (snd sample_shipped) = Inr (AdjustSkipped, snd sample_shipped)"
  by (rule adjust_lot_idempotent [OF sample_books_ok sample_ship_run])

text \<open>
  Claim C3. A plain request is decided by the balance alone. Plain means: it names an existing lot, with an
  identifier other than zero, of a known item in the request's warehouse, an integer line number and a delta other
  than zero, it carries neither a lot code nor \<open>meta\<close>, and its ledger key is free. Such a request is refused with
  the insufficient stock error when the balance would become negative, and it is applied otherwise. (A request
  with a lot code also goes through the check of its dates, and \<open>meta\<close> may name an event that must exist.)
\<close>

theorem adjust_lot_decides:
  assumes "books_ok d" and "adjust_ready pol d a lid rl" and "lid \<noteq> 0"
  shows "if on_hand d (aa_warehouse_id a, aa_item_id a, lid) + aa_delta a < 0
         then adjust_lot pol now a d = Inl (ValueError ''insufficient stock(lot)'')
         else \<exists>x d'. adjust_lot pol now a d = Inr (AdjustApplied x, d')"
proof -
  have "dims_in_lots d (aa_warehouse_id a, aa_item_id a, lid)" "aa_delta a \<noteq> 0"
    "(reason_value (aa_reason a), aa_ref a, rl, (aa_warehouse_id a, aa_item_id a, lid)) \<notin> set (map led_key (db_stock_ledger d))"
    using assms(2) by (simp_all add: adjust_ready_def idem_hit_iff)
  from adjust_slot_decides [OF assms(1) this refl, of None "case aa_occurred_at a of Some t \<Rightarrow> t | None \<Rightarrow> now"
      "aa_trace_id a" None None] show ?thesis
    unfolding adjust_lot_ready [OF assms] by (auto split: if_splits)
qed

theorem adjust_lot_decides_witness:
  "adjust_lot sample_policy 0 (sample_ship\<lparr>aa_delta := - 11\<rparr>) sample_db = Inl (ValueError ''insufficient stock(lot)'') \<and>
   (\<exists>x d'. adjust_lot sample_policy 0 (sample_ship\<lparr>aa_delta := - 10\<rparr>) sample_db = Inr (AdjustApplied x, d'))"
proof -
  have "adjust_ready sample_policy sample_db (sample_ship\<lparr>aa_delta := - 11\<rparr>) 1 1"
    "adjust_ready sample_policy sample_db (sample_ship\<lparr>aa_delta := - 10\<rparr>) 1 1" by code_simp+
  from this [THEN adjust_lot_decides [OF sample_books_ok], of 0] show ?thesis
    by (simp_all add: sample_ship_def sample_db_def on_hand_def st_dims_def)
qed

text \<open>
  Production and expiry dates stand on receipts only: if every dated ledger row is a
  receipt, every dated row is a receipt after any successful call of \<open>adjust_lot\<close>.
\<close>

lemma adjust_lot_dates_only_on_receipts:
  assumes "dates_ok d" and "adjust_lot pol now a d = Inr (r, d')" and "row \<in> set (db_stock_ledger d')"
    and "led_production_date row \<noteq> None \<or> led_expiry_date row \<noteq> None"
  shows "led_reason_canon row = Some ''RECEIPT''"
  using adjust_lot_dates_ok [OF assms(1,2)] assms(3,4) by (auto simp: dates_ok_def row_dates_ok_def)

lemma adjust_lot_dates_only_on_receipts_witness:
  "led_reason_canon (db_stock_ledger (snd sample_shipped) ! 1) = Some ''RECEIPT''"
proof -
  have "db_stock_ledger (snd sample_shipped) ! 1 \<in> set (db_stock_ledger (snd sample_shipped))"
    "led_production_date (db_stock_ledger (snd sample_shipped) ! 1) \<noteq> None" by code_simp+
  with adjust_lot_dates_only_on_receipts [OF sample_dates_ok sample_ship_run] show ?thesis by blast
qed

end
