(* ===== verification/Stock_Ship.thy ===== *)
theory Stock_Ship
  imports Stock_Adjust "HOL-Library.Product_Lexorder"
begin

text \<open>
  Direct shipping, \<open>app/wms/stock/services/stock_ship_service.py\<close>, the outbound invariant guard,
  \<open>app/wms/outbound/services/invariant_guard_outbound.py\<close>, and the availability reads of
  \<open>app/wms/stock/services/stock_availability_service.py\<close>.
\<close>

section \<open>Availability\<close>

definition get_available_for_item :: "int \<Rightarrow> int \<Rightarrow> db \<Rightarrow> int" where
  "get_available_for_item warehouse_id item_id d =
     sum_where st_qty (\<lambda>s. st_item_id s = item_id \<and> st_warehouse_id s = warehouse_id) (db_stocks_lot d)"

text \<open>The result is a dictionary; \<open>UNNEST\<close> keeps duplicates, the dictionary does not.\<close>

definition get_available_for_items :: "int \<Rightarrow> int list \<Rightarrow> db \<Rightarrow> (int \<times> int) list" where
  "get_available_for_items warehouse_id item_ids d =
     map (\<lambda>i. (i, get_available_for_item warehouse_id i d)) (remdups (sort (filter (\<lambda>x. x > 0) item_ids)))"

section \<open>The outbound invariant guard\<close>

definition load_last_after_qty_for_ref_lot :: "string \<Rightarrow> dims \<Rightarrow> db \<Rightarrow> int option" where
  "load_last_after_qty_for_ref_lot ref k d =
     map_option led_after_qty (first_by (\<lambda>r. (- led_occurred_at r, - led_id r))
       (\<lambda>r. led_ref r = ref \<and> led_dims r = k) (db_stock_ledger d))"

definition load_stocks_lot_qty :: "dims \<Rightarrow> db \<Rightarrow> int" where
  "load_stocks_lot_qty k d =
     (case find (\<lambda>s. st_dims s = k) (db_stocks_lot d) of None \<Rightarrow> 0 | Some s \<Rightarrow> st_qty s)"

definition load_touched_lots_by_ref :: "string \<Rightarrow> db \<Rightarrow> dims list" where
  "load_touched_lots_by_ref ref d = remdups (map led_dims (filter (\<lambda>r. led_ref r = ref) (db_stock_ledger d)))"

definition guard_mismatch :: "string \<Rightarrow> db \<Rightarrow> dims \<Rightarrow> bool" where
  "guard_mismatch ref d k =
     (case load_last_after_qty_for_ref_lot ref k d of
        None \<Rightarrow> True
      | Some q \<Rightarrow> q \<noteq> load_stocks_lot_qty k d)"

definition enforce_outbound_invariant_guard :: "string \<Rightarrow> dims list option \<Rightarrow> db \<Rightarrow> unit result" where
  "enforce_outbound_invariant_guard ref effects d =
     (let touched = (case effects of None \<Rightarrow> load_touched_lots_by_ref ref d | Some ks \<Rightarrow> sort (remdups ks))
      in if touched = [] then Inr ()
         else (let mismatches = filter (guard_mismatch ref d) touched
               in if mismatches \<noteq> [] then Inl (HTTPException 409 ''invariant_guard_failed'') else Inr ()))"

section \<open>ship\_commit\_direct\_lot\_impl\<close>

record ship_effect =
  eff_dims :: dims
  eff_qty :: int
  eff_ref_line :: int

record ship_result =
  ship_idempotent :: bool
  ship_total_qty :: int

definition load_total_available_qty :: "int \<Rightarrow> int \<Rightarrow> db \<Rightarrow> int" where
  "load_total_available_qty warehouse_id item_id d =
     sum_where st_qty (\<lambda>s. st_warehouse_id s = warehouse_id \<and> st_item_id s = item_id \<and> st_qty s > 0) (db_stocks_lot d)"

text \<open>\<open>need_by_item[item] = need_by_item.get(item, 0) + qty\<close>: a dictionary keeps insertion order.\<close>

fun add_need :: "int \<Rightarrow> int \<Rightarrow> (int \<times> int) list \<Rightarrow> (int \<times> int) list" where
  "add_need i q [] = [(i, q)]"
| "add_need i q ((j, n) # ns) = (if j = i then (j, n + q) # ns else (j, n) # add_need i q ns)"

definition needs_of :: "(int \<times> int) list \<Rightarrow> (int \<times> int) list" where
  "needs_of lines = fold (\<lambda>(i, q) ns. add_need i q ns) lines []"

definition already_shipped :: "int \<Rightarrow> int \<Rightarrow> string \<Rightarrow> db \<Rightarrow> int" where
  "already_shipped w i ref d =
     sum_where led_delta (\<lambda>r. led_warehouse_id r = w \<and> led_item_id r = i \<and> led_ref r = ref \<and> led_delta r < 0)
       (db_stock_ledger d)"

definition internal_slot :: "int \<Rightarrow> int \<Rightarrow> db \<Rightarrow> stock_lot option" where
  "internal_slot w i d =
     first_by st_lot_id
       (\<lambda>s. st_item_id s = i \<and> st_warehouse_id s = w \<and> st_qty s > 0 \<and>
            (\<exists>l \<in> set (db_lots d). lot_dims l = st_dims s \<and> lot_code l = None))
       (db_stocks_lot d)"

text \<open>One round of the loop over \<open>need_by_item\<close>; the accumulator is \<open>(idempotent, tot, effects)\<close>.\<close>

type_synonym ship_acc = "bool \<times> int \<times> ship_effect list"

definition ship_adjust_args ::
  "int \<Rightarrow> string \<Rightarrow> int \<Rightarrow> int \<Rightarrow> int \<Rightarrow> int \<Rightarrow> datetime \<Rightarrow> string option \<Rightarrow> adjust_args" where
  "ship_adjust_args w ref i lid take_qty ref_line ts trace_id =
     \<lparr>aa_item_id = i, aa_warehouse_id = w, aa_lot_id = Some lid, aa_delta = - take_qty,
      aa_reason = ReasonMovement MovementType_SHIP, aa_ref = ref, aa_ref_line = PInt ref_line,
      aa_occurred_at = Some ts, aa_meta = Some [(''sub_reason'', PStr ''ORDER_SHIP'')], aa_lot_code = None,
      aa_production_date = None, aa_expiry_date = None, aa_trace_id = trace_id\<rparr>"

definition ship_one ::
  "policy_reader \<Rightarrow> datetime \<Rightarrow> int \<Rightarrow> string \<Rightarrow> datetime \<Rightarrow> string option \<Rightarrow> int \<times> int \<Rightarrow> ship_acc \<Rightarrow> ship_acc action" where
  "ship_one pol now w ref ts trace_id need_item acc d =
     (case (need_item, acc) of ((i, want), (idem, tot, effects)) \<Rightarrow>
      if (case pol i of Some p \<Rightarrow> requires_batch_from_expiry_policy (ip_expiry_policy p) | None \<Rightarrow> False)
      then Inl (HTTPException 422 ''batch_required'')
      else
        (let need = want + already_shipped w i ref d
         in if need \<le> 0 then Inr (acc, d)
            else case internal_slot w i d of
              None \<Rightarrow> Inl (HTTPException 409 ''insufficient_stock'')
            | Some s \<Rightarrow>
                (let lid = st_lot_id s; take_qty = min need (st_qty s); ref_line = int (length effects) + 1
                 in if take_qty \<le> 0 then Inl (HTTPException 409 ''insufficient_stock'')
                    else bindR (adjust_lot pol now (ship_adjust_args w ref i lid take_qty ref_line ts trace_id) d) (\<lambda>(_, d1).
                      if need > take_qty then Inl (HTTPException 409 ''insufficient_stock'')
                      else Inr ((False, tot + take_qty,
                             effects @ [\<lparr>eff_dims = (w, i, lid), eff_qty = - take_qty, eff_ref_line = ref_line\<rparr>]), d1)))))"

fun ship_loop ::
  "policy_reader \<Rightarrow> datetime \<Rightarrow> int \<Rightarrow> string \<Rightarrow> datetime \<Rightarrow> string option \<Rightarrow> (int \<times> int) list \<Rightarrow> ship_acc \<Rightarrow> ship_acc action" where
  "ship_loop pol now w ref ts trace_id [] acc d = Inr (acc, d)"
| "ship_loop pol now w ref ts trace_id (n # ns) acc d =
     bindR (ship_one pol now w ref ts trace_id n acc d) (\<lambda>(acc1, d1). ship_loop pol now w ref ts trace_id ns acc1 d1)"

definition ship_commit_direct_lot_impl ::
  "policy_reader \<Rightarrow> datetime \<Rightarrow> int \<Rightarrow> string \<Rightarrow> (int \<times> int) list \<Rightarrow> datetime option \<Rightarrow> string option \<Rightarrow> ship_result action" where
  "ship_commit_direct_lot_impl pol now w ref lines occurred_at trace_id d =
     (let ts = (case occurred_at of Some t \<Rightarrow> t | None \<Rightarrow> now);
          need_by_item = needs_of lines
      in if need_by_item = [] then Inr (\<lparr>ship_idempotent = True, ship_total_qty = 0\<rparr>, d)
         else bindR (ensure (\<forall>i \<in> set (map fst need_by_item). pol i \<noteq> None) (HTTPException 422 ''unknown_item'')) (\<lambda>_.
           bindR (ship_loop pol now w ref ts trace_id need_by_item (True, 0, []) d) (\<lambda>((idem, tot, effects), d1).
           bindR (if effects \<noteq> [] then enforce_outbound_invariant_guard ref (Some (map eff_dims effects)) d1 else Inr ()) (\<lambda>_.
           Inr (\<lparr>ship_idempotent = idem, ship_total_qty = tot\<rparr>, d1)))))"

section \<open>Totals per item\<close>

lemma sum_where_add: "sum_where (\<lambda>x. a x + b x) P xs = sum_where a P xs + sum_where b P xs"
  by (induction xs) auto

lemma sum_where_zero [simp]: "sum_where (\<lambda>x. 0) P xs = 0"
  by (induction xs) auto

lemma sum_where_one_key:
  assumes "distinct (map f xs)" and "P k \<Longrightarrow> k \<in> f ` set xs"
  shows "sum_where (\<lambda>x. if k = f x then h else 0) (\<lambda>x. P (f x)) xs = (if P k then h else 0)"
  using assms
proof (induction xs)
  case (Cons x xs)
  show ?case
  proof (cases "k = f x")
    case True
    have "sum_where (\<lambda>y. if k = f y then h else 0) (\<lambda>y. P (f y)) xs = sum_where (\<lambda>y. 0) (\<lambda>y. P (f y)) xs"
      using Cons.prems(1) True by (intro sum_where_cong) auto
    with True show ?thesis by simp
  next
    case False
    with Cons show ?thesis by auto
  qed
qed auto

text \<open>Summing per key and then over the keys is summing over the rows.\<close>

lemma sum_by_key:
  assumes "distinct (map f xs)" and "\<And>r. r \<in> set ys \<Longrightarrow> P (g r) \<Longrightarrow> g r \<in> f ` set xs"
  shows "sum_where (\<lambda>x. sum_where h (\<lambda>r. g r = f x) ys) (\<lambda>x. P (f x)) xs = sum_where h (\<lambda>r. P (g r)) ys"
  using assms(2)
proof (induction ys)
  case (Cons r ys)
  have "sum_where (\<lambda>x. if g r = f x then h r else 0) (\<lambda>x. P (f x)) xs = (if P (g r) then h r else 0)"
    by (rule sum_where_one_key [OF assms(1)]) (use Cons.prems in auto)
  with Cons show ?case by (simp add: sum_where_add)
qed simp

text \<open>The availability of an item is the sum of its ledger deltas.\<close>

lemma available_is_ledger_sum:
  assumes ok: "books_ok d"
  shows "get_available_for_item w i d =
         sum_where led_delta (\<lambda>r. led_warehouse_id r = w \<and> led_item_id r = i) (db_stock_ledger d)"
proof -
  define P :: "dims \<Rightarrow> bool" where "P k \<longleftrightarrow> fst k = w \<and> fst (snd k) = i" for k
  have dist: "distinct (map st_dims (db_stocks_lot d))" using ok by (simp add: books_defs)
  have qty: "st_qty s = balance d (st_dims s)" if "s \<in> set (db_stocks_lot d)" for s
    using on_hand_row [OF dist that] balancedD [OF ok] by simp
  have "get_available_for_item w i d = sum_where (\<lambda>s. balance d (st_dims s)) (\<lambda>s. P (st_dims s)) (db_stocks_lot d)"
    unfolding get_available_for_item_def by (rule sum_where_cong) (auto simp: P_def st_dims_def qty)
  also have "\<dots> = sum_where led_delta (\<lambda>r. P (led_dims r)) (db_stock_ledger d)"
    unfolding balance_def by (rule sum_by_key [OF dist]) (use ok in \<open>simp add: books_defs slot_exists_image\<close>)
  also have "\<dots> = sum_where led_delta (\<lambda>r. led_warehouse_id r = w \<and> led_item_id r = i) (db_stock_ledger d)"
    by (rule sum_where_cong) (auto simp: P_def led_dims_def)
  finally show ?thesis .
qed

lemma adjust_available:
  assumes "books_ok d" and "adjust_lot pol now a d = Inr (AdjustApplied x, d')"
  shows "get_available_for_item w i d' = get_available_for_item w i d +
           (if aa_warehouse_id a = w \<and> aa_item_id a = i then aa_delta a else 0)"
    and "\<exists>r. db_stock_ledger d' = db_stock_ledger d @ [r] \<and> led_dims r = adjust_dims a x \<and> led_delta r = aa_delta a \<and>
           led_ref r = aa_ref a"
proof -
  have "\<exists>r. db_stock_ledger d' = db_stock_ledger d @ [r] \<and> led_dims r = adjust_dims a x \<and> led_delta r = aa_delta a \<and>
           led_ref r = aa_ref a"
    using assms(2)
  proof (rule adjust_lot_Applied)
    fix su ev
    assume "adj_ref x = aa_ref a"
      and key: "(adj_reason x, adj_ref x, adj_ref_line x, adjust_dims a x) \<notin> set (map led_key (db_stock_ledger d))"
      and slot: "adjust_slot (aa_item_id a) (aa_warehouse_id a) (adj_lot_id x) (aa_delta a) (adj_reason x) su (adj_ref x)
       (adj_ref_line x) (adj_occurred_at x) (aa_trace_id a) ev (adj_production_date x) (adj_expiry_date x) d
       = Inr ((adj_before x, adj_after x), d')"
    with adjust_slot_effect(5) [OF assms(1) slot key [unfolded adjust_dims_def]] show ?thesis
      by (auto simp: adjust_dims_def base_values_def Let_def led_dims_def)
  qed
  then show "\<exists>r. db_stock_ledger d' = db_stock_ledger d @ [r] \<and> led_dims r = adjust_dims a x \<and> led_delta r = aa_delta a \<and>
           led_ref r = aa_ref a" .
  then show "get_available_for_item w i d' = get_available_for_item w i d +
           (if aa_warehouse_id a = w \<and> aa_item_id a = i then aa_delta a else 0)"
    using available_is_ledger_sum [OF assms(1), of w i]
      available_is_ledger_sum [OF adjust_lot_books(1) [OF assms], of w i]
    by (auto simp: adjust_dims_def led_dims_def)
qed

section \<open>Shipping takes what was asked\<close>

lemma adjust_lot_not_skipped:
  assumes "adjust_lot pol now a d = Inr (AdjustSkipped, d')" and "aa_delta a \<noteq> 0"
  obtains lid rl where "aa_lot_id a = Some lid" "ref_line_of (aa_ref_line a) = Inr rl"
    "(reason_value (aa_reason a), aa_ref a, rl, (aa_warehouse_id a, aa_item_id a, lid)) \<in> set (map led_key (db_stock_ledger d))"
  using assms
  by (auto simp: adjust_lot_def adjust_lot_impl_def Let_def res_simps idem_hit_iff split: if_splits)

lemma needs_of_sum:
  "sum_where snd (\<lambda>n. fst n = i) (needs_of ls) = sum_where snd (\<lambda>n. fst n = i) ls"
  "distinct (map fst (needs_of ls))"
  "\<forall>n \<in> set ls. 0 < snd n \<Longrightarrow> \<forall>n \<in> set (needs_of ls). 0 < snd n"
proof -
  have add: "sum_where snd (\<lambda>n. fst n = i) (add_need j q ns) = sum_where snd (\<lambda>n. fst n = i) ns + (if j = i then q else 0)" for j q ns
    by (induction j q ns rule: add_need.induct) auto
  have keys: "set (map fst (add_need j q ns)) = insert j (set (map fst ns))" for j q ns
    by (induction j q ns rule: add_need.induct) auto
  have dist: "distinct (map fst ns) \<Longrightarrow> distinct (map fst (add_need j q ns))" for j q ns
    by (induction j q ns rule: add_need.induct) (use keys in auto)
  have pos: "\<forall>n \<in> set ns. 0 < snd n \<Longrightarrow> 0 < q \<Longrightarrow> \<forall>n \<in> set (add_need j q ns). 0 < snd n" for j q ns
    by (induction j q ns rule: add_need.induct) (auto split: if_splits)
  have "sum_where snd (\<lambda>n. fst n = i) (fold (\<lambda>(i, q) ns. add_need i q ns) ls ns)
      = sum_where snd (\<lambda>n. fst n = i) ns + sum_where snd (\<lambda>n. fst n = i) ls" for ns
    by (induction ls arbitrary: ns) (auto simp: add)
  then show "sum_where snd (\<lambda>n. fst n = i) (needs_of ls) = sum_where snd (\<lambda>n. fst n = i) ls"
    by (simp add: needs_of_def)
  have "distinct (map fst ns) \<Longrightarrow> distinct (map fst (fold (\<lambda>(i, q) ns. add_need i q ns) ls ns))" for ns
    by (induction ls arbitrary: ns) (auto intro: dist)
  then show "distinct (map fst (needs_of ls))" by (simp add: needs_of_def)
  have "\<forall>n \<in> set ns. 0 < snd n \<Longrightarrow> \<forall>n \<in> set ls. 0 < snd n \<Longrightarrow>
      \<forall>n \<in> set (fold (\<lambda>(i, q) ns. add_need i q ns) ls ns). 0 < snd n" for ns
  proof (induction ls arbitrary: ns)
    case (Cons l ls)
    obtain j q where l: "l = (j, q)" by (cases l)
    have "\<forall>n \<in> set (add_need j q ns). 0 < snd n" using Cons.prems l by (intro pos) auto
    with Cons.IH [of "add_need j q ns"] Cons.prems l show ?case by simp
  qed simp
  from this [of "[]"] show "\<forall>n \<in> set ls. 0 < snd n \<Longrightarrow> \<forall>n \<in> set (needs_of ls). 0 < snd n"
    by (simp add: needs_of_def)
qed

lemma already_shipped_none:
  "(\<And>r. r \<in> set (db_stock_ledger d) \<Longrightarrow> led_ref r = ref \<Longrightarrow> led_item_id r \<noteq> i) \<Longrightarrow> already_shipped w i ref d = 0"
  unfolding already_shipped_def by (rule sum_where_none) auto

lemma ship_one_fresh:
  assumes ok: "books_ok d" and q: "0 < q"
    and fresh: "\<And>r. r \<in> set (db_stock_ledger d) \<Longrightarrow> led_ref r = ref \<Longrightarrow> led_item_id r \<noteq> i"
    and run: "ship_one pol now w ref ts tr (i, q) (idem, tot, effs) d = Inr (acc', d')"
  shows "books_ok d' \<and> fst (snd acc') = tot + q \<and>
     (\<forall>w' j. get_available_for_item w' j d' = get_available_for_item w' j d - (if w' = w \<and> j = i then q else 0)) \<and>
     (\<forall>r \<in> set (db_stock_ledger d'). r \<in> set (db_stock_ledger d) \<or> led_item_id r = i)"
proof -
  have al: "already_shipped w i ref d = 0" using fresh by (rule already_shipped_none)
  from run q obtain s res where s: "internal_slot w i d = Some s" and tk: "min q (st_qty s) = q"
    and adj: "adjust_lot pol now (ship_adjust_args w ref i (st_lot_id s) q (int (length effs) + 1) ts tr) d = Inr (res, d')"
    and acc: "fst (snd acc') = tot + q"
    by (auto simp: ship_one_def al Let_def res_simps min_def split: if_splits option.splits)
  let ?a = "ship_adjust_args w ref i (st_lot_id s) q (int (length effs) + 1) ts tr"
  have a: "aa_delta ?a = - q" "aa_warehouse_id ?a = w" "aa_item_id ?a = i" "aa_ref ?a = ref"
    by (simp_all add: ship_adjust_args_def)
  show ?thesis
  proof (cases res)
    case AdjustSkipped
    with adj have "adjust_lot pol now ?a d = Inr (AdjustSkipped, d')" by simp
    then show ?thesis
    proof (rule adjust_lot_not_skipped)
      fix lid rl
      assume "(reason_value (aa_reason ?a), aa_ref ?a, rl, (aa_warehouse_id ?a, aa_item_id ?a, lid))
         \<in> set (map led_key (db_stock_ledger d))"
      then show ?thesis using fresh by (auto simp: a led_key_def led_dims_def)
    qed (use a q in simp)
  next
    case (AdjustApplied x)
    with adj have ap: "adjust_lot pol now ?a d = Inr (AdjustApplied x, d')" by simp
    note A = adjust_available [OF ok ap]
    from A(2) have "\<forall>r \<in> set (db_stock_ledger d'). r \<in> set (db_stock_ledger d) \<or> led_item_id r = i"
      by (auto simp: adjust_dims_def led_dims_def a)
    with A(1) acc adjust_lot_books(1) [OF ok ap] show ?thesis by (simp add: a)
  qed
qed

lemma ship_loop_fresh:
  assumes "books_ok d" and "\<forall>n \<in> set ns. 0 < snd n" and "distinct (map fst ns)"
    and "\<forall>r \<in> set (db_stock_ledger d). led_ref r = ref \<longrightarrow> led_item_id r \<notin> fst ` set ns"
    and "ship_loop pol now w ref ts tr ns (idem, tot, effs) d = Inr (acc', d')"
  shows "books_ok d' \<and> fst (snd acc') = tot + sum_list (map snd ns) \<and>
     (\<forall>w' j. get_available_for_item w' j d' = get_available_for_item w' j d -
        (if w' = w then sum_where snd (\<lambda>n. fst n = j) ns else 0))"
  using assms
proof (induction ns arbitrary: idem tot effs d)
  case Nil
  then show ?case by auto
next
  case (Cons n ns)
  obtain i q where n: "n = (i, q)" by (cases n)
  from Cons.prems(5) n obtain idem1 tot1 effs1 d1 where
      one: "ship_one pol now w ref ts tr (i, q) (idem, tot, effs) d = Inr ((idem1, tot1, effs1), d1)"
    and rest: "ship_loop pol now w ref ts tr ns (idem1, tot1, effs1) d1 = Inr (acc', d')"
    by (auto simp: res_simps)
  have q: "0 < q" using Cons.prems(2) n by simp
  have fr: "led_item_id r \<noteq> i" if "r \<in> set (db_stock_ledger d)" "led_ref r = ref" for r
    using Cons.prems(4) n that by auto
  note S = ship_one_fresh [OF Cons.prems(1) q fr one]
  have fr1: "\<forall>r \<in> set (db_stock_ledger d1). led_ref r = ref \<longrightarrow> led_item_id r \<notin> fst ` set ns"
    using S Cons.prems(3,4) n by (auto simp: image_iff) force+
  have "books_ok d' \<and> fst (snd acc') = tot1 + sum_list (map snd ns) \<and>
     (\<forall>w' j. get_available_for_item w' j d' = get_available_for_item w' j d1 -
        (if w' = w then sum_where snd (\<lambda>n. fst n = j) ns else 0))"
    by (rule Cons.IH [OF _ _ _ fr1 rest]) (use S Cons.prems in auto)
  with S n show ?case by auto
qed

lemma sum_list_by_key:
  assumes "distinct (map fst ns)" and "\<And>i. sum_where snd (\<lambda>n. fst n = i) ns = sum_where snd (\<lambda>n. fst n = i) ls"
    and "fst ` set ls \<subseteq> fst ` set ns"
  shows "sum_list (map snd ns) = sum_list (map (snd :: 'a \<times> int \<Rightarrow> int) ls)"
proof -
  have "sum_where (\<lambda>x. sum_where snd (\<lambda>r. fst r = fst x) zs) (\<lambda>x. True) ns = sum_where snd (\<lambda>r. True) zs"
    if "fst ` set zs \<subseteq> fst ` set ns" for zs :: "('a \<times> int) list"
    using sum_by_key [of fst ns zs "\<lambda>_. True" fst snd] assms(1) that by auto
  from this [of ns] this [of ls] assms(2,3) show ?thesis by (simp add: sum_where_def)
qed

lemma needs_of_keys: "fst ` set (needs_of ls) = fst ` set ls"
proof -
  have keys: "fst ` set (add_need j q ns) = insert j (fst ` set ns)" for j q and ns :: "(int \<times> int) list"
    by (induction j q ns rule: add_need.induct) auto
  have "fst ` set (fold (\<lambda>(i, q) ns. add_need i q ns) ls ns) = fst ` set ns \<union> fst ` set ls" for ns
    by (induction ls arbitrary: ns) (simp_all add: keys split_def)
  then show ?thesis by (simp add: needs_of_def)
qed

text \<open>A shipment under a reference that the ledger has not seen, in terms of the needs by item.\<close>

lemma ship_run_needs:
  assumes "books_ok d" and "\<forall>n \<in> set lines. 0 < snd n"
    and "\<forall>r \<in> set (db_stock_ledger d). led_ref r \<noteq> ref"
    and "ship_commit_direct_lot_impl pol now w ref lines occurred_at trace_id d = Inr (res, d')"
  shows "books_ok d' \<and> ship_total_qty res = sum_list (map snd (needs_of lines)) \<and>
     (\<forall>w' i. get_available_for_item w' i d' = get_available_for_item w' i d -
        (if w' = w then sum_where snd (\<lambda>n. fst n = i) (needs_of lines) else 0))"
proof (cases "needs_of lines = []")
  case True
  with assms show ?thesis by (auto simp: ship_commit_direct_lot_impl_def)
next
  case False
  define ts where "ts = (case occurred_at of Some t \<Rightarrow> t | None \<Rightarrow> now)"
  from assms(4) False obtain idem tot effs where
      loop: "ship_loop pol now w ref ts trace_id (needs_of lines) (True, 0, []) d = Inr ((idem, tot, effs), d')"
    and res: "ship_total_qty res = tot"
    by (auto simp: ship_commit_direct_lot_impl_def Let_def res_simps ts_def split: if_splits)
  have "books_ok d' \<and> fst (snd (idem, tot, effs)) = 0 + sum_list (map snd (needs_of lines)) \<and>
     (\<forall>w' j. get_available_for_item w' j d' = get_available_for_item w' j d -
        (if w' = w then sum_where snd (\<lambda>n. fst n = j) (needs_of lines) else 0))"
    by (rule ship_loop_fresh [OF assms(1) needs_of_sum(3) [OF assms(2)] needs_of_sum(2) _ loop]) (use assms(3) in auto)
  then show ?thesis by (simp add: res)
qed

text \<open>
  Claim C5. Direct shipping is exact. When \<open>ship_commit_direct\<close> succeeds for a reference that the
  ledger has not seen, with positive quantities, the books are kept, the availability of every
  item in the warehouse drops by the sum of its lines, nothing else moves, and the reported total
  is the sum of all lines.
\<close>

theorem ship_commit_exact:
  assumes "books_ok d" and "\<forall>n \<in> set lines. 0 < snd n"
    and "\<forall>r \<in> set (db_stock_ledger d). led_ref r \<noteq> ref"
    and "ship_commit_direct_lot_impl pol now w ref lines occurred_at trace_id d = Inr (res, d')"
  shows "books_ok d' \<and> ship_total_qty res = sum_list (map snd lines) \<and>
     (\<forall>w' i. get_available_for_item w' i d' = get_available_for_item w' i d -
        (if w' = w then sum_where snd (\<lambda>n. fst n = i) lines else 0))"
proof -
  have "sum_list (map snd (needs_of lines)) = sum_list (map snd lines)"
    by (rule sum_list_by_key [OF needs_of_sum(2) needs_of_sum(1)]) (simp add: needs_of_keys)
  with ship_run_needs [OF assms] show ?thesis by (simp add: needs_of_sum(1))
qed

theorem ship_commit_exact_witness:
  "\<exists>res d'. ship_commit_direct_lot_impl sample_policy 0 1 ''SHIP-1'' [(1, 2), (1, 3)] (Some 7) None sample_db = Inr (res, d')
     \<and> ship_total_qty res = 5 \<and> get_available_for_item 1 1 d' = 5"
proof -
  have "succeeds (ship_commit_direct_lot_impl sample_policy 0 1 ''SHIP-1'' [(1, 2), (1, 3)] (Some 7) None sample_db)
     (\<lambda>_. True)" by code_simp
  then obtain res d' where run:
    "ship_commit_direct_lot_impl sample_policy 0 1 ''SHIP-1'' [(1, 2), (1, 3)] (Some 7) None sample_db = Inr (res, d')"
    by (blast dest: succeeds_pairD)
  have "\<forall>r \<in> set (db_stock_ledger sample_db). led_ref r \<noteq> ''SHIP-1''" "get_available_for_item 1 1 sample_db = 10"
    by code_simp+
  with ship_commit_exact [OF sample_books_ok _ _ run] run show ?thesis by simp
qed

text \<open>
  Shipping more under a reference that was already shipped moves nothing although it
  reports success: after three pieces went out under a reference, asking for five under the same
  reference reports that it applied a total of two, yet the availability stays where it was,
  because the new ledger line restarts at one and meets the idempotency key of the first call.
\<close>

lemma ship_top_up_moves_nothing:
  "\<exists>r1 d1 r2 d2.
     ship_commit_direct_lot_impl sample_policy 0 1 ''SHIP-1'' [(1, 3)] (Some 7) None sample_db = Inr (r1, d1) \<and>
     ship_commit_direct_lot_impl sample_policy 0 1 ''SHIP-1'' [(1, 5)] (Some 8) None d1 = Inr (r2, d2) \<and>
     \<not> ship_idempotent r2 \<and> ship_total_qty r2 = 2 \<and>
     get_available_for_item 1 1 d1 = 7 \<and> get_available_for_item 1 1 d2 = 7"
proof -
  have "succeeds (ship_commit_direct_lot_impl sample_policy 0 1 ''SHIP-1'' [(1, 3)] (Some 7) None sample_db) (\<lambda>(r1, d1).
      get_available_for_item 1 1 d1 = 7 \<and>
      succeeds (ship_commit_direct_lot_impl sample_policy 0 1 ''SHIP-1'' [(1, 5)] (Some 8) None d1) (\<lambda>(r2, d2).
        \<not> ship_idempotent r2 \<and> ship_total_qty r2 = 2 \<and> get_available_for_item 1 1 d2 = 7))" by code_simp
  then show ?thesis by (fastforce dest!: succeeds_pairD)
qed

end
