(* ===== verification/Freeze_Guard.thy ===== *)
theory Freeze_Guard
  imports Stock_Ship
begin

text \<open>
  The freeze guard, \<open>app/wms/inventory_adjustment/count/services/count_freeze_guard_service.py\<close>
  and \<open>repos/count_freeze_guard_repo.py\<close>: a warehouse with a count document in status FROZEN
  refuses stock operations.
\<close>

definition get_frozen_count_doc_brief :: "int \<Rightarrow> db \<Rightarrow> count_doc option" where
  "get_frozen_count_doc_brief warehouse_id d =
     first_by (\<lambda>c. (- cd_snapshot_at c, - cd_id c))
       (\<lambda>c. cd_warehouse_id c = warehouse_id \<and> cd_status c = CD_FROZEN) (db_count_docs d)"

definition ensure_warehouse_not_frozen :: "int \<Rightarrow> db \<Rightarrow> unit result" where
  "ensure_warehouse_not_frozen warehouse_id d =
     (case get_frozen_count_doc_brief warehouse_id d of
        None \<Rightarrow> Inr ()
      | Some _ \<Rightarrow> Inl (HTTPException 409 ''count_doc_frozen_for_warehouse''))"

definition frozen :: "int \<Rightarrow> db \<Rightarrow> bool" where
  "frozen w d \<longleftrightarrow> (\<exists>c \<in> set (db_count_docs d). cd_warehouse_id c = w \<and> cd_status c = CD_FROZEN)"

lemma ensure_not_frozen_Inr [res_simps]: "ensure_warehouse_not_frozen w d = Inr u \<longleftrightarrow> \<not> frozen w d"
  by (auto simp: ensure_warehouse_not_frozen_def get_frozen_count_doc_brief_def frozen_def first_by_None
      split: option.split dest: first_by_Some)

lemma ensure_not_frozen_eq:
  "ensure_warehouse_not_frozen w d =
     (if frozen w d then Inl (HTTPException 409 ''count_doc_frozen_for_warehouse'') else Inr ())"
  by (auto simp: ensure_warehouse_not_frozen_def get_frozen_count_doc_brief_def frozen_def first_by_None
      split: option.split dest: first_by_Some)

text \<open>Frames: what the operations of the stock core leave alone.\<close>

lemma lot_step_only_lots:
  assumes "lot_step w i d lid d'"
  shows "\<exists>ls. d' = d\<lparr>db_lots := ls\<rparr>"
  using assms
proof cases
  case found
  then show ?thesis by (intro exI [of _ "db_lots d"]) simp
next
  case (patched ed u)
  from patched(2) have "d' = d \<or> (\<exists>ls. d' = d\<lparr>db_lots := ls\<rparr>)"
    by (auto simp: patch_lot_expiry_if_null_def Let_def res_simps split: option.splits)
  moreover have "d = d\<lparr>db_lots := db_lots d\<rparr>" by simp
  ultimately show ?thesis by metis
next
  case (created ts row)
  then show ?thesis by (auto simp: insert_lot_def Let_def res_simps split: if_splits)
qed

lemma adjust_only_stock:
  assumes "adjust_lot pol now a d = Inr (r, d')"
  shows "\<exists>led st. d' = d\<lparr>db_stock_ledger := led, db_stocks_lot := st\<rparr>"
proof (cases r)
  case AdjustSkipped
  with assms have "d' = d" by (auto dest: adjust_lot_Skipped)
  then show ?thesis by (intro exI [of _ "db_stock_ledger d"] exI [of _ "db_stocks_lot d"]) simp
next
  case (AdjustApplied x)
  with assms have "adjust_lot pol now a d = Inr (AdjustApplied x, d')" by simp
  then show ?thesis
  proof (rule adjust_lot_Applied)
    fix su ev
    assume "adjust_slot (aa_item_id a) (aa_warehouse_id a) (adj_lot_id x) (aa_delta a) (adj_reason x) su (adj_ref x)
       (adj_ref_line x) (adj_occurred_at x) (aa_trace_id a) ev (adj_production_date x) (adj_expiry_date x) d
       = Inr ((adj_before x, adj_after x), d')"
    then show ?thesis
    proof (rule adjust_slot_parts)
      fix d1 sid d2 m
      assume ins: "insert_stock_slot (aa_warehouse_id a, aa_item_id a, adj_lot_id x) d = Inr ((), d1)"
        and wl: "write_ledger (aa_warehouse_id a) (aa_item_id a) (adj_reason x) su (aa_delta a) (adj_after x) (adj_ref x)
          (adj_ref_line x) (adj_occurred_at x) (aa_trace_id a) ev (adj_production_date x) (adj_expiry_date x) (adj_lot_id x) d1 = Inr (m, d2)"
        and d': "d' = (if aa_delta a \<noteq> 0 then apply_stocks_lot_set_qty sid (adj_after x) d2 else d2)"
      have "\<exists>st. d1 = d\<lparr>db_stocks_lot := st\<rparr>"
      proof (cases "\<exists>s \<in> set (db_stocks_lot d). st_dims s = (aa_warehouse_id a, aa_item_id a, adj_lot_id x)")
        case True
        with ins show ?thesis by (intro exI [of _ "db_stocks_lot d"]) (auto simp: insert_stock_slot_def)
      qed (use ins in \<open>auto simp: insert_stock_slot_def res_simps\<close>)
      moreover have "\<exists>led. d2 = d1\<lparr>db_stock_ledger := led\<rparr>"
      proof -
        have "d2 = d1 \<or> (\<exists>led. d2 = d1\<lparr>db_stock_ledger := led\<rparr>)"
          using write_ledger_fresh(1) [OF wl] write_ledger_present(2) [OF wl] by blast
        moreover have "d1 = d1\<lparr>db_stock_ledger := db_stock_ledger d1\<rparr>" by simp
        ultimately show ?thesis by blast
      qed
      moreover have "\<exists>st. d' = d2\<lparr>db_stocks_lot := st\<rparr>"
      proof (cases "aa_delta a = 0")
        case True
        with d' show ?thesis by (intro exI [of _ "db_stocks_lot d2"]) simp
      qed (use d' in \<open>auto simp: apply_stocks_lot_set_qty_def set_stock_qty_def\<close>)
      ultimately obtain st led st' where "d1 = d\<lparr>db_stocks_lot := st\<rparr>" "d2 = d1\<lparr>db_stock_ledger := led\<rparr>"
        "d' = d2\<lparr>db_stocks_lot := st'\<rparr>" by blast
      then have "d' = d\<lparr>db_stock_ledger := led, db_stocks_lot := st'\<rparr>" by simp
      then show ?thesis by blast
    qed
  qed
qed

text \<open>The relation behind these frames: nothing but the stock tables differs.\<close>

definition only_stock :: "db \<Rightarrow> db \<Rightarrow> bool" where
  "only_stock d d' \<longleftrightarrow> (\<exists>led st. d' = d\<lparr>db_stock_ledger := led, db_stocks_lot := st\<rparr>)"

lemma only_stock_refl [simp]: "only_stock d d"
  unfolding only_stock_def by (intro exI [of _ "db_stock_ledger d"] exI [of _ "db_stocks_lot d"]) simp

lemma only_stock_trans: "only_stock a b \<Longrightarrow> only_stock b c \<Longrightarrow> only_stock a c"
  unfolding only_stock_def
proof (elim exE)
  fix led st led' st'
  assume "b = a\<lparr>db_stock_ledger := led, db_stocks_lot := st\<rparr>" "c = b\<lparr>db_stock_ledger := led', db_stocks_lot := st'\<rparr>"
  then have "c = a\<lparr>db_stock_ledger := led', db_stocks_lot := st'\<rparr>" by simp
  then show "\<exists>led st. c = a\<lparr>db_stock_ledger := led, db_stocks_lot := st\<rparr>" by blast
qed

lemma only_stock_simps:
  assumes "only_stock d d'"
  shows "db_warehouses d' = db_warehouses d" "db_lots d' = db_lots d" "db_wms_events d' = db_wms_events d"
    "db_inbound_event_lines d' = db_inbound_event_lines d" "db_outbound_event_lines d' = db_outbound_event_lines d"
    "db_orders d' = db_orders d" "db_order_lines d' = db_order_lines d" "db_manual_docs d' = db_manual_docs d"
    "db_manual_lines d' = db_manual_lines d" "db_count_docs d' = db_count_docs d"
    "db_count_doc_lines d' = db_count_doc_lines d" "db_lot_snapshots d' = db_lot_snapshots d"
  using assms by (auto simp: only_stock_def)

lemma adjust_lot_only_stock: "adjust_lot pol now a d = Inr (r, d') \<Longrightarrow> only_stock d d'"
  unfolding only_stock_def by (rule adjust_only_stock)

lemma map_loop_only_stock:
  assumes "\<And>x s y s'. f x s = Inr (y, s') \<Longrightarrow> only_stock s s'" and "map_loop f xs d = Inr (ys, d')"
  shows "only_stock d d'"
  by (rule map_loop_invariant [where I = "only_stock d", OF _ _ assms(2)]) (auto intro: only_stock_trans assms(1))

end
