(* ===== verification/Line_Booking.thy ===== *)
theory Line_Booking
  imports Freeze_Guard
begin

text \<open>
  The interface between the stock core and the services that book the lines of a document: every
  line leads to one call of \<open>adjust_lot\<close>, under the number of the document's event and the number
  of the line. The locale states the contract of such a step; the loop over the lines of a document
  then moves the stock by exactly the sum of the lines. It is interpreted on the inbound commit and
  on the two reversals.
\<close>

definition args_dims :: "adjust_args \<Rightarrow> dims" where
  "args_dims a = (aa_warehouse_id a, aa_item_id a, the (aa_lot_id a))"

definition same_stock :: "db \<Rightarrow> db \<Rightarrow> bool" where
  "same_stock d e \<longleftrightarrow> db_lots e = db_lots d \<and> db_stocks_lot e = db_stocks_lot d \<and> db_stock_ledger e = db_stock_ledger d"

lemma same_stock_refl [simp]: "same_stock d d"
  by (simp add: same_stock_def)

lemma same_stock_trans: "same_stock a b \<Longrightarrow> same_stock b c \<Longrightarrow> same_stock a c"
  by (simp add: same_stock_def)

lemma same_stock_books:
  assumes "same_stock d e"
  shows "books_ok e = books_ok d" and "on_hand e k = on_hand d k"
  using assms by (simp_all add: same_stock_def books_defs books_frame)

text \<open>A call with a line number that the ledger does not know under its reference is applied.\<close>

lemma ref_line_of_PInt [simp]: "ref_line_of (PInt n) = Inr n"
  by (simp add: ref_line_of_def)

lemma adjust_fresh:
  assumes ok: "books_ok d" and run: "adjust_lot pol now a d = Inr (r, d')" and nz: "aa_delta a \<noteq> 0" and no: "aa_ref_line a = PInt n"
    and fresh: "\<And>r. r \<in> set (db_stock_ledger d) \<Longrightarrow> led_ref r = aa_ref a \<Longrightarrow> led_ref_line r \<noteq> n"
  shows "on_hand d' k = on_hand d k + (if k = args_dims a then aa_delta a else 0)"
    and "\<exists>row. db_stock_ledger d' = db_stock_ledger d @ [row] \<and> led_ref_line row = n"
proof -
  have "r \<noteq> AdjustSkipped"
  proof
    assume "r = AdjustSkipped"
    with run have "adjust_lot pol now a d = Inr (AdjustSkipped, d')" by simp
    then show False
      by (rule adjust_lot_not_skipped) (use nz no in \<open>auto simp: ref_line_of_def led_key_def dest: fresh\<close>)
  qed
  then obtain x where "r = AdjustApplied x" by (cases r) auto
  with run have ap: "adjust_lot pol now a d = Inr (AdjustApplied x, d')" by simp
  have dims: "adjust_dims a x = args_dims a" "adj_delta x = aa_delta a" "adj_ref_line x = n"
    using adjust_applied_args [OF ap] no by (auto simp: adjust_dims_def args_dims_def)
  show "on_hand d' k = on_hand d k + (if k = args_dims a then aa_delta a else 0)"
    using adjust_lot_books(2) [OF ok ap, of k] dims by (simp add: adjust_effect_def)
  show "\<exists>row. db_stock_ledger d' = db_stock_ledger d @ [row] \<and> led_ref_line row = n"
    using ap
  proof (rule adjust_lot_Applied)
    fix su e
    assume key: "(adj_reason x, adj_ref x, adj_ref_line x, adjust_dims a x) \<notin> set (map led_key (db_stock_ledger d))"
      and slot: "adjust_slot (aa_item_id a) (aa_warehouse_id a) (adj_lot_id x) (aa_delta a) (adj_reason x) su (adj_ref x)
       (adj_ref_line x) (adj_occurred_at x) (aa_trace_id a) e (adj_production_date x) (adj_expiry_date x) d
       = Inr ((adj_before x, adj_after x), d')"
    from adjust_slot_effect(5) [OF ok slot key [unfolded adjust_dims_def]] dims(3) show ?thesis
      by (auto simp: base_values_def Let_def)
  qed
qed

locale line_booking =
  fixes pol :: policy_reader and now :: datetime and step :: "'l \<Rightarrow> 'b action" and args :: "'l \<Rightarrow> adjust_args"
    and line_no :: "'l \<Rightarrow> int" and ref :: string
  assumes step_adjust: "step l d = Inr (b, d') \<Longrightarrow> \<exists>e r. same_stock d e \<and> adjust_lot pol now (args l) e = Inr (r, d')"
    and step_nonzero: "step l d = Inr (b, d') \<Longrightarrow> aa_delta (args l) \<noteq> 0"
    and args_ref: "aa_ref (args l) = ref" and args_line: "aa_ref_line (args l) = PInt (line_no l)"
begin

lemma step_exact:
  assumes "books_ok d" and "step l d = Inr (b, d')"
    and "\<And>r. r \<in> set (db_stock_ledger d) \<Longrightarrow> led_ref r = ref \<Longrightarrow> led_ref_line r \<noteq> line_no l"
  shows "books_ok d'" and "on_hand d' k = on_hand d k + (if k = args_dims (args l) then aa_delta (args l) else 0)"
    and "\<exists>row. db_stock_ledger d' = db_stock_ledger d @ [row] \<and> led_ref_line row = line_no l"
proof -
  obtain e r where e: "same_stock d e" and run: "adjust_lot pol now (args l) e = Inr (r, d')"
    using step_adjust [OF assms(2)] by blast
  have ok: "books_ok e" using assms(1) same_stock_books(1) [OF e] by simp
  have led: "db_stock_ledger e = db_stock_ledger d" using e by (simp add: same_stock_def)
  have fresh: "led_ref_line x \<noteq> line_no l" if "x \<in> set (db_stock_ledger e)" "led_ref x = aa_ref (args l)" for x
    using assms(3) that led args_ref by simp
  note A = adjust_fresh [OF ok run step_nonzero [OF assms(2)] args_line fresh]
  show "books_ok d'" by (rule adjust_lot_books(1) [OF ok run])
  show "on_hand d' k = on_hand d k + (if k = args_dims (args l) then aa_delta (args l) else 0)"
    using A(1) [of k] same_stock_books(2) [OF e] by simp
  show "\<exists>row. db_stock_ledger d' = db_stock_ledger d @ [row] \<and> led_ref_line row = line_no l" using A(2) led by simp
qed

text \<open>The ledger rows that a step adds carry the document's number.\<close>

lemma step_rows:
  assumes "books_ok d" and "step l d = Inr (b, d')"
  shows "books_ok d'" and "\<forall>r \<in> set (db_stock_ledger d'). r \<in> set (db_stock_ledger d) \<or> led_ref r = ref"
proof -
  obtain e r where e: "same_stock d e" and run: "adjust_lot pol now (args l) e = Inr (r, d')"
    using step_adjust [OF assms(2)] by blast
  have ok: "books_ok e" using assms(1) same_stock_books(1) [OF e] by simp
  show "books_ok d'" by (rule adjust_lot_books(1) [OF ok run])
  show "\<forall>r \<in> set (db_stock_ledger d'). r \<in> set (db_stock_ledger d) \<or> led_ref r = ref"
  proof (cases r)
    case AdjustSkipped
    with run e show ?thesis by (auto simp: same_stock_def dest: adjust_lot_Skipped)
  next
    case (AdjustApplied x)
    with run have "adjust_lot pol now (args l) e = Inr (AdjustApplied x, d')" by simp
    from adjust_available(2) [OF ok this] e args_ref show ?thesis by (auto simp: same_stock_def)
  qed
qed

lemma loop_rows:
  assumes "books_ok d" and "map_loop step ls d = Inr (bs, d')"
  shows "\<forall>r \<in> set (db_stock_ledger d'). r \<in> set (db_stock_ledger d) \<or> led_ref r = ref"
proof -
  have "books_ok d' \<and> (\<forall>r \<in> set (db_stock_ledger d'). r \<in> set (db_stock_ledger d) \<or> led_ref r = ref)"
    by (rule map_loop_invariant [where I = "\<lambda>t. books_ok t \<and> (\<forall>r \<in> set (db_stock_ledger t). r \<in> set (db_stock_ledger d) \<or> led_ref r = ref)",
          OF _ _ assms(2)]) (use assms(1) step_rows in blast)+
  then show ?thesis by simp
qed

text \<open>The loop over the lines of a document with a fresh number.\<close>

lemma loop_exact:
  assumes "books_ok d" and "map_loop step ls d = Inr (bs, d')" and "distinct (map line_no ls)"
    and "\<forall>r \<in> set (db_stock_ledger d). led_ref r = ref \<longrightarrow> led_ref_line r \<notin> line_no ` set ls"
  shows "books_ok d' \<and> on_hand d' k = on_hand d k + (\<Sum>l \<leftarrow> ls. if k = args_dims (args l) then aa_delta (args l) else 0)"
  using assms
proof (induction ls arbitrary: d bs)
  case (Cons l ls)
  from Cons.prems(2) obtain b t bs' where one: "step l d = Inr (b, t)" and rest: "map_loop step ls t = Inr (bs', d')"
    by (auto simp: res_simps)
  have fr: "led_ref_line r \<noteq> line_no l" if "r \<in> set (db_stock_ledger d)" "led_ref r = ref" for r
    using Cons.prems(4) that by auto
  note S = step_exact [OF Cons.prems(1) one fr]
  have "\<forall>r \<in> set (db_stock_ledger t). led_ref r = ref \<longrightarrow> led_ref_line r \<notin> line_no ` set ls"
    using S(3) Cons.prems(3,4) by auto
  from Cons.IH [OF S(1) rest _ this] Cons.prems(3) S(2) show ?case by simp
qed simp

end

end
