(* ===== verification/Inbound_Commit.thy ===== *)
theory Inbound_Commit
  imports Line_Booking
begin

text \<open>
  The inbound commit, \<open>app/wms/inbound/services/inbound_commit_service.py\<close>, with the repositories
  it calls (\<open>barcode_resolve_repo.py\<close>, \<open>lot_resolve_repo.py\<close>, \<open>inbound_stock_write_repo.py\<close>): every
  line is resolved to an item, a unit and a lot, one event is written, then each line books its
  quantity in base units. The event number and the trace id are drawn from a random source and are
  arguments here.

  The product master data service is the argument \<open>pms\<close>: policies, units of measure, the barcode
  probe and the item's basic data.
\<close>

section \<open>The product master data reader\<close>

record pms_uom =
  pu_id :: int
  pu_item_id :: int
  pu_ratio_to_base :: int
  pu_uom_name :: string
  pu_is_base :: bool

datatype probe_status = BOUND | UNBOUND | PROBE_ERROR

record barcode_probe =
  bp_status :: probe_status
  bp_item_id :: "int option"
  bp_item_uom_id :: "int option"

record pms_client =
  pms_policy :: policy_reader
  pms_uom :: "int \<Rightarrow> pms_uom option"
  pms_probe :: "string \<Rightarrow> barcode_probe"
  pms_item_known :: "int \<Rightarrow> bool"

section \<open>Requests\<close>

record commit_line =
  in_item_id :: "int option"
  in_barcode :: "string option"
  in_uom_id :: "int option"
  in_qty_input :: int
  in_lot_code :: "string option"
  in_production_date :: "date option"
  in_expiry_date :: "date option"
  in_source_line_id :: "int option"
  in_remark :: "string option"

record commit_payload =
  pl_warehouse_id :: int
  pl_source_type :: string
  pl_source_ref :: "string option"
  pl_occurred_at :: datetime
  pl_remark :: "string option"
  pl_lines :: "commit_line list"

record resolved_line =
  rl_line_no :: int
  rl_item_id :: int
  rl_uom_id :: int
  rl_qty_input :: int
  rl_ratio :: int
  rl_qty_base :: int
  rl_lot_code :: "string option"
  rl_production_date :: "date option"
  rl_expiry_date :: "date option"
  rl_lot_id :: "int option"
  rl_source_line_id :: "int option"
  rl_remark :: "string option"

section \<open>Resolving a line\<close>

definition resolve_inbound_barcode :: "pms_client \<Rightarrow> string \<Rightarrow> (int \<times> int option) option" where
  "resolve_inbound_barcode pms barcode =
     (let code = py_strip barcode
      in if code = [] then None
         else (let probe = pms_probe pms code
               in if bp_status probe \<noteq> BOUND then None
                  else case bp_item_id probe of None \<Rightarrow> None | Some i \<Rightarrow> Some (i, bp_item_uom_id probe)))"

definition require_ratio_to_base :: "pms_client \<Rightarrow> int \<Rightarrow> int \<Rightarrow> int result" where
  "require_ratio_to_base pms item_id uom_id =
     (case pms_uom pms uom_id of
        None \<Rightarrow> Inl (HTTPException 400 ''uom_id unknown or of another item'')
      | Some u \<Rightarrow>
          (if pu_item_id u \<noteq> item_id then Inl (HTTPException 400 ''uom_id unknown or of another item'')
           else if pu_ratio_to_base u \<le> 0 then Inl (HTTPException 400 ''ratio_to_base invalid'')
           else Inr (pu_ratio_to_base u)))"

definition load_item_display_snapshot :: "pms_client \<Rightarrow> int \<Rightarrow> int \<Rightarrow> unit result" where
  "load_item_display_snapshot pms item_id uom_id =
     ensure (pms_item_known pms item_id \<and>
             (case pms_uom pms uom_id of None \<Rightarrow> False | Some u \<Rightarrow> pu_item_id u = item_id))
       (HTTPException 422 ''item_display_snapshot_not_found'')"

definition validate_source :: "commit_payload \<Rightarrow> unit result" where
  "validate_source p =
     (if pl_source_type p = ''PURCHASE_ORDER'' then
        bindR (ensure (norm_text (pl_source_ref p) \<noteq> None) (HTTPException 400 ''source_ref required'')) (\<lambda>_.
        check_all (\<lambda>l. ensure (in_source_line_id l \<noteq> None) (HTTPException 400 ''source_line_id required'')) (pl_lines p))
      else Inr ())"

text \<open>Item and unit from the request and the barcode, which must not contradict each other.\<close>

definition merge_barcode ::
  "(int \<times> int option) option \<Rightarrow> int option \<Rightarrow> int option \<Rightarrow> (int option \<times> int option) result" where
  "merge_barcode resolved item_id uom_id =
     (case resolved of
        None \<Rightarrow> Inr (item_id, uom_id)
      | Some (bi, bu) \<Rightarrow>
          bindR (case item_id of
                   None \<Rightarrow> Inr (Some bi)
                 | Some i \<Rightarrow> (if i \<noteq> bi then Inl (HTTPException 422 ''barcode_item_mismatch'') else Inr (Some i))) (\<lambda>i1.
          bindR (case bu of
                   None \<Rightarrow> Inr uom_id
                 | Some b \<Rightarrow>
                     (case uom_id of
                        None \<Rightarrow> Inr (Some b)
                      | Some u \<Rightarrow> (if u \<noteq> b then Inl (HTTPException 422 ''barcode_uom_mismatch'') else Inr (Some u)))) (\<lambda>u1.
          Inr (i1, u1))))"

definition infer_lot_code_source_from_policy :: "item_policy \<Rightarrow> string" where
  "infer_lot_code_source_from_policy p =
     (if ip_lot_source_policy p = SUPPLIER_ONLY then ''SUPPLIER'' else ''INTERNAL'')"

definition resolve_inbound_lot ::
  "policy_reader \<Rightarrow> int \<Rightarrow> item_policy \<Rightarrow> string option \<Rightarrow> date option \<Rightarrow> date option \<Rightarrow> int action" where
  "resolve_inbound_lot pol w p code pd ed =
     (let src = infer_lot_code_source_from_policy p; sup = (src = ''SUPPLIER'')
      in resolve_or_create_lot pol w p src (if sup then code else None) (if sup then pd else None)
           (if sup then ed else None) None None)"

definition resolve_line_dates ::
  "policy_reader \<Rightarrow> item_policy \<Rightarrow> int \<Rightarrow> date option \<Rightarrow> date option \<Rightarrow> (date option \<times> date option) result" where
  "resolve_line_dates pol p item_id pd0 ed0 =
     (if ip_expiry_policy p = EXPIRY_NONE then Inr (None, None)
      else bindR (normalize_batch_dates_for_item pol item_id pd0 ed0) (\<lambda>(pd, ed, _).
        bindR (ensure (pd \<noteq> None) (HTTPException 422 ''production_date_unresolved'')) (\<lambda>_.
        bindR (ensure (ed \<noteq> None) (HTTPException 422 ''expiry_date_unresolved'')) (\<lambda>_.
        Inr (pd, ed)))))"

definition resolve_line :: "pms_client \<Rightarrow> int \<Rightarrow> string \<Rightarrow> int \<times> commit_line \<Rightarrow> resolved_line action" where
  "resolve_line pms w source_type nl d =
     (case nl of (line_no, l) \<Rightarrow>
      let code = norm_text (in_lot_code l) in
      bindR (ensure (0 < in_qty_input l) (HTTPException 400 ''qty_input must be > 0'')) (\<lambda>_.
      bindR (case norm_text (in_barcode l) of
               None \<Rightarrow> Inr None
             | Some b \<Rightarrow> bindR (require_some (resolve_inbound_barcode pms b) (HTTPException 422 ''barcode_unbound'')) (\<lambda>r.
                 Inr (Some r))) (\<lambda>bc.
      bindR (merge_barcode bc (in_item_id l) (in_uom_id l)) (\<lambda>(io, uo).
      bindR (require_some io (HTTPException 422 ''item_unresolved'')) (\<lambda>i.
      bindR (require_some uo (HTTPException 422 ''uom_unresolved'')) (\<lambda>u.
      bindR (require_some (pms_policy pms i) (HTTPException 422 ''item_not_found'')) (\<lambda>p.
      bindR (require_ratio_to_base pms i u) (\<lambda>ratio.
      bindR (ensure (0 < in_qty_input l * ratio) (HTTPException 400 ''qty_base must be > 0'')) (\<lambda>_.
      bindR (load_item_display_snapshot pms i u) (\<lambda>_.
      bindR (ensure (case code of None \<Rightarrow> True | Some c \<Rightarrow> py_upper c \<notin> {''NOEXP'', ''NONE''})
               (HTTPException 400 ''lot_code pseudo code'')) (\<lambda>_.
      bindR (ensure (\<not> (ip_lot_source_policy p = SUPPLIER_ONLY \<and> code = None))
               (HTTPException 400 ''supplier lot_code required'')) (\<lambda>_.
      bindR (resolve_line_dates (pms_policy pms) p i (in_production_date l) (in_expiry_date l)) (\<lambda>(pd, ed).
      bindR (resolve_inbound_lot (pms_policy pms) w p code pd ed d) (\<lambda>(lid, d1).
      Inr (\<lparr>rl_line_no = line_no, rl_item_id = i, rl_uom_id = u, rl_qty_input = in_qty_input l, rl_ratio = ratio,
            rl_qty_base = in_qty_input l * ratio, rl_lot_code = code, rl_production_date = pd, rl_expiry_date = ed,
            rl_lot_id = Some lid,
            rl_source_line_id = (if source_type = ''PURCHASE_ORDER'' then in_source_line_id l else None),
            rl_remark = norm_text (in_remark l)\<rparr>, d1)))))))))))))))"

section \<open>Booking a line\<close>

definition inbound_line_checks :: "inbound_event_line \<Rightarrow> bool" where
  "inbound_line_checks l \<longleftrightarrow>
     (case (iel_production_date l, iel_expiry_date l) of (Some a, Some b) \<Rightarrow> a \<le> b | _ \<Rightarrow> True) \<and>
     1 \<le> iel_ratio l \<and> 1 \<le> iel_qty_input l \<and> iel_qty_base l = iel_qty_input l * iel_ratio l"

definition insert_inbound_event_line :: "inbound_event_line \<Rightarrow> int action" where
  "insert_inbound_event_line l d =
     (let row = l\<lparr>iel_id := next_id (map iel_id (db_inbound_event_lines d))\<rparr>
      in bindR (ensure (inbound_line_checks row) (IntegrityError ''inbound_event_lines check'')) (\<lambda>_.
         bindR (ensure (\<not> (\<exists>x \<in> set (db_inbound_event_lines d). iel_event_id x = iel_event_id row \<and> iel_line_no x = iel_line_no row))
                  (IntegrityError ''uq_inbound_event_lines_event_line'')) (\<lambda>_.
         bindR (ensure (event_fk d (Some (iel_event_id row))) (IntegrityError ''fk_inbound_event_lines_event'')) (\<lambda>_.
         bindR (ensure (case iel_lot_id row of None \<Rightarrow> True | Some n \<Rightarrow> n \<in> set (map lot_id (db_lots d)))
                  (IntegrityError ''fk_inbound_event_lines_lot'')) (\<lambda>_.
         Inr (iel_id row, d\<lparr>db_inbound_event_lines := db_inbound_event_lines d @ [row]\<rparr>))))))"

definition text_value :: "string option \<Rightarrow> pyval" where
  "text_value v = (case v of None \<Rightarrow> PNone | Some s \<Rightarrow> PStr s)"

definition inbound_adjust_args ::
  "int \<Rightarrow> int \<Rightarrow> int \<Rightarrow> int \<Rightarrow> string \<Rightarrow> int \<Rightarrow> datetime option \<Rightarrow> string option \<Rightarrow> date option \<Rightarrow> date option \<Rightarrow>
   int option \<Rightarrow> string \<Rightarrow> string \<Rightarrow> string option \<Rightarrow> string option \<Rightarrow> string option \<Rightarrow> adjust_args" where
  "inbound_adjust_args w i lid qty ref ref_line occurred_at code pd ed event_id trace_id source_type source_biz_type source_ref remark =
     \<lparr>aa_item_id = i, aa_warehouse_id = w, aa_lot_id = Some lid, aa_delta = qty,
      aa_reason = ReasonMovement MovementType_INBOUND, aa_ref = ref, aa_ref_line = PInt ref_line,
      aa_occurred_at = occurred_at,
      aa_meta = Some [(''sub_reason'', PStr ''ATOMIC_INBOUND''),
        (''event_id'', case event_id of None \<Rightarrow> PNone | Some e \<Rightarrow> PInt e),
        (''source_type'', PStr source_type), (''source_biz_type'', text_value source_biz_type),
        (''source_ref'', text_value source_ref), (''remark'', text_value remark)],
      aa_lot_code = code, aa_production_date = pd, aa_expiry_date = ed, aa_trace_id = Some trace_id\<rparr>"

definition apply_inbound_stock :: "policy_reader \<Rightarrow> datetime \<Rightarrow> adjust_args \<Rightarrow> adjust_result action" where
  "apply_inbound_stock pol now a d =
     bindR (ensure_warehouse_not_frozen (aa_warehouse_id a) d) (\<lambda>_. adjust_lot pol now a d)"

definition line_adjust_args :: "commit_payload \<Rightarrow> wms_event \<Rightarrow> resolved_line \<Rightarrow> adjust_args" where
  "line_adjust_args p ev l =
     inbound_adjust_args (pl_warehouse_id p) (rl_item_id l) (case rl_lot_id l of None \<Rightarrow> 0 | Some n \<Rightarrow> n)
       (rl_qty_base l) (ev_no ev) (rl_line_no l) (Some (pl_occurred_at p)) (rl_lot_code l) (rl_production_date l)
       (rl_expiry_date l) (Some (ev_id ev)) (ev_trace_id ev) (pl_source_type p) None (norm_text (pl_source_ref p))
       (norm_text (pl_remark p))"

definition commit_line_step ::
  "policy_reader \<Rightarrow> datetime \<Rightarrow> commit_payload \<Rightarrow> wms_event \<Rightarrow> resolved_line \<Rightarrow> adjust_result action" where
  "commit_line_step pol now p ev l d =
     bindR (insert_inbound_event_line
       \<lparr>iel_id = 0, iel_event_id = ev_id ev, iel_line_no = rl_line_no l, iel_item_id = rl_item_id l,
        iel_uom_id = rl_uom_id l, iel_qty_input = rl_qty_input l, iel_ratio = rl_ratio l, iel_qty_base = rl_qty_base l,
        iel_lot_code_input = rl_lot_code l, iel_production_date = rl_production_date l, iel_expiry_date = rl_expiry_date l,
        iel_lot_id = rl_lot_id l, iel_source_line_id = rl_source_line_id l, iel_remark = rl_remark l\<rparr> d) (\<lambda>(_, d1).
     apply_inbound_stock pol now (line_adjust_args p ev l) d1)"

section \<open>commit\_inbound\<close>

definition commit_inbound ::
  "pms_client \<Rightarrow> datetime \<Rightarrow> string \<Rightarrow> string \<Rightarrow> commit_payload \<Rightarrow> (wms_event \<times> resolved_line list) action" where
  "commit_inbound pms now trace_id event_no p d =
     bindR (validate_source p) (\<lambda>_.
     bindR (map_loop (resolve_line pms (pl_warehouse_id p) (pl_source_type p))
              (numbered (pl_lines p)) d) (\<lambda>(resolved, d1).
     bindR (insert_event
       \<lparr>ev_id = 0, ev_no = event_no, ev_type = EV_INBOUND, ev_warehouse_id = pl_warehouse_id p,
        ev_source_type = pl_source_type p, ev_source_ref = norm_text (pl_source_ref p),
        ev_occurred_at = pl_occurred_at p, ev_trace_id = trace_id, ev_kind = EV_COMMIT, ev_target_event_id = None,
        ev_status = EV_COMMITTED, ev_remark = norm_text (pl_remark p)\<rparr> d1) (\<lambda>(ev, d2).
     bindR (map_loop (commit_line_step (pms_policy pms) now p ev) resolved d2) (\<lambda>(_, d3).
     Inr ((ev, resolved), d3)))))"

section \<open>The steps as stock writers\<close>

lemma resolve_line_Inr:
  assumes "resolve_line pms w st (n, l) d = Inr (r, d')"
  shows "rl_line_no r = n \<and> rl_qty_input r = in_qty_input l \<and> rl_qty_base r = rl_qty_input r * rl_ratio r \<and>
         0 < rl_qty_base r \<and> (\<exists>lid i. rl_lot_id r = Some lid \<and> lot_step w i d lid d')"
proof -
  from assms obtain p ratio pd ed lid where
      r: "rl_line_no r = n" "rl_qty_input r = in_qty_input l" "rl_qty_base r = in_qty_input l * ratio" "rl_ratio r = ratio"
      "0 < in_qty_input l * ratio" "rl_lot_id r = Some lid"
    and lot: "resolve_inbound_lot (pms_policy pms) w p (norm_text (in_lot_code l)) pd ed d = Inr (lid, d')"
    by (auto simp: resolve_line_def Let_def res_simps)
  from lot have "lot_step w (ip_item_id p) d lid d'"
    unfolding resolve_inbound_lot_def Let_def by (rule resolve_or_create_lot_step)
  with r show ?thesis by auto
qed

lemma resolve_line_frame:
  assumes "resolve_line pms w st nl d = Inr (r, d')"
  shows "(books_ok d \<longrightarrow> books_ok d') \<and> db_stocks_lot d' = db_stocks_lot d \<and> db_stock_ledger d' = db_stock_ledger d \<and>
         db_count_docs d' = db_count_docs d"
proof -
  obtain n l where nl: "nl = (n, l)" by (cases nl)
  from resolve_line_Inr [OF assms [unfolded nl]] obtain lid i where step: "lot_step w i d lid d'" by blast
  show ?thesis using lot_step_effect(1,2,6) [OF step] lot_step_only_lots [OF step] by auto
qed

interpretation resolving: stock_neutral "resolve_line pms w st"
  by unfold_locales (use resolve_line_frame on_hand_cong in blast)+

lemma insert_inbound_event_line_Inr:
  assumes "insert_inbound_event_line l d = Inr (n, d')"
  shows "\<exists>ls. d' = d\<lparr>db_inbound_event_lines := ls\<rparr>"
  using assms by (auto simp: insert_inbound_event_line_def Let_def res_simps)

lemma books_ok_inbound_lines: "books_ok (d\<lparr>db_inbound_event_lines := ls\<rparr>) = books_ok d"
  by (simp add: books_defs books_frame)

lemma on_hand_inbound_lines: "on_hand (d\<lparr>db_inbound_event_lines := ls\<rparr>) k = on_hand d k"
  by (simp add: on_hand_def)

text \<open>A line step is an \<open>adjust_lot\<close> on a database that differs in the event lines only.\<close>

lemma commit_line_step_Inr:
  assumes "commit_line_step pol now p ev l d = Inr (r, d')"
  obtains ls where "adjust_lot pol now (line_adjust_args p ev l) (d\<lparr>db_inbound_event_lines := ls\<rparr>) = Inr (r, d')"
    "\<not> frozen (pl_warehouse_id p) d"
  using assms
  by (auto simp: commit_line_step_def apply_inbound_stock_def res_simps line_adjust_args_def inbound_adjust_args_def frozen_def
      dest!: insert_inbound_event_line_Inr)

interpretation line_commit: stock_writer "commit_line_step pol now p ev"
  "\<lambda>l. adjust_effect (line_adjust_args p ev l)"
proof unfold_locales
  fix a d b d' k
  assume ok: "books_ok d" and "commit_line_step pol now p ev a d = Inr (b, d')"
  from this(2) obtain ls where
    adj: "adjust_lot pol now (line_adjust_args p ev a) (d\<lparr>db_inbound_event_lines := ls\<rparr>) = Inr (b, d')"
    by (rule commit_line_step_Inr)
  have ok': "books_ok (d\<lparr>db_inbound_event_lines := ls\<rparr>)" using ok by (simp add: books_ok_inbound_lines)
  show "books_ok d'" by (rule adjust_lot_books(1) [OF ok' adj])
  show "on_hand d' k = on_hand d k + adjust_effect (line_adjust_args p ev a) b k"
    using adjust_lot_books(2) [OF ok' adj, of k] by (simp add: on_hand_inbound_lines)
qed

definition line_dims :: "commit_payload \<Rightarrow> resolved_line \<Rightarrow> dims" where
  "line_dims p l = (pl_warehouse_id p, rl_item_id l, case rl_lot_id l of None \<Rightarrow> 0 | Some n \<Rightarrow> n)"

lemma line_args [simp]:
  "aa_delta (line_adjust_args p ev l) = rl_qty_base l" "aa_ref (line_adjust_args p ev l) = ev_no ev"
  "aa_ref_line (line_adjust_args p ev l) = PInt (rl_line_no l)"
  "args_dims (line_adjust_args p ev l) = line_dims p l"
  by (simp_all add: line_adjust_args_def inbound_adjust_args_def line_dims_def args_dims_def)

interpretation commit_booking: line_booking pol now "commit_line_step pol now p ev" "line_adjust_args p ev" rl_line_no "ev_no ev"
proof unfold_locales
  fix l d b d'
  assume run: "commit_line_step pol now p ev l d = Inr (b, d')"
  then show "\<exists>e r. same_stock d e \<and> adjust_lot pol now (line_adjust_args p ev l) e = Inr (r, d')"
  proof (rule commit_line_step_Inr)
    fix ls
    assume "adjust_lot pol now (line_adjust_args p ev l) (d\<lparr>db_inbound_event_lines := ls\<rparr>) = Inr (b, d')"
    then show ?thesis by (intro exI [of _ "d\<lparr>db_inbound_event_lines := ls\<rparr>"] exI [of _ b]) (simp add: same_stock_def)
  qed
  have "1 \<le> rl_ratio l" "1 \<le> rl_qty_input l" "rl_qty_base l = rl_qty_input l * rl_ratio l"
    using run by (auto simp: commit_line_step_def insert_inbound_event_line_def Let_def res_simps inbound_line_checks_def)
  then have "0 < rl_qty_base l" by simp
  then show "aa_delta (line_adjust_args p ev l) \<noteq> 0" by simp
qed simp_all

lemma resolved_lines:
  assumes "map_loop (resolve_line pms w st) (numbered ls) d = Inr (rs, d')"
  shows "length rs = length ls" and "map rl_line_no rs = map int [1..<Suc (length ls)]"
    and "map rl_qty_input rs = map in_qty_input ls"
    and "\<forall>r \<in> set rs. rl_qty_base r = rl_qty_input r * rl_ratio r \<and> 0 < rl_qty_base r"
    and "books_ok d \<Longrightarrow> books_ok d'" and "on_hand d' k = on_hand d k"
    and "db_stock_ledger d' = db_stock_ledger d" and "db_count_docs d' = db_count_docs d"
proof -
  let ?in = "numbered ls"
  have "list_all2 (\<lambda>(n, l) r. rl_line_no r = n \<and> rl_qty_input r = in_qty_input l \<and>
      rl_qty_base r = rl_qty_input r * rl_ratio r \<and> 0 < rl_qty_base r) ?in rs"
    by (rule map_loop_list_all2 [OF _ assms]) (auto dest: resolve_line_Inr)
  then have len: "length rs = length ls" and
      nth: "\<And>j. j < length ls \<Longrightarrow> rl_line_no (rs ! j) = int (Suc j) \<and> rl_qty_input (rs ! j) = in_qty_input (ls ! j) \<and>
        rl_qty_base (rs ! j) = rl_qty_input (rs ! j) * rl_ratio (rs ! j) \<and> 0 < rl_qty_base (rs ! j)"
    by (auto simp: list_all2_conv_all_nth numbered_nth)
  show "length rs = length ls" by (rule len)
  show "map rl_line_no rs = map int [1..<Suc (length ls)]"
    by (rule nth_equalityI) (use len nth in \<open>auto simp del: upt_Suc\<close>)
  show "map rl_qty_input rs = map in_qty_input ls" by (rule nth_equalityI) (use len nth in auto)
  show "\<forall>r \<in> set rs. rl_qty_base r = rl_qty_input r * rl_ratio r \<and> 0 < rl_qty_base r"
    using len nth by (metis in_set_conv_nth)
  let ?I = "\<lambda>s. (books_ok d \<longrightarrow> books_ok s) \<and> db_stocks_lot s = db_stocks_lot d \<and> db_stock_ledger s = db_stock_ledger d \<and>
      db_count_docs s = db_count_docs d"
  have "?I d'"
    by (rule map_loop_invariant [where I = ?I, OF _ _ assms]) (auto dest: resolve_line_frame)
  then show "books_ok d \<Longrightarrow> books_ok d'" "on_hand d' k = on_hand d k"
    "db_stock_ledger d' = db_stock_ledger d" "db_count_docs d' = db_count_docs d"
    by (auto simp: on_hand_def)
qed

text \<open>What a successful commit went through.\<close>

lemma commit_inbound_Inr:
  assumes "commit_inbound pms now tr no p d = Inr ((ev, ls), d')"
  obtains d1 d2 rs where
    "map_loop (resolve_line pms (pl_warehouse_id p) (pl_source_type p))
       (numbered (pl_lines p)) d = Inr (ls, d1)"
    "d2 = d1\<lparr>db_wms_events := db_wms_events d1 @ [ev]\<rparr>" "ev_no ev = no"
    "map_loop (commit_line_step (pms_policy pms) now p ev) ls d2 = Inr (rs, d')"
    "ev_id ev = next_id (map ev_id (db_wms_events d1))" "ev_type ev = EV_INBOUND" "ev_warehouse_id ev = pl_warehouse_id p"
proof -
  from assms obtain d1 d2 rs e where
    "map_loop (resolve_line pms (pl_warehouse_id p) (pl_source_type p))
       (numbered (pl_lines p)) d = Inr (ls, d1)"
    and ins: "insert_event e d1 = Inr (ev, d2)" and "ev_no e = no" "ev_type e = EV_INBOUND" "ev_warehouse_id e = pl_warehouse_id p"
    and "map_loop (commit_line_step (pms_policy pms) now p ev) ls d2 = Inr (rs, d')"
    by (fastforce simp: commit_inbound_def res_simps simp del: upt_Suc)
  with insert_event_Inr(1,2) [OF ins] show thesis by (intro that) auto
qed

section \<open>What a line resolves to\<close>

text \<open>
  A resolved line has the quantity of its request line. Its item and unit are those of the request and of the barcode,
  as far as these name them, and its ratio is that of the unit in the product master data, which belongs to the item.
\<close>

definition line_from :: "pms_client \<Rightarrow> commit_line \<Rightarrow> resolved_line \<Rightarrow> bool" where
  "line_from pms l r \<longleftrightarrow> rl_qty_input r = in_qty_input l \<and> in_item_id l \<in> {None, Some (rl_item_id r)} \<and> in_uom_id l \<in> {None, Some (rl_uom_id r)} \<and>
     (case norm_text (in_barcode l) of
        None \<Rightarrow> in_item_id l \<noteq> None \<and> in_uom_id l \<noteq> None
      | Some b \<Rightarrow> (let probe = pms_probe pms (py_strip b)
          in bp_status probe = BOUND \<and> bp_item_id probe = Some (rl_item_id r) \<and> bp_item_uom_id probe \<in> {None, Some (rl_uom_id r)} \<and>
             (bp_item_uom_id probe \<noteq> None \<or> in_uom_id l \<noteq> None))) \<and>
     (\<exists>u. pms_uom pms (rl_uom_id r) = Some u \<and> pu_item_id u = rl_item_id r \<and> rl_ratio r = pu_ratio_to_base u \<and> 0 < pu_ratio_to_base u)"

lemma require_ratio_Inr:
  "require_ratio_to_base pms i u = Inr n \<longleftrightarrow> (\<exists>x. pms_uom pms u = Some x \<and> pu_item_id x = i \<and> n = pu_ratio_to_base x \<and> 0 < pu_ratio_to_base x)"
  by (auto simp: require_ratio_to_base_def split: option.splits)

lemma merge_barcode_Inr:
  assumes "merge_barcode bc io uo = Inr (Some i, Some u)"
  shows "io \<in> {None, Some i} \<and> uo \<in> {None, Some u} \<and>
     (case bc of None \<Rightarrow> io = Some i \<and> uo = Some u | Some (bi, bu) \<Rightarrow> bi = i \<and> bu \<in> {None, Some u} \<and> (bu \<noteq> None \<or> uo \<noteq> None))"
  using assms by (auto simp: merge_barcode_def res_simps split: option.splits if_splits prod.splits)

lemma resolve_inbound_barcode_Some:
  assumes "resolve_inbound_barcode pms b = Some (i, u)"
  shows "bp_status (pms_probe pms (py_strip b)) = BOUND" "bp_item_id (pms_probe pms (py_strip b)) = Some i" "bp_item_uom_id (pms_probe pms (py_strip b)) = u"
  using assms by (auto simp: resolve_inbound_barcode_def Let_def split: if_splits option.splits)

lemma resolve_line_from:
  assumes "resolve_line pms w st (n, l) d = Inr (r, d')"
  shows "line_from pms l r"
proof -
  from assms obtain bc where bc: "(case norm_text (in_barcode l) of None \<Rightarrow> Inr None
       | Some b \<Rightarrow> bindR (require_some (resolve_inbound_barcode pms b) (HTTPException 422 ''barcode_unbound'')) (\<lambda>r. Inr (Some r))) = Inr bc"
    and mb: "merge_barcode bc (in_item_id l) (in_uom_id l) = Inr (Some (rl_item_id r), Some (rl_uom_id r))"
    and ratio: "require_ratio_to_base pms (rl_item_id r) (rl_uom_id r) = Inr (rl_ratio r)" and q: "rl_qty_input r = in_qty_input l"
    by (auto simp: resolve_line_def Let_def res_simps)
  note M = merge_barcode_Inr [OF mb]
  show ?thesis
  proof (cases "norm_text (in_barcode l)")
    case None
    with bc M ratio q show ?thesis by (auto simp: line_from_def require_ratio_Inr)
  next
    case (Some b)
    with bc obtain i u where bc': "bc = Some (i, u)" and res: "resolve_inbound_barcode pms b = Some (i, u)" by (auto simp: res_simps)
    from resolve_inbound_barcode_Some [OF res] M ratio q Some show ?thesis
      by (auto simp: line_from_def require_ratio_Inr bc' Let_def)
  qed
qed

lemma resolved_lines_from:
  assumes "map_loop (resolve_line pms w st) (numbered ls) d = Inr (rs, d')"
  shows "list_all2 (line_from pms) ls rs"
proof -
  have "list_all2 (\<lambda>(n, l). line_from pms l) (numbered ls) rs"
    by (rule map_loop_list_all2 [OF _ assms]) (auto dest: resolve_line_from)
  then show ?thesis by (auto simp: list_all2_conv_all_nth numbered_nth)
qed

lemma stocked_in_lots:
  assumes "books_ok d" and "0 < on_hand d k"
  shows "dims_in_lots d k"
proof -
  have "\<exists>s \<in> set (db_stocks_lot d). st_dims s = k"
  proof (rule ccontr)
    assume "\<not> ?thesis"
    then have "on_hand d k = 0" unfolding on_hand_def by (auto intro: sum_where_none)
    with assms(2) show False by simp
  qed
  with assms(1) show ?thesis by (auto simp: books_defs)
qed

section \<open>Properties of commit\_inbound\<close>

text \<open>
  Claim C6. An inbound commit books exactly what was entered. When \<open>commit_inbound\<close> succeeds under an
  event number that the ledger has not seen, the books are kept, and there is one resolved line per
  entered line: with its quantity, with the item and the unit that the line and its barcode name, and with the
  ratio that the product master data give that unit of that item. Every line went to a lot of its item in the
  warehouse of the request, and the quantity on hand of every lot grows by the sum, over
  the lines that resolved to it, of the entered quantity times that ratio.
\<close>

theorem commit_inbound_exact:
  assumes "books_ok d" and "\<forall>r \<in> set (db_stock_ledger d). led_ref r \<noteq> event_no"
    and "commit_inbound pms now trace_id event_no p d = Inr ((ev, ls), d')"
  shows "books_ok d' \<and> list_all2 (line_from pms) (pl_lines p) ls \<and> (\<forall>l \<in> set ls. dims_in_lots d' (line_dims p l)) \<and>
     (\<forall>k. on_hand d' k = on_hand d k +
        (\<Sum>l \<leftarrow> ls. if k = line_dims p l then rl_qty_input l * rl_ratio l else 0))"
  using assms(3)
proof (rule commit_inbound_Inr)
  fix d1 d2 rs
  assume res: "map_loop (resolve_line pms (pl_warehouse_id p) (pl_source_type p))
       (numbered (pl_lines p)) d = Inr (ls, d1)"
    and d2: "d2 = d1\<lparr>db_wms_events := db_wms_events d1 @ [ev]\<rparr>" and no: "ev_no ev = event_no"
    and loop: "map_loop (commit_line_step (pms_policy pms) now p ev) ls d2 = Inr (rs, d')"
  note R = resolved_lines [OF res]
  have ok2: "books_ok d2" using R(5) [OF assms(1)] by (simp add: d2 books_defs books_frame)
  have "distinct (map rl_line_no ls)" unfolding R(2) by (simp add: distinct_map inj_on_def)
  moreover have "\<forall>r \<in> set (db_stock_ledger d2). led_ref r = ev_no ev \<longrightarrow> led_ref_line r \<notin> rl_line_no ` set ls"
    using assms(2) R(7) by (auto simp: d2 no)
  ultimately have "on_hand d' k = on_hand d2 k + (\<Sum>l \<leftarrow> ls. if k = line_dims p l then rl_qty_base l else 0)" for k
    using commit_booking.loop_exact [OF ok2 loop, of k] by (simp cong: if_cong)
  moreover have "on_hand d2 k = on_hand d k" for k using R(6) by (simp add: d2 on_hand_def)
  moreover have "(if k = line_dims p l then rl_qty_base l else 0) = (if k = line_dims p l then rl_qty_input l * rl_ratio l else 0)"
    if "l \<in> set ls" for l k using R(4) that by simp
  then have "(\<Sum>l \<leftarrow> ls. if k = line_dims p l then rl_qty_base l else 0) =
      (\<Sum>l \<leftarrow> ls. if k = line_dims p l then rl_qty_input l * rl_ratio l else 0)" for k
    by (intro arg_cong [where f = sum_list] map_cong) auto
  ultimately have move: "\<forall>k. on_hand d' k = on_hand d k + (\<Sum>l \<leftarrow> ls. if k = line_dims p l then rl_qty_input l * rl_ratio l else 0)" by simp
  have ok': "books_ok d'" by (rule line_commit.loop_keeps [OF ok2 loop])
  have "dims_in_lots d' (line_dims p l)" if l: "l \<in> set ls" for l
  proof (rule stocked_in_lots [OF ok'])
    let ?f = "\<lambda>x. if line_dims p l = line_dims p x then rl_qty_input x * rl_ratio x else 0"
    have "0 \<le> rl_qty_input x * rl_ratio x" if "x \<in> set ls" for x using R(4) that by fastforce
    then have "?f l \<le> sum_list (map ?f ls)" by (intro member_le_sum_list) (use l in auto)
    moreover have "0 < ?f l" using R(4) l by fastforce
    moreover have "0 \<le> on_hand d (line_dims p l)" using assms(1) by (simp add: books_ok_def on_hand_nonneg)
    ultimately show "0 < on_hand d' (line_dims p l)" using move [rule_format, of "line_dims p l"] by simp
  qed
  with ok' move resolved_lines_from [OF res] show ?thesis by blast
qed

definition sample_pms :: pms_client where
  "sample_pms = \<lparr>pms_policy = sample_policy,
     pms_uom = (\<lambda>u. if u = 11 then Some \<lparr>pu_id = 11, pu_item_id = 1, pu_ratio_to_base = 6, pu_uom_name = ''box'', pu_is_base = False\<rparr>
                else if u = 21 then Some \<lparr>pu_id = 21, pu_item_id = 2, pu_ratio_to_base = 1, pu_uom_name = ''pcs'', pu_is_base = True\<rparr>
                else None),
     pms_probe = (\<lambda>b. if b = ''690'' then \<lparr>bp_status = BOUND, bp_item_id = Some 2, bp_item_uom_id = Some 21\<rparr>
                else \<lparr>bp_status = UNBOUND, bp_item_id = None, bp_item_uom_id = None\<rparr>),
     pms_item_known = (\<lambda>i. i = 1 \<or> i = 2)\<rparr>"

definition sample_inbound :: commit_payload where
  "sample_inbound = \<lparr>pl_warehouse_id = 1, pl_source_type = ''MANUAL'', pl_source_ref = None, pl_occurred_at = 9, pl_remark = None,
     pl_lines =
       [\<lparr>in_item_id = Some 1, in_barcode = None, in_uom_id = Some 11, in_qty_input = 2, in_lot_code = None,
         in_production_date = None, in_expiry_date = None, in_source_line_id = None, in_remark = None\<rparr>,
        \<lparr>in_item_id = None, in_barcode = Some '' 690'', in_uom_id = None, in_qty_input = 5, in_lot_code = Some ''B5'',
         in_production_date = Some (Date 2025 4 30), in_expiry_date = None, in_source_line_id = None, in_remark = None\<rparr>]\<rparr>"

lemma sample_inbound_run:
  "succeeds (commit_inbound sample_pms 0 ''T1'' ''IE-1'' sample_inbound sample_db)
     (\<lambda>((_, ls), _). map (line_dims sample_inbound) ls = [(1, 1, 1), (1, 2, 3)])"
  by code_simp

theorem commit_inbound_exact_witness:
  "\<exists>ev ls d'. commit_inbound sample_pms 0 ''T1'' ''IE-1'' sample_inbound sample_db = Inr ((ev, ls), d') \<and>
     map rl_ratio ls = [6, 1] \<and> on_hand d' (1, 1, 1) = 22 \<and> on_hand d' (1, 2, 3) = 5 \<and> books_ok d'"
proof -
  from sample_inbound_run obtain ev ls d' where run: "commit_inbound sample_pms 0 ''T1'' ''IE-1'' sample_inbound sample_db = Inr ((ev, ls), d')"
    and dims: "map (line_dims sample_inbound) ls = [(1, 1, 1), (1, 2, 3)]" by (auto dest!: succeedsD)
  have fresh: "\<forall>r \<in> set (db_stock_ledger sample_db). led_ref r \<noteq> ''IE-1''"
    and h: "on_hand sample_db (1, 1, 1) = 10" "on_hand sample_db (1, 2, 3) = 0" by code_simp+
  note E = commit_inbound_exact [OF sample_books_ok fresh run]
  from E have "list_all2 (line_from sample_pms) (pl_lines sample_inbound) ls" by blast
  then obtain a b where ls: "ls = [a, b]" and f: "line_from sample_pms (pl_lines sample_inbound ! 0) a" "line_from sample_pms (pl_lines sample_inbound ! 1) b"
    by (auto simp: sample_inbound_def list_all2_Cons1)
  have n: "norm_text (Some '' 690'') = Some ''690''" "norm_text None = None" "py_strip ''690'' = ''690''" by code_simp+
  from f have r: "rl_qty_input a = 2" "rl_ratio a = 6" "rl_qty_input b = 5" "rl_ratio b = 1"
    by (auto simp: line_from_def sample_inbound_def sample_pms_def n Let_def split: if_splits)
  with E dims h run show ?thesis by (auto simp: ls)
qed

text \<open>
  A frozen warehouse refuses inbound stock: while a count document of the warehouse is
  FROZEN, no commit that has a line succeeds.
\<close>

lemma frozen_refuses_inbound:
  assumes "frozen (pl_warehouse_id p) d" and "pl_lines p \<noteq> []"
  shows "\<exists>e. commit_inbound pms now trace_id event_no p d = Inl e"
proof (cases "commit_inbound pms now trace_id event_no p d")
  case (Inr r)
  then obtain ev ls d' where "commit_inbound pms now trace_id event_no p d = Inr ((ev, ls), d')" by (cases r) auto
  then show ?thesis
  proof (rule commit_inbound_Inr)
    fix d1 d2 rs
    assume res: "map_loop (resolve_line pms (pl_warehouse_id p) (pl_source_type p))
         (numbered (pl_lines p)) d = Inr (ls, d1)"
      and d2: "d2 = d1\<lparr>db_wms_events := db_wms_events d1 @ [ev]\<rparr>"
      and loop: "map_loop (commit_line_step (pms_policy pms) now p ev) ls d2 = Inr (rs, d')"
    obtain l ls' where "ls = l # ls'" using resolved_lines(1) [OF res] assms(2) by (cases ls) auto
    with loop obtain r1 t where "commit_line_step (pms_policy pms) now p ev l d2 = Inr (r1, t)"
      by (auto simp: res_simps)
    then have "\<not> frozen (pl_warehouse_id p) d2" by (rule commit_line_step_Inr)
    with assms(1) resolved_lines(8) [OF res] show ?thesis by (simp add: frozen_def d2)
  qed
qed simp

definition sample_frozen_db :: db where
  "sample_frozen_db = sample_db\<lparr>db_count_docs :=
     [\<lparr>cd_id = 1, cd_count_no = ''CTD-1'', cd_warehouse_id = 1, cd_snapshot_at = 3, cd_status = CD_FROZEN,
       cd_posted_event_id = None, cd_counted_by = None, cd_reviewed_by = None, cd_remark = None,
       cd_created_at = 3, cd_counted_at = None, cd_posted_at = None\<rparr>]\<rparr>"

lemma frozen_refuses_inbound_witness:
  "\<exists>e. commit_inbound sample_pms 0 ''T1'' ''IE-1'' sample_inbound sample_frozen_db = Inl e"
proof (rule frozen_refuses_inbound)
  show "frozen (pl_warehouse_id sample_inbound) sample_frozen_db" by code_simp
  show "pl_lines sample_inbound \<noteq> []" by code_simp
qed

end
