(* ===== verification/Manual_Docs.thy ===== *)
theory Manual_Docs
  imports Freeze_Guard
begin

text \<open>
  Manual outbound documents, \<open>app/wms/outbound/repos/manual_doc_repo.py\<close>: creation, release,
  completion, voiding and the progress of the lines. The document number and the time come from the
  caller; the columns that record who released or voided a document, and the display snapshots of
  the lines, are left out.

  The last section states the life cycle as a step relation on the status.
\<close>

section \<open>manual\_doc\_repo.py\<close>

record manual_doc_line_in =
  mi_item_id :: int
  mi_item_uom_id :: int
  mi_requested_qty :: int

record manual_doc_in =
  mc_warehouse_id :: int
  mc_doc_type :: string
  mc_recipient_name :: string
  mc_receiver_phone :: string
  mc_receiver_province :: string
  mc_receiver_city :: string
  mc_receiver_district :: "string option"
  mc_receiver_address :: string
  mc_receiver_postcode :: "string option"
  mc_remark :: "string option"
  mc_lines :: "manual_doc_line_in list"

definition require_text :: "string \<Rightarrow> string \<Rightarrow> string result" where
  "require_text v field_name = require_some (norm_text (Some v)) (ValueError (field_name @ ''_required''))"

definition insert_manual_line :: "int \<Rightarrow> int \<times> manual_doc_line_in \<Rightarrow> unit action" where
  "insert_manual_line doc_id nl d =
     (case nl of (line_no, ln) \<Rightarrow>
        Inr ((), d\<lparr>db_manual_lines := db_manual_lines d @
          [\<lparr>ml_id = next_id (map ml_id (db_manual_lines d)), ml_doc_id = doc_id, ml_line_no = line_no,
            ml_item_id = mi_item_id ln, ml_item_uom_id = mi_item_uom_id ln,
            ml_requested_qty = mi_requested_qty ln\<rparr>]\<rparr>))"

text \<open>The inserted head, from the texts that \<open>_require_text\<close> returned.\<close>

definition draft_doc ::
  "int \<Rightarrow> string \<Rightarrow> string \<Rightarrow> string \<Rightarrow> string \<Rightarrow> string \<Rightarrow> string \<Rightarrow> string \<Rightarrow> manual_doc_in \<Rightarrow> manual_doc" where
  "draft_doc doc_id doc_no doc_type name phone province city address p =
     \<lparr>md_id = doc_id, md_warehouse_id = mc_warehouse_id p, md_doc_no = doc_no, md_doc_type = doc_type,
      md_status = MD_DRAFT, md_recipient_name = Some name, md_receiver_phone = Some phone,
      md_receiver_province = Some province, md_receiver_city = Some city,
      md_receiver_district = norm_text (mc_receiver_district p), md_receiver_address = Some address,
      md_receiver_postcode = norm_text (mc_receiver_postcode p), md_remark = norm_text (mc_remark p)\<rparr>"

definition create_manual_doc :: "string \<Rightarrow> manual_doc_in \<Rightarrow> int action" where
  "create_manual_doc doc_no p d =
     bindR (require_text (mc_doc_type p) ''doc_type'') (\<lambda>doc_type.
     bindR (require_text (mc_recipient_name p) ''recipient_name'') (\<lambda>name.
     bindR (require_text (mc_receiver_phone p) ''receiver_phone'') (\<lambda>phone.
     bindR (require_text (mc_receiver_province p) ''receiver_province'') (\<lambda>province.
     bindR (require_text (mc_receiver_city p) ''receiver_city'') (\<lambda>city.
     bindR (require_text (mc_receiver_address p) ''receiver_address'') (\<lambda>address.
     let doc_id = next_id (map md_id (db_manual_docs d));
         row = draft_doc doc_id doc_no doc_type name phone province city address p
     in bindR (map_loop (insert_manual_line doc_id)
                 (numbered (mc_lines p))
                 (d\<lparr>db_manual_docs := db_manual_docs d @ [row]\<rparr>)) (\<lambda>(_, d1).
        Inr (doc_id, d1))))))))"

definition get_manual_doc_head :: "int \<Rightarrow> db \<Rightarrow> manual_doc result" where
  "get_manual_doc_head doc_id d =
     require_some (find (\<lambda>m. md_id m = doc_id) (db_manual_docs d)) (ValueError ''manual_doc_not_found'')"

definition get_manual_doc_lines :: "int \<Rightarrow> db \<Rightarrow> manual_line list" where
  "get_manual_doc_lines doc_id d =
     sort_key (\<lambda>l. (ml_line_no l, ml_id l)) (filter (\<lambda>l. ml_doc_id l = doc_id) (db_manual_lines d))"

text \<open>\<open>COALESCE(SUM(oel.qty_outbound), 0)\<close> over the event lines of a document line.\<close>

definition manual_submitted :: "db \<Rightarrow> int \<Rightarrow> int" where
  "manual_submitted d line_id =
     sum_where oel_qty_outbound (\<lambda>e. oel_manual_doc_line_id e = Some line_id) (db_outbound_event_lines d)"

definition list_manual_doc_progress :: "int \<Rightarrow> db \<Rightarrow> (manual_line \<times> int) list" where
  "list_manual_doc_progress doc_id d =
     map (\<lambda>l. (l, manual_submitted d (ml_id l))) (get_manual_doc_lines doc_id d)"

text \<open>\<open>UPDATE manual_outbound_docs SET status = ... WHERE id = ... AND status IN ...\<close>, refused unless one row is hit.\<close>

definition update_doc_status :: "int \<Rightarrow> manual_doc_status list \<Rightarrow> manual_doc_status \<Rightarrow> string \<Rightarrow> unit action" where
  "update_doc_status doc_id froms st reject d =
     (let hit = (\<lambda>m. md_id m = doc_id \<and> md_status m \<in> set froms)
      in bindR (ensure (length (filter hit (db_manual_docs d)) = 1) (ValueError reject)) (\<lambda>_.
         Inr ((), d\<lparr>db_manual_docs := map (\<lambda>m. if hit m then m\<lparr>md_status := st\<rparr> else m) (db_manual_docs d)\<rparr>)))"

definition complete_manual_doc :: "int \<Rightarrow> unit action" where
  "complete_manual_doc doc_id = update_doc_status doc_id [MD_RELEASED] MD_COMPLETED ''manual_doc_complete_reject''"

definition receiver_complete :: "manual_doc \<Rightarrow> bool" where
  "receiver_complete m \<longleftrightarrow>
     (\<forall>v \<in> set [md_recipient_name m, md_receiver_phone m, md_receiver_province m, md_receiver_city m,
                md_receiver_address m]. norm_text v \<noteq> None)"

definition release_manual_doc :: "int \<Rightarrow> unit action" where
  "release_manual_doc doc_id d =
     bindR (ensure (\<exists>l \<in> set (db_manual_lines d). ml_doc_id l = doc_id) (ValueError ''manual_doc_has_no_lines'')) (\<lambda>_.
     bindR (require_some (find (\<lambda>m. md_id m = doc_id) (db_manual_docs d)) (ValueError ''manual_doc_not_found'')) (\<lambda>head.
     bindR (ensure (receiver_complete head) (ValueError ''manual_doc_receiver_incomplete'')) (\<lambda>_.
     update_doc_status doc_id [MD_DRAFT] MD_RELEASED ''manual_doc_release_reject'' d)))"

definition void_manual_doc :: "int \<Rightarrow> unit action" where
  "void_manual_doc doc_id = update_doc_status doc_id [MD_DRAFT, MD_RELEASED] MD_VOIDED ''manual_doc_void_reject''"

section \<open>Well-formed documents\<close>

text \<open>Keys are unique and a line belongs to a document.\<close>

definition docs_ok :: "db \<Rightarrow> bool" where
  "docs_ok d \<longleftrightarrow> distinct (map md_id (db_manual_docs d)) \<and> distinct (map ml_id (db_manual_lines d)) \<and>
     (\<forall>l \<in> set (db_manual_lines d). ml_doc_id l \<in> set (map md_id (db_manual_docs d)))"

text \<open>
  A completed document is covered: it has lines, and the submitted quantity of each, as the code counts it, reaches the
  requested one. The counter adds up the lines of all events, those that a reversal has written included.
\<close>

definition covered :: "db \<Rightarrow> int \<Rightarrow> bool" where
  "covered d doc_id \<longleftrightarrow> (\<exists>l \<in> set (db_manual_lines d). ml_doc_id l = doc_id) \<and>
     (\<forall>l \<in> set (db_manual_lines d). ml_doc_id l = doc_id \<longrightarrow> ml_requested_qty l \<le> manual_submitted d (ml_id l))"

definition completed_covered :: "db \<Rightarrow> bool" where
  "completed_covered d \<longleftrightarrow> (\<forall>m \<in> set (db_manual_docs d). md_status m = MD_COMPLETED \<longrightarrow> covered d (md_id m))"

text \<open>A released or completed document has lines and a complete receiver.\<close>

definition released_ready :: "db \<Rightarrow> bool" where
  "released_ready d \<longleftrightarrow> (\<forall>m \<in> set (db_manual_docs d). md_status m \<in> {MD_RELEASED, MD_COMPLETED} \<longrightarrow>
     receiver_complete m \<and> (\<exists>l \<in> set (db_manual_lines d). ml_doc_id l = md_id m))"

lemma progress_all_covered:
  assumes "list_manual_doc_progress doc_id d \<noteq> []"
    and "\<forall>(l, q) \<in> set (list_manual_doc_progress doc_id d). ml_requested_qty l \<le> q"
  shows "covered d doc_id"
proof -
  let ?ls = "filter (\<lambda>l. ml_doc_id l = doc_id) (db_manual_lines d)"
  have "set (get_manual_doc_lines doc_id d) \<noteq> {}" using assms(1) by (simp add: list_manual_doc_progress_def)
  then have "set ?ls \<noteq> {}" by (simp add: get_manual_doc_lines_def)
  with assms(2) show ?thesis
    by (auto simp: covered_def list_manual_doc_progress_def get_manual_doc_lines_def)
qed

section \<open>The life cycle\<close>

inductive doc_step :: "manual_doc_status \<Rightarrow> manual_doc_status \<Rightarrow> bool" where
  release: "doc_step MD_DRAFT MD_RELEASED"
| complete: "doc_step MD_RELEASED MD_COMPLETED"
| void_draft: "doc_step MD_DRAFT MD_VOIDED"
| void_released: "doc_step MD_RELEASED MD_VOIDED"

inductive_cases doc_step_from_completed [elim!]: "doc_step MD_COMPLETED st"
inductive_cases doc_step_from_voided [elim!]: "doc_step MD_VOIDED st"
inductive_cases doc_step_from_released [elim!]: "doc_step MD_RELEASED st"

lemma doc_steps_final: "doc_step\<^sup>*\<^sup>* s t \<Longrightarrow> s \<in> {MD_COMPLETED, MD_VOIDED} \<Longrightarrow> t = s"
  by (induction rule: rtranclp_induct) auto

text \<open>
  What happens to the documents that exist: none disappears, nothing but the status changes, and
  the status moves along the life cycle.
\<close>

definition doc_moves :: "manual_doc \<Rightarrow> manual_doc \<Rightarrow> bool" where
  "doc_moves m m' \<longleftrightarrow> doc_step\<^sup>*\<^sup>* (md_status m) (md_status m') \<and> m\<lparr>md_status := md_status m'\<rparr> = m'"

definition docs_move :: "db \<Rightarrow> db \<Rightarrow> bool" where
  "docs_move d d' \<longleftrightarrow>
     list_all2 doc_moves (db_manual_docs d) (take (length (db_manual_docs d)) (db_manual_docs d'))"

lemma doc_moves_refl [simp]: "doc_moves m m"
  by (simp add: doc_moves_def)

lemma doc_moves_step: "doc_step (md_status m) s \<Longrightarrow> doc_moves m (m\<lparr>md_status := s\<rparr>)"
  by (simp add: doc_moves_def r_into_rtranclp)

lemma docs_move_grow: "db_manual_docs d' = db_manual_docs d @ new \<Longrightarrow> docs_move d d'"
  by (simp add: docs_move_def list_all2_same)

lemma docs_move_status:
  assumes "docs_move d d'" and "m \<in> set (db_manual_docs d)"
  shows "\<exists>m' \<in> set (db_manual_docs d'). doc_moves m m'"
proof -
  from assms obtain m' where "m' \<in> set (take (length (db_manual_docs d)) (db_manual_docs d'))" "doc_moves m m'"
    unfolding docs_move_def by (metis in_set_conv_nth list_all2_conv_all_nth)
  then show ?thesis by (blast dest: in_set_takeD)
qed

lemma update_doc_status_Inr:
  assumes "update_doc_status doc_id froms st reject d = Inr (u, d')"
  obtains "d' = d\<lparr>db_manual_docs :=
      map (\<lambda>m. if md_id m = doc_id \<and> md_status m \<in> set froms then m\<lparr>md_status := st\<rparr> else m) (db_manual_docs d)\<rparr>"
    "\<exists>m \<in> set (db_manual_docs d). md_id m = doc_id \<and> md_status m \<in> set froms"
proof
  have "length (filter (\<lambda>m. md_id m = doc_id \<and> md_status m \<in> set froms) (db_manual_docs d)) = 1"
    using assms by (simp add: update_doc_status_def Let_def res_simps)
  then show "\<exists>m \<in> set (db_manual_docs d). md_id m = doc_id \<and> md_status m \<in> set froms"
    by (metis (mono_tags, lifting) filter_False length_0_conv zero_neq_one)
qed (use assms in \<open>simp add: update_doc_status_def Let_def res_simps\<close>)

lemma update_doc_status_move:
  assumes "update_doc_status doc_id froms st reject d = Inr (u, d')"
    and "\<And>s. s \<in> set froms \<Longrightarrow> doc_step s st"
  shows "docs_move d d'"
  using assms(1)
proof (rule update_doc_status_Inr)
  assume "d' = d\<lparr>db_manual_docs :=
      map (\<lambda>m. if md_id m = doc_id \<and> md_status m \<in> set froms then m\<lparr>md_status := st\<rparr> else m) (db_manual_docs d)\<rparr>"
  then show ?thesis
    using assms(2) by (auto simp: docs_move_def list_all2_conv_all_nth intro: doc_moves_step)
qed

end
