(* ===== verification/Logistics_Export.thy ===== *)
theory Logistics_Export
  imports Manual_Docs
begin

text \<open>
  The hand-over of finished outbound documents to the logistics service,
  \<open>app/wms/outbound/repos/logistics_export_record_repo.py\<close>: one export record per document with
  its two statuses, and one payload per export record. The constant columns \<open>source_system\<close> and
  \<open>request_source\<close> and the display snapshots of the shipped items are left out, as is the
  serialisation of the items to JSON.
\<close>

definition pending_record :: "int \<Rightarrow> source_doc_type \<Rightarrow> int \<Rightarrow> string \<Rightarrow> string \<Rightarrow> export_record" where
  "pending_record rid t doc_id doc_no ref =
     \<lparr>xr_id = rid, xr_source_doc_type = t, xr_source_doc_id = doc_id, xr_source_doc_no = doc_no, xr_source_ref = ref,
      xr_export_status = EX_PENDING, xr_logistics_status = LG_NOT_IMPORTED,
      xr_request_id = None, xr_request_no = None, xr_exported_at = None, xr_completed_at = None, xr_last_error = None\<rparr>"

text \<open>The \<open>DO UPDATE SET\<close> part of the upsert.\<close>

definition renew_record :: "string \<Rightarrow> string \<Rightarrow> export_record \<Rightarrow> export_record" where
  "renew_record doc_no ref x =
     x\<lparr>xr_source_doc_no := doc_no, xr_source_ref := ref,
       xr_export_status := (if xr_export_status x = EX_EXPORTED then EX_EXPORTED else EX_PENDING),
       xr_logistics_status :=
         (if xr_logistics_status x \<in> {LG_IMPORTED, LG_IN_PROGRESS, LG_COMPLETED}
          then xr_logistics_status x else LG_NOT_IMPORTED),
       xr_last_error := (if xr_export_status x = EX_EXPORTED then xr_last_error x else None)\<rparr>"

definition same_doc :: "source_doc_type \<Rightarrow> int \<Rightarrow> export_record \<Rightarrow> bool" where
  "same_doc t doc_id x \<longleftrightarrow> xr_source_doc_type x = t \<and> xr_source_doc_id x = doc_id"

definition upsert_pending_logistics_export_record ::
  "source_doc_type \<Rightarrow> int \<Rightarrow> string \<Rightarrow> string \<Rightarrow> int action" where
  "upsert_pending_logistics_export_record t doc_id doc_no ref d =
     (let no = py_strip doc_no; rf = py_strip ref
      in bindR (ensure (\<forall>x \<in> set (db_export_records d). same_doc t doc_id x \<or> xr_source_ref x \<noteq> rf)
                  (IntegrityError ''uq_wms_logistics_export_records_source_ref'')) (\<lambda>_.
         case find (same_doc t doc_id) (db_export_records d) of
           None \<Rightarrow>
             (let rid = next_id (map xr_id (db_export_records d))
              in Inr (rid, d\<lparr>db_export_records := db_export_records d @ [pending_record rid t doc_id no rf]\<rparr>))
         | Some x \<Rightarrow>
             Inr (xr_id x, d\<lparr>db_export_records :=
               map (\<lambda>y. if same_doc t doc_id y then renew_record no rf y else y) (db_export_records d)\<rparr>)))"

definition upsert_logistics_handoff_payload :: "handoff_payload \<Rightarrow> unit action" where
  "upsert_logistics_handoff_payload p d =
     (let row = p\<lparr>hp_source_doc_no := py_strip (hp_source_doc_no p), hp_source_ref := py_strip (hp_source_ref p)\<rparr>
      in bindR (ensure (hp_export_record_id row \<in> set (map xr_id (db_export_records d)))
                  (IntegrityError ''fk_wms_logistics_handoff_payloads_export_record'')) (\<lambda>_.
         bindR (ensure (\<forall>x \<in> set (db_handoff_payloads d).
                    hp_export_record_id x = hp_export_record_id row \<or> hp_source_ref x \<noteq> hp_source_ref row)
                  (IntegrityError ''uq_wms_logistics_handoff_payloads_source_ref'')) (\<lambda>_.
         if \<exists>x \<in> set (db_handoff_payloads d). hp_export_record_id x = hp_export_record_id row
         then Inr ((), d\<lparr>db_handoff_payloads :=
                map (\<lambda>x. if hp_export_record_id x = hp_export_record_id row then row else x) (db_handoff_payloads d)\<rparr>)
         else Inr ((), d\<lparr>db_handoff_payloads := db_handoff_payloads d @ [row]\<rparr>))))"

section \<open>What the upserts do\<close>

text \<open>The record of a document after its upsert; an exported or imported record is not set back.\<close>

definition not_set_back :: "export_record \<Rightarrow> export_record \<Rightarrow> bool" where
  "not_set_back x y \<longleftrightarrow>
     (xr_export_status x = EX_EXPORTED \<longrightarrow> xr_export_status y = EX_EXPORTED \<and> xr_last_error y = xr_last_error x) \<and>
     (xr_logistics_status x \<in> {LG_IMPORTED, LG_IN_PROGRESS, LG_COMPLETED} \<longrightarrow> xr_logistics_status y = xr_logistics_status x)"

lemma renew_record_simps [simp]:
  "xr_id (renew_record no rf x) = xr_id x" "xr_source_ref (renew_record no rf x) = rf"
  "same_doc t i (renew_record no rf x) = same_doc t i x" "not_set_back x (renew_record no rf x)"
  "xr_export_status (renew_record no rf x) \<in> {EX_PENDING, EX_EXPORTED}"
  by (auto simp: renew_record_def same_doc_def not_set_back_def)

lemma pending_record_simps [simp]:
  "xr_id (pending_record rid t i no rf) = rid" "same_doc t i (pending_record rid t i no rf)"
  "xr_export_status (pending_record rid t i no rf) = EX_PENDING"
  by (simp_all add: pending_record_def same_doc_def)

lemma upsert_record_Inr:
  assumes "upsert_pending_logistics_export_record t i no rf d = Inr (rid, d')"
  shows "\<exists>rs. d' = d\<lparr>db_export_records := rs\<rparr>"
    and "\<exists>x \<in> set (db_export_records d'). same_doc t i x \<and> xr_id x = rid \<and> xr_export_status x \<in> {EX_PENDING, EX_EXPORTED}"
    and "\<And>x. x \<in> set (db_export_records d) \<Longrightarrow>
       \<exists>y \<in> set (db_export_records d'). xr_id y = xr_id x \<and> not_set_back x y \<and> (\<not> same_doc t i x \<longrightarrow> y = x)"
proof -
  let ?no = "py_strip no" and ?rf = "py_strip rf"
  let ?rid = "next_id (map xr_id (db_export_records d))"
  let ?g = "\<lambda>y. if same_doc t i y then renew_record ?no ?rf y else y"
  have nb: "not_set_back x x" for x by (simp add: not_set_back_def)
  have "(find (same_doc t i) (db_export_records d) = None \<and> rid = ?rid \<and>
      d' = d\<lparr>db_export_records := db_export_records d @ [pending_record ?rid t i ?no ?rf]\<rparr>) \<or>
    (\<exists>x. find (same_doc t i) (db_export_records d) = Some x \<and> rid = xr_id x \<and>
      d' = d\<lparr>db_export_records := map ?g (db_export_records d)\<rparr>)"
    (is "?new \<or> ?old")
    using assms by (auto simp: upsert_pending_logistics_export_record_def Let_def res_simps split: option.splits)
  then consider ?new | x where "x \<in> set (db_export_records d)" "same_doc t i x" "rid = xr_id x"
      "d' = d\<lparr>db_export_records := map ?g (db_export_records d)\<rparr>"
    by (blast dest: find_SomeD)
  note cases = this
  show "\<exists>rs. d' = d\<lparr>db_export_records := rs\<rparr>" by (cases rule: cases) blast+
  show "\<exists>x \<in> set (db_export_records d'). same_doc t i x \<and> xr_id x = rid \<and> xr_export_status x \<in> {EX_PENDING, EX_EXPORTED}"
  proof (cases rule: cases)
    case (2 x)
    then have "renew_record ?no ?rf x \<in> set (db_export_records d')" by auto
    with 2 show ?thesis using renew_record_simps(5) by (intro bexI [of _ "renew_record ?no ?rf x"]) auto
  qed auto
  show "\<exists>y \<in> set (db_export_records d'). xr_id y = xr_id x \<and> not_set_back x y \<and> (\<not> same_doc t i x \<longrightarrow> y = x)"
    if "x \<in> set (db_export_records d)" for x
  proof (cases rule: cases)
    case (2 z)
    with that have "?g x \<in> set (db_export_records d')" by auto
    then show ?thesis by (intro bexI [of _ "?g x"]) (auto simp: nb)
  qed (use that nb in auto)
qed

lemma upsert_payload_Inr:
  assumes "upsert_logistics_handoff_payload p d = Inr (u, d')"
  shows "\<exists>ps. d' = d\<lparr>db_handoff_payloads := ps\<rparr>"
    and "p\<lparr>hp_source_doc_no := py_strip (hp_source_doc_no p), hp_source_ref := py_strip (hp_source_ref p)\<rparr>
       \<in> set (db_handoff_payloads d')"
  using assms by (auto simp: upsert_logistics_handoff_payload_def Let_def res_simps split: if_splits)

end
