(* ===== verification/Outbound_Event.thy ===== *)
theory Outbound_Event
  imports Logistics_Export
begin

text \<open>
  Outbound submission, \<open>app/wms/outbound/services/outbound_event_submit_service.py\<close> with
  \<open>repos/outbound_event_repo.py\<close> and the two readers of \<open>repos/order_read_view_repo.py\<close>: an order or
  a released manual document is sent out of given lots. The service writes the event, its lines,
  one ledger row and one new balance per line; when the document is complete it is handed over
  to logistics.

  The trace id and the current time come from the caller. Time zones, the operator and the
  display snapshots (item names, SKU codes) are left out.
\<close>

section \<open>Text of numbers\<close>

fun show_nat :: "nat \<Rightarrow> string" where
  "show_nat n = (if n < 10 then [''0123456789'' ! n] else show_nat (n div 10) @ [''0123456789'' ! (n mod 10)])"

declare show_nat.simps [simp del]

definition show_int :: "int \<Rightarrow> string" where
  "show_int i = (if i < 0 then CHR ''-'' # show_nat (nat (- i)) else show_nat (nat i))"

section \<open>Reading the source document\<close>

definition load_order_outbound_head :: "int \<Rightarrow> db \<Rightarrow> order_head result" where
  "load_order_outbound_head order_id d =
     require_some (find (\<lambda>h. ord_id h = order_id) (db_orders d)) (ValueError ''order not found'')"

definition load_order_outbound_lines :: "int \<Rightarrow> db \<Rightarrow> order_line list" where
  "load_order_outbound_lines order_id d = sort_key ol_id (filter (\<lambda>l. ol_order_id l = order_id) (db_order_lines d))"

definition load_lot_code_snapshot_map :: "db \<Rightarrow> int \<Rightarrow> string option" where
  "load_lot_code_snapshot_map d lid =
     (case find (\<lambda>l. lot_id l = lid) (db_lots d) of None \<Rightarrow> None | Some l \<Rightarrow> lot_code l)"

record order_submit_context =
  oc_order :: order_head
  oc_lines :: "order_line list"
  oc_source_ref :: string

record manual_submit_context =
  mx_doc :: manual_doc
  mx_lines :: "manual_line list"
  mx_source_ref :: string
  mx_warehouse_id :: int

definition load_order_submit_context :: "int \<Rightarrow> db \<Rightarrow> order_submit_context result" where
  "load_order_submit_context order_id d =
     bindR (load_order_outbound_head order_id d) (\<lambda>head.
     let rows = load_order_outbound_lines order_id d
     in bindR (ensure (rows \<noteq> []) (ValueError ''order_lines_not_found'')) (\<lambda>_.
        Inr \<lparr>oc_order = head, oc_lines = rows,
             oc_source_ref = ''ORD:'' @ py_upper (ord_platform head) @ '':'' @ ord_store_code head @ '':'' @ ord_ext_order_no head\<rparr>))"

definition load_manual_submit_context :: "int \<Rightarrow> db \<Rightarrow> manual_submit_context result" where
  "load_manual_submit_context doc_id d =
     bindR (get_manual_doc_head doc_id d) (\<lambda>head.
     bindR (ensure (md_status head = MD_RELEASED) (ValueError ''manual_doc_not_released'')) (\<lambda>_.
     let rows = get_manual_doc_lines doc_id d
     in bindR (ensure (rows \<noteq> []) (ValueError ''manual_doc_lines_not_found'')) (\<lambda>_.
        Inr \<lparr>mx_doc = head, mx_lines = rows, mx_source_ref = md_doc_no head, mx_warehouse_id = md_warehouse_id head\<rparr>)))"

definition order_submitted :: "db \<Rightarrow> int \<Rightarrow> int" where
  "order_submitted d line_id =
     sum_where oel_qty_outbound (\<lambda>e. oel_order_line_id e = Some line_id) (db_outbound_event_lines d)"

text \<open>The progress of the lines of an order: \<open>line \<mapsto> (req_qty, submitted_qty)\<close>.\<close>

definition load_order_submit_progress :: "int \<Rightarrow> db \<Rightarrow> int \<Rightarrow> (int \<times> int) option" where
  "load_order_submit_progress order_id d line_id =
     map_option (\<lambda>l. (ol_req_qty l, order_submitted d line_id))
       (find (\<lambda>l. ol_id l = line_id \<and> ol_order_id l = order_id) (db_order_lines d))"

definition has_orphan_order_outbound_ledger :: "string \<Rightarrow> int \<Rightarrow> dims \<Rightarrow> db \<Rightarrow> bool" where
  "has_orphan_order_outbound_ledger source_ref ref_line k d \<longleftrightarrow>
     (\<exists>r \<in> set (db_stock_ledger d). led_reason r = ''OUTBOUND_SHIP'' \<and> led_ref r = source_ref \<and>
        led_ref_line r = ref_line \<and> led_dims r = k \<and> led_event_id r = None)"

section \<open>Normalising the submitted lines\<close>

text \<open>
  A submitted line names a line of the source document: \<open>sl_line_id\<close> is \<open>order_line_id\<close> in
  \<open>OrderOutboundSubmitLineIn\<close> and \<open>manual_doc_line_id\<close> in \<open>ManualOutboundSubmitLineIn\<close>.
\<close>

record submit_line =
  sl_line_id :: int
  sl_item_id :: int
  sl_qty_outbound :: int
  sl_lot_id :: int
  sl_remark :: "string option"

record normalized_line =
  nl_ref_line :: int
  nl_order_line_id :: "int option"
  nl_manual_doc_line_id :: "int option"
  nl_item_id :: int
  nl_qty_outbound :: int
  nl_lot_id :: int
  nl_remark :: "string option"

definition normalize_order_line :: "order_submit_context \<Rightarrow> int \<times> submit_line \<Rightarrow> unit \<Rightarrow> (normalized_line \<times> unit) result" where
  "normalize_order_line ctx x u =
     (case x of (ref_line, raw) \<Rightarrow>
        bindR (require_some (find (\<lambda>l. ol_id l = sl_line_id raw) (oc_lines ctx)) (ValueError ''order_line_not_in_order'')) (\<lambda>src.
        bindR (ensure (sl_item_id raw = ol_item_id src) (ValueError ''order_line_item_mismatch'')) (\<lambda>_.
        Inr (\<lparr>nl_ref_line = ref_line, nl_order_line_id = Some (sl_line_id raw), nl_manual_doc_line_id = None,
              nl_item_id = sl_item_id raw, nl_qty_outbound = sl_qty_outbound raw, nl_lot_id = sl_lot_id raw,
              nl_remark = norm_text (sl_remark raw)\<rparr>, u))))"

definition normalize_manual_line :: "manual_submit_context \<Rightarrow> int \<times> submit_line \<Rightarrow> unit \<Rightarrow> (normalized_line \<times> unit) result" where
  "normalize_manual_line ctx x u =
     (case x of (ref_line, raw) \<Rightarrow>
        bindR (require_some (find (\<lambda>l. ml_id l = sl_line_id raw) (mx_lines ctx)) (ValueError ''manual_doc_line_not_in_doc'')) (\<lambda>src.
        bindR (ensure (sl_item_id raw = ml_item_id src) (ValueError ''manual_doc_line_item_mismatch'')) (\<lambda>_.
        Inr (\<lparr>nl_ref_line = ref_line, nl_order_line_id = None, nl_manual_doc_line_id = Some (sl_line_id raw),
              nl_item_id = sl_item_id raw, nl_qty_outbound = sl_qty_outbound raw, nl_lot_id = sl_lot_id raw,
              nl_remark = norm_text (sl_remark raw)\<rparr>, u))))"

definition normalize_order_submit_lines :: "submit_line list \<Rightarrow> order_submit_context \<Rightarrow> normalized_line list result" where
  "normalize_order_submit_lines lines ctx =
     bindR (ensure (lines \<noteq> []) (ValueError ''empty_outbound_lines'')) (\<lambda>_.
     bindR (map_loop (normalize_order_line ctx) (numbered lines) ()) (\<lambda>(ns, _). Inr ns))"

definition normalize_manual_submit_lines :: "submit_line list \<Rightarrow> manual_submit_context \<Rightarrow> normalized_line list result" where
  "normalize_manual_submit_lines lines ctx =
     bindR (ensure (lines \<noteq> []) (ValueError ''empty_outbound_lines'')) (\<lambda>_.
     bindR (map_loop (normalize_manual_line ctx) (numbered lines) ()) (\<lambda>(ns, _). Inr ns))"

section \<open>Writing the event, its lines and the stock\<close>

definition insert_outbound_event ::
  "int \<Rightarrow> string \<Rightarrow> string \<Rightarrow> datetime \<Rightarrow> string \<Rightarrow> string option \<Rightarrow> wms_event action" where
  "insert_outbound_event warehouse_id source_type source_ref occurred_at trace_id remark =
     insert_event
       \<lparr>ev_id = 0, ev_no = take 64 trace_id, ev_type = EV_OUTBOUND, ev_warehouse_id = warehouse_id,
        ev_source_type = source_type, ev_source_ref = Some source_ref, ev_occurred_at = occurred_at,
        ev_trace_id = trace_id, ev_kind = EV_COMMIT, ev_target_event_id = None, ev_status = EV_COMMITTED,
        ev_remark = (case remark of Some t \<Rightarrow> if t = [] then None else Some (py_strip t) | None \<Rightarrow> None)\<rparr>"

definition outbound_line_checks :: "db \<Rightarrow> outbound_event_line \<Rightarrow> bool" where
  "outbound_line_checks d l \<longleftrightarrow>
     0 < oel_qty_outbound l \<and> (oel_order_line_id l = None) \<noteq> (oel_manual_doc_line_id l = None) \<and>
     (oel_event_id l, oel_ref_line l) \<notin> set (map (\<lambda>x. (oel_event_id x, oel_ref_line x)) (db_outbound_event_lines d)) \<and>
     oel_event_id l \<in> set (map ev_id (db_wms_events d)) \<and>
     (case oel_order_line_id l of None \<Rightarrow> True | Some i \<Rightarrow> i \<in> set (map ol_id (db_order_lines d)))"

definition outbound_line_row :: "(int \<Rightarrow> string option) \<Rightarrow> int \<Rightarrow> normalized_line \<Rightarrow> int \<Rightarrow> outbound_event_line" where
  "outbound_line_row codes event_id ln i =
     \<lparr>oel_id = i, oel_event_id = event_id, oel_ref_line = nl_ref_line ln, oel_item_id = nl_item_id ln,
      oel_qty_outbound = nl_qty_outbound ln, oel_lot_id = nl_lot_id ln, oel_lot_code_snapshot = codes (nl_lot_id ln),
      oel_order_line_id = nl_order_line_id ln, oel_manual_doc_line_id = nl_manual_doc_line_id ln, oel_remark = nl_remark ln\<rparr>"

definition insert_outbound_event_line ::
  "(int \<Rightarrow> string option) \<Rightarrow> int \<Rightarrow> normalized_line \<Rightarrow> outbound_event_line action" where
  "insert_outbound_event_line codes event_id ln d =
     (let row = outbound_line_row codes event_id ln (next_id (map oel_id (db_outbound_event_lines d)))
      in bindR (ensure (outbound_line_checks d row) (IntegrityError ''outbound_event_lines'')) (\<lambda>_.
         Inr (row, d\<lparr>db_outbound_event_lines := db_outbound_event_lines d @ [row]\<rparr>)))"

definition load_stocks_lot_for_update :: "dims \<Rightarrow> db \<Rightarrow> int option" where
  "load_stocks_lot_for_update k d = map_option st_qty (find (\<lambda>s. st_dims s = k) (db_stocks_lot d))"

definition update_stocks_lot_qty :: "dims \<Rightarrow> int \<Rightarrow> db \<Rightarrow> db" where
  "update_stocks_lot_qty k q = set_stock_qty (\<lambda>s. st_dims s = k) q"

definition outbound_ledger_row :: "dims \<Rightarrow> int \<Rightarrow> int \<Rightarrow> datetime \<Rightarrow> string \<Rightarrow> int \<Rightarrow> string \<Rightarrow> int \<Rightarrow> ledger_row" where
  "outbound_ledger_row k qty_outbound after_qty occurred_at source_ref ref_line trace_id event_id =
     \<lparr>led_id = 0, led_warehouse_id = fst k, led_item_id = fst (snd k), led_lot_id = snd (snd k),
      led_reason = ''OUTBOUND_SHIP'', led_reason_canon = Some ''OUTBOUND'', led_sub_reason = Some ''ORDER_OUTBOUND'',
      led_ref = source_ref, led_ref_line = ref_line, led_delta = - qty_outbound, led_after_qty = after_qty,
      led_occurred_at = occurred_at, led_trace_id = Some trace_id, led_event_id = Some event_id,
      led_production_date = None, led_expiry_date = None\<rparr>"

definition insert_outbound_stock_ledger ::
  "dims \<Rightarrow> int \<Rightarrow> int \<Rightarrow> datetime \<Rightarrow> string \<Rightarrow> int \<Rightarrow> string \<Rightarrow> int \<Rightarrow> int option action" where
  "insert_outbound_stock_ledger k qty_outbound after_qty occurred_at source_ref ref_line trace_id event_id =
     insert_ledger False (outbound_ledger_row k qty_outbound after_qty occurred_at source_ref ref_line trace_id event_id)"

definition text_of :: "string option \<Rightarrow> string" where
  "text_of v = (case v of Some s \<Rightarrow> s | None \<Rightarrow> ''None'')"

text \<open>One round of the loop over the saved lines.\<close>

definition line_stock :: "wms_event \<Rightarrow> outbound_event_line \<Rightarrow> dims" where
  "line_stock ev ln = (ev_warehouse_id ev, oel_item_id ln, oel_lot_id ln)"

definition write_outbound_line :: "wms_event \<Rightarrow> outbound_event_line \<Rightarrow> unit action" where
  "write_outbound_line ev ln d =
     (let k = line_stock ev ln; qty_outbound = oel_qty_outbound ln
      in case load_stocks_lot_for_update k d of
           None \<Rightarrow> Inl (ValueError ''stock_slot_not_found'')
         | Some current_qty \<Rightarrow>
             if current_qty < qty_outbound then Inl (ValueError ''insufficient_stock'')
             else
               (let after_qty = current_qty - qty_outbound
                in bindR (insert_outbound_stock_ledger k qty_outbound after_qty (ev_occurred_at ev)
                            (text_of (ev_source_ref ev)) (oel_ref_line ln) (ev_trace_id ev) (ev_id ev) d) (\<lambda>(_, d1).
                   Inr ((), update_stocks_lot_qty k after_qty d1))))"

definition write_event_and_ledger ::
  "datetime \<Rightarrow> int \<Rightarrow> string \<Rightarrow> string \<Rightarrow> string \<Rightarrow> datetime option \<Rightarrow> string option \<Rightarrow> normalized_line list \<Rightarrow>
   (wms_event \<times> outbound_event_line list) action" where
  "write_event_and_ledger now warehouse_id source_type source_ref trace_id occurred_at remark lines d =
     (let ts = (case occurred_at of Some t \<Rightarrow> t | None \<Rightarrow> now)
      in bindR (ensure_warehouse_not_frozen warehouse_id d) (\<lambda>_.
         bindR (insert_outbound_event warehouse_id source_type source_ref ts trace_id remark d) (\<lambda>(event, d1).
         bindR (map_loop (insert_outbound_event_line (load_lot_code_snapshot_map d1) (ev_id event)) lines d1) (\<lambda>(saved, d2).
         bindR (map_loop (write_outbound_line event) saved d2) (\<lambda>(_, d3).
         Inr ((event, saved), d3))))))"

section \<open>Submitting\<close>

definition newly_submitted :: "normalized_line list \<Rightarrow> int \<Rightarrow> int" where
  "newly_submitted ns line_id = sum_where nl_qty_outbound (\<lambda>n. nl_order_line_id n = Some line_id) ns"

definition order_outbound_completed_after_submit ::
  "order_submit_context \<Rightarrow> (int \<Rightarrow> (int \<times> int) option) \<Rightarrow> normalized_line list \<Rightarrow> bool" where
  "order_outbound_completed_after_submit ctx progress ns \<longleftrightarrow>
     oc_lines ctx \<noteq> [] \<and>
     (\<forall>l \<in> set (oc_lines ctx).
        (let req_qty = ol_req_qty l;
             already = (case progress (ol_id l) of None \<Rightarrow> 0 | Some (_, submitted) \<Rightarrow> submitted)
         in 0 < req_qty \<and> req_qty \<le> already + newly_submitted ns (ol_id l)))"

definition order_source_doc_no :: "order_head \<Rightarrow> int \<Rightarrow> string" where
  "order_source_doc_no h order_id =
     (case norm_text (Some (ord_ext_order_no h)) of Some s \<Rightarrow> s | None \<Rightarrow> show_int order_id)"

definition build_shipment_items :: "outbound_event_line list \<Rightarrow> shipment_item list" where
  "build_shipment_items saved =
     map (\<lambda>l. \<lparr>si_source = (case oel_order_line_id l of
                  Some i \<Rightarrow> ORDER_LINE i
                | None \<Rightarrow> (case oel_manual_doc_line_id l of Some i \<Rightarrow> MANUAL_OUTBOUND_LINE i | None \<Rightarrow> UNKNOWN_LINE)),
               si_line_no = oel_ref_line l, si_item_id = oel_item_id l, si_qty_outbound = oel_qty_outbound l\<rparr>) saved"

definition load_warehouse_name_snapshot :: "int \<Rightarrow> db \<Rightarrow> string option" where
  "load_warehouse_name_snapshot w d =
     norm_text (map_option wh_name (find (\<lambda>x. wh_id x = w) (db_warehouses d)))"

definition load_order_handoff_payload_context :: "int \<Rightarrow> db \<Rightarrow> order_head result" where
  "load_order_handoff_payload_context order_id d =
     require_some (find (\<lambda>h. ord_id h = order_id) (db_orders d)) (ValueError ''order_not_found'')"

definition or_text :: "string option \<Rightarrow> string option \<Rightarrow> string option" where
  "or_text a b = (case norm_text a of Some s \<Rightarrow> Some s | None \<Rightarrow> norm_text b)"

definition address_field :: "(order_address \<Rightarrow> string option) \<Rightarrow> order_head \<Rightarrow> string option" where
  "address_field f h = (case ord_address h of None \<Rightarrow> None | Some a \<Rightarrow> f a)"

text \<open>The arguments of \<open>upsert_logistics_handoff_payload\<close> in the two submit functions.\<close>

definition order_payload :: "int \<Rightarrow> int \<Rightarrow> string \<Rightarrow> order_head \<Rightarrow> wms_event \<Rightarrow> outbound_event_line list \<Rightarrow> db \<Rightarrow> handoff_payload" where
  "order_payload record_id order_id doc_no h ev saved d =
     (let platform = norm_text (Some (ord_platform h)); store_code = norm_text (Some (ord_store_code h));
          ext_order_no = norm_text (Some (ord_ext_order_no h))
      in \<lparr>hp_export_record_id = record_id, hp_source_doc_type = ORDER_OUTBOUND, hp_source_doc_id = order_id,
          hp_source_doc_no = doc_no, hp_source_ref = ''WMS:ORDER_OUTBOUND:'' @ show_int order_id,
          hp_platform = platform, hp_store_code = store_code,
          hp_order_ref = (case (platform, store_code, ext_order_no) of
             (Some p, Some s, Some e) \<Rightarrow> Some (''ORD:'' @ py_upper p @ '':'' @ s @ '':'' @ e) | _ \<Rightarrow> None),
          hp_ext_order_no = ext_order_no, hp_warehouse_id = ev_warehouse_id ev,
          hp_warehouse_name = load_warehouse_name_snapshot (ev_warehouse_id ev) d,
          hp_receiver_name = or_text (address_field oa_receiver_name h) (ord_buyer_name h),
          hp_receiver_phone = or_text (address_field oa_receiver_phone h) (ord_buyer_phone h),
          hp_receiver_province = norm_text (address_field oa_province h),
          hp_receiver_city = norm_text (address_field oa_city h),
          hp_receiver_district = norm_text (address_field oa_district h),
          hp_receiver_address = norm_text (address_field oa_detail h),
          hp_receiver_postcode = norm_text (address_field oa_zipcode h),
          hp_outbound_event_id = ev_id ev, hp_outbound_source_ref = text_of (ev_source_ref ev),
          hp_outbound_completed_at = ev_occurred_at ev, hp_shipment_items = build_shipment_items saved\<rparr>)"

definition manual_payload :: "int \<Rightarrow> int \<Rightarrow> manual_doc \<Rightarrow> wms_event \<Rightarrow> outbound_event_line list \<Rightarrow> db \<Rightarrow> handoff_payload" where
  "manual_payload record_id doc_id m ev saved d =
     \<lparr>hp_export_record_id = record_id, hp_source_doc_type = MANUAL_OUTBOUND, hp_source_doc_id = doc_id,
      hp_source_doc_no = md_doc_no m, hp_source_ref = ''WMS:MANUAL_OUTBOUND:'' @ show_int doc_id,
      hp_platform = None, hp_store_code = None, hp_order_ref = None, hp_ext_order_no = None,
      hp_warehouse_id = ev_warehouse_id ev, hp_warehouse_name = load_warehouse_name_snapshot (ev_warehouse_id ev) d,
      hp_receiver_name = norm_text (md_recipient_name m), hp_receiver_phone = norm_text (md_receiver_phone m),
      hp_receiver_province = norm_text (md_receiver_province m), hp_receiver_city = norm_text (md_receiver_city m),
      hp_receiver_district = norm_text (md_receiver_district m), hp_receiver_address = norm_text (md_receiver_address m),
      hp_receiver_postcode = norm_text (md_receiver_postcode m),
      hp_outbound_event_id = ev_id ev, hp_outbound_source_ref = text_of (ev_source_ref ev),
      hp_outbound_completed_at = ev_occurred_at ev, hp_shipment_items = build_shipment_items saved\<rparr>"

definition check_order_line ::
  "order_submit_context \<Rightarrow> (int \<Rightarrow> (int \<times> int) option) \<Rightarrow> int \<Rightarrow> db \<Rightarrow> normalized_line \<Rightarrow> unit result" where
  "check_order_line ctx progress warehouse_id d ln =
     (case (case nl_order_line_id ln of None \<Rightarrow> None | Some i \<Rightarrow> progress i) of
        None \<Rightarrow> Inl (ValueError ''order_line_not_found_or_invalid'')
      | Some (req_qty, submitted_qty) \<Rightarrow>
          bindR (ensure (0 < req_qty) (ValueError ''order_line_not_found_or_invalid'')) (\<lambda>_.
          bindR (ensure (submitted_qty < req_qty) (ValueError ''order_line_already_completed'')) (\<lambda>_.
          bindR (ensure (submitted_qty + nl_qty_outbound ln \<le> req_qty) (ValueError ''order_line_over_submit'')) (\<lambda>_.
          ensure (\<not> has_orphan_order_outbound_ledger (oc_source_ref ctx) (nl_ref_line ln)
                      (warehouse_id, nl_item_id ln, nl_lot_id ln) d)
            (ValueError ''legacy_orphan_ledger_conflict'')))))"

definition hand_over_order ::
  "order_submit_context \<Rightarrow> int \<Rightarrow> wms_event \<Rightarrow> outbound_event_line list \<Rightarrow> unit action" where
  "hand_over_order ctx order_id ev saved d =
     (let doc_no = order_source_doc_no (oc_order ctx) order_id
      in bindR (upsert_pending_logistics_export_record ORDER_OUTBOUND order_id doc_no
                  (''WMS:ORDER_OUTBOUND:'' @ show_int order_id) d) (\<lambda>(record_id, d1).
         bindR (load_order_handoff_payload_context order_id d1) (\<lambda>h.
         upsert_logistics_handoff_payload (order_payload record_id order_id doc_no h ev saved d1) d1)))"

definition submit_order_outbound_event ::
  "datetime \<Rightarrow> int \<Rightarrow> int \<Rightarrow> string \<Rightarrow> string option \<Rightarrow> submit_line list \<Rightarrow> datetime option \<Rightarrow>
   (wms_event \<times> outbound_event_line list) action" where
  "submit_order_outbound_event now order_id warehouse_id trace_id remark lines occurred_at d =
     bindR (load_order_submit_context order_id d) (\<lambda>ctx.
     bindR (normalize_order_submit_lines lines ctx) (\<lambda>normalized.
     let progress = load_order_submit_progress order_id d
     in bindR (check_all (check_order_line ctx progress warehouse_id d) normalized) (\<lambda>_.
        bindR (write_event_and_ledger now warehouse_id ''ORDER'' (oc_source_ref ctx) trace_id occurred_at remark normalized d)
          (\<lambda>((event, saved), d1).
        if order_outbound_completed_after_submit ctx progress normalized
        then bindR (hand_over_order ctx order_id event saved d1) (\<lambda>(_, d2). Inr ((event, saved), d2))
        else Inr ((event, saved), d1)))))"

definition hand_over_manual ::
  "manual_submit_context \<Rightarrow> int \<Rightarrow> wms_event \<Rightarrow> outbound_event_line list \<Rightarrow> unit action" where
  "hand_over_manual ctx doc_id ev saved d =
     bindR (complete_manual_doc doc_id d) (\<lambda>(_, d1).
     bindR (upsert_pending_logistics_export_record MANUAL_OUTBOUND doc_id (md_doc_no (mx_doc ctx))
              (''WMS:MANUAL_OUTBOUND:'' @ show_int doc_id) d1) (\<lambda>(record_id, d2).
     upsert_logistics_handoff_payload (manual_payload record_id doc_id (mx_doc ctx) ev saved d2) d2))"

text \<open>\<open>progress_rows and all(submitted_qty >= requested_qty)\<close>.\<close>

definition manual_doc_done :: "int \<Rightarrow> db \<Rightarrow> bool" where
  "manual_doc_done doc_id d \<longleftrightarrow>
     (let progress_rows = list_manual_doc_progress doc_id d
      in progress_rows \<noteq> [] \<and> (\<forall>(l, submitted) \<in> set progress_rows. ml_requested_qty l \<le> submitted))"

definition submit_manual_outbound_event ::
  "datetime \<Rightarrow> int \<Rightarrow> string \<Rightarrow> string option \<Rightarrow> submit_line list \<Rightarrow> datetime option \<Rightarrow>
   (wms_event \<times> outbound_event_line list) action" where
  "submit_manual_outbound_event now doc_id trace_id remark lines occurred_at d =
     bindR (load_manual_submit_context doc_id d) (\<lambda>ctx.
     bindR (normalize_manual_submit_lines lines ctx) (\<lambda>normalized.
     bindR (write_event_and_ledger now (mx_warehouse_id ctx) ''MANUAL'' (mx_source_ref ctx) trace_id occurred_at remark normalized d)
       (\<lambda>((event, saved), d1).
     if manual_doc_done doc_id d1
     then bindR (hand_over_manual ctx doc_id event saved d1) (\<lambda>(_, d2). Inr ((event, saved), d2))
     else Inr ((event, saved), d1))))"

section \<open>The line writer as a stock writer\<close>

lemma write_outbound_line_Inr:
  assumes "books_ok d" and "write_outbound_line ev ln d = Inr (u, d')"
  obtains s row where "s \<in> set (db_stocks_lot d)" "st_dims s = line_stock ev ln" "oel_qty_outbound ln \<le> st_qty s"
    "row = (outbound_ledger_row (line_stock ev ln) (oel_qty_outbound ln) (st_qty s - oel_qty_outbound ln) (ev_occurred_at ev)
        (text_of (ev_source_ref ev)) (oel_ref_line ln) (ev_trace_id ev) (ev_id ev))\<lparr>led_id := next_id (map led_id (db_stock_ledger d))\<rparr>"
    "led_key row \<notin> set (map led_key (db_stock_ledger d))" "d' = book row d"
proof -
  from assms(2) obtain s i d1 where s: "find (\<lambda>s. st_dims s = line_stock ev ln) (db_stocks_lot d) = Some s"
    and q: "oel_qty_outbound ln \<le> st_qty s"
    and ins: "insert_outbound_stock_ledger (line_stock ev ln) (oel_qty_outbound ln) (st_qty s - oel_qty_outbound ln)
       (ev_occurred_at ev) (text_of (ev_source_ref ev)) (oel_ref_line ln) (ev_trace_id ev) (ev_id ev) d = Inr (i, d1)"
    and d': "d' = update_stocks_lot_qty (line_stock ev ln) (st_qty s - oel_qty_outbound ln) d1"
    by (auto simp: write_outbound_line_def Let_def load_stocks_lot_for_update_def res_simps split: option.splits if_splits)
  let ?row = "(outbound_ledger_row (line_stock ev ln) (oel_qty_outbound ln) (st_qty s - oel_qty_outbound ln) (ev_occurred_at ev)
        (text_of (ev_source_ref ev)) (oel_ref_line ln) (ev_trace_id ev) (ev_id ev))\<lparr>led_id := next_id (map led_id (db_stock_ledger d))\<rparr>"
  have row: "led_dims ?row = line_stock ev ln" "led_after_qty ?row = st_qty s - oel_qty_outbound ln"
    by (simp_all add: outbound_ledger_row_def led_dims_def)
  have "d1 = d\<lparr>db_stock_ledger := db_stock_ledger d @ [?row]\<rparr>" "led_key ?row \<notin> set (map led_key (db_stock_ledger d))"
    using ins by (auto simp: insert_outbound_stock_ledger_def insert_ledger_def Let_def res_simps split: if_splits)
  moreover from this(1) d' row have "d' = book ?row d" by (simp add: book_def update_stocks_lot_qty_def)
  ultimately show thesis using find_SomeD [OF s] q by (intro that [of s ?row]) auto
qed

definition out_effect :: "wms_event \<Rightarrow> outbound_event_line \<Rightarrow> dims \<Rightarrow> int" where
  "out_effect ev ln k = (if k = line_stock ev ln then - oel_qty_outbound ln else 0)"

interpretation outbound_line: stock_writer "write_outbound_line ev" "\<lambda>ln _. out_effect ev ln"
proof unfold_locales
  fix ln d u d' k
  assume ok: "books_ok d" and "write_outbound_line ev ln d = Inr (u, d')"
  then show "books_ok d'" and "on_hand d' k = on_hand d k + out_effect ev ln k"
  proof (atomize (full), rule write_outbound_line_Inr)
    fix s row
    assume s: "s \<in> set (db_stocks_lot d)" "st_dims s = line_stock ev ln" "oel_qty_outbound ln \<le> st_qty s"
      and row: "row = (outbound_ledger_row (line_stock ev ln) (oel_qty_outbound ln) (st_qty s - oel_qty_outbound ln)
        (ev_occurred_at ev) (text_of (ev_source_ref ev)) (oel_ref_line ln) (ev_trace_id ev) (ev_id ev))
        \<lparr>led_id := next_id (map led_id (db_stock_ledger d))\<rparr>"
      and key: "led_key row \<notin> set (map led_key (db_stock_ledger d))" and d': "d' = book row d"
    have r: "led_dims row = st_dims s" "led_after_qty row = st_qty s + led_delta row" "0 \<le> led_after_qty row"
      "led_delta row = - oel_qty_outbound ln" "led_id row \<notin> set (map led_id (db_stock_ledger d))"
      using s by (simp_all add: row outbound_ledger_row_def led_dims_def)
    show "books_ok d' \<and> on_hand d' k = on_hand d k + out_effect ev ln k"
      unfolding d' using books_ok_book [OF ok s(1) r(1-3) key r(5)] on_hand_book [OF ok s(1) r(1,2), of k] r s(2)
      by (simp add: out_effect_def)
  qed
qed

section \<open>What a submission does\<close>

lemma insert_lines_loop:
  assumes "map_loop (insert_outbound_event_line codes e) ls d = Inr (saved, d')"
  shows "d' = d\<lparr>db_outbound_event_lines := db_outbound_event_lines d @ saved\<rparr>"
    and "list_all2 (\<lambda>n row. row = outbound_line_row codes e n (oel_id row) \<and> 0 < nl_qty_outbound n) ls saved"
proof -
  show "d' = d\<lparr>db_outbound_event_lines := db_outbound_event_lines d @ saved\<rparr>"
    using assms
  proof (induction ls arbitrary: d saved)
    case (Cons l ls)
    then obtain r t rs where one: "insert_outbound_event_line codes e l d = Inr (r, t)"
      and rest: "map_loop (insert_outbound_event_line codes e) ls t = Inr (rs, d')" and "saved = r # rs"
      by (auto simp: res_simps)
    then show ?case using Cons.IH [OF rest] by (auto simp: insert_outbound_event_line_def Let_def res_simps)
  qed simp
  show "list_all2 (\<lambda>n row. row = outbound_line_row codes e n (oel_id row) \<and> 0 < nl_qty_outbound n) ls saved"
    by (rule map_loop_list_all2 [OF _ assms])
      (auto simp: insert_outbound_event_line_def Let_def res_simps outbound_line_row_def outbound_line_checks_def)
qed

lemma write_outbound_line_frame:
  assumes "write_outbound_line ev ln d = Inr (u, d')"
  shows "\<exists>led st. d' = d\<lparr>db_stock_ledger := led, db_stocks_lot := st\<rparr>"
  using assms
  by (auto simp: write_outbound_line_def Let_def res_simps insert_outbound_stock_ledger_def insert_ledger_def
      update_stocks_lot_qty_def set_stock_qty_def split: option.splits if_splits)

lemma write_outbound_loop_frame:
  assumes "map_loop (write_outbound_line ev) ls d = Inr (us, d')"
  shows "\<exists>led st. d' = d\<lparr>db_stock_ledger := led, db_stocks_lot := st\<rparr>"
  using map_loop_only_stock [OF _ assms] write_outbound_line_frame by (fastforce simp: only_stock_def)

text \<open>
  The interface between the writer and the two submit functions: the event that was written, the
  saved lines, and the database, which has changed in the events, their lines and the stock only.
\<close>

definition lines_written :: "int \<Rightarrow> wms_event \<Rightarrow> normalized_line list \<Rightarrow> outbound_event_line list \<Rightarrow> bool" where
  "lines_written w ev ns saved \<longleftrightarrow> ev_warehouse_id ev = w \<and>
     list_all2 (\<lambda>n s. oel_event_id s = ev_id ev \<and> oel_ref_line s = nl_ref_line n \<and> oel_item_id s = nl_item_id n \<and>
        oel_qty_outbound s = nl_qty_outbound n \<and> oel_lot_id s = nl_lot_id n \<and> oel_order_line_id s = nl_order_line_id n \<and>
        oel_manual_doc_line_id s = nl_manual_doc_line_id n \<and> 0 < oel_qty_outbound s) ns saved"

lemma lines_written_cong: "lines_written w ev ns saved \<Longrightarrow>
   (\<And>n s. n \<in> set ns \<Longrightarrow> s \<in> set saved \<Longrightarrow> oel_item_id s = nl_item_id n \<Longrightarrow> oel_qty_outbound s = nl_qty_outbound n \<Longrightarrow>
       oel_lot_id s = nl_lot_id n \<Longrightarrow> oel_order_line_id s = nl_order_line_id n \<Longrightarrow>
       oel_manual_doc_line_id s = nl_manual_doc_line_id n \<Longrightarrow> f n = g s) \<Longrightarrow> map f ns = map g saved"
  unfolding lines_written_def
  by (intro list_all2_map_eq) (auto simp: list_all2_conv_all_nth)

lemma write_event_Inr:
  assumes "write_event_and_ledger now w st ref tr occ remark ns d = Inr ((ev, saved), d')"
  obtains d1 us where "\<not> frozen w d" "ev_source_ref ev = Some ref" "lines_written w ev ns saved"
    "ev_id ev \<notin> set (map ev_id (db_wms_events d))"
    "d1 = d\<lparr>db_wms_events := db_wms_events d @ [ev], db_outbound_event_lines := db_outbound_event_lines d @ saved\<rparr>"
    "map_loop (write_outbound_line ev) saved d1 = Inr (us, d')"
proof -
  from assms obtain e d1 d2 us where fr: "\<not> frozen w d"
    and ins: "insert_event e d = Inr (ev, d1)" "ev_warehouse_id e = w" "ev_source_ref e = Some ref"
    and lines: "map_loop (insert_outbound_event_line (load_lot_code_snapshot_map d1) (ev_id ev)) ns d1 = Inr (saved, d2)"
    and loop: "map_loop (write_outbound_line ev) saved d2 = Inr (us, d')"
    by (fastforce simp: write_event_and_ledger_def Let_def res_simps insert_outbound_event_def)
  note E = insert_event_Inr(1,2) [OF ins(1)] and L = insert_lines_loop [OF lines]
  have "lines_written w ev ns saved"
    using L(2) E(2) ins(2) unfolding lines_written_def
    by (auto elim!: list_all2_mono simp: outbound_line_row_def)
      (metis outbound_event_line.select_convs)+
  then show thesis
    using fr E ins(3) L(1) loop by (intro that [of d2 us]) auto
qed

lemma write_event_effect:
  assumes ok: "books_ok d" and run: "write_event_and_ledger now w st ref tr occ remark ns d = Inr ((ev, saved), d')"
  shows "books_ok d'"
    and "on_hand d' k = on_hand d k - (\<Sum>n \<leftarrow> ns. if k = (w, nl_item_id n, nl_lot_id n) then nl_qty_outbound n else 0)"
proof -
  from run obtain d1 us where L: "lines_written w ev ns saved"
    and d1: "d1 = d\<lparr>db_wms_events := db_wms_events d @ [ev], db_outbound_event_lines := db_outbound_event_lines d @ saved\<rparr>"
    and loop: "map_loop (write_outbound_line ev) saved d1 = Inr (us, d')"
    by (rule write_event_Inr)
  have ok1: "books_ok d1" using ok by (simp add: d1 books_defs books_frame)
  show "books_ok d'" by (rule outbound_line.loop_keeps [OF ok1 loop])
  have "map (\<lambda>n. - (if k = (w, nl_item_id n, nl_lot_id n) then nl_qty_outbound n else 0)) ns = map (\<lambda>s. out_effect ev s k) saved"
    by (rule lines_written_cong [OF L]) (use L in \<open>auto simp: out_effect_def line_stock_def lines_written_def\<close>)
  then have "(\<Sum>s \<leftarrow> saved. out_effect ev s k) = - (\<Sum>n \<leftarrow> ns. if k = (w, nl_item_id n, nl_lot_id n) then nl_qty_outbound n else 0)"
    by (simp only: uminus_sum_list_map o_def flip: \<open>map _ ns = map _ saved\<close>)
  moreover have "on_hand d' k = on_hand d1 k + (\<Sum>s \<leftarrow> saved. out_effect ev s k)"
    using outbound_line.loop_moves [OF ok1 loop, of k] map_fst_zip_eq [OF map_loop_length [OF loop], of "\<lambda>s. out_effect ev s k"]
    by simp
  ultimately show "on_hand d' k = on_hand d k - (\<Sum>n \<leftarrow> ns. if k = (w, nl_item_id n, nl_lot_id n) then nl_qty_outbound n else 0)"
    by (simp add: d1 on_hand_def)
qed

lemma write_event_frame:
  assumes "write_event_and_ledger now w st ref tr occ remark ns d = Inr ((ev, saved), d')"
  shows "\<exists>led stk. d' = d\<lparr>db_wms_events := db_wms_events d @ [ev], db_outbound_event_lines := db_outbound_event_lines d @ saved,
     db_stock_ledger := led, db_stocks_lot := stk\<rparr>"
  using assms by (rule write_event_Inr) (auto dest!: write_outbound_loop_frame)

lemma normalize_order_Inr:
  assumes "normalize_order_submit_lines lines ctx = Inr ns"
  shows "lines \<noteq> []" and "map nl_ref_line ns = map int [1..<Suc (length lines)]"
    and "list_all2 (\<lambda>l n. nl_order_line_id n = Some (sl_line_id l) \<and> nl_manual_doc_line_id n = None \<and> nl_item_id n = sl_item_id l \<and>
       nl_qty_outbound n = sl_qty_outbound l \<and> nl_lot_id n = sl_lot_id l \<and>
       (\<exists>src \<in> set (oc_lines ctx). ol_id src = sl_line_id l \<and> ol_item_id src = sl_item_id l)) lines ns"
proof -
  from assms have ne: "lines \<noteq> []" and loop: "map_loop (normalize_order_line ctx) (numbered lines) () = Inr (ns, ())"
    by (auto simp: normalize_order_submit_lines_def res_simps)
  have A: "list_all2 (\<lambda>(i, l) n. nl_ref_line n = i \<and> nl_order_line_id n = Some (sl_line_id l) \<and> nl_manual_doc_line_id n = None \<and>
       nl_item_id n = sl_item_id l \<and> nl_qty_outbound n = sl_qty_outbound l \<and> nl_lot_id n = sl_lot_id l \<and>
       (\<exists>src \<in> set (oc_lines ctx). ol_id src = sl_line_id l \<and> ol_item_id src = sl_item_id l)) (numbered lines) ns"
    by (rule map_loop_list_all2 [OF _ loop])
      (auto simp: normalize_order_line_def res_simps dest!: find_SomeD split: prod.splits intro: bexI)
  show "lines \<noteq> []" by (rule ne)
  have "map fst (numbered lines) = map nl_ref_line ns"
    by (rule list_all2_map_eq, rule list_all2_mono [OF A]) auto
  then show "map nl_ref_line ns = map int [1..<Suc (length lines)]" by simp
  show "list_all2 (\<lambda>l n. nl_order_line_id n = Some (sl_line_id l) \<and> nl_manual_doc_line_id n = None \<and> nl_item_id n = sl_item_id l \<and>
       nl_qty_outbound n = sl_qty_outbound l \<and> nl_lot_id n = sl_lot_id l \<and>
       (\<exists>src \<in> set (oc_lines ctx). ol_id src = sl_line_id l \<and> ol_item_id src = sl_item_id l)) lines ns"
    using A by (auto simp: list_all2_conv_all_nth numbered_nth)
qed

lemma normalize_manual_Inr:
  assumes "normalize_manual_submit_lines lines ctx = Inr ns"
  shows "lines \<noteq> []" and "map nl_ref_line ns = map int [1..<Suc (length lines)]"
    and "list_all2 (\<lambda>l n. nl_order_line_id n = None \<and> nl_manual_doc_line_id n = Some (sl_line_id l) \<and> nl_item_id n = sl_item_id l \<and>
       nl_qty_outbound n = sl_qty_outbound l \<and> nl_lot_id n = sl_lot_id l) lines ns"
proof -
  from assms have ne: "lines \<noteq> []" and loop: "map_loop (normalize_manual_line ctx) (numbered lines) () = Inr (ns, ())"
    by (auto simp: normalize_manual_submit_lines_def res_simps)
  have A: "list_all2 (\<lambda>(i, l) n. nl_ref_line n = i \<and> nl_order_line_id n = None \<and> nl_manual_doc_line_id n = Some (sl_line_id l) \<and>
       nl_item_id n = sl_item_id l \<and> nl_qty_outbound n = sl_qty_outbound l \<and> nl_lot_id n = sl_lot_id l) (numbered lines) ns"
    by (rule map_loop_list_all2 [OF _ loop])
      (auto simp: normalize_manual_line_def res_simps split: prod.splits)
  show "lines \<noteq> []" by (rule ne)
  have "map fst (numbered lines) = map nl_ref_line ns"
    by (rule list_all2_map_eq, rule list_all2_mono [OF A]) auto
  then show "map nl_ref_line ns = map int [1..<Suc (length lines)]" by simp
  show "list_all2 (\<lambda>l n. nl_order_line_id n = None \<and> nl_manual_doc_line_id n = Some (sl_line_id l) \<and> nl_item_id n = sl_item_id l \<and>
       nl_qty_outbound n = sl_qty_outbound l \<and> nl_lot_id n = sl_lot_id l) lines ns"
    using A by (auto simp: list_all2_conv_all_nth numbered_nth)
qed

lemma hand_over_order_Inr:
  assumes "hand_over_order ctx oid ev saved d = Inr (u, d')"
  shows "\<exists>rs ps. d' = d\<lparr>db_export_records := rs, db_handoff_payloads := ps\<rparr>"
    and "\<exists>x \<in> set (db_export_records d'). same_doc ORDER_OUTBOUND oid x \<and> xr_export_status x \<in> {EX_PENDING, EX_EXPORTED} \<and>
      (\<exists>p \<in> set (db_handoff_payloads d'). hp_export_record_id p = xr_id x \<and> hp_outbound_event_id p = ev_id ev \<and>
         hp_shipment_items p = build_shipment_items saved)"
proof -
  from assms obtain rid d1 h doc_no where
    up: "upsert_pending_logistics_export_record ORDER_OUTBOUND oid doc_no (''WMS:ORDER_OUTBOUND:'' @ show_int oid) d = Inr (rid, d1)"
    and pl: "upsert_logistics_handoff_payload (order_payload rid oid doc_no h ev saved d1) d1 = Inr (u, d')"
    by (auto simp: hand_over_order_def Let_def res_simps)
  obtain rs where d1: "d1 = d\<lparr>db_export_records := rs\<rparr>" using upsert_record_Inr(1) [OF up] by blast
  obtain ps where d': "d' = d1\<lparr>db_handoff_payloads := ps\<rparr>" using upsert_payload_Inr(1) [OF pl] by blast
  then have "d' = d\<lparr>db_export_records := rs, db_handoff_payloads := ps\<rparr>" by (simp add: d1)
  then show "\<exists>rs ps. d' = d\<lparr>db_export_records := rs, db_handoff_payloads := ps\<rparr>" by blast
  from upsert_record_Inr(2) [OF up] obtain x where x: "x \<in> set (db_export_records d1)" "same_doc ORDER_OUTBOUND oid x" "xr_id x = rid"
    "xr_export_status x \<in> {EX_PENDING, EX_EXPORTED}" by blast
  show "\<exists>x \<in> set (db_export_records d'). same_doc ORDER_OUTBOUND oid x \<and> xr_export_status x \<in> {EX_PENDING, EX_EXPORTED} \<and>
      (\<exists>p \<in> set (db_handoff_payloads d'). hp_export_record_id p = xr_id x \<and> hp_outbound_event_id p = ev_id ev \<and>
         hp_shipment_items p = build_shipment_items saved)"
    by (intro bexI [of _ x] conjI bexI [OF _ upsert_payload_Inr(2) [OF pl]])
      (use x d' in \<open>simp_all add: order_payload_def Let_def\<close>)
qed

text \<open>The parts of a successful submission of an order.\<close>

lemma submit_order_Inr:
  assumes "submit_order_outbound_event now oid w tr remark lines occ d = Inr ((ev, saved), d')"
  obtains ctx ns d1 where "load_order_submit_context oid d = Inr ctx" "normalize_order_submit_lines lines ctx = Inr ns"
    "\<forall>n \<in> set ns. check_order_line ctx (load_order_submit_progress oid d) w d n = Inr ()"
    "write_event_and_ledger now w ''ORDER'' (oc_source_ref ctx) tr occ remark ns d = Inr ((ev, saved), d1)"
    "if order_outbound_completed_after_submit ctx (load_order_submit_progress oid d) ns
     then \<exists>u. hand_over_order ctx oid ev saved d1 = Inr (u, d') else d' = d1"
  using assms
  by (auto simp: submit_order_outbound_event_def Let_def res_simps split: if_splits)

lemma submit_manual_Inr:
  assumes "submit_manual_outbound_event now doc_id tr remark lines occ d = Inr ((ev, saved), d')"
  obtains ctx ns d1 where "load_manual_submit_context doc_id d = Inr ctx" "normalize_manual_submit_lines lines ctx = Inr ns"
    "write_event_and_ledger now (mx_warehouse_id ctx) ''MANUAL'' (mx_source_ref ctx) tr occ remark ns d = Inr ((ev, saved), d1)"
    "if manual_doc_done doc_id d1 then \<exists>u. hand_over_manual ctx doc_id ev saved d1 = Inr (u, d') else d' = d1"
  using assms
  by (auto simp: submit_manual_outbound_event_def res_simps split: if_splits)

text \<open>What the payload lines ask for, per dimension and per line of the document.\<close>

definition asked :: "int \<Rightarrow> submit_line list \<Rightarrow> dims \<Rightarrow> int" where
  "asked w lines k = (\<Sum>l \<leftarrow> lines. if k = (w, sl_item_id l, sl_lot_id l) then sl_qty_outbound l else 0)"

definition asked_line :: "submit_line list \<Rightarrow> int \<Rightarrow> int" where
  "asked_line lines line_id = sum_where sl_qty_outbound (\<lambda>l. sl_line_id l = line_id) lines"

lemma asked_normalized:
  assumes "list_all2 (\<lambda>l n. nl_item_id n = sl_item_id l \<and> nl_qty_outbound n = sl_qty_outbound l \<and> nl_lot_id n = sl_lot_id l) lines ns"
  shows "(\<Sum>n \<leftarrow> ns. if k = (w, nl_item_id n, nl_lot_id n) then nl_qty_outbound n else 0) = asked w lines k"
  using assms by (induction rule: list_all2_induct) (auto simp: asked_def)

lemma hand_over_order_stock:
  assumes "hand_over_order ctx oid ev saved d = Inr (u, d')"
  shows "books_ok d' = books_ok d" and "on_hand d' k = on_hand d k"
  using hand_over_order_Inr(1) [OF assms] by (auto simp: books_defs books_frame)

lemma submit_order_stock:
  assumes ok: "books_ok d" and run: "submit_order_outbound_event now oid w tr remark lines occ d = Inr ((ev, saved), d')"
  shows "books_ok d'" and "on_hand d' k = on_hand d k - asked w lines k"
  using run
proof (atomize (full), rule submit_order_Inr)
  fix ctx ns d1
  assume norm: "normalize_order_submit_lines lines ctx = Inr ns"
    and wr: "write_event_and_ledger now w ''ORDER'' (oc_source_ref ctx) tr occ remark ns d = Inr ((ev, saved), d1)"
    and tl: "if order_outbound_completed_after_submit ctx (load_order_submit_progress oid d) ns
       then \<exists>u. hand_over_order ctx oid ev saved d1 = Inr (u, d') else d' = d1"
  have "(\<Sum>n \<leftarrow> ns. if k = (w, nl_item_id n, nl_lot_id n) then nl_qty_outbound n else 0) = asked w lines k"
    by (rule asked_normalized, rule list_all2_mono [OF normalize_order_Inr(3) [OF norm]]) auto
  then have "books_ok d1" "on_hand d1 k = on_hand d k - asked w lines k"
    using write_event_effect [OF ok wr] by simp_all
  moreover have "books_ok d' = books_ok d1" "on_hand d' k = on_hand d1 k"
    using tl hand_over_order_stock [of ctx oid ev saved d1 _ d'] by (auto split: if_splits)
  ultimately show "books_ok d' \<and> on_hand d' k = on_hand d k - asked w lines k" by simp
qed

lemma saved_submitted:
  assumes "lines_written w ev ns saved"
    and "list_all2 (\<lambda>l n. nl_order_line_id n = Some (sl_line_id l) \<and> nl_qty_outbound n = sl_qty_outbound l) lines ns"
  shows "sum_where oel_qty_outbound (\<lambda>e. oel_order_line_id e = Some i) saved = asked_line lines i"
    and "newly_submitted ns i = asked_line lines i"
proof -
  show new: "newly_submitted ns i = asked_line lines i"
    using assms(2) unfolding newly_submitted_def asked_line_def by (induction rule: list_all2_induct) auto
  have "list_all2 (\<lambda>n s. oel_order_line_id s = nl_order_line_id n \<and> oel_qty_outbound s = nl_qty_outbound n) ns saved"
    using assms(1) by (auto simp: lines_written_def elim: list_all2_mono)
  then have "sum_where oel_qty_outbound (\<lambda>e. oel_order_line_id e = Some i) saved = newly_submitted ns i"
    unfolding newly_submitted_def by (induction rule: list_all2_induct) auto
  with new show "sum_where oel_qty_outbound (\<lambda>e. oel_order_line_id e = Some i) saved = asked_line lines i" by simp
qed

text \<open>What was sent out for a line grows by what the payload asks for it.\<close>

lemma submit_order_progress:
  assumes "submit_order_outbound_event now oid w tr remark lines occ d = Inr ((ev, saved), d')"
  shows "order_submitted d' i = order_submitted d i + asked_line lines i"
    and "db_order_lines d' = db_order_lines d"
  using assms
proof (atomize (full), rule submit_order_Inr)
  fix ctx ns d1
  assume norm: "normalize_order_submit_lines lines ctx = Inr ns"
    and wr: "write_event_and_ledger now w ''ORDER'' (oc_source_ref ctx) tr occ remark ns d = Inr ((ev, saved), d1)"
    and tl: "if order_outbound_completed_after_submit ctx (load_order_submit_progress oid d) ns
       then \<exists>u. hand_over_order ctx oid ev saved d1 = Inr (u, d') else d' = d1"
  have lw: "lines_written w ev ns saved" using wr by (rule write_event_Inr)
  have "list_all2 (\<lambda>l n. nl_order_line_id n = Some (sl_line_id l) \<and> nl_qty_outbound n = sl_qty_outbound l) lines ns"
    by (rule list_all2_mono [OF normalize_order_Inr(3) [OF norm]]) auto
  note S = saved_submitted(1) [OF lw this, of i]
  have "order_submitted d1 i = order_submitted d i + asked_line lines i \<and> db_order_lines d1 = db_order_lines d"
    using write_event_frame [OF wr] S by (auto simp: order_submitted_def)
  moreover have "db_outbound_event_lines d' = db_outbound_event_lines d1 \<and> db_order_lines d' = db_order_lines d1"
    using tl hand_over_order_Inr(1) [of ctx oid ev saved d1 _ d'] by (auto split: if_splits)
  ultimately show "order_submitted d' i = order_submitted d i + asked_line lines i \<and> db_order_lines d' = db_order_lines d"
    by (simp add: order_submitted_def)
qed

section \<open>Properties of the submission of orders\<close>

definition sample_order_db :: db where
  "sample_order_db = sample_db
     \<lparr>db_orders := [\<lparr>ord_id = 7, ord_platform = ''pdd'', ord_store_code = ''S1'', ord_ext_order_no = ''E100'',
        ord_buyer_name = Some ''Li'', ord_buyer_phone = None, ord_address = None\<rparr>],
      db_order_lines := [\<lparr>ol_id = 70, ol_order_id = 7, ol_item_id = 1, ol_req_qty = 5\<rparr>,
                         \<lparr>ol_id = 71, ol_order_id = 7, ol_item_id = 2, ol_req_qty = 2\<rparr>]\<rparr>"

definition sample_line :: "int \<Rightarrow> int \<Rightarrow> int \<Rightarrow> int \<Rightarrow> submit_line" where
  "sample_line l i lot q = \<lparr>sl_line_id = l, sl_item_id = i, sl_qty_outbound = q, sl_lot_id = lot, sl_remark = None\<rparr>"

lemma sample_order_books: "books_ok sample_order_db"
  by code_simp

text \<open>
  Claim C11. Submitting an order is exact. When \<open>submit_order_outbound_event\<close> succeeds, the books
  are kept and every lot of the warehouse loses exactly what the payload takes from it; in
  particular it held that much.
\<close>

theorem order_submit_exact:
  assumes "books_ok d" and "submit_order_outbound_event now order_id w trace_id remark lines occ d = Inr ((ev, saved), d')"
  shows "books_ok d' \<and> (\<forall>k. on_hand d' k = on_hand d k - asked w lines k \<and> asked w lines k \<le> on_hand d k)"
proof (intro conjI allI)
  show ok': "books_ok d'" by (rule submit_order_stock(1) [OF assms])
  fix k
  show "on_hand d' k = on_hand d k - asked w lines k" by (rule submit_order_stock(2) [OF assms])
  moreover have "0 \<le> on_hand d' k" using ok' by (simp add: on_hand_nonneg books_ok_def)
  ultimately show "asked w lines k \<le> on_hand d k" by simp
qed

theorem order_submit_exact_witness:
  "\<exists>ev saved d'. submit_order_outbound_event 3 7 1 ''T-9'' None [sample_line 70 1 1 5, sample_line 71 2 2 1] None sample_order_db
       = Inr ((ev, saved), d') \<and> books_ok d' \<and> on_hand d' (1, 1, 1) = 5 \<and> on_hand d' (1, 2, 2) = 3"
proof -
  let ?ls = "[sample_line 70 1 1 5, sample_line 71 2 2 1]"
  have "succeeds (submit_order_outbound_event 3 7 1 ''T-9'' None ?ls None sample_order_db) (\<lambda>_. True)" by code_simp
  then obtain r d' where "submit_order_outbound_event 3 7 1 ''T-9'' None ?ls None sample_order_db = Inr (r, d')"
    by (blast dest: succeeds_pairD)
  then obtain ev saved where run: "submit_order_outbound_event 3 7 1 ''T-9'' None ?ls None sample_order_db = Inr ((ev, saved), d')"
    by (cases r) auto
  have "on_hand sample_order_db (1, 1, 1) = 10" "on_hand sample_order_db (1, 2, 2) = 4"
    "asked 1 ?ls (1, 1, 1) = 5" "asked 1 ?ls (1, 2, 2) = 1" by code_simp+
  moreover note order_submit_exact [OF sample_order_books run]
  ultimately have "books_ok d' \<and> on_hand d' (1, 1, 1) = 5 \<and> on_hand d' (1, 2, 2) = 3" by simp
  with run show ?thesis by blast
qed

lemma asked_line_distinct:
  assumes "distinct (map sl_line_id lines)" and "l \<in> set lines"
  shows "asked_line lines (sl_line_id l) = sl_qty_outbound l"
  unfolding asked_line_def using sum_where_unique [OF assms] by simp

lemma submit_order_line_bound:
  assumes run: "submit_order_outbound_event now order_id w trace_id remark lines occ d = Inr ((ev, saved), d')"
    and "distinct (map ol_id (db_order_lines d))" and "l \<in> set lines"
    and "src \<in> set (db_order_lines d)" and "ol_id src = sl_line_id l"
  shows "order_submitted d (sl_line_id l) + sl_qty_outbound l \<le> ol_req_qty src"
  using run
proof (rule submit_order_Inr)
  fix ctx ns
  assume norm: "normalize_order_submit_lines lines ctx = Inr ns"
    and chk: "\<forall>n \<in> set ns. check_order_line ctx (load_order_submit_progress order_id d) w d n = Inr ()"
  from list_all2_memD [OF normalize_order_Inr(3) [OF norm] assms(3)] obtain n where n: "n \<in> set ns"
    "nl_order_line_id n = Some (sl_line_id l)" "nl_qty_outbound n = sl_qty_outbound l" by blast
  from chk n obtain x where x: "find (\<lambda>y. ol_id y = sl_line_id l \<and> ol_order_id y = order_id) (db_order_lines d) = Some x"
    and le: "order_submitted d (sl_line_id l) + sl_qty_outbound l \<le> ol_req_qty x"
    by (fastforce simp: check_order_line_def load_order_submit_progress_def res_simps split: option.splits)
  have "x = src" using find_SomeD [OF x] assms(2,4,5) by (metis distinct_key_unique)
  with le show ?thesis by simp
qed

text \<open>
  The over-submit check looks at each payload line alone: two lines of one payload that
  each fit into what is left of an order line pass together. On the sample order, which asks for 5 pieces, two lines
  of 4 pieces are sent out.
\<close>

lemma order_over_submit_in_one_payload:
  "succeeds (submit_order_outbound_event 3 7 1 ''T-9'' None [sample_line 70 1 1 4, sample_line 70 1 1 4] None sample_order_db)
     (\<lambda>(_, d'). order_submitted d' 70 = 8 \<and> on_hand d' (1, 1, 1) = 2)"
  by code_simp

text \<open>Each line takes a ledger key that was free.\<close>

definition out_key :: "wms_event \<Rightarrow> outbound_event_line \<Rightarrow> string \<times> string \<times> int \<times> dims" where
  "out_key ev ln = (''OUTBOUND_SHIP'', text_of (ev_source_ref ev), oel_ref_line ln, line_stock ev ln)"

lemma write_outbound_line_key:
  assumes "books_ok d" and "write_outbound_line ev ln d = Inr (u, d')"
  shows "out_key ev ln \<notin> set (map led_key (db_stock_ledger d))"
    and "set (map led_key (db_stock_ledger d')) = insert (out_key ev ln) (set (map led_key (db_stock_ledger d)))"
  using assms
proof (atomize (full), rule write_outbound_line_Inr)
  fix s row
  assume row: "row = (outbound_ledger_row (line_stock ev ln) (oel_qty_outbound ln) (st_qty s - oel_qty_outbound ln)
        (ev_occurred_at ev) (text_of (ev_source_ref ev)) (oel_ref_line ln) (ev_trace_id ev) (ev_id ev))
        \<lparr>led_id := next_id (map led_id (db_stock_ledger d))\<rparr>"
    and key: "led_key row \<notin> set (map led_key (db_stock_ledger d))" and d': "d' = book row d"
  have "led_key row = out_key ev ln"
    by (simp add: row led_key_def led_dims_def outbound_ledger_row_def out_key_def)
  with key d' show "out_key ev ln \<notin> set (map led_key (db_stock_ledger d)) \<and>
      set (map led_key (db_stock_ledger d')) = insert (out_key ev ln) (set (map led_key (db_stock_ledger d)))" by simp
qed

lemma outbound_loop_keys:
  assumes "books_ok d" and "map_loop (write_outbound_line ev) ls d = Inr (us, d')" and "l \<in> set ls"
  shows "out_key ev l \<notin> set (map led_key (db_stock_ledger d)) \<and> out_key ev l \<in> set (map led_key (db_stock_ledger d'))"
proof -
  have "set (map led_key (db_stock_ledger d')) = set (map led_key (db_stock_ledger d)) \<union> out_key ev ` set ls \<and>
      (\<forall>l \<in> set ls. out_key ev l \<notin> set (map led_key (db_stock_ledger d)))"
    using assms(1,2)
  proof (induction ls arbitrary: d us)
    case (Cons x xs)
    then obtain u t us' where one: "write_outbound_line ev x d = Inr (u, t)"
      and rest: "map_loop (write_outbound_line ev) xs t = Inr (us', d')" by (auto simp: res_simps)
    note K = write_outbound_line_key [OF Cons.prems(1) one]
    from Cons.IH [OF outbound_line.keeps [OF Cons.prems(1) one] rest] K show ?case by auto
  qed simp
  with assms(3) show ?thesis by blast
qed

lemma submit_order_keys:
  assumes ok: "books_ok d" and run: "submit_order_outbound_event now oid w tr remark lines occ d = Inr ((ev, saved), d')"
    and ctx: "load_order_submit_context oid d = Inr ctx" and j: "j < length lines"
  shows "(''OUTBOUND_SHIP'', oc_source_ref ctx, int (Suc j), (w, sl_item_id (lines ! j), sl_lot_id (lines ! j)))
      \<notin> set (map led_key (db_stock_ledger d))" (is "?key \<notin> _")
    and "(''OUTBOUND_SHIP'', oc_source_ref ctx, int (Suc j), (w, sl_item_id (lines ! j), sl_lot_id (lines ! j)))
      \<in> set (map led_key (db_stock_ledger d'))"
    and "db_orders d' = db_orders d"
  using run
proof (atomize (full), rule submit_order_Inr)
  fix ctx' ns d1
  assume ctx': "load_order_submit_context oid d = Inr ctx'" and norm: "normalize_order_submit_lines lines ctx' = Inr ns"
    and wr: "write_event_and_ledger now w ''ORDER'' (oc_source_ref ctx') tr occ remark ns d = Inr ((ev, saved), d1)"
    and tl: "if order_outbound_completed_after_submit ctx' (load_order_submit_progress oid d) ns
       then \<exists>u. hand_over_order ctx' oid ev saved d1 = Inr (u, d') else d' = d1"
  from wr obtain e us where lw: "lines_written w ev ns saved" and ref: "ev_source_ref ev = Some (oc_source_ref ctx')"
    and e: "e = d\<lparr>db_wms_events := db_wms_events d @ [ev], db_outbound_event_lines := db_outbound_event_lines d @ saved\<rparr>"
    and loop: "map_loop (write_outbound_line ev) saved e = Inr (us, d1)" by (rule write_event_Inr)
  have len: "length ns = length lines" "length saved = length lines"
    using normalize_order_Inr(3) [OF norm] lw by (simp_all add: lines_written_def list_all2_conv_all_nth)
  have "map nl_ref_line ns ! j = int (Suc j)" unfolding normalize_order_Inr(2) [OF norm] using j by (simp del: upt_Suc)
  then have "out_key ev (saved ! j) = ?key"
    using j len lw normalize_order_Inr(3) [OF norm] ctx ctx' ref
    by (auto simp: out_key_def line_stock_def lines_written_def text_of_def list_all2_conv_all_nth)
  moreover have "saved ! j \<in> set saved" using j len by simp
  moreover have "books_ok e" using ok by (simp add: e books_defs books_frame)
  ultimately have "?key \<notin> set (map led_key (db_stock_ledger e)) \<and> ?key \<in> set (map led_key (db_stock_ledger d1))"
    using outbound_loop_keys [OF _ loop] by metis
  moreover have "db_stock_ledger e = db_stock_ledger d" by (simp add: e)
  moreover have "db_orders d1 = db_orders d" using write_event_frame [OF wr] by auto
  moreover have "db_stock_ledger d' = db_stock_ledger d1 \<and> db_orders d' = db_orders d1"
    using tl hand_over_order_Inr(1) [of ctx' oid ev saved d1 _ d'] by (auto split: if_splits)
  ultimately show "?key \<notin> set (map led_key (db_stock_ledger d)) \<and> ?key \<in> set (map led_key (db_stock_ledger d')) \<and> db_orders d' = db_orders d"
    by simp
qed

lemma order_context_source_ref:
  assumes "load_order_submit_context oid d = Inr ctx" and "load_order_submit_context oid d' = Inr ctx'" and "db_orders d' = db_orders d"
  shows "oc_source_ref ctx' = oc_source_ref ctx"
  using assms by (auto simp: load_order_submit_context_def load_order_outbound_head_def Let_def res_simps)

text \<open>
  An order cannot be sent out of the same lot twice at the same position. The ledger
  reference is the order and the reference line is the position in the payload, so after a partial submission a
  further submission of the same order from the same warehouse, with the same item and lot at the same position,
  is refused, although the order is not complete.
\<close>

lemma second_submission_same_position_refused:
  assumes "books_ok d" and "submit_order_outbound_event now order_id w trace_id remark lines occ d = Inr ((ev, saved), d')"
    and "j < length lines" and "j < length lines2" and "sl_item_id (lines2 ! j) = sl_item_id (lines ! j)"
    and "sl_lot_id (lines2 ! j) = sl_lot_id (lines ! j)"
  shows "\<exists>e. submit_order_outbound_event now2 order_id w trace_id2 remark2 lines2 occ2 d' = Inl e"
proof (rule ccontr)
  assume "\<not> ?thesis"
  then obtain r d'' where "submit_order_outbound_event now2 order_id w trace_id2 remark2 lines2 occ2 d' = Inr (r, d'')"
    by (cases "submit_order_outbound_event now2 order_id w trace_id2 remark2 lines2 occ2 d'") auto
  then obtain ev2 saved2 where run2: "submit_order_outbound_event now2 order_id w trace_id2 remark2 lines2 occ2 d' = Inr ((ev2, saved2), d'')"
    by (cases r) auto
  obtain ctx where ctx: "load_order_submit_context order_id d = Inr ctx" using assms(2) by (rule submit_order_Inr)
  obtain ctx2 where ctx2: "load_order_submit_context order_id d' = Inr ctx2" using run2 by (rule submit_order_Inr)
  note K1 = submit_order_keys [OF assms(1,2) ctx assms(3)]
  note K2 = submit_order_keys(1) [OF submit_order_stock(1) [OF assms(1,2)] run2 ctx2 assms(4)]
  show False using K1(2) K2 order_context_source_ref [OF ctx ctx2 K1(3)] assms(5,6) by simp
qed

lemma second_submission_same_position_refused_witness:
  "\<exists>r d' e. submit_order_outbound_event 3 7 1 ''T-1'' None [sample_line 70 1 1 2] None sample_order_db = Inr (r, d') \<and>
     submit_order_outbound_event 4 7 1 ''T-2'' None [sample_line 70 1 1 3] None d' = Inl e"
proof -
  have "succeeds (submit_order_outbound_event 3 7 1 ''T-1'' None [sample_line 70 1 1 2] None sample_order_db) (\<lambda>_. True)" by code_simp
  then obtain r d' where run: "submit_order_outbound_event 3 7 1 ''T-1'' None [sample_line 70 1 1 2] None sample_order_db = Inr (r, d')"
    by (blast dest: succeeds_pairD)
  obtain ev saved where r: "r = (ev, saved)" by (cases r)
  have "\<exists>e. submit_order_outbound_event 4 7 1 ''T-2'' None [sample_line 70 1 1 3] None d' = Inl e"
    by (rule second_submission_same_position_refused [OF sample_order_books run [unfolded r], of 0]) (simp_all add: sample_line_def)
  with run show ?thesis by blast
qed

end
