(* ===== verification/Outbound_Docs.thy ===== *)
theory Outbound_Docs
  imports Outbound_Event
begin

text \<open>
  The documents behind an outbound submission: when an order or a manual document is complete
  and handed over to logistics, and the life cycle of manual documents under every operation that
  touches them.
\<close>

section \<open>Orders\<close>

text \<open>
  The order has lines, and the submitted quantity of each, as the code counts it, reaches the ordered one, which is
  positive. The counter adds up the lines of all events, those that a reversal has written included.
\<close>

definition order_fulfilled :: "db \<Rightarrow> int \<Rightarrow> bool" where
  "order_fulfilled d order_id \<longleftrightarrow>
     (\<exists>l \<in> set (db_order_lines d). ol_order_id l = order_id) \<and>
     (\<forall>l \<in> set (db_order_lines d). ol_order_id l = order_id \<longrightarrow> 0 < ol_req_qty l \<and> ol_req_qty l \<le> order_submitted d (ol_id l))"

definition handed_over :: "db \<Rightarrow> source_doc_type \<Rightarrow> int \<Rightarrow> wms_event \<Rightarrow> outbound_event_line list \<Rightarrow> bool" where
  "handed_over d t doc_id ev saved \<longleftrightarrow>
     (\<exists>x \<in> set (db_export_records d). same_doc t doc_id x \<and> xr_export_status x \<in> {EX_PENDING, EX_EXPORTED} \<and>
       (\<exists>p \<in> set (db_handoff_payloads d). hp_export_record_id p = xr_id x \<and> hp_outbound_event_id p = ev_id ev \<and>
          hp_shipment_items p = build_shipment_items saved))"

lemma completed_iff_fulfilled:
  assumes ctx: "load_order_submit_context oid d = Inr ctx"
    and sub: "\<And>i. order_submitted d' i = order_submitted d i + newly_submitted ns i" and ol: "db_order_lines d' = db_order_lines d"
  shows "order_outbound_completed_after_submit ctx (load_order_submit_progress oid d) ns \<longleftrightarrow> order_fulfilled d' oid"
proof -
  let ?ls = "filter (\<lambda>l. ol_order_id l = oid) (db_order_lines d)"
  have lines: "oc_lines ctx = sort_key ol_id ?ls" "oc_lines ctx \<noteq> []"
    using ctx by (auto simp: load_order_submit_context_def load_order_outbound_lines_def Let_def res_simps)
  then have mem: "set (oc_lines ctx) = set ?ls" by simp
  have "(case load_order_submit_progress oid d (ol_id l) of None \<Rightarrow> 0 | Some (_, q) \<Rightarrow> q) = order_submitted d (ol_id l)"
    if "l \<in> set (oc_lines ctx)" for l
    using that find_NoneD [of "\<lambda>x. ol_id x = ol_id l \<and> ol_order_id x = oid" "db_order_lines d" l] unfolding mem
    by (auto simp: load_order_submit_progress_def split: option.splits)
  then have "order_outbound_completed_after_submit ctx (load_order_submit_progress oid d) ns \<longleftrightarrow>
      (\<forall>l \<in> set (oc_lines ctx). 0 < ol_req_qty l \<and> ol_req_qty l \<le> order_submitted d' (ol_id l))"
    using lines(2) by (auto simp: order_outbound_completed_after_submit_def sub Let_def)
  moreover have "\<exists>l \<in> set (db_order_lines d). ol_order_id l = oid"
    using lines(2) mem list.set_sel(1) [of "oc_lines ctx"] by auto
  ultimately show ?thesis unfolding mem order_fulfilled_def ol by auto
qed

text \<open>The hand-over of an order follows the counter.\<close>

lemma hand_over_by_counter:
  assumes "submit_order_outbound_event now order_id w trace_id remark lines occ d = Inr ((ev, saved), d')"
  shows "if order_fulfilled d' order_id then handed_over d' ORDER_OUTBOUND order_id ev saved
         else db_export_records d' = db_export_records d \<and> db_handoff_payloads d' = db_handoff_payloads d"
  using assms
proof (rule submit_order_Inr)
  fix ctx ns d1
  assume ctx: "load_order_submit_context order_id d = Inr ctx" and norm: "normalize_order_submit_lines lines ctx = Inr ns"
    and wr: "write_event_and_ledger now w ''ORDER'' (oc_source_ref ctx) trace_id occ remark ns d = Inr ((ev, saved), d1)"
    and tl: "if order_outbound_completed_after_submit ctx (load_order_submit_progress order_id d) ns
       then \<exists>u. hand_over_order ctx order_id ev saved d1 = Inr (u, d') else d' = d1"
  have lw: "lines_written w ev ns saved" using wr by (rule write_event_Inr)
  have "list_all2 (\<lambda>l n. nl_order_line_id n = Some (sl_line_id l) \<and> nl_qty_outbound n = sl_qty_outbound l) lines ns"
    by (rule list_all2_mono [OF normalize_order_Inr(3) [OF norm]]) auto
  then have "order_submitted d' i = order_submitted d i + newly_submitted ns i" for i
    using saved_submitted(2) [OF lw] submit_order_progress(1) [OF assms, of i] by simp
  note iff = completed_iff_fulfilled [OF ctx this submit_order_progress(2) [OF assms]]
  show ?thesis
  proof (cases "order_fulfilled d' order_id")
    case True
    with tl iff show ?thesis using hand_over_order_Inr(2) by (fastforce simp: handed_over_def)
  next
    case False
    with tl iff have "d' = d1" by simp
    with False show ?thesis using write_event_frame [OF wr] by auto
  qed
qed

section \<open>Manual documents\<close>

lemma hand_over_manual_Inr:
  assumes "hand_over_manual ctx doc_id ev saved d = Inr (u, d')"
  obtains d1 rs ps where "complete_manual_doc doc_id d = Inr ((), d1)" "d' = d1\<lparr>db_export_records := rs, db_handoff_payloads := ps\<rparr>"
    "handed_over d' MANUAL_OUTBOUND doc_id ev saved"
proof -
  from assms obtain d1 rid d2 where c: "complete_manual_doc doc_id d = Inr ((), d1)"
    and up: "upsert_pending_logistics_export_record MANUAL_OUTBOUND doc_id (md_doc_no (mx_doc ctx))
       (''WMS:MANUAL_OUTBOUND:'' @ show_int doc_id) d1 = Inr (rid, d2)"
    and pl: "upsert_logistics_handoff_payload (manual_payload rid doc_id (mx_doc ctx) ev saved d2) d2 = Inr (u, d')"
    by (auto simp: hand_over_manual_def res_simps)
  obtain rs where d2: "d2 = d1\<lparr>db_export_records := rs\<rparr>" using upsert_record_Inr(1) [OF up] by blast
  obtain ps where d': "d' = d2\<lparr>db_handoff_payloads := ps\<rparr>" using upsert_payload_Inr(1) [OF pl] by blast
  from upsert_record_Inr(2) [OF up] obtain x where x: "x \<in> set (db_export_records d2)" "same_doc MANUAL_OUTBOUND doc_id x"
    "xr_id x = rid" "xr_export_status x \<in> {EX_PENDING, EX_EXPORTED}" by blast
  have "handed_over d' MANUAL_OUTBOUND doc_id ev saved"
    unfolding handed_over_def
    by (intro bexI [of _ x] conjI bexI [OF _ upsert_payload_Inr(2) [OF pl]]) (use x d' in \<open>simp_all add: manual_payload_def\<close>)
  then show thesis using c d2 d' by (intro that [of d1 ps rs]) simp_all
qed

lemma hand_over_manual_stock:
  assumes "hand_over_manual ctx doc_id ev saved d = Inr (u, d')"
  shows "books_ok d' = books_ok d \<and> on_hand d' k = on_hand d k \<and> db_outbound_event_lines d' = db_outbound_event_lines d \<and>
      db_manual_lines d' = db_manual_lines d \<and> docs_move d d'"
  using assms
proof (rule hand_over_manual_Inr)
  fix d1 rs ps
  assume c: "complete_manual_doc doc_id d = Inr ((), d1)" and d': "d' = d1\<lparr>db_export_records := rs, db_handoff_payloads := ps\<rparr>"
  obtain ms where d1: "d1 = d\<lparr>db_manual_docs := ms\<rparr>"
    using c unfolding complete_manual_doc_def by (rule update_doc_status_Inr) blast
  have "docs_move d d1" using c unfolding complete_manual_doc_def by (rule update_doc_status_move) (auto intro: doc_step.intros)
  then have "docs_move d d'" by (simp add: docs_move_def d')
  then show ?thesis
    by (simp add: d' d1 books_defs books_frame)
qed

lemma submit_manual_effect:
  assumes ok: "books_ok d" and run: "submit_manual_outbound_event now doc_id tr remark lines occ d = Inr ((ev, saved), d')"
    and ctx: "load_manual_submit_context doc_id d = Inr ctx"
  shows "books_ok d'" and "on_hand d' k = on_hand d k - asked (mx_warehouse_id ctx) lines k"
  using run
proof (atomize (full), rule submit_manual_Inr)
  fix ctx' ns d1
  assume "load_manual_submit_context doc_id d = Inr ctx'" and norm: "normalize_manual_submit_lines lines ctx' = Inr ns"
    and "write_event_and_ledger now (mx_warehouse_id ctx') ''MANUAL'' (mx_source_ref ctx') tr occ remark ns d = Inr ((ev, saved), d1)"
    and tl: "if manual_doc_done doc_id d1 then \<exists>u. hand_over_manual ctx' doc_id ev saved d1 = Inr (u, d') else d' = d1"
  with ctx have wr: "write_event_and_ledger now (mx_warehouse_id ctx) ''MANUAL'' (mx_source_ref ctx) tr occ remark ns d = Inr ((ev, saved), d1)"
    by simp
  have "(\<Sum>n \<leftarrow> ns. if k = (mx_warehouse_id ctx, nl_item_id n, nl_lot_id n) then nl_qty_outbound n else 0) = asked (mx_warehouse_id ctx) lines k"
    by (rule asked_normalized, rule list_all2_mono [OF normalize_manual_Inr(3) [OF norm]]) auto
  then have "books_ok d1" "on_hand d1 k = on_hand d k - asked (mx_warehouse_id ctx) lines k"
    using write_event_effect [OF ok wr] by simp_all
  moreover have "books_ok d' = books_ok d1" "on_hand d' k = on_hand d1 k"
    using tl hand_over_manual_stock [of ctx' doc_id ev saved d1 _ d'] by (auto split: if_splits)
  ultimately show "books_ok d' \<and> on_hand d' k = on_hand d k - asked (mx_warehouse_id ctx) lines k" by simp
qed

text \<open>
  Claim C14. Submitting a manual document is exact. A submission succeeds only for a released document
  and keeps the books; every lot of the document's warehouse loses exactly what the payload takes from it, and held that much.
\<close>

theorem manual_submit_exact:
  assumes "books_ok d" and "submit_manual_outbound_event now doc_id trace_id remark lines occ d = Inr ((ev, saved), d')"
  shows "books_ok d' \<and> (\<exists>m \<in> set (db_manual_docs d). md_id m = doc_id \<and> md_status m = MD_RELEASED \<and>
     (\<forall>k. on_hand d' k = on_hand d k - asked (md_warehouse_id m) lines k \<and> asked (md_warehouse_id m) lines k \<le> on_hand d k))"
proof -
  obtain ctx where ctx: "load_manual_submit_context doc_id d = Inr ctx" using assms(2) by (rule submit_manual_Inr)
  have ok': "books_ok d'" by (rule submit_manual_effect(1) [OF assms ctx])
  have "on_hand d' k = on_hand d k - asked (mx_warehouse_id ctx) lines k \<and> asked (mx_warehouse_id ctx) lines k \<le> on_hand d k" for k
    using submit_manual_effect(2) [OF assms ctx, of k] on_hand_nonneg [of d' k] ok' by (simp add: books_ok_def)
  moreover obtain m where "find (\<lambda>m. md_id m = doc_id) (db_manual_docs d) = Some m" "md_status m = MD_RELEASED"
    "mx_warehouse_id ctx = md_warehouse_id m"
    using ctx by (auto simp: load_manual_submit_context_def get_manual_doc_head_def Let_def res_simps)
  ultimately show ?thesis using ok' by (auto dest!: find_SomeD)
qed

definition sample_manual_db :: db where
  "sample_manual_db = sample_db
     \<lparr>db_manual_docs := [\<lparr>md_id = 1, md_warehouse_id = 1, md_doc_no = ''MOB-1'', md_doc_type = ''GIFT'', md_status = MD_RELEASED,
        md_recipient_name = Some ''Wu'', md_receiver_phone = Some ''139'', md_receiver_province = Some ''ZJ'',
        md_receiver_city = Some ''HZ'', md_receiver_district = None, md_receiver_address = Some ''Road 1'',
        md_receiver_postcode = None, md_remark = None\<rparr>],
      db_manual_lines := [\<lparr>ml_id = 4, ml_doc_id = 1, ml_line_no = 1, ml_item_id = 1, ml_item_uom_id = 11, ml_requested_qty = 3\<rparr>]\<rparr>"

theorem manual_submit_exact_witness:
  "\<exists>r d'. submit_manual_outbound_event 3 1 ''T-3'' None [sample_line 4 1 1 3] None sample_manual_db = Inr (r, d') \<and>
     books_ok d' \<and> on_hand d' (1, 1, 1) = 7"
proof -
  let ?run = "submit_manual_outbound_event 3 1 ''T-3'' None [sample_line 4 1 1 3] None sample_manual_db"
  have "succeeds ?run (\<lambda>_. True)" by code_simp
  then obtain r d' where run: "?run = Inr (r, d')" by (blast dest: succeeds_pairD)
  obtain ev saved where r: "r = (ev, saved)" by (cases r)
  have "books_ok sample_manual_db" "on_hand sample_manual_db (1, 1, 1) = 10" "asked 1 [sample_line 4 1 1 3] (1, 1, 1) = 3"
    "\<forall>m \<in> set (db_manual_docs sample_manual_db). md_warehouse_id m = 1" by code_simp+
  with manual_submit_exact [OF _ run [unfolded r]] have "books_ok d' \<and> on_hand d' (1, 1, 1) = 7" by fastforce
  with run show ?thesis by blast
qed

text \<open>
  A frozen warehouse refuses outbound stock: while a count document of the warehouse is FROZEN, neither an
  order nor a manual document of that warehouse can be submitted.
\<close>

lemma frozen_refuses_outbound:
  assumes "frozen w d"
  shows "(\<exists>e. submit_order_outbound_event now order_id w trace_id remark lines occ d = Inl e) \<and>
     (load_manual_submit_context doc_id d = Inr ctx \<longrightarrow> mx_warehouse_id ctx = w \<longrightarrow>
        (\<exists>e. submit_manual_outbound_event now doc_id trace_id remark lines occ d = Inl e))"
proof (intro conjI impI)
  have no: False if "write_event_and_ledger now w st ref tr oc rm ns d = Inr ((ev, saved), d1)" for st ref tr oc rm ns ev saved d1
    using that by (rule write_event_Inr) (use assms in blast)
  show "\<exists>e. submit_order_outbound_event now order_id w trace_id remark lines occ d = Inl e"
  proof (rule refusedI)
    fix x assume "submit_order_outbound_event now order_id w trace_id remark lines occ d = Inr x"
    then show False by (cases x, cases "fst x") (auto elim!: submit_order_Inr dest: no)
  qed
  assume ctx: "load_manual_submit_context doc_id d = Inr ctx" "mx_warehouse_id ctx = w"
  show "\<exists>e. submit_manual_outbound_event now doc_id trace_id remark lines occ d = Inl e"
  proof (rule refusedI)
    fix x assume "submit_manual_outbound_event now doc_id trace_id remark lines occ d = Inr x"
    then show False using ctx(1) by (cases x, cases "fst x") (auto elim!: submit_manual_Inr dest: no [folded ctx(2)])
  qed
qed

lemma frozen_refuses_outbound_witness:
  "\<exists>e. submit_order_outbound_event 3 7 1 ''T-9'' None [sample_line 70 1 1 5] None
     (sample_order_db\<lparr>db_count_docs := [\<lparr>cd_id = 1, cd_count_no = ''CTD-1'', cd_warehouse_id = 1, cd_snapshot_at = 3,
       cd_status = CD_FROZEN, cd_posted_event_id = None, cd_counted_by = None, cd_reviewed_by = None, cd_remark = None,
       cd_created_at = 3, cd_counted_at = None, cd_posted_at = None\<rparr>]\<rparr>) = Inl e"
  by (rule frozen_refuses_outbound [THEN conjunct1]) code_simp

section \<open>Operations on the outbound documents\<close>

datatype outbound_op =
    CreateDoc string manual_doc_in
  | ReleaseDoc int
  | VoidDoc int
  | SubmitManual datetime int string "string option" "submit_line list" "datetime option"
  | SubmitOrder datetime int int string "string option" "submit_line list" "datetime option"

fun run_outbound :: "outbound_op \<Rightarrow> db \<Rightarrow> db result" where
  "run_outbound (CreateDoc no p) d = bindR (create_manual_doc no p d) (\<lambda>(_, d'). Inr d')"
| "run_outbound (ReleaseDoc i) d = bindR (release_manual_doc i d) (\<lambda>(_, d'). Inr d')"
| "run_outbound (VoidDoc i) d = bindR (void_manual_doc i d) (\<lambda>(_, d'). Inr d')"
| "run_outbound (SubmitManual now i tr rm ls occ) d = bindR (submit_manual_outbound_event now i tr rm ls occ d) (\<lambda>(_, d'). Inr d')"
| "run_outbound (SubmitOrder now i w tr rm ls occ) d = bindR (submit_order_outbound_event now i w tr rm ls occ d) (\<lambda>(_, d'). Inr d')"

definition doc_inv :: "db \<Rightarrow> bool" where
  "doc_inv d \<longleftrightarrow> docs_ok d \<and> completed_covered d \<and> released_ready d"

lemma manual_submitted_append:
  assumes "db_outbound_event_lines d' = db_outbound_event_lines d @ saved" and "\<forall>s \<in> set saved. 0 < oel_qty_outbound s"
  shows "manual_submitted d i \<le> manual_submitted d' i"
  using assms sum_where_nonneg [of saved "\<lambda>e. oel_manual_doc_line_id e = Some i" oel_qty_outbound]
  by (force simp: manual_submitted_def)

text \<open>More event lines, the same documents and lines: the invariant holds on.\<close>

lemma doc_inv_more_lines:
  assumes "doc_inv d" and "db_manual_docs d' = db_manual_docs d" and "db_manual_lines d' = db_manual_lines d"
    and "db_outbound_event_lines d' = db_outbound_event_lines d @ saved" and "\<forall>s \<in> set saved. 0 < oel_qty_outbound s"
  shows "doc_inv d'"
  using assms(1) manual_submitted_append [OF assms(4,5)]
  by (force simp: doc_inv_def docs_ok_def completed_covered_def covered_def released_ready_def assms(2,3) intro: order_trans)

lemma doc_inv_write_event:
  assumes "doc_inv d" and wr: "write_event_and_ledger now w st ref tr occ remark ns d = Inr ((ev, saved), d')"
  shows "doc_inv d' \<and> docs_move d d'"
proof -
  have "lines_written w ev ns saved" using wr by (rule write_event_Inr)
  then have "\<forall>s \<in> set saved. 0 < oel_qty_outbound s"
    by (auto simp: lines_written_def list_all2_conv_all_nth in_set_conv_nth)
  moreover from write_event_frame [OF wr] have fr: "db_manual_docs d' = db_manual_docs d"
    "db_manual_lines d' = db_manual_lines d" "db_outbound_event_lines d' = db_outbound_event_lines d @ saved" by auto
  ultimately show ?thesis using doc_inv_more_lines [OF assms(1) fr] docs_move_grow [of d' d "[]"] by simp
qed

lemma doc_inv_frame:
  assumes "db_manual_docs d' = db_manual_docs d" and "db_manual_lines d' = db_manual_lines d"
    and "db_outbound_event_lines d' = db_outbound_event_lines d"
  shows "doc_inv d' = doc_inv d"
  by (simp add: doc_inv_def docs_ok_def completed_covered_def covered_def released_ready_def manual_submitted_def assms)

lemma doc_inv_update:
  assumes inv: "doc_inv d" and run: "update_doc_status doc_id froms st reject d = Inr (u, d')"
    and c: "st = MD_COMPLETED \<Longrightarrow> covered d doc_id"
    and r: "\<And>m. st \<in> {MD_RELEASED, MD_COMPLETED} \<Longrightarrow> m \<in> set (db_manual_docs d) \<Longrightarrow> md_id m = doc_id \<Longrightarrow> md_status m \<in> set froms \<Longrightarrow>
       receiver_complete m \<and> (\<exists>l \<in> set (db_manual_lines d). ml_doc_id l = doc_id)"
  shows "doc_inv d'"
  using run
proof (rule update_doc_status_Inr)
  let ?f = "\<lambda>m. if md_id m = doc_id \<and> md_status m \<in> set froms then m\<lparr>md_status := st\<rparr> else m"
  assume d': "d' = d\<lparr>db_manual_docs := map ?f (db_manual_docs d)\<rparr>"
  have ids: "map md_id (map ?f (db_manual_docs d)) = map md_id (db_manual_docs d)" by simp
  have "docs_ok d'" using inv ids unfolding doc_inv_def docs_ok_def d' by (simp del: map_map)
  moreover have "covered d' = covered d" by (simp add: covered_def d' manual_submitted_def fun_eq_iff)
  then have "completed_covered d'" using inv c by (auto simp: doc_inv_def completed_covered_def d')
  moreover have "released_ready d'"
    using inv r by (auto simp: doc_inv_def released_ready_def receiver_complete_def d')
  ultimately show ?thesis by (simp add: doc_inv_def)
qed

lemma insert_manual_lines:
  assumes "map_loop (insert_manual_line doc_id) nls d = Inr (us, d')"
  shows "\<exists>new. d' = d\<lparr>db_manual_lines := db_manual_lines d @ new\<rparr> \<and> (\<forall>l \<in> set new. ml_doc_id l = doc_id) \<and>
     (distinct (map ml_id (db_manual_lines d)) \<longrightarrow> distinct (map ml_id (db_manual_lines d @ new)))"
  using assms
proof (induction nls arbitrary: d us)
  case Nil
  then show ?case by (intro exI [of _ "[]"]) simp
next
  case (Cons nl nls)
  then obtain u t us' where one: "insert_manual_line doc_id nl d = Inr (u, t)"
    and rest: "map_loop (insert_manual_line doc_id) nls t = Inr (us', d')" by (auto simp: res_simps)
  from one obtain l where t: "t = d\<lparr>db_manual_lines := db_manual_lines d @ [l]\<rparr>" and l: "ml_doc_id l = doc_id"
    "ml_id l = next_id (map ml_id (db_manual_lines d))"
    by (cases nl) (auto simp: insert_manual_line_def)
  from Cons.IH [OF rest] obtain new where "d' = t\<lparr>db_manual_lines := db_manual_lines t @ new\<rparr>"
    "\<forall>l \<in> set new. ml_doc_id l = doc_id"
    "distinct (map ml_id (db_manual_lines t)) \<longrightarrow> distinct (map ml_id (db_manual_lines t @ new))" by blast
  with t l show ?case by (intro exI [of _ "l # new"]) (auto dest: next_id_fresh_row)
qed

lemma doc_inv_create:
  assumes inv: "doc_inv d" and run: "create_manual_doc no p d = Inr (i, d')"
  shows "doc_inv d' \<and> docs_move d d'"
proof -
  let ?i = "next_id (map md_id (db_manual_docs d))"
  from run obtain row us dt n ph pr ct ad where "row = draft_doc ?i no dt n ph pr ct ad p"
    and loop: "map_loop (insert_manual_line ?i) (numbered (mc_lines p)) (d\<lparr>db_manual_docs := db_manual_docs d @ [row]\<rparr>) = Inr (us, d')"
    by (auto simp: create_manual_doc_def Let_def res_simps)
  then have row: "md_id row = ?i" "md_status row = MD_DRAFT" by (simp_all add: draft_doc_def)
  from insert_manual_lines [OF loop] obtain new where
    d': "d' = d\<lparr>db_manual_docs := db_manual_docs d @ [row], db_manual_lines := db_manual_lines d @ new\<rparr>"
    and new: "\<forall>l \<in> set new. ml_doc_id l = ?i"
    and dist: "distinct (map ml_id (db_manual_lines d)) \<longrightarrow> distinct (map ml_id (db_manual_lines d @ new))" by auto
  have fresh: "md_id m \<noteq> ?i" if "m \<in> set (db_manual_docs d)" for m using that by (metis next_id_fresh_row)
  have "docs_ok d'" using inv row dist new by (auto simp: doc_inv_def docs_ok_def d')
  moreover have "covered d' (md_id m)" if "m \<in> set (db_manual_docs d)" "covered d (md_id m)" for m
    using that fresh [of m] new by (auto simp: covered_def d' manual_submitted_def)
  then have "completed_covered d'" using inv row by (auto simp: doc_inv_def completed_covered_def d')
  moreover have "released_ready d'" using inv row by (fastforce simp: doc_inv_def released_ready_def d')
  moreover have "docs_move d d'" by (rule docs_move_grow [of _ _ "[row]"]) (simp add: d')
  ultimately show ?thesis by (simp add: doc_inv_def)
qed

lemma doc_inv_submit_manual:
  assumes inv: "doc_inv d" and run: "submit_manual_outbound_event now doc_id tr remark lines occ d = Inr ((ev, saved), d')"
  shows "doc_inv d' \<and> docs_move d d'"
  using run
proof (rule submit_manual_Inr)
  fix ctx ns d1
  assume wr: "write_event_and_ledger now (mx_warehouse_id ctx) ''MANUAL'' (mx_source_ref ctx) tr occ remark ns d = Inr ((ev, saved), d1)"
    and tl: "if manual_doc_done doc_id d1 then \<exists>u. hand_over_manual ctx doc_id ev saved d1 = Inr (u, d') else d' = d1"
  note one = doc_inv_write_event [OF inv wr]
  show ?thesis
  proof (cases "manual_doc_done doc_id d1")
    case False
    with tl one show ?thesis by simp
  next
    case True
    with tl obtain u where ho: "hand_over_manual ctx doc_id ev saved d1 = Inr (u, d')" by auto
    have cov: "covered d1 doc_id"
      using True by (intro progress_all_covered) (auto simp: manual_doc_done_def Let_def)
    from write_event_frame [OF wr] have docs: "db_manual_docs d1 = db_manual_docs d" by auto
    from ho show ?thesis
    proof (rule hand_over_manual_Inr)
      fix d2 rs ps
      assume c: "complete_manual_doc doc_id d1 = Inr ((), d2)" and d': "d' = d2\<lparr>db_export_records := rs, db_handoff_payloads := ps\<rparr>"
      have "doc_inv d2"
        by (rule doc_inv_update [OF _ c [unfolded complete_manual_doc_def]])
          (use one cov in \<open>auto simp: covered_def doc_inv_def released_ready_def\<close>)
      then have "doc_inv d'" using doc_inv_frame [of d' d2] by (simp add: d')
      moreover have "docs_move d d'" using hand_over_manual_stock [OF ho] docs by (simp add: docs_move_def)
      ultimately show ?thesis by simp
    qed
  qed
qed

lemma doc_inv_submit_order:
  assumes inv: "doc_inv d" and run: "submit_order_outbound_event now oid w tr remark lines occ d = Inr ((ev, saved), d')"
  shows "doc_inv d' \<and> docs_move d d'"
  using run
proof (rule submit_order_Inr)
  fix ctx ns d1
  assume wr: "write_event_and_ledger now w ''ORDER'' (oc_source_ref ctx) tr occ remark ns d = Inr ((ev, saved), d1)"
    and tl: "if order_outbound_completed_after_submit ctx (load_order_submit_progress oid d) ns
       then \<exists>u. hand_over_order ctx oid ev saved d1 = Inr (u, d') else d' = d1"
  have "db_manual_docs d' = db_manual_docs d1" "db_manual_lines d' = db_manual_lines d1"
    "db_outbound_event_lines d' = db_outbound_event_lines d1"
    using tl hand_over_order_Inr(1) [of ctx oid ev saved d1 _ d'] by (auto split: if_splits)
  then show ?thesis using doc_inv_write_event [OF inv wr] doc_inv_frame [of d' d1] by (simp add: docs_move_def)
qed

lemma doc_inv_release:
  assumes inv: "doc_inv d" and run: "release_manual_doc i d = Inr (u, d')"
  shows "doc_inv d' \<and> docs_move d d'"
proof -
  from run obtain head where line: "\<exists>l \<in> set (db_manual_lines d). ml_doc_id l = i"
    and head: "find (\<lambda>m. md_id m = i) (db_manual_docs d) = Some head" and rc: "receiver_complete head"
    and upd: "update_doc_status i [MD_DRAFT] MD_RELEASED ''manual_doc_release_reject'' d = Inr (u, d')"
    by (auto simp: release_manual_doc_def res_simps)
  have "m = head" if "m \<in> set (db_manual_docs d)" "md_id m = i" for m
    using that find_SomeD [OF head] inv distinct_key_unique [of md_id "db_manual_docs d" m head] by (simp add: doc_inv_def docs_ok_def)
  then have "doc_inv d'" using line rc by (intro doc_inv_update [OF inv upd]) auto
  moreover have "docs_move d d'" using upd by (rule update_doc_status_move) (auto intro: doc_step.intros)
  ultimately show ?thesis by simp
qed

lemma doc_inv_void:
  assumes inv: "doc_inv d" and run: "void_manual_doc i d = Inr (u, d')"
  shows "doc_inv d' \<and> docs_move d d'"
  using doc_inv_update [OF inv run [unfolded void_manual_doc_def]] update_doc_status_move [OF run [unfolded void_manual_doc_def]]
  by (auto intro: doc_step.intros)

lemma doc_inv_op: "doc_inv d \<Longrightarrow> run_outbound op d = Inr d' \<Longrightarrow> doc_inv d' \<and> docs_move d d'"
  by (cases op)
    (auto simp: res_simps dest: doc_inv_create doc_inv_release doc_inv_void doc_inv_submit_manual doc_inv_submit_order)

lemma doc_moves_trans: "doc_moves a b \<Longrightarrow> doc_moves b c \<Longrightarrow> doc_moves a c"
  unfolding doc_moves_def by (metis manual_doc.surjective manual_doc.update_convs(5) rtranclp_trans)

lemma doc_moves_final: "doc_moves m m' \<Longrightarrow> md_status m \<in> {MD_COMPLETED, MD_VOIDED} \<Longrightarrow> m' = m"
  unfolding doc_moves_def using doc_steps_final [of "md_status m" "md_status m'"]
  by (metis manual_doc.surjective manual_doc.update_convs(5))

end
