(* ===== verification/Reversal.thy ===== *)
theory Reversal
  imports Inbound_Commit Outbound_Docs "HOL-Library.Multiset"
begin

text \<open>
  Reversals, \<open>app/wms/inventory_adjustment/inbound_reversal/\<close> and \<open>outbound_reversal/\<close>: a committed
  event is taken back by an event of kind REVERSAL that books the opposite of every line, and the
  original becomes SUPERSEDED. Event numbers and trace ids come from the caller; the lists of
  options (read-only, by commit time) and the display snapshots are left out.
\<close>

record reversal_in =
  rv_occurred_at :: datetime
  rv_operator_name :: string
  rv_remark :: "string option"

section \<open>inbound\_reversal\_repo.py\<close>

record event_header =
  eh_event :: wms_event
  eh_line_count :: int
  eh_qty_total :: int

definition inbound_lines_of :: "int \<Rightarrow> db \<Rightarrow> inbound_event_line list" where
  "inbound_lines_of event_id d = filter (\<lambda>l. iel_event_id l = event_id) (db_inbound_event_lines d)"

definition get_inbound_event_header :: "int \<Rightarrow> db \<Rightarrow> event_header option" where
  "get_inbound_event_header event_id d =
     map_option (\<lambda>e. \<lparr>eh_event = e, eh_line_count = int (length (inbound_lines_of event_id d)),
                      eh_qty_total = sum_list (map iel_qty_base (inbound_lines_of event_id d))\<rparr>)
       (find (\<lambda>e. ev_id e = event_id \<and> ev_type e = EV_INBOUND) (db_wms_events d))"

definition get_inbound_event_for_reversal :: "int \<Rightarrow> db \<Rightarrow> event_header result" where
  "get_inbound_event_for_reversal event_id d =
     bindR (require_some (get_inbound_event_header event_id d) (HTTPException 404 ''inbound_event_not_found'')) (\<lambda>row.
     bindR (ensure (ev_kind (eh_event row) = EV_COMMIT) (HTTPException 409 ''inbound_event_not_reversible_kind'')) (\<lambda>_.
     bindR (ensure (ev_status (eh_event row) = EV_COMMITTED) (HTTPException 409 ''inbound_event_not_reversible_status'')) (\<lambda>_.
     Inr row)))"

definition find_committed_inbound_reversal :: "int \<Rightarrow> db \<Rightarrow> wms_event option" where
  "find_committed_inbound_reversal target d =
     first_by (\<lambda>e. - ev_id e)
       (\<lambda>e. ev_type e = EV_INBOUND \<and> ev_kind e = EV_REVERSAL \<and> ev_target_event_id e = Some target \<and> ev_status e = EV_COMMITTED)
       (db_wms_events d)"

definition list_inbound_event_lines_for_reversal :: "int \<Rightarrow> bool \<Rightarrow> db \<Rightarrow> inbound_event_line list result" where
  "list_inbound_event_lines_for_reversal event_id require_nonempty d =
     (let rows = sort_key (\<lambda>l. (iel_line_no l, iel_id l)) (inbound_lines_of event_id d)
      in bindR (ensure (\<not> (require_nonempty \<and> rows = [])) (HTTPException 409 ''inbound_event_has_no_lines'')) (\<lambda>_. Inr rows))"

definition supersede :: "event_type \<Rightarrow> int \<Rightarrow> db \<Rightarrow> db" where
  "supersede ty event_id d =
     d\<lparr>db_wms_events := map (\<lambda>e. if ev_id e = event_id \<and> ev_type e = ty \<and> ev_kind e = EV_COMMIT \<and> ev_status e = EV_COMMITTED
          then e\<lparr>ev_status := EV_SUPERSEDED\<rparr> else e) (db_wms_events d)\<rparr>"

definition mark_inbound_event_superseded :: "int \<Rightarrow> db \<Rightarrow> db" where
  "mark_inbound_event_superseded event_id d = supersede EV_INBOUND event_id d"

section \<open>inbound\_reversal\_service.py\<close>

definition inbound_non_reversible_reason :: "event_header \<Rightarrow> db \<Rightarrow> string option" where
  "inbound_non_reversible_reason header d =
     (let e = eh_event header
      in if ev_kind e \<noteq> EV_COMMIT then Some ''event kind not reversible''
         else if ev_status e \<noteq> EV_COMMITTED then Some ''event status not reversible''
         else case find_committed_inbound_reversal (ev_id e) d of
                Some _ \<Rightarrow> Some ''already reversed''
              | None \<Rightarrow> (case ensure_warehouse_not_frozen (ev_warehouse_id e) d of
                           Inl _ \<Rightarrow> Some ''warehouse frozen by a count document''
                         | Inr _ \<Rightarrow> None))"

record inbound_detail =
  dt_header :: event_header
  dt_reversible :: bool
  dt_reason :: "string option"
  dt_lines :: "inbound_event_line list"

definition get_reversible_inbound_event_detail :: "int \<Rightarrow> db \<Rightarrow> inbound_detail result" where
  "get_reversible_inbound_event_detail event_id d =
     bindR (require_some (get_inbound_event_header event_id d) (HTTPException 404 ''inbound_event_not_found'')) (\<lambda>header.
     bindR (list_inbound_event_lines_for_reversal event_id False d) (\<lambda>rows.
     let reason0 = inbound_non_reversible_reason header d;
         reason = (if rows = [] \<and> reason0 = None then Some ''no lines'' else reason0)
     in Inr \<lparr>dt_header = header, dt_reversible = (reason = None), dt_reason = reason, dt_lines = rows\<rparr>))"

definition reversal_event :: "wms_event \<Rightarrow> reversal_in \<Rightarrow> string \<Rightarrow> string \<Rightarrow> wms_event" where
  "reversal_event original payload trace_id event_no =
     \<lparr>ev_id = 0, ev_no = event_no, ev_type = ev_type original, ev_warehouse_id = ev_warehouse_id original,
      ev_source_type = ev_source_type original, ev_source_ref = norm_text (ev_source_ref original),
      ev_occurred_at = rv_occurred_at payload, ev_trace_id = trace_id, ev_kind = EV_REVERSAL,
      ev_target_event_id = Some (ev_id original), ev_status = EV_COMMITTED,
      ev_remark = (case norm_text (rv_remark payload) of Some r \<Rightarrow> Some r | None \<Rightarrow> Some (''reversal of '' @ ev_no original))\<rparr>"

definition reversal_args ::
  "wms_event \<Rightarrow> wms_event \<Rightarrow> reversal_in \<Rightarrow> string \<Rightarrow> pyval \<Rightarrow> int \<Rightarrow> int \<Rightarrow> int \<Rightarrow> int \<Rightarrow> adjust_args" where
  "reversal_args original event payload sub_reason operator item_id lid line_no delta =
     \<lparr>aa_item_id = item_id, aa_warehouse_id = ev_warehouse_id original, aa_lot_id = Some lid, aa_delta = delta,
      aa_reason = ReasonMovement ADJUSTMENT, aa_ref = ev_no event, aa_ref_line = PInt line_no,
      aa_occurred_at = Some (rv_occurred_at payload),
      aa_meta = Some [(''sub_reason'', PStr sub_reason), (''event_id'', PInt (ev_id event)),
        (''target_event_id'', PInt (ev_id original)), (''source_type'', PStr (ev_source_type original)),
        (''source_ref'', text_value (norm_text (ev_source_ref original))), (''operator_name_snapshot'', operator),
        (''remark'', text_value (norm_text (ev_remark event)))],
      aa_lot_code = None, aa_production_date = None, aa_expiry_date = None, aa_trace_id = Some (ev_trace_id event)\<rparr>"

definition inbound_reversal_args :: "wms_event \<Rightarrow> wms_event \<Rightarrow> reversal_in \<Rightarrow> inbound_event_line \<Rightarrow> adjust_args" where
  "inbound_reversal_args original event payload src =
     reversal_args original event payload ''INBOUND_REVERSAL'' (text_value (norm_text (Some (rv_operator_name payload))))
       (iel_item_id src) (the (iel_lot_id src)) (iel_line_no src) (- iel_qty_base src)"

text \<open>One round of the loop over the source lines.\<close>

definition reverse_inbound_line ::
  "policy_reader \<Rightarrow> datetime \<Rightarrow> wms_event \<Rightarrow> wms_event \<Rightarrow> reversal_in \<Rightarrow> inbound_event_line \<Rightarrow> inbound_event_line action" where
  "reverse_inbound_line pol now original event payload src d =
     bindR (ensure (iel_lot_id src \<noteq> None) (HTTPException 409 ''inbound_event_line_missing_lot'')) (\<lambda>_.
     bindR (ensure (0 < iel_qty_base src) (HTTPException 409 ''inbound_event_line_invalid_qty_base'')) (\<lambda>_.
     bindR (insert_inbound_event_line
       (src\<lparr>iel_id := 0, iel_event_id := ev_id event, iel_lot_code_input := norm_text (iel_lot_code_input src),
            iel_remark := norm_text (iel_remark src)\<rparr>) d) (\<lambda>(_, d1).
     bindR (adjust_lot pol now (inbound_reversal_args original event payload src) d1) (\<lambda>(_, d2).
     Inr (src, d2)))))"

definition reverse_inbound_event ::
  "policy_reader \<Rightarrow> datetime \<Rightarrow> string \<Rightarrow> string \<Rightarrow> int \<Rightarrow> reversal_in \<Rightarrow> (wms_event \<times> inbound_event_line list) action" where
  "reverse_inbound_event pol now trace_id event_no event_id payload d =
     bindR (ensure (find_committed_inbound_reversal event_id d = None) (HTTPException 409 ''inbound_event_already_reversed'')) (\<lambda>_.
     bindR (get_inbound_event_for_reversal event_id d) (\<lambda>header.
     let original = eh_event header
     in bindR (list_inbound_event_lines_for_reversal (ev_id original) True d) (\<lambda>source_lines.
        bindR (ensure_warehouse_not_frozen (ev_warehouse_id original) d) (\<lambda>_.
        bindR (insert_event (reversal_event original payload trace_id event_no) d) (\<lambda>(event, d1).
        bindR (map_loop (reverse_inbound_line pol now original event payload) source_lines d1) (\<lambda>(rows, d2).
        Inr ((event, rows), mark_inbound_event_superseded (ev_id original) d2)))))))"

section \<open>outbound\_reversal\_repo.py\<close>

record outbound_header = event_header +
  oh_reversal_event_id :: "int option"

definition outbound_lines_of :: "int \<Rightarrow> db \<Rightarrow> outbound_event_line list" where
  "outbound_lines_of event_id d = filter (\<lambda>l. oel_event_id l = event_id) (db_outbound_event_lines d)"

definition find_committed_outbound_reversal :: "int \<Rightarrow> db \<Rightarrow> wms_event option" where
  "find_committed_outbound_reversal target d =
     first_by (\<lambda>e. - ev_id e)
       (\<lambda>e. ev_type e = EV_OUTBOUND \<and> ev_kind e = EV_REVERSAL \<and> ev_target_event_id e = Some target \<and> ev_status e = EV_COMMITTED)
       (db_wms_events d)"

definition get_outbound_reversal_detail_header :: "int \<Rightarrow> db \<Rightarrow> outbound_header result" where
  "get_outbound_reversal_detail_header event_id d =
     require_some (map_option (\<lambda>e. \<lparr>eh_event = e, eh_line_count = int (length (outbound_lines_of event_id d)),
                      eh_qty_total = sum_list (map oel_qty_outbound (outbound_lines_of event_id d)),
                      oh_reversal_event_id = map_option ev_id (find_committed_outbound_reversal event_id d)\<rparr>)
       (find (\<lambda>e. ev_id e = event_id \<and> ev_type e = EV_OUTBOUND) (db_wms_events d))) (HTTPException 404 ''outbound_event_not_found'')"

definition get_outbound_event_for_reversal :: "int \<Rightarrow> db \<Rightarrow> wms_event result" where
  "get_outbound_event_for_reversal event_id d =
     bindR (require_some (find (\<lambda>e. ev_id e = event_id \<and> ev_type e = EV_OUTBOUND) (db_wms_events d))
              (HTTPException 404 ''outbound_event_not_found'')) (\<lambda>e.
     bindR (ensure (ev_kind e = EV_COMMIT) (HTTPException 409 ''outbound_event_not_reversible_kind'')) (\<lambda>_.
     bindR (ensure (ev_status e = EV_COMMITTED) (HTTPException 409 ''outbound_event_not_reversible_status'')) (\<lambda>_.
     Inr e)))"

definition list_outbound_event_lines_for_reversal :: "int \<Rightarrow> db \<Rightarrow> outbound_event_line list result" where
  "list_outbound_event_lines_for_reversal event_id d =
     (let rows = sort_key (\<lambda>l. (oel_ref_line l, oel_id l)) (outbound_lines_of event_id d)
      in bindR (ensure (rows \<noteq> []) (HTTPException 409 ''outbound_event_has_no_lines'')) (\<lambda>_. Inr rows))"

definition mark_outbound_event_superseded :: "int \<Rightarrow> db \<Rightarrow> db" where
  "mark_outbound_event_superseded event_id d = supersede EV_OUTBOUND event_id d"

section \<open>outbound\_reversal\_service.py\<close>

definition freeze_non_reversible_reason :: "int \<Rightarrow> db \<Rightarrow> string option" where
  "freeze_non_reversible_reason w d =
     (case ensure_warehouse_not_frozen w d of Inl _ \<Rightarrow> Some ''warehouse frozen by a count document'' | Inr _ \<Rightarrow> None)"

definition outbound_non_reversible_reason :: "outbound_header \<Rightarrow> db \<Rightarrow> string option" where
  "outbound_non_reversible_reason row d =
     (let e = eh_event row
      in if ev_kind e \<noteq> EV_COMMIT then Some ''event kind not reversible''
         else if ev_status e = EV_SUPERSEDED then Some ''already reversed''
         else if ev_status e \<noteq> EV_COMMITTED then Some ''event status not reversible''
         else if oh_reversal_event_id row \<noteq> None then Some ''already reversed''
         else if eh_line_count row \<le> 0 then Some ''no lines''
         else freeze_non_reversible_reason (ev_warehouse_id e) d)"

definition get_outbound_reversal_detail :: "int \<Rightarrow> db \<Rightarrow> (outbound_header \<times> bool \<times> string option \<times> outbound_event_line list) result" where
  "get_outbound_reversal_detail event_id d =
     bindR (get_outbound_reversal_detail_header event_id d) (\<lambda>header.
     bindR (list_outbound_event_lines_for_reversal event_id d) (\<lambda>lines.
     let reason = outbound_non_reversible_reason header d
     in Inr (header, reason = None, reason, lines)))"

definition insert_outbound_row :: "outbound_event_line \<Rightarrow> unit action" where
  "insert_outbound_row l d =
     (let row = l\<lparr>oel_id := next_id (map oel_id (db_outbound_event_lines d))\<rparr>
      in bindR (ensure (outbound_line_checks d row) (IntegrityError ''outbound_event_lines'')) (\<lambda>_.
         Inr ((), d\<lparr>db_outbound_event_lines := db_outbound_event_lines d @ [row]\<rparr>)))"

definition outbound_reversal_args :: "wms_event \<Rightarrow> wms_event \<Rightarrow> reversal_in \<Rightarrow> outbound_event_line \<Rightarrow> adjust_args" where
  "outbound_reversal_args original event payload src =
     reversal_args original event payload ''OUTBOUND_REVERSAL'' (PStr (py_strip (rv_operator_name payload)))
       (oel_item_id src) (oel_lot_id src) (oel_ref_line src) (oel_qty_outbound src)"

text \<open>The column \<open>lot_id\<close> of an outbound line is not null, so its first check never fires.\<close>

definition reverse_outbound_line ::
  "policy_reader \<Rightarrow> datetime \<Rightarrow> wms_event \<Rightarrow> wms_event \<Rightarrow> reversal_in \<Rightarrow> outbound_event_line \<Rightarrow> outbound_event_line action" where
  "reverse_outbound_line pol now original event payload src d =
     bindR (ensure (0 < oel_qty_outbound src) (HTTPException 409 ''outbound_event_line_invalid_qty'')) (\<lambda>_.
     bindR (insert_outbound_row
       (src\<lparr>oel_id := 0, oel_event_id := ev_id event, oel_lot_code_snapshot := norm_text (oel_lot_code_snapshot src),
            oel_remark := norm_text (oel_remark src)\<rparr>) d) (\<lambda>(_, d1).
     bindR (adjust_lot pol now (outbound_reversal_args original event payload src) d1) (\<lambda>(_, d2).
     Inr (src, d2))))"

definition reverse_outbound_event ::
  "policy_reader \<Rightarrow> datetime \<Rightarrow> string \<Rightarrow> string \<Rightarrow> int \<Rightarrow> reversal_in \<Rightarrow> (wms_event \<times> outbound_event_line list) action" where
  "reverse_outbound_event pol now trace_id event_no event_id payload d =
     bindR (ensure (find_committed_outbound_reversal event_id d = None) (HTTPException 409 ''outbound_event_already_reversed'')) (\<lambda>_.
     bindR (get_outbound_event_for_reversal event_id d) (\<lambda>original.
     bindR (list_outbound_event_lines_for_reversal (ev_id original) d) (\<lambda>source_lines.
     bindR (ensure_warehouse_not_frozen (ev_warehouse_id original) d) (\<lambda>_.
     bindR (insert_event (reversal_event original payload trace_id event_no) d) (\<lambda>(event, d1).
     bindR (map_loop (reverse_outbound_line pol now original event payload) source_lines d1) (\<lambda>(rows, d2).
     Inr ((event, rows), mark_outbound_event_superseded (ev_id original) d2)))))))"

section \<open>The lines as bookings\<close>

lemma reversal_args_simps [simp]:
  "aa_delta (reversal_args og e p s nm i l n q) = q" "aa_ref (reversal_args og e p s nm i l n q) = ev_no e"
  "aa_ref_line (reversal_args og e p s nm i l n q) = PInt n" "args_dims (reversal_args og e p s nm i l n q) = (ev_warehouse_id og, i, l)"
  by (simp_all add: reversal_args_def args_dims_def)

interpretation inbound_reversal: line_booking pol now "reverse_inbound_line pol now original event payload"
  "inbound_reversal_args original event payload" iel_line_no "ev_no event"
proof unfold_locales
  fix l d b d'
  assume run: "reverse_inbound_line pol now original event payload l d = Inr (b, d')"
  then obtain n d1 r where ins: "insert_inbound_event_line (l\<lparr>iel_id := 0, iel_event_id := ev_id event,
        iel_lot_code_input := norm_text (iel_lot_code_input l), iel_remark := norm_text (iel_remark l)\<rparr>) d = Inr (n, d1)"
    and adj: "adjust_lot pol now (inbound_reversal_args original event payload l) d1 = Inr (r, d')"
    by (auto simp: reverse_inbound_line_def res_simps)
  have "same_stock d d1" using insert_inbound_event_line_Inr [OF ins] by (auto simp: same_stock_def)
  with adj show "\<exists>e r. same_stock d e \<and> adjust_lot pol now (inbound_reversal_args original event payload l) e = Inr (r, d')" by blast
  from run show "aa_delta (inbound_reversal_args original event payload l) \<noteq> 0"
    by (auto simp: reverse_inbound_line_def res_simps inbound_reversal_args_def)
qed (simp_all add: inbound_reversal_args_def)

interpretation outbound_reversal: line_booking pol now "reverse_outbound_line pol now original event payload"
  "outbound_reversal_args original event payload" oel_ref_line "ev_no event"
proof unfold_locales
  fix l d b d'
  assume run: "reverse_outbound_line pol now original event payload l d = Inr (b, d')"
  then obtain d1 r where ins: "insert_outbound_row (l\<lparr>oel_id := 0, oel_event_id := ev_id event,
        oel_lot_code_snapshot := norm_text (oel_lot_code_snapshot l), oel_remark := norm_text (oel_remark l)\<rparr>) d = Inr ((), d1)"
    and adj: "adjust_lot pol now (outbound_reversal_args original event payload l) d1 = Inr (r, d')"
    by (auto simp: reverse_outbound_line_def res_simps)
  have "same_stock d d1" using ins by (auto simp: insert_outbound_row_def Let_def res_simps same_stock_def)
  with adj show "\<exists>e r. same_stock d e \<and> adjust_lot pol now (outbound_reversal_args original event payload l) e = Inr (r, d')" by blast
  from run show "aa_delta (outbound_reversal_args original event payload l) \<noteq> 0"
    by (auto simp: reverse_outbound_line_def res_simps outbound_reversal_args_def)
qed (simp_all add: outbound_reversal_args_def)

section \<open>The tables of event lines\<close>

text \<open>The keys that the models declare for events and their lines.\<close>

definition event_keys_ok :: "db \<Rightarrow> bool" where
  "event_keys_ok d \<longleftrightarrow>
     distinct (map ev_id (db_wms_events d)) \<and>
     distinct (map (\<lambda>l. (iel_event_id l, iel_line_no l)) (db_inbound_event_lines d)) \<and>
     distinct (map (\<lambda>l. (oel_event_id l, oel_ref_line l)) (db_outbound_event_lines d)) \<and>
     (\<forall>l \<in> set (db_inbound_event_lines d). iel_event_id l \<in> set (map ev_id (db_wms_events d))) \<and>
     (\<forall>l \<in> set (db_outbound_event_lines d). oel_event_id l \<in> set (map ev_id (db_wms_events d)))"

lemma distinct_map_sort_key: "distinct (map f (sort_key k xs)) = distinct (map f xs)"
  by (simp add: distinct_map)

lemma inbound_lines_distinct:
  assumes "event_keys_ok d"
  shows "distinct (map iel_line_no (sort_key k (inbound_lines_of i d)))"
proof -
  have "distinct (map (\<lambda>l. (iel_event_id l, iel_line_no l)) (db_inbound_event_lines d))" using assms by (simp add: event_keys_ok_def)
  then show ?thesis unfolding distinct_map_sort_key by (auto simp: inbound_lines_of_def distinct_map inj_on_def)
qed

lemma outbound_lines_distinct:
  assumes "event_keys_ok d"
  shows "distinct (map oel_ref_line (sort_key k (outbound_lines_of i d)))"
proof -
  have "distinct (map (\<lambda>l. (oel_event_id l, oel_ref_line l)) (db_outbound_event_lines d))" using assms by (simp add: event_keys_ok_def)
  then show ?thesis unfolding distinct_map_sort_key by (auto simp: outbound_lines_of_def distinct_map inj_on_def)
qed

lemma sum_sort_key: "(\<Sum>l \<leftarrow> sort_key k xs. f l) = (\<Sum>l \<leftarrow> xs. f l :: int)"
proof -
  have "mset (map f (sort_key k xs)) = mset (map f xs)" by simp
  then show ?thesis by (metis sum_mset_sum_list)
qed

lemma supersede_frame:
  "same_stock d (supersede ty i d)" "db_inbound_event_lines (supersede ty i d) = db_inbound_event_lines d"
  "db_outbound_event_lines (supersede ty i d) = db_outbound_event_lines d"
  by (simp_all add: supersede_def same_stock_def)

section \<open>What a reversal does\<close>

text \<open>What an event moved, by warehouse, item and lot.\<close>

definition inbound_moved :: "wms_event \<Rightarrow> db \<Rightarrow> dims \<Rightarrow> int" where
  "inbound_moved ev d k =
     (\<Sum>l \<leftarrow> inbound_lines_of (ev_id ev) d. if k = (ev_warehouse_id ev, iel_item_id l, the (iel_lot_id l)) then iel_qty_base l else 0)"

definition outbound_moved :: "wms_event \<Rightarrow> db \<Rightarrow> dims \<Rightarrow> int" where
  "outbound_moved ev d k =
     (\<Sum>l \<leftarrow> outbound_lines_of (ev_id ev) d. if k = line_stock ev l then oel_qty_outbound l else 0)"

lemma reverse_inbound_Inr:
  assumes "reverse_inbound_event pol now tr no i payload d = Inr ((event, rows), d')"
  obtains original d1 d2 where "find_committed_inbound_reversal i d = None" "original \<in> set (db_wms_events d)" "ev_id original = i"
    "ev_type original = EV_INBOUND" "ev_kind original = EV_COMMIT" "ev_status original = EV_COMMITTED"
    "find (\<lambda>e. ev_id e = i \<and> ev_type e = EV_INBOUND) (db_wms_events d) = Some original"
    "inbound_lines_of i d \<noteq> []" "\<not> frozen (ev_warehouse_id original) d"
    "insert_event (reversal_event original payload tr no) d = Inr (event, d1)" "ev_no event = no"
    "map_loop (reverse_inbound_line pol now original event payload)
       (sort_key (\<lambda>l. (iel_line_no l, iel_id l)) (inbound_lines_of i d)) d1 = Inr (rows, d2)"
    "d' = mark_inbound_event_superseded i d2"
proof -
  from assms obtain original d1 d2 where g: "find (\<lambda>e. ev_id e = i \<and> ev_type e = EV_INBOUND) (db_wms_events d) = Some original"
    "find_committed_inbound_reversal i d = None" "ev_kind original = EV_COMMIT" "ev_status original = EV_COMMITTED"
    "\<not> frozen (ev_warehouse_id original) d" and ins: "insert_event (reversal_event original payload tr no) d = Inr (event, d1)"
    and lines: "sort_key (\<lambda>l. (iel_line_no l, iel_id l)) (inbound_lines_of (ev_id original) d) \<noteq> []"
    and loop: "map_loop (reverse_inbound_line pol now original event payload)
       (sort_key (\<lambda>l. (iel_line_no l, iel_id l)) (inbound_lines_of (ev_id original) d)) d1 = Inr (rows, d2)"
    and d': "d' = mark_inbound_event_superseded (ev_id original) d2"
    by (auto simp: reverse_inbound_event_def get_inbound_event_for_reversal_def get_inbound_event_header_def
        list_inbound_event_lines_for_reversal_def Let_def res_simps)
  have o: "original \<in> set (db_wms_events d)" "ev_id original = i" "ev_type original = EV_INBOUND" using find_SomeD [OF g(1)] by auto
  have no: "ev_no event = no" using insert_event_Inr(2) [OF ins] by (simp add: reversal_event_def)
  have ne: "inbound_lines_of i d \<noteq> []" using lines o(2) by auto
  show thesis by (rule that [OF g(2) o g(3,4,1) ne g(5) ins no]) (use loop d' o(2) in simp_all)
qed

lemma reverse_outbound_Inr:
  assumes "reverse_outbound_event pol now tr no i payload d = Inr ((event, rows), d')"
  obtains original d1 d2 where "find_committed_outbound_reversal i d = None" "original \<in> set (db_wms_events d)" "ev_id original = i"
    "ev_type original = EV_OUTBOUND" "ev_kind original = EV_COMMIT" "ev_status original = EV_COMMITTED"
    "find (\<lambda>e. ev_id e = i \<and> ev_type e = EV_OUTBOUND) (db_wms_events d) = Some original"
    "outbound_lines_of i d \<noteq> []" "\<not> frozen (ev_warehouse_id original) d"
    "insert_event (reversal_event original payload tr no) d = Inr (event, d1)" "ev_no event = no"
    "map_loop (reverse_outbound_line pol now original event payload)
       (sort_key (\<lambda>l. (oel_ref_line l, oel_id l)) (outbound_lines_of i d)) d1 = Inr (rows, d2)"
    "d' = mark_outbound_event_superseded i d2"
proof -
  from assms obtain original d1 d2 where g: "find (\<lambda>e. ev_id e = i \<and> ev_type e = EV_OUTBOUND) (db_wms_events d) = Some original"
    "find_committed_outbound_reversal i d = None" "ev_kind original = EV_COMMIT" "ev_status original = EV_COMMITTED"
    "\<not> frozen (ev_warehouse_id original) d" and ins: "insert_event (reversal_event original payload tr no) d = Inr (event, d1)"
    and lines: "sort_key (\<lambda>l. (oel_ref_line l, oel_id l)) (outbound_lines_of (ev_id original) d) \<noteq> []"
    and loop: "map_loop (reverse_outbound_line pol now original event payload)
       (sort_key (\<lambda>l. (oel_ref_line l, oel_id l)) (outbound_lines_of (ev_id original) d)) d1 = Inr (rows, d2)"
    and d': "d' = mark_outbound_event_superseded (ev_id original) d2"
    by (auto simp: reverse_outbound_event_def get_outbound_event_for_reversal_def
        list_outbound_event_lines_for_reversal_def Let_def res_simps)
  have o: "original \<in> set (db_wms_events d)" "ev_id original = i" "ev_type original = EV_OUTBOUND" using find_SomeD [OF g(1)] by auto
  have no: "ev_no event = no" using insert_event_Inr(2) [OF ins] by (simp add: reversal_event_def)
  have ne: "outbound_lines_of i d \<noteq> []" using lines o(2) by auto
  show thesis by (rule that [OF g(2) o g(3,4,1) ne g(5) ins no]) (use loop d' o(2) in simp_all)
qed

lemma insert_event_same_stock: "insert_event e d = Inr (row, d') \<Longrightarrow> same_stock d d'"
  by (auto simp: same_stock_def dest: insert_event_Inr(1))

lemma reverse_inbound_stock:
  assumes ok: "books_ok d" and keys: "event_keys_ok d" and fresh: "\<forall>r \<in> set (db_stock_ledger d). led_ref r \<noteq> no"
    and o: "find (\<lambda>e. ev_id e = i \<and> ev_type e = EV_INBOUND) (db_wms_events d) = Some original"
    and run: "reverse_inbound_event pol now tr no i payload d = Inr ((event, rows), d')"
  shows "books_ok d'" and "on_hand d' k = on_hand d k - inbound_moved original d k"
  using run
proof (atomize (full), rule reverse_inbound_Inr)
  fix og d1 d2
  let ?ls = "sort_key (\<lambda>l. (iel_line_no l, iel_id l)) (inbound_lines_of i d)"
  let ?f = "\<lambda>l. if k = (ev_warehouse_id original, iel_item_id l, the (iel_lot_id l)) then iel_qty_base l else 0"
  assume og: "find (\<lambda>e. ev_id e = i \<and> ev_type e = EV_INBOUND) (db_wms_events d) = Some og" "ev_id og = i"
    and ins: "insert_event (reversal_event og payload tr no) d = Inr (event, d1)" and no: "ev_no event = no"
    and loop: "map_loop (reverse_inbound_line pol now og event payload) ?ls d1 = Inr (rows, d2)"
    and d': "d' = mark_inbound_event_superseded i d2"
  have [simp]: "og = original" using og(1) o by simp
  note S = same_stock_books [OF insert_event_same_stock [OF ins]]
  have "\<forall>r \<in> set (db_stock_ledger d1). led_ref r = ev_no event \<longrightarrow> led_ref_line r \<notin> iel_line_no ` set ?ls"
    using fresh insert_event_same_stock [OF ins] no by (simp add: same_stock_def)
  with inbound_reversal.loop_exact [OF _ loop inbound_lines_distinct [OF keys], of k] S ok
  have L: "books_ok d2" "on_hand d2 k = on_hand d k + (\<Sum>l \<leftarrow> ?ls. - ?f l)"
    by (auto simp: inbound_reversal_args_def intro!: arg_cong [of _ _ sum_list] map_cong)
  have "(\<Sum>l \<leftarrow> ?ls. - ?f l) = - inbound_moved original d k"
    unfolding sum_sort_key inbound_moved_def using og(2) by (simp add: uminus_sum_list_map o_def)
  with L show "books_ok d' \<and> on_hand d' k = on_hand d k - inbound_moved original d k"
    by (simp add: d' mark_inbound_event_superseded_def same_stock_books [OF supersede_frame(1)])
qed

lemma reverse_outbound_stock:
  assumes ok: "books_ok d" and keys: "event_keys_ok d" and fresh: "\<forall>r \<in> set (db_stock_ledger d). led_ref r \<noteq> no"
    and o: "find (\<lambda>e. ev_id e = i \<and> ev_type e = EV_OUTBOUND) (db_wms_events d) = Some original"
    and run: "reverse_outbound_event pol now tr no i payload d = Inr ((event, rows), d')"
  shows "books_ok d'" and "on_hand d' k = on_hand d k + outbound_moved original d k"
  using run
proof (atomize (full), rule reverse_outbound_Inr)
  fix og d1 d2
  let ?ls = "sort_key (\<lambda>l. (oel_ref_line l, oel_id l)) (outbound_lines_of i d)"
  let ?f = "\<lambda>l. if k = line_stock original l then oel_qty_outbound l else 0"
  assume og: "find (\<lambda>e. ev_id e = i \<and> ev_type e = EV_OUTBOUND) (db_wms_events d) = Some og" "ev_id og = i"
    and ins: "insert_event (reversal_event og payload tr no) d = Inr (event, d1)" and no: "ev_no event = no"
    and loop: "map_loop (reverse_outbound_line pol now og event payload) ?ls d1 = Inr (rows, d2)"
    and d': "d' = mark_outbound_event_superseded i d2"
  have [simp]: "og = original" using og(1) o by simp
  note S = same_stock_books [OF insert_event_same_stock [OF ins]]
  have "\<forall>r \<in> set (db_stock_ledger d1). led_ref r = ev_no event \<longrightarrow> led_ref_line r \<notin> oel_ref_line ` set ?ls"
    using fresh insert_event_same_stock [OF ins] no by (simp add: same_stock_def)
  with outbound_reversal.loop_exact [OF _ loop outbound_lines_distinct [OF keys], of k] S ok
  have L: "books_ok d2" "on_hand d2 k = on_hand d k + (\<Sum>l \<leftarrow> ?ls. ?f l)"
    by (auto simp: outbound_reversal_args_def line_stock_def intro!: arg_cong [of _ _ sum_list] map_cong)
  have "(\<Sum>l \<leftarrow> ?ls. ?f l) = outbound_moved original d k"
    unfolding sum_sort_key outbound_moved_def using og(2) by simp
  with L show "books_ok d' \<and> on_hand d' k = on_hand d k + outbound_moved original d k"
    by (simp add: d' mark_outbound_event_superseded_def same_stock_books [OF supersede_frame(1)])
qed

section \<open>Keys of events and their lines\<close>

lemma event_keys_frame:
  assumes "db_wms_events d' = db_wms_events d" and "db_inbound_event_lines d' = db_inbound_event_lines d"
    and "db_outbound_event_lines d' = db_outbound_event_lines d"
  shows "event_keys_ok d' = event_keys_ok d"
  by (simp add: event_keys_ok_def assms)

lemma event_keys_only_stock: "only_stock d d' \<Longrightarrow> event_keys_ok d' = event_keys_ok d"
  by (rule event_keys_frame) (simp_all add: only_stock_simps)

lemma new_event_keys:
  assumes "event_keys_ok d" and "ev_id ev = next_id (map ev_id (db_wms_events d))"
  shows "event_keys_ok (d\<lparr>db_wms_events := db_wms_events d @ [ev]\<rparr>)"
  using assms by (auto simp: event_keys_ok_def)

lemma insert_event_keys: "event_keys_ok d \<Longrightarrow> insert_event e d = Inr (ev, d') \<Longrightarrow> event_keys_ok d'"
  using insert_event_Inr(1,2) [of e d ev d'] new_event_keys [of d ev] by simp

lemma insert_inbound_line_keys:
  assumes "insert_inbound_event_line l d = Inr (n, d')"
  shows "db_inbound_event_lines d' = db_inbound_event_lines d @ [l\<lparr>iel_id := n\<rparr>]" and "event_keys_ok d \<Longrightarrow> event_keys_ok d'"
proof -
  show d': "db_inbound_event_lines d' = db_inbound_event_lines d @ [l\<lparr>iel_id := n\<rparr>]"
    using assms by (auto simp: insert_inbound_event_line_def Let_def res_simps)
  have "\<not> (\<exists>x \<in> set (db_inbound_event_lines d). iel_event_id x = iel_event_id l \<and> iel_line_no x = iel_line_no l)"
    "iel_event_id l \<in> set (map ev_id (db_wms_events d))"
    using assms by (auto simp: insert_inbound_event_line_def Let_def res_simps event_fk_def)
  then show "event_keys_ok d \<Longrightarrow> event_keys_ok d'"
    using insert_inbound_event_line_Inr [OF assms] d' by (auto simp: event_keys_ok_def image_iff)
qed

lemma insert_outbound_row_keys:
  assumes "insert_outbound_row l d = Inr (u, d')"
  shows "\<exists>n. d' = d\<lparr>db_outbound_event_lines := db_outbound_event_lines d @ [l\<lparr>oel_id := n\<rparr>]\<rparr>" and "event_keys_ok d \<Longrightarrow> event_keys_ok d'"
proof -
  from assms obtain n where d': "d' = d\<lparr>db_outbound_event_lines := db_outbound_event_lines d @ [l\<lparr>oel_id := n\<rparr>]\<rparr>"
    and key: "(oel_event_id l, oel_ref_line l) \<notin> set (map (\<lambda>x. (oel_event_id x, oel_ref_line x)) (db_outbound_event_lines d))"
    and fk: "oel_event_id l \<in> set (map ev_id (db_wms_events d))"
    by (auto simp: insert_outbound_row_def Let_def res_simps outbound_line_checks_def)
  from d' show "\<exists>n. d' = d\<lparr>db_outbound_event_lines := db_outbound_event_lines d @ [l\<lparr>oel_id := n\<rparr>]\<rparr>" by blast
  from key fk show "event_keys_ok d \<Longrightarrow> event_keys_ok d'" by (simp add: event_keys_ok_def d')
qed

lemma supersede_keys: "event_keys_ok (supersede ty i d) = event_keys_ok d"
proof -
  have "map ev_id (db_wms_events (supersede ty i d)) = map ev_id (db_wms_events d)" by (simp add: supersede_def)
  then show ?thesis unfolding event_keys_ok_def supersede_frame by simp
qed

lemma reverse_inbound_line_keys:
  assumes "reverse_inbound_line pol now og ev payload l d = Inr (b, d')"
  shows "db_wms_events d' = db_wms_events d \<and> (event_keys_ok d \<longrightarrow> event_keys_ok d') \<and> db_count_docs d' = db_count_docs d"
proof -
  from assms obtain x n d1 r where ins: "insert_inbound_event_line x d = Inr (n, d1)"
    and adj: "adjust_lot pol now (inbound_reversal_args og ev payload l) d1 = Inr (r, d')"
    by (auto simp: reverse_inbound_line_def res_simps)
  note os = adjust_lot_only_stock [OF adj]
  show ?thesis using insert_inbound_event_line_Inr [OF ins] insert_inbound_line_keys(2) [OF ins] event_keys_only_stock [OF os]
    only_stock_simps(3,10) [OF os] by auto
qed

lemma reverse_outbound_line_keys:
  assumes "reverse_outbound_line pol now og ev payload l d = Inr (b, d')"
  shows "db_wms_events d' = db_wms_events d \<and> (event_keys_ok d \<longrightarrow> event_keys_ok d') \<and> db_order_lines d' = db_order_lines d \<and>
     (\<exists>row. db_outbound_event_lines d' = db_outbound_event_lines d @ [row] \<and> oel_order_line_id row = oel_order_line_id l \<and>
        oel_qty_outbound row = oel_qty_outbound l)"
proof -
  from assms obtain d1 r where ins: "insert_outbound_row (l\<lparr>oel_id := 0, oel_event_id := ev_id ev,
        oel_lot_code_snapshot := norm_text (oel_lot_code_snapshot l), oel_remark := norm_text (oel_remark l)\<rparr>) d = Inr ((), d1)"
    and adj: "adjust_lot pol now (outbound_reversal_args og ev payload l) d1 = Inr (r, d')"
    by (auto simp: reverse_outbound_line_def res_simps)
  note os = adjust_lot_only_stock [OF adj]
  obtain n where d1: "d1 = d\<lparr>db_outbound_event_lines := db_outbound_event_lines d @ [l\<lparr>oel_id := 0, oel_event_id := ev_id ev,
        oel_lot_code_snapshot := norm_text (oel_lot_code_snapshot l), oel_remark := norm_text (oel_remark l)\<rparr>\<lparr>oel_id := n\<rparr>]\<rparr>"
    using insert_outbound_row_keys(1) [OF ins] by blast
  show ?thesis using insert_outbound_row_keys(2) [OF ins] event_keys_only_stock [OF os] only_stock_simps(3,5,7) [OF os] by (simp add: d1)
qed

lemma reverse_inbound_once:
  assumes "event_keys_ok d" and "reverse_inbound_event pol now tr no i payload d = Inr ((event, rows), d')"
  shows "event_keys_ok d' \<and> find_committed_inbound_reversal i d' \<noteq> None"
  using assms(2)
proof (rule reverse_inbound_Inr)
  fix og d1 d2
  assume og: "ev_id og = i" "ev_type og = EV_INBOUND" and ins: "insert_event (reversal_event og payload tr no) d = Inr (event, d1)"
    and loop: "map_loop (reverse_inbound_line pol now og event payload)
       (sort_key (\<lambda>l. (iel_line_no l, iel_id l)) (inbound_lines_of i d)) d1 = Inr (rows, d2)"
    and d': "d' = mark_inbound_event_superseded i d2"
  have ev: "event \<in> set (db_wms_events d1)" "ev_type event = EV_INBOUND" "ev_kind event = EV_REVERSAL"
    "ev_target_event_id event = Some i" "ev_status event = EV_COMMITTED"
    using insert_event_Inr(1,2) [OF ins] og by (auto simp: reversal_event_def)
  have "db_wms_events d2 = db_wms_events d1 \<and> (event_keys_ok d1 \<longrightarrow> event_keys_ok d2)"
    by (rule map_loop_invariant [where I = "\<lambda>t. db_wms_events t = db_wms_events d1 \<and> (event_keys_ok d1 \<longrightarrow> event_keys_ok t)", OF _ _ loop])
      (auto dest: reverse_inbound_line_keys)
  moreover from this ev have "event \<in> set (db_wms_events d')"
    by (force simp: d' mark_inbound_event_superseded_def supersede_def)
  ultimately show ?thesis
    using ev(2-) insert_event_keys [OF assms(1) ins]
    by (auto simp: d' mark_inbound_event_superseded_def supersede_keys find_committed_inbound_reversal_def first_by_None)
qed

lemma reverse_outbound_once:
  assumes "event_keys_ok d" and "reverse_outbound_event pol now tr no i payload d = Inr ((event, rows), d')"
  shows "event_keys_ok d' \<and> find_committed_outbound_reversal i d' \<noteq> None"
  using assms(2)
proof (rule reverse_outbound_Inr)
  fix og d1 d2
  assume og: "ev_id og = i" "ev_type og = EV_OUTBOUND" and ins: "insert_event (reversal_event og payload tr no) d = Inr (event, d1)"
    and loop: "map_loop (reverse_outbound_line pol now og event payload)
       (sort_key (\<lambda>l. (oel_ref_line l, oel_id l)) (outbound_lines_of i d)) d1 = Inr (rows, d2)"
    and d': "d' = mark_outbound_event_superseded i d2"
  have ev: "event \<in> set (db_wms_events d1)" "ev_type event = EV_OUTBOUND" "ev_kind event = EV_REVERSAL"
    "ev_target_event_id event = Some i" "ev_status event = EV_COMMITTED"
    using insert_event_Inr(1,2) [OF ins] og by (auto simp: reversal_event_def)
  have "db_wms_events d2 = db_wms_events d1 \<and> (event_keys_ok d1 \<longrightarrow> event_keys_ok d2)"
    by (rule map_loop_invariant [where I = "\<lambda>t. db_wms_events t = db_wms_events d1 \<and> (event_keys_ok d1 \<longrightarrow> event_keys_ok t)", OF _ _ loop])
      (auto dest: reverse_outbound_line_keys)
  moreover from this ev have "event \<in> set (db_wms_events d')"
    by (force simp: d' mark_outbound_event_superseded_def supersede_def)
  ultimately show ?thesis
    using ev(2-) insert_event_keys [OF assms(1) ins]
    by (auto simp: d' mark_outbound_event_superseded_def supersede_keys find_committed_outbound_reversal_def first_by_None)
qed

end
