(* ===== verification/Reversal_Laws.thy ===== *)
theory Reversal_Laws
  imports Reversal
begin

text \<open>
  The properties of the reversals: what a reversal moves, that it happens once, that a commit and its
  reversal cancel, that the detail view announces exactly what the reversal accepts, and what a reversal of
  an outbound event does to the progress of its order.
\<close>

section \<open>The lines that an inbound commit leaves\<close>

lemma commit_step_lines:
  assumes "commit_line_step pol now p ev l d = Inr (r, d')"
  shows "db_wms_events d' = db_wms_events d \<and> (event_keys_ok d \<longrightarrow> event_keys_ok d') \<and>
     (\<exists>row. db_inbound_event_lines d' = db_inbound_event_lines d @ [row] \<and> iel_event_id row = ev_id ev \<and> iel_item_id row = rl_item_id l \<and>
        iel_lot_id row = rl_lot_id l \<and> iel_qty_base row = rl_qty_base l)"
proof -
  from assms obtain x n d1 where ins: "insert_inbound_event_line x d = Inr (n, d1)"
    and x: "iel_event_id x = ev_id ev" "iel_item_id x = rl_item_id l" "iel_lot_id x = rl_lot_id l" "iel_qty_base x = rl_qty_base l"
    and adj: "adjust_lot pol now (line_adjust_args p ev l) d1 = Inr (r, d')"
    by (fastforce simp: commit_line_step_def apply_inbound_stock_def res_simps)
  note os = adjust_lot_only_stock [OF adj] and K = insert_inbound_line_keys [OF ins]
  have "db_wms_events d1 = db_wms_events d" using insert_inbound_event_line_Inr [OF ins] by auto
  with K x show ?thesis using event_keys_only_stock [OF os] only_stock_simps(3,4) [OF os] by (intro conjI exI [of _ "x\<lparr>iel_id := n\<rparr>"]) auto
qed

lemma commit_loop_lines:
  assumes "map_loop (commit_line_step pol now p ev) ls d = Inr (rs, d')"
  shows "db_wms_events d' = db_wms_events d \<and> (event_keys_ok d \<longrightarrow> event_keys_ok d') \<and>
     (\<exists>rows. db_inbound_event_lines d' = db_inbound_event_lines d @ rows \<and>
        list_all2 (\<lambda>l row. iel_event_id row = ev_id ev \<and> iel_item_id row = rl_item_id l \<and> iel_lot_id row = rl_lot_id l \<and>
          iel_qty_base row = rl_qty_base l) ls rows)"
  using assms
proof (induction ls arbitrary: d rs)
  case (Cons l ls)
  from Cons.prems obtain r t rs' where one: "commit_line_step pol now p ev l d = Inr (r, t)"
    and rest: "map_loop (commit_line_step pol now p ev) ls t = Inr (rs', d')" by (auto simp: res_simps)
  from commit_step_lines [OF one] obtain row where row: "db_inbound_event_lines t = db_inbound_event_lines d @ [row]"
    "iel_event_id row = ev_id ev" "iel_item_id row = rl_item_id l" "iel_lot_id row = rl_lot_id l" "iel_qty_base row = rl_qty_base l" by blast
  from Cons.IH [OF rest] obtain rows where "db_inbound_event_lines d' = db_inbound_event_lines t @ rows"
    "list_all2 (\<lambda>l row. iel_event_id row = ev_id ev \<and> iel_item_id row = rl_item_id l \<and> iel_lot_id row = rl_lot_id l \<and>
          iel_qty_base row = rl_qty_base l) ls rows" by blast
  with row have "\<exists>rows. db_inbound_event_lines d' = db_inbound_event_lines d @ rows \<and>
        list_all2 (\<lambda>l row. iel_event_id row = ev_id ev \<and> iel_item_id row = rl_item_id l \<and> iel_lot_id row = rl_lot_id l \<and>
          iel_qty_base row = rl_qty_base l) (l # ls) rows"
    by (intro exI [of _ "row # rows"]) simp
  with commit_step_lines [OF one] Cons.IH [OF rest] show ?case by simp
qed simp

lemma resolve_lines_events:
  assumes "map_loop (resolve_line pms w st) ls d = Inr (rs, d')"
  shows "event_keys_ok d' = event_keys_ok d" and "db_wms_events d' = db_wms_events d" and "db_inbound_event_lines d' = db_inbound_event_lines d"
proof -
  let ?I = "\<lambda>t. db_wms_events t = db_wms_events d \<and> db_inbound_event_lines t = db_inbound_event_lines d \<and>
     db_outbound_event_lines t = db_outbound_event_lines d"
  have "?I d'"
  proof (rule map_loop_invariant [where I = ?I, OF _ _ assms])
    fix x s y s'
    assume I: "?I s" and run: "resolve_line pms w st x s = Inr (y, s')"
    obtain n l where x: "x = (n, l)" by (cases x)
    from resolve_line_Inr [OF run [unfolded x]] obtain lid i where "lot_step w i s lid s'" by blast
    from lot_step_only_lots [OF this] I show "?I s'" by auto
  qed simp
  then show "event_keys_ok d' = event_keys_ok d" "db_wms_events d' = db_wms_events d" "db_inbound_event_lines d' = db_inbound_event_lines d"
    using event_keys_frame [of d' d] by simp_all
qed

text \<open>What the committed event moved, by the lines it left in the table.\<close>

lemma resolved_lots: "map_loop (resolve_line pms w st) (numbered ls) d = Inr (rs, d') \<Longrightarrow> l \<in> set rs \<Longrightarrow> rl_lot_id l \<noteq> None"
proof -
  assume run: "map_loop (resolve_line pms w st) (numbered ls) d = Inr (rs, d')" and l: "l \<in> set rs"
  have "list_all2 (\<lambda>x r. rl_lot_id r \<noteq> None) (numbered ls) rs"
  proof (rule map_loop_list_all2 [OF _ run])
    fix x s r s'
    assume step: "resolve_line pms w st x s = Inr (r, s')"
    obtain n c where x: "x = (n, c)" by (cases x)
    show "rl_lot_id r \<noteq> None" using resolve_line_Inr [OF step [unfolded x]] by auto
  qed
  then have "\<forall>r \<in> set rs. rl_lot_id r \<noteq> None" by (induction rule: list_all2_induct) auto
  with l show ?thesis by blast
qed

lemma find_snoc: "find P xs = None \<Longrightarrow> P y \<Longrightarrow> find P (xs @ [y]) = Some y"
  by (induction xs) (auto split: if_splits)

lemma commit_own_lines:
  assumes keys: "event_keys_ok d" and run: "commit_inbound pms now tr no p d = Inr ((ev, ls), d')"
  shows "inbound_moved ev d' k = (\<Sum>l \<leftarrow> ls. if k = line_dims p l then rl_qty_base l else 0)"
    and "event_keys_ok d'" and "find (\<lambda>e. ev_id e = ev_id ev \<and> ev_type e = EV_INBOUND) (db_wms_events d') = Some ev"
  using run
proof (atomize (full), rule commit_inbound_Inr)
  fix d1 d2 rs
  assume res: "map_loop (resolve_line pms (pl_warehouse_id p) (pl_source_type p)) (numbered (pl_lines p)) d = Inr (ls, d1)"
    and d2: "d2 = d1\<lparr>db_wms_events := db_wms_events d1 @ [ev]\<rparr>"
    and loop: "map_loop (commit_line_step (pms_policy pms) now p ev) ls d2 = Inr (rs, d')"
    and ev: "ev_id ev = next_id (map ev_id (db_wms_events d1))" "ev_type ev = EV_INBOUND" "ev_warehouse_id ev = pl_warehouse_id p"
  let ?C = "\<lambda>l row. iel_event_id row = ev_id ev \<and> iel_item_id row = rl_item_id l \<and> iel_lot_id row = rl_lot_id l \<and> iel_qty_base row = rl_qty_base l"
  note E = resolve_lines_events [OF res] and L = commit_loop_lines [OF loop]
  have k2: "event_keys_ok d2" unfolding d2 by (rule new_event_keys [OF _ ev(1)]) (simp add: E(1) keys)
  from L obtain rows where rows: "db_inbound_event_lines d' = db_inbound_event_lines d @ rows" and corr: "list_all2 ?C ls rows"
    by (auto simp: d2 E(3))
  have old: "iel_event_id l \<noteq> ev_id ev" if "l \<in> set (db_inbound_event_lines d)" for l
    using keys that ev(1) E(2) next_id_fresh [of "map ev_id (db_wms_events d)"] unfolding event_keys_ok_def by metis
  have "list_all2 (\<lambda>l row. iel_event_id row = ev_id ev) ls rows" by (rule list_all2_mono [OF corr]) simp
  then have "\<forall>row \<in> set rows. iel_event_id row = ev_id ev" by (induction rule: list_all2_induct) auto
  with old have own: "inbound_lines_of (ev_id ev) d' = rows" by (auto simp: inbound_lines_of_def rows filter_empty_conv)
  have "list_all2 (\<lambda>l row. ?C l row \<and> rl_lot_id l \<noteq> None) ls rows"
    using corr resolved_lots [OF res] by (auto simp: list_all2_conv_all_nth)
  then have "map (\<lambda>l. if k = line_dims p l then rl_qty_base l else 0) ls =
       map (\<lambda>r. if k = (ev_warehouse_id ev, iel_item_id r, the (iel_lot_id r)) then iel_qty_base r else 0) rows"
    by (intro list_all2_map_eq, elim list_all2_mono) (auto simp: line_dims_def ev(3))
  then have "inbound_moved ev d' k = (\<Sum>l \<leftarrow> ls. if k = line_dims p l then rl_qty_base l else 0)"
    by (simp add: inbound_moved_def own)
  moreover have "event_keys_ok d'" using L k2 by simp
  moreover have "find (\<lambda>e. ev_id e = ev_id ev \<and> ev_type e = EV_INBOUND) (db_wms_events d') = Some ev"
  proof -
    have "ev_id ev \<notin> ev_id ` set (db_wms_events d1)" using ev(1) next_id_fresh_map [of ev_id "db_wms_events d1"] by simp
    then have "find (\<lambda>e. ev_id e = ev_id ev \<and> ev_type e = EV_INBOUND) (db_wms_events d1) = None"
      unfolding find_None_iff by (metis imageI)
    then show ?thesis using L ev(2) by (simp add: d2 find_snoc)
  qed
  ultimately show "inbound_moved ev d' k = (\<Sum>l \<leftarrow> ls. if k = line_dims p l then rl_qty_base l else 0) \<and> event_keys_ok d' \<and>
     find (\<lambda>e. ev_id e = ev_id ev \<and> ev_type e = EV_INBOUND) (db_wms_events d') = Some ev" by simp
qed

lemma commit_stock:
  assumes ok: "books_ok d" and fresh: "\<forall>r \<in> set (db_stock_ledger d). led_ref r \<noteq> no"
    and run: "commit_inbound pms now tr no p d = Inr ((ev, ls), d')"
  shows "books_ok d'" and "on_hand d' k = on_hand d k + (\<Sum>l \<leftarrow> ls. if k = line_dims p l then rl_qty_base l else 0)"
    and "\<forall>r \<in> set (db_stock_ledger d'). r \<in> set (db_stock_ledger d) \<or> led_ref r = no"
  using run
proof (atomize (full), rule commit_inbound_Inr)
  fix d1 d2 rs
  assume res: "map_loop (resolve_line pms (pl_warehouse_id p) (pl_source_type p)) (numbered (pl_lines p)) d = Inr (ls, d1)"
    and d2: "d2 = d1\<lparr>db_wms_events := db_wms_events d1 @ [ev]\<rparr>" and no: "ev_no ev = no"
    and loop: "map_loop (commit_line_step (pms_policy pms) now p ev) ls d2 = Inr (rs, d')"
  note R = resolved_lines [OF res]
  have ok2: "books_ok d2" using R(5) [OF ok] by (simp add: d2 books_defs books_frame)
  have "distinct (map rl_line_no ls)" unfolding R(2) by (simp add: distinct_map inj_on_def)
  moreover have led: "db_stock_ledger d2 = db_stock_ledger d" using R(7) by (simp add: d2)
  ultimately show "books_ok d' \<and> on_hand d' k = on_hand d k + (\<Sum>l \<leftarrow> ls. if k = line_dims p l then rl_qty_base l else 0) \<and>
     (\<forall>r \<in> set (db_stock_ledger d'). r \<in> set (db_stock_ledger d) \<or> led_ref r = no)"
    using commit_booking.loop_exact [OF ok2 loop, of k] commit_booking.loop_rows [OF ok2 loop] fresh no R(6) [of k]
    by (simp add: d2 on_hand_def cong: if_cong)
qed

section \<open>Properties of the reversals\<close>

definition sample_reversal :: reversal_in where
  "sample_reversal = \<lparr>rv_occurred_at = 9, rv_operator_name = ''Wang'', rv_remark = None\<rparr>"

text \<open>
  Claim C19. Reversing an inbound event is exact and happens once. Under a fresh event number, a successful reversal keeps
  the books and takes out of every lot exactly what the event had brought in; every further attempt on the same event is
  refused as already reversed.
\<close>

theorem inbound_reversal_exact:
  assumes "books_ok d" and "event_keys_ok d" and "\<forall>r \<in> set (db_stock_ledger d). led_ref r \<noteq> event_no"
    and "get_inbound_event_header event_id d = Some h"
    and "reverse_inbound_event pol now trace_id event_no event_id payload d = Inr (r, d')"
  shows "books_ok d' \<and> (\<forall>k. on_hand d' k = on_hand d k - inbound_moved (eh_event h) d k) \<and>
     reverse_inbound_event pol' now' trace_id' event_no' event_id payload' d' = Inl (HTTPException 409 ''inbound_event_already_reversed'')"
proof -
  obtain event rows where r: "r = (event, rows)" by (cases r)
  have o: "find (\<lambda>e. ev_id e = event_id \<and> ev_type e = EV_INBOUND) (db_wms_events d) = Some (eh_event h)"
    using assms(4) by (auto simp: get_inbound_event_header_def)
  note S = reverse_inbound_stock [OF assms(1-3) o assms(5) [unfolded r]]
  have "find_committed_inbound_reversal event_id d' \<noteq> None" using reverse_inbound_once [OF assms(2) assms(5) [unfolded r]] by simp
  with S show ?thesis by (auto simp: reverse_inbound_event_def)
qed

text \<open>
  Claim C20. Reversing an outbound event is exact and happens once. Under a fresh event number, a successful reversal keeps
  the books and returns to every lot exactly what the event had taken; every further attempt on the same event is refused
  as already reversed.
\<close>

theorem outbound_reversal_exact:
  assumes "books_ok d" and "event_keys_ok d" and "\<forall>r \<in> set (db_stock_ledger d). led_ref r \<noteq> event_no"
    and "get_outbound_event_for_reversal event_id d = Inr original"
    and "reverse_outbound_event pol now trace_id event_no event_id payload d = Inr (r, d')"
  shows "books_ok d' \<and> (\<forall>k. on_hand d' k = on_hand d k + outbound_moved original d k) \<and>
     reverse_outbound_event pol' now' trace_id' event_no' event_id payload' d' = Inl (HTTPException 409 ''outbound_event_already_reversed'')"
proof -
  obtain event rows where r: "r = (event, rows)" by (cases r)
  have o: "find (\<lambda>e. ev_id e = event_id \<and> ev_type e = EV_OUTBOUND) (db_wms_events d) = Some original"
    using assms(4) by (auto simp: get_outbound_event_for_reversal_def res_simps)
  note S = reverse_outbound_stock [OF assms(1-3) o assms(5) [unfolded r]]
  have "find_committed_outbound_reversal event_id d' \<noteq> None" using reverse_outbound_once [OF assms(2) assms(5) [unfolded r]] by simp
  with S show ?thesis by (auto simp: reverse_outbound_event_def)
qed

text \<open>
  Claim C21. Commit and reversal cancel. When a receipt is committed under a fresh event number and that event is reversed
  under another one, every lot of every warehouse holds what it held before, and the books are kept.
\<close>

theorem commit_then_reversal_restores:
  assumes "books_ok d" and "event_keys_ok d" and "event_no \<noteq> reversal_no"
    and "\<forall>r \<in> set (db_stock_ledger d). led_ref r \<noteq> event_no \<and> led_ref r \<noteq> reversal_no"
    and "commit_inbound pms now trace_id event_no p d = Inr ((ev, ls), d1)"
    and "reverse_inbound_event pol now' trace_id' reversal_no (ev_id ev) payload d1 = Inr (r, d2)"
  shows "books_ok d2 \<and> (\<forall>k. on_hand d2 k = on_hand d k)"
proof -
  obtain event rows where r: "r = (event, rows)" by (cases r)
  have fresh: "\<forall>r \<in> set (db_stock_ledger d). led_ref r \<noteq> event_no" using assms(4) by blast
  note C = commit_stock [OF assms(1) fresh assms(5)] and W = commit_own_lines [OF assms(2,5)]
  have "\<forall>r \<in> set (db_stock_ledger d1). led_ref r \<noteq> reversal_no" using C(3) assms(3,4) by auto
  note S = reverse_inbound_stock [OF C(1) W(2) this W(3) assms(6) [unfolded r]]
  show ?thesis using S C(2) W(1) by simp
qed

lemma sample_inbound_committed:
  "succeeds (commit_inbound sample_pms 0 ''T1'' ''IE-1'' sample_inbound sample_db) (\<lambda>((ev, ls), d1).
     succeeds (reverse_inbound_event sample_policy 9 ''T2'' ''IER-1'' (ev_id ev) sample_reversal d1) (\<lambda>_. True))"
  by code_simp

lemma sample_event_keys: "event_keys_ok sample_db" "event_keys_ok sample_order_db"
  "\<forall>r \<in> set (db_stock_ledger sample_db). led_ref r \<noteq> ''IE-1'' \<and> led_ref r \<noteq> ''IER-1''"
  by code_simp+

theorem commit_then_reversal_restores_witness:
  "\<exists>ev ls d1 r d2. commit_inbound sample_pms 0 ''T1'' ''IE-1'' sample_inbound sample_db = Inr ((ev, ls), d1) \<and>
     reverse_inbound_event sample_policy 9 ''T2'' ''IER-1'' (ev_id ev) sample_reversal d1 = Inr (r, d2) \<and>
     on_hand d2 (1, 2, 2) = on_hand sample_db (1, 2, 2)"
proof -
  obtain x d1 where one: "commit_inbound sample_pms 0 ''T1'' ''IE-1'' sample_inbound sample_db = Inr (x, d1)"
    and two: "case (x, d1) of ((ev, ls), d1) \<Rightarrow>
       succeeds (reverse_inbound_event sample_policy 9 ''T2'' ''IER-1'' (ev_id ev) sample_reversal d1) (\<lambda>_. True)"
    using succeeds_pairD [OF sample_inbound_committed] by blast
  obtain ev ls where x: "x = (ev, ls)" by (cases x)
  from two x obtain r d2 where rev: "reverse_inbound_event sample_policy 9 ''T2'' ''IER-1'' (ev_id ev) sample_reversal d1 = Inr (r, d2)"
    by (auto dest: succeeds_pairD)
  from commit_then_reversal_restores [OF sample_books_ok sample_event_keys(1) _ sample_event_keys(3) one [unfolded x] rev] one x rev
  show ?thesis by auto
qed

definition sample_committed_db :: db where
  "sample_committed_db = (case commit_inbound sample_pms 0 ''T1'' ''IE-1'' sample_inbound sample_db of Inr (_, d) \<Rightarrow> d | Inl _ \<Rightarrow> sample_db)"

theorem inbound_reversal_exact_witness:
  "\<exists>r d'. reverse_inbound_event sample_policy 9 ''T2'' ''IER-1'' 1 sample_reversal sample_committed_db = Inr (r, d') \<and> books_ok d' \<and>
     reverse_inbound_event sample_policy 10 ''T3'' ''IER-2'' 1 sample_reversal d' = Inl (HTTPException 409 ''inbound_event_already_reversed'')"
proof -
  have "succeeds (reverse_inbound_event sample_policy 9 ''T2'' ''IER-1'' 1 sample_reversal sample_committed_db) (\<lambda>_. True)"
    "books_ok sample_committed_db" "event_keys_ok sample_committed_db"
    "\<forall>r \<in> set (db_stock_ledger sample_committed_db). led_ref r \<noteq> ''IER-1''"
    "get_inbound_event_header 1 sample_committed_db \<noteq> None" by code_simp+
  moreover from this(1) obtain r d' where run: "reverse_inbound_event sample_policy 9 ''T2'' ''IER-1'' 1 sample_reversal sample_committed_db = Inr (r, d')"
    by (blast dest: succeeds_pairD)
  ultimately show ?thesis using inbound_reversal_exact [of sample_committed_db "''IER-1''" 1 _ sample_policy 9 "''T2''" sample_reversal r d'] by blast
qed

definition sample_shipped_db :: db where
  "sample_shipped_db = (case submit_order_outbound_event 3 7 1 ''T-9'' None [sample_line 70 1 1 5, sample_line 71 2 2 2] None sample_order_db of
     Inr (_, d) \<Rightarrow> d | Inl _ \<Rightarrow> sample_db)"

lemma sample_shipped_facts:
  "succeeds (reverse_outbound_event sample_policy 9 ''T2'' ''OER-1'' 1 sample_reversal sample_shipped_db) (\<lambda>_. True)"
  "books_ok sample_shipped_db" "event_keys_ok sample_shipped_db"
  "\<forall>r \<in> set (db_stock_ledger sample_shipped_db). led_ref r \<noteq> ''OER-1''"
  "succeeds (get_outbound_event_for_reversal 1 sample_shipped_db) (\<lambda>ev. outbound_moved ev sample_shipped_db (1, 1, 1) = 5)"
  "on_hand sample_shipped_db (1, 1, 1) = 5" "order_submitted sample_shipped_db 70 = 5"
  "sum_where oel_qty_outbound (\<lambda>l. oel_order_line_id l = Some 70) (outbound_lines_of 1 sample_shipped_db) = 5"
  by code_simp+

theorem outbound_reversal_exact_witness:
  "\<exists>r d'. reverse_outbound_event sample_policy 9 ''T2'' ''OER-1'' 1 sample_reversal sample_shipped_db = Inr (r, d') \<and> books_ok d' \<and>
     on_hand d' (1, 1, 1) = 10"
proof -
  obtain r d' where run: "reverse_outbound_event sample_policy 9 ''T2'' ''OER-1'' 1 sample_reversal sample_shipped_db = Inr (r, d')"
    using sample_shipped_facts(1) by (blast dest: succeeds_pairD)
  obtain ev where ev: "get_outbound_event_for_reversal 1 sample_shipped_db = Inr ev" "outbound_moved ev sample_shipped_db (1, 1, 1) = 5"
    using succeedsD [OF sample_shipped_facts(5)] by blast
  from outbound_reversal_exact [OF sample_shipped_facts(2-4) ev(1) run] ev(2) sample_shipped_facts(6) run show ?thesis by simp
qed

lemma reverse_outbound_loop_submitted:
  assumes "map_loop (reverse_outbound_line pol now og ev payload) ls d = Inr (rows, d')"
  shows "order_submitted d' i = order_submitted d i + sum_where oel_qty_outbound (\<lambda>l. oel_order_line_id l = Some i) ls"
  using assms
proof (induction ls arbitrary: d rows)
  case (Cons l ls)
  from Cons.prems obtain r t rs' where one: "reverse_outbound_line pol now og ev payload l d = Inr (r, t)"
    and rest: "map_loop (reverse_outbound_line pol now og ev payload) ls t = Inr (rs', d')" by (auto simp: res_simps)
  from reverse_outbound_line_keys [OF one] obtain row where "db_outbound_event_lines t = db_outbound_event_lines d @ [row]"
    "oel_order_line_id row = oel_order_line_id l" "oel_qty_outbound row = oel_qty_outbound l" by blast
  then have "order_submitted t i = order_submitted d i + (if oel_order_line_id l = Some i then oel_qty_outbound l else 0)"
    by (simp add: order_submitted_def)
  with Cons.IH [OF rest] show ?case by simp
qed simp

text \<open>
  A reversed shipment still counts as sent, twice over. Reversing an outbound event writes its lines again under the
  reversal event, and the progress of an order adds up all outbound lines of any event: the submitted quantity of every
  order line grows by what was taken back instead of falling by it, so the order cannot be sent out again.
\<close>

lemma outbound_reversal_counts_as_submitted:
  assumes "reverse_outbound_event pol now trace_id event_no event_id payload d = Inr (r, d')"
  shows "order_submitted d' line_id =
     order_submitted d line_id + sum_where oel_qty_outbound (\<lambda>l. oel_order_line_id l = Some line_id) (outbound_lines_of event_id d)"
proof -
  obtain event rows where r: "r = (event, rows)" by (cases r)
  from assms [unfolded r] show ?thesis
  proof (rule reverse_outbound_Inr)
    fix og d1 d2
    let ?ls = "sort_key (\<lambda>l. (oel_ref_line l, oel_id l)) (outbound_lines_of event_id d)"
    assume ins: "insert_event (reversal_event og payload trace_id event_no) d = Inr (event, d1)"
      and loop: "map_loop (reverse_outbound_line pol now og event payload) ?ls d1 = Inr (rows, d2)"
      and d': "d' = mark_outbound_event_superseded event_id d2"
    have "sum_where oel_qty_outbound (\<lambda>l. oel_order_line_id l = Some line_id) ?ls =
       sum_where oel_qty_outbound (\<lambda>l. oel_order_line_id l = Some line_id) (outbound_lines_of event_id d)"
      unfolding sum_where_def filter_sort by (rule sum_sort_key)
    moreover have "order_submitted d1 line_id = order_submitted d line_id" using insert_event_Inr(1) [OF ins] by (simp add: order_submitted_def)
    moreover have "order_submitted d' line_id = order_submitted d2 line_id"
      by (simp add: d' order_submitted_def mark_outbound_event_superseded_def supersede_frame)
    ultimately show ?thesis using reverse_outbound_loop_submitted [OF loop, of line_id] by simp
  qed
qed

lemma outbound_reversal_counts_as_submitted_witness:
  "\<exists>r d'. reverse_outbound_event sample_policy 9 ''T2'' ''OER-1'' 1 sample_reversal sample_shipped_db = Inr (r, d') \<and> order_submitted d' 70 = 10"
proof -
  obtain r d' where run: "reverse_outbound_event sample_policy 9 ''T2'' ''OER-1'' 1 sample_reversal sample_shipped_db = Inr (r, d')"
    using sample_shipped_facts(1) by (blast dest: succeeds_pairD)
  from outbound_reversal_counts_as_submitted [OF run, of 70] sample_shipped_facts(7,8) run show ?thesis by simp
qed

text \<open>
  The detail view and the reversal agree. When the view of an inbound event says that it can be reversed, the
  reversal passes all its guards and goes on to write the reversal event and its lines; when the view says that it cannot,
  the reversal is refused with status 409.
\<close>

lemma inbound_detail_decides_reversal:
  assumes "get_reversible_inbound_event_detail event_id d = Inr dt"
  shows "if dt_reversible dt
     then reverse_inbound_event pol now trace_id event_no event_id payload d =
       (let original = eh_event (dt_header dt)
        in bindR (insert_event (reversal_event original payload trace_id event_no) d) (\<lambda>(event, d1).
           bindR (map_loop (reverse_inbound_line pol now original event payload) (dt_lines dt) d1) (\<lambda>(rows, d2).
           Inr ((event, rows), mark_inbound_event_superseded event_id d2))))
     else \<exists>detail. reverse_inbound_event pol now trace_id event_no event_id payload d = Inl (HTTPException 409 detail)"
proof -
  from assms obtain e where e: "find (\<lambda>e. ev_id e = event_id \<and> ev_type e = EV_INBOUND) (db_wms_events d) = Some e" "ev_id e = event_id"
    by (auto simp: get_reversible_inbound_event_detail_def get_inbound_event_header_def res_simps dest: find_SomeD)
  then show ?thesis using assms
    by (auto simp: get_reversible_inbound_event_detail_def get_inbound_event_header_def res_simps Let_def
        inbound_non_reversible_reason_def list_inbound_event_lines_for_reversal_def ensure_not_frozen_eq
        reverse_inbound_event_def get_inbound_event_for_reversal_def ensure_def split: option.splits if_splits)
qed

lemma inbound_detail_decides_reversal_witness:
  "\<exists>detail. reverse_inbound_event sample_policy 9 ''T2'' ''IER-1'' 1 sample_reversal
     (sample_committed_db\<lparr>db_count_docs := db_count_docs sample_frozen_db\<rparr>) = Inl (HTTPException 409 detail)"
proof -
  let ?d = "sample_committed_db\<lparr>db_count_docs := db_count_docs sample_frozen_db\<rparr>"
  have "succeeds (get_reversible_inbound_event_detail 1 ?d) (\<lambda>dt. \<not> dt_reversible dt)" by code_simp
  then obtain dt where "get_reversible_inbound_event_detail 1 ?d = Inr dt" "\<not> dt_reversible dt" using succeedsD by blast
  with inbound_detail_decides_reversal [OF this(1)] show ?thesis by simp
qed

end
