(* ===== verification/Outbound_Life.thy ===== *)
theory Outbound_Life
  imports Reversal_Laws
begin

text \<open>
  Orders and manual documents over every sequence of outbound operations, reversals of outbound events included.
  A reversal writes the lines of the event once more, under the reversal event, and the code counts them as submitted
  too. Here the two are told apart: what the events have sent out, and what reversals have taken back.
\<close>

section \<open>Sent and taken back\<close>

definition event_kinds :: "db \<Rightarrow> (int \<times> event_kind) list" where
  "event_kinds d = map (\<lambda>v. (ev_id v, ev_kind v)) (db_wms_events d)"

text \<open>A line that a reversal has written.\<close>

definition took_back :: "db \<Rightarrow> outbound_event_line \<Rightarrow> bool" where
  "took_back d e \<longleftrightarrow> (oel_event_id e, EV_REVERSAL) \<in> set (event_kinds d)"

definition order_sent :: "db \<Rightarrow> int \<Rightarrow> int" where
  "order_sent d i = sum_where oel_qty_outbound (\<lambda>e. oel_order_line_id e = Some i \<and> \<not> took_back d e) (db_outbound_event_lines d)"

definition order_taken_back :: "db \<Rightarrow> int \<Rightarrow> int" where
  "order_taken_back d i = sum_where oel_qty_outbound (\<lambda>e. oel_order_line_id e = Some i \<and> took_back d e) (db_outbound_event_lines d)"

definition manual_sent :: "db \<Rightarrow> int \<Rightarrow> int" where
  "manual_sent d i = sum_where oel_qty_outbound (\<lambda>e. oel_manual_doc_line_id e = Some i \<and> \<not> took_back d e) (db_outbound_event_lines d)"

definition manual_taken_back :: "db \<Rightarrow> int \<Rightarrow> int" where
  "manual_taken_back d i = sum_where oel_qty_outbound (\<lambda>e. oel_manual_doc_line_id e = Some i \<and> took_back d e) (db_outbound_event_lines d)"

lemma sum_where_split: "sum_where f P xs = sum_where f (\<lambda>x. P x \<and> \<not> Q x) xs + (sum_where f (\<lambda>x. P x \<and> Q x) xs :: int)"
  by (induction xs) auto

lemma submitted_split:
  "order_submitted d i = order_sent d i + order_taken_back d i" "manual_submitted d i = manual_sent d i + manual_taken_back d i"
  unfolding order_submitted_def order_sent_def order_taken_back_def manual_submitted_def manual_sent_def manual_taken_back_def
  by (rule sum_where_split)+

text \<open>The check of the table: an event line has a positive quantity.\<close>

definition positive_lines :: "db \<Rightarrow> bool" where
  "positive_lines d \<longleftrightarrow> (\<forall>e \<in> set (db_outbound_event_lines d). 0 < oel_qty_outbound e)"

lemma taken_back_nonneg: "positive_lines d \<Longrightarrow> 0 \<le> order_taken_back d i"
  unfolding order_taken_back_def positive_lines_def by (rule sum_where_nonneg) (simp add: less_imp_le)

section \<open>What the operations write\<close>

text \<open>A submission writes lines under a new event that is no reversal, a reversal under a new reversal event.\<close>

definition adds_event :: "event_kind \<Rightarrow> db \<Rightarrow> outbound_event_line list \<Rightarrow> db \<Rightarrow> bool" where
  "adds_event kind d saved d' \<longleftrightarrow> (\<exists>i. i \<notin> fst ` set (event_kinds d) \<and> event_kinds d' = event_kinds d @ [(i, kind)] \<and>
     db_outbound_event_lines d' = db_outbound_event_lines d @ saved \<and> (\<forall>s \<in> set saved. oel_event_id s = i \<and> 0 < oel_qty_outbound s))"

lemma adds_event_positive: "adds_event kind d saved d' \<Longrightarrow> positive_lines d \<Longrightarrow> positive_lines d'"
  by (auto simp: adds_event_def positive_lines_def)

lemma adds_commit:
  assumes "adds_event EV_COMMIT d saved d'"
  shows "order_sent d' i = order_sent d i + sum_where oel_qty_outbound (\<lambda>e. oel_order_line_id e = Some i) saved"
    and "order_taken_back d' i = order_taken_back d i"
proof -
  from assms obtain j where j: "j \<notin> fst ` set (event_kinds d)" "event_kinds d' = event_kinds d @ [(j, EV_COMMIT)]"
    and lines: "db_outbound_event_lines d' = db_outbound_event_lines d @ saved" and s: "\<forall>s \<in> set saved. oel_event_id s = j"
    by (auto simp: adds_event_def)
  have same: "took_back d' e = took_back d e" for e using j(2) by (simp add: took_back_def)
  have new: "\<not> took_back d e" if "e \<in> set saved" for e
  proof
    assume "took_back d e"
    then have "(j, EV_REVERSAL) \<in> set (event_kinds d)" using s that by (simp add: took_back_def)
    with j(1) show False by force
  qed
  have "sum_where oel_qty_outbound (\<lambda>e. oel_order_line_id e = Some i \<and> \<not> took_back d e) saved =
      sum_where oel_qty_outbound (\<lambda>e. oel_order_line_id e = Some i) saved"
    by (rule sum_where_cong) (use new in auto)
  then show "order_sent d' i = order_sent d i + sum_where oel_qty_outbound (\<lambda>e. oel_order_line_id e = Some i) saved"
    by (simp add: order_sent_def lines same)
  have "sum_where oel_qty_outbound (\<lambda>e. oel_order_line_id e = Some i \<and> took_back d e) saved = 0"
    by (rule sum_where_none) (use new in auto)
  then show "order_taken_back d' i = order_taken_back d i" by (simp add: order_taken_back_def lines same)
qed

lemma adds_reversal:
  assumes "adds_event EV_REVERSAL d saved d'" and "positive_lines d"
  shows "order_sent d' i \<le> order_sent d i"
proof -
  from assms(1) obtain j where j: "event_kinds d' = event_kinds d @ [(j, EV_REVERSAL)]"
    and lines: "db_outbound_event_lines d' = db_outbound_event_lines d @ saved" and s: "\<forall>s \<in> set saved. oel_event_id s = j"
    by (auto simp: adds_event_def)
  have up: "took_back d e \<Longrightarrow> took_back d' e" for e using j by (auto simp: took_back_def)
  have "sum_where oel_qty_outbound (\<lambda>e. oel_order_line_id e = Some i \<and> \<not> took_back d' e) saved = 0"
    by (rule sum_where_none) (use j s in \<open>auto simp: took_back_def\<close>)
  moreover have "sum_where oel_qty_outbound (\<lambda>e. oel_order_line_id e = Some i \<and> \<not> took_back d' e) ls \<le>
      sum_where oel_qty_outbound (\<lambda>e. oel_order_line_id e = Some i \<and> \<not> took_back d e) ls"
    if "\<forall>e \<in> set ls. 0 < oel_qty_outbound e" for ls
    using that up by (induction ls) (auto intro: add_increasing less_imp_le)
  ultimately show ?thesis using assms(2) by (simp add: order_sent_def lines positive_lines_def)
qed

lemma write_event_adds:
  assumes "write_event_and_ledger now w st ref tr occ remark ns d = Inr ((ev, saved), d')"
  shows "adds_event EV_COMMIT d saved d'"
proof -
  have "ev_id ev \<notin> set (map ev_id (db_wms_events d)) \<and> lines_written w ev ns saved" using assms by (rule write_event_Inr) simp
  moreover have "ev_kind ev = EV_COMMIT"
    using assms insert_event_Inr(2) by (fastforce simp: write_event_and_ledger_def Let_def res_simps insert_outbound_event_def)
  moreover obtain led stk where "d' = d\<lparr>db_wms_events := db_wms_events d @ [ev], db_outbound_event_lines := db_outbound_event_lines d @ saved,
      db_stock_ledger := led, db_stocks_lot := stk\<rparr>" using write_event_frame [OF assms] by blast
  ultimately show ?thesis
    by (auto simp: adds_event_def event_kinds_def lines_written_def image_image list_all2_conv_all_nth in_set_conv_nth)
qed

lemma submit_order_adds:
  assumes "submit_order_outbound_event now oid w tr remark lines occ d = Inr ((ev, saved), d')"
  shows "adds_event EV_COMMIT d saved d'"
    and "sum_where oel_qty_outbound (\<lambda>e. oel_order_line_id e = Some i) saved = asked_line lines i"
  using assms
proof (atomize (full), rule submit_order_Inr)
  fix ctx ns d1
  assume norm: "normalize_order_submit_lines lines ctx = Inr ns"
    and wr: "write_event_and_ledger now w ''ORDER'' (oc_source_ref ctx) tr occ remark ns d = Inr ((ev, saved), d1)"
    and tl: "if order_outbound_completed_after_submit ctx (load_order_submit_progress oid d) ns
       then \<exists>u. hand_over_order ctx oid ev saved d1 = Inr (u, d') else d' = d1"
  have lw: "lines_written w ev ns saved" using wr by (rule write_event_Inr)
  have "list_all2 (\<lambda>l n. nl_order_line_id n = Some (sl_line_id l) \<and> nl_qty_outbound n = sl_qty_outbound l) lines ns"
    by (rule list_all2_mono [OF normalize_order_Inr(3) [OF norm]]) auto
  note S = saved_submitted(1) [OF lw this, of i]
  have "event_kinds d' = event_kinds d1" "db_outbound_event_lines d' = db_outbound_event_lines d1"
    using tl hand_over_order_Inr(1) [of ctx oid ev saved d1 _ d'] by (auto simp: event_kinds_def split: if_splits)
  with write_event_adds [OF wr] have "adds_event EV_COMMIT d saved d'" by (simp add: adds_event_def)
  with S show "adds_event EV_COMMIT d saved d' \<and> sum_where oel_qty_outbound (\<lambda>e. oel_order_line_id e = Some i) saved = asked_line lines i"
    by simp
qed

lemma submit_manual_adds:
  assumes "submit_manual_outbound_event now doc_id tr remark lines occ d = Inr ((ev, saved), d')"
  shows "adds_event EV_COMMIT d saved d'" and "db_order_lines d' = db_order_lines d"
    and "sum_where oel_qty_outbound (\<lambda>e. oel_order_line_id e = Some i) saved = 0"
  using assms
proof (atomize (full), rule submit_manual_Inr)
  fix ctx ns d1
  assume norm: "normalize_manual_submit_lines lines ctx = Inr ns"
    and wr: "write_event_and_ledger now (mx_warehouse_id ctx) ''MANUAL'' (mx_source_ref ctx) tr occ remark ns d = Inr ((ev, saved), d1)"
    and tl: "if manual_doc_done doc_id d1 then \<exists>u. hand_over_manual ctx doc_id ev saved d1 = Inr (u, d') else d' = d1"
  have "lines_written (mx_warehouse_id ctx) ev ns saved" using wr by (rule write_event_Inr)
  with normalize_manual_Inr(3) [OF norm] have "\<forall>e \<in> set saved. oel_order_line_id e = None"
    by (auto simp: lines_written_def list_all2_conv_all_nth in_set_conv_nth)
  then have "sum_where oel_qty_outbound (\<lambda>e. oel_order_line_id e = Some i) saved = 0" by (auto intro: sum_where_none)
  moreover have "event_kinds d' = event_kinds d1 \<and> db_outbound_event_lines d' = db_outbound_event_lines d1 \<and> db_order_lines d' = db_order_lines d1"
  proof (cases "manual_doc_done doc_id d1")
    case True
    with tl obtain u where "hand_over_manual ctx doc_id ev saved d1 = Inr (u, d')" by auto
    then show ?thesis
    proof (rule hand_over_manual_Inr)
      fix d2 rs ps
      assume c: "complete_manual_doc doc_id d1 = Inr ((), d2)" and d': "d' = d2\<lparr>db_export_records := rs, db_handoff_payloads := ps\<rparr>"
      from c obtain ms where "d2 = d1\<lparr>db_manual_docs := ms\<rparr>" unfolding complete_manual_doc_def by (rule update_doc_status_Inr) blast
      with d' show ?thesis by (simp add: event_kinds_def)
    qed
  qed (use tl in simp)
  moreover from write_event_frame [OF wr] have "db_order_lines d1 = db_order_lines d" by auto
  ultimately show "adds_event EV_COMMIT d saved d' \<and> db_order_lines d' = db_order_lines d \<and>
      sum_where oel_qty_outbound (\<lambda>e. oel_order_line_id e = Some i) saved = 0"
    using write_event_adds [OF wr] by (simp add: adds_event_def)
qed

lemma reverse_line_adds:
  assumes "reverse_outbound_line pol now og ev payload l d = Inr (r, d')"
  shows "\<exists>row. db_outbound_event_lines d' = db_outbound_event_lines d @ [row] \<and> oel_event_id row = ev_id ev \<and> 0 < oel_qty_outbound row \<and>
     db_wms_events d' = db_wms_events d \<and> db_order_lines d' = db_order_lines d \<and> db_manual_docs d' = db_manual_docs d \<and> db_manual_lines d' = db_manual_lines d"
proof -
  from assms obtain d1 b where ins: "insert_outbound_row (l\<lparr>oel_id := 0, oel_event_id := ev_id ev,
        oel_lot_code_snapshot := norm_text (oel_lot_code_snapshot l), oel_remark := norm_text (oel_remark l)\<rparr>) d = Inr ((), d1)"
    and pos: "0 < oel_qty_outbound l" and adj: "adjust_lot pol now (outbound_reversal_args og ev payload l) d1 = Inr (b, d')"
    by (auto simp: reverse_outbound_line_def res_simps)
  from adjust_lot_only_stock [OF adj] ins pos show ?thesis
    by (auto simp: only_stock_def insert_outbound_row_def Let_def res_simps)
qed

lemma reverse_loop_adds:
  assumes "map_loop (reverse_outbound_line pol now og ev payload) ls d = Inr (rows, d')"
  shows "\<exists>saved. db_outbound_event_lines d' = db_outbound_event_lines d @ saved \<and> (\<forall>s \<in> set saved. oel_event_id s = ev_id ev \<and> 0 < oel_qty_outbound s) \<and>
     db_wms_events d' = db_wms_events d \<and> db_order_lines d' = db_order_lines d \<and> db_manual_docs d' = db_manual_docs d \<and> db_manual_lines d' = db_manual_lines d"
  using assms
proof (induction ls arbitrary: d rows)
  case (Cons l ls)
  from Cons.prems obtain r t rs where one: "reverse_outbound_line pol now og ev payload l d = Inr (r, t)"
    and rest: "map_loop (reverse_outbound_line pol now og ev payload) ls t = Inr (rs, d')" by (auto simp: res_simps)
  from reverse_line_adds [OF one] obtain row where row: "db_outbound_event_lines t = db_outbound_event_lines d @ [row]" "oel_event_id row = ev_id ev"
    "0 < oel_qty_outbound row" "db_wms_events t = db_wms_events d" "db_order_lines t = db_order_lines d" "db_manual_docs t = db_manual_docs d"
    "db_manual_lines t = db_manual_lines d" by blast
  from Cons.IH [OF rest] obtain saved where "db_outbound_event_lines d' = db_outbound_event_lines t @ saved"
    "\<forall>s \<in> set saved. oel_event_id s = ev_id ev \<and> 0 < oel_qty_outbound s" "db_wms_events d' = db_wms_events t" "db_order_lines d' = db_order_lines t"
    "db_manual_docs d' = db_manual_docs t" "db_manual_lines d' = db_manual_lines t" by blast
  with row show ?case by (intro exI [of _ "row # saved"]) simp
qed simp

lemma reversal_adds:
  assumes "reverse_outbound_event pol now tr no i payload d = Inr (r, d')"
  shows "\<exists>saved. adds_event EV_REVERSAL d saved d'" and "db_order_lines d' = db_order_lines d" and "db_manual_docs d' = db_manual_docs d"
    and "db_manual_lines d' = db_manual_lines d"
proof -
  obtain event rows where r: "r = (event, rows)" by (cases r)
  from assms [unfolded r] have "(\<exists>saved. adds_event EV_REVERSAL d saved d') \<and> db_order_lines d' = db_order_lines d \<and> db_manual_docs d' = db_manual_docs d \<and>
      db_manual_lines d' = db_manual_lines d"
  proof (rule reverse_outbound_Inr)
    fix og d1 d2
    assume ins: "insert_event (reversal_event og payload tr no) d = Inr (event, d1)"
      and loop: "map_loop (reverse_outbound_line pol now og event payload) (sort_key (\<lambda>l. (oel_ref_line l, oel_id l)) (outbound_lines_of i d)) d1 = Inr (rows, d2)"
      and d': "d' = mark_outbound_event_superseded i d2"
    from ins have d1: "d1 = d\<lparr>db_wms_events := db_wms_events d @ [event]\<rparr>" and k: "ev_kind event = EV_REVERSAL"
      and fresh: "ev_id event \<notin> ev_id ` set (db_wms_events d)"
      using insert_event_Inr(1,2) [OF ins] next_id_fresh by (auto simp: reversal_event_def)
    have kinds: "event_kinds d' = event_kinds d2" by (simp add: d' event_kinds_def mark_outbound_event_superseded_def supersede_def)
    from reverse_loop_adds [OF loop] obtain saved where S: "db_outbound_event_lines d2 = db_outbound_event_lines d @ saved"
      "\<forall>s \<in> set saved. oel_event_id s = ev_id event \<and> 0 < oel_qty_outbound s" "db_wms_events d2 = db_wms_events d @ [event]"
      "db_order_lines d2 = db_order_lines d" "db_manual_docs d2 = db_manual_docs d" "db_manual_lines d2 = db_manual_lines d" by (auto simp: d1)
    have "event_kinds d' = event_kinds d @ [(ev_id event, EV_REVERSAL)]" using S(3) k by (simp add: kinds event_kinds_def [of d2] event_kinds_def [of d])
    moreover have "ev_id event \<notin> fst ` set (event_kinds d)" using fresh by (auto simp: event_kinds_def)
    ultimately have "adds_event EV_REVERSAL d saved d'" using S(1,2)
      by (auto simp: adds_event_def d' mark_outbound_event_superseded_def supersede_frame)
    with S(4-6) show ?thesis by (auto simp: d' mark_outbound_event_superseded_def supersede_def)
  qed
  then show "\<exists>saved. adds_event EV_REVERSAL d saved d'" "db_order_lines d' = db_order_lines d" "db_manual_docs d' = db_manual_docs d"
    "db_manual_lines d' = db_manual_lines d" by blast+
qed

lemma doc_ops_frame:
  "create_manual_doc no p d = Inr (i, d') \<Longrightarrow> \<exists>ms ls. d' = d\<lparr>db_manual_docs := ms, db_manual_lines := ls\<rparr>"
  "release_manual_doc k d = Inr (u, d') \<Longrightarrow> \<exists>ms ls. d' = d\<lparr>db_manual_docs := ms, db_manual_lines := ls\<rparr>"
  "void_manual_doc k d = Inr (u, d') \<Longrightarrow> \<exists>ms ls. d' = d\<lparr>db_manual_docs := ms, db_manual_lines := ls\<rparr>"
proof -
  have st: "\<exists>ms ls. d' = d\<lparr>db_manual_docs := ms, db_manual_lines := ls\<rparr>" if "update_doc_status k froms st rej d = Inr (u, d')" for froms st rej
    using that
  proof (rule update_doc_status_Inr)
    assume "d' = d\<lparr>db_manual_docs := map (\<lambda>m. if md_id m = k \<and> md_status m \<in> set froms then m\<lparr>md_status := st\<rparr> else m) (db_manual_docs d)\<rparr>"
    then show ?thesis by (intro exI exI [of _ "db_manual_lines d"]) simp
  qed
  show "\<exists>ms ls. d' = d\<lparr>db_manual_docs := ms, db_manual_lines := ls\<rparr>" if "create_manual_doc no p d = Inr (i, d')"
  proof -
    from that obtain row us where "map_loop (insert_manual_line (next_id (map md_id (db_manual_docs d)))) (numbered (mc_lines p))
        (d\<lparr>db_manual_docs := db_manual_docs d @ [row]\<rparr>) = Inr (us, d')" by (auto simp: create_manual_doc_def Let_def res_simps)
    from insert_manual_lines [OF this] show ?thesis by auto
  qed
  show "\<exists>ms ls. d' = d\<lparr>db_manual_docs := ms, db_manual_lines := ls\<rparr>" if "release_manual_doc k d = Inr (u, d')"
    using that st by (auto simp: release_manual_doc_def res_simps)
  show "\<exists>ms ls. d' = d\<lparr>db_manual_docs := ms, db_manual_lines := ls\<rparr>" if "void_manual_doc k d = Inr (u, d')"
    using that st by (simp add: void_manual_doc_def)
qed

section \<open>Sequences of outbound operations\<close>

datatype outbound_step =
    Doc_Op outbound_op
  | Reverse_Event datetime string string int reversal_in

fun exec_step :: "policy_reader \<Rightarrow> outbound_step \<Rightarrow> db \<Rightarrow> db result" where
  "exec_step pol (Doc_Op op) d = run_outbound op d"
| "exec_step pol (Reverse_Event now tr no i payload) d = bindR (reverse_outbound_event pol now tr no i payload d) (\<lambda>(_, d'). Inr d')"

text \<open>The states that steps with a given property lead to.\<close>

inductive outbound_life :: "policy_reader \<Rightarrow> (outbound_step \<Rightarrow> bool) \<Rightarrow> db \<Rightarrow> db \<Rightarrow> bool" for pol ok d where
  start: "outbound_life pol ok d d"
| step: "outbound_life pol ok d d1 \<Longrightarrow> ok st \<Longrightarrow> exec_step pol st d1 = Inr d2 \<Longrightarrow> outbound_life pol ok d d2"

fun exec_steps :: "policy_reader \<Rightarrow> outbound_step list \<Rightarrow> db \<Rightarrow> db result" where
  "exec_steps pol [] d = Inr d"
| "exec_steps pol (st # sts) d = bindR (exec_step pol st d) (exec_steps pol sts)"

lemma exec_steps_life:
  "outbound_life pol ok d0 d \<Longrightarrow> exec_steps pol sts d = Inr d' \<Longrightarrow> \<forall>st \<in> set sts. ok st \<Longrightarrow> outbound_life pol ok d0 d'"
  by (induction sts arbitrary: d) (auto simp: res_simps intro: outbound_life.step)

text \<open>A payload of an order names each order line at most once.\<close>

fun one_line_each :: "outbound_step \<Rightarrow> bool" where
  "one_line_each (Doc_Op (SubmitOrder _ _ _ _ _ ls _)) = distinct (map sl_line_id ls)"
| "one_line_each _ = True"

definition within_order :: "db \<Rightarrow> bool" where
  "within_order d \<longleftrightarrow> positive_lines d \<and> distinct (map ol_id (db_order_lines d)) \<and>
     (\<forall>src \<in> set (db_order_lines d). order_sent d (ol_id src) \<le> ol_req_qty src)"

lemma within_order_submit:
  assumes "within_order d" and "distinct (map sl_line_id lines)"
    and run: "submit_order_outbound_event now order_id w tr remark lines occ d = Inr ((ev, saved), d')"
  shows "within_order d'"
proof -
  note P = submit_order_adds [OF run] and ol = submit_order_progress(2) [OF run]
  have "order_sent d' (ol_id src) \<le> ol_req_qty src" if src: "src \<in> set (db_order_lines d)" for src
  proof (cases "\<exists>l \<in> set lines. sl_line_id l = ol_id src")
    case True
    then obtain l where l: "l \<in> set lines" "ol_id src = sl_line_id l" by auto
    have "order_submitted d (sl_line_id l) + sl_qty_outbound l \<le> ol_req_qty src"
      by (rule submit_order_line_bound [OF run _ l(1) src l(2)]) (use assms(1) in \<open>simp add: within_order_def\<close>)
    moreover have "0 \<le> order_taken_back d (sl_line_id l)" using assms(1) by (simp add: within_order_def taken_back_nonneg)
    moreover have "order_sent d' (ol_id src) = order_sent d (ol_id src) + sl_qty_outbound l"
      using adds_commit(1) [OF P(1)] P(2) asked_line_distinct [OF assms(2) l(1)] l(2) by simp
    ultimately show ?thesis using submitted_split(1) [of d "sl_line_id l"] l(2) by simp
  next
    case False
    then have "asked_line lines (ol_id src) = 0" unfolding asked_line_def by (auto intro: sum_where_none)
    with adds_commit(1) [OF P(1), of "ol_id src"] P(2) assms(1) src show ?thesis by (simp add: within_order_def)
  qed
  with assms(1) ol adds_event_positive [OF P(1)] show ?thesis by (simp add: within_order_def)
qed

lemma within_order_step:
  assumes "within_order d" and "one_line_each st" and "exec_step pol st d = Inr d'"
  shows "within_order d' \<and> db_order_lines d' = db_order_lines d"
proof -
  have docs: ?thesis if "\<exists>ms ls. d' = d\<lparr>db_manual_docs := ms, db_manual_lines := ls\<rparr>"
    using that assms(1) by (auto simp: within_order_def positive_lines_def order_sent_def took_back_def event_kinds_def)
  show ?thesis
  proof (cases st)
    case (Reverse_Event now tr no i payload)
    with assms(3) obtain r where run: "reverse_outbound_event pol now tr no i payload d = Inr (r, d')" by (auto simp: res_simps)
    from reversal_adds(1) [OF run] obtain saved where a: "adds_event EV_REVERSAL d saved d'" ..
    have pos: "positive_lines d" using assms(1) by (simp add: within_order_def)
    note ol = reversal_adds(2) [OF run]
    have "order_sent d' (ol_id src) \<le> ol_req_qty src" if "src \<in> set (db_order_lines d')" for src
      using adds_reversal [OF a pos, of "ol_id src"] assms(1) that ol by (fastforce simp: within_order_def)
    with adds_event_positive [OF a pos] ol assms(1) show ?thesis by (simp add: within_order_def)
  next
    case (Doc_Op op)
    show ?thesis
    proof (cases op)
      case (SubmitOrder now i w tr rm ls occ)
      with Doc_Op assms(2,3) obtain ev saved where "distinct (map sl_line_id ls)"
        and run: "submit_order_outbound_event now i w tr rm ls occ d = Inr ((ev, saved), d')" by (auto simp: res_simps)
      with within_order_submit [OF assms(1)] submit_order_progress(2) [OF run] show ?thesis by blast
    next
      case (SubmitManual now i tr rm ls occ)
      with Doc_Op assms(3) obtain ev saved where run: "submit_manual_outbound_event now i tr rm ls occ d = Inr ((ev, saved), d')"
        by (auto simp: res_simps)
      note A = submit_manual_adds [OF run]
      with adds_commit(1) [OF A(1)] adds_event_positive [OF A(1)] assms(1) show ?thesis by (simp add: within_order_def)
    qed (use Doc_Op assms(3) docs in \<open>auto simp: res_simps dest: doc_ops_frame\<close>)
  qed
qed

section \<open>Properties\<close>

text \<open>
  Claim C12. No order line is ever sent out beyond what was ordered. However manual documents and orders are submitted,
  documents created, released and voided, and outbound events reversed, as long as every payload of an order
  names each order line at most once: from a state in which no order line is sent beyond its ordered quantity, line ids are
  unique and event lines have positive quantities, the lines
  of all submissions together never exceed it, whether or not some of them have been taken back since.
\<close>

theorem order_never_over_sent:
  assumes "outbound_life pol one_line_each d d'" and "within_order d"
  shows "db_order_lines d' = db_order_lines d \<and> (\<forall>src \<in> set (db_order_lines d'). order_sent d' (ol_id src) \<le> ol_req_qty src)"
proof -
  have "within_order d' \<and> db_order_lines d' = db_order_lines d"
    using assms by (induction rule: outbound_life.induct) (auto dest: within_order_step)
  then show ?thesis by (simp add: within_order_def)
qed

text \<open>Three of five pieces are sent and taken back, then the other line is sent.\<close>

definition send_reverse_send :: "outbound_step list" where
  "send_reverse_send = [Doc_Op (SubmitOrder 3 7 1 ''T-1'' None [sample_line 70 1 1 3] None),
     Reverse_Event 9 ''T-2'' ''OER-1'' 1 sample_reversal, Doc_Op (SubmitOrder 10 7 1 ''T-3'' None [sample_line 71 2 2 2] None)]"

theorem order_never_over_sent_witness:
  "\<exists>d'. exec_steps sample_policy send_reverse_send sample_order_db = Inr d' \<and> order_sent d' 70 \<le> 5"
proof -
  have "succeeds (exec_steps sample_policy send_reverse_send sample_order_db) (\<lambda>_. True)" by code_simp
  then obtain d' where run: "exec_steps sample_policy send_reverse_send sample_order_db = Inr d'" by (blast dest: succeedsD)
  have "\<forall>st \<in> set send_reverse_send. one_line_each st" "within_order sample_order_db" by code_simp+
  with order_never_over_sent [OF exec_steps_life [OF outbound_life.start run]]
  have "db_order_lines d' = db_order_lines sample_order_db" "\<forall>src \<in> set (db_order_lines d'). order_sent d' (ol_id src) \<le> ol_req_qty src" by blast+
  then have "order_sent d' 70 \<le> 5" by (simp add: sample_order_db_def)
  with run show ?thesis by blast
qed

text \<open>The order has lines, and of each, with a positive quantity, at least the ordered quantity has been sent out.\<close>

definition order_sent_in_full :: "db \<Rightarrow> int \<Rightarrow> bool" where
  "order_sent_in_full d oid \<longleftrightarrow>
     (\<exists>l \<in> set (db_order_lines d). ol_order_id l = oid) \<and>
     (\<forall>l \<in> set (db_order_lines d). ol_order_id l = oid \<longrightarrow> 0 < ol_req_qty l \<and> ol_req_qty l \<le> order_sent d (ol_id l))"

text \<open>
  Claim C13. When an order is handed over to logistics. Event lines have positive quantities, as the
  table demands. After a successful submission that leaves every
  line of the order sent out in full, there is an export record of the order that is pending or exported, with a payload
  that carries this event and its lines. When some line is not sent out in full, and nothing of
  the order has been taken back by a reversal, the hand-over tables are as before. (After a reversal the code counts what was taken back
  as sent and may hand over too early: \<open>reversed_order_handed_over\<close>.)
\<close>

theorem order_handed_over_iff_sent:
  assumes "submit_order_outbound_event now order_id w trace_id remark lines occ d = Inr ((ev, saved), d')" and "positive_lines d"
  shows "(order_sent_in_full d' order_id \<longrightarrow> handed_over d' ORDER_OUTBOUND order_id ev saved) \<and>
     (\<not> order_sent_in_full d' order_id \<and> (\<forall>l \<in> set (db_order_lines d). ol_order_id l = order_id \<longrightarrow> order_taken_back d (ol_id l) = 0) \<longrightarrow>
        db_export_records d' = db_export_records d \<and> db_handoff_payloads d' = db_handoff_payloads d)"
proof -
  note A = submit_order_adds(1) [OF assms(1)] and ol = submit_order_progress(2) [OF assms(1)]
  have ge: "order_sent d' i \<le> order_submitted d' i" for i
    using submitted_split(1) [of d' i] taken_back_nonneg [OF adds_event_positive [OF A assms(2)], of i] by simp
  then have up: "order_sent_in_full d' order_id \<Longrightarrow> order_fulfilled d' order_id"
    unfolding order_sent_in_full_def order_fulfilled_def by (meson order_trans)
  have eq: "order_submitted d' i = order_sent d' i" if "order_taken_back d i = 0" for i
    using submitted_split(1) [of d' i] adds_commit(2) [OF A, of i] that by simp
  have "order_fulfilled d' order_id = order_sent_in_full d' order_id"
    if "\<forall>l \<in> set (db_order_lines d). ol_order_id l = order_id \<longrightarrow> order_taken_back d (ol_id l) = 0"
    using that eq unfolding order_sent_in_full_def order_fulfilled_def ol by auto
  with up hand_over_by_counter [OF assms(1)] show ?thesis by (auto split: if_splits)
qed

theorem order_handed_over_iff_sent_witness:
  "\<exists>ev saved d'. submit_order_outbound_event 3 7 1 ''T-9'' None [sample_line 70 1 1 5, sample_line 71 2 2 2] None sample_order_db
       = Inr ((ev, saved), d') \<and> handed_over d' ORDER_OUTBOUND 7 ev saved"
proof -
  let ?run = "submit_order_outbound_event 3 7 1 ''T-9'' None [sample_line 70 1 1 5, sample_line 71 2 2 2] None sample_order_db"
  have "succeeds ?run (\<lambda>(_, d'). order_sent_in_full d' 7)" "positive_lines sample_order_db" by code_simp+
  then obtain r d' where run: "?run = Inr (r, d')" and f: "order_sent_in_full d' 7" and pos: "positive_lines sample_order_db" by (auto dest!: succeeds_pairD)
  obtain ev saved where r: "r = (ev, saved)" by (cases r)
  from order_handed_over_iff_sent [OF run [unfolded r] pos] f run r show ?thesis by auto
qed

text \<open>
  An order whose shipment was reversed is handed over all the same: three of the five pieces of item 1 leave and come back,
  both count as submitted, and sending the other line completes the order although no piece of item 1 is out.
\<close>

lemma reversed_order_handed_over:
  "succeeds (exec_steps sample_policy send_reverse_send sample_order_db)
     (\<lambda>d. order_sent d 70 = 3 \<and> order_taken_back d 70 = 3 \<and> on_hand d (1, 1, 1) = 10 \<and> \<not> order_sent_in_full d 7 \<and>
        (\<exists>x \<in> set (db_export_records d). same_doc ORDER_OUTBOUND 7 x \<and> xr_export_status x = EX_PENDING))"
  by code_simp

lemma doc_inv_exec_step:
  assumes "doc_inv d" and "exec_step pol st d = Inr d'"
  shows "doc_inv d' \<and> docs_move d d'"
proof (cases st)
  case (Reverse_Event now tr no i payload)
  with assms(2) obtain r where run: "reverse_outbound_event pol now tr no i payload d = Inr (r, d')" by (auto simp: res_simps)
  note R = reversal_adds [OF run]
  from R(1) obtain saved where "db_outbound_event_lines d' = db_outbound_event_lines d @ saved" "\<forall>s \<in> set saved. 0 < oel_qty_outbound s"
    by (auto simp: adds_event_def)
  from doc_inv_more_lines [OF assms(1) R(3,4) this] docs_move_grow [of d' d "[]"] R(3) show ?thesis by simp
qed (use assms doc_inv_op in simp)

lemma outbound_life_inv:
  assumes "outbound_life pol ok d d'" and "doc_inv d"
  shows "doc_inv d' \<and> (\<forall>m \<in> set (db_manual_docs d). \<exists>m' \<in> set (db_manual_docs d'). doc_moves m m')"
  using assms
proof (induction rule: outbound_life.induct)
  case start
  then show ?case by (auto intro: doc_moves_refl)
next
  case (step d1 st d2)
  then have inv: "doc_inv d1" and IH: "\<forall>m \<in> set (db_manual_docs d). \<exists>m' \<in> set (db_manual_docs d1). doc_moves m m'" by auto
  from doc_inv_exec_step [OF inv step.hyps(3)] have "doc_inv d2" and mv: "docs_move d1 d2" by auto
  moreover have "\<exists>m' \<in> set (db_manual_docs d2). doc_moves m m'" if "m \<in> set (db_manual_docs d)" for m
  proof -
    from IH that obtain m1 where "m1 \<in> set (db_manual_docs d1)" "doc_moves m m1" by blast
    moreover from docs_move_status [OF mv this(1)] obtain m2 where "m2 \<in> set (db_manual_docs d2)" "doc_moves m1 m2" by blast
    ultimately show ?thesis by (blast intro: doc_moves_trans)
  qed
  ultimately show ?case by blast
qed

text \<open>
  Claim C15. The life cycle of manual documents. However documents are created, released, voided and
  submitted, orders submitted and outbound events reversed between, from a state with well-formed documents: no document is lost and only its
  status changes, along DRAFT to RELEASED to COMPLETED or from DRAFT or RELEASED to VOIDED; a
  completed or voided document stays as it is; a completed document has lines, and of every line the quantity sent out
  and the quantity taken back by reversals, added up, reach the requested one. So a line of a completed document
  of which nothing was taken back has been sent out in full. (What was taken back counts towards completion in the code:
  \<open>reversed_doc_completed\<close>.)
\<close>

theorem manual_doc_lifecycle:
  assumes "outbound_life pol (\<lambda>_. True) d d'" and "doc_inv d"
  shows "(\<forall>m \<in> set (db_manual_docs d). \<exists>m' \<in> set (db_manual_docs d'). doc_moves m m' \<and>
        (md_status m \<in> {MD_COMPLETED, MD_VOIDED} \<longrightarrow> m' = m)) \<and>
     (\<forall>m \<in> set (db_manual_docs d'). md_status m = MD_COMPLETED \<longrightarrow>
        (\<exists>l \<in> set (db_manual_lines d'). ml_doc_id l = md_id m) \<and>
        (\<forall>l \<in> set (db_manual_lines d'). ml_doc_id l = md_id m \<longrightarrow>
           ml_requested_qty l \<le> manual_sent d' (ml_id l) + manual_taken_back d' (ml_id l)))"
  using outbound_life_inv [OF assms] doc_moves_final
  by (auto simp only: doc_inv_def completed_covered_def covered_def submitted_split(2)) blast+

text \<open>The document is sent out in full, which completes it, and then reversed, which leaves it completed.\<close>

definition complete_and_reverse :: "outbound_step list" where
  "complete_and_reverse = [Doc_Op (SubmitManual 3 1 ''T-3'' None [sample_line 4 1 1 3] None), Reverse_Event 9 ''T-4'' ''OER-1'' 1 sample_reversal]"

theorem manual_doc_lifecycle_witness:
  "\<exists>d'. exec_steps sample_policy complete_and_reverse sample_manual_db = Inr d' \<and>
     (\<exists>m \<in> set (db_manual_docs d'). md_status m = MD_COMPLETED \<and> (\<exists>l \<in> set (db_manual_lines d'). ml_doc_id l = md_id m))"
proof -
  have "succeeds (exec_steps sample_policy complete_and_reverse sample_manual_db) (\<lambda>d'. \<exists>m \<in> set (db_manual_docs d'). md_status m = MD_COMPLETED)"
    by code_simp
  then obtain d' where run: "exec_steps sample_policy complete_and_reverse sample_manual_db = Inr d'"
    and m: "\<exists>m \<in> set (db_manual_docs d'). md_status m = MD_COMPLETED" by (blast dest: succeedsD)
  have "doc_inv sample_manual_db" by code_simp
  moreover have "outbound_life sample_policy (\<lambda>_. True) sample_manual_db d'" by (rule exec_steps_life [OF outbound_life.start run]) simp
  ultimately show ?thesis using manual_doc_lifecycle m run by blast
qed

text \<open>
  A document whose shipment was reversed is completed all the same: of a document of six pieces of item 1 and two of item 2,
  three pieces of item 1 leave and come back, and sending item 2 completes the document although no piece of item 1 is out.
\<close>

definition sample_two_lines :: db where
  "sample_two_lines = sample_manual_db
     \<lparr>db_manual_lines := [\<lparr>ml_id = 4, ml_doc_id = 1, ml_line_no = 1, ml_item_id = 1, ml_item_uom_id = 11, ml_requested_qty = 6\<rparr>,
        \<lparr>ml_id = 5, ml_doc_id = 1, ml_line_no = 2, ml_item_id = 2, ml_item_uom_id = 21, ml_requested_qty = 2\<rparr>]\<rparr>"

lemma reversed_doc_completed:
  "succeeds (exec_steps sample_policy
       [Doc_Op (SubmitManual 3 1 ''T-3'' None [sample_line 4 1 1 3] None), Reverse_Event 9 ''T-4'' ''OER-1'' 1 sample_reversal,
        Doc_Op (SubmitManual 10 1 ''T-5'' None [sample_line 5 2 2 2] None)] sample_two_lines)
     (\<lambda>d. map md_status (db_manual_docs d) = [MD_COMPLETED] \<and> manual_sent d 4 = 3 \<and> manual_taken_back d 4 = 3 \<and> on_hand d (1, 1, 1) = 10)"
  by code_simp

end
