(* ===== verification/Count_Doc.thy ===== *)
theory Count_Doc
  imports Freeze_Guard
begin

text \<open>
  Count documents, \<open>app/wms/inventory_adjustment/count/\<close> (\<open>repos/count_doc_repo.py\<close>,
  \<open>services/count_doc_service.py\<close>): a document freezes the stock of a warehouse, records the
  counted quantities and posts the differences through \<open>adjust_lot\<close>.

  Document numbers, event numbers, trace ids and the current time come from the caller. The display
  snapshots of items and the read-only views (\<open>list_docs\<close>, the execution detail) are left out.
  The lines of a document are read in the order of the table; rows that one \<open>INSERT ... SELECT\<close>
  creates get consecutive keys, lines by item and lot snapshots by line and lot.
\<close>

section \<open>count\_doc\_repo.py\<close>

definition get_count_doc :: "int \<Rightarrow> db \<Rightarrow> count_doc option" where
  "get_count_doc doc_id d = find (\<lambda>c. cd_id c = doc_id) (db_count_docs d)"

definition active_statuses :: "count_doc_status list" where
  "active_statuses = [CD_DRAFT, CD_FROZEN, CD_COUNTED]"

definition get_active_doc_by_warehouse :: "int \<Rightarrow> db \<Rightarrow> count_doc option" where
  "get_active_doc_by_warehouse w d =
     first_by (\<lambda>c. (- cd_created_at c, - cd_id c))
       (\<lambda>c. cd_warehouse_id c = w \<and> cd_status c \<in> set active_statuses) (db_count_docs d)"

definition insert_count_doc :: "datetime \<Rightarrow> string \<Rightarrow> int \<Rightarrow> datetime \<Rightarrow> string option \<Rightarrow> count_doc action" where
  "insert_count_doc now count_no w snapshot_at remark d =
     bindR (ensure (count_no \<notin> set (map cd_count_no (db_count_docs d))) (IntegrityError ''uq_count_docs_count_no'')) (\<lambda>_.
     bindR (ensure (w \<in> set (map wh_id (db_warehouses d))) (IntegrityError ''fk_count_docs_warehouse'')) (\<lambda>_.
     let row = \<lparr>cd_id = next_id (map cd_id (db_count_docs d)), cd_count_no = count_no, cd_warehouse_id = w,
                cd_snapshot_at = snapshot_at, cd_status = CD_DRAFT, cd_posted_event_id = None, cd_counted_by = None,
                cd_reviewed_by = None, cd_remark = remark, cd_created_at = now, cd_counted_at = None, cd_posted_at = None\<rparr>
     in Inr (row, d\<lparr>db_count_docs := db_count_docs d @ [row]\<rparr>)))"

definition doc_lines :: "int \<Rightarrow> db \<Rightarrow> count_doc_line list" where
  "doc_lines doc_id d = filter (\<lambda>l. cl_doc_id l = doc_id) (db_count_doc_lines d)"

definition get_line_lot_snapshots :: "int \<Rightarrow> db \<Rightarrow> lot_snapshot list" where
  "get_line_lot_snapshots line_id d =
     sort_key (\<lambda>s. (- ls_qty s, ls_lot_id s, ls_id s)) (filter (\<lambda>s. ls_line_id s = line_id) (db_lot_snapshots d))"

text \<open>The units that the PMS client lists for an item.\<close>

record export_uom =
  xu_id :: int
  xu_item_id :: int
  xu_uom :: string
  xu_display_name :: "string option"
  xu_uom_name :: string
  xu_is_base :: bool

definition or_name :: "string \<Rightarrow> string \<Rightarrow> string" where
  "or_name a b = (if a = [] then b else a)"

definition base_uom_name :: "export_uom \<Rightarrow> string option" where
  "base_uom_name u =
     norm_text (Some (or_name (xu_uom_name u)
        (or_name (case xu_display_name u of Some n \<Rightarrow> n | None \<Rightarrow> []) (xu_uom u))))"

text \<open>\<open>get_base_uom_map\<close>, for one item: the first base unit of the item in the list.\<close>

definition get_base_uom :: "(int list \<Rightarrow> export_uom list) \<Rightarrow> int \<Rightarrow> (int \<times> string option) option" where
  "get_base_uom list_uoms item_id =
     (if item_id > 0
      then map_option (\<lambda>u. (xu_id u, base_uom_name u)) (find (\<lambda>u. xu_is_base u \<and> xu_item_id u = item_id) (list_uoms [item_id]))
      else None)"

text \<open>\<open>freeze_doc_lines_from_current_stock\<close>: the two \<open>INSERT ... SELECT ... GROUP BY\<close> statements.\<close>

definition frozen_items :: "int \<Rightarrow> db \<Rightarrow> int list" where
  "frozen_items w d =
     filter (\<lambda>i. get_available_for_item w i d > 0)
       (sort (remdups (map st_item_id (filter (\<lambda>s. st_warehouse_id s = w) (db_stocks_lot d)))))"

definition new_count_line :: "int \<Rightarrow> int \<Rightarrow> int \<Rightarrow> db \<Rightarrow> int \<times> int \<Rightarrow> count_doc_line" where
  "new_count_line doc_id w base d ni =
     (case ni of (n, i) \<Rightarrow>
        \<lparr>cl_id = base + n - 1, cl_doc_id = doc_id, cl_line_no = n, cl_item_id = i,
         cl_snapshot_qty = get_available_for_item w i d, cl_uom_id = None, cl_uom_name = None, cl_ratio = None,
         cl_qty_input = None, cl_counted_qty = None, cl_diff_qty = None\<rparr>)"

definition frozen_lots :: "int \<Rightarrow> int \<Rightarrow> db \<Rightarrow> int list" where
  "frozen_lots w i d =
     filter (\<lambda>lid. on_hand d (w, i, lid) > 0 \<and> lid \<in> set (map lot_id (db_lots d)))
       (sort (remdups (map st_lot_id (filter (\<lambda>s. st_warehouse_id s = w \<and> st_item_id s = i) (db_stocks_lot d)))))"

definition lot_code_of :: "int \<Rightarrow> db \<Rightarrow> string option" where
  "lot_code_of lid d = (case find (\<lambda>l. lot_id l = lid) (db_lots d) of None \<Rightarrow> None | Some l \<Rightarrow> lot_code l)"

definition line_lot_pairs :: "int \<Rightarrow> db \<Rightarrow> count_doc_line list \<Rightarrow> (count_doc_line \<times> int) list" where
  "line_lot_pairs w d ls = concat (map (\<lambda>l. map (Pair l) (frozen_lots w (cl_item_id l) d)) ls)"

definition new_snapshot :: "int \<Rightarrow> int \<Rightarrow> db \<Rightarrow> int \<times> count_doc_line \<times> int \<Rightarrow> lot_snapshot" where
  "new_snapshot w base d x =
     (case x of (n, l, lid) \<Rightarrow>
        \<lparr>ls_id = base + n - 1, ls_line_id = cl_id l, ls_lot_id = lid, ls_lot_code = lot_code_of lid d,
         ls_qty = on_hand d (w, cl_item_id l, lid)\<rparr>)"

definition set_count_doc :: "int \<Rightarrow> (count_doc \<Rightarrow> count_doc) \<Rightarrow> db \<Rightarrow> db" where
  "set_count_doc doc_id f d =
     d\<lparr>db_count_docs := map (\<lambda>c. if cd_id c = doc_id then f c else c) (db_count_docs d)\<rparr>"

text \<open>What the two \<open>DELETE\<close> statements keep, and what the two \<open>INSERT\<close> statements add.\<close>

definition kept_lines :: "int \<Rightarrow> db \<Rightarrow> count_doc_line list" where
  "kept_lines doc_id d = filter (\<lambda>l. cl_doc_id l \<noteq> doc_id) (db_count_doc_lines d)"

definition kept_snaps :: "int \<Rightarrow> db \<Rightarrow> lot_snapshot list" where
  "kept_snaps doc_id d = filter (\<lambda>s. ls_line_id s \<notin> set (map cl_id (doc_lines doc_id d))) (db_lot_snapshots d)"

definition frozen_lines :: "int \<Rightarrow> int \<Rightarrow> db \<Rightarrow> count_doc_line list" where
  "frozen_lines doc_id w d =
     map (new_count_line doc_id w (next_id (map cl_id (kept_lines doc_id d))) d) (numbered (frozen_items w d))"

definition frozen_snaps :: "int \<Rightarrow> int \<Rightarrow> db \<Rightarrow> lot_snapshot list" where
  "frozen_snaps doc_id w d =
     map (new_snapshot w (next_id (map ls_id (kept_snaps doc_id d))) d)
       (numbered (line_lot_pairs w d (frozen_lines doc_id w d)))"

definition freeze_doc_lines_from_current_stock :: "int \<Rightarrow> (int \<times> int) action" where
  "freeze_doc_lines_from_current_stock doc_id d =
     bindR (require_some (get_count_doc doc_id d) (LookupError ''count_doc_not_found'')) (\<lambda>doc.
     let w = cd_warehouse_id doc; new_lines = frozen_lines doc_id w d; new_snaps = frozen_snaps doc_id w d
     in Inr ((int (length new_lines), int (length new_snaps)),
          set_count_doc doc_id (\<lambda>c. c\<lparr>cd_status := CD_FROZEN\<rparr>)
            (d\<lparr>db_count_doc_lines := kept_lines doc_id d @ new_lines,
               db_lot_snapshots := kept_snaps doc_id d @ new_snaps\<rparr>)))"

record count_patch =
  cp_line_id :: int
  cp_qty_input :: int

definition counted_line :: "int \<Rightarrow> string \<Rightarrow> int \<Rightarrow> count_doc_line \<Rightarrow> count_doc_line" where
  "counted_line uom_id uom_name q l =
     l\<lparr>cl_uom_id := Some uom_id, cl_uom_name := Some uom_name, cl_ratio := Some 1, cl_qty_input := Some q,
       cl_counted_qty := Some q, cl_diff_qty := Some (q - cl_snapshot_qty l)\<rparr>"

text \<open>One round of \<open>update_line_counts\<close>; a negative quantity violates the checks of the table.\<close>

definition update_line_count :: "(int list \<Rightarrow> export_uom list) \<Rightarrow> int \<Rightarrow> count_patch \<Rightarrow> unit action" where
  "update_line_count list_uoms doc_id raw d =
     bindR (require_some (find (\<lambda>l. cl_id l = cp_line_id raw \<and> cl_doc_id l = doc_id) (db_count_doc_lines d))
              (LookupError ''count_doc_line_not_found'')) (\<lambda>line.
     bindR (require_some (get_base_uom list_uoms (cl_item_id line)) (LookupError ''count_doc_line_base_uom_not_found''))
       (\<lambda>(uom_id, uom_name).
     bindR (ensure (0 \<le> cp_qty_input raw) (IntegrityError ''ck_count_doc_lines_counted_qty_input_nonneg'')) (\<lambda>_.
     Inr ((), d\<lparr>db_count_doc_lines :=
       map (\<lambda>l. if cl_id l = cp_line_id raw
                then counted_line uom_id (case uom_name of Some n \<Rightarrow> n | None \<Rightarrow> ''None'') (cp_qty_input raw) l else l)
         (db_count_doc_lines d)\<rparr>))))"

definition update_line_counts ::
  "(int list \<Rightarrow> export_uom list) \<Rightarrow> int \<Rightarrow> string \<Rightarrow> count_patch list \<Rightarrow> int action" where
  "update_line_counts list_uoms doc_id counted_by lines d =
     bindR (map_loop (update_line_count list_uoms doc_id) lines d) (\<lambda>(us, d1).
     Inr (int (length us),
       set_count_doc doc_id (\<lambda>c. c\<lparr>cd_counted_by := Some (py_strip counted_by), cd_reviewed_by := None\<rparr>) d1))"

definition set_reviewed_by_name_snapshot :: "int \<Rightarrow> string \<Rightarrow> db \<Rightarrow> db" where
  "set_reviewed_by_name_snapshot doc_id name = set_count_doc doc_id (\<lambda>c. c\<lparr>cd_reviewed_by := Some (py_strip name)\<rparr>)"

definition all_counted :: "int \<Rightarrow> db \<Rightarrow> bool" where
  "all_counted doc_id d \<longleftrightarrow> doc_lines doc_id d \<noteq> [] \<and> (\<forall>l \<in> set (doc_lines doc_id d). cl_counted_qty l \<noteq> None)"

definition try_mark_doc_counted :: "datetime \<Rightarrow> int \<Rightarrow> db \<Rightarrow> db" where
  "try_mark_doc_counted now doc_id d =
     set_count_doc doc_id (\<lambda>c. if cd_status c = CD_FROZEN \<and> all_counted doc_id d
       then c\<lparr>cd_status := CD_COUNTED, cd_counted_at := (case cd_counted_at c of Some t \<Rightarrow> Some t | None \<Rightarrow> Some now)\<rparr>
       else c) d"

definition mark_doc_posted :: "int \<Rightarrow> int \<Rightarrow> datetime \<Rightarrow> unit action" where
  "mark_doc_posted doc_id event_id posted_at d =
     bindR (ensure (\<exists>c \<in> set (db_count_docs d). cd_id c = doc_id \<and> cd_status c = CD_COUNTED)
              (LookupError ''count_doc_not_counted_or_not_found'')) (\<lambda>_.
     Inr ((), set_count_doc doc_id (\<lambda>c. if cd_status c = CD_COUNTED
       then c\<lparr>cd_status := CD_POSTED, cd_posted_event_id := Some event_id, cd_posted_at := Some posted_at\<rparr> else c) d))"

definition mark_doc_voided :: "int \<Rightarrow> unit action" where
  "mark_doc_voided doc_id d =
     bindR (ensure (\<exists>c \<in> set (db_count_docs d). cd_id c = doc_id \<and> cd_status c \<in> set active_statuses)
              (LookupError ''count_doc_not_voidable_or_not_found'')) (\<lambda>_.
     Inr ((), set_count_doc doc_id (\<lambda>c. if cd_status c \<in> set active_statuses then c\<lparr>cd_status := CD_VOIDED\<rparr> else c) d))"

section \<open>count\_doc\_service.py\<close>

definition require_doc :: "int \<Rightarrow> db \<Rightarrow> count_doc result" where
  "require_doc doc_id d = require_some (get_count_doc doc_id d) (LookupError ''count_doc_not_found'')"

definition create_doc :: "datetime \<Rightarrow> string \<Rightarrow> int \<Rightarrow> datetime \<Rightarrow> string option \<Rightarrow> count_doc action" where
  "create_doc now count_no w snapshot_at remark d =
     bindR (ensure (get_active_doc_by_warehouse w d = None) (ValueError ''count_doc_active_exists'')) (\<lambda>_.
     insert_count_doc now count_no w snapshot_at remark d)"

definition freeze_doc :: "int \<Rightarrow> (int \<times> int) action" where
  "freeze_doc doc_id d =
     bindR (require_doc doc_id d) (\<lambda>doc.
     bindR (ensure (cd_status doc = CD_DRAFT) (ValueError ''count_doc_freeze_requires_draft'')) (\<lambda>_.
     freeze_doc_lines_from_current_stock doc_id d))"

definition update_doc_lines ::
  "(int list \<Rightarrow> export_uom list) \<Rightarrow> datetime \<Rightarrow> int \<Rightarrow> string \<Rightarrow> count_patch list \<Rightarrow> int action" where
  "update_doc_lines list_uoms now doc_id counted_by lines d =
     bindR (require_doc doc_id d) (\<lambda>doc.
     bindR (ensure (cd_status doc \<in> {CD_FROZEN, CD_COUNTED}) (ValueError ''count_doc_lines_update_requires_frozen_or_counted'')) (\<lambda>_.
     bindR (require_some (norm_text (Some counted_by)) (ValueError ''count_doc_lines_update_requires_counted_by_name_snapshot'')) (\<lambda>name.
     bindR (update_line_counts list_uoms doc_id name lines d) (\<lambda>(n, d1).
     Inr (n, try_mark_doc_counted now doc_id d1)))))"

definition name_entry :: "string \<Rightarrow> string option \<Rightarrow> meta" where
  "name_entry key v = (case v of Some s \<Rightarrow> if s = [] then [] else [(key, PStr s)] | None \<Rightarrow> [])"

definition line_meta :: "count_doc \<Rightarrow> count_doc_line \<Rightarrow> int \<Rightarrow> string \<Rightarrow> meta" where
  "line_meta doc line event_id sub_reason =
     [(''sub_reason'', PStr sub_reason), (''count_doc_id'', PInt (cd_id doc)), (''count_doc_line_id'', PInt (cl_id line)),
      (''count_no'', PStr (cd_count_no doc)), (''event_id'', PInt event_id)] @
     name_entry ''counted_by_name_snapshot'' (cd_counted_by doc) @
     name_entry ''reviewed_by_name_snapshot'' (cd_reviewed_by doc) @
     (if sub_reason = ''COUNT_CONFIRM'' then [(''allow_zero_delta_ledger'', PBool True)] else [])"

definition count_adjust_args ::
  "count_doc \<Rightarrow> count_doc_line \<Rightarrow> wms_event \<Rightarrow> lot_snapshot \<Rightarrow> int \<Rightarrow> string \<Rightarrow> adjust_args" where
  "count_adjust_args doc line ev snap delta sub_reason =
     \<lparr>aa_item_id = cl_item_id line, aa_warehouse_id = cd_warehouse_id doc, aa_lot_id = Some (ls_lot_id snap),
      aa_delta = delta, aa_reason = ReasonMovement MovementType_COUNT, aa_ref = ev_no ev, aa_ref_line = PInt (cl_line_no line),
      aa_occurred_at = Some (ev_occurred_at ev), aa_meta = Some (line_meta doc line (ev_id ev) sub_reason),
      aa_lot_code = ls_lot_code snap, aa_production_date = None, aa_expiry_date = None, aa_trace_id = Some (ev_trace_id ev)\<rparr>"

text \<open>The loop that spreads a loss over the lots; it returns what is left to book.\<close>

fun consume_lots ::
  "policy_reader \<Rightarrow> datetime \<Rightarrow> count_doc \<Rightarrow> count_doc_line \<Rightarrow> wms_event \<Rightarrow> lot_snapshot list \<Rightarrow> int \<Rightarrow> int action" where
  "consume_lots pol now doc line ev [] remaining d = Inr (remaining, d)"
| "consume_lots pol now doc line ev (snap # snaps) remaining d =
     (if remaining \<le> 0 then Inr (remaining, d)
      else if ls_qty snap \<le> 0 then consume_lots pol now doc line ev snaps remaining d
      else
        (let consume = min remaining (ls_qty snap)
         in bindR (adjust_lot pol now (count_adjust_args doc line ev snap (- consume) ''COUNT_ADJUST'') d) (\<lambda>(_, d1).
            consume_lots pol now doc line ev snaps (remaining - consume) d1)))"

definition post_line_diff ::
  "policy_reader \<Rightarrow> datetime \<Rightarrow> count_doc \<Rightarrow> wms_event \<Rightarrow> count_doc_line \<Rightarrow> unit action" where
  "post_line_diff pol now doc ev line d =
     (let snapshots = get_line_lot_snapshots (cl_id line) d;
          diff = (case cl_diff_qty line of Some q \<Rightarrow> q | None \<Rightarrow> 0)
      in case snapshots of
           [] \<Rightarrow> Inl (RuntimeError ''count_doc_post_missing_lot_snapshots'')
         | target # _ \<Rightarrow>
             if diff = 0 then
               bindR (adjust_lot pol now (count_adjust_args doc line ev target 0 ''COUNT_CONFIRM'') d) (\<lambda>(_, d1). Inr ((), d1))
             else if diff > 0 then
               bindR (adjust_lot pol now (count_adjust_args doc line ev target diff ''COUNT_ADJUST'') d) (\<lambda>(_, d1). Inr ((), d1))
             else
               bindR (consume_lots pol now doc line ev snapshots (- diff) d) (\<lambda>(remaining, d1).
               bindR (ensure (remaining = 0) (RuntimeError ''count_doc_post_unallocated_negative_diff'')) (\<lambda>_.
               Inr ((), d1))))"

definition count_event_remark :: "count_doc \<Rightarrow> string" where
  "count_event_remark doc =
     (case cd_remark doc of Some r \<Rightarrow> if r = [] then ''post count doc '' @ cd_count_no doc else py_strip r
      | None \<Rightarrow> ''post count doc '' @ cd_count_no doc)"

definition post_doc ::
  "policy_reader \<Rightarrow> datetime \<Rightarrow> string \<Rightarrow> string \<Rightarrow> int \<Rightarrow> string \<Rightarrow> (int \<times> datetime) action" where
  "post_doc pol now trace_id event_no doc_id reviewed_by d =
     bindR (require_doc doc_id d) (\<lambda>doc.
     if cd_status doc = CD_POSTED then
       (case (cd_posted_event_id doc, cd_posted_at doc) of
          (Some e, Some t) \<Rightarrow> Inr ((e, t), d)
        | _ \<Rightarrow> Inl (RuntimeError ''count_doc_posted_missing_bridge_fields''))
     else
     bindR (ensure (cd_status doc = CD_COUNTED) (ValueError ''count_doc_post_requires_counted'')) (\<lambda>_.
     bindR (require_some (norm_text (Some reviewed_by)) (ValueError ''count_doc_post_requires_reviewed_by_name_snapshot'')) (\<lambda>name.
     let d1 = set_reviewed_by_name_snapshot doc_id name d
     in bindR (require_doc doc_id d1) (\<lambda>model.
        bindR (ensure (norm_text (cd_counted_by model) \<noteq> None) (ValueError ''count_doc_post_requires_counted_by_name_snapshot'')) (\<lambda>_.
        bindR (ensure (norm_text (cd_reviewed_by model) \<noteq> None) (ValueError ''count_doc_post_requires_reviewed_by_name_snapshot'')) (\<lambda>_.
        let lines = doc_lines doc_id d1;
            ctx = model\<lparr>cd_counted_by := norm_text (cd_counted_by model), cd_reviewed_by := norm_text (cd_reviewed_by model)\<rparr>
        in bindR (ensure (lines \<noteq> []) (ValueError ''count_doc_post_requires_lines'')) (\<lambda>_.
           bindR (ensure (\<forall>l \<in> set lines. cl_counted_qty l \<noteq> None \<and> cl_diff_qty l \<noteq> None)
                    (ValueError ''count_doc_post_requires_all_lines_counted'')) (\<lambda>_.
           bindR (insert_event
             \<lparr>ev_id = 0, ev_no = event_no, ev_type = EV_COUNT, ev_warehouse_id = cd_warehouse_id ctx,
              ev_source_type = ''MANUAL_COUNT'', ev_source_ref = Some (cd_count_no ctx), ev_occurred_at = now,
              ev_trace_id = trace_id, ev_kind = EV_COMMIT, ev_target_event_id = None, ev_status = EV_COMMITTED,
              ev_remark = Some (count_event_remark ctx)\<rparr> d1) (\<lambda>(ev, d2).
           bindR (map_loop (post_line_diff pol now ctx ev) lines d2) (\<lambda>(_, d3).
           bindR (mark_doc_posted doc_id (ev_id ev) now d3) (\<lambda>(_, d4).
           Inr ((ev_id ev, now), d4))))))))))))"

definition void_doc :: "int \<Rightarrow> unit action" where
  "void_doc doc_id d =
     bindR (require_doc doc_id d) (\<lambda>doc.
     bindR (ensure (cd_status doc \<noteq> CD_POSTED) (ValueError ''count_doc_void_forbidden_after_posted'')) (\<lambda>_.
     mark_doc_voided doc_id d))"

end
