(* ===== verification/Count_Tables.thy ===== *)
theory Count_Tables
  imports Count_Doc
begin

text \<open>
  The invariant of the tables of count documents, the life cycle of a document as a step relation,
  and that every operation of \<open>Count_Doc\<close> keeps the one and follows the other.
\<close>

section \<open>The invariant\<close>

definition line_consistent :: "count_doc_line \<Rightarrow> bool" where
  "line_consistent l \<longleftrightarrow>
     0 \<le> cl_snapshot_qty l \<and>
     (case cl_counted_qty l of None \<Rightarrow> cl_diff_qty l = None
      | Some q \<Rightarrow> 0 \<le> q \<and> cl_qty_input l = Some q \<and> cl_diff_qty l = Some (q - cl_snapshot_qty l))"

definition count_keys_ok :: "db \<Rightarrow> bool" where
  "count_keys_ok d \<longleftrightarrow>
     distinct (map cd_id (db_count_docs d)) \<and>
     distinct (map cl_id (db_count_doc_lines d)) \<and>
     distinct (map (\<lambda>l. (cl_doc_id l, cl_line_no l)) (db_count_doc_lines d)) \<and>
     distinct (map (\<lambda>l. (cl_doc_id l, cl_item_id l)) (db_count_doc_lines d)) \<and>
     distinct (map (\<lambda>s. (ls_line_id s, ls_lot_id s)) (db_lot_snapshots d)) \<and>
     (\<forall>s \<in> set (db_lot_snapshots d). ls_line_id s \<in> set (map cl_id (db_count_doc_lines d))) \<and>
     (\<forall>l \<in> set (db_count_doc_lines d). cl_doc_id l \<in> set (map cd_id (db_count_docs d)))"

definition active :: "count_doc \<Rightarrow> bool" where
  "active c \<longleftrightarrow> cd_status c \<in> set active_statuses"

definition one_active :: "db \<Rightarrow> bool" where
  "one_active d \<longleftrightarrow> distinct (map cd_warehouse_id (filter active (db_count_docs d)))"

text \<open>What the status of a document promises.\<close>

definition doc_promise :: "db \<Rightarrow> count_doc \<Rightarrow> bool" where
  "doc_promise d c \<longleftrightarrow>
     (cd_status c = CD_COUNTED \<longrightarrow> all_counted (cd_id c) d \<and> norm_text (cd_counted_by c) \<noteq> None) \<and>
     (cd_status c = CD_POSTED \<longrightarrow> cd_posted_event_id c \<noteq> None \<and> cd_posted_at c \<noteq> None)"

definition count_inv :: "db \<Rightarrow> bool" where
  "count_inv d \<longleftrightarrow>
     count_keys_ok d \<and> (\<forall>l \<in> set (db_count_doc_lines d). line_consistent l) \<and> one_active d \<and>
     (\<forall>c \<in> set (db_count_docs d). doc_promise d c)"

lemma count_inv_empty: "count_inv empty_db"
  by (simp add: count_inv_def count_keys_ok_def one_active_def empty_db_def)

lemma count_inv_frame:
  assumes "db_count_docs d' = db_count_docs d" and "db_count_doc_lines d' = db_count_doc_lines d"
    and "db_lot_snapshots d' = db_lot_snapshots d"
  shows "count_inv d' = count_inv d"
  by (simp add: count_inv_def count_keys_ok_def one_active_def doc_promise_def all_counted_def doc_lines_def assms)

section \<open>The life cycle\<close>

inductive count_step :: "count_doc_status \<Rightarrow> count_doc_status \<Rightarrow> bool" where
  stay: "count_step s s"
| freeze: "count_step CD_DRAFT CD_FROZEN"
| count: "count_step CD_FROZEN CD_COUNTED"
| post: "count_step CD_COUNTED CD_POSTED"
| void: "s \<in> set active_statuses \<Longrightarrow> count_step s CD_VOIDED"

inductive_cases count_step_from_posted [elim!]: "count_step CD_POSTED s"
inductive_cases count_step_from_voided [elim!]: "count_step CD_VOIDED s"

lemma count_steps_final: "count_step\<^sup>*\<^sup>* s t \<Longrightarrow> s \<in> {CD_POSTED, CD_VOIDED} \<Longrightarrow> t = s"
  by (induction rule: rtranclp_induct) (auto simp: active_statuses_def)

lemma count_step_active: "count_step s t \<Longrightarrow> t \<in> set active_statuses \<Longrightarrow> s \<in> set active_statuses"
  by (cases rule: count_step.cases) (auto simp: active_statuses_def)

text \<open>No document disappears, its number and warehouse stay, and its status follows the life cycle.\<close>

definition count_doc_moves :: "count_doc \<Rightarrow> count_doc \<Rightarrow> bool" where
  "count_doc_moves c c' \<longleftrightarrow> cd_id c' = cd_id c \<and> cd_count_no c' = cd_count_no c \<and> cd_warehouse_id c' = cd_warehouse_id c \<and>
     count_step (cd_status c) (cd_status c')"

definition count_docs_move :: "db \<Rightarrow> db \<Rightarrow> bool" where
  "count_docs_move d d' \<longleftrightarrow>
     list_all2 count_doc_moves (db_count_docs d) (take (length (db_count_docs d)) (db_count_docs d'))"

lemma count_doc_moves_refl [simp]: "count_doc_moves c c"
  by (simp add: count_doc_moves_def count_step.stay)

lemma count_docs_move_grow: "db_count_docs d' = db_count_docs d @ new \<Longrightarrow> count_docs_move d d'"
  by (simp add: count_docs_move_def list_all2_same)

lemma count_docs_move_same: "db_count_docs d' = db_count_docs d \<Longrightarrow> count_docs_move d d'"
  by (rule count_docs_move_grow [of _ _ "[]"]) simp

lemma count_docs_move_set:
  assumes "db_count_docs d' = map (\<lambda>c. if cd_id c = i then f c else c) (db_count_docs d)" and "\<And>c. count_doc_moves c (f c)"
  shows "count_docs_move d d'"
  using assms by (auto simp: count_docs_move_def list_all2_conv_all_nth)

lemma count_docs_move_memD:
  assumes "count_docs_move d d'" and "c \<in> set (db_count_docs d)"
  shows "\<exists>c' \<in> set (db_count_docs d'). count_doc_moves c c'"
  using list_all2_memD [OF assms(1) [unfolded count_docs_move_def] assms(2)] by (blast dest: in_set_takeD)

section \<open>Updates of a document\<close>

lemma set_count_doc_simps [simp]:
  "db_count_doc_lines (set_count_doc i f d) = db_count_doc_lines d" "db_lot_snapshots (set_count_doc i f d) = db_lot_snapshots d"
  "db_stocks_lot (set_count_doc i f d) = db_stocks_lot d" "db_stock_ledger (set_count_doc i f d) = db_stock_ledger d"
  "db_lots (set_count_doc i f d) = db_lots d" "db_wms_events (set_count_doc i f d) = db_wms_events d"
  "db_count_docs (set_count_doc i f d) = map (\<lambda>c. if cd_id c = i then f c else c) (db_count_docs d)"
  "doc_lines j (set_count_doc i f d) = doc_lines j d" "all_counted j (set_count_doc i f d) = all_counted j d"
  by (simp_all add: set_count_doc_def doc_lines_def all_counted_def)

lemma one_active_map:
  assumes "distinct (map cd_warehouse_id (filter active cs))"
    and "\<And>c. c \<in> set cs \<Longrightarrow> cd_warehouse_id (f c) = cd_warehouse_id c" and "\<And>c. c \<in> set cs \<Longrightarrow> active (f c) \<Longrightarrow> active c"
  shows "distinct (map cd_warehouse_id (filter active (map f cs)))"
  using assms
proof (induction cs)
  case (Cons c cs)
  have "set (map cd_warehouse_id (filter active (map f cs))) \<subseteq> set (map cd_warehouse_id (filter active cs))"
    using Cons.prems(2,3) by force
  with Cons show ?case by (auto split: if_splits)
qed simp

lemma count_inv_set_doc:
  assumes inv: "count_inv d" and mv: "\<And>c. c \<in> set (db_count_docs d) \<Longrightarrow> cd_id c = i \<Longrightarrow> count_doc_moves c (f c)"
    and pr: "\<And>c. c \<in> set (db_count_docs d) \<Longrightarrow> cd_id c = i \<Longrightarrow> doc_promise d (f c)"
  shows "count_inv (set_count_doc i f d)"
proof -
  let ?f = "\<lambda>c. if cd_id c = i then f c else c"
  have ids: "map cd_id (map ?f (db_count_docs d)) = map cd_id (db_count_docs d)"
    using mv by (auto simp: count_doc_moves_def)
  have "count_keys_ok (set_count_doc i f d)"
    using inv unfolding count_inv_def count_keys_ok_def set_count_doc_simps ids by blast
  moreover have "one_active (set_count_doc i f d)"
    unfolding one_active_def set_count_doc_simps
    by (rule one_active_map) (use inv mv in \<open>auto simp: count_inv_def one_active_def active_def count_doc_moves_def dest: count_step_active split: if_splits\<close>)
  moreover have "doc_promise (set_count_doc i f d) = doc_promise d" by (simp add: doc_promise_def fun_eq_iff)
  ultimately show ?thesis using inv pr by (auto simp: count_inv_def)
qed

section \<open>Every operation keeps the invariant\<close>

lemma require_doc_Inr: "require_doc i d = Inr c \<Longrightarrow> c \<in> set (db_count_docs d) \<and> cd_id c = i"
  by (auto simp: require_doc_def get_count_doc_def res_simps dest: find_SomeD)

lemma doc_unique:
  "count_inv d \<Longrightarrow> c \<in> set (db_count_docs d) \<Longrightarrow> c' \<in> set (db_count_docs d) \<Longrightarrow> cd_id c = cd_id c' \<Longrightarrow> c = c'"
  unfolding count_inv_def count_keys_ok_def by (metis distinct_key_unique)

lemma create_doc_inv:
  assumes inv: "count_inv d" and run: "create_doc now no w sat remark d = Inr (c, d')"
  shows "count_inv d' \<and> count_docs_move d d'"
proof -
  from run have act: "\<forall>x \<in> set (db_count_docs d). cd_warehouse_id x = w \<longrightarrow> \<not> active x"
    and d': "d' = d\<lparr>db_count_docs := db_count_docs d @ [c]\<rparr>" and c: "cd_id c = next_id (map cd_id (db_count_docs d))"
      "cd_warehouse_id c = w" "cd_status c = CD_DRAFT"
    by (auto simp: create_doc_def insert_count_doc_def Let_def res_simps get_active_doc_by_warehouse_def first_by_None active_def)
  have "one_active d'" using inv act c by (auto simp: count_inv_def one_active_def d')
  moreover have "count_keys_ok d'" using inv c by (auto simp: count_inv_def count_keys_ok_def d')
  moreover have "doc_promise d' = doc_promise d" by (simp add: doc_promise_def all_counted_def doc_lines_def d' fun_eq_iff)
  moreover have "doc_promise d c" using c by (simp add: doc_promise_def)
  ultimately have "count_inv d'" using inv by (auto simp: count_inv_def d')
  then show ?thesis using count_docs_move_grow [of d' d "[c]"] by (simp add: d')
qed

lemma distinct_numbered_keys: "inj f \<Longrightarrow> distinct (map (\<lambda>(n, x). f n) (numbered xs))"
proof -
  assume "inj f"
  have "map (\<lambda>(n, x). f n) (numbered xs) = map f (map fst (numbered xs))"
    by (simp only: map_map o_def split_def)
  then show ?thesis unfolding numbered_simps
    by (auto simp: distinct_map inj_on_def inj_eq [OF \<open>inj f\<close>] simp del: upt_Suc)
qed

lemma numbered_mem: "(n, x) \<in> set (numbered xs) \<Longrightarrow> 1 \<le> n \<and> x \<in> set xs"
  unfolding in_set_conv_nth [of _ "numbered xs"] by (auto simp: numbered_nth)

subsection \<open>Freezing\<close>

lemma next_id_greater: "x \<in> set ids \<Longrightarrow> x < next_id ids"
  using foldr_max_ge [of x ids 0] by (simp add: next_id_def)

lemma freeze_doc_Inr:
  assumes "freeze_doc i d = Inr (r, d')"
  obtains doc e w where "doc \<in> set (db_count_docs d)" "cd_id doc = i" "cd_status doc = CD_DRAFT" "w = cd_warehouse_id doc"
    "e = d\<lparr>db_count_doc_lines := kept_lines i d @ frozen_lines i w d, db_lot_snapshots := kept_snaps i d @ frozen_snaps i w d\<rparr>"
    "d' = set_count_doc i (\<lambda>c. c\<lparr>cd_status := CD_FROZEN\<rparr>) e"
    "r = (int (length (frozen_lines i w d)), int (length (frozen_snaps i w d)))"
proof -
  from assms obtain doc where doc: "require_doc i d = Inr doc" and st: "cd_status doc = CD_DRAFT"
    and run: "freeze_doc_lines_from_current_stock i d = Inr (r, d')"
    by (auto simp: freeze_doc_def res_simps)
  have "get_count_doc i d = Some doc" using doc by (simp add: require_doc_def res_simps)
  then show thesis using run require_doc_Inr [OF doc] st
    by (intro that [of doc]) (auto simp: freeze_doc_lines_from_current_stock_def Let_def)
qed

lemma new_count_line_simps [simp]:
  "cl_id (new_count_line i w b d (n, x)) = b + n - 1" "cl_doc_id (new_count_line i w b d nx) = i"
  "cl_line_no (new_count_line i w b d (n, x)) = n" "cl_item_id (new_count_line i w b d (n, x)) = x"
  "cl_snapshot_qty (new_count_line i w b d (n, x)) = get_available_for_item w x d"
  "cl_counted_qty (new_count_line i w b d nx) = None" "cl_diff_qty (new_count_line i w b d nx) = None"
  by (simp_all add: new_count_line_def split: prod.splits)

lemma new_snapshot_simps [simp]:
  "ls_line_id (new_snapshot w b d (n, l, lid)) = cl_id l" "ls_lot_id (new_snapshot w b d (n, l, lid)) = lid"
  "ls_qty (new_snapshot w b d (n, l, lid)) = on_hand d (w, cl_item_id l, lid)"
  by (simp_all add: new_snapshot_def)

lemma map_numbered: "(\<And>n x. f (n, x) = g x) \<Longrightarrow> map f (numbered xs) = map g xs"
  by (rule nth_equalityI) (auto simp: numbered_nth)

lemma distinct_frozen [simp]: "distinct (frozen_items w d)" "distinct (frozen_lots w i d)"
  by (simp_all add: frozen_items_def frozen_lots_def)

lemma distinct_line_lot_pairs:
  "distinct (map cl_id ls) \<Longrightarrow> distinct (map (\<lambda>(l, lid). (cl_id l, lid)) (line_lot_pairs w d ls))"
proof (induction ls)
  case (Cons l ls)
  have "distinct (map (\<lambda>lid. (cl_id l, lid)) (frozen_lots w (cl_item_id l) d))" by (simp add: distinct_map inj_on_def)
  moreover have "(a, lid) \<notin> set (line_lot_pairs w d ls)" if "cl_id a = cl_id l" for a lid
    using Cons.prems that by (auto simp: line_lot_pairs_def image_iff)
  ultimately show ?case using Cons by (auto simp: line_lot_pairs_def o_def)
qed (simp add: line_lot_pairs_def)

lemma frozen_lines_keys:
  "distinct (map cl_id (frozen_lines i w d))" "distinct (map cl_line_no (frozen_lines i w d))"
  "map cl_item_id (frozen_lines i w d) = frozen_items w d"
  "\<forall>l \<in> set (frozen_lines i w d). cl_doc_id l = i \<and> line_consistent l \<and>
     next_id (map cl_id (kept_lines i d)) \<le> cl_id l \<and> cl_snapshot_qty l = get_available_for_item w (cl_item_id l) d"
proof -
  let ?b = "next_id (map cl_id (kept_lines i d))"
  have "map cl_id (frozen_lines i w d) = map (\<lambda>(n, x). ?b + n - 1) (numbered (frozen_items w d))" by (auto simp: frozen_lines_def)
  then show "distinct (map cl_id (frozen_lines i w d))" using distinct_numbered_keys [of "\<lambda>n. ?b + n - 1"] by (simp add: inj_def)
  have "map cl_line_no (frozen_lines i w d) = map (\<lambda>(n, x). n) (numbered (frozen_items w d))" by (auto simp: frozen_lines_def)
  then show "distinct (map cl_line_no (frozen_lines i w d))" using distinct_numbered_keys [of "\<lambda>n. n"] by (simp add: inj_def)
  show "map cl_item_id (frozen_lines i w d) = frozen_items w d"
    unfolding frozen_lines_def map_map o_def by (subst map_numbered [where g = "\<lambda>x. x"]) simp_all
  show "\<forall>l \<in> set (frozen_lines i w d). cl_doc_id l = i \<and> line_consistent l \<and>
     next_id (map cl_id (kept_lines i d)) \<le> cl_id l \<and> cl_snapshot_qty l = get_available_for_item w (cl_item_id l) d"
    by (auto simp: frozen_lines_def line_consistent_def frozen_items_def dest!: numbered_mem)
qed

lemma frozen_line_fresh:
  assumes "x \<in> set (kept_lines i d)" and "l \<in> set (frozen_lines i w d)"
  shows "cl_id x \<noteq> cl_id l"
proof -
  have "cl_id x < next_id (map cl_id (kept_lines i d))" using assms(1) by (intro next_id_greater) simp
  moreover have "next_id (map cl_id (kept_lines i d)) \<le> cl_id l" using frozen_lines_keys(4) [of i w d] assms(2) by blast
  ultimately show ?thesis by simp
qed

lemma frozen_snaps_keys:
  "map (\<lambda>s. (ls_line_id s, ls_lot_id s)) (frozen_snaps i w d) = map (\<lambda>(l, lid). (cl_id l, lid)) (line_lot_pairs w d (frozen_lines i w d))"
  "\<forall>s \<in> set (frozen_snaps i w d). ls_line_id s \<in> set (map cl_id (frozen_lines i w d))"
proof -
  show "map (\<lambda>s. (ls_line_id s, ls_lot_id s)) (frozen_snaps i w d) = map (\<lambda>(l, lid). (cl_id l, lid)) (line_lot_pairs w d (frozen_lines i w d))"
    unfolding frozen_snaps_def map_map o_def by (rule map_numbered) auto
  show "\<forall>s \<in> set (frozen_snaps i w d). ls_line_id s \<in> set (map cl_id (frozen_lines i w d))"
    by (auto simp: frozen_snaps_def line_lot_pairs_def dest!: numbered_mem)
qed

lemma kept_snaps_line:
  assumes "count_inv d" and "s \<in> set (kept_snaps i d)"
  shows "ls_line_id s \<in> set (map cl_id (kept_lines i d))"
  using assms by (force simp: count_inv_def count_keys_ok_def kept_snaps_def kept_lines_def doc_lines_def)

lemma distinct_map_append:
  "distinct (map f (xs @ ys)) \<longleftrightarrow> distinct (map f xs) \<and> distinct (map f ys) \<and> (\<forall>x \<in> set xs. \<forall>y \<in> set ys. f x \<noteq> f y)"
  by (auto simp: image_iff)

lemma freeze_keys:
  assumes inv: "count_inv d"
  shows "distinct (map cl_id (kept_lines i d @ frozen_lines i w d))"
    "distinct (map (\<lambda>l. (cl_doc_id l, cl_line_no l)) (kept_lines i d @ frozen_lines i w d))"
    "distinct (map (\<lambda>l. (cl_doc_id l, cl_item_id l)) (kept_lines i d @ frozen_lines i w d))"
    "distinct (map (\<lambda>s. (ls_line_id s, ls_lot_id s)) (kept_snaps i d @ frozen_snaps i w d))"
proof -
  note K = frozen_lines_keys [of i w d] and keys = inv [unfolded count_inv_def count_keys_ok_def]
  show "distinct (map cl_id (kept_lines i d @ frozen_lines i w d))"
    unfolding distinct_map_append using keys K(1) frozen_line_fresh by (simp add: kept_lines_def distinct_map_filter)
  have "distinct (map (\<lambda>l. (cl_doc_id l, cl_line_no l)) (frozen_lines i w d))" using K(2) by (auto simp: distinct_map inj_on_def)
  then show "distinct (map (\<lambda>l. (cl_doc_id l, cl_line_no l)) (kept_lines i d @ frozen_lines i w d))"
    unfolding distinct_map_append using keys K(4) by (auto simp: kept_lines_def distinct_map_filter)
  have "distinct (map cl_item_id (frozen_lines i w d))" unfolding K(3) by simp
  then have "distinct (map (\<lambda>l. (cl_doc_id l, cl_item_id l)) (frozen_lines i w d))" by (auto simp: distinct_map inj_on_def)
  then show "distinct (map (\<lambda>l. (cl_doc_id l, cl_item_id l)) (kept_lines i d @ frozen_lines i w d))"
    unfolding distinct_map_append using keys K(4) by (auto simp: kept_lines_def distinct_map_filter)
  have "distinct (map (\<lambda>s. (ls_line_id s, ls_lot_id s)) (frozen_snaps i w d))"
    unfolding frozen_snaps_keys(1) by (rule distinct_line_lot_pairs [OF K(1)])
  moreover have "ls_line_id s \<noteq> ls_line_id t" if "s \<in> set (kept_snaps i d)" "t \<in> set (frozen_snaps i w d)" for s t
    using kept_snaps_line [OF inv that(1)] frozen_snaps_keys(2) that(2) frozen_line_fresh by (metis (no_types, lifting) imageE list.set_map)
  ultimately show "distinct (map (\<lambda>s. (ls_line_id s, ls_lot_id s)) (kept_snaps i d @ frozen_snaps i w d))"
    unfolding distinct_map_append using keys by (auto simp: kept_snaps_def distinct_map_filter)
qed

lemma freeze_doc_inv:
  assumes inv: "count_inv d" and run: "freeze_doc i d = Inr (r, d')"
  shows "count_inv d' \<and> count_docs_move d d'"
  using run
proof (rule freeze_doc_Inr)
  fix doc e w
  assume doc: "doc \<in> set (db_count_docs d)" "cd_id doc = i" "cd_status doc = CD_DRAFT"
    and e: "e = d\<lparr>db_count_doc_lines := kept_lines i d @ frozen_lines i w d, db_lot_snapshots := kept_snaps i d @ frozen_snaps i w d\<rparr>"
    and d': "d' = set_count_doc i (\<lambda>c. c\<lparr>cd_status := CD_FROZEN\<rparr>) e"
  note K = frozen_lines_keys [of i w d] and keys = inv [unfolded count_inv_def count_keys_ok_def]
  have fk: "\<forall>s \<in> set (kept_snaps i d @ frozen_snaps i w d). ls_line_id s \<in> set (map cl_id (kept_lines i d @ frozen_lines i w d))"
    using kept_snaps_line [OF inv] frozen_snaps_keys(2) by auto
  have fkd: "\<forall>l \<in> set (kept_lines i d @ frozen_lines i w d). cl_doc_id l \<in> set (map cd_id (db_count_docs d))"
    using keys K(4) doc by (auto simp: kept_lines_def)
  have "count_keys_ok e" unfolding count_keys_ok_def using keys freeze_keys [OF inv] fk fkd by (simp add: e)
  moreover have "doc_lines j e = doc_lines j d" if "j \<noteq> i" for j
    using that K(4) by (auto simp: doc_lines_def e kept_lines_def filter_empty_conv intro: filter_cong)
  then have "doc_promise e c" if "c \<in> set (db_count_docs d)" for c
    using that keys doc doc_unique [OF inv that doc(1)] by (cases "cd_id c = i") (auto simp: doc_promise_def all_counted_def)
  moreover have "\<forall>l \<in> set (db_count_doc_lines e). line_consistent l" using keys K(4) by (auto simp: e kept_lines_def)
  ultimately have "count_inv e" using inv by (auto simp: count_inv_def one_active_def e)
  moreover have mv: "count_doc_moves c (c\<lparr>cd_status := CD_FROZEN\<rparr>)" if "c \<in> set (db_count_docs d)" "cd_id c = i" for c
    using that doc doc_unique [OF inv, of c doc] by (auto simp: count_doc_moves_def intro: count_step.freeze)
  ultimately have "count_inv d'" unfolding d' by (intro count_inv_set_doc) (auto simp: doc_promise_def e)
  moreover have "count_docs_move d d'"
    using mv by (auto simp: count_docs_move_def d' e list_all2_conv_all_nth)
  ultimately show ?thesis by simp
qed

end
