(* ===== verification/Count_Post.thy ===== *)
theory Count_Post
  imports Count_Tables
begin

text \<open>
  Counting, posting and voiding: the remaining operations keep the invariant of \<open>Count_Tables\<close>,
  and posting moves the stock of every counted item by exactly its difference. The last section
  has the facts on the lines of a document that the properties in \<open>Count_Life\<close> rest on.
\<close>

section \<open>Counting\<close>

lemma counted_line_simps [simp]:
  "cl_id (counted_line u n q l) = cl_id l" "cl_doc_id (counted_line u n q l) = cl_doc_id l"
  "cl_line_no (counted_line u n q l) = cl_line_no l" "cl_item_id (counted_line u n q l) = cl_item_id l"
  "cl_snapshot_qty (counted_line u n q l) = cl_snapshot_qty l" "cl_counted_qty (counted_line u n q l) = Some q"
  "cl_diff_qty (counted_line u n q l) = Some (q - cl_snapshot_qty l)" "cl_qty_input (counted_line u n q l) = Some q"
  by (simp_all add: counted_line_def)

text \<open>Lines rewritten in place: keys stay, counted lines stay counted.\<close>

lemma count_inv_map_lines:
  assumes inv: "count_inv d" and d': "d' = d\<lparr>db_count_doc_lines := map f (db_count_doc_lines d)\<rparr>"
    and f: "\<And>l. (cl_id (f l), cl_doc_id (f l), cl_line_no (f l), cl_item_id (f l)) = (cl_id l, cl_doc_id l, cl_line_no l, cl_item_id l)"
      "\<And>l. line_consistent l \<Longrightarrow> line_consistent (f l)" "\<And>l. cl_counted_qty l \<noteq> None \<Longrightarrow> cl_counted_qty (f l) \<noteq> None"
  shows "count_inv d'"
proof -
  have [simp]: "cl_id (f l) = cl_id l" "cl_doc_id (f l) = cl_doc_id l" "cl_line_no (f l) = cl_line_no l"
    "cl_item_id (f l) = cl_item_id l" for l using f(1) [of l] by auto
  have "doc_lines j d' = map f (doc_lines j d)" for j by (simp add: doc_lines_def d' filter_map o_def)
  then have "all_counted j d \<Longrightarrow> all_counted j d'" for j using f(3) by (auto simp: all_counted_def)
  then have "doc_promise d c \<Longrightarrow> doc_promise d' c" for c by (simp add: doc_promise_def)
  moreover have "count_keys_ok d'" using inv by (simp add: count_inv_def count_keys_ok_def d' o_def)
  ultimately show ?thesis using inv f(2) by (auto simp: count_inv_def one_active_def d')
qed

lemma update_line_count_inv:
  assumes "count_inv d" and "update_line_count lu i raw d = Inr (u, d')"
  shows "count_inv d' \<and> (\<exists>ls. d' = d\<lparr>db_count_doc_lines := ls\<rparr>)"
proof -
  from assms(2) obtain line un q where q: "0 \<le> cp_qty_input raw"
    and d': "d' = d\<lparr>db_count_doc_lines := map (\<lambda>l. if cl_id l = cp_line_id raw then counted_line un q (cp_qty_input raw) l else l)
       (db_count_doc_lines d)\<rparr>"
    by (auto simp: update_line_count_def res_simps)
  have "count_inv d'"
    by (rule count_inv_map_lines [OF assms(1) d']) (use q in \<open>auto simp: line_consistent_def\<close>)
  with d' show ?thesis by blast
qed

lemma update_lines_inv:
  assumes "count_inv d" and "map_loop (update_line_count lu i) raws d = Inr (us, d')"
  shows "count_inv d' \<and> (\<exists>ls. d' = d\<lparr>db_count_doc_lines := ls\<rparr>)"
proof (rule map_loop_invariant [where I = "\<lambda>x. count_inv x \<and> (\<exists>ls. x = d\<lparr>db_count_doc_lines := ls\<rparr>)", OF _ _ assms(2)])
  fix x s y s'
  assume s: "count_inv s \<and> (\<exists>ls. s = d\<lparr>db_count_doc_lines := ls\<rparr>)" and run: "update_line_count lu i x s = Inr (y, s')"
  then obtain ls ls' where "s = d\<lparr>db_count_doc_lines := ls\<rparr>" "s' = s\<lparr>db_count_doc_lines := ls'\<rparr>"
    using update_line_count_inv by blast
  then have "s' = d\<lparr>db_count_doc_lines := ls'\<rparr>" by simp
  then show "count_inv s' \<and> (\<exists>ls. s' = d\<lparr>db_count_doc_lines := ls\<rparr>)" using update_line_count_inv [OF _ run] s by blast
next
  have "d = d\<lparr>db_count_doc_lines := db_count_doc_lines d\<rparr>" by simp
  then show "count_inv d \<and> (\<exists>ls. d = d\<lparr>db_count_doc_lines := ls\<rparr>)" using assms(1) by blast
qed

lemma norm_text_strip: "norm_text v = Some s \<Longrightarrow> norm_text (Some (py_strip s)) = Some s"
  by (auto simp: norm_text_def Let_def split: option.splits if_splits)

text \<open>The two updates of the document after its lines were written.\<close>

lemma mark_counted_inv:
  assumes inv: "count_inv d" and "doc \<in> set (db_count_docs d)" "cd_id doc = i" "cd_status doc \<in> {CD_FROZEN, CD_COUNTED}"
    and name: "norm_text v = Some name"
  defines "d2 \<equiv> set_count_doc i (\<lambda>c. c\<lparr>cd_counted_by := Some (py_strip name), cd_reviewed_by := None\<rparr>) d"
  shows "count_inv (try_mark_doc_counted now i d2)" and "count_docs_move d (try_mark_doc_counted now i d2)"
    and "all_counted i d \<Longrightarrow> c' \<in> set (db_count_docs (try_mark_doc_counted now i d2)) \<Longrightarrow> cd_id c' = i \<Longrightarrow> cd_status c' = CD_COUNTED"
proof -
  let ?g = "\<lambda>c. c\<lparr>cd_counted_by := Some (py_strip name), cd_reviewed_by := None\<rparr>"
  let ?h = "\<lambda>c. if cd_status c = CD_FROZEN \<and> all_counted i d2
     then c\<lparr>cd_status := CD_COUNTED, cd_counted_at := (case cd_counted_at c of Some t \<Rightarrow> Some t | None \<Rightarrow> Some now)\<rparr> else c"
  have pr: "doc_promise d c" if "c \<in> set (db_count_docs d)" for c using inv that by (simp add: count_inv_def)
  have i2: "count_inv d2" unfolding d2_def
    by (rule count_inv_set_doc [OF inv]) (use pr norm_text_strip [OF name] in \<open>auto simp: count_doc_moves_def doc_promise_def intro: count_step.stay\<close>)
  have ac: "all_counted i d2 = all_counted i d" by (simp add: d2_def)
  have cb: "norm_text (cd_counted_by c) \<noteq> None" if "c \<in> set (db_count_docs d2)" "cd_id c = i" for c
  proof -
    from that(1) obtain c0 where "c = (if cd_id c0 = i then ?g c0 else c0)" unfolding d2_def set_count_doc_simps set_map by blast
    with that(2) show ?thesis by (cases "cd_id c0 = i") (simp_all add: norm_text_strip [OF name])
  qed
  have mv: "count_doc_moves c (?h c)" for c by (auto simp: count_doc_moves_def intro: count_step.intros)
  show "count_inv (try_mark_doc_counted now i d2)" unfolding try_mark_doc_counted_def
  proof (rule count_inv_set_doc [OF i2 mv])
    fix c assume c: "c \<in> set (db_count_docs d2)" "cd_id c = i"
    then have "doc_promise d2 c" using i2 by (simp add: count_inv_def)
    with cb [OF c] c(2) show "doc_promise d2 (?h c)" by (auto simp: doc_promise_def)
  qed
  have fin: "db_count_docs (try_mark_doc_counted now i d2) = map (\<lambda>c. if cd_id c = i then ?h (?g c) else c) (db_count_docs d)"
    by (auto simp: try_mark_doc_counted_def d2_def)
  show "count_docs_move d (try_mark_doc_counted now i d2)"
    by (rule count_docs_move_set [OF fin]) (auto simp: count_doc_moves_def intro: count_step.intros)
  assume cnt: "all_counted i d" and c': "c' \<in> set (db_count_docs (try_mark_doc_counted now i d2))" "cd_id c' = i"
  from c'(1) obtain c where c: "c \<in> set (db_count_docs d)" "c' = (if cd_id c = i then ?h (?g c) else c)"
    unfolding fin set_map by blast
  with c'(2) have "cd_id c = i" by (cases "cd_id c = i") auto
  moreover from this c(1) have "c = doc" using doc_unique [OF inv, of c doc] assms(2,3) by simp
  ultimately show "cd_status c' = CD_COUNTED" using c(2) cnt ac assms(4) by auto
qed

lemma update_doc_lines_Inr:
  assumes "count_inv d" and "update_doc_lines lu now i by_name raws d = Inr (n, d')"
  obtains doc name d1 us where "doc \<in> set (db_count_docs d)" "cd_id doc = i" "cd_status doc \<in> {CD_FROZEN, CD_COUNTED}"
    "norm_text (Some by_name) = Some name" "map_loop (update_line_count lu i) raws d = Inr (us, d1)" "count_inv d1"
    "db_count_docs d1 = db_count_docs d" "\<exists>ls. d1 = d\<lparr>db_count_doc_lines := ls\<rparr>"
    "d' = try_mark_doc_counted now i (set_count_doc i (\<lambda>c. c\<lparr>cd_counted_by := Some (py_strip name), cd_reviewed_by := None\<rparr>) d1)"
proof -
  from assms(2) obtain doc name d1 us where "require_doc i d = Inr doc" "cd_status doc \<in> {CD_FROZEN, CD_COUNTED}"
    "norm_text (Some by_name) = Some name" "map_loop (update_line_count lu i) raws d = Inr (us, d1)"
    "d' = try_mark_doc_counted now i (set_count_doc i (\<lambda>c. c\<lparr>cd_counted_by := Some (py_strip name), cd_reviewed_by := None\<rparr>) d1)"
    by (auto simp: update_doc_lines_def update_line_counts_def res_simps)
  with update_lines_inv [OF assms(1) this(4)] require_doc_Inr [OF this(1)] show thesis by (intro that [of doc name us d1]) auto
qed

lemma update_doc_lines_inv:
  assumes "count_inv d" and "update_doc_lines lu now i by_name raws d = Inr (n, d')"
  shows "count_inv d' \<and> count_docs_move d d'"
  using assms
proof (rule update_doc_lines_Inr)
  fix doc name d1
  assume doc: "doc \<in> set (db_count_docs d)" "cd_id doc = i" "cd_status doc \<in> {CD_FROZEN, CD_COUNTED}"
    and name: "norm_text (Some by_name) = Some name" and i1: "count_inv d1" and docs: "db_count_docs d1 = db_count_docs d"
    and d': "d' = try_mark_doc_counted now i (set_count_doc i (\<lambda>c. c\<lparr>cd_counted_by := Some (py_strip name), cd_reviewed_by := None\<rparr>) d1)"
  have "doc \<in> set (db_count_docs d1)" using doc(1) docs by simp
  note M = mark_counted_inv(1,2) [OF i1 this doc(2,3) name]
  from M show ?thesis unfolding d' count_docs_move_def docs by blast
qed

section \<open>Posting\<close>

lemma consume_lots_only_stock: "consume_lots pol now doc line ev snaps q d = Inr (r, d') \<Longrightarrow> only_stock d d'"
proof (induction snaps arbitrary: q d)
  case (Cons s snaps)
  then show ?case
    by (auto simp: res_simps Let_def split: if_splits dest!: adjust_lot_only_stock intro: only_stock_trans)
qed simp

lemma post_line_only_stock: "post_line_diff pol now doc ev line d = Inr (u, d') \<Longrightarrow> only_stock d d'"
  by (auto simp: post_line_diff_def Let_def res_simps simp del: consume_lots.simps split: list.splits if_splits
      dest: adjust_lot_only_stock consume_lots_only_stock)

lemma adjust_lot_row:
  assumes "books_ok d" and "adjust_lot pol now a d = Inr (AdjustApplied x, d')"
  shows "\<exists>row. db_stock_ledger d' = db_stock_ledger d @ [row] \<and>
     led_key row = (reason_value (aa_reason a), aa_ref a, adj_ref_line x, adjust_dims a x) \<and> led_delta row = aa_delta a"
  using assms(2)
proof (rule adjust_lot_Applied)
  fix su e
  assume args: "adj_reason x = reason_value (aa_reason a)" "adj_ref x = aa_ref a"
    and key: "(adj_reason x, adj_ref x, adj_ref_line x, adjust_dims a x) \<notin> set (map led_key (db_stock_ledger d))"
    and slot: "adjust_slot (aa_item_id a) (aa_warehouse_id a) (adj_lot_id x) (aa_delta a) (adj_reason x) su (adj_ref x)
     (adj_ref_line x) (adj_occurred_at x) (aa_trace_id a) e (adj_production_date x) (adj_expiry_date x) d
     = Inr ((adj_before x, adj_after x), d')"
  from adjust_slot_effect(5) [OF assms(1) slot key [unfolded adjust_dims_def]] args show ?thesis
    by (auto simp: base_values_def Let_def led_key_def led_dims_def adjust_dims_def)
qed

text \<open>The ledger has no row of this event and line for these lots.\<close>

definition unposted :: "wms_event \<Rightarrow> count_doc_line \<Rightarrow> int set \<Rightarrow> db \<Rightarrow> bool" where
  "unposted ev line lots d \<longleftrightarrow>
     (\<forall>r \<in> set (db_stock_ledger d). led_ref r = ev_no ev \<longrightarrow> led_ref_line r = cl_line_no line \<longrightarrow> led_lot_id r \<notin> lots)"

definition posted_rows :: "wms_event \<Rightarrow> count_doc_line \<Rightarrow> int set \<Rightarrow> db \<Rightarrow> db \<Rightarrow> bool" where
  "posted_rows ev line lots d d' \<longleftrightarrow>
     (\<forall>r \<in> set (db_stock_ledger d'). r \<in> set (db_stock_ledger d) \<or>
        (led_ref r = ev_no ev \<and> led_ref_line r = cl_line_no line \<and> led_lot_id r \<in> lots))"

definition item_moves :: "int \<Rightarrow> int \<Rightarrow> int \<Rightarrow> db \<Rightarrow> db \<Rightarrow> bool" where
  "item_moves w i q d d' \<longleftrightarrow>
     (\<forall>w' i'. get_available_for_item w' i' d' = get_available_for_item w' i' d + (if w' = w \<and> i' = i then q else 0))"

lemma item_moves_trans: "item_moves w i p a b \<Longrightarrow> item_moves w i q b c \<Longrightarrow> item_moves w i (p + q) a c"
  by (simp add: item_moves_def)

lemma item_moves_zero [simp]: "item_moves w i 0 d d"
  by (simp add: item_moves_def)

lemma count_adjust_effect:
  assumes ok: "books_ok d" and run: "adjust_lot pol now (count_adjust_args doc line ev snap delta sub) d = Inr (r, d')"
    and fresh: "delta \<noteq> 0 \<Longrightarrow> unposted ev line {ls_lot_id snap} d"
  shows "books_ok d' \<and> item_moves (cd_warehouse_id doc) (cl_item_id line) delta d d' \<and> posted_rows ev line {ls_lot_id snap} d d'"
proof (cases r)
  case AdjustSkipped
  with run have same: "d' = d" by (auto dest: adjust_lot_Skipped)
  have "delta = 0"
  proof (rule ccontr)
    assume "delta \<noteq> 0"
    from run AdjustSkipped have "adjust_lot pol now (count_adjust_args doc line ev snap delta sub) d = Inr (AdjustSkipped, d')" by simp
    then show False
      by (rule adjust_lot_not_skipped) (use \<open>delta \<noteq> 0\<close> fresh in \<open>auto simp: count_adjust_args_def ref_line_of_def unposted_def led_key_def led_dims_def\<close>)
  qed
  with same ok show ?thesis by (simp add: posted_rows_def)
next
  case (AdjustApplied x)
  with run have ap: "adjust_lot pol now (count_adjust_args doc line ev snap delta sub) d = Inr (AdjustApplied x, d')" by simp
  have args: "adj_lot_id x = ls_lot_id snap" "adj_ref_line x = cl_line_no line"
    using adjust_applied_args(1,3) [OF ap] by (simp_all add: count_adjust_args_def ref_line_of_def)
  have "item_moves (cd_warehouse_id doc) (cl_item_id line) delta d d'"
    using adjust_available(1) [OF ok ap] by (auto simp: item_moves_def count_adjust_args_def)
  moreover have "posted_rows ev line {ls_lot_id snap} d d'"
    using adjust_lot_row [OF ok ap] args
    by (auto simp: posted_rows_def led_key_def led_dims_def adjust_dims_def count_adjust_args_def)
  ultimately show ?thesis using adjust_lot_books(1) [OF ok run] by simp
qed

lemma posted_rows_trans:
  "posted_rows ev line A a b \<Longrightarrow> posted_rows ev line B b c \<Longrightarrow> posted_rows ev line (A \<union> B) a c"
  unfolding posted_rows_def by blast

lemma unposted_after: "posted_rows ev line A d d' \<Longrightarrow> unposted ev line B d \<Longrightarrow> A \<inter> B = {} \<Longrightarrow> unposted ev line B d'"
  unfolding posted_rows_def unposted_def by blast

lemma consume_lots_effect:
  assumes "books_ok d" and "consume_lots pol now doc line ev snaps q d = Inr (q', d')" and "distinct (map ls_lot_id snaps)"
    and "unposted ev line (ls_lot_id ` set snaps) d" and "0 \<le> q"
  shows "books_ok d' \<and> item_moves (cd_warehouse_id doc) (cl_item_id line) (q' - q) d d' \<and>
     posted_rows ev line (ls_lot_id ` set snaps) d d'"
  using assms
proof (induction snaps arbitrary: q d)
  case Nil
  then show ?case by (simp add: posted_rows_def)
next
  case (Cons s snaps)
  have tail: "unposted ev line (ls_lot_id ` set snaps) d" using Cons.prems(4) by (auto simp: unposted_def)
  consider "q \<le> 0" | "0 < q" "ls_qty s \<le> 0" | "0 < q" "0 < ls_qty s" by linarith
  then show ?case
  proof cases
    case 1
    with Cons.prems show ?thesis by (simp add: posted_rows_def)
  next
    case 2
    with Cons.prems have "consume_lots pol now doc line ev snaps q d = Inr (q', d')" by simp
    from Cons.IH [OF Cons.prems(1) this _ tail Cons.prems(5)] Cons.prems(3) show ?thesis by (auto simp: posted_rows_def)
  next
    case 3
    let ?c = "min q (ls_qty s)"
    from 3 Cons.prems(2) obtain r t where one: "adjust_lot pol now (count_adjust_args doc line ev s (- ?c) ''COUNT_ADJUST'') d = Inr (r, t)"
      and rest: "consume_lots pol now doc line ev snaps (q - ?c) t = Inr (q', d')"
      by (auto simp: res_simps Let_def)
    have E: "books_ok t" "item_moves (cd_warehouse_id doc) (cl_item_id line) (- ?c) d t" "posted_rows ev line {ls_lot_id s} d t"
      using count_adjust_effect [OF Cons.prems(1) one] Cons.prems(4) by (auto simp: unposted_def)
    have "unposted ev line (ls_lot_id ` set snaps) t"
      by (rule unposted_after [OF E(3) tail]) (use Cons.prems(3) in auto)
    from Cons.IH [OF E(1) rest _ this] Cons.prems(3) have
      "books_ok d' \<and> item_moves (cd_warehouse_id doc) (cl_item_id line) (q' - (q - ?c)) t d' \<and> posted_rows ev line (ls_lot_id ` set snaps) t d'"
      by simp
    then show ?thesis
      using item_moves_trans [OF E(2)] posted_rows_trans [OF E(3)] by (fastforce simp: algebra_simps)
  qed
qed

lemma snapshot_lots_distinct:
  assumes "count_inv d"
  shows "distinct (map ls_lot_id (get_line_lot_snapshots lid d))"
proof -
  have "distinct (map (\<lambda>s. (ls_line_id s, ls_lot_id s)) (db_lot_snapshots d))"
    using assms unfolding count_inv_def count_keys_ok_def by (elim conjE)
  then have "distinct (map ls_lot_id (filter (\<lambda>s. ls_line_id s = lid) (db_lot_snapshots d)))"
    by (auto simp: distinct_map inj_on_def)
  then show ?thesis by (simp add: get_line_lot_snapshots_def distinct_map)
qed

lemma post_line_effect:
  assumes ok: "books_ok d" and inv: "count_inv d" and run: "post_line_diff pol now doc ev line d = Inr (u, d')"
    and fresh: "unposted ev line UNIV d" and q: "cl_diff_qty line = Some q"
  shows "books_ok d' \<and> item_moves (cd_warehouse_id doc) (cl_item_id line) q d d' \<and> posted_rows ev line UNIV d d'"
proof -
  obtain t ts where snaps: "get_line_lot_snapshots (cl_id line) d = t # ts"
    using run by (auto simp: post_line_diff_def Let_def split: list.splits)
  have un: "unposted ev line A d" for A using fresh by (simp add: unposted_def)
  have up: "posted_rows ev line A d d' \<Longrightarrow> posted_rows ev line UNIV d d'" for A by (auto simp: posted_rows_def)
  show ?thesis
  proof (cases "0 \<le> q")
    case True
    with run snaps q obtain sub r where
      "adjust_lot pol now (count_adjust_args doc line ev t q sub) d = Inr (r, d')"
      by (auto simp: post_line_diff_def Let_def res_simps simp del: consume_lots.simps split: if_splits)
    from count_adjust_effect [OF ok this un] up show ?thesis by blast
  next
    case False
    with run snaps q have "consume_lots pol now doc line ev (t # ts) (- q) d = Inr (0, d')"
      by (auto simp: post_line_diff_def Let_def res_simps simp del: consume_lots.simps split: if_splits)
    from consume_lots_effect [OF ok this _ un] snapshot_lots_distinct [OF inv, of "cl_id line"] False up show ?thesis
      by (auto simp: snaps)
  qed
qed

definition total_diff :: "count_doc_line list \<Rightarrow> int \<Rightarrow> int" where
  "total_diff ls i = sum_where (\<lambda>l. the (cl_diff_qty l)) (\<lambda>l. cl_item_id l = i) ls"

lemma post_lines_effect:
  assumes "books_ok d" and "count_inv d" and "map_loop (post_line_diff pol now doc ev) ls d = Inr (us, d')"
    and "distinct (map cl_line_no ls)" and "\<forall>l \<in> set ls. cl_diff_qty l \<noteq> None"
    and "\<forall>r \<in> set (db_stock_ledger d). led_ref r = ev_no ev \<longrightarrow> led_ref_line r \<notin> cl_line_no ` set ls"
  shows "books_ok d' \<and> only_stock d d' \<and> (\<forall>w i. get_available_for_item w i d' = get_available_for_item w i d +
     (if w = cd_warehouse_id doc then total_diff ls i else 0))"
  using assms
proof (induction ls arbitrary: d us)
  case (Cons l ls)
  from Cons.prems(3) obtain u t us' where one: "post_line_diff pol now doc ev l d = Inr (u, t)"
    and rest: "map_loop (post_line_diff pol now doc ev) ls t = Inr (us', d')" by (auto simp: res_simps)
  obtain q where q: "cl_diff_qty l = Some q" using Cons.prems(5) by auto
  have E: "books_ok t" "item_moves (cd_warehouse_id doc) (cl_item_id l) q d t" "posted_rows ev l UNIV d t"
    using post_line_effect [OF Cons.prems(1,2) one _ q] Cons.prems(6) by (auto simp: unposted_def)
  have os: "only_stock d t" by (rule post_line_only_stock [OF one])
  have "count_inv t" using Cons.prems(2) count_inv_frame [of t d] only_stock_simps [OF os] by simp
  moreover have "\<forall>r \<in> set (db_stock_ledger t). led_ref r = ev_no ev \<longrightarrow> led_ref_line r \<notin> cl_line_no ` set ls"
    using E(3) Cons.prems(4,6) by (fastforce simp: posted_rows_def)
  ultimately have "books_ok d' \<and> only_stock t d' \<and> (\<forall>w i. get_available_for_item w i d' = get_available_for_item w i t +
     (if w = cd_warehouse_id doc then total_diff ls i else 0))"
    using Cons.prems(4,5) by (intro Cons.IH [OF E(1) _ rest]) auto
  then show ?case using E(2) q only_stock_trans [OF os] by (auto simp: item_moves_def total_diff_def)
qed (simp add: total_diff_def)

lemma post_doc_Inr:
  assumes "post_doc pol now tr no i by_name d = Inr (r, d')" and "require_doc i d = Inr doc" and "cd_status doc = CD_COUNTED"
  obtains name ctx ev d2 d3 us where "norm_text (Some by_name) = Some name" "cd_warehouse_id ctx = cd_warehouse_id doc"
    "\<forall>l \<in> set (doc_lines i d). cl_counted_qty l \<noteq> None \<and> cl_diff_qty l \<noteq> None" "doc_lines i d \<noteq> []" "ev_no ev = no"
    "d2 = (set_reviewed_by_name_snapshot i name d)\<lparr>db_wms_events := db_wms_events d @ [ev]\<rparr>"
    "map_loop (post_line_diff pol now ctx ev) (doc_lines i d) d2 = Inr (us, d3)"
    "mark_doc_posted i (ev_id ev) now d3 = Inr ((), d')" "r = (ev_id ev, now)"
proof -
  from assms obtain name model e ev d2 d3 us where name: "norm_text (Some by_name) = Some name"
    and model: "require_doc i (set_reviewed_by_name_snapshot i name d) = Inr model"
    and lines: "\<forall>l \<in> set (doc_lines i d). cl_counted_qty l \<noteq> None \<and> cl_diff_qty l \<noteq> None" "doc_lines i d \<noteq> []"
    and ins: "insert_event e (set_reviewed_by_name_snapshot i name d) = Inr (ev, d2)" "ev_no e = no"
    and loop: "map_loop (post_line_diff pol now (model\<lparr>cd_counted_by := norm_text (cd_counted_by model),
         cd_reviewed_by := norm_text (cd_reviewed_by model)\<rparr>) ev) (doc_lines i d) d2 = Inr (us, d3)"
    and mark: "mark_doc_posted i (ev_id ev) now d3 = Inr ((), d')" "r = (ev_id ev, now)"
    by (fastforce simp: post_doc_def Let_def res_simps set_reviewed_by_name_snapshot_def)
  have "cd_warehouse_id model = cd_warehouse_id doc"
  proof -
    have "find (\<lambda>c. cd_id c = i) (map (\<lambda>c. if cd_id c = i then c\<lparr>cd_reviewed_by := v\<rparr> else c) cs) =
       map_option (\<lambda>c. c\<lparr>cd_reviewed_by := v\<rparr>) (find (\<lambda>c. cd_id c = i) cs)" for v and cs :: "count_doc list"
      by (induction cs) auto
    with model assms(2) show ?thesis
      by (auto simp: require_doc_def get_count_doc_def res_simps set_reviewed_by_name_snapshot_def)
  qed
  with name lines insert_event_Inr(1,2) [OF ins(1)] ins(2) loop mark show thesis
    by (intro that) (auto simp: set_reviewed_by_name_snapshot_def)
qed

lemma mark_doc_posted_Inr:
  assumes "mark_doc_posted i e now d = Inr (u, d')"
  shows "d' = set_count_doc i (\<lambda>c. if cd_status c = CD_COUNTED
       then c\<lparr>cd_status := CD_POSTED, cd_posted_event_id := Some e, cd_posted_at := Some now\<rparr> else c) d"
  using assms by (simp add: mark_doc_posted_def res_simps)

lemma post_doc_inv:
  assumes inv: "count_inv d" and run: "post_doc pol now tr no i by_name d = Inr (r, d')"
  shows "count_inv d' \<and> count_docs_move d d'"
proof -
  obtain doc where doc: "require_doc i d = Inr doc" using run by (auto simp: post_doc_def res_simps)
  show ?thesis
  proof (cases "cd_status doc = CD_COUNTED")
    case False
    with run doc have "d' = d" by (auto simp: post_doc_def res_simps split: if_splits option.splits)
    with inv show ?thesis by (simp add: count_docs_move_same)
  next
    case True
    with run doc show ?thesis
    proof (rule post_doc_Inr)
      fix name ctx ev d2 d3 us
      assume name: "norm_text (Some by_name) = Some name"
        and d2: "d2 = (set_reviewed_by_name_snapshot i name d)\<lparr>db_wms_events := db_wms_events d @ [ev]\<rparr>"
        and loop: "map_loop (post_line_diff pol now ctx ev) (doc_lines i d) d2 = Inr (us, d3)"
        and mark: "mark_doc_posted i (ev_id ev) now d3 = Inr ((), d')"
      let ?g = "\<lambda>c. c\<lparr>cd_reviewed_by := Some (py_strip name)\<rparr>"
      let ?h = "\<lambda>c. if cd_status c = CD_COUNTED then c\<lparr>cd_status := CD_POSTED, cd_posted_event_id := Some (ev_id ev), cd_posted_at := Some now\<rparr> else c"
      have pr: "doc_promise d c" if "c \<in> set (db_count_docs d)" for c using inv that by (simp add: count_inv_def)
      have "count_inv (set_reviewed_by_name_snapshot i name d)" unfolding set_reviewed_by_name_snapshot_def
        by (rule count_inv_set_doc [OF inv]) (use pr in \<open>auto simp: count_doc_moves_def doc_promise_def intro: count_step.stay\<close>)
      then have "count_inv d2" using count_inv_frame [of d2] by (simp add: d2)
      moreover have os: "only_stock d2 d3" by (rule map_loop_only_stock [OF post_line_only_stock loop])
      ultimately have i3: "count_inv d3" using count_inv_frame [of d3 d2] only_stock_simps [OF os] by simp
      have d': "d' = set_count_doc i ?h d3" by (rule mark_doc_posted_Inr [OF mark])
      have "count_inv d'" unfolding d'
        by (rule count_inv_set_doc [OF i3]) (use i3 in \<open>auto simp: count_doc_moves_def count_inv_def doc_promise_def intro: count_step.intros\<close>)
      moreover have "db_count_docs d' = map (\<lambda>c. if cd_id c = i then ?h (?g c) else c) (db_count_docs d)"
        using only_stock_simps(10) [OF os] by (auto simp: d' d2 set_reviewed_by_name_snapshot_def)
      then have "count_docs_move d d'"
        by (rule count_docs_move_set) (auto simp: count_doc_moves_def intro: count_step.intros)
      ultimately show ?thesis by simp
    qed
  qed
qed

lemma void_doc_inv:
  assumes inv: "count_inv d" and run: "void_doc i d = Inr (u, d')"
  shows "count_inv d' \<and> count_docs_move d d'"
proof -
  let ?h = "\<lambda>c. if cd_status c \<in> set active_statuses then c\<lparr>cd_status := CD_VOIDED\<rparr> else c"
  have d': "d' = set_count_doc i ?h d" using run by (auto simp: void_doc_def mark_doc_voided_def res_simps)
  have "count_inv d'" unfolding d'
    by (rule count_inv_set_doc [OF inv]) (use inv in \<open>auto simp: count_doc_moves_def count_inv_def doc_promise_def intro: count_step.intros\<close>)
  moreover have "count_docs_move d d'"
    by (rule count_docs_move_set [of _ i ?h]) (auto simp: d' count_doc_moves_def intro: count_step.intros)
  ultimately show ?thesis by simp
qed

section \<open>The lines of a document\<close>

lemma total_diff_unique:
  assumes "distinct (map cl_item_id ls)" and "l \<in> set ls"
  shows "total_diff ls (cl_item_id l) = the (cl_diff_qty l)"
  unfolding total_diff_def using sum_where_unique [OF assms] by simp

lemma doc_lines_distinct:
  assumes "count_inv d"
  shows "distinct (map cl_line_no (doc_lines i d))" and "distinct (map cl_item_id (doc_lines i d))"
proof -
  have "distinct (map (\<lambda>l. (cl_doc_id l, cl_line_no l)) (db_count_doc_lines d))"
    "distinct (map (\<lambda>l. (cl_doc_id l, cl_item_id l)) (db_count_doc_lines d))"
    using assms by (simp_all add: count_inv_def count_keys_ok_def)
  then show "distinct (map cl_line_no (doc_lines i d))" "distinct (map cl_item_id (doc_lines i d))"
    by (auto simp: doc_lines_def distinct_map inj_on_def)
qed

end
