(* ===== verification/Count_Life.thy ===== *)
theory Count_Life
  imports Count_Post "HOL-Library.Multiset"
begin

text \<open>
  Count documents over all sequences of operations, and the facts on single operations that need no
  sequence: what freezing records, that counting every line completes the document, that posting
  again changes nothing, and which differences posting refuses.
\<close>

section \<open>Sequences of operations\<close>

datatype count_op =
    CO_create datetime string int datetime "string option"
  | CO_freeze int
  | CO_update datetime int string "count_patch list"
  | CO_post datetime string string int string
  | CO_void int

fun exec_count_op :: "(int list \<Rightarrow> export_uom list) \<Rightarrow> policy_reader \<Rightarrow> count_op \<Rightarrow> db \<Rightarrow> db result" where
  "exec_count_op lu pol (CO_create now no w sat remark) d = bindR (create_doc now no w sat remark d) (\<lambda>(_, d'). Inr d')"
| "exec_count_op lu pol (CO_freeze i) d = bindR (freeze_doc i d) (\<lambda>(_, d'). Inr d')"
| "exec_count_op lu pol (CO_update now i by_name lines) d = bindR (update_doc_lines lu now i by_name lines d) (\<lambda>(_, d'). Inr d')"
| "exec_count_op lu pol (CO_post now tr no i by_name) d = bindR (post_doc pol now tr no i by_name d) (\<lambda>(_, d'). Inr d')"
| "exec_count_op lu pol (CO_void i) d = bindR (void_doc i d) (\<lambda>(_, d'). Inr d')"

text \<open>Between two operations the rest of the system may change every other table.\<close>

definition same_count_tables :: "db \<Rightarrow> db \<Rightarrow> bool" where
  "same_count_tables d d' \<longleftrightarrow>
     db_count_docs d' = db_count_docs d \<and> db_count_doc_lines d' = db_count_doc_lines d \<and> db_lot_snapshots d' = db_lot_snapshots d"

inductive count_run :: "(int list \<Rightarrow> export_uom list) \<Rightarrow> policy_reader \<Rightarrow> db \<Rightarrow> db \<Rightarrow> bool" for lu pol d0 where
  start: "count_run lu pol d0 d0"
| oper: "count_run lu pol d0 d \<Longrightarrow> exec_count_op lu pol op d = Inr d' \<Longrightarrow> count_run lu pol d0 d'"
| other: "count_run lu pol d0 d \<Longrightarrow> same_count_tables d d' \<Longrightarrow> count_run lu pol d0 d'"

lemma exec_count_op_inv:
  assumes "count_inv d" and "exec_count_op lu pol op d = Inr d'"
  shows "count_inv d' \<and> count_docs_move d d'"
  using assms(2)
  by (cases op)
    (auto simp: res_simps dest: create_doc_inv [OF assms(1)] freeze_doc_inv [OF assms(1)] update_doc_lines_inv [OF assms(1)]
      post_doc_inv [OF assms(1)] void_doc_inv [OF assms(1)])

lemma count_run_inv:
  assumes "count_run lu pol d0 d" and "count_inv d0"
  shows "count_inv d"
  using assms(1)
proof (induction rule: count_run.induct)
  case (oper d op d')
  then show ?case using exec_count_op_inv by blast
next
  case (other d d')
  then show ?case using count_inv_frame [of d' d] by (simp add: same_count_tables_def)
qed (rule assms(2))

lemma count_run_docs:
  assumes "count_run lu pol d0 d" and "count_inv d0" and "c \<in> set (db_count_docs d0)"
  shows "\<exists>c' \<in> set (db_count_docs d). cd_id c' = cd_id c \<and> cd_count_no c' = cd_count_no c \<and>
     cd_warehouse_id c' = cd_warehouse_id c \<and> count_step\<^sup>*\<^sup>* (cd_status c) (cd_status c')"
  using assms(1)
proof (induction rule: count_run.induct)
  case start
  with assms(3) show ?case by blast
next
  case (oper d op d')
  then obtain c1 where c1: "c1 \<in> set (db_count_docs d)" "cd_id c1 = cd_id c" "cd_count_no c1 = cd_count_no c"
    "cd_warehouse_id c1 = cd_warehouse_id c" "count_step\<^sup>*\<^sup>* (cd_status c) (cd_status c1)" by blast
  have "count_docs_move d d'" using exec_count_op_inv [OF count_run_inv [OF oper.hyps(1) assms(2)] oper.hyps(2)] by simp
  from count_docs_move_memD [OF this c1(1)] obtain c2 where "c2 \<in> set (db_count_docs d')" "count_doc_moves c1 c2" by blast
  moreover from this(2) have "count_step\<^sup>*\<^sup>* (cd_status c) (cd_status c2)"
    using rtranclp.rtrancl_into_rtrancl [OF c1(5)] by (simp add: count_doc_moves_def)
  ultimately show ?case using c1(2-4) by (intro bexI [of _ c2]) (simp_all add: count_doc_moves_def)
next
  case (other d d')
  then show ?case by (simp add: same_count_tables_def)
qed

section \<open>What freezing records\<close>

lemma sum_over_keys:
  assumes "distinct ks" and "\<And>x. x \<in> set xs \<Longrightarrow> P x \<Longrightarrow> k x \<in> set ks"
  shows "sum_list (map (\<lambda>c. sum_where f (\<lambda>x. P x \<and> k x = c) xs) ks) = sum_where f P xs"
  using assms(2)
proof (induction xs)
  case Nil
  show ?case by (simp add: sum_list_0)
next
  case (Cons x xs)
  have pick: "sum_list (map (\<lambda>c. if c = a then z else 0) ks) = (if a \<in> set ks then z else (0::int))" for a z
    using assms(1) by (induction ks) auto
  have "sum_list (map (\<lambda>c. sum_where f (\<lambda>x. P x \<and> k x = c) (x # xs)) ks) =
     sum_list (map (\<lambda>c. (if c = k x then (if P x then f x else 0) else 0) + sum_where f (\<lambda>x. P x \<and> k x = c) xs) ks)"
    by (intro arg_cong [of _ _ sum_list] map_cong) auto
  also have "\<dots> = (if k x \<in> set ks then (if P x then f x else 0) else 0) + sum_list (map (\<lambda>c. sum_where f (\<lambda>x. P x \<and> k x = c) xs) ks)"
    by (simp only: sum_list_addf pick)
  finally show ?case using Cons by auto
qed

lemma sum_filter_pos: "(\<And>x. x \<in> set xs \<Longrightarrow> 0 \<le> f x) \<Longrightarrow> sum_list (map f (filter (\<lambda>x. 0 < f x) xs)) = sum_list (map f xs)" for f :: "'a \<Rightarrow> int"
proof (induction xs)
  case (Cons x xs)
  then have "0 \<le> f x" "sum_list (map f (filter (\<lambda>x. 0 < f x) xs)) = sum_list (map f xs)" by auto
  then show ?case by auto
qed simp

text \<open>The lots that a freeze records hold the whole available quantity of the item.\<close>

lemma available_by_lot:
  assumes ok: "books_ok d"
  shows "sum_list (map (\<lambda>lid. on_hand d (w, i, lid)) (frozen_lots w i d)) = get_available_for_item w i d"
proof -
  let ?ls = "sort (remdups (map st_lot_id (filter (\<lambda>s. st_warehouse_id s = w \<and> st_item_id s = i) (db_stocks_lot d))))"
  have oh: "on_hand d (w, i, lid) = sum_where st_qty (\<lambda>s. (st_warehouse_id s = w \<and> st_item_id s = i) \<and> st_lot_id s = lid) (db_stocks_lot d)" for lid
    by (simp add: on_hand_def st_dims_def conj_assoc)
  have lots: "lid \<in> set (map lot_id (db_lots d))" if "lid \<in> set ?ls" for lid
    using that ok by (fastforce simp: books_defs dims_in_lots_def st_dims_def lot_dims_def)
  have "frozen_lots w i d = filter (\<lambda>lid. 0 < on_hand d (w, i, lid)) ?ls"
    unfolding frozen_lots_def using lots by (intro filter_cong) auto
  then have "sum_list (map (\<lambda>lid. on_hand d (w, i, lid)) (frozen_lots w i d)) = sum_list (map (\<lambda>lid. on_hand d (w, i, lid)) ?ls)"
    using ok by (simp add: sum_filter_pos on_hand_nonneg books_ok_def)
  also have "\<dots> = get_available_for_item w i d"
    unfolding oh get_available_for_item_def by (subst sum_over_keys) (auto intro: sum_where_cong)
  finally show ?thesis .
qed

lemma frozen_line_snaps:
  assumes "l \<in> set (frozen_lines i w d)"
  shows "map ls_qty (filter (\<lambda>s. ls_line_id s = cl_id l) (frozen_snaps i w d)) =
     map (\<lambda>lid. on_hand d (w, cl_item_id l, lid)) (frozen_lots w (cl_item_id l) d)"
proof -
  let ?q = "\<lambda>(l, lid). (cl_id l, on_hand d (w, cl_item_id l, lid))" and ?ls = "frozen_lines i w d"
  have pairs: "map snd (filter (\<lambda>p. fst p = cl_id l) (map ?q (line_lot_pairs w d ls))) =
       map (\<lambda>lid. on_hand d (w, cl_item_id l, lid)) (frozen_lots w (cl_item_id l) d)"
    if "distinct (map cl_id ls)" "l \<in> set ls" for ls
    using that
  proof (induction ls)
    case (Cons a ls)
    have head: "map ?q (line_lot_pairs w d (a # ls)) =
       map (\<lambda>lid. (cl_id a, on_hand d (w, cl_item_id a, lid))) (frozen_lots w (cl_item_id a) d) @ map ?q (line_lot_pairs w d ls)"
      by (simp add: line_lot_pairs_def)
    show ?case
    proof (cases "a = l")
      case True
      with Cons.prems(1) have "filter (\<lambda>p. fst p = cl_id l) (map ?q (line_lot_pairs w d ls)) = []"
        by (auto simp: filter_empty_conv line_lot_pairs_def image_iff)
      then show ?thesis unfolding head using True by (simp add: o_def)
    next
      case False
      with Cons.prems have "cl_id a \<noteq> cl_id l" "l \<in> set ls" by (auto simp: image_iff)
      with Cons show ?thesis unfolding head by simp
    qed
  qed simp
  have snaps: "map (\<lambda>s. (ls_line_id s, ls_qty s)) (frozen_snaps i w d) = map ?q (line_lot_pairs w d ?ls)"
    unfolding frozen_snaps_def map_map o_def by (rule map_numbered) auto
  have "map ls_qty (filter (\<lambda>s. ls_line_id s = cl_id l) ss) =
     map snd (filter (\<lambda>p. fst p = cl_id l) (map (\<lambda>s. (ls_line_id s, ls_qty s)) ss))" for ss
    by (induction ss) auto
  from this [of "frozen_snaps i w d"] snaps pairs [OF frozen_lines_keys(1) assms] show ?thesis by simp
qed

lemma snapshots_sum:
  "sum_list (map ls_qty (get_line_lot_snapshots lid d)) = sum_where ls_qty (\<lambda>s. ls_line_id s = lid) (db_lot_snapshots d)"
proof -
  have "mset (get_line_lot_snapshots lid d) = mset (filter (\<lambda>s. ls_line_id s = lid) (db_lot_snapshots d))"
    by (simp add: get_line_lot_snapshots_def)
  then have "mset (map ls_qty (get_line_lot_snapshots lid d)) = mset (map ls_qty (filter (\<lambda>s. ls_line_id s = lid) (db_lot_snapshots d)))"
    by (simp only: mset_map)
  then show ?thesis unfolding sum_where_def by (metis sum_mset_sum_list)
qed

lemma frozen_items_set:
  assumes "books_ok d"
  shows "set (frozen_items w d) = {i. 0 < get_available_for_item w i d}"
proof -
  have "i \<in> st_item_id ` {s \<in> set (db_stocks_lot d). st_warehouse_id s = w}" if "0 < get_available_for_item w i d" for i
  proof (rule ccontr)
    assume "\<not> ?thesis"
    then have "get_available_for_item w i d = 0" unfolding get_available_for_item_def by (intro sum_where_none) auto
    with that show False by simp
  qed
  then show ?thesis by (auto simp: frozen_items_def)
qed

lemma freeze_tables:
  assumes "count_inv d" and "freeze_doc i d = Inr (r, d')" and "require_doc i d = Inr doc"
  shows "doc_lines i d' = frozen_lines i (cd_warehouse_id doc) d"
    and "db_lot_snapshots d' = kept_snaps i d @ frozen_snaps i (cd_warehouse_id doc) d"
    and "db_stocks_lot d' = db_stocks_lot d" and "db_stock_ledger d' = db_stock_ledger d" and "db_lots d' = db_lots d"
    and "r = (int (length (frozen_lines i (cd_warehouse_id doc) d)), int (length (frozen_snaps i (cd_warehouse_id doc) d)))"
proof -
  obtain doc' e where doc': "doc' \<in> set (db_count_docs d)" "cd_id doc' = i"
    and e: "e = d\<lparr>db_count_doc_lines := kept_lines i d @ frozen_lines i (cd_warehouse_id doc') d,
        db_lot_snapshots := kept_snaps i d @ frozen_snaps i (cd_warehouse_id doc') d\<rparr>"
      "d' = set_count_doc i (\<lambda>c. c\<lparr>cd_status := CD_FROZEN\<rparr>) e"
      "r = (int (length (frozen_lines i (cd_warehouse_id doc') d)), int (length (frozen_snaps i (cd_warehouse_id doc') d)))"
    using freeze_doc_Inr [OF assms(2)] by metis
  have same: "doc' = doc" using doc_unique [OF assms(1) doc'(1)] require_doc_Inr [OF assms(3)] doc'(2) by auto
  show "doc_lines i d' = frozen_lines i (cd_warehouse_id doc) d"
    using frozen_lines_keys(4) [of i "cd_warehouse_id doc" d] by (auto simp: e same doc_lines_def kept_lines_def)
  show "db_lot_snapshots d' = kept_snaps i d @ frozen_snaps i (cd_warehouse_id doc) d"
    "db_stocks_lot d' = db_stocks_lot d" "db_stock_ledger d' = db_stock_ledger d" "db_lots d' = db_lots d"
    "r = (int (length (frozen_lines i (cd_warehouse_id doc) d)), int (length (frozen_snaps i (cd_warehouse_id doc) d)))"
    by (simp_all add: e same)
qed

section \<open>Properties over sequences and of single operations\<close>

definition sample_uoms :: "int list \<Rightarrow> export_uom list" where
  "sample_uoms ids = map (\<lambda>i. \<lparr>xu_id = 10 + i, xu_item_id = i, xu_uom = ''PCS'', xu_display_name = None, xu_uom_name = ''piece'',
     xu_is_base = True\<rparr>) ids"

fun exec_count_ops :: "count_op list \<Rightarrow> db \<Rightarrow> db result" where
  "exec_count_ops [] d = Inr d"
| "exec_count_ops (op # ops) d = bindR (exec_count_op sample_uoms sample_policy op d) (exec_count_ops ops)"

definition sample_opening :: "count_op list" where
  "sample_opening = [CO_create 3 ''CTD-1'' 1 3 None, CO_freeze 1]"

definition sample_counting :: "count_op list" where
  "sample_counting = [CO_update 4 1 ''Li'' [\<lparr>cp_line_id = 1, cp_qty_input = 12\<rparr>, \<lparr>cp_line_id = 2, cp_qty_input = 3\<rparr>]]"

definition ops_db :: "count_op list \<Rightarrow> db" where
  "ops_db ops = (case exec_count_ops ops sample_db of Inr d \<Rightarrow> d | Inl _ \<Rightarrow> sample_db)"

lemma exec_count_ops_run: "count_run sample_uoms sample_policy d0 d \<Longrightarrow> exec_count_ops ops d = Inr d' \<Longrightarrow> count_run sample_uoms sample_policy d0 d'"
  by (induction ops arbitrary: d) (auto simp: res_simps intro: count_run.oper)

lemma sample_counted_run:
  "exec_count_ops (sample_opening @ sample_counting) sample_db = Inr (ops_db (sample_opening @ sample_counting))"
  by code_simp

lemma sample_count_inv: "count_inv sample_db" "count_inv (ops_db sample_opening)" "count_inv (ops_db (sample_opening @ sample_counting))"
  by code_simp+

text \<open>
  Claim C17. The life cycle of count documents. From any state that satisfies the invariant, and whatever the rest of the
  system does to the other tables in between, every sequence of the five operations keeps the invariant: a warehouse never
  has two active documents, a COUNTED document has all its lines counted; no document disappears or changes its number or
  warehouse, and one that is POSTED or VOIDED stays so for ever.
\<close>

theorem count_lifecycle:
  assumes "count_inv d0" and "count_run lu pol d0 d"
  shows "count_inv d \<and>
     (\<forall>a \<in> set (db_count_docs d). \<forall>b \<in> set (db_count_docs d). active a \<longrightarrow> active b \<longrightarrow> cd_warehouse_id a = cd_warehouse_id b \<longrightarrow> a = b) \<and>
     (\<forall>c \<in> set (db_count_docs d). cd_status c = CD_COUNTED \<longrightarrow> all_counted (cd_id c) d) \<and>
     (\<forall>c \<in> set (db_count_docs d0). \<exists>c' \<in> set (db_count_docs d). cd_id c' = cd_id c \<and> cd_count_no c' = cd_count_no c \<and>
        cd_warehouse_id c' = cd_warehouse_id c \<and> (cd_status c \<in> {CD_POSTED, CD_VOIDED} \<longrightarrow> cd_status c' = cd_status c))"
proof -
  have inv: "count_inv d" by (rule count_run_inv [OF assms(2,1)])
  moreover have "a = b" if "a \<in> set (db_count_docs d)" "b \<in> set (db_count_docs d)" "active a" "active b"
    "cd_warehouse_id a = cd_warehouse_id b" for a b
    using distinct_key_unique [of cd_warehouse_id "filter active (db_count_docs d)" a b] inv that by (simp add: count_inv_def one_active_def)
  moreover have "all_counted (cd_id c) d" if "c \<in> set (db_count_docs d)" "cd_status c = CD_COUNTED" for c
    using inv that by (simp add: count_inv_def doc_promise_def)
  moreover have "\<exists>c' \<in> set (db_count_docs d). cd_id c' = cd_id c \<and> cd_count_no c' = cd_count_no c \<and>
        cd_warehouse_id c' = cd_warehouse_id c \<and> (cd_status c \<in> {CD_POSTED, CD_VOIDED} \<longrightarrow> cd_status c' = cd_status c)"
    if "c \<in> set (db_count_docs d0)" for c
    using count_run_docs [OF assms(2,1) that] count_steps_final by blast
  ultimately show ?thesis by blast
qed

theorem count_lifecycle_witness: "count_inv (ops_db (sample_opening @ sample_counting))"
  using count_lifecycle [OF sample_count_inv(1) exec_count_ops_run [OF count_run.start sample_counted_run]] by (elim conjE)

text \<open>
  Claim C16. Posting a counted document is exact. Under a fresh event number, posting keeps the books; the
  available quantity of every counted item of the warehouse changes by the counted quantity less the frozen one,
  so that stock which has not moved since the freeze ends at the counted quantity; every other item and every other
  warehouse is left alone.
\<close>

theorem count_post_exact:
  assumes "books_ok d" and "count_inv d" and "\<forall>r \<in> set (db_stock_ledger d). led_ref r \<noteq> event_no"
    and "require_doc doc_id d = Inr doc" and "cd_status doc = CD_COUNTED"
    and "post_doc pol now trace_id event_no doc_id reviewed_by d = Inr (r, d')"
  shows "books_ok d' \<and>
     (\<forall>l \<in> set (doc_lines doc_id d). get_available_for_item (cd_warehouse_id doc) (cl_item_id l) d' =
        get_available_for_item (cd_warehouse_id doc) (cl_item_id l) d + (the (cl_counted_qty l) - cl_snapshot_qty l)) \<and>
     (\<forall>w i. w \<noteq> cd_warehouse_id doc \<or> i \<notin> cl_item_id ` set (doc_lines doc_id d) \<longrightarrow>
        get_available_for_item w i d' = get_available_for_item w i d)"
  using assms(6,4,5)
proof (rule post_doc_Inr)
  fix name ctx ev d2 d3 us
  let ?ls = "doc_lines doc_id d"
  assume w: "cd_warehouse_id ctx = cd_warehouse_id doc" and cnt: "\<forall>l \<in> set ?ls. cl_counted_qty l \<noteq> None \<and> cl_diff_qty l \<noteq> None"
    and no: "ev_no ev = event_no" and d2: "d2 = (set_reviewed_by_name_snapshot doc_id name d)\<lparr>db_wms_events := db_wms_events d @ [ev]\<rparr>"
    and loop: "map_loop (post_line_diff pol now ctx ev) ?ls d2 = Inr (us, d3)"
    and mark: "mark_doc_posted doc_id (ev_id ev) now d3 = Inr ((), d')"
  have ok2: "books_ok d2" using assms(1) by (simp add: d2 set_reviewed_by_name_snapshot_def set_count_doc_def books_defs books_frame)
  have i2: "count_inv d2"
  proof -
    have "doc_promise d c" if "c \<in> set (db_count_docs d)" for c using assms(2) that by (simp add: count_inv_def)
    then have "count_inv (set_reviewed_by_name_snapshot doc_id name d)" unfolding set_reviewed_by_name_snapshot_def
      by (intro count_inv_set_doc [OF assms(2)]) (auto simp: count_doc_moves_def doc_promise_def intro: count_step.stay)
    then show ?thesis using count_inv_frame [of d2] by (simp add: d2)
  qed
  have same: "get_available_for_item w i d2 = get_available_for_item w i d" for w i
    by (simp add: d2 get_available_for_item_def set_reviewed_by_name_snapshot_def)
  have eff: "books_ok d3" "only_stock d2 d3"
    "\<And>w i. get_available_for_item w i d3 = get_available_for_item w i d + (if w = cd_warehouse_id doc then total_diff ?ls i else 0)"
    using post_lines_effect [OF ok2 i2 loop doc_lines_distinct(1) [OF assms(2)]] cnt assms(3) same w no
    by (auto simp: d2 set_reviewed_by_name_snapshot_def)
  have d': "books_ok d' = books_ok d3" "get_available_for_item w i d' = get_available_for_item w i d3" for w i
    using mark_doc_posted_Inr [OF mark] by (simp_all add: set_count_doc_def books_defs books_frame get_available_for_item_def)
  have diff: "total_diff ?ls (cl_item_id l) = the (cl_counted_qty l) - cl_snapshot_qty l" if "l \<in> set ?ls" for l
  proof -
    have "line_consistent l" using that assms(2) by (auto simp: count_inv_def doc_lines_def)
    with cnt that show ?thesis
      by (auto simp: total_diff_unique [OF doc_lines_distinct(2) [OF assms(2)] that] line_consistent_def)
  qed
  have "total_diff ?ls i = 0" if "i \<notin> cl_item_id ` set ?ls" for i
    using that unfolding total_diff_def by (auto intro: sum_where_none)
  with eff d' diff show ?thesis by auto
qed

definition sample_posted :: "((int \<times> datetime) \<times> db) option" where
  "sample_posted = (case post_doc sample_policy 5 ''T1'' ''CE-1'' 1 ''Wang'' (ops_db (sample_opening @ sample_counting)) of
     Inr x \<Rightarrow> Some x | Inl _ \<Rightarrow> None)"

lemma sample_posted_run:
  "post_doc sample_policy 5 ''T1'' ''CE-1'' 1 ''Wang'' (ops_db (sample_opening @ sample_counting)) =
     Inr (fst (the sample_posted), snd (the sample_posted))"
  by code_simp

lemma sample_counted_doc:
  "books_ok (ops_db (sample_opening @ sample_counting))"
  "\<forall>r \<in> set (db_stock_ledger (ops_db (sample_opening @ sample_counting))). led_ref r \<noteq> ''CE-1''"
  "succeeds (require_doc 1 (ops_db (sample_opening @ sample_counting))) (\<lambda>c. cd_status c = CD_COUNTED \<and> cd_warehouse_id c = 1)"
  by code_simp+

theorem count_post_exact_witness:
  "books_ok (snd (the sample_posted)) \<and> get_available_for_item 1 1 (snd (the sample_posted)) = 12 \<and>
   get_available_for_item 1 2 (snd (the sample_posted)) = 3"
proof -
  obtain doc where doc: "require_doc 1 (ops_db (sample_opening @ sample_counting)) = Inr doc" "cd_status doc = CD_COUNTED" "cd_warehouse_id doc = 1"
    using succeedsD [OF sample_counted_doc(3)] by blast
  note P = count_post_exact [OF sample_counted_doc(1) sample_count_inv(3) sample_counted_doc(2) doc(1,2) sample_posted_run]
  have "map (\<lambda>l. (cl_item_id l, get_available_for_item 1 (cl_item_id l) (ops_db (sample_opening @ sample_counting)) +
      (the (cl_counted_qty l) - cl_snapshot_qty l))) (doc_lines 1 (ops_db (sample_opening @ sample_counting))) = [(1, 12), (2, 3)]" by code_simp
  then obtain a b where "doc_lines 1 (ops_db (sample_opening @ sample_counting)) = [a, b]" "cl_item_id a = 1" "cl_item_id b = 2"
    "get_available_for_item 1 1 (ops_db (sample_opening @ sample_counting)) + (the (cl_counted_qty a) - cl_snapshot_qty a) = 12"
    "get_available_for_item 1 2 (ops_db (sample_opening @ sample_counting)) + (the (cl_counted_qty b) - cl_snapshot_qty b) = 3" by auto
  with P doc(3) show ?thesis by auto
qed

text \<open>
  Freezing records the stock as it is. The document gets exactly one line for every item with a positive available
  quantity in its warehouse; the frozen quantity of the line is that quantity, and the quantities of its lot snapshots add up
  to it. Stock and ledger are not touched.
\<close>

lemma count_freeze_exact:
  assumes "books_ok d" and "count_inv d" and "require_doc doc_id d = Inr doc"
    and "freeze_doc doc_id d = Inr ((n_lines, n_snapshots), d')"
  shows "cl_item_id ` set (doc_lines doc_id d') = {i. 0 < get_available_for_item (cd_warehouse_id doc) i d} \<and>
     distinct (map cl_item_id (doc_lines doc_id d')) \<and> n_lines = int (length (doc_lines doc_id d')) \<and>
     (\<forall>l \<in> set (doc_lines doc_id d'). cl_snapshot_qty l = get_available_for_item (cd_warehouse_id doc) (cl_item_id l) d \<and>
        sum_list (map ls_qty (get_line_lot_snapshots (cl_id l) d')) = cl_snapshot_qty l) \<and>
     db_stocks_lot d' = db_stocks_lot d \<and> db_stock_ledger d' = db_stock_ledger d"
proof -
  let ?w = "cd_warehouse_id doc" and ?ls = "frozen_lines doc_id (cd_warehouse_id doc) d"
  note T = freeze_tables [OF assms(2,4,3)] and K = frozen_lines_keys [of doc_id ?w d]
  have "sum_list (map ls_qty (get_line_lot_snapshots (cl_id l) d')) = cl_snapshot_qty l" if l: "l \<in> set ?ls" for l
  proof -
    have old: "sum_where ls_qty (\<lambda>s. ls_line_id s = cl_id l) (kept_snaps doc_id d) = 0"
      using kept_snaps_line [OF assms(2)] frozen_line_fresh [OF _ l] by (intro sum_where_none) fastforce
    have "sum_where ls_qty (\<lambda>s. ls_line_id s = cl_id l) (frozen_snaps doc_id ?w d) = cl_snapshot_qty l"
      using K(4) l available_by_lot [OF assms(1)] by (simp add: sum_where_def frozen_line_snaps)
    with old show ?thesis by (simp add: snapshots_sum T(2))
  qed
  moreover have "cl_item_id ` set ?ls = {i. 0 < get_available_for_item ?w i d}"
    using arg_cong [OF K(3), of set] frozen_items_set [OF assms(1)] by simp
  moreover have "n_lines = int (length ?ls)" using T(6) by simp
  ultimately show ?thesis using T K(3,4) by simp
qed

lemma sample_created:
  "succeeds (require_doc 1 (ops_db [hd sample_opening])) (\<lambda>c. cd_warehouse_id c = 1)"
  "succeeds (freeze_doc 1 (ops_db [hd sample_opening])) (\<lambda>((n, m), d). d = ops_db sample_opening)"
  "books_ok (ops_db [hd sample_opening])" "count_inv (ops_db [hd sample_opening])"
  by code_simp+

lemma count_freeze_exact_witness:
  "cl_item_id ` set (doc_lines 1 (ops_db sample_opening)) = {i. 0 < get_available_for_item 1 i (ops_db [hd sample_opening])}"
proof -
  obtain doc where doc: "require_doc 1 (ops_db [hd sample_opening]) = Inr doc" "cd_warehouse_id doc = 1"
    using succeedsD [OF sample_created(1)] by blast
  obtain n m where "freeze_doc 1 (ops_db [hd sample_opening]) = Inr ((n, m), ops_db sample_opening)"
    using succeedsD [OF sample_created(2)] by auto
  from count_freeze_exact [OF sample_created(3,4) doc(1) this] doc(2) show ?thesis by simp
qed

lemma posted_doc_found:
  assumes "count_inv d" and "c \<in> set (db_count_docs d)" and "cd_id c = i"
  shows "require_doc i d = Inr c"
  using find_Some_iff_unique [of cd_id "db_count_docs d" c] assms
  by (simp add: require_doc_def get_count_doc_def count_inv_def count_keys_ok_def)

text \<open>
  Posting happens once. After a successful post, posting the same document again, with any trace id, event number,
  clock and reviewer, returns the event and the time of the first post and leaves the database as it is.
\<close>

lemma count_post_once:
  assumes "count_inv d" and "post_doc pol now trace_id event_no doc_id reviewed_by d = Inr (r, d')"
  shows "post_doc pol' now' trace_id' event_no' doc_id reviewed_by' d' = Inr (r, d')"
proof -
  obtain doc where doc: "require_doc doc_id d = Inr doc" using assms(2) by (auto simp: post_doc_def res_simps)
  show ?thesis
  proof (cases "cd_status doc = CD_COUNTED")
    case False
    with assms(2) doc obtain e t where "cd_status doc = CD_POSTED" "cd_posted_event_id doc = Some e" "cd_posted_at doc = Some t"
      "d' = d" "r = (e, t)" by (auto simp: post_doc_def res_simps split: if_splits option.splits)
    with doc show ?thesis by (simp add: post_doc_def)
  next
    case True
    from assms(2) doc True show ?thesis
    proof (rule post_doc_Inr)
      fix name ctx ev d2 d3 us
      assume d2: "d2 = (set_reviewed_by_name_snapshot doc_id name d)\<lparr>db_wms_events := db_wms_events d @ [ev]\<rparr>"
        and loop: "map_loop (post_line_diff pol now ctx ev) (doc_lines doc_id d) d2 = Inr (us, d3)"
        and mark: "mark_doc_posted doc_id (ev_id ev) now d3 = Inr ((), d')" and r: "r = (ev_id ev, now)"
      have docs: "db_count_docs d3 = db_count_docs d2"
        using only_stock_simps(10) [OF map_loop_only_stock [OF post_line_only_stock loop]] by simp
      let ?c = "doc\<lparr>cd_status := CD_POSTED, cd_posted_event_id := Some (ev_id ev), cd_reviewed_by := Some (py_strip name), cd_posted_at := Some now\<rparr>"
      have "doc\<lparr>cd_reviewed_by := Some (py_strip name)\<rparr> \<in> set (db_count_docs d3)"
        using require_doc_Inr [OF doc] by (force simp: docs d2 set_reviewed_by_name_snapshot_def)
      then have "?c \<in> set (db_count_docs d')"
        using require_doc_Inr [OF doc] True unfolding mark_doc_posted_Inr [OF mark] set_count_doc_simps set_map by force
      moreover have "count_inv d'" using post_doc_inv [OF assms(1,2)] by simp
      ultimately have "require_doc doc_id d' = Inr ?c" using require_doc_Inr [OF doc] by (intro posted_doc_found) simp_all
      then show ?thesis by (simp add: post_doc_def r)
    qed
  qed
qed

lemma count_post_once_witness:
  "post_doc sample_policy 9 ''T2'' ''CE-2'' 1 [] (snd (the sample_posted)) = Inr (fst (the sample_posted), snd (the sample_posted))"
  by (rule count_post_once [OF sample_count_inv(3) sample_posted_run])

text \<open>Counting a line never fails for the reasons the next property excludes, and the line is counted afterwards.\<close>

definition line_keys :: "db \<Rightarrow> (int \<times> int \<times> int) list" where
  "line_keys d = map (\<lambda>l. (cl_id l, cl_doc_id l, cl_item_id l)) (db_count_doc_lines d)"

definition line_counted :: "db \<Rightarrow> int \<Rightarrow> bool" where
  "line_counted d i \<longleftrightarrow> (\<forall>l \<in> set (db_count_doc_lines d). cl_id l = i \<longrightarrow> cl_counted_qty l \<noteq> None)"

lemma doc_lines_keys:
  "map (\<lambda>l. (cl_id l, cl_item_id l)) (doc_lines i d) = map (\<lambda>(a, b, c). (a, c)) (filter (\<lambda>(a, b, c). b = i) (line_keys d))"
  by (simp add: line_keys_def doc_lines_def filter_map o_def)

lemma line_found:
  assumes "cl_id ` set (doc_lines i d) = A" and "a \<in> A" and "\<forall>l \<in> set (doc_lines i d). Q (cl_item_id l)" and "line_keys t = line_keys d"
  shows "\<exists>l. find (\<lambda>l. cl_id l = a \<and> cl_doc_id l = i) (db_count_doc_lines t) = Some l \<and> Q (cl_item_id l)"
proof -
  have S: "set (map (\<lambda>l. (cl_id l, cl_item_id l)) (doc_lines i t)) = set (map (\<lambda>l. (cl_id l, cl_item_id l)) (doc_lines i d))"
    using assms(4) by (simp add: doc_lines_keys)
  have "cl_id ` set (doc_lines i x) = fst ` set (map (\<lambda>l. (cl_id l, cl_item_id l)) (doc_lines i x))" for x by (simp add: image_image)
  then have "cl_id ` set (doc_lines i t) = A" using assms(1) S by simp
  then obtain x where "x \<in> set (db_count_doc_lines t)" "cl_id x = a \<and> cl_doc_id x = i" using assms(2) by (auto simp: doc_lines_def)
  then obtain l where l: "find (\<lambda>l. cl_id l = a \<and> cl_doc_id l = i) (db_count_doc_lines t) = Some l"
    by (cases "find (\<lambda>l. cl_id l = a \<and> cl_doc_id l = i) (db_count_doc_lines t)") (auto dest: find_NoneD)
  then have "(cl_id l, cl_item_id l) \<in> set (map (\<lambda>l. (cl_id l, cl_item_id l)) (doc_lines i t))"
    by (auto simp: doc_lines_def dest!: find_SomeD)
  with S assms(3) l show ?thesis by auto
qed

lemma update_line_count_ok:
  assumes "cl_id ` set (doc_lines i d) = A" and "cp_line_id p \<in> A" and "0 \<le> cp_qty_input p"
    and "\<forall>l \<in> set (doc_lines i d). get_base_uom lu (cl_item_id l) \<noteq> None" and "line_keys t = line_keys d"
  shows "\<exists>u t'. update_line_count lu i p t = Inr (u, t') \<and> line_keys t' = line_keys d \<and> line_counted t' (cp_line_id p) \<and>
     (\<forall>a. line_counted t a \<longrightarrow> line_counted t' a)"
proof -
  from line_found [OF assms(1,2,4,5)] obtain l uid un where
    "find (\<lambda>l. cl_id l = cp_line_id p \<and> cl_doc_id l = i) (db_count_doc_lines t) = Some l" "get_base_uom lu (cl_item_id l) = Some (uid, un)"
    by auto
  then obtain n t' where run: "update_line_count lu i p t = Inr ((), t')"
    and t': "t' = t\<lparr>db_count_doc_lines := map (\<lambda>l. if cl_id l = cp_line_id p then counted_line uid n (cp_qty_input p) l else l) (db_count_doc_lines t)\<rparr>"
    using assms(3) by (auto simp: update_line_count_def)
  have "line_keys t' = line_keys t" by (simp add: line_keys_def t')
  moreover have "line_counted t' (cp_line_id p)" "\<forall>a. line_counted t a \<longrightarrow> line_counted t' a" by (auto simp: line_counted_def t')
  ultimately show ?thesis using run assms(5) by auto
qed

lemma update_lines_ok:
  assumes "cl_id ` set (doc_lines i d) = A" and "cp_line_id ` set ps \<subseteq> A" and "\<forall>p \<in> set ps. 0 \<le> cp_qty_input p"
    and "\<forall>l \<in> set (doc_lines i d). get_base_uom lu (cl_item_id l) \<noteq> None" and "line_keys t = line_keys d"
  shows "\<exists>us t'. map_loop (update_line_count lu i) ps t = Inr (us, t') \<and> line_keys t' = line_keys d \<and>
     (\<forall>a. a \<in> cp_line_id ` set ps \<or> line_counted t a \<longrightarrow> line_counted t' a)"
  using assms(2,3,5)
proof (induction ps arbitrary: t)
  case (Cons p ps)
  from update_line_count_ok [OF assms(1) _ _ assms(4) Cons.prems(3), of p] Cons.prems(1,2) obtain u t1 where
    one: "update_line_count lu i p t = Inr (u, t1)" "line_keys t1 = line_keys d" "line_counted t1 (cp_line_id p)"
      "\<forall>a. line_counted t a \<longrightarrow> line_counted t1 a" by auto
  from Cons.IH [OF _ _ one(2)] Cons.prems(1,2) obtain us t2 where
    "map_loop (update_line_count lu i) ps t1 = Inr (us, t2)" "line_keys t2 = line_keys d"
    "\<forall>a. a \<in> cp_line_id ` set ps \<or> line_counted t1 a \<longrightarrow> line_counted t2 a" by auto
  with one show ?case by auto
qed simp

lemma lines_all_counted:
  assumes "line_keys d' = line_keys d" and "doc_lines i d \<noteq> []" and "\<forall>a \<in> cl_id ` set (doc_lines i d). line_counted d' a"
  shows "all_counted i d'"
proof -
  have same: "map (\<lambda>l. (cl_id l, cl_item_id l)) (doc_lines i d') = map (\<lambda>l. (cl_id l, cl_item_id l)) (doc_lines i d)"
    using assms(1) by (simp add: doc_lines_keys)
  then have "doc_lines i d' \<noteq> []" using assms(2) by (metis Nil_is_map_conv)
  moreover have "cl_id ` set (doc_lines i d') = cl_id ` set (doc_lines i d)"
    using arg_cong [OF same, of "\<lambda>xs. fst ` set xs"] by (simp add: image_image)
  ultimately show ?thesis using assms(3) by (auto simp: all_counted_def line_counted_def doc_lines_def)
qed

text \<open>
  Claim C18. Counting every line completes the document. On a FROZEN or COUNTED document, counts that name lines of the
  document only, are not negative and cover all its lines are accepted when the counter gives a name and every item has a
  base unit; the document is then COUNTED.
\<close>

theorem count_all_lines_completes:
  assumes "count_inv d" and "require_doc doc_id d = Inr doc" and "cd_status doc \<in> {CD_FROZEN, CD_COUNTED}"
    and "norm_text (Some counted_by) \<noteq> None" and "doc_lines doc_id d \<noteq> []"
    and "\<forall>l \<in> set (doc_lines doc_id d). get_base_uom list_uoms (cl_item_id l) \<noteq> None"
    and "cp_line_id ` set lines = cl_id ` set (doc_lines doc_id d)" and "\<forall>p \<in> set lines. 0 \<le> cp_qty_input p"
  shows "\<exists>n d' doc'. update_doc_lines list_uoms now doc_id counted_by lines d = Inr (n, d') \<and>
     require_doc doc_id d' = Inr doc' \<and> cd_status doc' = CD_COUNTED"
proof -
  obtain name where name: "norm_text (Some counted_by) = Some name" using assms(4) by blast
  from update_lines_ok [OF assms(7) [symmetric] order_refl assms(8,6) refl] obtain us d1 where
    us: "map_loop (update_line_count list_uoms doc_id) lines d = Inr (us, d1)" "line_keys d1 = line_keys d"
    "\<forall>a \<in> cp_line_id ` set lines. line_counted d1 a" by blast
  have all: "all_counted doc_id d1" using lines_all_counted [OF us(2) assms(5)] us(3) assms(7) by simp
  have i1: "count_inv d1" and same: "db_count_docs d1 = db_count_docs d" using update_lines_inv [OF assms(1) us(1)] by auto
  have mem: "doc \<in> set (db_count_docs d1)" "cd_id doc = doc_id" using require_doc_Inr [OF assms(2)] same by auto
  let ?d2 = "set_count_doc doc_id (\<lambda>c. c\<lparr>cd_counted_by := Some (py_strip name), cd_reviewed_by := None\<rparr>) d1"
  let ?d' = "try_mark_doc_counted now doc_id ?d2"
  have run: "update_doc_lines list_uoms now doc_id counted_by lines d = Inr (int (length us), ?d')"
    using assms(2,3) name us(1) by (simp add: update_doc_lines_def update_line_counts_def)
  have "count_docs_move d1 ?d'" by (rule mark_counted_inv(2) [OF i1 mem assms(3) name])
  from count_docs_move_memD [OF this mem(1)] mem(2) obtain doc' where doc': "doc' \<in> set (db_count_docs ?d')" "cd_id doc' = doc_id"
    by (auto simp: count_doc_moves_def)
  note M = mark_counted_inv [OF i1 mem assms(3) name]
  show ?thesis using run posted_doc_found [OF M(1) doc'] M(3) [OF all doc'] by blast
qed

theorem count_all_lines_completes_witness:
  "\<exists>n d' doc'. update_doc_lines sample_uoms 4 1 ''Li'' [\<lparr>cp_line_id = 1, cp_qty_input = 12\<rparr>, \<lparr>cp_line_id = 2, cp_qty_input = 3\<rparr>]
     (ops_db sample_opening) = Inr (n, d') \<and> require_doc 1 d' = Inr doc' \<and> cd_status doc' = CD_COUNTED"
proof -
  let ?d = "ops_db sample_opening"
  let ?ps = "[\<lparr>cp_line_id = 1, cp_qty_input = 12\<rparr>, \<lparr>cp_line_id = 2, cp_qty_input = 3\<rparr>]"
  have "succeeds (require_doc 1 ?d) (\<lambda>c. cd_status c \<in> {CD_FROZEN, CD_COUNTED})" by code_simp
  then obtain doc where doc: "require_doc 1 ?d = Inr doc" "cd_status doc \<in> {CD_FROZEN, CD_COUNTED}" using succeedsD by blast
  have "norm_text (Some ''Li'') \<noteq> None" "doc_lines 1 ?d \<noteq> []"
    "\<forall>l \<in> set (doc_lines 1 ?d). get_base_uom sample_uoms (cl_item_id l) \<noteq> None"
    "cp_line_id ` set ?ps = cl_id ` set (doc_lines 1 ?d)" "\<forall>p \<in> set ?ps. 0 \<le> cp_qty_input p"
    by code_simp+
  from count_all_lines_completes [OF sample_count_inv(2) doc this] show ?thesis .
qed

lemma gain_on_coded_lot:
  assumes "0 < delta" and "norm_lot_code (ls_lot_code snap) \<noteq> None"
  shows "\<exists>e. adjust_lot pol now (count_adjust_args doc line ev snap delta sub) d = Inl e"
  by (rule refusedI)
    (use assms in \<open>auto simp: adjust_lot_def adjust_lot_impl_def Let_def res_simps count_adjust_args_def
      resolve_and_validate_dates_for_inbound_def normalize_batch_dates_for_item_def split: if_splits\<close>)

text \<open>
  A surplus cannot be posted to a lot with a lot code. Posting passes no dates, and the stock core requires them
  for an increase of a coded lot: when the lot that the freeze recorded with the largest quantity carries a code, a document
  with a surplus on that line cannot be posted at all.
\<close>

lemma count_gain_on_coded_lot_refused:
  assumes "require_doc doc_id d = Inr doc" and "cd_status doc = CD_COUNTED" and "line \<in> set (doc_lines doc_id d)"
    and "cl_diff_qty line = Some q" and "0 < q" and "get_line_lot_snapshots (cl_id line) d = target # rest"
    and "norm_lot_code (ls_lot_code target) \<noteq> None"
  shows "\<exists>e. post_doc pol now trace_id event_no doc_id reviewed_by d = Inl e"
proof (rule refusedI)
  fix x
  assume "post_doc pol now trace_id event_no doc_id reviewed_by d = Inr x"
  then have "post_doc pol now trace_id event_no doc_id reviewed_by d = Inr (fst x, snd x)" by simp
  then show False using assms(1,2)
  proof (rule post_doc_Inr)
    fix name ctx ev d2 d3 us
    assume d2: "d2 = (set_reviewed_by_name_snapshot doc_id name d)\<lparr>db_wms_events := db_wms_events d @ [ev]\<rparr>"
      and loop: "map_loop (post_line_diff pol now ctx ev) (doc_lines doc_id d) d2 = Inr (us, d3)"
    have "\<exists>t y t'. db_lot_snapshots t = db_lot_snapshots d \<and> post_line_diff pol now ctx ev line t = Inr (y, t')"
      by (rule map_loop_memD [OF loop assms(3)])
        (auto simp: d2 set_reviewed_by_name_snapshot_def only_stock_simps dest: post_line_only_stock)
    then obtain t y t' where "db_lot_snapshots t = db_lot_snapshots d" "post_line_diff pol now ctx ev line t = Inr (y, t')" by blast
    moreover from this(1) assms(6) have "get_line_lot_snapshots (cl_id line) t = target # rest" by (simp add: get_line_lot_snapshots_def)
    ultimately obtain r u where "adjust_lot pol now (count_adjust_args ctx line ev target q ''COUNT_ADJUST'') t = Inr (r, u)"
      using assms(4,5) by (auto simp: post_line_diff_def Let_def res_simps)
    with gain_on_coded_lot [OF assms(5,7)] show False by (metis sum.distinct(1))
  qed
qed

definition sample_surplus :: "count_op list" where
  "sample_surplus = [CO_update 4 1 ''Li'' [\<lparr>cp_line_id = 1, cp_qty_input = 10\<rparr>, \<lparr>cp_line_id = 2, cp_qty_input = 5\<rparr>]]"

lemma count_gain_on_coded_lot_refused_witness:
  "\<exists>e. post_doc sample_policy 5 ''T1'' ''CE-1'' 1 ''Wang'' (ops_db (sample_opening @ sample_surplus)) = Inl e"
proof -
  let ?d = "ops_db (sample_opening @ sample_surplus)"
  let ?l = "doc_lines 1 ?d ! 1" and ?s = "hd (get_line_lot_snapshots 2 ?d)"
  have "succeeds (require_doc 1 ?d) (\<lambda>c. cd_status c = CD_COUNTED)" by code_simp
  then obtain doc where doc: "require_doc 1 ?d = Inr doc" "cd_status doc = CD_COUNTED" using succeedsD by blast
  have "?l \<in> set (doc_lines 1 ?d)" "cl_diff_qty ?l = Some 1" "0 < (1 :: int)"
    "get_line_lot_snapshots (cl_id ?l) ?d = [?s]" "norm_lot_code (ls_lot_code ?s) \<noteq> None" by code_simp+
  from count_gain_on_coded_lot_refused [OF doc this] show ?thesis .
qed

end
