(* ===== verification/Wms_System.thy ===== *)
theory Wms_System
  imports Outbound_Life Count_Life
begin

text \<open>
  The operations of the components composed into one system, and what holds of every sequence of
  them: the invariant of the system and the relation of a step to the ledger, which only grows.
\<close>

section \<open>One step of the stock core\<close>

definition ledger_grows :: "db \<Rightarrow> db \<Rightarrow> bool" where
  "ledger_grows d d' \<longleftrightarrow> (\<exists>rows. db_stock_ledger d' = db_stock_ledger d @ rows)"

text \<open>What every operation keeps apart from the tables of count documents.\<close>

definition keeps :: "db \<Rightarrow> db \<Rightarrow> bool" where
  "keeps d d' \<longleftrightarrow> (books_ok d \<longrightarrow> books_ok d' \<and> ledger_grows d d') \<and> (event_keys_ok d \<longrightarrow> event_keys_ok d') \<and> (doc_inv d \<longrightarrow> doc_inv d')"

lemma ledger_grows_same: "db_stock_ledger d' = db_stock_ledger d \<Longrightarrow> ledger_grows d d'"
  unfolding ledger_grows_def by (intro exI [of _ "[]"]) simp

lemma keeps_refl [simp]: "keeps d d"
  by (simp add: keeps_def ledger_grows_same)

lemma keeps_trans: "keeps a b \<Longrightarrow> keeps b c \<Longrightarrow> keeps a c"
  unfolding keeps_def ledger_grows_def by (metis append_assoc)

lemma same_count_refl [simp]: "same_count_tables d d"
  by (simp add: same_count_tables_def)

lemma same_count_trans: "same_count_tables a b \<Longrightarrow> same_count_tables b c \<Longrightarrow> same_count_tables a c"
  by (simp add: same_count_tables_def)

text \<open>Steps that do not touch the tables behind the invariants.\<close>

lemma keeps_frame:
  assumes "same_stock d d'" and "db_wms_events d' = db_wms_events d" and "db_inbound_event_lines d' = db_inbound_event_lines d"
    and "db_outbound_event_lines d' = db_outbound_event_lines d" and "db_manual_docs d' = db_manual_docs d" and "db_manual_lines d' = db_manual_lines d"
  shows "keeps d d'"
  using same_stock_books(1) [OF assms(1)] event_keys_frame [OF assms(2,3,4)] doc_inv_frame [OF assms(5,6,4)] assms(1)
  by (simp add: keeps_def same_stock_def ledger_grows_same)

lemma keeps_only_stock:
  assumes "only_stock d d'" and "books_ok d \<Longrightarrow> books_ok d' \<and> ledger_grows d d'"
  shows "keeps d d'" and "same_count_tables d d'"
  using assms(2) event_keys_only_stock [OF assms(1)] doc_inv_frame [of d' d] only_stock_simps [OF assms(1)]
  by (simp_all add: keeps_def same_count_tables_def)

text \<open>The interface of a writing operation: it keeps the invariants and extends the ledger.\<close>

locale keeper =
  fixes wr :: "'a \<Rightarrow> 'b action"
  assumes step_keeps: "wr a d = Inr (b, d') \<Longrightarrow> keeps d d'" and step_count: "wr a d = Inr (b, d') \<Longrightarrow> same_count_tables d d'"
begin

lemma loop_keeps: "map_loop wr as d = Inr (bs, d') \<Longrightarrow> keeps d d' \<and> same_count_tables d d'"
  by (rule map_loop_invariant [where I = "\<lambda>t. keeps d t \<and> same_count_tables d t" and f = wr])
    (auto intro: keeps_trans same_count_trans step_keeps step_count)

end

interpretation adjusting: keeper "adjust_lot pol now"
proof unfold_locales
  fix a d b d'
  assume run: "adjust_lot pol now a d = Inr (b, d')"
  have "books_ok d' \<and> ledger_grows d d'" if ok: "books_ok d"
  proof (cases b)
    case AdjustSkipped
    with run adjust_lot_Skipped [of pol now a d d'] ok show ?thesis by (simp add: ledger_grows_same)
  next
    case (AdjustApplied x)
    with run adjust_lot_row [OF ok, of pol now a x d'] adjust_lot_books(1) [OF ok run] show ?thesis by (auto simp: ledger_grows_def)
  qed
  then show "keeps d d'" "same_count_tables d d'" using keeps_only_stock [OF adjust_lot_only_stock [OF run]] by blast+
qed

lemma keeps_only_lots:
  assumes "books_ok d \<Longrightarrow> books_ok d'" and "\<exists>ls. d' = d\<lparr>db_lots := ls\<rparr>"
  shows "keeps d d' \<and> same_count_tables d d'"
proof -
  obtain ls where d': "d' = d\<lparr>db_lots := ls\<rparr>" using assms(2) by blast
  have "event_keys_ok d' = event_keys_ok d" "doc_inv d' = doc_inv d" 
    using event_keys_frame [of d' d] doc_inv_frame [of d' d] by (simp_all add: d')
  with assms(1) show ?thesis by (auto simp: keeps_def same_count_tables_def d' intro: ledger_grows_same)
qed

interpretation resolving_keeper: keeper "resolve_line pms w st"
proof unfold_locales
  fix a d b d'
  assume run: "resolve_line pms w st a d = Inr (b, d')"
  obtain n l where a: "a = (n, l)" by (cases a)
  from resolve_line_Inr [OF run [unfolded a]] obtain lid i where "lot_step w i d lid d'" by blast
  from lot_step_only_lots [OF this] have "\<exists>ls. d' = d\<lparr>db_lots := ls\<rparr>" .
  moreover have "books_ok d \<Longrightarrow> books_ok d'" using resolve_line_frame [OF run] by simp
  ultimately show "keeps d d'" "same_count_tables d d'" using keeps_only_lots by blast+
qed

lemma keeps_new_event:
  assumes "insert_event e d = Inr (ev, d')"
  shows "keeps d d' \<and> same_count_tables d d'"
proof -
  have d': "d' = d\<lparr>db_wms_events := db_wms_events d @ [ev]\<rparr>" by (rule insert_event_Inr(1) [OF assms])
  have "doc_inv d' = doc_inv d" by (rule doc_inv_frame) (simp_all add: d')
  with insert_event_keys [OF _ assms] insert_event_Inr(3) [OF assms] show ?thesis
    by (simp add: keeps_def same_count_tables_def ledger_grows_same d')
qed

lemma keeps_inbound_line:
  assumes "insert_inbound_event_line l d = Inr (n, d')"
  shows "keeps d d' \<and> same_count_tables d d'"
proof -
  obtain ls where d': "d' = d\<lparr>db_inbound_event_lines := ls\<rparr>" using insert_inbound_event_line_Inr [OF assms] by blast
  have "doc_inv d' = doc_inv d" by (rule doc_inv_frame) (simp_all add: d')
  with insert_inbound_line_keys(2) [OF assms] show ?thesis
    by (simp add: keeps_def same_count_tables_def ledger_grows_same d' books_ok_inbound_lines)
qed

lemma keeps_bind:
  assumes "keeps a b \<and> same_count_tables a b" and "keeps b c \<and> same_count_tables b c"
  shows "keeps a c \<and> same_count_tables a c"
  using assms keeps_trans same_count_trans by blast

interpretation commit_keeper: keeper "commit_line_step pol now p ev"
proof unfold_locales
  fix l d b d'
  assume "commit_line_step pol now p ev l d = Inr (b, d')"
  then obtain x n d1 where ins: "insert_inbound_event_line x d = Inr (n, d1)"
    and adj: "adjust_lot pol now (line_adjust_args p ev l) d1 = Inr (b, d')"
    by (fastforce simp: commit_line_step_def apply_inbound_stock_def res_simps)
  from keeps_bind [OF keeps_inbound_line [OF ins]] adjusting.step_keeps [OF adj] adjusting.step_count [OF adj]
  show "keeps d d'" "same_count_tables d d'" by blast+
qed

interpretation inbound_reversal_keeper: keeper "reverse_inbound_line pol now og ev payload"
proof unfold_locales
  fix l d b d'
  assume "reverse_inbound_line pol now og ev payload l d = Inr (b, d')"
  then obtain x n d1 r where ins: "insert_inbound_event_line x d = Inr (n, d1)"
    and adj: "adjust_lot pol now (inbound_reversal_args og ev payload l) d1 = Inr (r, d')"
    by (auto simp: reverse_inbound_line_def res_simps)
  from keeps_bind [OF keeps_inbound_line [OF ins]] adjusting.step_keeps [OF adj] adjusting.step_count [OF adj]
  show "keeps d d'" "same_count_tables d d'" by blast+
qed

lemma keeps_outbound_rows:
  assumes d': "d' = d\<lparr>db_outbound_event_lines := db_outbound_event_lines d @ rows\<rparr>" and "\<forall>s \<in> set rows. 0 < oel_qty_outbound s"
    and "event_keys_ok d \<Longrightarrow> event_keys_ok d'"
  shows "keeps d d' \<and> same_count_tables d d'"
proof -
  have "doc_inv d \<Longrightarrow> doc_inv d'" by (rule doc_inv_more_lines [where saved = rows]) (use assms(2) in \<open>simp_all add: d'\<close>)
  moreover have "books_ok d' = books_ok d" by (simp add: d' books_defs books_frame)
  ultimately show ?thesis using assms(3) by (simp add: keeps_def same_count_tables_def ledger_grows_same d')
qed

interpretation outbound_reversal_keeper: keeper "reverse_outbound_line pol now og ev payload"
proof unfold_locales
  fix l d b d'
  assume "reverse_outbound_line pol now og ev payload l d = Inr (b, d')"
  then obtain x d1 r where ins: "insert_outbound_row x d = Inr ((), d1)" and x: "oel_qty_outbound x = oel_qty_outbound l" "0 < oel_qty_outbound l"
    and adj: "adjust_lot pol now (outbound_reversal_args og ev payload l) d1 = Inr (r, d')"
    by (fastforce simp: reverse_outbound_line_def res_simps)
  obtain n where "d1 = d\<lparr>db_outbound_event_lines := db_outbound_event_lines d @ [x\<lparr>oel_id := n\<rparr>]\<rparr>"
    using insert_outbound_row_keys(1) [OF ins] by blast
  from keeps_outbound_rows [OF this _ insert_outbound_row_keys(2) [OF ins]] x
  have "keeps d d1 \<and> same_count_tables d d1" by simp
  from keeps_bind [OF this] adjusting.step_keeps [OF adj] adjusting.step_count [OF adj]
  show "keeps d d'" "same_count_tables d d'" by blast+
qed

interpretation outbound_keeper: keeper "write_outbound_line ev"
proof unfold_locales
  fix l d b d'
  assume run: "write_outbound_line ev l d = Inr (b, d')"
  have os: "only_stock d d'" unfolding only_stock_def by (rule write_outbound_line_frame [OF run])
  have "books_ok d' \<and> ledger_grows d d'" if ok: "books_ok d"
  proof -
    have "ledger_grows d d'" using ok run by (rule write_outbound_line_Inr) (auto simp: ledger_grows_def)
    with outbound_line.keeps [OF ok run] show ?thesis by simp
  qed
  then show "keeps d d'" "same_count_tables d d'" using keeps_only_stock [OF os] by blast+
qed

section \<open>The operations\<close>

lemma keeps_outbound_row:
  assumes "outbound_line_checks d row" and d': "d' = d\<lparr>db_outbound_event_lines := db_outbound_event_lines d @ [row]\<rparr>"
  shows "keeps d d' \<and> same_count_tables d d'"
  by (rule keeps_outbound_rows [OF d']) (use assms in \<open>simp_all add: outbound_line_checks_def event_keys_ok_def d'\<close>)

interpretation outbound_insert_keeper: keeper "insert_outbound_event_line codes e"
  by unfold_locales (auto simp: insert_outbound_event_line_def Let_def res_simps dest: keeps_outbound_row)

lemma write_event_keeps:
  assumes "write_event_and_ledger now w st ref tr occ remark ns d = Inr ((ev, saved), d')"
  shows "keeps d d' \<and> same_count_tables d d'"
proof -
  from assms obtain e d1 d2 us where ins: "insert_event e d = Inr (ev, d1)"
    and lines: "map_loop (insert_outbound_event_line (load_lot_code_snapshot_map d1) (ev_id ev)) ns d1 = Inr (saved, d2)"
    and loop: "map_loop (write_outbound_line ev) saved d2 = Inr (us, d')"
    by (fastforce simp: write_event_and_ledger_def Let_def res_simps insert_outbound_event_def)
  show ?thesis
    using keeps_bind [OF keeps_new_event [OF ins] keeps_bind [OF outbound_insert_keeper.loop_keeps [OF lines] outbound_keeper.loop_keeps [OF loop]]] .
qed

lemma submit_order_keeps:
  assumes "submit_order_outbound_event now oid w tr remark lines occ d = Inr ((ev, saved), d')"
  shows "keeps d d' \<and> same_count_tables d d'"
  using assms
proof (rule submit_order_Inr)
  fix ctx ns d1
  assume wr: "write_event_and_ledger now w ''ORDER'' (oc_source_ref ctx) tr occ remark ns d = Inr ((ev, saved), d1)"
    and tl: "if order_outbound_completed_after_submit ctx (load_order_submit_progress oid d) ns
       then \<exists>u. hand_over_order ctx oid ev saved d1 = Inr (u, d') else d' = d1"
  have "keeps d1 d' \<and> same_count_tables d1 d'"
  proof (cases "d' = d1")
    case False
    with tl obtain u where "hand_over_order ctx oid ev saved d1 = Inr (u, d')" by (auto split: if_splits)
    from hand_over_order_Inr(1) [OF this] show ?thesis
      by (auto simp: same_count_tables_def same_stock_def intro!: keeps_frame)
  qed simp
  then show ?thesis using keeps_bind [OF write_event_keeps [OF wr]] by blast
qed

lemma submit_manual_keeps:
  assumes run: "submit_manual_outbound_event now doc_id tr remark lines occ d = Inr ((ev, saved), d')"
  shows "keeps d d' \<and> same_count_tables d d'"
  using run
proof (rule submit_manual_Inr)
  fix ctx ns d1
  assume wr: "write_event_and_ledger now (mx_warehouse_id ctx) ''MANUAL'' (mx_source_ref ctx) tr occ remark ns d = Inr ((ev, saved), d1)"
    and tl: "if manual_doc_done doc_id d1 then \<exists>u. hand_over_manual ctx doc_id ev saved d1 = Inr (u, d') else d' = d1"
  have "\<exists>ms rs ps. d' = d1\<lparr>db_manual_docs := ms, db_export_records := rs, db_handoff_payloads := ps\<rparr>"
  proof (cases "manual_doc_done doc_id d1")
    case True
    with tl obtain u where "hand_over_manual ctx doc_id ev saved d1 = Inr (u, d')" by auto
    then show ?thesis
      by (rule hand_over_manual_Inr) (auto simp: complete_manual_doc_def elim!: update_doc_status_Inr)
  next
    case False
    with tl show ?thesis
      by (intro exI [of _ "db_manual_docs d1"] exI [of _ "db_export_records d1"] exI [of _ "db_handoff_payloads d1"]) simp
  qed
  then obtain ms rs ps where d': "d' = d1\<lparr>db_manual_docs := ms, db_export_records := rs, db_handoff_payloads := ps\<rparr>" by blast
  have "books_ok d' = books_ok d1" "event_keys_ok d' = event_keys_ok d1"
    using same_stock_books(1) [of d1 d'] event_keys_frame [of d' d1] by (simp_all add: d' same_stock_def)
  then show ?thesis using write_event_keeps [OF wr] doc_inv_submit_manual [OF _ run]
    by (auto simp: keeps_def same_count_tables_def ledger_grows_def d')
qed

lemma doc_ops_keep:
  "create_manual_doc no p d = Inr (i, d') \<Longrightarrow> keeps d d' \<and> same_count_tables d d'"
  "release_manual_doc i d = Inr (u, d') \<Longrightarrow> keeps d d' \<and> same_count_tables d d'"
  "void_manual_doc i d = Inr (u, d') \<Longrightarrow> keeps d d' \<and> same_count_tables d d'"
proof -
  have fr: "keeps d d' \<and> same_count_tables d d'"
    if d': "\<exists>ms ls. d' = d\<lparr>db_manual_docs := ms, db_manual_lines := ls\<rparr>" and inv: "doc_inv d \<Longrightarrow> doc_inv d'"
  proof -
    obtain ms ls where d': "d' = d\<lparr>db_manual_docs := ms, db_manual_lines := ls\<rparr>" using d' by blast
    have "books_ok d' = books_ok d" "event_keys_ok d' = event_keys_ok d"
      using same_stock_books(1) [of d d'] event_keys_frame [of d' d] by (simp_all add: d' same_stock_def)
    with inv show ?thesis by (simp add: keeps_def same_count_tables_def ledger_grows_same d')
  qed
  have st: "update_doc_status i froms st rej d = Inr (u, d') \<Longrightarrow> \<exists>ms ls. d' = d\<lparr>db_manual_docs := ms, db_manual_lines := ls\<rparr>" for froms st rej
  proof (erule update_doc_status_Inr)
    assume "d' = d\<lparr>db_manual_docs := map (\<lambda>m. if md_id m = i \<and> md_status m \<in> set froms then m\<lparr>md_status := st\<rparr> else m) (db_manual_docs d)\<rparr>"
    then show ?thesis by (intro exI exI [of _ "db_manual_lines d"]) simp
  qed
  show "keeps d d' \<and> same_count_tables d d'" if run: "create_manual_doc no p d = Inr (i, d')"
  proof (rule fr)
    let ?i = "next_id (map md_id (db_manual_docs d))"
    from run obtain row us where "map_loop (insert_manual_line ?i) (numbered (mc_lines p)) (d\<lparr>db_manual_docs := db_manual_docs d @ [row]\<rparr>) = Inr (us, d')"
      by (auto simp: create_manual_doc_def Let_def res_simps)
    from insert_manual_lines [OF this] show "\<exists>ms ls. d' = d\<lparr>db_manual_docs := ms, db_manual_lines := ls\<rparr>" by auto
  qed (use doc_inv_create [OF _ run] in blast)
  show "keeps d d' \<and> same_count_tables d d'" if run: "release_manual_doc i d = Inr (u, d')"
  proof (rule fr)
    from run obtain froms s rej where "update_doc_status i froms s rej d = Inr (u, d')" by (auto simp: release_manual_doc_def res_simps)
    then show "\<exists>ms ls. d' = d\<lparr>db_manual_docs := ms, db_manual_lines := ls\<rparr>" by (rule st)
  qed (use doc_inv_release [OF _ run] in blast)
  show "keeps d d' \<and> same_count_tables d d'" if run: "void_manual_doc i d = Inr (u, d')"
    by (rule fr) (use st [OF run [unfolded void_manual_doc_def]] doc_inv_void [OF _ run] in blast)+
qed

lemma run_outbound_keeps: "run_outbound op d = Inr d' \<Longrightarrow> keeps d d' \<and> same_count_tables d d'"
  by (cases op) (auto simp: res_simps dest: doc_ops_keep submit_manual_keeps submit_order_keeps)

lemma commit_inbound_keeps:
  assumes "commit_inbound pms now tr no p d = Inr (r, d')"
  shows "keeps d d' \<and> same_count_tables d d'"
proof -
  from assms obtain ls d1 e ev d2 rs where
    res: "map_loop (resolve_line pms (pl_warehouse_id p) (pl_source_type p)) (numbered (pl_lines p)) d = Inr (ls, d1)"
    and ins: "insert_event e d1 = Inr (ev, d2)"
    and loop: "map_loop (commit_line_step (pms_policy pms) now p ev) ls d2 = Inr (rs, d')"
    by (fastforce simp: commit_inbound_def res_simps simp del: upt_Suc)
  show ?thesis
    by (rule keeps_bind [OF resolving_keeper.loop_keeps [OF res] keeps_bind [OF keeps_new_event [OF ins] commit_keeper.loop_keeps [OF loop]]])
qed

lemma supersede_keeps: "keeps d (supersede ty i d) \<and> same_count_tables d (supersede ty i d)"
proof -
  have "doc_inv (supersede ty i d) = doc_inv d" by (rule doc_inv_frame) (simp_all add: supersede_def)
  then show ?thesis using same_stock_books(1) [OF supersede_frame(1)] supersede_keys
    by (simp add: keeps_def same_count_tables_def ledger_grows_same supersede_def)
qed

lemma reversal_keeps:
  "reverse_inbound_event pol now tr no i payload d = Inr (r, d') \<Longrightarrow> keeps d d' \<and> same_count_tables d d'"
  "reverse_outbound_event pol now tr no i payload d = Inr (s, d') \<Longrightarrow> keeps d d' \<and> same_count_tables d d'"
proof -
  assume run: "reverse_inbound_event pol now tr no i payload d = Inr (r, d')"
  obtain event rows where r: "r = (event, rows)" by (cases r)
  from run [unfolded r] show "keeps d d' \<and> same_count_tables d d'"
  proof (rule reverse_inbound_Inr)
    fix og d1 d2
    assume ins: "insert_event (reversal_event og payload tr no) d = Inr (event, d1)"
      and loop: "map_loop (reverse_inbound_line pol now og event payload)
       (sort_key (\<lambda>l. (iel_line_no l, iel_id l)) (inbound_lines_of i d)) d1 = Inr (rows, d2)" and d': "d' = mark_inbound_event_superseded i d2"
    show ?thesis unfolding d' mark_inbound_event_superseded_def
      by (rule keeps_bind [OF keeps_new_event [OF ins] keeps_bind [OF inbound_reversal_keeper.loop_keeps [OF loop] supersede_keeps]])
  qed
next
  assume run: "reverse_outbound_event pol now tr no i payload d = Inr (s, d')"
  obtain event rows where s: "s = (event, rows)" by (cases s)
  from run [unfolded s] show "keeps d d' \<and> same_count_tables d d'"
  proof (rule reverse_outbound_Inr)
    fix og d1 d2
    assume ins: "insert_event (reversal_event og payload tr no) d = Inr (event, d1)"
      and loop: "map_loop (reverse_outbound_line pol now og event payload)
       (sort_key (\<lambda>l. (oel_ref_line l, oel_id l)) (outbound_lines_of i d)) d1 = Inr (rows, d2)" and d': "d' = mark_outbound_event_superseded i d2"
    show ?thesis unfolding d' mark_outbound_event_superseded_def
      by (rule keeps_bind [OF keeps_new_event [OF ins] keeps_bind [OF outbound_reversal_keeper.loop_keeps [OF loop] supersede_keeps]])
  qed
qed

text \<open>Count documents: only posting leaves their own tables.\<close>

lemma keeps_set_count_doc: "keeps d (set_count_doc i f d)"
  by (rule keeps_frame) (simp_all add: same_stock_def set_count_doc_def)

lemma consume_lots_keeps: "consume_lots pol now doc line ev snaps q d = Inr (r, d') \<Longrightarrow> keeps d d' \<and> same_count_tables d d'"
proof (induction snaps arbitrary: q d)
  case (Cons s snaps)
  consider "consume_lots pol now doc line ev snaps q d = Inr (r, d')" | "d' = d"
    | x t q' where "adjust_lot pol now x d = Inr (t, fst q')" "consume_lots pol now doc line ev snaps (snd q') (fst q') = Inr (r, d')"
    using Cons.prems by (fastforce simp: res_simps Let_def split: if_splits)
  then show ?case
  proof cases
    case (3 x t q')
    then show ?thesis
      using keeps_bind [of d "fst q'" d'] adjusting.step_keeps [OF 3(1)] adjusting.step_count [OF 3(1)] Cons.IH [OF 3(2)] by blast
  qed (use Cons.IH [of q d] in simp_all)
qed simp

interpretation post_line_keeper: keeper "post_line_diff pol now doc ev"
proof unfold_locales
  fix l d b d'
  assume "post_line_diff pol now doc ev l d = Inr (b, d')"
  then consider x r where "adjust_lot pol now x d = Inr (r, d')" | s q r where "consume_lots pol now doc l ev s q d = Inr (r, d')"
    by (auto simp: post_line_diff_def Let_def res_simps simp del: consume_lots.simps split: list.splits if_splits)
  then have "keeps d d' \<and> same_count_tables d d'"
    by cases (auto dest: adjusting.step_keeps adjusting.step_count consume_lots_keeps)
  then show "keeps d d'" "same_count_tables d d'" by blast+
qed

lemma post_doc_keeps:
  assumes "post_doc pol now tr no i by_name d = Inr (r, d')"
  shows "keeps d d'"
proof -
  obtain doc where doc: "require_doc i d = Inr doc" using assms by (auto simp: post_doc_def res_simps)
  show ?thesis
  proof (cases "cd_status doc = CD_COUNTED")
    case False
    with assms doc have "d' = d" by (auto simp: post_doc_def res_simps split: if_splits option.splits)
    then show ?thesis by simp
  next
    case True
    from assms doc True obtain name model e ev d2 ctx us d3 where
      ins: "insert_event e (set_reviewed_by_name_snapshot i name d) = Inr (ev, d2)"
      and loop: "map_loop (post_line_diff pol now ctx ev) (doc_lines i d) d2 = Inr (us, d3)"
      and mark: "mark_doc_posted i (ev_id ev) now d3 = Inr ((), d')"
      by (fastforce simp: post_doc_def Let_def res_simps set_reviewed_by_name_snapshot_def)
    have "keeps d (set_reviewed_by_name_snapshot i name d)" unfolding set_reviewed_by_name_snapshot_def by (rule keeps_set_count_doc)
    moreover have "keeps (set_reviewed_by_name_snapshot i name d) d2" using keeps_new_event [OF ins] by simp
    moreover have "keeps d2 d3" using post_line_keeper.loop_keeps [OF loop] by simp
    moreover have "keeps d3 d'" unfolding mark_doc_posted_Inr [OF mark] by (rule keeps_set_count_doc)
    ultimately show ?thesis by (blast intro: keeps_trans)
  qed
qed

lemma freeze_keeps: "freeze_doc i d = Inr (r, d') \<Longrightarrow> keeps d d'"
  by (auto simp: freeze_doc_def freeze_doc_lines_from_current_stock_def Let_def res_simps same_stock_def
      set_count_doc_def intro!: keeps_frame)

lemma update_lines_keeps: "update_doc_lines lu now i by_name raws d = Inr (n, d') \<Longrightarrow> keeps d d'"
proof -
  assume "update_doc_lines lu now i by_name raws d = Inr (n, d')"
  then obtain us d1 f where loop: "map_loop (update_line_count lu i) raws d = Inr (us, d1)"
    and d': "d' = try_mark_doc_counted now i (set_count_doc i f d1)"
    by (auto simp: update_doc_lines_def update_line_counts_def res_simps)
  have one: "update_line_count lu i p t = Inr (u, t') \<Longrightarrow> keeps t t'" for p t u t'
    by (auto simp: update_line_count_def res_simps same_stock_def intro!: keeps_frame)
  have "keeps d d1"
    by (rule map_loop_invariant [where I = "keeps d", OF _ _ loop]) (use one keeps_trans in blast, simp)
  then show ?thesis unfolding d' try_mark_doc_counted_def by (blast intro: keeps_trans keeps_set_count_doc)
qed

lemma exec_count_op_keeps:
  assumes "exec_count_op lu pol op d = Inr d'"
  shows "keeps d d'"
proof (cases op)
  case (CO_create now no w sat remark)
  with assms show ?thesis
    by (auto simp: create_doc_def insert_count_doc_def Let_def res_simps same_stock_def intro!: keeps_frame)
next
  case (CO_void i)
  with assms show ?thesis by (auto simp: void_doc_def mark_doc_voided_def res_simps intro: keeps_set_count_doc)
qed (use assms in \<open>auto simp: res_simps dest: freeze_keeps update_lines_keeps post_doc_keeps\<close>)

lemma ship_one_keeps: "ship_one pol now w ref ts tr n acc d = Inr (r, d') \<Longrightarrow> keeps d d' \<and> same_count_tables d d'"
  by (auto simp: ship_one_def Let_def res_simps split: if_splits option.splits prod.splits
      dest: adjusting.step_keeps adjusting.step_count)

lemma ship_loop_keeps: "ship_loop pol now w ref ts tr ns acc d = Inr (r, d') \<Longrightarrow> keeps d d' \<and> same_count_tables d d'"
proof (induction ns arbitrary: acc d)
  case (Cons n ns)
  then obtain acc1 d1 where "ship_one pol now w ref ts tr n acc d = Inr (acc1, d1)" "ship_loop pol now w ref ts tr ns acc1 d1 = Inr (r, d')"
    by (auto simp: res_simps)
  from keeps_bind [OF ship_one_keeps [OF this(1)] Cons.IH [OF this(2)]] show ?case .
qed simp

lemma ship_commit_keeps:
  "ship_commit_direct_lot_impl pol now w ref lines occ tr d = Inr (r, d') \<Longrightarrow> keeps d d' \<and> same_count_tables d d'"
  by (auto simp: ship_commit_direct_lot_impl_def Let_def res_simps split: if_splits dest: ship_loop_keeps)

section \<open>The system\<close>

datatype wms_op =
    CommitInbound datetime string string commit_payload
  | Outbound outbound_op
  | Count count_op
  | ReverseInbound datetime string string int reversal_in
  | ReverseOutbound datetime string string int reversal_in
  | ShipDirect datetime int string "(int \<times> int) list" "datetime option" "string option"
  | Adjust datetime adjust_args

text \<open>The product master data service and its list of units are parameters of the system.\<close>

fun exec_op :: "pms_client \<Rightarrow> (int list \<Rightarrow> export_uom list) \<Rightarrow> wms_op \<Rightarrow> db \<Rightarrow> db result" where
  "exec_op pms lu (CommitInbound now tr no p) d = bindR (commit_inbound pms now tr no p d) (\<lambda>(_, d'). Inr d')"
| "exec_op pms lu (Outbound op) d = run_outbound op d"
| "exec_op pms lu (Count op) d = exec_count_op lu (pms_policy pms) op d"
| "exec_op pms lu (ReverseInbound now tr no i payload) d = bindR (reverse_inbound_event (pms_policy pms) now tr no i payload d) (\<lambda>(_, d'). Inr d')"
| "exec_op pms lu (ReverseOutbound now tr no i payload) d = bindR (reverse_outbound_event (pms_policy pms) now tr no i payload d) (\<lambda>(_, d'). Inr d')"
| "exec_op pms lu (ShipDirect now w ref lines occ tr) d = bindR (ship_commit_direct_lot_impl (pms_policy pms) now w ref lines occ tr d) (\<lambda>(_, d'). Inr d')"
| "exec_op pms lu (Adjust now a) d = bindR (adjust_lot (pms_policy pms) now a d) (\<lambda>(_, d'). Inr d')"

inductive wms_run :: "pms_client \<Rightarrow> (int list \<Rightarrow> export_uom list) \<Rightarrow> db \<Rightarrow> db \<Rightarrow> bool" for pms lu d0 where
  start: "wms_run pms lu d0 d0"
| step: "wms_run pms lu d0 d \<Longrightarrow> exec_op pms lu op d = Inr d' \<Longrightarrow> wms_run pms lu d0 d'"

definition wms_inv :: "db \<Rightarrow> bool" where
  "wms_inv d \<longleftrightarrow> books_ok d \<and> event_keys_ok d \<and> doc_inv d \<and> count_inv d"

lemma count_inv_same: "same_count_tables d d' \<Longrightarrow> count_inv d' = count_inv d"
  by (rule count_inv_frame) (simp_all add: same_count_tables_def)

lemma exec_op_keeps:
  assumes "exec_op pms lu op d = Inr d'"
  shows "keeps d d' \<and> (count_inv d \<longrightarrow> count_inv d')"
proof (cases op)
  case (Count c)
  with assms show ?thesis using exec_count_op_keeps [of lu _ c d d'] exec_count_op_inv [of d lu _ c d'] by auto
next
  case (Outbound o')
  with assms run_outbound_keeps [of o' d d'] count_inv_same [of d d'] show ?thesis by simp
qed (use assms count_inv_same [of d d'] in \<open>auto simp: res_simps dest: commit_inbound_keeps reversal_keeps ship_commit_keeps
      adjusting.step_keeps adjusting.step_count\<close>)

lemma wms_run_keeps: "wms_run pms lu d0 d \<Longrightarrow> keeps d0 d \<and> (count_inv d0 \<longrightarrow> count_inv d)"
  by (induction rule: wms_run.induct) (auto intro: keeps_trans dest: exec_op_keeps)

section \<open>The stock book: an abstract specification\<close>

text \<open>
  What the system promises about stock, without tables: a book of balances by warehouse, item and
  lot, moved by entries; an entry that would make a balance negative is refused.
\<close>

type_synonym stock_book = "dims \<Rightarrow> int"
type_synonym entry = "dims \<times> int"

fun post_entry :: "entry \<Rightarrow> stock_book \<Rightarrow> stock_book option" where
  "post_entry (k, q) B = (if 0 \<le> B k + q then Some (B(k := B k + q)) else None)"

fun post_entries :: "entry list \<Rightarrow> stock_book \<Rightarrow> stock_book option" where
  "post_entries [] B = Some B"
| "post_entries (e # es) B = (case post_entry e B of None \<Rightarrow> None | Some B' \<Rightarrow> post_entries es B')"

definition entry_of :: "ledger_row \<Rightarrow> entry" where
  "entry_of r = (led_dims r, led_delta r)"

lemma running_suffix: "running seen (xs @ ys) \<Longrightarrow> running (seen @ xs) ys"
proof (induction xs arbitrary: seen)
  case (Cons x xs)
  from Cons.prems have "running (seen @ [x]) (xs @ ys)" by simp
  from Cons.IH [OF this] show ?case by simp
qed simp

lemma running_posts:
  assumes "running seen rows" and "\<And>k. B k = sum_where led_delta (\<lambda>r. led_dims r = k) seen"
  shows "post_entries (map entry_of rows) B = Some (\<lambda>k. sum_where led_delta (\<lambda>r. led_dims r = k) (seen @ rows))"
  using assms
proof (induction rows arbitrary: seen B)
  case Nil
  then have "B = (\<lambda>k. sum_where led_delta (\<lambda>r. led_dims r = k) seen)" by blast
  then show ?case by simp
next
  case (Cons r rows)
  let ?B = "B(led_dims r := B (led_dims r) + led_delta r)"
  from Cons.prems have "post_entry (entry_of r) B = Some ?B" by (simp add: entry_of_def)
  moreover have "?B k = sum_where led_delta (\<lambda>x. led_dims x = k) (seen @ [r])" for k using Cons.prems(2) by simp
  moreover have "running (seen @ [r]) rows" using Cons.prems(1) by simp
  ultimately have "post_entries (map entry_of rows) ?B = Some (\<lambda>k. sum_where led_delta (\<lambda>r. led_dims r = k) ((seen @ [r]) @ rows))"
    by (intro Cons.IH)
  with \<open>post_entry (entry_of r) B = Some ?B\<close> show ?case by simp
qed

lemma books_post_entries:
  assumes "books_ok d" and "books_ok d'" and "db_stock_ledger d' = db_stock_ledger d @ rows"
  shows "post_entries (map entry_of rows) (on_hand d) = Some (on_hand d')"
proof -
  have "running [] (db_stock_ledger d @ rows)" using assms(2,3) by (simp add: books_defs)
  from running_suffix [OF this] have "running (db_stock_ledger d) rows" by simp
  from running_posts [OF this, of "on_hand d"] balancedD [OF assms(1)] have
    "post_entries (map entry_of rows) (on_hand d) = Some (\<lambda>k. sum_where led_delta (\<lambda>r. led_dims r = k) (db_stock_ledger d @ rows))"
    by (simp add: balance_def)
  also have "(\<lambda>k. sum_where led_delta (\<lambda>r. led_dims r = k) (db_stock_ledger d @ rows)) = on_hand d'"
    using balancedD [OF assms(2)] assms(3) by (auto simp: balance_def fun_eq_iff)
  finally show ?thesis .
qed

section \<open>Properties of the system\<close>

text \<open>
  The system refines the stock book. Whatever sequence of operations runs, the ledger only grows, and
  its new rows, read as entries in their order, lead the abstract stock book from the quantities on hand before to the
  quantities on hand after, with no entry refused: no balance is negative at any point in between, and no stock moves
  without an entry.
\<close>

lemma system_refines_stock_book:
  assumes "books_ok d0" and "wms_run pms lu d0 d"
  shows "\<exists>rows. db_stock_ledger d = db_stock_ledger d0 @ rows \<and> post_entries (map entry_of rows) (on_hand d0) = Some (on_hand d)"
proof -
  have ok: "books_ok d" and grow: "ledger_grows d0 d" using wms_run_keeps [OF assms(2)] assms(1) by (simp_all add: keeps_def)
  from grow obtain rows where "db_stock_ledger d = db_stock_ledger d0 @ rows" by (auto simp: ledger_grows_def)
  with books_post_entries [OF assms(1) ok this] show ?thesis by blast
qed

definition sample_run :: "wms_op list" where
  "sample_run = [CommitInbound 0 ''T1'' ''IE-1'' sample_inbound, ReverseInbound 9 ''T2'' ''IER-1'' 1 sample_reversal,
     Count (CO_create 3 ''CTD-1'' 1 3 None), Adjust 0 sample_ship, Count (CO_freeze 1)]"

fun exec_ops :: "wms_op list \<Rightarrow> db \<Rightarrow> db result" where
  "exec_ops [] d = Inr d"
| "exec_ops (op # ops) d = bindR (exec_op sample_pms sample_uoms op d) (exec_ops ops)"

lemma exec_ops_run: "wms_run sample_pms sample_uoms d0 d \<Longrightarrow> exec_ops ops d = Inr d' \<Longrightarrow> wms_run sample_pms sample_uoms d0 d'"
  by (induction ops arbitrary: d) (auto simp: res_simps intro: wms_run.step)

lemma sample_run_succeeds: "succeeds (exec_ops sample_run sample_db) (\<lambda>d. length (db_stock_ledger d) > length (db_stock_ledger sample_db))"
  by code_simp

lemma system_refines_stock_book_witness:
  "\<exists>d rows. exec_ops sample_run sample_db = Inr d \<and> rows \<noteq> [] \<and> db_stock_ledger d = db_stock_ledger sample_db @ rows \<and>
     post_entries (map entry_of rows) (on_hand sample_db) = Some (on_hand d)"
proof -
  obtain d where run: "exec_ops sample_run sample_db = Inr d" and more: "length (db_stock_ledger d) > length (db_stock_ledger sample_db)"
    using succeedsD [OF sample_run_succeeds] by blast
  from system_refines_stock_book [OF sample_books_ok exec_ops_run [OF wms_run.start run]] obtain rows where
    rows: "db_stock_ledger d = db_stock_ledger sample_db @ rows" "post_entries (map entry_of rows) (on_hand sample_db) = Some (on_hand d)" by blast
  moreover from rows(1) more have "rows \<noteq> []" by auto
  ultimately show ?thesis using run by blast
qed

text \<open>
  The invariant of the system. Every sequence of operations, of all components in any order, keeps the invariant: the
  books of stock and ledger agree, events and their lines keep their keys, manual documents and count documents keep theirs.
  In particular no quantity on hand is ever negative and each equals the sum of its ledger rows.
\<close>

lemma system_invariant:
  assumes "wms_inv d0" and "wms_run pms lu d0 d"
  shows "wms_inv d \<and> (\<forall>k. 0 \<le> on_hand d k \<and> on_hand d k = balance d k)"
proof -
  have inv: "wms_inv d" using wms_run_keeps [OF assms(2)] assms(1) by (simp add: wms_inv_def keeps_def)
  then have "books_ok d" by (simp add: wms_inv_def)
  then have "0 \<le> on_hand d k \<and> on_hand d k = balance d k" for k
    using balancedD [of d k] on_hand_nonneg [of d k] by (simp add: books_ok_def)
  with inv show ?thesis by blast
qed

lemma system_invariant_witness:
  "\<exists>d. exec_ops sample_run sample_db = Inr d \<and> wms_inv d"
proof -
  obtain d where run: "exec_ops sample_run sample_db = Inr d" using succeedsD [OF sample_run_succeeds] by blast
  have "wms_inv sample_db" by code_simp
  from system_invariant [OF this exec_ops_run [OF wms_run.start run]] run show ?thesis by blast
qed

end
