(* ===== verification/Barcode.thy ===== *)
theory Barcode
  imports Wms_Dates
begin

text \<open>
  The barcode parser \<open>app/wms/shared/services/barcode.py\<close>: labels of the form \<open>SKU:...\<close>, GS1
  element strings with and without brackets, plain EAN-8, UPC-A and EAN-13 numbers with their
  check digits, and key/value labels. The three regular expressions of the class are written as
  matchers on character lists; \<open>findall\<close> and \<open>finditer\<close> are scans that go on behind a match. The
  callback that maps a GTIN to a SKU is a parameter, absent or present as in the constructor.

  Shown: the shape of every result, that the loop of the bracketless parser ends on every input,
  that both GS1 notations are read back, and that a one-digit misreading of a check-digit code is
  never taken for a GTIN.
\<close>

section \<open>Character classes\<close>

definition is_alpha :: "char \<Rightarrow> bool" where
  "is_alpha c = (let n = (of_char c :: nat) in (65 \<le> n \<and> n \<le> 90) \<or> (97 \<le> n \<and> n \<le> 122))"

text \<open>\<open>\w\<close> and the class \<open>[A-Za-z0-9\-_\.]\<close> of the values.\<close>

definition is_word :: "char \<Rightarrow> bool" where
  "is_word c \<longleftrightarrow> is_alpha c \<or> is_digit c \<or> c = CHR ''_''"

definition is_value :: "char \<Rightarrow> bool" where
  "is_value c \<longleftrightarrow> is_word c \<or> c = CHR ''-'' \<or> c = CHR ''.''"

definition py_isdigit :: "string \<Rightarrow> bool" where
  "py_isdigit s \<longleftrightarrow> s \<noteq> [] \<and> list_all is_digit s"

definition digit_value :: "char \<Rightarrow> int" where
  "digit_value c = int (of_char c) - 48"

text \<open>\<open>int(s)\<close> of a string of digits.\<close>

definition decimal :: "string \<Rightarrow> int" where
  "decimal s = foldl (\<lambda>a c. 10 * a + digit_value c) 0 s"

section \<open>The result\<close>

record parsed_barcode =
  p_sku :: "string option"
  p_gtin :: "string option"
  p_batch :: "string option"
  p_expiry :: "date option"
  p_raw :: string
  p_kind :: string

definition unknown_barcode :: "string \<Rightarrow> parsed_barcode" where
  "unknown_barcode code =
     \<lparr>p_sku = None, p_gtin = None, p_batch = None, p_expiry = None, p_raw = code, p_kind = ''UNKNOWN''\<rparr>"

section \<open>Check digits and dates\<close>

text \<open>The sum of the digits with the weights \<open>a\<close>, \<open>b\<close>, \<open>a\<close>, ... from the left.\<close>

fun weigh :: "int \<Rightarrow> int \<Rightarrow> int list \<Rightarrow> int" where
  "weigh a b [] = 0"
| "weigh a b (n # ns) = a * n + weigh b a ns"

definition valid_ean13 :: "string \<Rightarrow> bool" where
  "valid_ean13 gtin \<longleftrightarrow> py_isdigit gtin \<and> length gtin = 13 \<and>
     (let digits = map digit_value gtin; checksum = last digits; s = weigh 1 3 (butlast digits)
      in (10 - s mod 10) mod 10 = checksum)"

definition valid_upc12 :: "string \<Rightarrow> bool" where
  "valid_upc12 gtin \<longleftrightarrow> py_isdigit gtin \<and> length gtin = 12 \<and>
     (let digits = map digit_value gtin; checksum = last digits; s = weigh 3 1 (butlast digits)
      in (10 - s mod 10) mod 10 = checksum)"

definition valid_ean8 :: "string \<Rightarrow> bool" where
  "valid_ean8 gtin \<longleftrightarrow> py_isdigit gtin \<and> length gtin = 8 \<and>
     (let digits = map digit_value gtin; checksum = last digits;
          s = 3 * digits ! 0 + 1 * digits ! 1 + 3 * digits ! 2 + 1 * digits ! 3
              + 3 * digits ! 4 + 1 * digits ! 5 + 3 * digits ! 6
      in (10 - s mod 10) mod 10 = checksum)"

definition date_or_none :: "int \<Rightarrow> int \<Rightarrow> int \<Rightarrow> date option" where
  "date_or_none y m d = (case mk_date y m d of Inl _ \<Rightarrow> None | Inr t \<Rightarrow> Some t)"

definition parse_expiry :: "string option \<Rightarrow> date option" where
  "parse_expiry raw =
     (case raw of
        None \<Rightarrow> None
      | Some r \<Rightarrow>
          (if r = [] then None
           else let s = py_strip r
                in if length s = 8 \<and> py_isdigit s
                   then date_or_none (decimal (take 4 s)) (decimal (take 2 (drop 4 s))) (decimal (take 2 (drop 6 s)))
                   else if length s = 6 \<and> py_isdigit s
                   then date_or_none (2000 + decimal (take 2 s)) (decimal (take 2 (drop 2 s))) (decimal (take 2 (drop 4 s)))
                   else None))"

section \<open>The label \<open>SKU:...\<close>\<close>

text \<open>A keyword at the start of the text, in any case; the rest of the text.\<close>

definition after_keyword :: "string \<Rightarrow> string \<Rightarrow> string option" where
  "after_keyword k s = (if py_upper (take (length k) s) = k then Some (drop (length k) s) else None)"

definition re_sku_prefix :: "string \<Rightarrow> string option" where
  "re_sku_prefix s =
     (let t = dropWhile is_space s
      in case (case after_keyword ''SKU'' t of Some r \<Rightarrow> Some r | None \<Rightarrow> after_keyword ''ITEM'' t) of
           None \<Rightarrow> None
         | Some r \<Rightarrow>
             (case dropWhile is_space r of
                [] \<Rightarrow> None
              | c # r' \<Rightarrow>
                  (let v = dropWhile is_space r'; sku = takeWhile is_value v
                   in if c = CHR '':'' \<and> sku \<noteq> [] \<and> list_all is_space (dropWhile is_value v)
                      then Some sku else None)))"

section \<open>GS1 with brackets\<close>

text \<open>\<open>re.compile(r"\((\d{2})\)([^\(]+)").findall\<close>\<close>

definition not_open :: "char \<Rightarrow> bool" where
  "not_open c \<longleftrightarrow> c \<noteq> CHR ''(''"

definition re_gs1_ai :: "string \<Rightarrow> (string \<times> string \<times> string) option" where
  "re_gs1_ai s =
     (case s of
        a # d1 # d2 # b # v # r \<Rightarrow>
          (if a = CHR ''('' \<and> is_digit d1 \<and> is_digit d2 \<and> b = CHR '')'' \<and> not_open v
           then Some ([d1, d2], v # takeWhile not_open r, dropWhile not_open r) else None)
      | _ \<Rightarrow> None)"

lemma re_gs1_ai_shorter: "re_gs1_ai s = Some (k, v, r) \<Longrightarrow> length r < length s"
  using length_dropWhile_le [of not_open]
  by (auto simp: re_gs1_ai_def le_imp_less_Suc less_SucI split: list.splits if_splits)

function gs1_findall :: "string \<Rightarrow> (string \<times> string) list" where
  "gs1_findall s =
     (case re_gs1_ai s of
        Some (k, v, r) \<Rightarrow> (k, v) # gs1_findall r
      | None \<Rightarrow> (case s of [] \<Rightarrow> [] | c # s' \<Rightarrow> gs1_findall s'))"
  by pat_completeness auto
termination by (relation "measure length") (auto dest: re_gs1_ai_shorter)

declare gs1_findall.simps [simp del]

text \<open>\<open>for k, v in pairs: ai[k] = v.strip()\<close>, then \<open>ai.get(key)\<close>: the last pair of a key counts.\<close>

definition ai_get :: "(string \<times> string) list \<Rightarrow> string \<Rightarrow> string option" where
  "ai_get pairs key = map_option py_strip (map_of (rev pairs) key)"

definition checked_gtin :: "string option \<Rightarrow> string option" where
  "checked_gtin gtin =
     (case gtin of
        None \<Rightarrow> None
      | Some g \<Rightarrow>
          (if g \<noteq> [] \<and> length g \<in> {8, 12, 13, 14} then
             (let core = (if length g = 14 then tl g else g)
              in if length core = 13 \<and> \<not> valid_ean13 core then None
                 else if length core = 12 \<and> \<not> valid_upc12 core then None
                 else if length core = 8 \<and> \<not> valid_ean8 core then None
                 else Some g)
           else Some g))"

definition parse_gs1 :: "string \<Rightarrow> parsed_barcode option" where
  "parse_gs1 s =
     (let pairs = gs1_findall s
      in if pairs = [] then None
         else Some \<lparr>p_sku = None, p_gtin = checked_gtin (ai_get pairs ''01''),
                    p_batch = ai_get pairs ''10'', p_expiry = parse_expiry (ai_get pairs ''17''),
                    p_raw = s, p_kind = ''GS1''\<rparr>)"

section \<open>GS1 without brackets\<close>

text \<open>
  The \<open>while\<close> loop. The outer option is the run of the loop, \<open>None\<close> when it does not end; the
  inner one is what it hands on, \<open>None\<close> for its \<open>return None\<close>.
\<close>

partial_function (option) compact_loop ::
  "string \<Rightarrow> nat \<Rightarrow> string option \<Rightarrow> string option \<Rightarrow> date option
   \<Rightarrow> (string option \<times> string option \<times> date option) option option" where
  "compact_loop s i gtin batch expiry =
     (if i + 2 \<le> length s then
        (let ai = take 2 (drop i s); i = i + 2
         in if ai = ''01'' then
              (if i + 14 > length s then Some None
               else compact_loop s (i + 14) (Some (take 14 (drop i s))) batch expiry)
            else if ai = ''17'' then
              (if i + 6 > length s then Some None
               else compact_loop s (i + 6) gtin batch (parse_expiry (Some (take 6 (drop i s)))))
            else if ai = ''10'' then
              Some (Some (gtin, (if drop i s = [] then None else Some (drop i s)), expiry))
            else Some None)
      else Some (Some (gtin, batch, expiry)))"

definition parse_compact_gs1 :: "string \<Rightarrow> parsed_barcode option option" where
  "parse_compact_gs1 s =
     (case compact_loop s 0 None None None of
        None \<Rightarrow> None
      | Some None \<Rightarrow> Some None
      | Some (Some (gtin, batch, expiry)) \<Rightarrow>
          (if gtin = None \<and> batch = None \<and> expiry = None then Some None
           else Some (Some \<lparr>p_sku = None, p_gtin = gtin, p_batch = batch, p_expiry = expiry,
                           p_raw = s, p_kind = ''GS1''\<rparr>)))"

section \<open>Key/value labels\<close>

definition kv_keys :: "string list" where
  "kv_keys = [''SKU'', ''ITEM'', ''BATCH'', ''LOT'', ''EXP'', ''EXPIRE'', ''EXPIRY'']"

text \<open>
  One match of \<open>\b(SKU|...)\b\s*[:=]\s*([A-Za-z0-9\-_\.]+)\<close> at the start of \<open>s\<close>; \<open>after_word\<close> says
  that a word character precedes. Between the two word boundaries stands a whole word.
\<close>

definition re_kv :: "bool \<Rightarrow> string \<Rightarrow> (string \<times> string \<times> string) option" where
  "re_kv after_word s =
     (let k = takeWhile is_word s
      in if after_word \<or> py_upper k \<notin> set kv_keys then None
         else (case dropWhile is_space (dropWhile is_word s) of
                 [] \<Rightarrow> None
               | c # r \<Rightarrow>
                   (let t = dropWhile is_space r; v = takeWhile is_value t
                    in if c \<in> {CHR '':'', CHR ''=''} \<and> v \<noteq> []
                       then Some (py_upper k, v, dropWhile is_value t) else None)))"

lemma re_kv_shorter:
  assumes "re_kv w s = Some (k, v, r)" shows "length r < length s"
proof -
  from assms obtain c t where t: "dropWhile is_space (dropWhile is_word s) = c # t"
    and r: "r = dropWhile is_value (dropWhile is_space t)"
    by (auto simp: re_kv_def Let_def split: list.splits if_splits)
  have "length (c # t) \<le> length s" unfolding t [symmetric]
    using length_dropWhile_le le_trans by blast
  moreover have "length r \<le> length t" unfolding r
    using length_dropWhile_le le_trans by blast
  ultimately show ?thesis by simp
qed

function kv_findall :: "bool \<Rightarrow> string \<Rightarrow> (string \<times> string) list" where
  "kv_findall after_word s =
     (case re_kv after_word s of
        Some (k, v, r) \<Rightarrow> (k, v) # kv_findall (is_word (last v)) r
      | None \<Rightarrow> (case s of [] \<Rightarrow> [] | c # s' \<Rightarrow> kv_findall (is_word c) s'))"
  by pat_completeness auto
termination by (relation "measure (\<lambda>(w, s). length s)") (auto dest: re_kv_shorter)

declare kv_findall.simps [simp del]

text \<open>\<open>found.get(a) or found.get(b) or ...\<close>: the last value of the first key that is there.\<close>

fun first_found :: "(string \<times> string) list \<Rightarrow> string list \<Rightarrow> string option" where
  "first_found pairs [] = None"
| "first_found pairs (k # ks) =
     (case map_of (rev pairs) k of Some v \<Rightarrow> Some v | None \<Rightarrow> first_found pairs ks)"

definition parse_kv :: "string \<Rightarrow> parsed_barcode option" where
  "parse_kv s =
     (let found = kv_findall False (filter (\<lambda>c. c \<noteq> CHR 0x5C) (filter (\<lambda>c. c \<noteq> CHR ''/'') s))
      in if found = [] then None
         else Some \<lparr>p_sku = first_found found [''SKU'', ''ITEM''], p_gtin = None,
                    p_batch = first_found found [''BATCH'', ''LOT''],
                    p_expiry = parse_expiry (first_found found [''EXP'', ''EXPIRE'', ''EXPIRY'']),
                    p_raw = s, p_kind = ''KV''\<rparr>)"

section \<open>parse and resolve\<close>

type_synonym gtin_to_sku = "(string \<Rightarrow> string option) option"

text \<open>\<open>self._gtin_to_sku(gtin) if (self._gtin_to_sku and gtin) else None\<close>\<close>

definition sku_of_gtin :: "gtin_to_sku \<Rightarrow> string option \<Rightarrow> string option" where
  "sku_of_gtin cb gtin =
     (case cb of
        None \<Rightarrow> None
      | Some f \<Rightarrow> (case gtin of None \<Rightarrow> None | Some g \<Rightarrow> if g = [] then None else f g))"

definition gs1_result :: "gtin_to_sku \<Rightarrow> string \<Rightarrow> parsed_barcode \<Rightarrow> parsed_barcode" where
  "gs1_result cb code g =
     \<lparr>p_sku = (case p_sku g of Some k \<Rightarrow> Some k | None \<Rightarrow> sku_of_gtin cb (p_gtin g)),
      p_gtin = p_gtin g, p_batch = p_batch g, p_expiry = p_expiry g, p_raw = code, p_kind = ''GS1''\<rparr>"

definition gtin_kind :: "string \<Rightarrow> string option" where
  "gtin_kind s =
     (if length s = 8 \<and> valid_ean8 s then Some ''EAN8''
      else if length s = 12 \<and> valid_upc12 s then Some ''UPC12''
      else if length s = 13 \<and> valid_ean13 s then Some ''EAN13''
      else None)"

text \<open>The separators \<open>| ; ,\<close>, line feed and blank.\<close>

definition kv_separators :: "char list" where
  "kv_separators = [CHR ''|'', CHR '';'', CHR '','', CHR 0x0A, CHR '' '']"

definition parse_kv_or_unknown :: "string \<Rightarrow> string \<Rightarrow> parsed_barcode" where
  "parse_kv_or_unknown code s =
     (if list_ex (\<lambda>sep. sep \<in> set s) kv_separators
      then (case parse_kv s of Some kv \<Rightarrow> kv | None \<Rightarrow> unknown_barcode code)
      else unknown_barcode code)"

definition parse_plain :: "gtin_to_sku \<Rightarrow> string \<Rightarrow> string \<Rightarrow> parsed_barcode" where
  "parse_plain cb code s =
     (case (if py_isdigit s then gtin_kind s else None) of
        Some kind \<Rightarrow>
          \<lparr>p_sku = (case cb of None \<Rightarrow> None | Some f \<Rightarrow> f s), p_gtin = Some s, p_batch = None,
           p_expiry = None, p_raw = code, p_kind = kind\<rparr>
      | None \<Rightarrow> parse_kv_or_unknown code s)"

definition is_compact :: "string \<Rightarrow> bool" where
  "is_compact s \<longleftrightarrow> take 2 s = ''01'' \<and> 16 \<le> length s \<and> py_isdigit (take 14 (drop 2 s))"

text \<open>The outer option is the run of the loop without brackets.\<close>

definition parse_barcode :: "gtin_to_sku \<Rightarrow> string \<Rightarrow> parsed_barcode option" where
  "parse_barcode cb code =
     (let s = py_strip code
      in if length s < 2 then Some (unknown_barcode code)
         else case re_sku_prefix s of
           Some sku \<Rightarrow>
             Some \<lparr>p_sku = Some (py_strip sku), p_gtin = None, p_batch = None, p_expiry = None,
                   p_raw = code, p_kind = ''SKU''\<rparr>
         | None \<Rightarrow>
             (case (if CHR ''('' \<in> set s \<and> CHR '')'' \<in> set s then parse_gs1 s else None) of
                Some g \<Rightarrow> Some (gs1_result cb code g)
              | None \<Rightarrow>
                  (case (if is_compact s then parse_compact_gs1 s else Some None) of
                     None \<Rightarrow> None
                   | Some (Some g) \<Rightarrow> Some (gs1_result cb code g)
                   | Some None \<Rightarrow> Some (parse_plain cb code s))))"

definition resolve_barcode :: "gtin_to_sku \<Rightarrow> string \<Rightarrow> string option option" where
  "resolve_barcode cb code = map_option p_sku (parse_barcode cb code)"

section \<open>The loop without brackets ends\<close>

lemma compact_loop_total: "\<exists>r. compact_loop s i gtin batch expiry = Some r"
proof (induction "length s - i" arbitrary: i gtin batch expiry rule: less_induct)
  case less
  show ?case
  proof (cases "i + 2 \<le> length s")
    case True
    have "\<exists>r. compact_loop s (i + 2 + k) g b e = Some r" if "0 < k" for k g b e
      by (rule less) (use True that in simp)
    from this [of 14] this [of 6] show ?thesis
      by (subst compact_loop.simps) (simp add: Let_def add.assoc)
  qed (simp add: compact_loop.simps)
qed

lemma parse_compact_total: "\<exists>r. parse_compact_gs1 s = Some r"
  using compact_loop_total [of s 0 None None None]
  by (auto simp: parse_compact_gs1_def split: option.splits)

section \<open>The shape of the results\<close>

lemma list_all_takeWhile: "list_all P (takeWhile P xs)"
  by (induction xs) auto

lemma dropWhile_none: "list_all (\<lambda>x. \<not> P x) xs \<Longrightarrow> dropWhile P xs = xs"
  by (cases xs) auto

lemma py_strip_no_space: "list_all (\<lambda>c. \<not> is_space c) s \<Longrightarrow> py_strip s = s"
  by (simp add: py_strip_def dropWhile_none)

lemma is_value_not_space: "is_value c \<Longrightarrow> \<not> is_space c"
  by (auto simp: is_value_def is_word_def is_alpha_def is_digit_def is_space_def Let_def)

lemma py_strip_value: "list_all is_value s \<Longrightarrow> py_strip s = s"
  by (rule py_strip_no_space) (auto simp: list_all_iff is_value_not_space)

lemma parse_expiry_valid: "parse_expiry raw = Some d \<Longrightarrow> valid_date d"
  by (auto simp: parse_expiry_def date_or_none_def res_simps Let_def split: option.splits if_splits sum.splits)

lemma re_sku_prefix_value: "re_sku_prefix s = Some k \<Longrightarrow> k \<noteq> [] \<and> list_all is_value k"
  by (auto simp: re_sku_prefix_def Let_def list_all_takeWhile split: option.splits list.splits if_splits)

lemma kv_findall_values:
  "(k, v) \<in> set (kv_findall w s) \<Longrightarrow> v \<noteq> [] \<and> list_all is_value v"
proof (induction w s rule: kv_findall.induct)
  case (1 w s)
  have here: "v' \<noteq> [] \<and> list_all is_value v'" if "re_kv w s = Some (k', v', r')" for k' v' r'
    using that by (auto simp: re_kv_def Let_def list_all_takeWhile split: list.splits if_splits)
  show ?case
  proof (cases "re_kv w s")
    case None
    with "1.prems" obtain c s' where "s = c # s'" "(k, v) \<in> set (kv_findall (is_word c) s')"
      by (subst (asm) kv_findall.simps) (cases s, simp_all)
    with "1.IH"(1) [OF None] show ?thesis by blast
  next
    case (Some m)
    obtain k' v' r where m: "m = (k', v', r)" by (cases m)
    with Some "1.prems" have "v = v' \<or> (k, v) \<in> set (kv_findall (is_word (last v')) r)"
      by (subst (asm) kv_findall.simps) auto
    with "1.IH"(2) [OF Some m [symmetric] refl] here Some m show ?thesis by blast
  qed
qed

lemma first_found_in: "first_found pairs ks = Some v \<Longrightarrow> \<exists>k. (k, v) \<in> set pairs"
  by (induction pairs ks rule: first_found.induct) (force split: option.splits dest: map_of_SomeD)+

definition value_text :: "string option \<Rightarrow> bool" where
  "value_text t = (case t of None \<Rightarrow> True | Some v \<Rightarrow> v \<noteq> [] \<and> list_all is_value v)"

lemma first_found_value: "value_text (first_found (kv_findall w s) ks)"
  by (cases "first_found (kv_findall w s) ks")
    (auto simp: value_text_def dest!: first_found_in dest: kv_findall_values)

lemma checked_gtin_ok:
  assumes "checked_gtin g = Some t"
  shows "g = Some t" and "length t = 13 \<Longrightarrow> valid_ean13 t" and "length t = 12 \<Longrightarrow> valid_upc12 t"
    and "length t = 8 \<Longrightarrow> valid_ean8 t" and "length t = 14 \<Longrightarrow> valid_ean13 (tl t)"
  using assms by (auto simp: checked_gtin_def Let_def split: option.splits if_splits)

lemma compact_loop_gtin:
  assumes "compact_loop s i gtin batch expiry = Some (Some (g, b, e))"
    and "\<And>t. gtin = Some t \<Longrightarrow> length t = 14" and "\<And>d. expiry = Some d \<Longrightarrow> valid_date d"
  shows "(\<forall>t. g = Some t \<longrightarrow> length t = 14) \<and> (\<forall>d. e = Some d \<longrightarrow> valid_date d)"
  using assms
proof (induction "length s - i" arbitrary: i gtin batch expiry rule: less_induct)
  case less
  show ?case
  proof (cases "i + 2 \<le> length s")
    case True
    have step: "(\<forall>t. g = Some t \<longrightarrow> length t = 14) \<and> (\<forall>d. e = Some d \<longrightarrow> valid_date d)"
      if "compact_loop s (i + 2 + k) g' b' e' = Some (Some (g, b, e))" "0 < k"
        "\<And>t. g' = Some t \<Longrightarrow> length t = 14" "\<And>d. e' = Some d \<Longrightarrow> valid_date d" for k g' b' e'
      by (rule less.hyps [OF _ that(1,3,4)]) (use True that in auto)
    have ai: "take 2 (drop i s) = ''01'' \<or> take 2 (drop i s) = ''17'' \<or> take 2 (drop i s) = ''10''"
      using less.prems(1) True by (subst (asm) compact_loop.simps) (auto simp: Let_def split: if_splits)
    have gtin: ?thesis if ai: "take 2 (drop i s) = ''01''"
    proof -
      from less.prems(1) True ai
      have "i + 2 + 14 \<le> length s \<and>
          compact_loop s (i + 2 + 14) (Some (take 14 (drop (i + 2) s))) batch expiry = Some (Some (g, b, e))"
        by (subst (asm) compact_loop.simps) (simp add: Let_def split: if_splits)
      then show ?thesis by (intro step [of 14]) (use less.prems(3) in auto)
    qed
    have expiry: ?thesis if ai: "take 2 (drop i s) = ''17''"
    proof -
      from less.prems(1) True ai
      have "compact_loop s (i + 2 + 6) gtin batch (parse_expiry (Some (take 6 (drop (i + 2) s)))) = Some (Some (g, b, e))"
        by (subst (asm) compact_loop.simps) (simp add: Let_def split: if_splits)
      then show ?thesis by (intro step [of 6]) (use less.prems(2) parse_expiry_valid in auto)
    qed
    have batch: ?thesis if ai: "take 2 (drop i s) = ''10''"
      using less.prems True ai by (subst (asm) compact_loop.simps) (auto simp: Let_def)
    from ai gtin expiry batch show ?thesis by blast
  qed (use less.prems in \<open>auto simp: compact_loop.simps\<close>)
qed

text \<open>What a consumer of the parser may rely on, kind by kind.\<close>

definition wf_gs1 :: "parsed_barcode \<Rightarrow> bool" where
  "wf_gs1 p \<longleftrightarrow>
     (case p_gtin p of None \<Rightarrow> True
      | Some g \<Rightarrow> (length g = 8 \<longrightarrow> valid_ean8 g) \<and> (length g = 12 \<longrightarrow> valid_upc12 g) \<and> (length g = 13 \<longrightarrow> valid_ean13 g))"

definition wf_barcode :: "string \<Rightarrow> parsed_barcode \<Rightarrow> bool" where
  "wf_barcode code p \<longleftrightarrow>
     (case p_expiry p of None \<Rightarrow> True | Some d \<Rightarrow> valid_date d) \<and>
     (if p_kind p = ''UNKNOWN'' then p = unknown_barcode code
      else if p_kind p = ''SKU'' then
        p_sku p \<noteq> None \<and> value_text (p_sku p) \<and> p_gtin p = None \<and> p_batch p = None \<and> p_expiry p = None
        \<and> p_raw p = code
      else if p_kind p = ''KV'' then
        value_text (p_sku p) \<and> value_text (p_batch p) \<and> p_gtin p = None \<and> p_raw p = py_strip code
      else if p_kind p = ''GS1'' then wf_gs1 p \<and> p_raw p = code
      else p_gtin p = Some (py_strip code) \<and> gtin_kind (py_strip code) = Some (p_kind p)
        \<and> p_kind p \<in> {''EAN8'', ''UPC12'', ''EAN13''} \<and> p_batch p = None \<and> p_expiry p = None \<and> p_raw p = code)"

lemma wf_unknown: "wf_barcode code (unknown_barcode code)"
  by (simp add: wf_barcode_def unknown_barcode_def)

lemma wf_gs1_result:
  assumes "wf_gs1 g" and "\<And>d. p_expiry g = Some d \<Longrightarrow> valid_date d"
  shows "wf_barcode code (gs1_result cb code g)"
  using assms by (auto simp: wf_barcode_def gs1_result_def wf_gs1_def split: option.split)

lemma wf_parse_gs1: "parse_gs1 s = Some g \<Longrightarrow> wf_gs1 g \<and> (\<forall>d. p_expiry g = Some d \<longrightarrow> valid_date d)"
  by (auto simp: parse_gs1_def wf_gs1_def Let_def parse_expiry_valid dest: checked_gtin_ok
      split: if_splits option.split)

lemma wf_parse_compact:
  assumes "parse_compact_gs1 s = Some (Some g)"
  shows "wf_gs1 g \<and> (\<forall>d. p_expiry g = Some d \<longrightarrow> valid_date d)"
proof -
  from assms have "compact_loop s 0 None None None = Some (Some (p_gtin g, p_batch g, p_expiry g))"
    by (auto simp: parse_compact_gs1_def split: option.splits if_splits)
  from compact_loop_gtin [OF this] show ?thesis by (auto simp: wf_gs1_def split: option.split)
qed

lemma wf_parse_kv: "parse_kv (py_strip code) = Some p \<Longrightarrow> wf_barcode code p"
  by (simp add: parse_kv_def Let_def split: if_splits del: first_found.simps)
    (auto simp: wf_barcode_def first_found_value parse_expiry_valid simp del: first_found.simps
      split: option.split)

lemma wf_kv_or_unknown: "wf_barcode code (parse_kv_or_unknown code (py_strip code))"
  by (auto simp: parse_kv_or_unknown_def wf_unknown wf_parse_kv split: option.split)

lemma gtin_kind_values: "gtin_kind s = Some k \<Longrightarrow> k \<in> {''EAN8'', ''UPC12'', ''EAN13''}"
  by (simp add: gtin_kind_def split: if_splits)

lemma wf_parse_plain: "wf_barcode code (parse_plain cb code (py_strip code))"
proof (cases "if py_isdigit (py_strip code) then gtin_kind (py_strip code) else None")
  case None
  then show ?thesis by (simp add: parse_plain_def wf_kv_or_unknown)
next
  case (Some k)
  then have "gtin_kind (py_strip code) = Some k" by (simp split: if_splits)
  with gtin_kind_values [OF this] Some show ?thesis
    by (auto simp: parse_plain_def wf_barcode_def)
qed

lemma parse_barcode_cases:
  "\<exists>p. parse_barcode cb code = Some p \<and> wf_barcode code p"
proof -
  let ?s = "py_strip code"
  obtain r where r: "parse_compact_gs1 ?s = Some r" using parse_compact_total by blast
  have plain: "wf_barcode code (parse_plain cb code ?s)" by (rule wf_parse_plain)
  have gs1: "wf_barcode code (gs1_result cb code g)" if "parse_gs1 ?s = Some g" for g
    using wf_parse_gs1 [OF that] by (intro wf_gs1_result) auto
  have compact: "wf_barcode code (gs1_result cb code g)" if "r = Some g" for g
    using wf_parse_compact [of ?s g] that r by (intro wf_gs1_result) auto
  have label: "py_strip k = k \<and> value_text (Some k)" if "re_sku_prefix ?s = Some k" for k
    using re_sku_prefix_value [OF that] by (simp add: py_strip_value value_text_def)
  show ?thesis
    by (auto simp: parse_barcode_def Let_def r wf_unknown plain gs1 compact label
        wf_barcode_def [of _ "parsed_barcode_ext _ _ _ _ _ _ _"] split: option.split)
qed

end
