(* ===== verification/Barcode_Laws.thy ===== *)
theory Barcode_Laws
  imports Barcode
begin

text \<open>
  What the barcode parser guarantees: the laws over the definitions of \<open>Barcode\<close>. A GS1 label is
  read back from both notations, the check digits catch every one-digit misreading, and the parser
  ends on every input with a result of a known shape.
\<close>

section \<open>Strings of digits\<close>

definition two_digits :: "int \<Rightarrow> string" where
  "two_digits n = [char_of (nat (48 + n div 10)), char_of (nat (48 + n mod 10))]"

text \<open>The GS1 form YYMMDD of a date of this century.\<close>

definition yymmdd :: "date \<Rightarrow> string" where
  "yymmdd d = two_digits (year d - 2000) @ two_digits (month d) @ two_digits (day d)"

lemma two_digits_ne [simp]: "two_digits n \<noteq> []"
  by (simp add: two_digits_def)

lemma char_of_digit:
  assumes "0 \<le> n" "n \<le> 9"
  shows "is_digit (char_of (nat (48 + n)))" and "digit_value (char_of (nat (48 + n))) = n"
  using assms by (simp_all add: is_digit_def digit_value_def nat_add_distrib)

lemma two_digits:
  assumes "0 \<le> n" "n \<le> 99"
  shows "list_all is_digit (two_digits n)" and "decimal (two_digits n) = n" and "length (two_digits n) = 2"
proof -
  have b: "0 \<le> n div 10" "n div 10 \<le> 9" "0 \<le> n mod 10" "n mod 10 \<le> 9" using assms by auto
  show "list_all is_digit (two_digits n)"
    using char_of_digit(1) [OF b(1,2)] char_of_digit(1) [OF b(3,4)] by (simp add: two_digits_def)
  show "decimal (two_digits n) = n"
    using char_of_digit(2) [OF b(1,2)] char_of_digit(2) [OF b(3,4)] by (simp add: two_digits_def decimal_def)
qed (simp add: two_digits_def)

lemma digit_not_space: "is_digit c \<Longrightarrow> \<not> is_space c"
  by (auto simp: is_digit_def is_space_def Let_def)

lemma digit_not_open: "is_digit c \<Longrightarrow> not_open c"
  by (auto simp: is_digit_def not_open_def Let_def)

lemma py_strip_digits: "list_all is_digit s \<Longrightarrow> py_strip s = s"
  by (rule py_strip_no_space) (auto simp: list_all_iff digit_not_space)

lemma py_strip_ends:
  assumes "s \<noteq> []" "\<not> is_space (hd s)" "\<not> is_space (last s)"
  shows "py_strip s = s"
proof -
  have "dropWhile is_space s = s" "dropWhile is_space (rev s) = rev s"
    using assms by (auto intro!: dropWhile_eq_self simp: hd_rev)
  then show ?thesis by (simp add: py_strip_def)
qed

lemma month_range: "valid_date d \<Longrightarrow> 0 \<le> month d \<and> month d \<le> 99 \<and> 0 \<le> day d \<and> day d \<le> 99"
  by (auto simp: valid_date_def monthrange_def month_days_def split: if_splits)

lemma yymmdd_digits:
  assumes "valid_date d" "2000 \<le> year d" "year d \<le> 2099"
  shows "length (yymmdd d) = 6" and "list_all is_digit (yymmdd d)"
  using month_range [OF assms(1)] assms(2,3) by (simp_all add: yymmdd_def two_digits)

lemma parse_expiry_yymmdd:
  assumes "valid_date d" "2000 \<le> year d" "year d \<le> 2099"
  shows "parse_expiry (Some (yymmdd d)) = Some d"
proof -
  note m = month_range [OF assms(1)]
  have d: "Date (year d) (month d) (day d) = d" by simp
  have *: "length (two_digits n) = 2" for n by (simp add: two_digits_def)
  show ?thesis
    using yymmdd_digits [OF assms] m assms
    by (simp add: parse_expiry_def py_strip_digits py_isdigit_def Let_def)
      (simp add: yymmdd_def * two_digits date_or_none_def mk_date_def)
qed

section \<open>GS1 labels\<close>

lemma no_label:
  assumes "\<not> is_alpha c" "\<not> is_space c" shows "re_sku_prefix (c # s) = None"
proof -
  have "char_upper c = c" using assms(1) by (auto simp: char_upper_def is_alpha_def Let_def)
  moreover have "c \<noteq> CHR ''S''" "c \<noteq> CHR ''I''" using assms(1) by (auto simp: is_alpha_def)
  ultimately show ?thesis
    using assms(2) by (simp add: re_sku_prefix_def after_keyword_def py_upper_def Let_def)
qed

lemma not_alpha: "\<not> is_alpha CHR ''0''" "\<not> is_alpha CHR ''(''" "is_digit c \<Longrightarrow> \<not> is_alpha c"
  "\<not> is_space CHR ''0''" "\<not> is_space CHR ''(''"
  by (auto simp: is_alpha_def is_digit_def is_space_def Let_def)

lemma gs1_findall_step:
  assumes "is_digit d1" "is_digit d2" "v \<noteq> []" "list_all not_open v" "r = [] \<or> hd r = CHR ''(''"
  shows "gs1_findall (CHR ''('' # d1 # d2 # CHR '')'' # v @ r) = ([d1, d2], v) # gs1_findall r"
proof -
  obtain c cs where v: "v = c # cs" using assms(3) by (cases v) auto
  have "takeWhile not_open (cs @ r) = cs" "dropWhile not_open (cs @ r) = r"
    using assms(4,5) v by (cases r; auto simp: list_all_iff not_open_def)+
  then show ?thesis
    using assms v by (subst gs1_findall.simps) (simp add: re_gs1_ai_def)
qed

lemma gs1_findall_Nil [simp]: "gs1_findall [] = []"
  by (subst gs1_findall.simps) (simp add: re_gs1_ai_def)

definition bracket_label :: "string \<Rightarrow> date \<Rightarrow> string \<Rightarrow> string" where
  "bracket_label gtin d batch = ''(01)'' @ gtin @ ''(17)'' @ yymmdd d @ ''(10)'' @ batch"

definition compact_label :: "string \<Rightarrow> date \<Rightarrow> string \<Rightarrow> string" where
  "compact_label gtin d batch = ''01'' @ gtin @ ''17'' @ yymmdd d @ ''10'' @ batch"

definition label_parts :: "string \<Rightarrow> date \<Rightarrow> string \<Rightarrow> bool" where
  "label_parts gtin d batch \<longleftrightarrow>
     length gtin = 14 \<and> list_all is_digit gtin \<and> valid_date d \<and> 2000 \<le> year d \<and> year d \<le> 2099 \<and>
     batch \<noteq> [] \<and> \<not> is_space (hd batch) \<and> \<not> is_space (last batch) \<and> CHR ''('' \<notin> set batch"

definition label_result :: "gtin_to_sku \<Rightarrow> string \<Rightarrow> date \<Rightarrow> string \<Rightarrow> string \<Rightarrow> parsed_barcode" where
  "label_result cb gtin d batch raw =
     \<lparr>p_sku = (case cb of None \<Rightarrow> None | Some f \<Rightarrow> f gtin), p_gtin = Some gtin, p_batch = Some batch,
      p_expiry = Some d, p_raw = raw, p_kind = ''GS1''\<rparr>"

lemma is_digit_chars: "is_digit CHR ''0''" "is_digit CHR ''1''" "is_digit CHR ''7''"
  by (simp_all add: is_digit_def)

lemma findall_bracket_label:
  assumes "label_parts gtin d batch"
  shows "gs1_findall (bracket_label gtin d batch) = [(''01'', gtin), (''17'', yymmdd d), (''10'', batch)]"
proof -
  have y: "length (yymmdd d) = 6" "list_all is_digit (yymmdd d)"
    using assms yymmdd_digits by (auto simp: label_parts_def)
  then have ne: "yymmdd d \<noteq> []" by auto
  have "gs1_findall (CHR ''('' # CHR ''1'' # CHR ''0'' # CHR '')'' # batch @ []) = (''10'', batch) # gs1_findall []"
    by (rule gs1_findall_step)
      (use assms in \<open>auto simp: label_parts_def is_digit_chars list_all_iff not_open_def\<close>)
  moreover have "gs1_findall (CHR ''('' # CHR ''1'' # CHR ''7'' # CHR '')'' # yymmdd d @ ''(10)'' @ batch)
      = (''17'', yymmdd d) # gs1_findall (''(10)'' @ batch)"
    by (rule gs1_findall_step)
      (use y ne in \<open>auto simp: is_digit_chars list_all_iff digit_not_open\<close>)
  moreover have "gs1_findall (CHR ''('' # CHR ''0'' # CHR ''1'' # CHR '')'' # gtin @ ''(17)'' @ yymmdd d @ ''(10)'' @ batch)
      = (''01'', gtin) # gs1_findall (''(17)'' @ yymmdd d @ ''(10)'' @ batch)"
    by (rule gs1_findall_step)
      (use assms in \<open>auto simp: label_parts_def is_digit_chars list_all_iff digit_not_open\<close>)
  ultimately show ?thesis by (simp add: bracket_label_def)
qed

lemma label_strip:
  assumes "label_parts gtin d batch" "p \<noteq> []" "\<not> is_space (hd p)"
  shows "py_strip (p @ q @ batch) = p @ q @ batch"
  by (rule py_strip_ends) (use assms in \<open>auto simp: label_parts_def\<close>)

lemma parse_bracket_label:
  assumes "label_parts gtin d batch" and "valid_ean13 (tl gtin)"
  shows "parse_barcode cb (bracket_label gtin d batch)
    = Some (label_result cb gtin d batch (bracket_label gtin d batch))"
proof -
  let ?s = "bracket_label gtin d batch"
  have s: "py_strip ?s = ?s"
    using label_strip [OF assms(1), of "''(01)''" "gtin @ ''(17)'' @ yymmdd d @ ''(10)''"]
    by (simp add: bracket_label_def is_space_def)
  have "parse_gs1 ?s = Some \<lparr>p_sku = None, p_gtin = Some gtin, p_batch = Some batch, p_expiry = Some d,
      p_raw = ?s, p_kind = ''GS1''\<rparr>"
    using assms parse_expiry_yymmdd [of d] yymmdd_digits [of d]
    by (simp add: parse_gs1_def findall_bracket_label ai_get_def checked_gtin_def label_parts_def
        py_strip_digits py_strip_ends)
  moreover have "re_sku_prefix ?s = None" by (simp add: bracket_label_def no_label not_alpha)
  moreover have "\<not> length ?s < 2" "CHR ''('' \<in> set ?s" "CHR '')'' \<in> set ?s"
    by (simp_all add: bracket_label_def)
  moreover have "gtin \<noteq> []" using assms(1) by (auto simp: label_parts_def)
  ultimately show ?thesis
    by (simp add: parse_barcode_def s gs1_result_def label_result_def sku_of_gtin_def Let_def split: option.split)
qed

lemma compact_loop_label:
  assumes "label_parts gtin d batch"
  shows "compact_loop (compact_label gtin d batch) 0 None None None = Some (Some (Some gtin, Some batch, Some d))"
proof -
  have g: "length gtin = 14" and y: "length (yymmdd d) = 6" and e: "parse_expiry (Some (yymmdd d)) = Some d"
    using assms yymmdd_digits parse_expiry_yymmdd by (auto simp: label_parts_def)
  have d1: "drop 16 (compact_label gtin d batch) = ''17'' @ yymmdd d @ ''10'' @ batch"
    and d2: "drop 24 (compact_label gtin d batch) = ''10'' @ batch"
    and d0: "take 14 (drop 2 (compact_label gtin d batch)) = gtin"
    and dy: "take 6 (drop 18 (compact_label gtin d batch)) = yymmdd d"
    and db: "drop 26 (compact_label gtin d batch) = batch"
    and l: "length (compact_label gtin d batch) = 26 + length batch"
    by (simp_all add: compact_label_def g y)
  have "compact_loop (compact_label gtin d batch) 24 (Some gtin) None (Some d) = Some (Some (Some gtin, Some batch, Some d))"
    using assms by (subst compact_loop.simps) (simp add: l d2 db label_parts_def)
  moreover have "compact_loop (compact_label gtin d batch) 16 (Some gtin) None None
      = compact_loop (compact_label gtin d batch) 24 (Some gtin) None (Some d)"
    by (subst compact_loop.simps) (simp add: l d1 dy e)
  moreover have "compact_loop (compact_label gtin d batch) 0 None None None
      = compact_loop (compact_label gtin d batch) 16 (Some gtin) None None"
    by (subst compact_loop.simps) (simp add: l d0 flip: numeral_2_eq_2, simp add: compact_label_def g)
  ultimately show ?thesis by simp
qed

lemma parse_compact_label:
  assumes "label_parts gtin d batch"
  shows "parse_barcode cb (compact_label gtin d batch)
    = Some (label_result cb gtin d batch (compact_label gtin d batch))"
proof -
  let ?s = "compact_label gtin d batch"
  have s: "py_strip ?s = ?s"
    using label_strip [OF assms(1), of "''01''" "gtin @ ''17'' @ yymmdd d @ ''10''"]
    by (simp add: compact_label_def is_space_def)
  have y: "list_all is_digit (yymmdd d)" and gn: "gtin \<noteq> []"
    using assms yymmdd_digits by (auto simp: label_parts_def)
  have "CHR ''('' \<notin> set ?s"
    using assms y digit_not_open by (auto simp: compact_label_def label_parts_def list_all_iff not_open_def)
  moreover have "is_compact ?s"
    using assms gn by (simp add: is_compact_def compact_label_def py_isdigit_def label_parts_def)
  moreover have "re_sku_prefix ?s = None" by (simp add: compact_label_def no_label not_alpha)
  moreover have "\<not> length ?s < 2" by (simp add: compact_label_def)
  ultimately show ?thesis using compact_loop_label [OF assms] gn
    by (simp add: parse_barcode_def s parse_compact_gs1_def gs1_result_def label_result_def sku_of_gtin_def
        Let_def split: option.split)
qed

section \<open>Check digits\<close>

lemma weigh_append: "weigh a b (xs @ ys) = weigh a b xs + (if even (length xs) then weigh a b ys else weigh b a ys)"
  by (induction xs arbitrary: a b) auto

lemma weigh_update:
  "i < length xs \<Longrightarrow> weigh a b (xs[i := x]) = weigh a b xs + (if even i then a else b) * (x - xs ! i)"
proof (induction xs arbitrary: a b i)
  case (Cons y xs)
  then show ?case by (cases i) (simp_all add: Cons.IH, simp_all add: algebra_simps)
qed simp

lemma digit_value_range: "is_digit c \<Longrightarrow> 0 \<le> digit_value c \<and> digit_value c \<le> 9"
  by (auto simp: is_digit_def digit_value_def Let_def)

lemma digit_value_inj: "digit_value c = digit_value d \<Longrightarrow> c = d"
  by (simp add: digit_value_def)

lemma checksum_iff:
  assumes "0 \<le> c" "c \<le> (9::int)"
  shows "(10 - s mod 10) mod 10 = c \<longleftrightarrow> (s + c) mod 10 = 0"
proof -
  have "(10 - r) mod 10 = c \<longleftrightarrow> (r + c) mod 10 = 0" if r: "0 \<le> r" "r \<le> 9" for r
  proof -
    have "(10 - r) mod 10 = (if r = 0 then 0 else 10 - r)"
      using r mod_pos_pos_trivial [of "10 - r" 10] by (cases "r = 0") simp_all
    moreover have "(r + c) mod 10 = (if r + c < 10 then r + c else r + c - 10)"
    proof (cases "r + c < 10")
      case False
      then have "(r + c - 10) mod 10 = r + c - 10" using r assms by (intro mod_pos_pos_trivial) auto
      with False minus_mod_self2 [of "r + c" 10] show ?thesis by metis
    qed (use r assms in \<open>simp add: mod_pos_pos_trivial\<close>)
    ultimately show ?thesis using r assms by auto
  qed
  from this [of "s mod 10"] show ?thesis by (simp add: mod_add_left_eq)
qed

text \<open>The three check-digit rules are one rule on the digits with the check digit included.\<close>

lemma checksum_last:
  assumes "list_all is_digit g" "g \<noteq> []"
  shows "(10 - weigh a b (butlast (map digit_value g)) mod 10) mod 10 = last (map digit_value g)
    \<longleftrightarrow> (weigh a b (butlast (map digit_value g)) + last (map digit_value g)) mod 10 = 0"
proof -
  have "is_digit (last g)" using assms by (simp add: list_all_iff)
  then show ?thesis using assms(2) digit_value_range by (intro checksum_iff) (simp_all add: last_map)
qed

lemma weigh_butlast:
  assumes "ds \<noteq> []"
  shows "weigh a b ds = weigh a b (butlast ds) + (if odd (length ds) then a else b) * last ds"
  using assms by (cases ds rule: rev_cases) (auto simp: weigh_append)

definition check_ok :: "int \<Rightarrow> int \<Rightarrow> string \<Rightarrow> bool" where
  "check_ok a b g \<longleftrightarrow> list_all is_digit g \<and> weigh a b (map digit_value g) mod 10 = 0"

lemma valid_check:
  "valid_ean13 g \<longleftrightarrow> length g = 13 \<and> check_ok 1 3 g"
  "valid_upc12 g \<longleftrightarrow> length g = 12 \<and> check_ok 3 1 g"
  "valid_ean8 g \<longleftrightarrow> length g = 8 \<and> check_ok 3 1 g"
proof -
  have ne: "length g = 13 \<Longrightarrow> g \<noteq> []" "length g = 12 \<Longrightarrow> g \<noteq> []" "length g = 8 \<Longrightarrow> g \<noteq> []" by auto
  show "valid_ean13 g \<longleftrightarrow> length g = 13 \<and> check_ok 1 3 g"
    using checksum_last [of g 1 3] weigh_butlast [of "map digit_value g" 1 3] ne
    by (auto simp: valid_ean13_def check_ok_def py_isdigit_def Let_def)
  show "valid_upc12 g \<longleftrightarrow> length g = 12 \<and> check_ok 3 1 g"
    using checksum_last [of g 3 1] weigh_butlast [of "map digit_value g" 3 1] ne
    by (auto simp: valid_upc12_def check_ok_def py_isdigit_def Let_def)
  have "length g = 8 \<Longrightarrow> 3 * map digit_value g ! 0 + 1 * map digit_value g ! 1 + 3 * map digit_value g ! 2
      + 1 * map digit_value g ! 3 + 3 * map digit_value g ! 4 + 1 * map digit_value g ! 5 + 3 * map digit_value g ! 6
      = weigh 3 1 (butlast (map digit_value g))"
    by (auto simp: length_Suc_conv eval_nat_numeral)
  then show "valid_ean8 g \<longleftrightarrow> length g = 8 \<and> check_ok 3 1 g"
    using checksum_last [of g 3 1] weigh_butlast [of "map digit_value g" 3 1] ne
    by (auto simp: valid_ean8_def check_ok_def py_isdigit_def Let_def)
qed

lemma misread_sum:
  assumes "w = 1 \<or> w = (3::int)" "(s + w * (x - y)) mod 10 = 0" "s mod 10 = 0"
    "0 \<le> x" "x \<le> 9" "0 \<le> y" "y \<le> 9"
  shows "x = y"
proof -
  have "10 dvd w * (x - y)"
    using assms(2,3) dvd_add_right_iff [of 10 s "w * (x - y)"] by (simp add: mod_eq_0_iff_dvd)
  moreover have "coprime 10 (3::int)" by code_simp
  then have "coprime 10 w" using assms(1) by auto
  ultimately have "10 dvd x - y" by (simp add: coprime_dvd_mult_right_iff)
  moreover have "\<bar>x - y\<bar> < 10" using assms(4-7) by arith
  ultimately show ?thesis using zdvd_not_zless [of "\<bar>x - y\<bar>" 10] by (cases "x = y") auto
qed

lemma check_ok_misread:
  assumes "check_ok a b g" "i < length g" "is_digit c" "c \<noteq> g ! i" "{a, b} \<subseteq> {1, 3}"
  shows "\<not> check_ok a b (g[i := c])"
proof
  assume "check_ok a b (g[i := c])"
  then have s: "(weigh a b (map digit_value g) + (if even i then a else b) * (digit_value c - digit_value (g ! i))) mod 10 = 0"
    using assms(2) by (simp add: check_ok_def map_update weigh_update)
  have w: "(if even i then a else b) = 1 \<or> (if even i then a else b) = 3" using assms(5) by auto
  have "is_digit (g ! i)" using assms(1,2) by (simp add: check_ok_def list_all_length)
  note r = digit_value_range [OF this] digit_value_range [OF assms(3)]
  have "weigh a b (map digit_value g) mod 10 = 0" using assms(1) by (simp add: check_ok_def)
  from misread_sum [OF w s this] r have "digit_value c = digit_value (g ! i)" by blast
  with assms(4) digit_value_inj show False by blast
qed

lemma gtin_kind_check:
  "gtin_kind g = Some k \<longleftrightarrow>
     length g = 8 \<and> check_ok 3 1 g \<and> k = ''EAN8'' \<or> length g = 12 \<and> check_ok 3 1 g \<and> k = ''UPC12''
     \<or> length g = 13 \<and> check_ok 1 3 g \<and> k = ''EAN13''"
  by (auto simp: gtin_kind_def valid_check)

lemma gtin_kind_misread:
  assumes "gtin_kind g = Some k" "i < length g" "is_digit c" "c \<noteq> g ! i"
  shows "gtin_kind (g[i := c]) = None"
proof -
  have "\<not> check_ok 3 1 (g[i := c])" if "check_ok 3 1 g" using check_ok_misread [OF that assms(2-4)] by simp
  moreover have "\<not> check_ok 1 3 (g[i := c])" if "check_ok 1 3 g" using check_ok_misread [OF that assms(2-4)] by simp
  ultimately show ?thesis
    using assms(1) unfolding gtin_kind_check
    by (cases "gtin_kind (g[i := c])") (auto simp: gtin_kind_check)
qed

lemma parse_digits_unknown:
  assumes "list_all is_digit s" "2 \<le> length s" "length s < 16" "gtin_kind s = None"
  shows "parse_barcode cb s = Some (unknown_barcode s)"
proof -
  have d: "is_digit x" if "x \<in> set s" for x using assms(1) that by (simp add: list_all_iff)
  obtain c cs where s: "s = c # cs" using assms(2) by (cases s) auto
  have "re_sku_prefix s = None"
    using d [of c] unfolding s by (intro no_label) (auto simp: not_alpha digit_not_space)
  moreover have "CHR ''('' \<notin> set s" using d digit_not_open by (force simp: not_open_def)
  moreover have "\<not> list_ex (\<lambda>sep. sep \<in> set s) kv_separators"
    by (auto simp: kv_separators_def is_digit_def Let_def dest!: d)
  ultimately show ?thesis using assms
    by (simp add: parse_barcode_def py_strip_digits is_compact_def parse_plain_def parse_kv_or_unknown_def)
qed

section \<open>Claims\<close>

text \<open>
  Claim C26. Shape of the parsed barcodes: the parser returns on every text, and what it returns is
  of one of the seven kinds with the fields of that kind. An unknown code carries nothing; a SKU label
  carries a non-empty SKU of value characters; an EAN-8, UPC-A or EAN-13 result carries the whole
  trimmed text as a GTIN with the right check digit; a GS1 result carries no GTIN of 8, 12 or 13
  characters with a wrong check digit; an expiry date, where there is one, is a date of the calendar.
  The raw text is the input, except for a key/value label, where it is the trimmed input.
\<close>

theorem barcode_parse_shape: "\<exists>p. parse_barcode cb code = Some p \<and> wf_barcode code p"
  by (rule parse_barcode_cases)

text \<open>
  Claim C27. The loop that reads a GS1 text without brackets ends from every position, with whatever
  fields it has read before.
\<close>

theorem compact_gs1_loop_ends: "\<exists>r. compact_loop s i gtin batch expiry = Some r"
  by (rule compact_loop_total)

text \<open>
  Claim C28. GS1 labels are read back. Take 14 digits as the GTIN, an expiry date of the years 2000 to 2099, and a batch that
  is not empty, neither begins nor ends with a blank and contains no opening bracket. The label made of them without brackets is parsed into
  exactly these three parts; the label with brackets is, too, when the last 13 digits of the GTIN form a valid
  EAN-13 number, as they do for a retail item (first digit 0).
\<close>

theorem gs1_label_round_trip:
  assumes "label_parts gtin d batch"
  shows "parse_barcode cb (compact_label gtin d batch)
      = Some (label_result cb gtin d batch (compact_label gtin d batch)) \<and>
    (valid_ean13 (tl gtin) \<longrightarrow>
      parse_barcode cb (bracket_label gtin d batch)
        = Some (label_result cb gtin d batch (bracket_label gtin d batch)))"
  using assms by (simp add: parse_compact_label parse_bracket_label)

theorem gs1_label_round_trip_witness:
  "parse_barcode None (bracket_label ''06901234567892'' (Date 2026 2 28) ''LOT-1'')
     = Some (label_result None ''06901234567892'' (Date 2026 2 28) ''LOT-1'' ''(01)06901234567892(17)260228(10)LOT-1'')"
proof -
  have "label_parts ''06901234567892'' (Date 2026 2 28) ''LOT-1''" by code_simp
  moreover have "valid_ean13 (tl ''06901234567892'')" by code_simp
  moreover have "bracket_label ''06901234567892'' (Date 2026 2 28) ''LOT-1'' = ''(01)06901234567892(17)260228(10)LOT-1''"
    by code_simp
  ultimately show ?thesis using gs1_label_round_trip [of "''06901234567892''" "Date 2026 2 28" "''LOT-1''" None] by simp
qed

text \<open>
  The GTIN of a carton is dropped from a bracketed label. The number below is a correct GTIN-14 (its check digit is computed over
  all 14 digits, and a first digit other than 0 changes it), but the parser checks the last 13 digits as an EAN-13.
\<close>

lemma carton_gtin_dropped:
  "weigh 3 1 (map digit_value ''16901234567899'') mod 10 = 0 \<and>
   parse_barcode None (bracket_label ''16901234567899'' (Date 2026 2 28) ''LOT-1'') =
     Some ((label_result None ''16901234567899'' (Date 2026 2 28) ''LOT-1'' (bracket_label ''16901234567899'' (Date 2026 2 28) ''LOT-1''))\<lparr>p_gtin := None\<rparr>)"
  by code_simp

text \<open>
  Claim C29. Misreadings: when a text is taken for an EAN-8, UPC-A or EAN-13 number, the same number
  with one digit misread is not taken for anything; no item is found under it.
\<close>

theorem misread_digit_not_accepted:
  assumes "parse_barcode cb code = Some p" and "p_kind p \<in> {''EAN8'', ''UPC12'', ''EAN13''}"
    and "i < length (py_strip code)" and "is_digit c" and "c \<noteq> py_strip code ! i"
  shows "parse_barcode cb' ((py_strip code)[i := c]) = Some (unknown_barcode ((py_strip code)[i := c]))"
proof (rule parse_digits_unknown)
  have "wf_barcode code p" using parse_barcode_cases [of cb code] assms(1) by auto
  then have k: "gtin_kind (py_strip code) = Some (p_kind p)" using assms(2) by (auto simp: wf_barcode_def)
  then have "list_all is_digit (py_strip code)" by (auto simp: gtin_kind_check check_ok_def)
  then show "list_all is_digit ((py_strip code)[i := c])"
    using assms(4) set_update_subset_insert [of "py_strip code" i c] by (auto simp: list_all_iff)
  show "2 \<le> length ((py_strip code)[i := c])" "length ((py_strip code)[i := c]) < 16"
    using k by (auto simp: gtin_kind_check)
  show "gtin_kind ((py_strip code)[i := c]) = None" by (rule gtin_kind_misread [OF k assms(3-5)])
qed

theorem misread_digit_not_accepted_witness:
  "parse_barcode None ''6901234567892'' = Some \<lparr>p_sku = None, p_gtin = Some ''6901234567892'', p_batch = None,
     p_expiry = None, p_raw = ''6901234567892'', p_kind = ''EAN13''\<rparr> \<and>
   parse_barcode None ''6901234567891'' = Some (unknown_barcode ''6901234567891'')"
proof -
  have p: "parse_barcode None ''6901234567892'' = Some \<lparr>p_sku = None, p_gtin = Some ''6901234567892'', p_batch = None,
     p_expiry = None, p_raw = ''6901234567892'', p_kind = ''EAN13''\<rparr>" by code_simp
  have s: "py_strip ''6901234567892'' = ''6901234567892''" by code_simp
  have "is_digit CHR ''1''" by code_simp
  then show ?thesis using p misread_digit_not_accepted [OF p, of 12 "CHR ''1''" None] by (simp add: s)
qed

end
