(* ===== verification/Scan.thy ===== *)
theory Scan
  imports Barcode
begin

text \<open>
  The scan gateway, \<open>app/wms/scan\<close>: tokens in the scanned text, the look-ups in the local projection of the
  product master data (\<open>app/integrations/pms/projection_read.py\<close>), the order in which an item is identified, and
  the answer of the endpoint. A request has the fields of the contract, after its texts were stripped; a session id that the caller does
  not give is an argument. Dates of a label go only into the audit event, and the audit writer always
  succeeds; both are left out. The symbology of a barcode is left out too.
\<close>

section \<open>Tokens\<close>

definition token_char :: "char \<Rightarrow> bool" where
  "token_char c \<longleftrightarrow> is_alpha c \<or> c = CHR ''_''"

text \<open>One match of \<open>([A-Za-z_]+)\s*:\s*([^\s]+)\<close> at the start, with what follows it.\<close>

definition re_token :: "string \<Rightarrow> (string \<times> string \<times> string) option" where
  "re_token s =
     (let k = takeWhile token_char s
      in if k = [] then None
         else (case dropWhile is_space (dropWhile token_char s) of
                 [] \<Rightarrow> None
               | c # r \<Rightarrow>
                   (let t = dropWhile is_space r; v = takeWhile (\<lambda>x. \<not> is_space x) t
                    in if c = CHR '':'' \<and> v \<noteq> [] then Some (k, v, dropWhile (\<lambda>x. \<not> is_space x) t) else None)))"

lemma re_token_shorter:
  assumes "re_token s = Some (k, v, r)" shows "length r < length s"
proof -
  from assms obtain c t where t: "dropWhile is_space (dropWhile token_char s) = c # t"
    and r: "r = dropWhile (\<lambda>x. \<not> is_space x) (dropWhile is_space t)"
    by (auto simp: re_token_def Let_def split: list.splits if_splits)
  have "length (c # t) \<le> length s" unfolding t [symmetric] using length_dropWhile_le le_trans by blast
  moreover have "length r \<le> length t" unfolding r using length_dropWhile_le le_trans by blast
  ultimately show ?thesis by simp
qed

function token_finditer :: "string \<Rightarrow> (string \<times> string) list" where
  "token_finditer s =
     (case re_token s of
        Some (k, v, r) \<Rightarrow> (k, v) # token_finditer r
      | None \<Rightarrow> (case s of [] \<Rightarrow> [] | c # s' \<Rightarrow> token_finditer s'))"
  by pat_completeness auto
termination by (relation "measure length") (auto dest: re_token_shorter)

declare token_finditer.simps [simp del]

datatype token_field = F_ITEM_ID | F_QTY | F_LOT_CODE | F_TASK_LINE_ID | F_WAREHOUSE_ID | F_DATE

definition token_map :: "(string \<times> token_field) list" where
  "token_map = [(''ITM'', F_ITEM_ID), (''ITEM'', F_ITEM_ID), (''ITEM_ID'', F_ITEM_ID), (''QTY'', F_QTY), (''B'', F_LOT_CODE), (''BATCH'', F_LOT_CODE),
     (''BATCH_CODE'', F_LOT_CODE), (''PD'', F_DATE), (''MFG'', F_DATE), (''EXP'', F_DATE), (''EXPIRY'', F_DATE), (''TLID'', F_TASK_LINE_ID),
     (''TASK_LINE_ID'', F_TASK_LINE_ID), (''WH'', F_WAREHOUSE_ID), (''WAREHOUSE'', F_WAREHOUSE_ID), (''WAREHOUSE_ID'', F_WAREHOUSE_ID)]"

record scan_fields =
  sf_item_id :: "int option"
  sf_qty :: "int option"
  sf_task_line_id :: "int option"
  sf_lot_code :: "string option"
  sf_warehouse_id :: "int option"
  sf_item_uom_id :: "int option"
  sf_ratio_to_base :: "int option"

definition no_fields :: scan_fields where
  "no_fields = \<lparr>sf_item_id = None, sf_qty = None, sf_task_line_id = None, sf_lot_code = None, sf_warehouse_id = None, sf_item_uom_id = None, sf_ratio_to_base = None\<rparr>"

text \<open>A number that cannot be read leaves the field as it was.\<close>

definition put_token :: "scan_fields \<Rightarrow> string \<times> string \<Rightarrow> scan_fields" where
  "put_token f kv =
     (let n = (\<lambda>old. case py_int_of_string (snd kv) of Some i \<Rightarrow> Some i | None \<Rightarrow> old)
      in case map_of token_map (py_upper (fst kv)) of
           Some F_ITEM_ID \<Rightarrow> f\<lparr>sf_item_id := n (sf_item_id f)\<rparr>
         | Some F_QTY \<Rightarrow> f\<lparr>sf_qty := n (sf_qty f)\<rparr>
         | Some F_TASK_LINE_ID \<Rightarrow> f\<lparr>sf_task_line_id := n (sf_task_line_id f)\<rparr>
         | Some F_WAREHOUSE_ID \<Rightarrow> f\<lparr>sf_warehouse_id := n (sf_warehouse_id f)\<rparr>
         | Some F_LOT_CODE \<Rightarrow> f\<lparr>sf_lot_code := Some (snd kv)\<rparr>
         | _ \<Rightarrow> f)"

definition parse_tokens :: "string \<Rightarrow> scan_fields" where
  "parse_tokens s = foldl put_token no_fields (token_finditer s)"

section \<open>The projection of the product master data\<close>

record barcode_row =
  br_barcode :: string
  br_item_id :: int
  br_item_uom_id :: int
  br_active :: bool

record uom_row =
  ur_item_uom_id :: int
  ur_item_id :: int
  ur_ratio_to_base :: int

record sku_row =
  kr_sku_code_id :: int
  kr_sku_code :: string
  kr_item_id :: int
  kr_primary :: bool
  kr_active :: bool

record pms_projection =
  pp_barcodes :: "barcode_row list"
  pp_uoms :: "uom_row list"
  pp_skus :: "sku_row list"

text \<open>Item, unit and ratio of a barcode.\<close>

type_synonym resolved = "int \<times> int option \<times> int option"

definition resolve_projection_barcode :: "pms_projection \<Rightarrow> string \<Rightarrow> resolved option" where
  "resolve_projection_barcode P barcode =
     (let code = py_strip barcode
      in if code = [] then None
         else (case find (\<lambda>b. br_barcode b = code) (pp_barcodes P) of
                 None \<Rightarrow> None
               | Some b \<Rightarrow>
                   if \<not> br_active b then None
                   else Some (br_item_id b, Some (br_item_uom_id b),
                          map_option ur_ratio_to_base (find (\<lambda>u. ur_item_uom_id u = br_item_uom_id b \<and> ur_item_id u = br_item_id b) (pp_uoms P)))))"

text \<open>\<open>ORDER BY is_primary DESC, sku_code_id ASC LIMIT 1\<close>\<close>

definition resolve_projection_sku_code_item_id :: "pms_projection \<Rightarrow> string \<Rightarrow> int option" where
  "resolve_projection_sku_code_item_id P sku =
     (let code = py_upper (py_strip sku)
      in if code = [] then None
         else (case sort_key (\<lambda>k. if kr_primary k then 0 else (1 :: nat)) (sort_key kr_sku_code_id
                 (filter (\<lambda>k. py_upper (kr_sku_code k) = code \<and> kr_active k) (pp_skus P))) of
                 [] \<Rightarrow> None | k # _ \<Rightarrow> Some (kr_item_id k)))"

definition probe_item_from_barcode :: "pms_projection \<Rightarrow> string \<Rightarrow> resolved option" where
  "probe_item_from_barcode P barcode = (let code = py_strip barcode in if code = [] then None else resolve_projection_barcode P code)"

definition resolve_item_id_from_sku :: "pms_projection \<Rightarrow> string \<Rightarrow> int option" where
  "resolve_item_id_from_sku P sku = (let s = py_upper (py_strip sku) in if s = [] then None else resolve_projection_sku_code_item_id P s)"

section \<open>parse\_scan\<close>

record scan_request =
  sq_mode :: "string option"
  sq_probe :: bool
  sq_item_id :: "int option"
  sq_qty :: "int option"
  sq_barcode :: "string option"
  sq_warehouse_id :: "int option"
  sq_lot_code :: "string option"
  sq_production_date :: "string option"
  sq_expiry_date :: "string option"
  sq_task_line_id :: "int option"
  sq_session_id :: "string option"     \<comment> \<open>\<open>ctx.scan_session_id\<close>\<close>

definition valid_scan :: "scan_request \<Rightarrow> bool" where
  "valid_scan q \<longleftrightarrow> sq_mode q = Some ''pick'' \<and> sq_probe q \<and> (case sq_qty q of None \<Rightarrow> True | Some n \<Rightarrow> 0 \<le> n)"

definition fill :: "'a option \<Rightarrow> 'a option \<Rightarrow> 'a option" where
  "fill parsed scan = (case parsed of Some v \<Rightarrow> Some v | None \<Rightarrow> scan)"

definition fill_text :: "string option \<Rightarrow> string option \<Rightarrow> string option" where
  "fill_text parsed scan = (if (parsed = None \<or> parsed = Some []) \<and> scan \<noteq> None then scan else parsed)"

definition merge_fields :: "scan_request \<Rightarrow> scan_fields \<Rightarrow> scan_fields" where
  "merge_fields q f =
     f\<lparr>sf_item_id := fill (sf_item_id f) (sq_item_id q), sf_qty := fill (sf_qty f) (sq_qty q), sf_task_line_id := fill (sf_task_line_id f) (sq_task_line_id q),
       sf_lot_code := fill_text (sf_lot_code f) (sq_lot_code q), sf_warehouse_id := fill (sf_warehouse_id f) (sq_warehouse_id q)\<rparr>"

text \<open>\<open>not parsed.get(f)\<close> for a number: absent or zero.\<close>

definition blank :: "int option \<Rightarrow> bool" where
  "blank m \<longleftrightarrow> m = None \<or> m = Some 0"

definition apply_barcode_probe :: "resolved \<Rightarrow> scan_fields \<Rightarrow> scan_fields" where
  "apply_barcode_probe r f =
     (case r of (i, u, n) \<Rightarrow>
        f\<lparr>sf_item_id := (if blank (sf_item_id f) then Some i else sf_item_id f),
          sf_item_uom_id := (if u \<noteq> None \<and> blank (sf_item_uom_id f) then u else sf_item_uom_id f),
          sf_ratio_to_base := (if n \<noteq> None \<and> blank (sf_ratio_to_base f) then n else sf_ratio_to_base f)\<rparr>)"

definition apply_probe_of :: "pms_projection \<Rightarrow> string \<Rightarrow> scan_fields \<Rightarrow> scan_fields" where
  "apply_probe_of P code f =
     (if sf_item_id f \<noteq> None then f else case probe_item_from_barcode P code of None \<Rightarrow> f | Some r \<Rightarrow> apply_barcode_probe r f)"

definition apply_sku_of :: "pms_projection \<Rightarrow> string \<Rightarrow> scan_fields \<Rightarrow> scan_fields" where
  "apply_sku_of P sku f =
     (if sf_item_id f \<noteq> None then f
      else case resolve_item_id_from_sku P sku of None \<Rightarrow> f | Some i \<Rightarrow> if i = 0 then f else f\<lparr>sf_item_id := Some i\<rparr>)"

definition nonempty :: "string option \<Rightarrow> bool" where
  "nonempty m \<longleftrightarrow> m \<noteq> None \<and> m \<noteq> Some []"

text \<open>What the barcode parser adds; \<open>None\<close> is an exception of the parser, which is caught.\<close>

definition apply_label :: "pms_projection \<Rightarrow> parsed_barcode option \<Rightarrow> scan_fields \<Rightarrow> scan_fields" where
  "apply_label P label f =
     (case label of None \<Rightarrow> f
      | Some r \<Rightarrow>
         (let f1 = (if nonempty (p_sku r) then apply_sku_of P (the (p_sku r)) f else f);
              f2 = (if nonempty (p_gtin r) then apply_probe_of P (the (p_gtin r)) f1 else f1)
          in if nonempty (p_batch r) \<and> \<not> nonempty (sf_lot_code f2) then f2\<lparr>sf_lot_code := p_batch r\<rparr> else f2))"

record scan_parsed =
  sc_fields :: scan_fields
  sc_mode :: string
  sc_probe :: bool
  sc_qty :: int
  sc_item_id :: int
  sc_lot_code :: "string option"
  sc_warehouse_id :: int

definition or_int :: "int option \<Rightarrow> int \<Rightarrow> int" where
  "or_int m d = (case m of Some v \<Rightarrow> if v = 0 then d else v | None \<Rightarrow> d)"

definition parse_scan :: "pms_projection \<Rightarrow> scan_request \<Rightarrow> scan_parsed" where
  "parse_scan P q =
     (let raw = (case sq_barcode q of Some b \<Rightarrow> b | None \<Rightarrow> []);
          f0 = merge_fields q (parse_tokens raw);
          f1 = (if raw = [] then f0 else apply_probe_of P raw f0);
          f2 = (if raw = [] then f1 else apply_label P (parse_barcode None raw) f1);
          f3 = (if raw = [] then f2 else apply_sku_of P raw f2)
      in \<lparr>sc_fields = f3, sc_mode = py_lower (case sq_mode q of Some m \<Rightarrow> if m = [] then ''pick'' else m | None \<Rightarrow> ''pick''), sc_probe = sq_probe q,
          sc_qty = or_int (sf_qty f3) (or_int (sq_qty q) 1), sc_item_id = or_int (sf_item_id f3) 0, sc_lot_code = sf_lot_code f3,
          sc_warehouse_id = or_int (sf_warehouse_id f3) (or_int (sq_warehouse_id q) 1)\<rparr>)"

section \<open>ingest and the endpoint\<close>

definition scan_session_id :: "string \<Rightarrow> scan_request \<Rightarrow> string" where
  "scan_session_id fresh q = (case norm_text (sq_session_id q) of Some s \<Rightarrow> s | None \<Rightarrow> fresh)"

definition build_scan_ref :: "string \<Rightarrow> string \<Rightarrow> string" where
  "build_scan_ref mode sid = ''scan:'' @ py_lower (py_strip mode) @ '':dev:'' @ sid"

text \<open>\<open>maxlen\<close> is the length of the column \<open>stock_ledger.ref\<close>.\<close>

definition normalize_ref :: "nat option \<Rightarrow> string \<Rightarrow> string" where
  "normalize_ref maxlen ref = (case maxlen of Some n \<Rightarrow> if 0 < n \<and> n < length ref then take n ref else ref | None \<Rightarrow> ref)"

definition build_qty_base :: "int \<Rightarrow> int option \<Rightarrow> int result" where
  "build_qty_base qty ratio_to_base =
     (let ratio = or_int ratio_to_base 1
      in bindR (ensure (0 < ratio) (ValueError ''ratio_to_base'')) (\<lambda>_. Inr (qty * ratio)))"

record scan_result =
  sx_ok :: bool
  sx_committed :: bool
  sx_scan_ref :: string
  sx_source :: string
  sx_item_id :: int
  sx_item_uom_id :: "int option"
  sx_ratio_to_base :: "int option"
  sx_qty_base :: int
  sx_errors :: "string list"

definition ingest :: "pms_projection \<Rightarrow> nat option \<Rightarrow> string \<Rightarrow> scan_request \<Rightarrow> scan_result result" where
  "ingest P maxlen fresh q =
     (let r = parse_scan P q; f = sc_fields r
      in bindR (build_qty_base (sc_qty r) (sf_ratio_to_base f)) (\<lambda>qty_base.
         (let ref = normalize_ref maxlen (build_scan_ref (sc_mode r) (scan_session_id fresh q));
              answer = (\<lambda>ok source errors. \<lparr>sx_ok = ok, sx_committed = False, sx_scan_ref = ref, sx_source = source, sx_item_id = sc_item_id r,
                 sx_item_uom_id = sf_item_uom_id f, sx_ratio_to_base = sf_ratio_to_base f, sx_qty_base = qty_base, sx_errors = errors\<rparr>)
          in if sc_mode r \<noteq> ''pick'' then Inr (answer False ''scan_feature_disabled'' [''FEATURE_DISABLED: unsupported_mode''])
             else if \<not> sc_probe r then Inr (answer False ''scan_feature_disabled'' [''FEATURE_DISABLED: scan_is_probe_only_use_formal_outbound_submit''])
             else Inr (answer True ''scan_pick_probe_parse_only'' []))))"

record scan_response =
  sp_ok :: bool
  sp_committed :: bool
  sp_scan_ref :: string
  sp_source :: string
  sp_item_id :: "int option"
  sp_item_uom_id :: "int option"
  sp_ratio_to_base :: "int option"
  sp_qty :: "int option"
  sp_qty_base :: int
  sp_lot_code :: "string option"
  sp_production_date :: "string option"
  sp_expiry_date :: "string option"
  sp_errors :: "string list"

definition scan_entrypoint :: "pms_projection \<Rightarrow> nat option \<Rightarrow> string \<Rightarrow> scan_request \<Rightarrow> scan_response result" where
  "scan_entrypoint P maxlen fresh q =
     bindR (ensure (valid_scan q) (HTTPException 422 ''validation'')) (\<lambda>_.
     bindR (ingest P maxlen fresh q) (\<lambda>x.
     Inr \<lparr>sp_ok = sx_ok x, sp_committed = sx_committed x, sp_scan_ref = sx_scan_ref x, sp_source = sx_source x,
          sp_item_id = (if sx_item_id x \<noteq> 0 then Some (sx_item_id x) else sq_item_id q), sp_item_uom_id = sx_item_uom_id x,
          sp_ratio_to_base = sx_ratio_to_base x, sp_qty = sq_qty q, sp_qty_base = sx_qty_base x, sp_lot_code = sq_lot_code q,
          sp_production_date = norm_text (sq_production_date q), sp_expiry_date = norm_text (sq_expiry_date q), sp_errors = sx_errors x\<rparr>))"

section \<open>How an item is identified\<close>

text \<open>The sources of an identification in the order of their rank, with the unit of a barcode.\<close>

definition given_item :: "string \<Rightarrow> scan_request \<Rightarrow> resolved option" where
  "given_item raw q = map_option (\<lambda>i. (i, None, None)) (fill (sf_item_id (parse_tokens raw)) (sq_item_id q))"

definition by_sku :: "pms_projection \<Rightarrow> string option \<Rightarrow> resolved option" where
  "by_sku P sku =
     (if nonempty sku then (case resolve_item_id_from_sku P (the sku) of Some i \<Rightarrow> if i = 0 then None else Some (i, None, None) | None \<Rightarrow> None) else None)"

definition by_barcode :: "pms_projection \<Rightarrow> string option \<Rightarrow> resolved option" where
  "by_barcode P code = (if nonempty code then probe_item_from_barcode P (the code) else None)"

definition label_of :: "string \<Rightarrow> parsed_barcode" where
  "label_of raw = (case parse_barcode None raw of Some r \<Rightarrow> r | None \<Rightarrow> unknown_barcode raw)"

definition scan_sources :: "pms_projection \<Rightarrow> string \<Rightarrow> scan_request \<Rightarrow> resolved option list" where
  "scan_sources P raw q =
     [given_item raw q, by_barcode P (Some raw), by_sku P (p_sku (label_of raw)), by_barcode P (p_gtin (label_of raw)), by_sku P (Some raw)]"

fun first_known :: "'a option list \<Rightarrow> 'a option" where
  "first_known [] = None"
| "first_known (None # ms) = first_known ms"
| "first_known (Some x # ms) = Some x"

text \<open>The identification that the fields hold.\<close>

definition identified :: "scan_fields \<Rightarrow> resolved option" where
  "identified f = map_option (\<lambda>i. (i, sf_item_uom_id f, sf_ratio_to_base f)) (sf_item_id f)"

definition fresh_unit :: "scan_fields \<Rightarrow> bool" where
  "fresh_unit f \<longleftrightarrow> sf_item_id f = None \<longrightarrow> sf_item_uom_id f = None \<and> sf_ratio_to_base f = None"

lemma parse_tokens_unit: "sf_item_uom_id (parse_tokens s) = None \<and> sf_ratio_to_base (parse_tokens s) = None"
proof -
  have "sf_item_uom_id (foldl put_token f kvs) = sf_item_uom_id f \<and> sf_ratio_to_base (foldl put_token f kvs) = sf_ratio_to_base f" for f kvs
    by (induction kvs arbitrary: f) (simp_all add: put_token_def Let_def split: option.splits token_field.splits)
  then show ?thesis by (simp add: parse_tokens_def no_fields_def)
qed

lemma first_known_simps [simp]:
  "first_known [m] = m" "first_known (m # ms) = (case m of Some x \<Rightarrow> Some x | None \<Rightarrow> first_known ms)"
  by (cases m; simp)+

lemma apply_probe_identified:
  assumes "fresh_unit f" and "code \<noteq> []"
  shows "identified (apply_probe_of P code f) = first_known [identified f, by_barcode P (Some code)]" and "fresh_unit (apply_probe_of P code f)"
  using assms
  by (auto simp: apply_probe_of_def identified_def by_barcode_def nonempty_def fresh_unit_def apply_barcode_probe_def blank_def split: option.splits prod.splits)

lemma apply_sku_identified:
  assumes "fresh_unit f" and "sku \<noteq> []"
  shows "identified (apply_sku_of P sku f) = first_known [identified f, by_sku P (Some sku)]" and "fresh_unit (apply_sku_of P sku f)"
  using assms by (auto simp: apply_sku_of_def identified_def by_sku_def nonempty_def fresh_unit_def split: option.splits)

lemma keeps_qty [simp]:
  "sf_qty (apply_probe_of P code f) = sf_qty f" "sf_qty (apply_sku_of P sku f) = sf_qty f" "sf_qty (apply_label P l f) = sf_qty f"
proof -
  show p: "sf_qty (apply_probe_of P code f) = sf_qty f" for code f by (auto simp: apply_probe_of_def apply_barcode_probe_def split: option.splits prod.splits)
  show k: "sf_qty (apply_sku_of P sku f) = sf_qty f" for sku f by (auto simp: apply_sku_of_def split: option.splits)
  show "sf_qty (apply_label P l f) = sf_qty f" by (auto simp: apply_label_def Let_def p k split: option.splits)
qed

lemma nonempty_iff: "nonempty m \<longleftrightarrow> (\<exists>t. m = Some t \<and> t \<noteq> [])"
  by (cases m) (auto simp: nonempty_def)

lemma apply_label_identified:
  assumes "fresh_unit f"
  shows "identified (apply_label P (parse_barcode None raw) f) =
       first_known [identified f, by_sku P (p_sku (label_of raw)), by_barcode P (p_gtin (label_of raw))]"
    and "fresh_unit (apply_label P (parse_barcode None raw) f)"
proof -
  define l where "l = label_of raw"
  define f1 where "f1 = (if nonempty (p_sku l) then apply_sku_of P (the (p_sku l)) f else f)"
  define f2 where "f2 = (if nonempty (p_gtin l) then apply_probe_of P (the (p_gtin l)) f1 else f1)"
  have 1: "identified f1 = first_known [identified f, by_sku P (p_sku l)]" "fresh_unit f1"
    using apply_sku_identified [OF assms] assms by (auto simp: f1_def nonempty_iff by_sku_def split: option.splits)
  have 2: "identified f2 = first_known [identified f1, by_barcode P (p_gtin l)]" "fresh_unit f2"
    using apply_probe_identified [OF 1(2)] 1(2) by (auto simp: f2_def nonempty_iff by_barcode_def split: option.splits)
  have same: "identified (f2\<lparr>sf_lot_code := b\<rparr>) = identified f2" "fresh_unit (f2\<lparr>sf_lot_code := b\<rparr>) = fresh_unit f2" for b
    by (simp_all add: identified_def fresh_unit_def)
  have "identified (apply_label P (parse_barcode None raw) f) = identified f2 \<and> fresh_unit (apply_label P (parse_barcode None raw) f) = fresh_unit f2"
  proof (cases "parse_barcode None raw")
    case None
    then have "f2 = f" by (simp add: f1_def f2_def l_def label_of_def unknown_barcode_def nonempty_def)
    with None show ?thesis by (simp add: apply_label_def)
  next
    case (Some x)
    then have "l = x" by (simp add: l_def label_of_def)
    then show ?thesis unfolding Some apply_label_def Let_def option.case f1_def [symmetric, unfolded \<open>l = x\<close>] f2_def [symmetric, unfolded \<open>l = x\<close>]
      by (simp add: same)
  qed
  with 1 2 show "identified (apply_label P (parse_barcode None raw) f) = first_known [identified f, by_sku P (p_sku (label_of raw)), by_barcode P (p_gtin (label_of raw))]"
    "fresh_unit (apply_label P (parse_barcode None raw) f)"
    by (auto simp: l_def split: option.splits)
qed

text \<open>The scanned text; a request without one is read like a request with an empty text.\<close>

definition scanned_text :: "scan_request \<Rightarrow> string" where
  "scanned_text q = (case sq_barcode q of Some b \<Rightarrow> b | None \<Rightarrow> [])"

lemma no_text_no_sources: "first_known (scan_sources P [] q) = given_item [] q"
proof -
  have "parse_barcode None [] = None \<or> parse_barcode None [] = Some (unknown_barcode [])" by code_simp
  then have "label_of [] = unknown_barcode []" by (auto simp: label_of_def)
  then show ?thesis by (simp add: scan_sources_def by_barcode_def by_sku_def nonempty_def unknown_barcode_def split: option.splits)
qed

lemma parse_scan_identified:
  assumes "scanned_text q = raw"
  shows "identified (sc_fields (parse_scan P q)) = first_known (scan_sources P raw q)" and "fresh_unit (sc_fields (parse_scan P q))"
    and "sf_qty (sc_fields (parse_scan P q)) = fill (sf_qty (parse_tokens raw)) (sq_qty q)"
proof -
  define f0 where "f0 = merge_fields q (parse_tokens raw)"
  have 0: "identified f0 = given_item raw q" "fresh_unit f0"
    using parse_tokens_unit [of raw] by (auto simp: f0_def merge_fields_def identified_def given_item_def fresh_unit_def fill_def split: option.splits)
  have qty: "sf_qty f0 = fill (sf_qty (parse_tokens raw)) (sq_qty q)" by (simp add: f0_def merge_fields_def)
  have f: "sc_fields (parse_scan P q) =
      (if raw = [] then f0 else apply_sku_of P raw (apply_label P (parse_barcode None raw) (apply_probe_of P raw f0)))"
    using assms by (simp add: parse_scan_def scanned_text_def Let_def f0_def)
  have "identified (sc_fields (parse_scan P q)) = first_known (scan_sources P raw q) \<and> fresh_unit (sc_fields (parse_scan P q))"
  proof (cases "raw = []")
    case True
    then show ?thesis unfolding f using 0 no_text_no_sources by simp
  next
    case False
    note 1 = apply_probe_identified [OF 0(2) False, of P]
    note 2 = apply_label_identified [OF 1(2), of P raw]
    note 3 = apply_sku_identified [OF 2(2) False, of P]
    have "first_known (scan_sources P raw q) = identified (apply_sku_of P raw (apply_label P (parse_barcode None raw) (apply_probe_of P raw f0)))"
      unfolding 3(1) 2(1) 1(1) 0(1) by (simp add: scan_sources_def split: option.splits)
    with 3(2) False f show ?thesis by simp
  qed
  then show "identified (sc_fields (parse_scan P q)) = first_known (scan_sources P raw q)" "fresh_unit (sc_fields (parse_scan P q))" by simp_all
  show "sf_qty (sc_fields (parse_scan P q)) = fill (sf_qty (parse_tokens raw)) (sq_qty q)" unfolding f by (simp add: qty)
qed

text \<open>
  The quantity that counts: the one in the text, else that of the request, else one. A zero is never taken: a zero in
  the text gives way to the request's quantity, and a zero of the request to one piece.
\<close>

definition scanned_qty :: "string \<Rightarrow> scan_request \<Rightarrow> int" where
  "scanned_qty raw q =
     (let requested = (case sq_qty q of None \<Rightarrow> 1 | Some m \<Rightarrow> if m = 0 then 1 else m)
      in case sf_qty (parse_tokens raw) of None \<Rightarrow> requested | Some n \<Rightarrow> if n = 0 then requested else n)"

lemma scanned_qty_or: "scanned_qty raw q = or_int (fill (sf_qty (parse_tokens raw)) (sq_qty q)) (or_int (sq_qty q) 1)"
  by (auto simp: scanned_qty_def or_int_def fill_def Let_def split: option.splits)

lemma known_ratio:
  assumes "\<forall>u \<in> set (pp_uoms P). 1 \<le> ur_ratio_to_base u" and "first_known (scan_sources P raw q) = Some (i, u, n)"
  shows "0 < or_int n 1"
proof -
  have "1 \<le> k" if "by_barcode P c = Some (j, v, Some k)" for c j v k
    using that assms(1) by (auto simp: by_barcode_def probe_item_from_barcode_def resolve_projection_barcode_def Let_def split: if_splits option.splits dest!: find_SomeD)
  moreover have "k = None" if "by_sku P c = Some (j, v, k)" for c j v k using that by (auto simp: by_sku_def split: if_splits option.splits)
  moreover have "k = None" if "given_item raw q = Some (j, v, k)" for j v k using that by (auto simp: given_item_def)
  ultimately have "n = None \<or> (\<exists>k. n = Some k \<and> 1 \<le> k)" using assms(2) by (cases n) (fastforce simp: scan_sources_def split: option.splits)+
  then show ?thesis by (auto simp: or_int_def)
qed

section \<open>Properties\<close>

text \<open>
  Claim C40. What a scan identifies. Let the units of the projection have a ratio of at least one. Every valid request, with a scanned text or without, is answered; nothing is
  committed. The item is that of the first source that knows one: the number in the text or the request, the barcode
  of the projection, the SKU of the label, the GTIN of the label, the whole text as a SKU; a request without text has
  only its own item number. Only a barcode brings a unit, and the base quantity is the quantity that counts times
  the ratio of that unit. The quantity that counts is the one in the text, else that of the request, else one; a
  quantity of zero, which the contract of the request admits, is not taken: zero in the text gives way to the
  request's quantity, and zero in the request counts as one piece.
\<close>

theorem scan_identifies:
  assumes "valid_scan q" and "\<forall>u \<in> set (pp_uoms P). 1 \<le> ur_ratio_to_base u"
  shows "\<exists>r. scan_entrypoint P maxlen fresh q = Inr r \<and> sp_ok r \<and> \<not> sp_committed r \<and>
     (case first_known (scan_sources P (scanned_text q) q) of
        None \<Rightarrow> sp_item_id r = None \<and> sp_item_uom_id r = None \<and> sp_qty_base r = scanned_qty (scanned_text q) q
      | Some (i, u, n) \<Rightarrow> sp_item_id r = (if i = 0 then sq_item_id q else Some i) \<and> sp_item_uom_id r = u \<and>
          sp_qty_base r = scanned_qty (scanned_text q) q * or_int n 1)"
proof -
  define raw where "raw = scanned_text q"
  note S = parse_scan_identified [OF raw_def [symmetric], of P]
  let ?p = "parse_scan P q"
  have mode: "sc_mode ?p = ''pick''" "sc_probe ?p" using assms(1) by (simp_all add: parse_scan_def Let_def valid_scan_def py_lower_def) code_simp
  have qty: "sc_qty ?p = scanned_qty raw q" and item: "sc_item_id ?p = or_int (sf_item_id (sc_fields ?p)) 0"
    using S(3) by (simp_all add: parse_scan_def Let_def scanned_qty_or)
  show ?thesis unfolding raw_def [symmetric]
  proof (cases "first_known (scan_sources P raw q)")
    case None
    with S(1,2) have "sf_item_id (sc_fields ?p) = None" "sf_item_uom_id (sc_fields ?p) = None" "sf_ratio_to_base (sc_fields ?p) = None"
      by (auto simp: identified_def fresh_unit_def)
    moreover have "sq_item_id q = None" using None by (auto simp: scan_sources_def given_item_def fill_def split: option.splits)
    ultimately show "\<exists>r. scan_entrypoint P maxlen fresh q = Inr r \<and> sp_ok r \<and> \<not> sp_committed r \<and>
     (case first_known (scan_sources P raw q) of
        None \<Rightarrow> sp_item_id r = None \<and> sp_item_uom_id r = None \<and> sp_qty_base r = scanned_qty raw q
      | Some (i, u, n) \<Rightarrow> sp_item_id r = (if i = 0 then sq_item_id q else Some i) \<and> sp_item_uom_id r = u \<and> sp_qty_base r = scanned_qty raw q * or_int n 1)"
      using None mode assms(1) by (simp add: scan_entrypoint_def ingest_def Let_def build_qty_base_def or_int_def ensure_def qty item)
  next
    case (Some x)
    obtain i u n where x: "x = (i, u, n)" by (cases x)
    with S(1) Some have "sf_item_id (sc_fields ?p) = Some i" "sf_item_uom_id (sc_fields ?p) = u" "sf_ratio_to_base (sc_fields ?p) = n"
      by (auto simp: identified_def)
    with Some x mode assms(1) known_ratio [OF assms(2)] show "\<exists>r. scan_entrypoint P maxlen fresh q = Inr r \<and> sp_ok r \<and> \<not> sp_committed r \<and>
     (case first_known (scan_sources P raw q) of
        None \<Rightarrow> sp_item_id r = None \<and> sp_item_uom_id r = None \<and> sp_qty_base r = scanned_qty raw q
      | Some (i, u, n) \<Rightarrow> sp_item_id r = (if i = 0 then sq_item_id q else Some i) \<and> sp_item_uom_id r = u \<and> sp_qty_base r = scanned_qty raw q * or_int n 1)"
      by (auto simp: scan_entrypoint_def ingest_def Let_def build_qty_base_def ensure_def qty item or_int_def)
  qed
qed

definition sample_projection :: pms_projection where
  "sample_projection = \<lparr>pp_barcodes = [\<lparr>br_barcode = ''6901234567892'', br_item_id = 3, br_item_uom_id = 31, br_active = True\<rparr>],
     pp_uoms = [\<lparr>ur_item_uom_id = 31, ur_item_id = 3, ur_ratio_to_base = 12\<rparr>],
     pp_skus = [\<lparr>kr_sku_code_id = 1, kr_sku_code = ''sku-7'', kr_item_id = 7, kr_primary = True, kr_active = True\<rparr>]\<rparr>"

definition sample_scan :: "string \<Rightarrow> scan_request" where
  "sample_scan text = \<lparr>sq_mode = Some ''pick'', sq_probe = True, sq_item_id = None, sq_qty = Some 2, sq_barcode = Some text, sq_warehouse_id = None,
     sq_lot_code = None, sq_production_date = None, sq_expiry_date = None, sq_task_line_id = None, sq_session_id = None\<rparr>"

theorem scan_identifies_witness:
  "\<exists>r. scan_entrypoint sample_projection None ''X'' (sample_scan ''6901234567892'') = Inr r \<and> sp_item_id r = Some 3 \<and> sp_qty_base r = 24"
proof -
  have v: "valid_scan (sample_scan ''6901234567892'')" "scanned_text (sample_scan ''6901234567892'') = ''6901234567892''"
    "\<forall>u \<in> set (pp_uoms sample_projection). 1 \<le> ur_ratio_to_base u" by code_simp+
  have k: "first_known (scan_sources sample_projection ''6901234567892'' (sample_scan ''6901234567892'')) = Some (3, Some 31, Some 12)"
    "scanned_qty ''6901234567892'' (sample_scan ''6901234567892'') = 2" by code_simp+
  from scan_identifies [OF v(1,3), of None "''X''"] show ?thesis unfolding v(2) k by (auto simp: or_int_def)
qed

text \<open>
  A quantity of zero is admitted by the contract and counts as one: zero cartons of twelve are answered with a base
  quantity of twelve.
\<close>

lemma scan_zero_counts_as_one:
  "\<exists>r. scan_entrypoint sample_projection None ''X'' ((sample_scan ''6901234567892'')\<lparr>sq_qty := Some 0\<rparr>) = Inr r \<and>
     sp_item_id r = Some 3 \<and> sp_qty r = Some 0 \<and> sp_qty_base r = 12"
proof -
  have "case scan_entrypoint sample_projection None ''X'' ((sample_scan ''6901234567892'')\<lparr>sq_qty := Some 0\<rparr>) of
     Inl _ \<Rightarrow> False | Inr r \<Rightarrow> sp_item_id r = Some 3 \<and> sp_qty r = Some 0 \<and> sp_qty_base r = 12" by code_simp
  then show ?thesis by (auto split: sum.splits)
qed

text \<open>
  A quantity in the scanned text changes the base quantity of the answer but not its quantity, which repeats the
  request: five pieces are read, two are reported beside a base quantity of five.
\<close>

lemma scan_quantity_not_reported:
  "\<exists>r. scan_entrypoint sample_projection None ''X'' (sample_scan ''ITM:9 QTY:5'') = Inr r \<and>
     sp_item_id r = Some 9 \<and> sp_qty r = Some 2 \<and> sp_ratio_to_base r = None \<and> sp_qty_base r = 5"
proof -
  have "case scan_entrypoint sample_projection None ''X'' (sample_scan ''ITM:9 QTY:5'') of
     Inl _ \<Rightarrow> False | Inr r \<Rightarrow> sp_item_id r = Some 9 \<and> sp_qty r = Some 2 \<and> sp_ratio_to_base r = None \<and> sp_qty_base r = 5" by code_simp
  then show ?thesis by (auto split: sum.splits)
qed

end
