(* ===== verification/Expiry_Alloc.thy ===== *)
theory Expiry_Alloc
  imports Samples Complex_Main "HOL-Library.Multiset" "HOL-Library.Option_ord" "HOL-Library.Product_Lexorder"
begin

text \<open>
  The expiry allocator \<open>app/wms/shared/services/expiry_analytics_allocator.py\<close>: a read-only plan
  that serves a need from the lots that expire first. The query joins \<open>stocks_lot\<close> with \<open>lots\<close>, the
  rows are ranked by expiry date (rows without one last) and lot id, and the loop takes what is
  there until the need is met. The float arithmetic \<open>int(float(avail) + 1e-6)\<close> is rational here:
  for the quantities of an integer column both give the quantity itself.

  Shown: how much is planned, that no lot is overdrawn, and that lots are used up in the order of
  their expiry dates.
\<close>

section \<open>Rows and allocations\<close>

record stock_row =
  sr_stock_id :: int
  sr_lot_code :: "string option"
  sr_avail :: int
  sr_expiry_date :: "date option"

record allocation =
  al_stock_id :: int
  al_lot_code :: "string option"
  al_take_qty :: int
  al_expiry_date :: "date option"

definition plan_epsilon :: rat where
  "plan_epsilon = 1 / 1000000"

section \<open>Operations\<close>

definition alloc_sort_key :: "stock_row \<Rightarrow> bool \<times> date option \<times> int" where
  "alloc_sort_key row = (sr_expiry_date row = None, sr_expiry_date row, sr_stock_id row)"

definition alloc_rank :: "stock_row list \<Rightarrow> stock_row list" where
  "alloc_rank rows = sort_key alloc_sort_key rows"

text \<open>\<open>int(x)\<close> of a number with a fraction cuts towards zero.\<close>

definition py_trunc :: "rat \<Rightarrow> int" where
  "py_trunc x = (if 0 \<le> x then \<lfloor>x\<rfloor> else \<lceil>x\<rceil>)"

definition avail_int :: "stock_row \<Rightarrow> int" where
  "avail_int r = max (py_trunc (rat_of_int (sr_avail r) + plan_epsilon)) 0"

fun alloc_plan :: "stock_row list \<Rightarrow> int \<Rightarrow> allocation list" where
  "alloc_plan [] remain = []"
| "alloc_plan (r # rs) remain =
     (if remain \<le> 0 then []
      else if avail_int r \<le> 0 then alloc_plan rs remain
      else (let take_int = min (avail_int r) remain
            in \<lparr>al_stock_id = sr_stock_id r, al_lot_code = sr_lot_code r, al_take_qty = take_int,
                al_expiry_date = sr_expiry_date r\<rparr> # alloc_plan rs (remain - take_int)))"

text \<open>\<open>stocks_lot s LEFT JOIN lots l ON l.id = s.lot_id\<close>.\<close>

definition join_lots :: "db \<Rightarrow> stock_lot \<Rightarrow> stock_row list" where
  "join_lots d s =
     (let avail = max (st_qty s) 0; ls = filter (\<lambda>l. lot_id l = st_lot_id s) (db_lots d)
      in if ls = []
         then [\<lparr>sr_stock_id = st_lot_id s, sr_lot_code = None, sr_avail = avail, sr_expiry_date = None\<rparr>]
         else map (\<lambda>l. \<lparr>sr_stock_id = st_lot_id s, sr_lot_code = lot_code l, sr_avail = avail,
                        sr_expiry_date = lot_expiry_date l\<rparr>) ls)"

definition fetch_stocks :: "date \<Rightarrow> int \<Rightarrow> int option \<Rightarrow> bool \<Rightarrow> db \<Rightarrow> stock_row list" where
  "fetch_stocks today item warehouse allow_expired d =
     filter (\<lambda>r. allow_expired \<or> (case sr_expiry_date r of None \<Rightarrow> True | Some e \<Rightarrow> today < e))
       (concat (map (join_lots d)
          (filter (\<lambda>s. st_item_id s = item \<and> 0 < max (st_qty s) 0 \<and>
                       (case warehouse of None \<Rightarrow> True | Some w \<Rightarrow> st_warehouse_id s = w))
             (db_stocks_lot d))))"

text \<open>\<open>self_allow\<close> is the field of the allocator, \<open>allow_expired\<close> the argument that overrides it.\<close>

definition effective_allow :: "bool \<Rightarrow> bool option \<Rightarrow> bool" where
  "effective_allow self_allow allow_expired = (case allow_expired of None \<Rightarrow> self_allow | Some a \<Rightarrow> a)"

definition allocate ::
    "bool \<Rightarrow> date \<Rightarrow> int \<Rightarrow> int \<Rightarrow> int option \<Rightarrow> bool option \<Rightarrow> db \<Rightarrow> allocation list" where
  "allocate self_allow today item need_qty warehouse allow_expired d =
     (let allow = effective_allow self_allow allow_expired;
          rows = fetch_stocks today item warehouse allow d
      in alloc_plan (alloc_rank rows) need_qty)"

section \<open>The loop\<close>

lemma avail_int_eq: "0 \<le> sr_avail r \<Longrightarrow> avail_int r = sr_avail r"
proof -
  assume a: "0 \<le> sr_avail r"
  have "\<lfloor>rat_of_int (sr_avail r) + plan_epsilon\<rfloor> = sr_avail r"
    by (rule floor_unique) (simp_all add: plan_epsilon_def)
  moreover have "0 \<le> rat_of_int (sr_avail r) + plan_epsilon" using a by (simp add: plan_epsilon_def)
  ultimately show ?thesis using a by (simp add: avail_int_def py_trunc_def)
qed

definition planned :: "allocation list \<Rightarrow> int" where
  "planned as = sum_list (map al_take_qty as)"

definition available :: "stock_row list \<Rightarrow> int" where
  "available rs = sum_list (map sr_avail rs)"

lemma available_nonneg: "\<forall>r \<in> set rs. 0 < sr_avail r \<Longrightarrow> 0 \<le> available rs"
  unfolding available_def by (induction rs) auto

lemma plan_total:
  assumes "\<forall>r \<in> set rs. 0 < sr_avail r"
  shows "planned (alloc_plan rs need) = min (max 0 need) (available rs)"
  using assms
proof (induction rs arbitrary: need)
  case (Cons r rs)
  have "0 \<le> available rs" by (rule available_nonneg) (use Cons.prems in simp)
  with Cons.prems show ?case
    by (simp add: planned_def available_def avail_int_eq Let_def)
      (use Cons.IH [of "need - min (sr_avail r) need"] in \<open>auto simp: planned_def available_def min_def max_def\<close>)
qed (simp add: planned_def available_def)

text \<open>An allocation that goes back to a row, and one that takes all of it.\<close>

definition from_row :: "stock_row \<Rightarrow> allocation \<Rightarrow> bool" where
  "from_row r a \<longleftrightarrow> al_stock_id a = sr_stock_id r \<and> al_lot_code a = sr_lot_code r \<and>
     al_expiry_date a = sr_expiry_date r \<and> 0 < al_take_qty a \<and> al_take_qty a \<le> sr_avail r"

definition whole_row :: "stock_row \<Rightarrow> allocation" where
  "whole_row r = \<lparr>al_stock_id = sr_stock_id r, al_lot_code = sr_lot_code r, al_take_qty = sr_avail r,
     al_expiry_date = sr_expiry_date r\<rparr>"

text \<open>
  The plan is a run of whole rows from the front of the ranking, and perhaps a part of the next row.
\<close>

lemma plan_prefix:
  assumes "\<forall>r \<in> set rs. 0 < sr_avail r"
  shows "\<exists>n \<le> length rs. alloc_plan rs need = map whole_row (take n rs) \<or>
     (n < length rs \<and> (\<exists>a. alloc_plan rs need = map whole_row (take n rs) @ [a] \<and> from_row (rs ! n) a))"
  using assms
proof (induction rs arbitrary: need)
  case (Cons r rs)
  then have r: "0 < sr_avail r" "avail_int r = sr_avail r" by (simp_all add: avail_int_eq)
  consider "need \<le> 0" | "0 < need" "need < sr_avail r" | "0 < need" "sr_avail r \<le> need" by linarith
  then show ?case
  proof cases
    case 2
    have "alloc_plan rs 0 = []" by (cases rs) auto
    with 2 r show ?thesis by (intro exI [of _ 0]) (auto simp: from_row_def Let_def)
  next
    case 3
    obtain n where n: "n \<le> length rs" and
      p: "alloc_plan rs (need - sr_avail r) = map whole_row (take n rs) \<or>
        (n < length rs \<and> (\<exists>a. alloc_plan rs (need - sr_avail r) = map whole_row (take n rs) @ [a] \<and> from_row (rs ! n) a))"
      using Cons.IH [of "need - sr_avail r"] Cons.prems by auto
    have "alloc_plan (r # rs) need = whole_row r # alloc_plan rs (need - sr_avail r)"
      using 3 r by (simp add: whole_row_def Let_def min_def)
    with n p show ?thesis by (intro exI [of _ "Suc n"]) auto
  qed (intro exI [of _ 0], simp)
qed simp

section \<open>The query\<close>

lemma fetch_rowD:
  assumes "r \<in> set (fetch_stocks today item w allow d)"
  obtains s where "s \<in> set (db_stocks_lot d)" and "st_item_id s = item"
    and "case w of None \<Rightarrow> True | Some v \<Rightarrow> st_warehouse_id s = v"
    and "sr_stock_id r = st_lot_id s" and "sr_avail r = st_qty s" and "0 < st_qty s"
  using assms by (auto simp: fetch_stocks_def join_lots_def Let_def split: if_splits option.splits)

lemma fetch_pos: "\<forall>r \<in> set (fetch_stocks today item w allow d). 0 < sr_avail r"
  by (auto elim: fetch_rowD)

lemma set_rank [simp]: "set (alloc_rank rows) = set rows"
  by (simp add: alloc_rank_def)

lemma available_rank [simp]: "available (alloc_rank rows) = available rows"
proof -
  have "available rs = sum_mset (image_mset sr_avail (mset rs))" for rs
    by (simp add: available_def sum_mset_sum_list [symmetric] del: sum_mset_sum_list)
  then show ?thesis by (simp add: alloc_rank_def)
qed

lemma plan_shape:
  assumes pos: "\<forall>r \<in> set rs. 0 < sr_avail r"
  obtains n where "n \<le> length rs" and "whole_row ` set (take n rs) \<subseteq> set (alloc_plan rs need)"
    and "\<And>a. a \<in> set (alloc_plan rs need) \<Longrightarrow> \<exists>j \<le> n. j < length rs \<and> from_row (rs ! j) a"
proof -
  have whole: "from_row (rs ! j) (whole_row (rs ! j))" if "j < length rs" for j
    using pos that by (simp add: from_row_def whole_row_def)
  obtain n where n: "n \<le> length rs" and p:
    "alloc_plan rs need = map whole_row (take n rs) \<or>
     (n < length rs \<and> (\<exists>b. alloc_plan rs need = map whole_row (take n rs) @ [b] \<and> from_row (rs ! n) b))"
    using plan_prefix [OF pos, of need] by blast
  have front: "\<exists>j \<le> n. j < length rs \<and> from_row (rs ! j) a" if "a \<in> whole_row ` set (take n rs)" for a
  proof -
    from that obtain j where "j < n" "j < length rs" "a = whole_row (rs ! j)" by (auto simp: in_set_conv_nth)
    with whole show ?thesis by (intro exI [of _ j]) simp
  qed
  show ?thesis
  proof (rule that [OF n])
    show "whole_row ` set (take n rs) \<subseteq> set (alloc_plan rs need)" using p by auto
    show "\<exists>j \<le> n. j < length rs \<and> from_row (rs ! j) a" if "a \<in> set (alloc_plan rs need)" for a
      using p that front [of a] by auto
  qed
qed

lemma plan_from_rows:
  assumes "\<forall>r \<in> set rs. 0 < sr_avail r" and "a \<in> set (alloc_plan rs need)"
  shows "\<exists>r \<in> set rs. from_row r a"
  using plan_shape [OF assms(1), of need] assms(2) nth_mem by metis

definition al_sort_key :: "allocation \<Rightarrow> bool \<times> date option \<times> int" where
  "al_sort_key a = (al_expiry_date a = None, al_expiry_date a, al_stock_id a)"

lemma sorted_rank: "sorted (map alloc_sort_key (alloc_rank rows))"
  by (simp add: alloc_rank_def)

text \<open>In a sorted ranking a row before a planned one is planned as a whole.\<close>

lemma plan_uses_up:
  assumes pos: "\<forall>r \<in> set rs. 0 < sr_avail r" and "sorted (map alloc_sort_key rs)"
    and "r \<in> set rs" and "a \<in> set (alloc_plan rs need)" and less: "alloc_sort_key r < al_sort_key a"
  shows "whole_row r \<in> set (alloc_plan rs need)"
proof -
  have key: "al_sort_key b = alloc_sort_key x" if "from_row x b" for x b
    using that by (simp add: al_sort_key_def alloc_sort_key_def from_row_def)
  obtain n where n: "n \<le> length rs" and whole: "whole_row ` set (take n rs) \<subseteq> set (alloc_plan rs need)"
    and part: "\<And>b. b \<in> set (alloc_plan rs need) \<Longrightarrow> \<exists>j \<le> n. j < length rs \<and> from_row (rs ! j) b"
    using plan_shape [OF pos, of need] by blast
  obtain i where i: "i < length rs" "r = rs ! i" using assms(3) by (auto simp: in_set_conv_nth)
  obtain j where j: "j \<le> n" "j < length rs" "from_row (rs ! j) a" using part [OF assms(4)] by blast
  have "i < j"
  proof (rule ccontr)
    assume "\<not> i < j"
    then have "alloc_sort_key (rs ! j) \<le> alloc_sort_key (rs ! i)"
      using sorted_nth_mono [OF assms(2), of j i] i by simp
    with less key [OF j(3)] i show False by simp
  qed
  with i j n have "r \<in> set (take n rs)" by (auto simp: in_set_conv_nth intro!: exI [of _ i])
  with whole show ?thesis by blast
qed

section \<open>Claims\<close>

text \<open>
  Claim C30. Bounds of the expiry plan: over consistent books the plan covers exactly the smaller of
  the need and what the lots it may use hold together; every part of it is positive and at most what
  its lot has on hand in the warehouse asked for; and a lot whose expiry date has come is used only
  when expired lots are allowed.
\<close>

theorem expiry_plan_bounds:
  assumes "books_ok d" and "allow = effective_allow self_allow allow_expired"
  shows "planned (allocate self_allow today item need warehouse allow_expired d)
      = min (max 0 need) (available (fetch_stocks today item warehouse allow d)) \<and>
    (\<forall>a \<in> set (allocate self_allow today item need warehouse allow_expired d).
       0 < al_take_qty a \<and>
       (\<exists>w. (warehouse = None \<or> warehouse = Some w) \<and> al_take_qty a \<le> on_hand d (w, item, al_stock_id a)) \<and>
       (allow \<or> (case al_expiry_date a of None \<Rightarrow> True | Some e \<Rightarrow> today < e)))"
proof -
  let ?rows = "fetch_stocks today item warehouse allow d"
  have p: "allocate self_allow today item need warehouse allow_expired d = alloc_plan (alloc_rank ?rows) need"
    by (simp add: allocate_def assms(2))
  have pos: "\<forall>r \<in> set (alloc_rank ?rows). 0 < sr_avail r" using fetch_pos by simp
  have each: "0 < al_take_qty a \<and> (\<exists>w. (warehouse = None \<or> warehouse = Some w) \<and> al_take_qty a \<le> on_hand d (w, item, al_stock_id a)) \<and>
      (allow \<or> (case al_expiry_date a of None \<Rightarrow> True | Some e \<Rightarrow> today < e))"
    if a: "a \<in> set (alloc_plan (alloc_rank ?rows) need)" for a
  proof -
    obtain r where r: "r \<in> set ?rows" and fr: "from_row r a" using plan_from_rows [OF pos a] by auto
    obtain s where s: "s \<in> set (db_stocks_lot d)" "st_item_id s = item" "sr_stock_id r = st_lot_id s" "sr_avail r = st_qty s"
      and w: "case warehouse of None \<Rightarrow> True | Some v \<Rightarrow> st_warehouse_id s = v" by (rule fetch_rowD [OF r])
    have "on_hand d (st_dims s) = st_qty s" using on_hand_row assms(1) s(1) by (auto simp: books_defs)
    then have "al_take_qty a \<le> on_hand d (st_warehouse_id s, item, al_stock_id a)"
      using fr s by (simp add: from_row_def st_dims_def)
    moreover have "allow \<or> (case sr_expiry_date r of None \<Rightarrow> True | Some e \<Rightarrow> today < e)"
      using r by (simp add: fetch_stocks_def)
    ultimately show ?thesis using fr w by (auto simp: from_row_def split: option.splits)
  qed
  show ?thesis using plan_total [OF pos, of need] each unfolding p by simp
qed

definition sample_today :: date where
  "sample_today = Date 2025 6 1"

theorem expiry_plan_bounds_witness:
  "planned (allocate False sample_today 2 10 (Some 1) None sample_db) = 4 \<and>
   planned (allocate False sample_today 1 7 None None sample_db) = 7"
proof -
  have "available (fetch_stocks sample_today 2 (Some 1) False sample_db) = 4"
    "available (fetch_stocks sample_today 1 None False sample_db) = 10" by code_simp+
  then show ?thesis
    using expiry_plan_bounds [OF sample_books_ok, where allow = False and self_allow = False and allow_expired = None and today = sample_today
        and item = 2 and need = 10 and warehouse = "Some 1"]
      expiry_plan_bounds [OF sample_books_ok, where allow = False and self_allow = False and allow_expired = None and today = sample_today
        and item = 1 and need = 7 and warehouse = None]
    by (simp add: effective_allow_def)
qed

text \<open>
  First expired, first out: a lot that stands before a planned one in the order of expiry
  date, lots without a date last and lot id breaking ties, is in the plan with all it has.
\<close>

lemma expiry_plan_first_expired_first:
  assumes "r \<in> set (fetch_stocks today item warehouse allow d)"
    and "a \<in> set (allocate self_allow today item need warehouse (Some allow) d)"
    and "alloc_sort_key r < al_sort_key a"
  shows "whole_row r \<in> set (allocate self_allow today item need warehouse (Some allow) d)"
  using plan_uses_up [of "alloc_rank (fetch_stocks today item warehouse allow d)" r a need] assms fetch_pos
    sorted_rank
  by (simp add: allocate_def effective_allow_def)

definition two_lots_db :: db where
  "two_lots_db = sample_db
     \<lparr>db_lots := sample_lots @ [(sample_lots ! 1)\<lparr>lot_id := 3, lot_code := Some ''B0'',
        lot_production_date := Some (Date 2024 12 1), lot_expiry_date := Some (Date 2025 12 1)\<rparr>],
      db_stocks_lot := db_stocks_lot sample_db
        @ [\<lparr>st_id = 3, st_warehouse_id = 1, st_item_id = 2, st_lot_id = 3, st_qty = 5\<rparr>]\<rparr>"

lemma expiry_plan_first_expired_first_witness:
  "whole_row \<lparr>sr_stock_id = 3, sr_lot_code = Some ''B0'', sr_avail = 5, sr_expiry_date = Some (Date 2025 12 1)\<rparr>
     \<in> set (allocate False sample_today 2 6 None (Some False) two_lots_db)"
proof (rule expiry_plan_first_expired_first)
  let ?r = "\<lparr>sr_stock_id = 3, sr_lot_code = Some ''B0'', sr_avail = 5, sr_expiry_date = Some (Date 2025 12 1)\<rparr>"
  let ?a = "\<lparr>al_stock_id = 2, al_lot_code = Some ''B1'', al_take_qty = 1, al_expiry_date = Some (Date 2026 1 15)\<rparr>"
  show "?r \<in> set (fetch_stocks sample_today 2 None False two_lots_db)" by code_simp
  show "?a \<in> set (allocate False sample_today 2 6 None (Some False) two_lots_db)" by code_simp
  show "alloc_sort_key ?r < al_sort_key ?a" by code_simp
qed

end
