(* ===== verification/Snapshots.thy ===== *)
theory Snapshots
  imports Samples "HOL-Library.Product_Lexorder"
begin

text \<open>
  Stock snapshots and the check of the three books: \<open>app/wms/snapshot/services\<close>
  (\<open>snapshot_run.py\<close>, \<open>snapshot_v3_service.py\<close>, \<open>inventory_anomaly_service.py\<close>),
  \<open>app/wms/snapshot/jobs/snapshot.py\<close> and \<open>app/wms/shared/services\<close>
  (\<open>three_books_consistency.py\<close>, \<open>three_books_enforcer.py\<close>). The table \<open>stock_snapshots\<close> is a list
  of rows beside the database; its foreign keys and its unique grain are checked on insert.
  The view \<open>v_three_books\<close> of the migrations, of which \<open>run_snapshot\<close> returns the first row, is the
  parameter \<open>view\<close>; what it reads has no effect on the tables.

  Shown here: what a rebuilt snapshot holds, and what the check of a commit against it decides.
\<close>

section \<open>The table\<close>

record stock_snapshot =
  sn_date :: date
  sn_warehouse_id :: int
  sn_item_id :: int
  sn_lot_id :: int
  sn_qty :: int
  sn_qty_available :: int
  sn_qty_allocated :: int

type_synonym snapshots = "stock_snapshot list"

definition sn_dims :: "stock_snapshot \<Rightarrow> dims" where
  "sn_dims r = (sn_warehouse_id r, sn_item_id r, sn_lot_id r)"

text \<open>\<open>uq_stock_snapshots_grain_lot\<close>\<close>

definition sn_grain :: "stock_snapshot \<Rightarrow> date \<times> dims" where
  "sn_grain r = (sn_date r, sn_dims r)"

definition insert_snapshots :: "db \<Rightarrow> snapshots \<Rightarrow> snapshots \<Rightarrow> snapshots result" where
  "insert_snapshots d rows sns =
     bindR (ensure (distinct (map sn_grain (sns @ rows))) (IntegrityError ''uq_stock_snapshots_grain_lot'')) (\<lambda>_.
     bindR (ensure (\<forall>r \<in> set rows. dims_in_lots d (sn_dims r)) (IntegrityError ''fk_stock_snapshots_lot_dims'')) (\<lambda>_.
     bindR (ensure (\<forall>r \<in> set rows. sn_warehouse_id r \<in> set (map wh_id (db_warehouses d)))
        (IntegrityError ''stock_snapshots warehouse'')) (\<lambda>_.
     Inr (sns @ rows))))"

definition delete_day :: "date \<Rightarrow> snapshots \<Rightarrow> snapshots" where
  "delete_day dy sns = filter (\<lambda>r. sn_date r \<noteq> dy) sns"

text \<open>One row of a snapshot; nothing is allocated.\<close>

definition snap_row :: "date \<Rightarrow> dims \<Rightarrow> int \<Rightarrow> stock_snapshot" where
  "snap_row dy k q = \<lparr>sn_date = dy, sn_warehouse_id = fst k, sn_item_id = fst (snd k),
     sn_lot_id = snd (snd k), sn_qty = q, sn_qty_available = q, sn_qty_allocated = 0\<rparr>"

section \<open>snapshot\_run.py\<close>

definition rebuild_snapshot_today_from_lot :: "db \<Rightarrow> date \<Rightarrow> snapshots \<Rightarrow> snapshots result" where
  "rebuild_snapshot_today_from_lot d today sns =
     insert_snapshots d
       (map (\<lambda>k. snap_row today k (on_hand d k)) (remdups (map st_dims (db_stocks_lot d))))
       (delete_day today sns)"

definition compute_summary :: "db \<Rightarrow> snapshots \<Rightarrow> (string \<times> int) list" where
  "compute_summary d sns =
     [(''sum_stocks_lot'', sum_list (map st_qty (db_stocks_lot d))),
      (''sum_stocks'', sum_list (map st_qty (db_stocks_lot d))),
      (''sum_ledger'', sum_list (map led_delta (db_stock_ledger d))),
      (''sum_snapshot_qty'', sum_list (map sn_qty sns)),
      (''sum_snapshot_available'', sum_list (map sn_qty_available sns))]"

definition run_snapshot ::
  "(db \<Rightarrow> snapshots \<Rightarrow> (string \<times> int) list option) \<Rightarrow> datetime \<Rightarrow> db \<Rightarrow> snapshots \<Rightarrow> ((string \<times> int) list \<times> snapshots) result" where
  "run_snapshot view now d sns =
     (let today = date_of now
      in bindR (rebuild_snapshot_today_from_lot d today sns) (\<lambda>sns'.
         Inr (case view d sns' of Some summary \<Rightarrow> summary | None \<Rightarrow> compute_summary d sns', sns')))"

section \<open>snapshot\_v3\_service.py and jobs/snapshot.py\<close>

definition ledger_sum :: "(ledger_row \<Rightarrow> bool) \<Rightarrow> db \<Rightarrow> dims \<Rightarrow> int" where
  "ledger_sum P d k = sum_where led_delta (\<lambda>r. P r \<and> led_dims r = k) (db_stock_ledger d)"

definition ledger_groups :: "(ledger_row \<Rightarrow> bool) \<Rightarrow> db \<Rightarrow> dims list" where
  "ledger_groups P d = remdups (map led_dims (filter P (db_stock_ledger d)))"

text \<open>Midnight (UTC) after the day; the last day of the calendar has none.\<close>

definition cut_to :: "date \<Rightarrow> datetime result" where
  "cut_to dy = bindR (add_days dy 1) (\<lambda>next. Inr (toordinal next * day_us))"

definition snapshot_from_ledger :: "db \<Rightarrow> date \<Rightarrow> datetime \<Rightarrow> snapshots \<Rightarrow> snapshots result" where
  "snapshot_from_ledger d dy cut_ts sns =
     (let before = (\<lambda>r. led_occurred_at r < cut_ts)
      in insert_snapshots d
           (map (\<lambda>k. snap_row dy k (ledger_sum before d k))
              (filter (\<lambda>k. ledger_sum before d k \<noteq> 0) (ledger_groups before d)))
           (delete_day dy sns))"

definition rebuild_snapshot_from_ledger :: "db \<Rightarrow> datetime \<Rightarrow> snapshots \<Rightarrow> ((date \<times> int \<times> int) \<times> snapshots) result" where
  "rebuild_snapshot_from_ledger d snapshot_date sns =
     (let dy = date_of snapshot_date
      in bindR (cut_to dy) (\<lambda>cut_ts.
         bindR (snapshot_from_ledger d dy cut_ts sns) (\<lambda>sns'.
         (let rows = filter (\<lambda>r. sn_date r = dy) sns'
          in Inr ((dy, int (length rows), sum_list (map sn_qty rows)), sns')))))"

definition snapshot_run_once :: "string \<Rightarrow> datetime \<Rightarrow> db \<Rightarrow> snapshots \<Rightarrow> ((string \<times> date) \<times> snapshots) result" where
  "snapshot_run_once grain at d sns =
     bindR (ensure (grain \<in> {''day''}) (ValueError ''Unsupported grain'')) (\<lambda>_.
     (let cut_date = date_of at
      in bindR (cut_to cut_date) (\<lambda>cut_ts.
         bindR (snapshot_from_ledger d cut_date cut_ts sns) (\<lambda>sns'. Inr ((grain, cut_date), sns')))))"

text \<open>The rows of the ledger whose lot exists, as the inner join with \<open>lots\<close> gives them.\<close>

definition has_lot :: "db \<Rightarrow> int \<Rightarrow> bool" where
  "has_lot d lid \<longleftrightarrow> lid \<in> set (map lot_id (db_lots d))"

definition code_of_lot :: "db \<Rightarrow> int \<Rightarrow> string option" where
  "code_of_lot d lid = (case find (\<lambda>l. lot_id l = lid) (db_lots d) of None \<Rightarrow> None | Some l \<Rightarrow> lot_code l)"

definition upto_cut :: "db \<Rightarrow> datetime \<Rightarrow> ledger_row \<Rightarrow> bool" where
  "upto_cut d cut_ts r \<longleftrightarrow> led_occurred_at r \<le> cut_ts \<and> has_lot d (led_lot_id r)"

definition snapshot_cut :: "datetime \<Rightarrow> db \<Rightarrow> int \<times> int" where
  "snapshot_cut at d =
     (let rows = filter (\<lambda>k. ledger_sum (upto_cut d at) d k \<noteq> 0) (ledger_groups (upto_cut d at) d)
      in (int (length rows), sum_list (map (ledger_sum (upto_cut d at) d) rows)))"

record compare_row =
  cr_dims :: dims
  cr_lot_code :: "string option"
  cr_ledger_qty :: int
  cr_snapshot_qty :: int
  cr_stocks_lot_qty :: int
  cr_diff_snapshot :: int
  cr_diff_stocks_lot :: int

definition snap_qty :: "snapshots \<Rightarrow> date \<Rightarrow> dims \<Rightarrow> int" where
  "snap_qty sns dy k = sum_where sn_qty (\<lambda>r. sn_date r = dy \<and> sn_dims r = k) sns"

text \<open>The unique grain leaves at most one snapshot row per day and dimension, so its quantity is the sum.\<close>

definition compare_snapshot :: "datetime \<Rightarrow> db \<Rightarrow> snapshots \<Rightarrow> compare_row list" where
  "compare_snapshot cut_ts d sns =
     map (\<lambda>k. let l = ledger_sum (upto_cut d cut_ts) d k; s = snap_qty sns (date_of cut_ts) k; q = on_hand d k
              in \<lparr>cr_dims = k, cr_lot_code = code_of_lot d (snd (snd k)), cr_ledger_qty = l,
                  cr_snapshot_qty = s, cr_stocks_lot_qty = q, cr_diff_snapshot = l - s,
                  cr_diff_stocks_lot = l - q\<rparr>)
       (sort (ledger_groups (upto_cut d cut_ts) d))"

section \<open>inventory\_anomaly\_service.py\<close>

record anomaly =
  an_dims :: dims
  an_lot_code :: "string option"
  an_left :: int
  an_right :: int
  an_diff :: int

record anomalies =
  ledger_vs_stocks_lot :: "anomaly list"
  ledger_vs_snapshot :: "anomaly list"
  stocks_lot_vs_snapshot :: "anomaly list"

definition stock_groups :: "db \<Rightarrow> dims list" where
  "stock_groups d = remdups (map st_dims (filter (\<lambda>s. has_lot d (st_lot_id s)) (db_stocks_lot d)))"

definition snap_groups :: "db \<Rightarrow> date \<Rightarrow> snapshots \<Rightarrow> dims list" where
  "snap_groups d dy sns = remdups (map sn_dims (filter (\<lambda>r. sn_date r = dy \<and> has_lot d (sn_lot_id r)) sns))"

definition anomalies_of :: "db \<Rightarrow> dims list \<Rightarrow> (dims \<Rightarrow> int) \<Rightarrow> (dims \<Rightarrow> int) \<Rightarrow> anomaly list" where
  "anomalies_of d keys f g =
     map (\<lambda>k. \<lparr>an_dims = k, an_lot_code = code_of_lot d (snd (snd k)), an_left = f k, an_right = g k,
               an_diff = f k - g k\<rparr>)
       (filter (\<lambda>k. f k \<noteq> g k) keys)"

text \<open>The maps of the three sources give 0 outside their keys.\<close>

definition detect_anomalies :: "datetime \<Rightarrow> db \<Rightarrow> snapshots \<Rightarrow> anomalies" where
  "detect_anomalies cut_ts d sns =
     (let lk = ledger_groups (upto_cut d cut_ts) d; sk = stock_groups d; nk = snap_groups d (date_of cut_ts) sns;
          ledger_qty = (\<lambda>k. if k \<in> set lk then ledger_sum (upto_cut d cut_ts) d k else 0);
          stocks_lot_qty = (\<lambda>k. if k \<in> set sk then on_hand d k else 0);
          snapshot_qty = (\<lambda>k. if k \<in> set nk then snap_qty sns (date_of cut_ts) k else 0);
          keys = sort (remdups (lk @ sk @ nk))
      in \<lparr>ledger_vs_stocks_lot = anomalies_of d keys ledger_qty stocks_lot_qty,
          ledger_vs_snapshot = anomalies_of d keys ledger_qty snapshot_qty,
          stocks_lot_vs_snapshot = anomalies_of d keys stocks_lot_qty snapshot_qty\<rparr>)"

section \<open>three\_books\_consistency.py\<close>

record effect =
  ef_warehouse_id :: int
  ef_item_id :: int
  ef_lot_id :: "int option"
  ef_batch_code :: "string option"
  ef_qty :: int
  ef_ref_line :: int
  ef_reason :: "string option"

definition resolve_lot_id_by_lot_code :: "int \<Rightarrow> int \<Rightarrow> string option \<Rightarrow> db \<Rightarrow> int option" where
  "resolve_lot_id_by_lot_code w i code d =
     (case norm_lot_code code of
        None \<Rightarrow> None
      | Some c \<Rightarrow>
          (case filter (\<lambda>l. lot_warehouse_id l = w \<and> lot_item_id l = i \<and> lot_source l = SUPPLIER \<and> lot_code l = Some c)
                  (db_lots d) of
             [l] \<Rightarrow> Some (lot_id l)
           | _ \<Rightarrow> None))"

definition effect_lot :: "int \<Rightarrow> db \<Rightarrow> effect \<Rightarrow> int result" where
  "effect_lot w d e =
     (case ef_lot_id e of
        Some l \<Rightarrow> Inr l
      | None \<Rightarrow> require_some (resolve_lot_id_by_lot_code w (ef_item_id e) (ef_batch_code e) d)
                  (ValueError ''three_books_consistency requires lot_id in effects''))"

text \<open>The reason counts when it is there and not blank.\<close>

definition reason_filter :: "string option \<Rightarrow> string option" where
  "reason_filter reason = (case reason of None \<Rightarrow> None | Some r \<Rightarrow> if py_strip r = [] then None else Some r)"

definition effect_delta :: "int \<Rightarrow> string \<Rightarrow> db \<Rightarrow> effect \<Rightarrow> int \<Rightarrow> int option" where
  "effect_delta w ref d e lid =
     map_option led_delta
       (find (\<lambda>r. led_dims r = (w, ef_item_id e, lid) \<and> led_ref r = ref \<and> led_ref_line r = ef_ref_line e \<and>
                 (case reason_filter (ef_reason e) of None \<Rightarrow> True | Some x \<Rightarrow> led_reason r = x))
          (db_stock_ledger d))"

definition item_total :: "int \<Rightarrow> int \<Rightarrow> db \<Rightarrow> int" where
  "item_total w i d = sum_where st_qty (\<lambda>s. st_warehouse_id s = w \<and> st_item_id s = i) (db_stocks_lot d)"

definition snap_total :: "date \<Rightarrow> int \<Rightarrow> int \<Rightarrow> snapshots \<Rightarrow> int" where
  "snap_total dy w i sns =
     sum_where sn_qty (\<lambda>r. sn_date r = dy \<and> sn_warehouse_id r = w \<and> sn_item_id r = i) sns"

text \<open>
  The first loop collects whether every effect stands in the ledger with its quantity; a lot that
  cannot be resolved ends it at once.
\<close>

fun effects_in_ledger :: "int \<Rightarrow> string \<Rightarrow> db \<Rightarrow> effect list \<Rightarrow> bool result" where
  "effects_in_ledger w ref d [] = Inr True"
| "effects_in_ledger w ref d (e # es) =
     bindR (effect_lot w d e) (\<lambda>lid.
     bindR (effects_in_ledger w ref d es) (\<lambda>rest.
     Inr (effect_delta w ref d e lid = Some (ef_qty e) \<and> rest)))"

definition verify_commit_three_books :: "int \<Rightarrow> string \<Rightarrow> effect list \<Rightarrow> datetime \<Rightarrow> db \<Rightarrow> snapshots \<Rightarrow> unit result" where
  "verify_commit_three_books w ref effects at d sns =
     (if effects = [] then Inr ()
      else bindR (effects_in_ledger w ref d effects) (\<lambda>found.
           bindR (ensure found (ValueError ''three books: ledger incomplete or delta mismatch'')) (\<lambda>_.
           ensure (\<forall>i \<in> set (map ef_item_id effects). item_total w i d = snap_total (date_of at) w i sns)
             (ValueError ''three books: snapshot_total != stocks_lot_total''))))"

section \<open>three\_books\_enforcer.py\<close>

definition enforce_three_books ::
  "(db \<Rightarrow> snapshots \<Rightarrow> (string \<times> int) list option) \<Rightarrow> datetime \<Rightarrow> string \<Rightarrow> effect list \<Rightarrow> datetime \<Rightarrow> db \<Rightarrow> snapshots \<Rightarrow> snapshots result" where
  "enforce_three_books view now ref effects at d sns =
     (if effects = [] then Inr sns
      else bindR (run_snapshot view now d sns) (\<lambda>(_, sns').
           bindR (check_all (\<lambda>w. verify_commit_three_books w ref (filter (\<lambda>e. ef_warehouse_id e = w) effects) at d sns')
                    (rev (remdups (rev (map ef_warehouse_id effects))))) (\<lambda>_.
           Inr sns')))"

section \<open>SnapshotPipeline.run\<close>

text \<open>The flag says that an anomaly between ledger and snapshot is written to the audit trail.\<close>

definition snapshot_pipeline :: "datetime \<Rightarrow> db \<Rightarrow> snapshots \<Rightarrow> ((date \<times> int \<times> int) \<times> bool \<times> snapshots) result" where
  "snapshot_pipeline now d sns =
     bindR (rebuild_snapshot_from_ledger d now sns) (\<lambda>(snap, sns').
     Inr (snap, ledger_vs_snapshot (detect_anomalies now d sns') \<noteq> [], sns'))"

end
