(* ===== verification/Snapshot_Laws.thy ===== *)
theory Snapshot_Laws
  imports Snapshots
begin

text \<open>
  The laws of the snapshots: over consistent books the snapshot taken from the balances and the one
  taken from the ledger hold the same quantities, the pipeline finds no anomaly, and the check of a
  commit against the snapshot of the same day decides by the ledger alone.
\<close>

section \<open>Rebuilding a day\<close>

definition lot_warehouses_ok :: "db \<Rightarrow> bool" where
  "lot_warehouses_ok d \<longleftrightarrow> (\<forall>l \<in> set (db_lots d). lot_warehouse_id l \<in> set (map wh_id (db_warehouses d)))"

definition grains_ok :: "snapshots \<Rightarrow> bool" where
  "grains_ok sns \<longleftrightarrow> distinct (map sn_grain sns)"

lemma insert_snapshots_Inr [res_simps]:
  "insert_snapshots d rows sns = Inr s' \<longleftrightarrow>
     distinct (map sn_grain (sns @ rows)) \<and> (\<forall>r \<in> set rows. dims_in_lots d (sn_dims r)) \<and>
     (\<forall>r \<in> set rows. sn_warehouse_id r \<in> set (map wh_id (db_warehouses d))) \<and> s' = sns @ rows"
  unfolding insert_snapshots_def by (simp only: res_simps) auto

lemma snap_row_simps [simp]:
  "sn_date (snap_row t k q) = t" "sn_dims (snap_row t k q) = k" "sn_grain (snap_row t k q) = (t, k)"
  "sn_qty (snap_row t k q) = q" "sn_warehouse_id (snap_row t k q) = fst k" "sn_item_id (snap_row t k q) = fst (snd k)"
  by (simp_all add: snap_row_def sn_dims_def sn_grain_def)

lemma dims_warehouse:
  assumes "lot_warehouses_ok d" and "dims_in_lots d k"
  shows "fst k \<in> set (map wh_id (db_warehouses d))"
  using assms by (auto simp: lot_warehouses_ok_def dims_in_lots_def lot_dims_def)

text \<open>The rows of one day, given by a quantity on distinct dimensions.\<close>

definition day_rows :: "date \<Rightarrow> (dims \<Rightarrow> int) \<Rightarrow> dims list \<Rightarrow> snapshots" where
  "day_rows t f ks = map (\<lambda>k. snap_row t k (f k)) ks"

lemma insert_day:
  assumes "grains_ok sns" and "lot_warehouses_ok d" and "distinct ks" and "\<forall>k \<in> set ks. dims_in_lots d k"
  shows "insert_snapshots d (day_rows t f ks) (delete_day t sns) = Inr (delete_day t sns @ day_rows t f ks)"
proof -
  have "sn_grain ` set (delete_day t sns) \<inter> sn_grain ` set (day_rows t f ks) = {}"
    by (auto simp: delete_day_def day_rows_def sn_grain_def)
  moreover have "distinct (map sn_grain (delete_day t sns))"
    using assms(1) by (simp add: grains_ok_def delete_day_def distinct_map_filter)
  moreover have "distinct (map sn_grain (day_rows t f ks))"
    using assms(3) by (simp add: day_rows_def comp_def distinct_map inj_on_def)
  ultimately have "distinct (map sn_grain (delete_day t sns @ day_rows t f ks))"
    by (simp only: map_append distinct_append set_map)
  then show ?thesis
    using assms(4) dims_warehouse [OF assms(2)] unfolding insert_snapshots_Inr by (simp add: day_rows_def)
qed

lemma day_rows_qty: "distinct ks \<Longrightarrow> snap_qty (day_rows t f ks) t k = (if k \<in> set ks then f k else 0)"
  unfolding snap_qty_def day_rows_def by (induction ks) auto

lemma delete_day_qty: "snap_qty (delete_day t sns) t' k = (if t' = t then 0 else snap_qty sns t' k)"
  unfolding snap_qty_def delete_day_def by (induction sns) auto

lemma day_rows_other: "t' \<noteq> t \<Longrightarrow> snap_qty (day_rows t f ks) t' k = 0"
  unfolding snap_qty_def day_rows_def by (induction ks) auto

lemma snap_qty_append: "snap_qty (a @ b) t k = snap_qty a t k + snap_qty b t k"
  by (simp add: snap_qty_def)

lemma rebuilt_qty:
  assumes "distinct ks" and "\<And>k. k \<notin> set ks \<Longrightarrow> f k = 0"
  shows "snap_qty (delete_day t sns @ day_rows t f ks) t' k = (if t' = t then f k else snap_qty sns t' k)"
  using assms by (simp add: snap_qty_append delete_day_qty day_rows_qty day_rows_other)

section \<open>From the balances\<close>

lemma rebuild_today:
  assumes ok: "books_ok d" and wh: "lot_warehouses_ok d" and g: "grains_ok sns"
  shows "rebuild_snapshot_today_from_lot d t sns
    = Inr (delete_day t sns @ day_rows t (on_hand d) (map st_dims (db_stocks_lot d)))"
proof -
  have di: "distinct (map st_dims (db_stocks_lot d))" and
    lots: "\<forall>k \<in> set (map st_dims (db_stocks_lot d)). dims_in_lots d k" using ok by (auto simp: books_defs)
  have "rebuild_snapshot_today_from_lot d t sns
      = insert_snapshots d (day_rows t (on_hand d) (map st_dims (db_stocks_lot d))) (delete_day t sns)"
    using di by (simp add: rebuild_snapshot_today_from_lot_def day_rows_def distinct_remdups_id)
  also have "\<dots> = Inr (delete_day t sns @ day_rows t (on_hand d) (map st_dims (db_stocks_lot d)))"
    by (rule insert_day [OF g wh di lots])
  finally show ?thesis .
qed

lemma rebuilt_today_qty:
  assumes "books_ok d"
  shows "snap_qty (delete_day t sns @ day_rows t (on_hand d) (map st_dims (db_stocks_lot d))) t' k
    = (if t' = t then on_hand d k else snap_qty sns t' k)"
  by (rule rebuilt_qty) (use assms on_hand_absent in \<open>auto simp: books_defs\<close>)

lemma rebuilt_today_total:
  assumes "books_ok d"
  shows "snap_total t w i (delete_day t sns @ day_rows t (on_hand d) (map st_dims (db_stocks_lot d))) = item_total w i d"
proof -
  have "snap_total t w i (delete_day t sns) = 0"
    unfolding snap_total_def delete_day_def by (induction sns) auto
  moreover have "snap_total t w i (day_rows t (on_hand d) (map st_dims ss))
      = sum_where st_qty (\<lambda>s. st_warehouse_id s = w \<and> st_item_id s = i) ss"
    if "set ss \<subseteq> set (db_stocks_lot d)" for ss
    using that
  proof (induction ss)
    case (Cons s ss)
    then have "on_hand d (st_dims s) = st_qty s" using on_hand_row [of d s] assms by (simp add: books_defs)
    with Cons show ?case by (simp add: snap_total_def day_rows_def) (auto simp: st_dims_def)
  qed (simp add: snap_total_def day_rows_def)
  ultimately show ?thesis by (simp add: snap_total_def item_total_def)
qed

section \<open>From the ledger\<close>

lemma ledger_sum_all:
  assumes "\<And>r. r \<in> set (db_stock_ledger d) \<Longrightarrow> P r"
  shows "ledger_sum P d k = balance d k"
  unfolding ledger_sum_def balance_def by (rule sum_where_cong) (use assms in auto)

lemma ledger_groups_all:
  assumes "\<And>r. r \<in> set (db_stock_ledger d) \<Longrightarrow> P r"
  shows "set (ledger_groups P d) = led_dims ` set (db_stock_ledger d)"
  using assms by (auto simp: ledger_groups_def)

lemma ledger_group_absent: "k \<notin> led_dims ` set (db_stock_ledger d) \<Longrightarrow> balance d k = 0"
  unfolding balance_def by (rule sum_where_none) auto

lemma ledger_dims_in_lots:
  assumes "books_ok d" and "r \<in> set (db_stock_ledger d)" shows "dims_in_lots d (led_dims r)"
proof -
  obtain s where "s \<in> set (db_stocks_lot d)" "st_dims s = led_dims r"
    using assms by (auto simp: books_ok_def ledger_ok_def slot_exists_def)
  then show ?thesis using assms(1) by (metis books_ok_def stocks_ok_def)
qed

lemma rebuild_ledger:
  assumes ok: "books_ok d" and wh: "lot_warehouses_ok d" and g: "grains_ok sns"
    and past: "\<And>r. r \<in> set (db_stock_ledger d) \<Longrightarrow> led_occurred_at r < c"
  obtains ks where "distinct ks" and "\<And>k. k \<notin> set ks \<Longrightarrow> balance d k = 0"
    and "snapshot_from_ledger d t c sns = Inr (delete_day t sns @ day_rows t (balance d) ks)"
proof
  let ?P = "\<lambda>r. led_occurred_at r < c"
  let ?ks = "filter (\<lambda>k. balance d k \<noteq> 0) (ledger_groups ?P d)"
  have sum: "ledger_sum ?P d = balance d" using ledger_sum_all [of d ?P] past by auto
  show di: "distinct ?ks" by (simp add: ledger_groups_def)
  show "balance d k = 0" if "k \<notin> set ?ks" for k
    using that ledger_group_absent [of k d] ledger_groups_all [of d ?P] past by auto
  have "\<forall>k \<in> set ?ks. dims_in_lots d k"
    using ledger_dims_in_lots [OF ok] by (auto simp: ledger_groups_def)
  from insert_day [OF g wh di this, of t "balance d"]
  show "snapshot_from_ledger d t c sns = Inr (delete_day t sns @ day_rows t (balance d) ?ks)"
    by (simp add: snapshot_from_ledger_def sum day_rows_def)
qed

section \<open>Anomalies\<close>

lemma has_lot_dims: "dims_in_lots d k \<Longrightarrow> has_lot d (snd (snd k))"
  by (auto simp: dims_in_lots_def has_lot_def lot_dims_def)

lemma anomalies_none: "(\<And>k. k \<in> set ks \<Longrightarrow> f k = g k) \<Longrightarrow> anomalies_of d ks f g = []"
  by (simp add: anomalies_of_def filter_empty_conv)

lemma detect_nothing:
  assumes ok: "books_ok d" and past: "\<And>r. r \<in> set (db_stock_ledger d) \<Longrightarrow> led_occurred_at r \<le> now"
    and snap: "\<And>k. snap_qty sns (date_of now) k = on_hand d k"
    and fks: "\<And>r. r \<in> set sns \<Longrightarrow> sn_date r = date_of now \<Longrightarrow> dims_in_lots d (sn_dims r)"
  shows "detect_anomalies now d sns
    = \<lparr>ledger_vs_stocks_lot = [], ledger_vs_snapshot = [], stocks_lot_vs_snapshot = []\<rparr>"
proof -
  let ?P = "upto_cut d now"
  have P: "?P r" if "r \<in> set (db_stock_ledger d)" for r
    using that past has_lot_dims [OF ledger_dims_in_lots [OF ok that]] by (simp add: upto_cut_def led_dims_def)
  have L: "(if k \<in> set (ledger_groups ?P d) then ledger_sum ?P d k else 0) = on_hand d k" for k
    using ledger_sum_all [of d ?P k] ledger_groups_all [of d ?P] P ledger_group_absent [of k d] balancedD [OF ok, of k]
    by auto
  have "has_lot d (st_lot_id s)" if "s \<in> set (db_stocks_lot d)" for s
    using ok that has_lot_dims [of d "st_dims s"] by (auto simp: books_defs st_dims_def)
  then have S: "(if k \<in> set (stock_groups d) then on_hand d k else 0) = on_hand d k" for k
    using on_hand_absent [of k d] by (auto simp: stock_groups_def)
  have "has_lot d (sn_lot_id r)" if "r \<in> set sns" "sn_date r = date_of now" for r
    using has_lot_dims [OF fks [OF that]] by (simp add: sn_dims_def)
  then have "set (snap_groups d (date_of now) sns) = sn_dims ` {r \<in> set sns. sn_date r = date_of now}"
    by (auto simp: snap_groups_def)
  moreover have "snap_qty sns (date_of now) k = 0" if "k \<notin> sn_dims ` {r \<in> set sns. sn_date r = date_of now}" for k
    unfolding snap_qty_def by (rule sum_where_none) (use that in auto)
  ultimately have N: "(if k \<in> set (snap_groups d (date_of now) sns) then snap_qty sns (date_of now) k else 0) = on_hand d k" for k
    using snap by auto
  show ?thesis by (simp add: detect_anomalies_def L S N anomalies_none)
qed

section \<open>The check of a commit\<close>

definition effect_recorded :: "int \<Rightarrow> string \<Rightarrow> db \<Rightarrow> effect \<Rightarrow> bool" where
  "effect_recorded w ref d e \<longleftrightarrow> (\<exists>lid. effect_lot w d e = Inr lid \<and> effect_delta w ref d e lid = Some (ef_qty e))"

lemma effects_in_ledger_True:
  "effects_in_ledger w ref d es = Inr True \<longleftrightarrow> (\<forall>e \<in> set es. effect_recorded w ref d e)"
proof (induction es)
  case (Cons e es)
  show ?case
  proof (cases "effect_lot w d e")
    case (Inr lid)
    with Cons show ?thesis
      by (cases "effects_in_ledger w ref d es") (auto simp: effect_recorded_def)
  qed (simp add: effect_recorded_def)
qed simp

lemma verify_iff:
  "verify_commit_three_books w ref es at d sns = Inr () \<longleftrightarrow>
     (\<forall>e \<in> set es. effect_recorded w ref d e) \<and>
     (\<forall>e \<in> set es. item_total w (ef_item_id e) d = snap_total (date_of at) w (ef_item_id e) sns)"
  by (cases "es = []")
    (auto simp: verify_commit_three_books_def res_simps effects_in_ledger_True [symmetric] simp del: effects_in_ledger.simps)

lemma enforce_iff:
  assumes "books_ok d" and "lot_warehouses_ok d" and "grains_ok sns" and "date_of at = date_of now"
  shows "(\<exists>s'. enforce_three_books view now ref es at d sns = Inr s')
    \<longleftrightarrow> (\<forall>e \<in> set es. effect_recorded (ef_warehouse_id e) ref d e)"
proof -
  let ?s = "delete_day (date_of now) sns @ day_rows (date_of now) (on_hand d) (map st_dims (db_stocks_lot d))"
  have total: "snap_total (date_of now) w i ?s = item_total w i d" for w i by (rule rebuilt_today_total [OF assms(1)])
  have "(\<exists>s'. enforce_three_books view now ref es at d sns = Inr s') \<longleftrightarrow>
      (\<forall>w \<in> set (map ef_warehouse_id es).
         verify_commit_three_books w ref (filter (\<lambda>e. ef_warehouse_id e = w) es) at d ?s = Inr ())"
    by (cases "es = []")
      (simp_all add: enforce_three_books_def run_snapshot_def rebuild_today [OF assms(1-3)] Let_def bindR_Inr check_all_Inr)
  also have "\<dots> \<longleftrightarrow> (\<forall>e \<in> set es. effect_recorded (ef_warehouse_id e) ref d e)"
    unfolding verify_iff assms(4) total by auto
  finally show ?thesis .
qed

section \<open>Claims\<close>

text \<open>
  Claim C24. Both snapshots of the present day agree, provided that no ledger row is dated after the present moment: the
  snapshot that \<open>run_snapshot\<close> takes from the balances and the one that the pipeline rebuilds from the
  ledger both go through, hold for every lot the quantity on hand, and leave the other days alone; the
  pipeline finds no anomaly. (A movement with a later date, which requests may carry, makes them differ.)
\<close>

theorem snapshots_agree:
  assumes "books_ok d" and "lot_warehouses_ok d" and "grains_ok sns" and "cut_to (date_of now) = Inr c" and "now < c"
    and "\<forall>r \<in> set (db_stock_ledger d). led_occurred_at r \<le> now"
  shows "\<exists>summary s1 snap s2.
     run_snapshot view now d sns = Inr (summary, s1) \<and> snapshot_pipeline now d sns = Inr (snap, False, s2) \<and>
     (\<forall>k. snap_qty s1 (date_of now) k = on_hand d k \<and> snap_qty s2 (date_of now) k = on_hand d k) \<and>
     (\<forall>t k. t \<noteq> date_of now \<longrightarrow> snap_qty s1 t k = snap_qty sns t k \<and> snap_qty s2 t k = snap_qty sns t k)"
proof -
  let ?t = "date_of now"
  let ?s1 = "delete_day ?t sns @ day_rows ?t (on_hand d) (map st_dims (db_stocks_lot d))"
  have past: "led_occurred_at r < c" if "r \<in> set (db_stock_ledger d)" for r using assms(5,6) that by auto
  obtain ks where ks: "distinct ks" "\<And>k. k \<notin> set ks \<Longrightarrow> balance d k = 0"
    and led: "snapshot_from_ledger d ?t c sns = Inr (delete_day ?t sns @ day_rows ?t (balance d) ks)"
    using rebuild_ledger [OF assms(1-3) past, where t = ?t] by metis
  let ?s2 = "delete_day ?t sns @ day_rows ?t (balance d) ks"
  have q1: "snap_qty ?s1 t k = (if t = ?t then on_hand d k else snap_qty sns t k)" for t k
    by (rule rebuilt_today_qty [OF assms(1)])
  have q2: "snap_qty ?s2 t k = (if t = ?t then on_hand d k else snap_qty sns t k)" for t k
    using rebuilt_qty [OF ks(1), where f = "balance d" and t = ?t and sns = sns and t' = t and k = k] ks(2)
      balancedD [OF assms(1), of k] by simp
  have fks: "dims_in_lots d (sn_dims r)" if "r \<in> set ?s2" "sn_date r = ?t" for r
  proof -
    from led have "\<forall>r \<in> set (day_rows ?t (balance d) ks). dims_in_lots d (sn_dims r)"
      unfolding snapshot_from_ledger_def Let_def by (simp add: insert_snapshots_Inr)
    with that show ?thesis by (auto simp: delete_day_def)
  qed
  have "detect_anomalies now d ?s2 = \<lparr>ledger_vs_stocks_lot = [], ledger_vs_snapshot = [], stocks_lot_vs_snapshot = []\<rparr>"
    by (rule detect_nothing [OF assms(1) _ _ fks]) (use assms(6) q2 in auto)
  then have "ledger_vs_snapshot (detect_anomalies now d ?s2) = []" by simp
  then have "\<exists>snap. snapshot_pipeline now d sns = Inr (snap, False, ?s2)"
    by (simp add: snapshot_pipeline_def rebuild_snapshot_from_ledger_def assms(4) led Let_def)
  moreover have "\<exists>summary. run_snapshot view now d sns = Inr (summary, ?s1)"
    by (simp add: run_snapshot_def rebuild_today [OF assms(1-3)] Let_def)
  ultimately show ?thesis using q1 q2 by (metis (no_types, lifting))
qed

definition sample_now :: datetime where
  "sample_now = 739000 * day_us + 5"

theorem snapshots_agree_witness:
  "\<exists>summary s1. run_snapshot (\<lambda>_ _. None) sample_now sample_db [] = Inr (summary, s1) \<and>
     snap_qty s1 (date_of sample_now) (1, 1, 1) = 10 \<and> snap_qty s1 (date_of sample_now) (1, 2, 2) = 4"
proof -
  have "lot_warehouses_ok sample_db" "grains_ok []" "cut_to (date_of sample_now) = Inr (739001 * day_us)"
    "sample_now < 739001 * day_us" "\<forall>r \<in> set (db_stock_ledger sample_db). led_occurred_at r \<le> sample_now"
    "on_hand sample_db (1, 1, 1) = 10" "on_hand sample_db (1, 2, 2) = 4"
    by code_simp+
  with snapshots_agree [OF sample_books_ok, of "[]" sample_now _ "\<lambda>_ _. None"] show ?thesis by metis
qed

text \<open>
  Claim C25. The check of the three books is exact on the day of the commit: over consistent books,
  when the commit is dated on the present day, it passes exactly when every reported effect stands in
  the ledger, under its reference, line, lot and reason, with its quantity.
\<close>

theorem three_books_gate_exact:
  assumes "books_ok d" and "lot_warehouses_ok d" and "grains_ok sns" and "date_of at = date_of now"
  shows "(\<exists>s'. enforce_three_books view now ref es at d sns = Inr s')
    \<longleftrightarrow> (\<forall>e \<in> set es. effect_recorded (ef_warehouse_id e) ref d e)"
  by (rule enforce_iff [OF assms])

definition sample_effect :: effect where
  "sample_effect = \<lparr>ef_warehouse_id = 1, ef_item_id = 1, ef_lot_id = Some 1, ef_batch_code = None, ef_qty = 10,
     ef_ref_line = 1, ef_reason = Some ''RECEIPT''\<rparr>"

theorem three_books_gate_exact_witness:
  "\<exists>s'. enforce_three_books (\<lambda>_ _. None) sample_now ''IN-1'' [sample_effect] sample_now sample_db [] = Inr s'"
proof -
  have "effect_lot 1 sample_db sample_effect = Inr 1" "effect_delta 1 ''IN-1'' sample_db sample_effect 1 = Some (ef_qty sample_effect)"
    "ef_warehouse_id sample_effect = 1" by code_simp+
  then have "effect_recorded (ef_warehouse_id sample_effect) ''IN-1'' sample_db sample_effect" by (simp add: effect_recorded_def)
  moreover have "lot_warehouses_ok sample_db" "grains_ok []" by code_simp+
  ultimately show ?thesis
    using three_books_gate_exact [OF sample_books_ok, of "[]" sample_now sample_now "\<lambda>_ _. None" "''IN-1''" "[sample_effect]"]
    by simp
qed

text \<open>
  A commit dated on another day is compared with the snapshot of that day, which \<open>run_snapshot\<close> does
  not take: it is refused when that day has no snapshot and there is stock.
\<close>

lemma enforce_other_day:
  assumes "books_ok d" and "lot_warehouses_ok d" and "grains_ok sns" and "date_of at \<noteq> date_of now"
    and "e \<in> set es" and "snap_total (date_of at) (ef_warehouse_id e) (ef_item_id e) sns = 0"
    and "item_total (ef_warehouse_id e) (ef_item_id e) d \<noteq> 0"
  shows "\<exists>err. enforce_three_books view now ref es at d sns = Inl err"
proof (rule refusedI)
  let ?s = "delete_day (date_of now) sns @ day_rows (date_of now) (on_hand d) (map st_dims (db_stocks_lot d))"
  fix s' assume "enforce_three_books view now ref es at d sns = Inr s'"
  then have "verify_commit_three_books (ef_warehouse_id e) ref (filter (\<lambda>x. ef_warehouse_id x = ef_warehouse_id e) es) at d ?s = Inr ()"
    using assms(5) by (auto simp: enforce_three_books_def run_snapshot_def rebuild_today [OF assms(1-3)] Let_def bindR_Inr check_all_Inr
        split: if_splits)
  then have "item_total (ef_warehouse_id e) (ef_item_id e) d = snap_total (date_of at) (ef_warehouse_id e) (ef_item_id e) ?s"
    using assms(5) unfolding verify_iff by auto
  moreover have "snap_total (date_of at) w i (delete_day (date_of now) sns) = snap_total (date_of at) w i sns" for w i
    unfolding snap_total_def delete_day_def using assms(4) by (induction sns) auto
  moreover have "snap_total (date_of at) w i (day_rows (date_of now) f ks) = 0" for w i f ks
    unfolding snap_total_def day_rows_def using assms(4) by (induction ks) auto
  ultimately show False using assms(6,7) by (simp add: snap_total_def)
qed

end
