(* ===== verification/Return_Task.thy ===== *)
theory Return_Task
  imports Snapshot_Laws Line_Booking
begin

text \<open>
  Return tasks, \<open>app/wms/inventory_adjustment/return_inbound\<close>
  (\<open>models/return_task.py\<close>, \<open>services/return_task_service_impl.py\<close>, \<open>services/return_task_service.py\<close>):
  goods that an order has shipped come back into the lots they left from. A task is created from the
  shipment rows of the ledger, quantities are received against its lines, and the commit books them
  and passes the check of the three books. The tables of the component stand beside the database in
  the record \<open>return_db\<close>. Lines are read in the order of their ids; the columns \<open>remark\<close>, \<open>item_name\<close>,
  \<open>order_line_id\<close> and the time stamps of the rows are left out.
\<close>

section \<open>Tables\<close>

datatype return_status = RT_DRAFT | RT_OPEN | RT_COMMITTED | RT_CANCELLED

record return_task =
  rt_id :: int
  rt_order_id :: string
  rt_warehouse_id :: int
  rt_status :: return_status

record return_line =
  rtl_id :: int
  rtl_task_id :: int
  rtl_item_id :: int
  rtl_lot_id :: int
  rtl_lot_code_snapshot :: string
  rtl_expected_qty :: "int option"
  rtl_picked_qty :: int
  rtl_committed_qty :: "int option"
  rtl_status :: return_status

record return_db =
  rd_core :: db
  rd_snapshots :: snapshots
  rd_tasks :: "return_task list"
  rd_lines :: "return_line list"

type_synonym 'a return_action = "return_db \<Rightarrow> ('a \<times> return_db) result"

definition task_lines :: "int \<Rightarrow> return_db \<Rightarrow> return_line list" where
  "task_lines tid s = filter (\<lambda>l. rtl_task_id l = tid) (rd_lines s)"

definition get_with_lines :: "int \<Rightarrow> return_db \<Rightarrow> (return_task \<times> return_line list) result" where
  "get_with_lines tid s =
     (case find (\<lambda>t. rt_id t = tid) (rd_tasks s) of
        None \<Rightarrow> Inl (ValueError ''return_task not found'')
      | Some t \<Rightarrow> Inr (t, task_lines tid s))"

section \<open>What an order has shipped\<close>

record shipped_line =
  sh_item_id :: int
  sh_warehouse_id :: int
  sh_lot_id :: int
  sh_lot_code_snapshot :: "string option"
  sh_shipped_qty :: int

definition ship_out_reasons :: "string list" where
  "ship_out_reasons = [''SHIPMENT'', ''OUTBOUND_SHIP'']"

definition ship_rows :: "string \<Rightarrow> db \<Rightarrow> ledger_row list" where
  "ship_rows order_ref d =
     filter (\<lambda>r. led_ref r = order_ref \<and> led_delta r < 0 \<and> py_upper (py_strip (led_reason r)) \<in> set ship_out_reasons)
       (db_stock_ledger d)"

text \<open>The dictionary \<open>agg\<close> keeps the order in which its keys were first met.\<close>

definition load_shipped_summary :: "string \<Rightarrow> db \<Rightarrow> shipped_line list" where
  "load_shipped_summary order_ref d =
     filter (\<lambda>x. 0 < sh_shipped_qty x)
       (map (\<lambda>k. \<lparr>sh_item_id = fst (snd k), sh_warehouse_id = fst k, sh_lot_id = snd (snd k),
                   sh_lot_code_snapshot = code_of_lot d (snd (snd k)),
                   sh_shipped_qty = sum_where (\<lambda>r. - led_delta r) (\<lambda>r. led_dims r = k) (ship_rows order_ref d)\<rparr>)
          (rev (remdups (rev (map led_dims (ship_rows order_ref d))))))"

section \<open>create\_for\_order\<close>

definition open_task :: "string \<Rightarrow> return_db \<Rightarrow> return_task option" where
  "open_task order_ref s =
     (case sort_key rt_id (filter (\<lambda>t. rt_order_id t = order_ref \<and> rt_status t \<noteq> RT_COMMITTED) (rd_tasks s)) of
        [] \<Rightarrow> None
      | ts \<Rightarrow> Some (last ts))"

definition insert_return_line :: "int \<Rightarrow> shipped_line \<Rightarrow> unit return_action" where
  "insert_return_line tid x s =
     bindR (require_some (norm_lot_code (sh_lot_code_snapshot x))
        (ValueError ''return_task_lot_code_snapshot_required_for_display'')) (\<lambda>code.
     bindR (ensure (has_lot (rd_core s) (sh_lot_id x)) (IntegrityError ''fk_return_task_lines_lot'')) (\<lambda>_.
     Inr ((), s\<lparr>rd_lines := rd_lines s @
       [\<lparr>rtl_id = next_id (map rtl_id (rd_lines s)), rtl_task_id = tid, rtl_item_id = sh_item_id x,
         rtl_lot_id = sh_lot_id x, rtl_lot_code_snapshot = code, rtl_expected_qty = Some (sh_shipped_qty x),
         rtl_picked_qty = 0, rtl_committed_qty = Some 0, rtl_status = RT_OPEN\<rparr>]\<rparr>)))"

definition create_for_order :: "string \<Rightarrow> int option \<Rightarrow> bool \<Rightarrow> (return_task \<times> return_line list) return_action" where
  "create_for_order order_id warehouse_id include_zero_shipped s =
     (let order_ref = py_strip order_id
      in bindR (ensure (order_ref \<noteq> []) (ValueError ''order_id(order_ref) is required'')) (\<lambda>_.
         case open_task order_ref s of
           Some t \<Rightarrow> Inr ((t, task_lines (rt_id t) s), s)
         | None \<Rightarrow>
             (let all = load_shipped_summary order_ref (rd_core s);
                  here = (case warehouse_id of None \<Rightarrow> all | Some w \<Rightarrow> filter (\<lambda>x. sh_warehouse_id x = w) all);
                  shipped = (if include_zero_shipped then here else filter (\<lambda>x. 0 < sh_shipped_qty x) here)
              in case shipped of
                   [] \<Rightarrow> Inl (ValueError ''no shippable ledger facts for return'')
                 | x # _ \<Rightarrow>
                     bindR (ensure (\<forall>y \<in> set shipped. sh_warehouse_id y = sh_warehouse_id x) (ValueError ''multi-warehouse'')) (\<lambda>_.
                     (let t = \<lparr>rt_id = next_id (map rt_id (rd_tasks s)), rt_order_id = order_ref,
                               rt_warehouse_id = sh_warehouse_id x, rt_status = RT_OPEN\<rparr>
                      in bindR (map_loop (insert_return_line (rt_id t)) shipped (s\<lparr>rd_tasks := rd_tasks s @ [t]\<rparr>)) (\<lambda>(_, s').
                         bindR (get_with_lines (rt_id t) s') (\<lambda>r. Inr (r, s'))))))))"

section \<open>record\_receive\<close>

definition expected_of :: "return_line \<Rightarrow> int" where
  "expected_of l = (case rtl_expected_qty l of None \<Rightarrow> 0 | Some q \<Rightarrow> q)"

definition set_line :: "int \<Rightarrow> (return_line \<Rightarrow> return_line) \<Rightarrow> return_db \<Rightarrow> return_db" where
  "set_line lid f s = s\<lparr>rd_lines := map (\<lambda>l. if rtl_id l = lid then f l else l) (rd_lines s)\<rparr>"

definition record_receive :: "int \<Rightarrow> int \<Rightarrow> int \<Rightarrow> (return_task \<times> return_line list) return_action" where
  "record_receive tid item qty s =
     bindR (get_with_lines tid s) (\<lambda>(t, lines).
     if rt_status t = RT_COMMITTED then Inr ((t, lines), s)
     else bindR (require_some (find (\<lambda>l. rtl_item_id l = item) lines) (ValueError ''task_line not found'')) (\<lambda>target.
          (let next_qty = rtl_picked_qty target + qty
           in bindR (ensure (0 \<le> next_qty) (ValueError ''picked_qty cannot be < 0'')) (\<lambda>_.
              bindR (ensure (next_qty \<le> expected_of target) (ValueError ''picked_qty > expected_qty'')) (\<lambda>_.
              (let s' = set_line (rtl_id target) (\<lambda>l. l\<lparr>rtl_picked_qty := next_qty\<rparr>) s
               in bindR (get_with_lines tid s') (\<lambda>r. Inr (r, s'))))))))"

section \<open>commit\<close>

definition return_args :: "return_task \<Rightarrow> string option \<Rightarrow> datetime \<Rightarrow> db \<Rightarrow> return_line \<Rightarrow> adjust_args" where
  "return_args t trace_id ts d l =
     (let snap = find (\<lambda>x. lot_id x = rtl_lot_id l) (db_lots d)
      in \<lparr>aa_item_id = rtl_item_id l, aa_warehouse_id = rt_warehouse_id t, aa_lot_id = Some (rtl_lot_id l),
          aa_delta = rtl_picked_qty l, aa_reason = ReasonMovement MovementType_RETURN, aa_ref = rt_order_id t,
          aa_ref_line = PInt (rtl_id l), aa_occurred_at = Some ts,
          aa_meta = Some [(''sub_reason'', PStr ''RETURN_RECEIPT'')], aa_lot_code = None,
          aa_production_date = (case snap of None \<Rightarrow> None | Some x \<Rightarrow> lot_production_date x),
          aa_expiry_date = (case snap of None \<Rightarrow> None | Some x \<Rightarrow> lot_expiry_date x),
          aa_trace_id = trace_id\<rparr>)"

definition check_return_lot :: "return_task \<Rightarrow> return_line \<Rightarrow> db \<Rightarrow> unit result" where
  "check_return_lot t l d =
     bindR (ensure (0 < rtl_lot_id l) (ValueError ''return_task_line_lot_id_required'')) (\<lambda>_.
     bindR (require_some (find (\<lambda>x. lot_id x = rtl_lot_id l) (db_lots d))
        (ValueError ''return_task_line_lot_not_found'')) (\<lambda>snap.
     bindR (ensure (lot_warehouse_id snap = rt_warehouse_id t) (ValueError ''return_task_line_lot_warehouse_mismatch'')) (\<lambda>_.
     bindR (ensure (lot_item_id snap = rtl_item_id l) (ValueError ''return_task_line_lot_item_mismatch'')) (\<lambda>_.
     ensure (norm_lot_code (Some (rtl_lot_code_snapshot l)) = norm_lot_code (lot_code snap))
       (ValueError ''return_task_line_lot_code_snapshot_mismatch'')))))"

definition return_effect :: "return_task \<Rightarrow> return_line \<Rightarrow> adjust_result \<Rightarrow> effect" where
  "return_effect t l r =
     \<lparr>ef_warehouse_id = rt_warehouse_id t, ef_item_id = rtl_item_id l,
      ef_lot_id = Some (case r of AdjustApplied x \<Rightarrow> if adj_lot_id x = 0 then rtl_lot_id l else adj_lot_id x
                        | AdjustSkipped \<Rightarrow> rtl_lot_id l),
      ef_batch_code = None, ef_qty = rtl_picked_qty l, ef_ref_line = rtl_id l,
      ef_reason = Some (case r of AdjustApplied x \<Rightarrow> adj_reason x | AdjustSkipped \<Rightarrow> [])\<rparr>"

definition commit_return_line ::
  "policy_reader \<Rightarrow> datetime \<Rightarrow> return_task \<Rightarrow> string option \<Rightarrow> datetime \<Rightarrow> return_line \<Rightarrow> effect return_action" where
  "commit_return_line pol now t trace_id ts l s =
     bindR (check_return_lot t l (rd_core s)) (\<lambda>_.
     bindR (adjust_lot pol now (return_args t trace_id ts (rd_core s) l) (rd_core s)) (\<lambda>(r, d').
     Inr (return_effect t l r,
          set_line (rtl_id l) (\<lambda>x. x\<lparr>rtl_committed_qty := Some (rtl_picked_qty l), rtl_status := RT_COMMITTED\<rparr>)
            (s\<lparr>rd_core := d'\<rparr>))))"

text \<open>Lines on which nothing was received are skipped.\<close>

definition received_lines :: "return_line list \<Rightarrow> return_line list" where
  "received_lines ls = filter (\<lambda>l. 0 < rtl_picked_qty l) ls"

definition commit_return ::
  "policy_reader \<Rightarrow> (db \<Rightarrow> snapshots \<Rightarrow> (string \<times> int) list option) \<Rightarrow> datetime \<Rightarrow> int \<Rightarrow> string option \<Rightarrow> datetime option
   \<Rightarrow> (return_task \<times> return_line list) return_action" where
  "commit_return pol view now tid trace_id occurred_at s =
     bindR (get_with_lines tid s) (\<lambda>(t, lines).
     if rt_status t = RT_COMMITTED then Inr ((t, lines), s)
     else (let ts = (case occurred_at of Some x \<Rightarrow> x | None \<Rightarrow> now)
           in bindR (map_loop (commit_return_line pol now t trace_id ts) (received_lines lines) s) (\<lambda>(effects, s1).
              (let s2 = s1\<lparr>rd_tasks := map (\<lambda>x. if rt_id x = tid then x\<lparr>rt_status := RT_COMMITTED\<rparr> else x) (rd_tasks s1)\<rparr>
               in bindR (enforce_three_books view now (rt_order_id t) effects ts (rd_core s2) (rd_snapshots s2)) (\<lambda>sns.
                  (let s3 = s2\<lparr>rd_snapshots := sns\<rparr>
                   in bindR (get_with_lines tid s3) (\<lambda>r. Inr (r, s3))))))))"

end
