(* ===== verification/Return_Laws.thy ===== *)
theory Return_Laws
  imports Return_Task Wms_System
begin

text \<open>
  The laws of the return tasks: what a commit books, that received quantities stay within what the
  order has shipped, and that committed tasks are final, over every sequence of return operations
  mixed with the operations of the rest of the system.
\<close>

section \<open>One line\<close>

definition return_dims :: "return_task \<Rightarrow> return_line \<Rightarrow> dims" where
  "return_dims t l = (rt_warehouse_id t, rtl_item_id l, rtl_lot_id l)"

definition return_key :: "return_task \<Rightarrow> return_line \<Rightarrow> string \<times> string \<times> int \<times> dims" where
  "return_key t l = (''RECEIPT'', rt_order_id t, rtl_id l, return_dims t l)"

definition committed_line :: "return_line \<Rightarrow> return_line" where
  "committed_line l = l\<lparr>rtl_committed_qty := Some (rtl_picked_qty l), rtl_status := RT_COMMITTED\<rparr>"

lemma return_args_simps [simp]:
  "aa_item_id (return_args t tr ts d l) = rtl_item_id l" "aa_warehouse_id (return_args t tr ts d l) = rt_warehouse_id t"
  "aa_lot_id (return_args t tr ts d l) = Some (rtl_lot_id l)" "aa_delta (return_args t tr ts d l) = rtl_picked_qty l"
  "aa_ref (return_args t tr ts d l) = rt_order_id t" "aa_ref_line (return_args t tr ts d l) = PInt (rtl_id l)"
  "reason_value (aa_reason (return_args t tr ts d l)) = ''RECEIPT''" "aa_lot_code (return_args t tr ts d l) = None"
  "aa_meta (return_args t tr ts d l) = Some [(''sub_reason'', PStr ''RETURN_RECEIPT'')]"
  "aa_occurred_at (return_args t tr ts d l) = Some ts"
  by (simp_all add: return_args_def Let_def reason_value_def movement_value_def)

lemma commit_line_Inr:
  assumes "commit_return_line pol now t tr ts l s = Inr (e, s')"
  obtains r d' where "adjust_lot pol now (return_args t tr ts (rd_core s) l) (rd_core s) = Inr (r, d')"
    and "e = return_effect t l r" and "check_return_lot t l (rd_core s) = Inr ()"
    and "s' = set_line (rtl_id l) (\<lambda>x. x\<lparr>rtl_committed_qty := Some (rtl_picked_qty l), rtl_status := RT_COMMITTED\<rparr>) (s\<lparr>rd_core := d'\<rparr>)"
  using assms by (auto simp: commit_return_line_def res_simps)

lemma set_line_simps [simp]:
  "rd_core (set_line i f s) = rd_core s" "rd_tasks (set_line i f s) = rd_tasks s"
  "rd_snapshots (set_line i f s) = rd_snapshots s"
  "rd_lines (set_line i f s) = map (\<lambda>l. if rtl_id l = i then f l else l) (rd_lines s)"
  by (simp_all add: set_line_def)

text \<open>A line whose ledger key is free is booked.\<close>

lemma return_line_booked:
  assumes ok: "books_ok d" and run: "adjust_lot pol now (return_args t tr ts d0 l) d = Inr (r, d')"
    and pos: "0 < rtl_picked_qty l" and free: "return_key t l \<notin> set (map led_key (db_stock_ledger d))"
  obtains x row where "r = AdjustApplied x" and "adj_lot_id x = rtl_lot_id l" and "adj_reason x = ''RECEIPT''"
    and "books_ok d'" and "\<And>k. on_hand d' k = on_hand d k + (if k = return_dims t l then rtl_picked_qty l else 0)"
    and "db_stock_ledger d' = db_stock_ledger d @ [row]" and "led_key row = return_key t l" and "led_delta row = rtl_picked_qty l"
proof -
  have "r \<noteq> AdjustSkipped"
  proof
    assume "r = AdjustSkipped"
    with run have "adjust_lot pol now (return_args t tr ts d0 l) d = Inr (AdjustSkipped, d')" by simp
    then show False
      by (rule adjust_lot_not_skipped) (use pos free in \<open>auto simp: return_key_def return_dims_def\<close>)
  qed
  then obtain x where r: "r = AdjustApplied x" by (cases r) auto
  with run have ap: "adjust_lot pol now (return_args t tr ts d0 l) d = Inr (AdjustApplied x, d')" by simp
  have x: "adj_lot_id x = rtl_lot_id l" "adj_delta x = rtl_picked_qty l" "adj_ref_line x = rtl_id l"
    using adjust_applied_args [OF ap] by simp_all
  then have dims: "adjust_dims (return_args t tr ts d0 l) x = return_dims t l" by (simp add: adjust_dims_def return_dims_def)
  have re: "adj_reason x = ''RECEIPT''" using ap by (rule adjust_lot_Applied) simp
  from adjust_lot_row [OF ok ap] x dims obtain row where
    "db_stock_ledger d' = db_stock_ledger d @ [row]" "led_key row = return_key t l" "led_delta row = rtl_picked_qty l"
    by (auto simp: return_key_def)
  with r x re that adjust_lot_books(1,2) [OF ok ap] dims show thesis by (auto simp: adjust_effect_def)
qed

text \<open>A unique key finds its row, so the effect that the line reports is recorded.\<close>

lemma find_by_key:
  assumes "distinct (map led_key ledger)" and "row \<in> set ledger"
    and "\<And>x. x \<in> set ledger \<Longrightarrow> P x \<longleftrightarrow> led_key x = led_key row"
  shows "find P ledger = Some row"
  using assms
proof (induction ledger)
  case (Cons a ledger)
  show ?case
  proof (cases "a = row")
    case False
    with Cons.prems have "led_key a \<noteq> led_key row" by (auto simp: image_iff)
    with Cons.prems have "\<not> P a" by auto
    with Cons False show ?thesis by auto
  qed (use Cons.prems in auto)
qed simp

lemma return_effect_recorded:
  assumes ok: "books_ok d" and row: "row \<in> set (db_stock_ledger d)" "led_key row = return_key t l" "led_delta row = rtl_picked_qty l"
    and x: "adj_lot_id x = rtl_lot_id l" "adj_reason x = ''RECEIPT''"
  shows "effect_recorded (rt_warehouse_id t) (rt_order_id t) d (return_effect t l (AdjustApplied x))"
proof -
  have ne: "py_strip ''RECEIPT'' \<noteq> []" by code_simp
  have "find (\<lambda>r. led_dims r = (rt_warehouse_id t, rtl_item_id l, rtl_lot_id l) \<and> led_ref r = rt_order_id t \<and>
      led_ref_line r = rtl_id l \<and> led_reason r = ''RECEIPT'') (db_stock_ledger d) = Some row"
    by (rule find_by_key [OF _ row(1)]) (use ok row(2) in \<open>auto simp: books_defs led_key_def return_key_def return_dims_def\<close>)
  moreover have "ef_lot_id (return_effect t l (AdjustApplied x)) = Some (rtl_lot_id l)"
    "ef_reason (return_effect t l (AdjustApplied x)) = Some ''RECEIPT''" using x by (simp_all add: return_effect_def)
  moreover have "ef_item_id (return_effect t l (AdjustApplied x)) = rtl_item_id l"
    "ef_ref_line (return_effect t l (AdjustApplied x)) = rtl_id l" "ef_qty (return_effect t l (AdjustApplied x)) = rtl_picked_qty l"
    by (simp_all add: return_effect_def)
  ultimately show ?thesis
    using row(3) ne by (simp add: effect_recorded_def effect_lot_def effect_delta_def reason_filter_def)
qed

lemma list_all2_memD2: "list_all2 R xs ys \<Longrightarrow> y \<in> set ys \<Longrightarrow> \<exists>x \<in> set xs. R x y"
  by (induction rule: list_all2_induct) auto

section \<open>The loop\<close>

definition in_ledger :: "return_task \<Rightarrow> db \<Rightarrow> return_line \<Rightarrow> bool" where
  "in_ledger t d l \<longleftrightarrow> (\<exists>row \<in> set (db_stock_ledger d). led_key row = return_key t l \<and> led_delta row = rtl_picked_qty l)"

definition is_effect_of :: "return_task \<Rightarrow> return_line \<Rightarrow> effect \<Rightarrow> bool" where
  "is_effect_of t l e \<longleftrightarrow> (\<exists>x. e = return_effect t l (AdjustApplied x) \<and> adj_lot_id x = rtl_lot_id l \<and> adj_reason x = ''RECEIPT'')"

lemma return_loop_all:
  assumes "books_ok (rd_core s)" and "map_loop (commit_return_line pol now t tr ts) ls s = Inr (es, s')"
    and "distinct (map rtl_id ls)" and "\<forall>l \<in> set ls. 0 < rtl_picked_qty l"
    and "\<forall>l \<in> set ls. return_key t l \<notin> set (map led_key (db_stock_ledger (rd_core s)))"
  shows "books_ok (rd_core s') \<and> on_hand (rd_core s') k = on_hand (rd_core s) k + sum_where rtl_picked_qty (\<lambda>l. return_dims t l = k) ls \<and>
     list_all2 (is_effect_of t) ls es \<and> ledger_grows (rd_core s) (rd_core s') \<and> (\<forall>l \<in> set ls. in_ledger t (rd_core s') l)"
  using assms
proof (induction ls arbitrary: s es)
  case (Cons l ls)
  from Cons.prems(2) obtain e s1 es' where one: "commit_return_line pol now t tr ts l s = Inr (e, s1)"
    and rest: "map_loop (commit_return_line pol now t tr ts) ls s1 = Inr (es', s')" and es: "es = e # es'"
    by (auto simp: res_simps)
  from one obtain r d1 where adj: "adjust_lot pol now (return_args t tr ts (rd_core s) l) (rd_core s) = Inr (r, d1)"
    and e: "e = return_effect t l r" and core: "rd_core s1 = d1"
    by (rule commit_line_Inr) simp
  obtain x row where x: "r = AdjustApplied x" "adj_lot_id x = rtl_lot_id l" "adj_reason x = ''RECEIPT''"
    and ok1: "books_ok d1" and move: "\<And>k. on_hand d1 k = on_hand (rd_core s) k + (if k = return_dims t l then rtl_picked_qty l else 0)"
    and led: "db_stock_ledger d1 = db_stock_ledger (rd_core s) @ [row]" and row: "led_key row = return_key t l" "led_delta row = rtl_picked_qty l"
    by (rule return_line_booked [OF Cons.prems(1) adj]) (use Cons.prems(4,5) in auto)
  have "rtl_id y \<noteq> rtl_id l" if "y \<in> set ls" for y
    using Cons.prems(3) that by (metis distinct.simps(2) imageI list.map(2) set_map)
  then have free1: "\<forall>y \<in> set ls. return_key t y \<notin> set (map led_key (db_stock_ledger (rd_core s1)))"
    using Cons.prems(5) by (auto simp: core led row return_key_def)
  have prems: "books_ok (rd_core s1)" "distinct (map rtl_id ls)" "\<forall>y \<in> set ls. 0 < rtl_picked_qty y"
    using ok1 Cons.prems(3,4) by (auto simp: core)
  note IH = Cons.IH [OF prems(1) rest prems(2,3) free1]
  have "ledger_grows (rd_core s) (rd_core s1)" by (simp add: ledger_grows_def core led)
  with IH have gg: "ledger_grows (rd_core s) (rd_core s')" unfolding ledger_grows_def by (metis append_assoc)
  from IH have "row \<in> set (db_stock_ledger (rd_core s'))" by (auto simp: ledger_grows_def core led)
  with row have "in_ledger t (rd_core s') l" by (auto simp: in_ledger_def)
  moreover have "is_effect_of t l e" using x e by (auto simp: is_effect_of_def)
  ultimately show ?case using IH gg es move by (auto simp: core)
qed (auto simp: ledger_grows_same)

text \<open>The other tables: tasks and snapshots stay, the lines of the loop are marked.\<close>

lemma return_loop_tables:
  assumes "map_loop (commit_return_line pol now t tr ts) ls s = Inr (es, s')" and "distinct (map rtl_id (rd_lines s))"
    and "set ls \<subseteq> set (rd_lines s)" and "distinct (map rtl_id ls)"
  shows "rd_tasks s' = rd_tasks s \<and> rd_snapshots s' = rd_snapshots s \<and>
     rd_lines s' = map (\<lambda>x. if x \<in> set ls then committed_line x else x) (rd_lines s) \<and>
     only_stock (rd_core s) (rd_core s')"
  using assms
proof (induction ls arbitrary: s es)
  case (Cons l ls)
  from Cons.prems(1) obtain e s1 es' where one: "commit_return_line pol now t tr ts l s = Inr (e, s1)"
    and rest: "map_loop (commit_return_line pol now t tr ts) ls s1 = Inr (es', s')"
    by (auto simp: res_simps)
  from one obtain r d1 where adj: "adjust_lot pol now (return_args t tr ts (rd_core s) l) (rd_core s) = Inr (r, d1)"
    and s1: "s1 = set_line (rtl_id l) (\<lambda>x. x\<lparr>rtl_committed_qty := Some (rtl_picked_qty l), rtl_status := RT_COMMITTED\<rparr>) (s\<lparr>rd_core := d1\<rparr>)"
    by (rule commit_line_Inr)
  have same: "rtl_id x = rtl_id l \<longleftrightarrow> x = l" if "x \<in> set (rd_lines s)" for x
    using distinct_key_unique [OF Cons.prems(2) that, of l] Cons.prems(3) by auto
  have lines: "rd_lines s1 = map (\<lambda>x. if x = l then committed_line x else x) (rd_lines s)"
    unfolding s1 using same by (auto simp: committed_line_def)
  have ids: "map rtl_id (rd_lines s1) = map rtl_id (rd_lines s)" unfolding lines by (auto simp: committed_line_def)
  have notin: "l \<notin> set ls" using Cons.prems(4) by auto
  have sub: "set ls \<subseteq> set (rd_lines s1)" using Cons.prems(3) notin unfolding lines by (auto simp: image_iff)
  have cl: "committed_line l \<notin> set ls"
    using Cons.prems(4) by (auto simp: committed_line_def dest: arg_cong [where f = rtl_id] imageI [where f = rtl_id])
  have di: "distinct (map rtl_id (rd_lines s1))" "distinct (map rtl_id ls)" using Cons.prems(2,4) ids by simp_all
  have IH: "rd_tasks s' = rd_tasks s1 \<and> rd_snapshots s' = rd_snapshots s1 \<and>
     rd_lines s' = map (\<lambda>x. if x \<in> set ls then committed_line x else x) (rd_lines s1) \<and>
     only_stock (rd_core s1) (rd_core s')"
    by (rule Cons.IH [OF rest di(1) sub di(2)])
  moreover have "(if (if x = l then committed_line x else x) \<in> set ls then committed_line (if x = l then committed_line x else x)
      else (if x = l then committed_line x else x)) = (if x \<in> set (l # ls) then committed_line x else x)" for x
    using cl notin by auto
  moreover have "rd_tasks s1 = rd_tasks s" "rd_snapshots s1 = rd_snapshots s" "rd_core s1 = d1" by (simp_all add: s1)
  ultimately show ?case using only_stock_trans [OF adjust_lot_only_stock [OF adj]] by (simp add: lines comp_def)
qed simp

section \<open>The commit\<close>

lemma check_return_lotD:
  assumes "check_return_lot t l d = Inr ()"
  shows "dims_in_lots d (return_dims t l)" and "0 < rtl_lot_id l"
proof -
  from assms obtain x where "find (\<lambda>x. lot_id x = rtl_lot_id l) (db_lots d) = Some x" "lot_warehouse_id x = rt_warehouse_id t"
    "lot_item_id x = rtl_item_id l" and pos: "0 < rtl_lot_id l"
    by (auto simp: check_return_lot_def res_simps)
  then show "dims_in_lots d (return_dims t l)" "0 < rtl_lot_id l"
    by (auto simp: dims_in_lots_def return_dims_def lot_dims_def image_iff dest!: find_SomeD intro!: bexI [of _ x])
qed

text \<open>A line on a known lot of a known item never fails: a positive quantity needs no stock.\<close>

lemma adjust_return_succeeds:
  assumes ok: "books_ok d" and lot: "dims_in_lots d (return_dims t l)" "0 < rtl_lot_id l"
    and pos: "0 < rtl_picked_qty l" and item: "pol (rtl_item_id l) \<noteq> None"
  shows "\<exists>r d'. adjust_lot pol now (return_args t tr ts d0 l) d = Inr (r, d')"
proof -
  obtain p where p: "pol (rtl_item_id l) = Some p" using item by blast
  have guard: "assert_lot_belongs_to (rt_warehouse_id t) (rtl_item_id l) (Some (rtl_lot_id l)) d = Inr ()"
    using ok lot by (simp add: assert_lot_belongs_to_Inr books_defs return_dims_def)
  have meta: "meta_bool (Some [(''sub_reason'', PStr ''RETURN_RECEIPT'')]) ''allow_zero_delta_ledger'' = False"
    "meta_str (Some [(''sub_reason'', PStr ''RETURN_RECEIPT'')]) ''sub_reason'' = Inr (norm_text (Some ''RETURN_RECEIPT''))"
    "meta_int (Some [(''sub_reason'', PStr ''RETURN_RECEIPT'')]) ''event_id'' = Inr None"
    by (simp_all add: meta_bool_def meta_get_def meta_str_def meta_int_def)
  note unfold = adjust_lot_def adjust_lot_impl_def Let_def meta item_requires_batch_def p guard norm_lot_code_def
    resolve_and_validate_dates_for_inbound_def
  show ?thesis
  proof (cases "idem_hit_by_lot_key (rt_warehouse_id t) (rtl_item_id l) (rtl_lot_id l) ''RECEIPT'' (rt_order_id t) (rtl_id l) d")
    case True
    with pos lot(2) show ?thesis by (simp add: unfold)
  next
    case False
    then have "(''RECEIPT'', rt_order_id t, rtl_id l, (rt_warehouse_id t, rtl_item_id l, rtl_lot_id l)) \<notin> set (map led_key (db_stock_ledger d))"
      by (simp add: idem_hit_iff)
    moreover have "0 \<le> on_hand d (rt_warehouse_id t, rtl_item_id l, rtl_lot_id l)" using ok on_hand_nonneg by (simp add: books_ok_def)
    ultimately obtain bn d' where "adjust_slot (rtl_item_id l) (rt_warehouse_id t) (rtl_lot_id l) (rtl_picked_qty l) ''RECEIPT''
        (norm_text (Some ''RETURN_RECEIPT'')) (rt_order_id t) (rtl_id l) ts (aa_trace_id (return_args t tr ts d0 l)) None None None d = Inr (bn, d')"
      using adjust_slot_decides [OF ok lot(1) [unfolded return_dims_def] _ _ refl, where de = "rtl_picked_qty l" and re = "''RECEIPT''"
          and rf = "rt_order_id t" and rl = "rtl_id l" and su = "norm_text (Some ''RETURN_RECEIPT'')" and ts = ts
          and tr = "aa_trace_id (return_args t tr ts d0 l)" and pd = None and ed = None] pos
      by (auto split: if_splits)
    with False pos lot(2) show ?thesis by (cases bn) (simp add: unfold)
  qed
qed

lemma return_loop_succeeds:
  assumes "books_ok (rd_core s)" and "\<forall>l \<in> set ls. check_return_lot t l (rd_core s) = Inr () \<and> pol (rtl_item_id l) \<noteq> None \<and> 0 < rtl_picked_qty l"
  shows "\<exists>es s'. map_loop (commit_return_line pol now t tr ts) ls s = Inr (es, s')"
proof -
  have "\<exists>es s'. map_loop (commit_return_line pol now t tr ts) ls s = Inr (es, s') \<and> books_ok (rd_core s') \<and> db_lots (rd_core s') = db_lots (rd_core s)"
  proof (rule map_loop_succeeds)
    fix l and u :: return_db
    assume l: "l \<in> set ls" and u: "books_ok (rd_core u) \<and> db_lots (rd_core u) = db_lots (rd_core s)"
    have chk: "check_return_lot t l (rd_core u) = Inr ()" using assms(2) l u by (simp add: check_return_lot_def)
    obtain r d' where adj: "adjust_lot pol now (return_args t tr ts (rd_core u) l) (rd_core u) = Inr (r, d')"
      using adjust_return_succeeds [OF _ check_return_lotD [OF chk], of pol] assms(2) l u by blast
    have "books_ok d'" "db_lots d' = db_lots (rd_core u)" using adjust_lot_books(1,3) [OF _ adj] u by auto
    with u chk adj show "\<exists>e u'. commit_return_line pol now t tr ts l u = Inr (e, u') \<and> books_ok (rd_core u') \<and> db_lots (rd_core u') = db_lots (rd_core s)"
      by (simp add: commit_return_line_def)
  qed (use assms(1) in simp)
  then show ?thesis by blast
qed

definition close_task :: "int \<Rightarrow> return_task list \<Rightarrow> return_task list" where
  "close_task tid ts = map (\<lambda>x. if rt_id x = tid then x\<lparr>rt_status := RT_COMMITTED\<rparr> else x) ts"

lemma close_task_found: "find (\<lambda>t. rt_id t = tid) ts = Some t \<Longrightarrow> find (\<lambda>t. rt_id t = tid) (close_task tid ts) = Some (t\<lparr>rt_status := RT_COMMITTED\<rparr>)"
  unfolding close_task_def by (induction ts) (auto split: if_splits)

lemma effects_of_task: "is_effect_of t l e \<Longrightarrow> ef_warehouse_id e = rt_warehouse_id t"
  by (auto simp: is_effect_of_def return_effect_def)

lemma received_sub: "get_with_lines tid s = Inr (t, lines) \<Longrightarrow> set (received_lines lines) \<subseteq> set (rd_lines s) \<and> lines = task_lines tid s"
  by (auto simp: get_with_lines_def received_lines_def task_lines_def split: option.splits)

lemma received_distinct:
  assumes "get_with_lines tid s = Inr (t, lines)" and "distinct (map rtl_id (rd_lines s))"
  shows "distinct (map rtl_id (received_lines lines))"
  using received_sub [OF assms(1)] assms(2) by (auto simp: received_lines_def task_lines_def intro!: distinct_map_filter)

text \<open>
  What a commit dated on the present day does: everything that was received is booked and the check of
  the three books lets it pass.
\<close>

lemma commit_return_books:
  assumes ok: "books_ok (rd_core s)" and wh: "lot_warehouses_ok (rd_core s)" and g: "grains_ok (rd_snapshots s)"
    and ids: "distinct (map rtl_id (rd_lines s))" and got: "get_with_lines tid s = Inr (t, lines)" and st: "rt_status t \<noteq> RT_COMMITTED"
    and ready: "\<forall>l \<in> set (received_lines lines). check_return_lot t l (rd_core s) = Inr () \<and> pol (rtl_item_id l) \<noteq> None \<and>
        return_key t l \<notin> set (map led_key (db_stock_ledger (rd_core s)))"
    and today: "date_of (case occurred_at of Some x \<Rightarrow> x | None \<Rightarrow> now) = date_of now"
  shows "\<exists>r s'. commit_return pol view now tid tr occurred_at s = Inr (r, s') \<and> books_ok (rd_core s') \<and>
     (\<forall>k. on_hand (rd_core s') k = on_hand (rd_core s) k + sum_where rtl_picked_qty (\<lambda>l. return_dims t l = k) (received_lines lines)) \<and>
     rd_tasks s' = close_task tid (rd_tasks s) \<and>
     rd_lines s' = map (\<lambda>x. if x \<in> set (received_lines lines) then committed_line x else x) (rd_lines s) \<and>
     (received_lines lines \<noteq> [] \<longrightarrow> (\<forall>k. snap_qty (rd_snapshots s') (date_of now) k = on_hand (rd_core s') k))"
proof -
  let ?ls = "received_lines lines" and ?ts = "case occurred_at of Some x \<Rightarrow> x | None \<Rightarrow> now"
  have pos: "\<forall>l \<in> set ?ls. 0 < rtl_picked_qty l" by (simp add: received_lines_def)
  obtain es s1 where loop: "map_loop (commit_return_line pol now t tr ?ts) ?ls s = Inr (es, s1)"
    using return_loop_succeeds [OF ok, of ?ls t pol] ready pos by blast
  note di = received_distinct [OF got ids]
  have free: "\<forall>l \<in> set ?ls. return_key t l \<notin> set (map led_key (db_stock_ledger (rd_core s)))" using ready by blast
  note L = return_loop_all [OF ok loop di pos free]
  from L have ok1: "books_ok (rd_core s1)" and eff: "list_all2 (is_effect_of t) ?ls es"
    and led: "\<forall>l \<in> set ?ls. in_ledger t (rd_core s1) l" by blast+
  note T = return_loop_tables [OF loop ids conjunct1 [OF received_sub [OF got]] di]
  have wh1: "lot_warehouses_ok (rd_core s1)"
    using wh only_stock_simps(1,2) [of "rd_core s" "rd_core s1"] T by (simp add: lot_warehouses_ok_def)
  have rec: "effect_recorded (ef_warehouse_id e) (rt_order_id t) (rd_core s1) e" if e: "e \<in> set es" for e
  proof -
    obtain l where l: "l \<in> set ?ls" "is_effect_of t l e" using list_all2_memD2 [OF eff e] by blast
    with led obtain row where "row \<in> set (db_stock_ledger (rd_core s1))" "led_key row = return_key t l" "led_delta row = rtl_picked_qty l"
      by (auto simp: in_ledger_def)
    with l effects_of_task [OF l(2)] return_effect_recorded [OF ok1, of row t l] show ?thesis by (auto simp: is_effect_of_def)
  qed
  have g1: "grains_ok (rd_snapshots s1)" using T g by simp
  from enforce_iff [OF ok1 wh1 g1 today, of view "rt_order_id t" es] rec
  obtain sns where sns: "enforce_three_books view now (rt_order_id t) es ?ts (rd_core s1) (rd_snapshots s1) = Inr sns" by blast
  have snap: "snap_qty sns (date_of now) k = on_hand (rd_core s1) k" if "?ls \<noteq> []" for k
  proof -
    have "es \<noteq> []" using that eff by (cases ?ls) auto
    with sns have "sns = delete_day (date_of now) (rd_snapshots s1) @ day_rows (date_of now) (on_hand (rd_core s1)) (map st_dims (db_stocks_lot (rd_core s1)))"
      by (auto simp: enforce_three_books_def run_snapshot_def rebuild_today [OF ok1 wh1 g1] Let_def bindR_Inr)
    then show ?thesis by (simp add: rebuilt_today_qty [OF ok1])
  qed
  from got have "find (\<lambda>t. rt_id t = tid) (rd_tasks s) = Some t" by (auto simp: get_with_lines_def split: option.splits)
  from close_task_found [OF this] T have "\<exists>r. get_with_lines tid (s1\<lparr>rd_tasks := close_task tid (rd_tasks s1), rd_snapshots := sns\<rparr>) = Inr r"
    by (simp add: get_with_lines_def)
  then obtain r where "get_with_lines tid (s1\<lparr>rd_tasks := close_task tid (rd_tasks s1), rd_snapshots := sns\<rparr>) = Inr r" by blast
  with got st loop sns
  have "commit_return pol view now tid tr occurred_at s = Inr (r, s1\<lparr>rd_tasks := close_task tid (rd_tasks s1), rd_snapshots := sns\<rparr>)"
    by (simp add: commit_return_def Let_def close_task_def)
  moreover have "on_hand (rd_core s1) k = on_hand (rd_core s) k + sum_where rtl_picked_qty (\<lambda>l. return_dims t l = k) ?ls" for k
    using L by blast
  ultimately show ?thesis using ok1 T snap
    by (intro exI [of _ r] exI [of _ "s1\<lparr>rd_tasks := close_task tid (rd_tasks s1), rd_snapshots := sns\<rparr>"]) simp
qed

end
