(* ===== verification/Return_Run.thy ===== *)
theory Return_Run
  imports Return_Laws
begin

text \<open>
  Sequences of operations of the whole system with the return tasks and the snapshots, and the claims
  on return tasks. A step is an operation of the stock system on the core tables, an operation on
  return tasks, or a snapshot.
\<close>

section \<open>Runs\<close>

datatype return_op =
    RO_core wms_op
  | RO_create string "int option" bool
  | RO_receive int int int
  | RO_commit datetime int "string option" "datetime option"
  | RO_snapshot datetime
  | RO_rebuild datetime

type_synonym three_books_view = "db \<Rightarrow> snapshots \<Rightarrow> (string \<times> int) list option"

fun exec_return_op :: "pms_client \<Rightarrow> (int list \<Rightarrow> export_uom list) \<Rightarrow> three_books_view \<Rightarrow> return_op \<Rightarrow> return_db \<Rightarrow> return_db result" where
  "exec_return_op pms lu view (RO_core op) s = bindR (exec_op pms lu op (rd_core s)) (\<lambda>d. Inr (s\<lparr>rd_core := d\<rparr>))"
| "exec_return_op pms lu view (RO_create r w z) s = bindR (create_for_order r w z s) (\<lambda>(_, s'). Inr s')"
| "exec_return_op pms lu view (RO_receive i item q) s = bindR (record_receive i item q s) (\<lambda>(_, s'). Inr s')"
| "exec_return_op pms lu view (RO_commit now i tr occ) s = bindR (commit_return (pms_policy pms) view now i tr occ s) (\<lambda>(_, s'). Inr s')"
| "exec_return_op pms lu view (RO_snapshot now) s = bindR (run_snapshot view now (rd_core s) (rd_snapshots s)) (\<lambda>(_, n). Inr (s\<lparr>rd_snapshots := n\<rparr>))"
| "exec_return_op pms lu view (RO_rebuild at) s = bindR (rebuild_snapshot_from_ledger (rd_core s) at (rd_snapshots s)) (\<lambda>(_, n). Inr (s\<lparr>rd_snapshots := n\<rparr>))"

inductive return_run :: "pms_client \<Rightarrow> (int list \<Rightarrow> export_uom list) \<Rightarrow> three_books_view \<Rightarrow> return_db \<Rightarrow> return_db \<Rightarrow> bool"
  for pms lu view s0 where
  start: "return_run pms lu view s0 s0"
| step: "return_run pms lu view s0 s \<Longrightarrow> exec_return_op pms lu view op s = Inr s' \<Longrightarrow> return_run pms lu view s0 s'"

section \<open>The invariant\<close>

definition shipped_qty :: "string \<Rightarrow> dims \<Rightarrow> db \<Rightarrow> int" where
  "shipped_qty order_ref k d = sum_where (\<lambda>r. - led_delta r) (\<lambda>r. led_dims r = k) (ship_rows order_ref d)"

definition line_ok :: "db \<Rightarrow> return_task \<Rightarrow> return_line \<Rightarrow> bool" where
  "line_ok d t l \<longleftrightarrow> 0 \<le> rtl_picked_qty l \<and> rtl_picked_qty l \<le> expected_of l \<and>
     expected_of l \<le> shipped_qty (rt_order_id t) (return_dims t l) d \<and>
     (rtl_status l = RT_COMMITTED \<longrightarrow> rtl_committed_qty l = Some (rtl_picked_qty l) \<and> rt_status t = RT_COMMITTED)"

definition return_inv :: "return_db \<Rightarrow> bool" where
  "return_inv s \<longleftrightarrow> books_ok (rd_core s) \<and> distinct (map rt_id (rd_tasks s)) \<and> distinct (map rtl_id (rd_lines s)) \<and>
     (\<forall>l \<in> set (rd_lines s). \<exists>t \<in> set (rd_tasks s). rt_id t = rtl_task_id l \<and> line_ok (rd_core s) t l)"

text \<open>Committed tasks and their lines stay as they are.\<close>

definition committed_stay :: "return_db \<Rightarrow> return_db \<Rightarrow> bool" where
  "committed_stay s s' \<longleftrightarrow> (\<forall>t \<in> set (rd_tasks s). rt_status t = RT_COMMITTED \<longrightarrow>
     t \<in> set (rd_tasks s') \<and> task_lines (rt_id t) s' = task_lines (rt_id t) s)"

lemma committed_stay_refl [simp]: "committed_stay s s"
  by (simp add: committed_stay_def)

lemma committed_stay_trans: "committed_stay a b \<Longrightarrow> committed_stay b c \<Longrightarrow> committed_stay a c"
  by (simp add: committed_stay_def)

lemma committed_stay_tables: "rd_tasks s' = rd_tasks s \<Longrightarrow> rd_lines s' = rd_lines s \<Longrightarrow> committed_stay s s'"
  by (simp add: committed_stay_def task_lines_def)

lemma shipped_mono:
  assumes "ledger_grows d d'" shows "shipped_qty ref k d \<le> shipped_qty ref k d'"
proof -
  obtain rows where rows: "db_stock_ledger d' = db_stock_ledger d @ rows" using assms by (auto simp: ledger_grows_def)
  have "0 \<le> sum_where (\<lambda>r. - led_delta r) (\<lambda>r. led_dims r = k) (filter (\<lambda>r. led_ref r = ref \<and> led_delta r < 0 \<and> P r) rows)" for P
    by (induction rows) auto
  then show ?thesis by (simp add: shipped_qty_def ship_rows_def rows)
qed

lemma line_ok_mono: "ledger_grows d d' \<Longrightarrow> line_ok d t l \<Longrightarrow> line_ok d' t l"
  using shipped_mono [of d d' "rt_order_id t" "return_dims t l"] by (auto simp: line_ok_def)

lemma return_inv_core:
  assumes "return_inv s" and "books_ok (rd_core s) \<longrightarrow> books_ok d' \<and> ledger_grows (rd_core s) d'"
  shows "return_inv (s\<lparr>rd_core := d'\<rparr>)"
  using assms line_ok_mono unfolding return_inv_def by fastforce

section \<open>Creating a task\<close>

lemma shipped_summary:
  assumes "x \<in> set (load_shipped_summary ref d)"
  shows "sh_shipped_qty x = shipped_qty ref (sh_warehouse_id x, sh_item_id x, sh_lot_id x) d" and "0 < sh_shipped_qty x"
  using assms by (auto simp: load_shipped_summary_def shipped_qty_def)

lemma insert_return_line_inv:
  assumes inv: "return_inv s" and run: "insert_return_line (rt_id t) x s = Inr (u, s')" and t: "t \<in> set (rd_tasks s)" "rt_status t \<noteq> RT_COMMITTED"
    and x: "sh_shipped_qty x = shipped_qty (rt_order_id t) (sh_warehouse_id x, sh_item_id x, sh_lot_id x) (rd_core s)" "0 < sh_shipped_qty x"
      "sh_warehouse_id x = rt_warehouse_id t"
  shows "return_inv s' \<and> committed_stay s s' \<and> rd_tasks s' = rd_tasks s \<and> rd_core s' = rd_core s"
proof -
  from run obtain code where s': "s' = s\<lparr>rd_lines := rd_lines s @
      [\<lparr>rtl_id = next_id (map rtl_id (rd_lines s)), rtl_task_id = rt_id t, rtl_item_id = sh_item_id x,
        rtl_lot_id = sh_lot_id x, rtl_lot_code_snapshot = code, rtl_expected_qty = Some (sh_shipped_qty x),
        rtl_picked_qty = 0, rtl_committed_qty = Some 0, rtl_status = RT_OPEN\<rparr>]\<rparr>"
    by (auto simp: insert_return_line_def res_simps)
  have "return_inv s'"
    using inv x t(1) by (auto simp: return_inv_def s' line_ok_def return_dims_def expected_of_def intro!: bexI [of _ t])
  moreover have "committed_stay s s'"
  proof -
    have "rt_id t \<noteq> rt_id y" if "y \<in> set (rd_tasks s)" "rt_status y = RT_COMMITTED" for y
      using distinct_key_unique [of rt_id "rd_tasks s" t y] inv t that by (auto simp: return_inv_def)
    then show ?thesis by (auto simp: committed_stay_def task_lines_def s')
  qed
  ultimately show ?thesis by (simp add: s')
qed

lemma create_for_order_inv:
  assumes inv: "return_inv s" and run: "create_for_order ref w z s = Inr (r, s')"
  shows "return_inv s' \<and> committed_stay s s' \<and> rd_core s' = rd_core s"
proof (cases "open_task (py_strip ref) s")
  case (Some t)
  with run inv show ?thesis by (auto simp: create_for_order_def Let_def res_simps)
next
  case None
  let ?all = "load_shipped_summary (py_strip ref) (rd_core s)"
  define shipped where "shipped = (let here = (case w of None \<Rightarrow> ?all | Some v \<Rightarrow> filter (\<lambda>x. sh_warehouse_id x = v) ?all)
      in if z then here else filter (\<lambda>x. 0 < sh_shipped_qty x) here)"
  have sub: "set shipped \<subseteq> set ?all" by (auto simp: shipped_def Let_def split: option.splits)
  from run None obtain x xs where sh: "shipped = x # xs"
    by (auto simp: create_for_order_def Let_def res_simps shipped_def split: list.splits)
  define t where "t = \<lparr>rt_id = next_id (map rt_id (rd_tasks s)), rt_order_id = py_strip ref, rt_warehouse_id = sh_warehouse_id x, rt_status = RT_OPEN\<rparr>"
  from run None sh obtain us where same: "\<forall>y \<in> set shipped. sh_warehouse_id y = sh_warehouse_id x"
    and loop: "map_loop (insert_return_line (rt_id t)) shipped (s\<lparr>rd_tasks := rd_tasks s @ [t]\<rparr>) = Inr (us, s')"
    by (fastforce simp: create_for_order_def Let_def res_simps shipped_def t_def)
  let ?s = "s\<lparr>rd_tasks := rd_tasks s @ [t]\<rparr>"
  have "distinct (map rt_id (rd_tasks ?s))" using inv next_id_fresh_map [of rt_id "rd_tasks s"] by (auto simp: return_inv_def t_def)
  then have inv0: "return_inv ?s" using inv by (fastforce simp: return_inv_def)
  have stay0: "committed_stay s ?s" by (simp add: committed_stay_def task_lines_def)
  let ?I = "\<lambda>u. return_inv u \<and> committed_stay ?s u \<and> rd_tasks u = rd_tasks ?s \<and> rd_core u = rd_core s"
  have "?I s'"
  proof (rule map_loop_invariant [where I = ?I, OF _ _ loop])
    fix y u v u'
    assume y: "y \<in> set shipped" and u: "?I u" and one: "insert_return_line (rt_id t) y u = Inr (v, u')"
    have "sh_shipped_qty y = shipped_qty (rt_order_id t) (sh_warehouse_id y, sh_item_id y, sh_lot_id y) (rd_core u)" "0 < sh_shipped_qty y"
      "sh_warehouse_id y = rt_warehouse_id t"
      using shipped_summary [of y "py_strip ref" "rd_core s"] sub y u same by (auto simp: t_def)
    from insert_return_line_inv [OF conjunct1 [OF u] one _ _ this] u show "?I u'"
      by (auto simp: t_def intro: committed_stay_trans)
  qed (use inv0 in simp)
  with committed_stay_trans [OF stay0] show ?thesis by blast
qed

section \<open>Changing the lines of one task\<close>

lemma return_inv_map:
  assumes inv: "return_inv s" and lines: "rd_lines s' = map f (rd_lines s)" and tasks: "rd_tasks s' = map g (rd_tasks s)"
    and f: "\<And>l. l \<in> set (rd_lines s) \<Longrightarrow> rtl_id (f l) = rtl_id l \<and> rtl_task_id (f l) = rtl_task_id l"
    and g: "\<And>t. rt_id (g t) = rt_id t" and ok: "books_ok (rd_core s')"
    and step: "\<And>t l. l \<in> set (rd_lines s) \<Longrightarrow> t \<in> set (rd_tasks s) \<Longrightarrow> rt_id t = rtl_task_id l \<Longrightarrow> line_ok (rd_core s) t l
      \<Longrightarrow> line_ok (rd_core s') (g t) (f l)"
  shows "return_inv s'"
proof -
  have "map rtl_id (rd_lines s') = map rtl_id (rd_lines s)" "map rt_id (rd_tasks s') = map rt_id (rd_tasks s)"
    using f g by (simp_all add: lines tasks)
  moreover have "\<exists>t \<in> set (rd_tasks s'). rt_id t = rtl_task_id l' \<and> line_ok (rd_core s') t l'" if "l' \<in> set (rd_lines s')" for l'
  proof -
    from that obtain l where l: "l \<in> set (rd_lines s)" "l' = f l" by (auto simp: lines)
    with inv obtain t where "t \<in> set (rd_tasks s)" "rt_id t = rtl_task_id l" "line_ok (rd_core s) t l" by (auto simp: return_inv_def)
    with l step f g show ?thesis by (intro bexI [of _ "g t"]) (auto simp: tasks)
  qed
  ultimately show ?thesis using inv ok by (simp add: return_inv_def)
qed

lemma task_by_id:
  assumes "return_inv s" and "t \<in> set (rd_tasks s)" and "u \<in> set (rd_tasks s)" and "rt_id t = rt_id u"
  shows "t = u"
  using distinct_key_unique [of rt_id "rd_tasks s" t u] assms by (simp add: return_inv_def)

lemma line_by_id:
  assumes "return_inv s" and "x \<in> set (rd_lines s)" and "l \<in> set (rd_lines s)"
  shows "rtl_id x = rtl_id l \<longleftrightarrow> x = l"
  using distinct_key_unique [of rtl_id "rd_lines s" x l] assms by (auto simp: return_inv_def)

lemma filter_map_same:
  "(\<And>x. x \<in> set xs \<Longrightarrow> P (f x) = P x) \<Longrightarrow> (\<And>x. x \<in> set xs \<Longrightarrow> P x \<Longrightarrow> f x = x) \<Longrightarrow> filter P (map f xs) = filter P xs"
  by (induction xs) auto

lemma committed_stay_map:
  assumes inv: "return_inv s" and t: "t \<in> set (rd_tasks s)" "rt_status t \<noteq> RT_COMMITTED"
    and lines: "rd_lines s' = map f (rd_lines s)" and tasks: "rd_tasks s' = map g (rd_tasks s)"
    and f: "\<And>l. l \<in> set (rd_lines s) \<Longrightarrow> rtl_task_id (f l) = rtl_task_id l \<and> (rtl_task_id l \<noteq> rt_id t \<longrightarrow> f l = l)"
    and g: "\<And>u. rt_id u \<noteq> rt_id t \<Longrightarrow> g u = u"
  shows "committed_stay s s'"
proof -
  have other: "rt_id y \<noteq> rt_id t" if "y \<in> set (rd_tasks s)" "rt_status y = RT_COMMITTED" for y
    using task_by_id [OF inv that(1) t(1)] that(2) t(2) by auto
  have "task_lines i s' = task_lines i s" if "i \<noteq> rt_id t" for i
    unfolding task_lines_def lines by (rule filter_map_same) (use f that in auto)
  then show ?thesis using other g unfolding committed_stay_def tasks by (force simp: image_iff)
qed

section \<open>Receiving\<close>

lemma record_receive_inv:
  assumes inv: "return_inv s" and run: "record_receive tid item q s = Inr (r, s')"
  shows "return_inv s' \<and> committed_stay s s' \<and> rd_core s' = rd_core s"
proof -
  from run obtain t lines where got: "get_with_lines tid s = Inr (t, lines)" by (auto simp: record_receive_def res_simps)
  then have t: "t \<in> set (rd_tasks s)" "rt_id t = tid" "lines = task_lines tid s"
    by (auto simp: get_with_lines_def split: option.splits dest: find_SomeD)
  show ?thesis
  proof (cases "rt_status t = RT_COMMITTED")
    case True
    with run got inv show ?thesis by (auto simp: record_receive_def)
  next
    case False
    with run got obtain l where l: "find (\<lambda>l. rtl_item_id l = item) lines = Some l" and q: "0 \<le> rtl_picked_qty l + q" "rtl_picked_qty l + q \<le> expected_of l"
      and s': "s' = set_line (rtl_id l) (\<lambda>x. x\<lparr>rtl_picked_qty := rtl_picked_qty l + q\<rparr>) s"
      by (auto simp: record_receive_def res_simps Let_def)
    have lm: "l \<in> set (rd_lines s)" "rtl_task_id l = tid" using find_SomeD [OF l] t(3) by (auto simp: task_lines_def)
    let ?f = "\<lambda>x. if rtl_id x = rtl_id l then x\<lparr>rtl_picked_qty := rtl_picked_qty l + q\<rparr> else x"
    have lines: "rd_lines s' = map ?f (rd_lines s)" and tasks: "rd_tasks s' = map (\<lambda>x. x) (rd_tasks s)" and core: "rd_core s' = rd_core s"
      by (simp_all add: s')
    have st: "line_ok (rd_core s) u l \<Longrightarrow> rtl_status l \<noteq> RT_COMMITTED" if "u \<in> set (rd_tasks s)" "rt_id u = tid" for u
      using task_by_id [OF inv that(1) t(1)] that t False by (auto simp: line_ok_def)
    have upd: "line_ok d u (l\<lparr>rtl_picked_qty := rtl_picked_qty l + q\<rparr>)" if "line_ok d u l" "rtl_status l \<noteq> RT_COMMITTED" for d u
      using that q by (simp add: line_ok_def return_dims_def expected_of_def)
    have "return_inv s'"
    proof (rule return_inv_map [OF inv lines tasks])
      fix u x
      assume x: "x \<in> set (rd_lines s)" "u \<in> set (rd_tasks s)" "rt_id u = rtl_task_id x" "line_ok (rd_core s) u x"
      show "line_ok (rd_core s') u (?f x)"
      proof (cases "x = l")
        case True
        have "line_ok (rd_core s) u (l\<lparr>rtl_picked_qty := rtl_picked_qty l + q\<rparr>)"
          by (rule upd) (use x True st [OF x(2)] lm(2) in auto)
        then show ?thesis unfolding True core by simp
      next
        case False
        with line_by_id [OF inv x(1) lm(1)] have "rtl_id x \<noteq> rtl_id l" by blast
        with x(4) show ?thesis unfolding core by simp
      qed
    qed (use inv in \<open>auto simp: core return_inv_def\<close>)
    moreover have "committed_stay s s'"
    proof (rule committed_stay_map [OF inv t(1) False lines tasks])
      fix x assume "x \<in> set (rd_lines s)"
      from line_by_id [OF inv this lm(1)] show "rtl_task_id (?f x) = rtl_task_id x \<and> (rtl_task_id x \<noteq> rt_id t \<longrightarrow> ?f x = x)"
        using lm(2) t(2) by (cases "x = l") simp_all
    qed simp
    ultimately show ?thesis by (simp add: core)
  qed
qed

section \<open>Committing\<close>

lemma return_loop_keeps:
  assumes "map_loop (commit_return_line pol now t tr ts) ls s = Inr (es, s')"
  shows "keeps (rd_core s) (rd_core s')"
proof (rule map_loop_invariant [where I = "\<lambda>u. keeps (rd_core s) (rd_core u)", OF _ _ assms])
  fix l and u :: return_db and e u'
  assume u: "keeps (rd_core s) (rd_core u)" and "commit_return_line pol now t tr ts l u = Inr (e, u')"
  from this(2) obtain r d' where adj: "adjust_lot pol now (return_args t tr ts (rd_core u) l) (rd_core u) = Inr (r, d')" and c: "rd_core u' = d'"
    by (rule commit_line_Inr) simp
  from keeps_trans [OF u adjusting.step_keeps [OF adj]] show "keeps (rd_core s) (rd_core u')" by (simp add: c)
qed simp

lemma commit_return_inv:
  assumes inv: "return_inv s" and run: "commit_return pol view now tid tr occ s = Inr (r, s')"
  shows "return_inv s' \<and> committed_stay s s' \<and> keeps (rd_core s) (rd_core s')"
proof -
  from run obtain t lines where got: "get_with_lines tid s = Inr (t, lines)" by (auto simp: commit_return_def res_simps)
  then have t: "t \<in> set (rd_tasks s)" "rt_id t = tid" "lines = task_lines tid s"
    by (auto simp: get_with_lines_def split: option.splits dest: find_SomeD)
  show ?thesis
  proof (cases "rt_status t = RT_COMMITTED")
    case True
    with run got inv show ?thesis by (auto simp: commit_return_def)
  next
    case False
    let ?ls = "received_lines lines"
    from False run got obtain es s1 sns where
      loop: "map_loop (commit_return_line pol now t tr (case occ of Some x \<Rightarrow> x | None \<Rightarrow> now)) ?ls s = Inr (es, s1)"
      and s': "s' = s1\<lparr>rd_tasks := close_task tid (rd_tasks s1), rd_snapshots := sns\<rparr>"
      by (auto simp: commit_return_def res_simps Let_def close_task_def)
    have ids: "distinct (map rtl_id (rd_lines s))" using inv by (simp add: return_inv_def)
    note T = return_loop_tables [OF loop ids conjunct1 [OF received_sub [OF got]] received_distinct [OF got ids]]
    note K = return_loop_keeps [OF loop]
    let ?f = "\<lambda>x. if x \<in> set ?ls then committed_line x else x"
    have lines: "rd_lines s' = map ?f (rd_lines s)" using T by (simp add: s')
    have tasks: "rd_tasks s' = map (\<lambda>x. if rt_id x = tid then x\<lparr>rt_status := RT_COMMITTED\<rparr> else x) (rd_tasks s)"
      using T by (simp add: s' close_task_def)
    have grow: "books_ok (rd_core s')" "ledger_grows (rd_core s) (rd_core s')" using K inv by (simp_all add: s' keeps_def return_inv_def)
    have mem: "rtl_task_id x = tid" if "x \<in> set ?ls" for x using that t(3) by (simp add: received_lines_def task_lines_def)
    have "return_inv s'"
    proof (rule return_inv_map [OF inv lines tasks])
      fix u x
      assume x: "x \<in> set (rd_lines s)" "u \<in> set (rd_tasks s)" "rt_id u = rtl_task_id x" "line_ok (rd_core s) u x"
      from line_ok_mono [OF grow(2) x(4)] mem [of x] x(3)
      show "line_ok (rd_core s') (if rt_id u = tid then u\<lparr>rt_status := RT_COMMITTED\<rparr> else u) (?f x)"
        by (auto simp: line_ok_def committed_line_def return_dims_def expected_of_def)
    qed (use grow in \<open>auto simp: committed_line_def\<close>)
    moreover have "committed_stay s s'"
      by (rule committed_stay_map [OF inv t(1) False lines tasks]) (use mem t in \<open>auto simp: committed_line_def\<close>)
    ultimately show ?thesis using K by (simp add: s')
  qed
qed

section \<open>Sequences\<close>

lemma exec_return_inv:
  assumes "return_inv s" and "exec_return_op pms lu view op s = Inr s'"
  shows "return_inv s' \<and> committed_stay s s' \<and> keeps (rd_core s) (rd_core s')"
proof (cases op)
  case (RO_core o')
  with assms(2) obtain d where d: "exec_op pms lu o' (rd_core s) = Inr d" and s': "s' = s\<lparr>rd_core := d\<rparr>" by (auto simp: res_simps)
  from exec_op_keeps [OF d] have k: "keeps (rd_core s) d" by blast
  then have "return_inv s'" unfolding s' by (intro return_inv_core [OF assms(1)]) (simp add: keeps_def)
  with k show ?thesis by (simp add: s' committed_stay_tables)
next
  case (RO_snapshot now)
  with assms show ?thesis by (auto simp: res_simps return_inv_def intro: committed_stay_tables)
next
  case (RO_rebuild at)
  with assms show ?thesis by (auto simp: res_simps return_inv_def intro: committed_stay_tables)
qed (use assms in \<open>auto simp: res_simps dest: create_for_order_inv record_receive_inv commit_return_inv\<close>)

lemma return_run_inv:
  assumes "return_run pms lu view s0 s" and "return_inv s0"
  shows "return_inv s \<and> committed_stay s0 s \<and> keeps (rd_core s0) (rd_core s)"
  using assms
proof (induction rule: return_run.induct)
  case (step s op s')
  then show ?case using exec_return_inv [of s pms lu view op s'] by (blast intro: committed_stay_trans keeps_trans)
qed simp

section \<open>Sample data\<close>

text \<open>Order \<open>ORD-1\<close> has shipped three pieces of item 2 from the coded lot; a task is open with two received.\<close>

definition shipped_args :: adjust_args where
  "shipped_args = sample_ship\<lparr>aa_item_id := 2, aa_lot_id := Some 2, aa_ref := ''ORD-1''\<rparr>"

definition shipped_db :: db where
  "shipped_db = (case adjust_lot sample_policy 0 shipped_args sample_db of Inr (_, d) \<Rightarrow> d | Inl _ \<Rightarrow> sample_db)"

definition sample_return_start :: return_db where
  "sample_return_start = \<lparr>rd_core = shipped_db, rd_snapshots = [], rd_tasks = [], rd_lines = []\<rparr>"

definition sample_view :: three_books_view where
  "sample_view = (\<lambda>_ _. None)"

fun exec_return_ops :: "return_op list \<Rightarrow> return_db \<Rightarrow> return_db result" where
  "exec_return_ops [] s = Inr s"
| "exec_return_ops (op # ops) s = bindR (exec_return_op sample_pms sample_uoms sample_view op s) (exec_return_ops ops)"

lemma exec_return_ops_run:
  "return_run sample_pms sample_uoms sample_view s0 s \<Longrightarrow> exec_return_ops ops s = Inr s' \<Longrightarrow> return_run sample_pms sample_uoms sample_view s0 s'"
  by (induction ops arbitrary: s) (auto simp: res_simps intro: return_run.step)

definition sample_return_ops :: "return_op list" where
  "sample_return_ops = [RO_create ''ORD-1'' None False, RO_receive 1 2 2]"

definition sample_return_db :: return_db where
  "sample_return_db = (case exec_return_ops sample_return_ops sample_return_start of Inr s \<Rightarrow> s | Inl _ \<Rightarrow> sample_return_start)"

section \<open>Claims\<close>

lemma bindR_InrE: "bindR m f = Inr y \<Longrightarrow> (\<And>x. m = Inr x \<Longrightarrow> f x = Inr y \<Longrightarrow> P) \<Longrightarrow> P"
  by (auto simp: bindR_Inr)

text \<open>A commit that went through is answered from the committed task; nothing is written again.\<close>

lemma commit_return_again:
  assumes "commit_return pol view now tid tr occurred_at s = Inr (r, s')"
  shows "commit_return pol' view' now' tid tr' occurred_at' s' = Inr (r, s')"
proof -
  from assms obtain t lines where got: "get_with_lines tid s = Inr (t, lines)" by (auto simp: commit_return_def res_simps)
  show ?thesis
  proof (cases "rt_status t = RT_COMMITTED")
    case True
    with got assms have "r = (t, lines)" "s' = s" by (auto simp: commit_return_def)
    with True got show ?thesis by (simp add: commit_return_def)
  next
    case False
    from False assms got have r: "get_with_lines tid s' = Inr r" by (auto simp: commit_return_def res_simps Let_def)
    from False assms got have "\<exists>u. rd_tasks s' = map (\<lambda>x. if rt_id x = tid then x\<lparr>rt_status := RT_COMMITTED\<rparr> else x) u"
      unfolding commit_return_def by (elim bindR_InrE) (auto simp: Let_def elim!: bindR_InrE)
    then obtain u where ts: "rd_tasks s' = map (\<lambda>x. if rt_id x = tid then x\<lparr>rt_status := RT_COMMITTED\<rparr> else x) u" ..
    have "find (\<lambda>t. rt_id t = tid) (rd_tasks s') \<noteq> None"
    proof
      assume "find (\<lambda>t. rt_id t = tid) (rd_tasks s') = None"
      with r show False by (simp add: get_with_lines_def)
    qed
    then obtain x where x: "find (\<lambda>t. rt_id t = tid) (rd_tasks s') = Some x" by blast
    with r have rx: "r = (x, task_lines tid s')" by (simp add: get_with_lines_def)
    from find_SomeD [OF x] have id: "rt_id x = tid" and mem: "x \<in> set (rd_tasks s')" by simp_all
    from mem obtain y where y: "x = (if rt_id y = tid then y\<lparr>rt_status := RT_COMMITTED\<rparr> else y)" unfolding ts set_map by (rule imageE)
    have "rt_status x = RT_COMMITTED"
    proof (cases "rt_id y = tid")
      case False
      with y id show ?thesis by (simp only: if_False)
    qed (simp only: y if_True, simp)
    with r rx show ?thesis by (simp add: commit_return_def)
  qed
qed

text \<open>
  Claim C22. A return commit is exact, and repeating it changes nothing. For a task that is not committed yet, dated on the present day,
  with lots that match their lines, known items and ledger keys that are free, the commit succeeds: the books stay consistent, every
  lot grows by exactly what was received on its lines and nothing else moves, the task and the received lines
  are committed with the received quantity, and the snapshot of the day shows the new quantities. The same commit, repeated
  at any time and with any date, gives the same answer and leaves the whole state as it is.
\<close>

theorem return_commit_exact:
  assumes "return_inv s" and "lot_warehouses_ok (rd_core s)" and "grains_ok (rd_snapshots s)"
    and "get_with_lines tid s = Inr (t, lines)" and "rt_status t \<noteq> RT_COMMITTED"
    and "\<forall>l \<in> set (received_lines lines). check_return_lot t l (rd_core s) = Inr () \<and> pol (rtl_item_id l) \<noteq> None \<and>
        return_key t l \<notin> set (map led_key (db_stock_ledger (rd_core s)))"
    and "date_of (case occurred_at of Some x \<Rightarrow> x | None \<Rightarrow> now) = date_of now"
  shows "\<exists>r s'. commit_return pol view now tid tr occurred_at s = Inr (r, s') \<and> books_ok (rd_core s') \<and>
     (\<forall>k. on_hand (rd_core s') k = on_hand (rd_core s) k + sum_where rtl_picked_qty (\<lambda>l. return_dims t l = k) (received_lines lines)) \<and>
     rd_tasks s' = close_task tid (rd_tasks s) \<and>
     rd_lines s' = map (\<lambda>x. if x \<in> set (received_lines lines) then committed_line x else x) (rd_lines s) \<and>
     (received_lines lines \<noteq> [] \<longrightarrow> (\<forall>k. snap_qty (rd_snapshots s') (date_of now) k = on_hand (rd_core s') k)) \<and>
     (\<forall>now' tr' occurred_at'. commit_return pol view now' tid tr' occurred_at' s' = Inr (r, s'))"
proof -
  have "books_ok (rd_core s)" "distinct (map rtl_id (rd_lines s))" using assms(1) by (auto simp: return_inv_def)
  from commit_return_books [OF this(1) assms(2,3) this(2) assms(4-7), of view tr] obtain r s' where
      run: "commit_return pol view now tid tr occurred_at s = Inr (r, s')" and rest: "books_ok (rd_core s') \<and>
     (\<forall>k. on_hand (rd_core s') k = on_hand (rd_core s) k + sum_where rtl_picked_qty (\<lambda>l. return_dims t l = k) (received_lines lines)) \<and>
     rd_tasks s' = close_task tid (rd_tasks s) \<and>
     rd_lines s' = map (\<lambda>x. if x \<in> set (received_lines lines) then committed_line x else x) (rd_lines s) \<and>
     (received_lines lines \<noteq> [] \<longrightarrow> (\<forall>k. snap_qty (rd_snapshots s') (date_of now) k = on_hand (rd_core s') k))"
    by (elim exE conjE) (rule that, assumption, intro conjI)
  show ?thesis by (rule exI [of _ r], rule exI [of _ s']) (use run rest commit_return_again [OF run] in blast)
qed

lemma sample_return_facts:
  "return_inv sample_return_db" "lot_warehouses_ok (rd_core sample_return_db)" "grains_ok (rd_snapshots sample_return_db)"
  by code_simp+

definition sample_task :: "return_task \<times> return_line list" where
  "sample_task = (case get_with_lines 1 sample_return_db of Inr x \<Rightarrow> x | Inl _ \<Rightarrow> undefined)"

lemma sample_task_facts:
  "get_with_lines 1 sample_return_db = Inr (fst sample_task, snd sample_task)" "rt_status (fst sample_task) \<noteq> RT_COMMITTED"
  "\<forall>l \<in> set (received_lines (snd sample_task)). check_return_lot (fst sample_task) l (rd_core sample_return_db) = Inr () \<and>
     sample_policy (rtl_item_id l) \<noteq> None \<and>
     return_key (fst sample_task) l \<notin> set (map led_key (db_stock_ledger (rd_core sample_return_db)))"
  "on_hand (rd_core sample_return_db) (1, 2, 2) = 1"
  "sum_where rtl_picked_qty (\<lambda>l. return_dims (fst sample_task) l = (1, 2, 2)) (received_lines (snd sample_task)) = 2"
  by code_simp+

theorem return_commit_exact_witness:
  "\<exists>r s'. commit_return sample_policy sample_view sample_now 1 None None sample_return_db = Inr (r, s') \<and>
     on_hand (rd_core s') (1, 2, 2) = 3 \<and> commit_return sample_policy sample_view (sample_now + 7) 1 None None s' = Inr (r, s')"
proof -
  have "date_of (case None of Some x \<Rightarrow> x | None \<Rightarrow> sample_now) = date_of sample_now" by simp
  from return_commit_exact [OF sample_return_facts sample_task_facts(1-3) this, of sample_view None] sample_task_facts(4,5)
  show ?thesis by fastforce
qed

text \<open>
  Claim C23. Life of the return tasks, over every sequence of return operations, operations of the rest of the
  system and snapshots: on every line the received quantity stays between zero and the expected one, which is at
  most what the order has shipped from that lot; a committed line carries what was received and belongs to a
  committed task; and a committed task and its lines never change again.
\<close>

theorem return_task_lifecycle:
  assumes "return_inv s0" and "return_run pms lu view s0 s"
  shows "return_inv s \<and> committed_stay s0 s"
  using return_run_inv [OF assms(2,1)] by blast

definition sample_return_run :: "return_op list" where
  "sample_return_run = [RO_create ''ORD-1'' None False, RO_receive 1 2 3, RO_core (Adjust 0 sample_ship), RO_commit sample_now 1 None None,
     RO_create ''ORD-1'' None False, RO_receive 2 2 3, RO_commit sample_now 2 None None]"

lemma sample_return_run_succeeds:
  "succeeds (exec_return_ops sample_return_run sample_return_start) (\<lambda>s. on_hand (rd_core s) (1, 2, 2) = 7 \<and> length (rd_tasks s) = 2)"
  by code_simp

lemma sample_return_start_inv: "return_inv sample_return_start"
  by code_simp

theorem return_task_lifecycle_witness:
  "\<exists>s. exec_return_ops sample_return_run sample_return_start = Inr s \<and> return_inv s"
proof -
  obtain s where "exec_return_ops sample_return_run sample_return_start = Inr s" using succeedsD [OF sample_return_run_succeeds] by blast
  with return_task_lifecycle [OF sample_return_start_inv exec_return_ops_run [OF return_run.start this]] show ?thesis by blast
qed

definition line_summary :: "return_line \<Rightarrow> int \<times> int \<times> int option" where
  "line_summary l = (rtl_item_id l, rtl_lot_id l, rtl_expected_qty l)"

definition shipped_line_summary :: "shipped_line \<Rightarrow> int \<times> int \<times> int option" where
  "shipped_line_summary y = (sh_item_id y, sh_lot_id y, Some (sh_shipped_qty y))"

lemma insert_return_lines_loop:
  assumes "\<forall>y \<in> set ys. norm_lot_code (sh_lot_code_snapshot y) \<noteq> None \<and> has_lot (rd_core u) (sh_lot_id y)"
  shows "\<exists>us u' ls. map_loop (insert_return_line i) ys u = Inr (us, u') \<and> rd_tasks u' = rd_tasks u \<and> rd_lines u' = rd_lines u @ ls \<and>
      (\<forall>l \<in> set ls. rtl_task_id l = i) \<and> map line_summary ls = map shipped_line_summary ys"
  using assms
proof (induction ys arbitrary: u)
  case (Cons y ys)
  then obtain v l where v: "insert_return_line i y u = Inr ((), v)" "rd_core v = rd_core u" "rd_tasks v = rd_tasks u"
    "rd_lines v = rd_lines u @ [l]" "rtl_task_id l = i" "line_summary l = shipped_line_summary y"
    by (auto simp: insert_return_line_def line_summary_def shipped_line_summary_def)
  from Cons.IH [of v] Cons.prems v(2) obtain us u' ls where r: "map_loop (insert_return_line i) ys v = Inr (us, u')" "rd_tasks u' = rd_tasks v"
    "rd_lines u' = rd_lines v @ ls" "\<forall>l \<in> set ls. rtl_task_id l = i" "map line_summary ls = map shipped_line_summary ys" by auto
  with v show ?case by (intro exI [of _ "() # us"] exI [of _ u'] exI [of _ "l # ls"]) simp
qed simp

text \<open>
  What has been returned is not deducted. For an order without an open task that has shipped from coded
  lots of one warehouse, a new task can always be created, and its lines expect the full shipped quantity again,
  however much of it earlier tasks have already brought back.
\<close>

lemma new_return_task_expects_everything:
  assumes "py_strip order_id = order_ref" and "order_ref \<noteq> []" and "open_task order_ref s = None"
    and "load_shipped_summary order_ref (rd_core s) = x # xs"
    and "\<forall>y \<in> set (x # xs). sh_warehouse_id y = sh_warehouse_id x \<and> norm_lot_code (sh_lot_code_snapshot y) \<noteq> None
           \<and> has_lot (rd_core s) (sh_lot_id y)"
    and "return_inv s"
  shows "\<exists>t ls s'. create_for_order order_id None False s = Inr ((t, ls), s') \<and>
     map line_summary ls = map shipped_line_summary (x # xs)"
proof -
  define t where "t = \<lparr>rt_id = next_id (map rt_id (rd_tasks s)), rt_order_id = order_ref, rt_warehouse_id = sh_warehouse_id x, rt_status = RT_OPEN\<rparr>"
  obtain us s' ls where r: "map_loop (insert_return_line (rt_id t)) (x # xs) (s\<lparr>rd_tasks := rd_tasks s @ [t]\<rparr>) = Inr (us, s')"
    "rd_tasks s' = rd_tasks s @ [t]" "rd_lines s' = rd_lines s @ ls" "\<forall>l \<in> set ls. rtl_task_id l = rt_id t"
    "map line_summary ls = map shipped_line_summary (x # xs)"
    using insert_return_lines_loop [of "x # xs" "s\<lparr>rd_tasks := rd_tasks s @ [t]\<rparr>" "rt_id t"] assms(5) by auto
  have fresh: "rt_id u \<noteq> rt_id t" if "u \<in> set (rd_tasks s)" for u
    using next_id_fresh_row [of rt_id "rd_tasks s" u] that by (auto simp: t_def)
  have "find (\<lambda>u. rt_id u = rt_id t) (rd_tasks s @ [t]) = Some t" by (rule find_snoc) (use fresh in \<open>auto simp: find_None_iff\<close>)
  moreover have "filter (\<lambda>l. rtl_task_id l = rt_id t) (rd_lines s) = []"
    using fresh assms(6) by (fastforce simp: filter_empty_conv return_inv_def)
  then have "task_lines (rt_id t) s' = ls" using r(3,4) by (simp add: task_lines_def)
  ultimately have "get_with_lines (rt_id t) s' = Inr (t, ls)" by (simp add: get_with_lines_def r(2))
  moreover have "filter (\<lambda>y. 0 < sh_shipped_qty y) (x # xs) = x # xs"
    by (rule filter_True) (use shipped_summary(2) [of _ order_ref "rd_core s"] assms(4) in metis)
  moreover have "ensure (\<forall>y \<in> set (x # xs). sh_warehouse_id y = sh_warehouse_id x) (ValueError ''multi-warehouse'') = Inr ()"
    unfolding ensure_Inr using assms(5) by blast
  ultimately have "create_for_order order_id None False s = Inr ((t, ls), s')"
    using r(1) unfolding create_for_order_def Let_def assms(1) assms(3) assms(4)
    by (simp only: assms(2) t_def [symmetric] ensure_simps not_False_eq_True bindR_simps option.case list.case if_False split_conv)
  with r(5) show ?thesis by blast
qed

text \<open>After a full return the quantity on hand is what it was; a second task brings it back once more.\<close>

definition returned_once :: return_db where
  "returned_once = (case exec_return_ops (take 4 sample_return_run) sample_return_start of Inr s \<Rightarrow> s | Inl _ \<Rightarrow> sample_return_start)"

lemma new_return_task_expects_everything_witness:
  "on_hand (rd_core returned_once) (1, 2, 2) = 4 \<and>
   (\<exists>t ls s'. create_for_order ''ORD-1'' None False returned_once = Inr ((t, ls), s') \<and> map line_summary ls = [(2, 2, Some 3)])"
proof -
  let ?x = "\<lparr>sh_item_id = 2, sh_warehouse_id = 1, sh_lot_id = 2, sh_lot_code_snapshot = Some ''B1'', sh_shipped_qty = 3\<rparr>"
  have f: "py_strip ''ORD-1'' = ''ORD-1''" "open_task ''ORD-1'' returned_once = None"
    "load_shipped_summary ''ORD-1'' (rd_core returned_once) = [?x]" "return_inv returned_once" "on_hand (rd_core returned_once) (1, 2, 2) = 4"
    "\<forall>y \<in> set [?x]. sh_warehouse_id y = sh_warehouse_id ?x \<and> norm_lot_code (sh_lot_code_snapshot y) \<noteq> None
       \<and> has_lot (rd_core returned_once) (sh_lot_id y)" "map shipped_line_summary [?x] = [(2, 2, Some 3)]"
    by code_simp+
  show ?thesis using new_return_task_expects_everything [OF f(1) _ f(2,3,6,4)] f(5,7) by simp
qed

text \<open>A commit books into a warehouse that a count document has frozen.\<close>

lemma return_commit_ignores_freeze:
  "succeeds (exec_return_ops [RO_core (Count (CO_create 3 ''CTD-1'' 1 3 None)), RO_core (Count (CO_freeze 1)), RO_commit sample_now 1 None None]
      sample_return_db) (\<lambda>s. frozen 1 (rd_core s) \<and> on_hand (rd_core s) (1, 2, 2) = on_hand (rd_core sample_return_db) (1, 2, 2) + 2)"
  by code_simp

text \<open>A commit dated on a day without snapshot is refused by the check of the three books.\<close>

lemma return_commit_backdated_refused:
  "commit_return sample_policy sample_view sample_now 1 None (Some (sample_now - day_us)) sample_return_db
     = Inl (ValueError ''three books: snapshot_total != stocks_lot_total'')"
  by code_simp

text \<open>
  The time of a movement is taken from the request unchecked. A shipment dated after the end of the present day is in the
  balances but not yet in the ledger of the day: the snapshot from the balances says seven, the one rebuilt from the ledger ten.
\<close>

lemma future_movement_splits_snapshots:
  "succeeds (adjust_lot sample_policy 0 (sample_ship\<lparr>aa_occurred_at := Some (sample_now + 2 * day_us)\<rparr>) sample_db)
     (\<lambda>(_, d). succeeds (run_snapshot (\<lambda>_ _. None) sample_now d []) (\<lambda>(_, s1). snap_qty s1 (date_of sample_now) (1, 1, 1) = 7) \<and>
        succeeds (snapshot_pipeline sample_now d []) (\<lambda>(_, _, s2). snap_qty s2 (date_of sample_now) (1, 1, 1) = 10))"
  by code_simp

end
