(* ===== verification/Order_Ref.thy ===== *)
theory Order_Ref
  imports Barcode_Laws Wms_State
begin

text \<open>
  Order references, \<open>app/oms/services/order_ref_resolver.py\<close>: an order is named by its number, by
  \<open>ORD:PLAT:STORE:EXT\<close> or \<open>PLAT:STORE:EXT\<close>, or by an external order number that is unique. The branch
  that creates a missing order in the test environment is left out.

  Shown here: the reference that the services write for an order is resolved to that order.
\<close>

section \<open>Text\<close>

fun split_on :: "char \<Rightarrow> string \<Rightarrow> string list" where
  "split_on c [] = [[]]"
| "split_on c (x # xs) =
     (if x = c then [] # split_on c xs
      else (case split_on c xs of p # ps \<Rightarrow> (x # p) # ps | [] \<Rightarrow> [[x]]))"

fun join_with :: "string \<Rightarrow> string list \<Rightarrow> string" where
  "join_with sep [] = []"
| "join_with sep [p] = p"
| "join_with sep (p # ps) = p @ sep @ join_with sep ps"

lemma split_on_ne [simp]: "split_on c s \<noteq> []"
  by (induction s) (auto split: list.splits)

lemma split_on_plain: "c \<notin> set s \<Longrightarrow> split_on c s = [s]"
  by (induction s) auto

lemma split_on_append: "c \<notin> set p \<Longrightarrow> split_on c (p @ c # s) = p # split_on c s"
  by (induction p) auto

lemma join_split: "join_with [c] (split_on c s) = s"
proof (induction s)
  case (Cons x s)
  obtain p ps where sp: "split_on c s = p # ps" by (cases "split_on c s") auto
  with Cons show ?case by (cases ps) auto
qed simp

section \<open>\_parse\_order\_key\<close>

record order_key =
  ok_platform :: string
  ok_store_code :: string
  ok_ext_order_no :: string

definition key_of_parts :: "string \<Rightarrow> string \<Rightarrow> string list \<Rightarrow> order_key option" where
  "key_of_parts p st rest =
     (let platform = py_strip p; store_code = py_strip st; ext = py_strip (join_with '':'' rest)
      in if platform \<noteq> [] \<and> store_code \<noteq> [] \<and> ext \<noteq> []
         then Some \<lparr>ok_platform = platform, ok_store_code = store_code, ok_ext_order_no = ext\<rparr> else None)"

definition parse_order_key :: "string \<Rightarrow> order_key option" where
  "parse_order_key order_ref =
     (let s = py_strip order_ref
      in if s = [] then None
         else case split_on (CHR '':'') s of
                a # b # c # e # es \<Rightarrow>
                  (if py_upper a = ''ORD'' then key_of_parts b c (e # es) else key_of_parts a b (c # e # es))
              | [a, b, c] \<Rightarrow> key_of_parts a b [c]
              | _ \<Rightarrow> None)"

section \<open>resolve\_order\_id\<close>

definition resolve_order_id :: "string \<Rightarrow> db \<Rightarrow> int result" where
  "resolve_order_id order_ref d =
     (let s = py_strip order_ref
      in bindR (ensure (s \<noteq> []) (ValueError ''order_ref cannot be empty'')) (\<lambda>_.
         if py_isdigit s then
           bindR (require_some (find (\<lambda>h. ord_id h = decimal s) (db_orders d)) (HTTPException 404 ''order_not_found'')) (\<lambda>h. Inr (ord_id h))
         else case parse_order_key s of
                Some key \<Rightarrow>
                  bindR (require_some (find (\<lambda>h. ord_platform h = ok_platform key \<and> ord_store_code h = ok_store_code key \<and>
                      ord_ext_order_no h = ok_ext_order_no key) (db_orders d)) (HTTPException 404 ''order_not_found'')) (\<lambda>h. Inr (ord_id h))
              | None \<Rightarrow>
                  (case sort_key ord_id (filter (\<lambda>h. ord_ext_order_no h = s) (db_orders d)) of
                     [] \<Rightarrow> Inl (HTTPException 404 ''order_not_found'')
                   | [h] \<Rightarrow> Inr (ord_id h)
                   | _ \<Rightarrow> Inl (HTTPException 409 ''order_ref_ambiguous''))))"

section \<open>The reference of an order\<close>

definition order_ref_of :: "order_head \<Rightarrow> string" where
  "order_ref_of h = ''ORD:'' @ ord_platform h @ '':'' @ ord_store_code h @ '':'' @ ord_ext_order_no h"

text \<open>Text that a separator or a strip cannot change.\<close>

definition plain_part :: "string \<Rightarrow> bool" where
  "plain_part p \<longleftrightarrow> p \<noteq> [] \<and> py_strip p = p"

definition wf_order :: "order_head \<Rightarrow> bool" where
  "wf_order h \<longleftrightarrow> plain_part (ord_platform h) \<and> plain_part (ord_store_code h) \<and> plain_part (ord_ext_order_no h) \<and>
     CHR '':'' \<notin> set (ord_platform h) \<and> CHR '':'' \<notin> set (ord_store_code h)"

lemma strip_last: "py_strip s \<noteq> [] \<Longrightarrow> \<not> is_space (last (py_strip s))"
proof -
  assume "py_strip s \<noteq> []"
  then have "dropWhile is_space (rev (dropWhile is_space s)) \<noteq> []" by (simp add: py_strip_def)
  from hd_dropWhile [OF this] show ?thesis by (simp add: py_strip_def last_rev)
qed

lemma order_ref_stripped:
  assumes "wf_order h"
  shows "py_strip (order_ref_of h) = order_ref_of h"
proof -
  have e: "ord_ext_order_no h \<noteq> []" "\<not> is_space (last (ord_ext_order_no h))"
    using assms strip_last [of "ord_ext_order_no h"] by (auto simp: wf_order_def plain_part_def)
  show ?thesis by (rule py_strip_ends) (use e in \<open>simp_all add: order_ref_of_def is_space_def\<close>)
qed

lemma parse_order_ref:
  assumes "wf_order h"
  shows "parse_order_key (order_ref_of h) =
     Some \<lparr>ok_platform = ord_platform h, ok_store_code = ord_store_code h, ok_ext_order_no = ord_ext_order_no h\<rparr>"
proof -
  let ?e = "split_on (CHR '':'') (ord_ext_order_no h)"
  have w: "CHR '':'' \<notin> set (ord_platform h)" "CHR '':'' \<notin> set (ord_store_code h)" using assms by (simp_all add: wf_order_def)
  obtain e es where es: "?e = e # es" by (cases ?e) auto
  have sp: "split_on (CHR '':'') (order_ref_of h) = ''ORD'' # ord_platform h # ord_store_code h # e # es"
    using split_on_append [of "CHR '':''" "''ORD''"] w es by (simp add: order_ref_of_def split_on_append)
  have up: "py_upper ''ORD'' = ''ORD''" by code_simp
  have ne: "(order_ref_of h = []) = False" by (simp add: order_ref_of_def)
  have key: "key_of_parts (ord_platform h) (ord_store_code h) (e # es) =
      Some \<lparr>ok_platform = ord_platform h, ok_store_code = ord_store_code h, ok_ext_order_no = ord_ext_order_no h\<rparr>"
    unfolding es [symmetric] using assms by (simp add: key_of_parts_def Let_def wf_order_def plain_part_def join_split)
  show ?thesis
    by (simp only: parse_order_key_def order_ref_stripped [OF assms] Let_def sp list.case ne if_False up if_True refl key)
qed

lemma find_only: "x \<in> set xs \<Longrightarrow> P x \<Longrightarrow> (\<And>y. y \<in> set xs \<Longrightarrow> P y \<Longrightarrow> y = x) \<Longrightarrow> find P xs = Some x"
  by (cases "find P xs") (use find_NoneD find_SomeD in metis)+

lemma resolve_order_ref:
  assumes "wf_order h" and "h \<in> set (db_orders d)"
    and "\<And>g. g \<in> set (db_orders d) \<Longrightarrow> (ord_platform g, ord_store_code g, ord_ext_order_no g) =
       (ord_platform h, ord_store_code h, ord_ext_order_no h) \<Longrightarrow> g = h"
  shows "resolve_order_id (order_ref_of h) d = Inr (ord_id h)"
proof -
  have "\<not> py_isdigit (order_ref_of h)" "order_ref_of h \<noteq> []" by (simp_all add: order_ref_of_def py_isdigit_def is_digit_def)
  moreover have "find (\<lambda>g. ord_platform g = ord_platform h \<and> ord_store_code g = ord_store_code h \<and>
      ord_ext_order_no g = ord_ext_order_no h) (db_orders d) = Some h"
    by (rule find_only) (use assms(2,3) in simp_all)
  ultimately show ?thesis
    using order_ref_stripped [OF assms(1)] parse_order_ref [OF assms(1)] by (simp add: resolve_order_id_def)
qed

end
