(* ===== verification/Receipts.thy ===== *)
theory Receipts
  imports Return_Task Inbound_Commit Order_Ref Complex_Main
begin

text \<open>
  Inbound receipts and receiving, \<open>app/wms/inventory_adjustment/return_inbound\<close>
  (\<open>models/inbound_receipt.py\<close>, \<open>models/inbound_operation.py\<close>, \<open>repos/inbound_receipt_write_repo.py\<close>,
  \<open>repos/inbound_receipt_read_repo.py\<close>): a receipt is a task to receive goods, made from a purchase
  order, by hand, or from the shipped lines of an order that come back. It is released, and
  operations receive goods against its lines until every line is complete.

  The tables stand beside the database in the record \<open>receipt_db\<close>. Services outside the repository
  are the fields of \<open>receiving_client\<close>: the product master data and the purchase orders of the
  procurement service. A fresh receipt number is drawn from a random source and is an argument.
  Display names of items and units, the operator and the length limits of texts are left out.
\<close>

section \<open>Tables\<close>

datatype receipt_status = IR_DRAFT | IR_RELEASED | IR_COMPLETED | IR_VOIDED
datatype receipt_source = SRC_PURCHASE_ORDER | SRC_MANUAL | SRC_RETURN_ORDER

record receipt =
  ir_id :: int
  ir_receipt_no :: string
  ir_source_type :: receipt_source
  ir_source_doc_id :: "int option"
  ir_source_doc_no :: "string option"
  ir_warehouse_id :: int
  ir_warehouse_name :: "string option"
  ir_supplier_id :: "int option"
  ir_counterparty_name :: "string option"
  ir_status :: receipt_status
  ir_remark :: "string option"
  ir_released_at :: "datetime option"

record receipt_line =
  irl_id :: int
  irl_receipt_id :: int
  irl_line_no :: int
  irl_source_line_id :: "int option"
  irl_item_id :: int
  irl_item_uom_id :: int
  irl_planned_qty :: int
  irl_ratio :: int
  irl_remark :: "string option"

record operation =
  io_id :: int
  io_receipt_no :: string
  io_warehouse_id :: int
  io_supplier_id :: "int option"
  io_supplier_name :: "string option"
  io_operated_at :: datetime
  io_remark :: "string option"

record operation_line =
  iol_id :: int
  iol_operation_id :: int
  iol_receipt_line_no :: int
  iol_item_id :: int
  iol_uom_id :: int
  iol_ratio :: int
  iol_qty_input :: int
  iol_qty_base :: int
  iol_batch_no :: "string option"
  iol_production_date :: "date option"
  iol_expiry_date :: "date option"
  iol_lot_id :: "int option"
  iol_remark :: "string option"

record order_item =
  oi_id :: int
  oi_order_id :: int
  oi_item_id :: int
  oi_sku_id :: "string option"
  oi_qty :: "int option"
  oi_shipped_qty :: int
  oi_returned_qty :: int

record receipt_db =
  ib_rest :: return_db
  ib_receipts :: "receipt list"
  ib_receipt_lines :: "receipt_line list"
  ib_operations :: "operation list"
  ib_operation_lines :: "operation_line list"
  ib_order_items :: "order_item list"
  ib_order_status :: "int \<Rightarrow> string option"    \<comment> \<open>\<open>orders.status\<close> by order id\<close>
  ib_suppliers :: "(int \<times> string) list"          \<comment> \<open>\<open>wms_pms_supplier_projection\<close>\<close>

type_synonym 'a receipt_action = "receipt_db \<Rightarrow> ('a \<times> receipt_db) result"

definition core :: "receipt_db \<Rightarrow> db" where
  "core s = rd_core (ib_rest s)"

definition set_core :: "db \<Rightarrow> receipt_db \<Rightarrow> receipt_db" where
  "set_core d s = s\<lparr>ib_rest := (ib_rest s)\<lparr>rd_core := d\<rparr>\<rparr>"

text \<open>A statement on the core tables.\<close>

definition on_core :: "'a action \<Rightarrow> 'a receipt_action" where
  "on_core f s = bindR (f (core s)) (\<lambda>(x, d). Inr (x, set_core d s))"

text \<open>The id of a receipt is also known to the core, where lots refer to it.\<close>

definition insert_receipt :: "receipt \<Rightarrow> int receipt_action" where
  "insert_receipt r s =
     (let row = r\<lparr>ir_id := next_id (map ir_id (ib_receipts s))\<rparr>; d = core s
      in bindR (ensure (ir_receipt_no row \<notin> set (map ir_receipt_no (ib_receipts s))) (IntegrityError ''uq_inbound_receipts_receipt_no'')) (\<lambda>_.
         bindR (ensure (ir_warehouse_id row \<in> set (map wh_id (db_warehouses d))) (IntegrityError ''fk_inbound_receipts_warehouse'')) (\<lambda>_.
         Inr (ir_id row, (set_core (d\<lparr>db_inbound_receipts := db_inbound_receipts d @ [ir_id row]\<rparr>) s)\<lparr>ib_receipts := ib_receipts s @ [row]\<rparr>))))"

definition insert_receipt_line :: "receipt_line \<Rightarrow> unit receipt_action" where
  "insert_receipt_line l s =
     (let row = l\<lparr>irl_id := next_id (map irl_id (ib_receipt_lines s))\<rparr>
      in bindR (ensure (0 < irl_planned_qty row) (IntegrityError ''ck_inbound_receipt_lines_planned_qty_positive'')) (\<lambda>_.
         bindR (ensure (0 < irl_ratio row) (IntegrityError ''ck_inbound_receipt_lines_ratio_positive'')) (\<lambda>_.
         bindR (ensure (irl_receipt_id row \<in> set (map ir_id (ib_receipts s))) (IntegrityError ''fk_inbound_receipt_lines_receipt'')) (\<lambda>_.
         bindR (ensure (\<not> (\<exists>x \<in> set (ib_receipt_lines s). irl_receipt_id x = irl_receipt_id row \<and> irl_line_no x = irl_line_no row))
            (IntegrityError ''uq_inbound_receipt_lines_receipt_line'')) (\<lambda>_.
         Inr ((), s\<lparr>ib_receipt_lines := ib_receipt_lines s @ [row]\<rparr>))))))"

section \<open>The services that receiving calls\<close>

record inbound_uom =
  iu_id :: int
  iu_item_id :: int
  iu_ratio_to_base :: int
  iu_is_inbound_default :: bool
  iu_is_base :: bool

datatype purchase_order_status = PO_CREATED | PO_CLOSED | PO_CANCELED

record purchase_line =
  pol_id :: int
  pol_line_no :: int
  pol_item_id :: int
  pol_uom_id :: int
  pol_ratio_to_base :: int
  pol_qty_ordered_input :: rat
  pol_remark :: "string option"

record purchase_order =
  po_id :: int
  po_no :: string
  po_supplier_id :: int
  po_supplier_name :: string
  po_target_warehouse_id :: int
  po_status :: purchase_order_status
  po_remark :: "string option"
  po_lines :: "purchase_line list"

text \<open>\<open>None\<close> of \<open>rc_purchase_order\<close> is an error of the procurement client.\<close>

record receiving_client =
  rc_pms :: pms_client
  rc_probe_active :: "string \<Rightarrow> bool option"
  rc_list_uoms :: "int list \<Rightarrow> inbound_uom list"
  rc_purchase_order :: "int \<Rightarrow> purchase_order option"

section \<open>Reading a receipt\<close>

definition lines_of_receipt :: "int \<Rightarrow> receipt_db \<Rightarrow> receipt_line list" where
  "lines_of_receipt rid s = sort_key irl_line_no (filter (\<lambda>l. irl_receipt_id l = rid) (ib_receipt_lines s))"

definition receipt_by_id :: "int \<Rightarrow> receipt_db \<Rightarrow> receipt option" where
  "receipt_by_id rid s = find (\<lambda>r. ir_id r = rid) (ib_receipts s)"

definition receipt_by_no :: "string \<Rightarrow> receipt_db \<Rightarrow> receipt option" where
  "receipt_by_no no s = find (\<lambda>r. ir_receipt_no r = no) (ib_receipts s)"

definition get_inbound_receipt :: "int \<Rightarrow> receipt_db \<Rightarrow> (receipt \<times> receipt_line list) result" where
  "get_inbound_receipt rid s =
     bindR (require_some (receipt_by_id rid s) (HTTPException 404 ''inbound_receipt_not_found'')) (\<lambda>r.
     Inr (r, lines_of_receipt rid s))"

definition planned_base :: "receipt_line \<Rightarrow> int" where
  "planned_base l = irl_planned_qty l * irl_ratio l"

text \<open>The operations of a receipt number, and what they received on a line in base units.\<close>

definition ops_of :: "string \<Rightarrow> receipt_db \<Rightarrow> int list" where
  "ops_of no s = map io_id (filter (\<lambda>o'. io_receipt_no o' = no) (ib_operations s))"

definition received_base :: "string \<Rightarrow> int \<Rightarrow> receipt_db \<Rightarrow> int" where
  "received_base no line_no s =
     sum_where iol_qty_base (\<lambda>x. iol_operation_id x \<in> set (ops_of no s) \<and> iol_receipt_line_no x = line_no) (ib_operation_lines s)"

record progress_line =
  pg_line_no :: int
  pg_planned_qty :: int
  pg_received_qty :: rat
  pg_remaining_qty :: rat

definition progress_of :: "string \<Rightarrow> receipt_db \<Rightarrow> receipt_line \<Rightarrow> progress_line" where
  "progress_of no s l =
     (let got = received_base no (irl_line_no l) s
      in \<lparr>pg_line_no = irl_line_no l, pg_planned_qty = irl_planned_qty l,
          pg_received_qty = of_int got / of_int (irl_ratio l),
          pg_remaining_qty = of_int (max (planned_base l - got) 0) / of_int (irl_ratio l)\<rparr>)"

definition get_inbound_receipt_progress :: "int \<Rightarrow> receipt_db \<Rightarrow> progress_line list result" where
  "get_inbound_receipt_progress rid s =
     bindR (require_some (receipt_by_id rid s) (HTTPException 404 ''inbound_receipt_not_found'')) (\<lambda>r.
     Inr (map (progress_of (ir_receipt_no r) s) (lines_of_receipt rid s)))"

text \<open>The list of receipts and the list of tasks: totals over the lines.\<close>

record receipt_summary =
  rs_receipt :: receipt
  rs_last_operated_at :: "datetime option"
  rs_line_count :: int
  rs_total_planned_qty :: int
  rs_total_received_qty :: rat
  rs_total_remaining_qty :: rat

definition last_operated_at :: "string \<Rightarrow> receipt_db \<Rightarrow> datetime option" where
  "last_operated_at no s =
     (case map io_operated_at (filter (\<lambda>o'. io_receipt_no o' = no) (ib_operations s)) of
        [] \<Rightarrow> None
      | t # ts \<Rightarrow> Some (foldr max ts t))"

definition summarize :: "receipt_db \<Rightarrow> receipt \<Rightarrow> receipt_summary" where
  "summarize s r =
     (let ps = map (progress_of (ir_receipt_no r) s) (lines_of_receipt (ir_id r) s)
      in \<lparr>rs_receipt = r, rs_last_operated_at = last_operated_at (ir_receipt_no r) s, rs_line_count = int (length ps),
          rs_total_planned_qty = sum_list (map pg_planned_qty ps), rs_total_received_qty = sum_list (map pg_received_qty ps),
          rs_total_remaining_qty = sum_list (map pg_remaining_qty ps)\<rparr>)"

definition list_inbound_receipts :: "receipt_db \<Rightarrow> receipt_summary list" where
  "list_inbound_receipts s = map (summarize s) (rev (sort_key ir_id (ib_receipts s)))"

text \<open>Tasks come latest first; those without a time come last.\<close>

definition task_order :: "receipt_summary \<Rightarrow> int \<times> int \<times> int" where
  "task_order x =
     (case (rs_last_operated_at x, ir_released_at (rs_receipt x)) of
        (Some t, _) \<Rightarrow> (0, - t, - ir_id (rs_receipt x))
      | (None, Some t) \<Rightarrow> (0, - t, - ir_id (rs_receipt x))
      | (None, None) \<Rightarrow> (1, 0, - ir_id (rs_receipt x)))"

definition list_inbound_tasks :: "receipt_db \<Rightarrow> receipt_summary list" where
  "list_inbound_tasks s =
     sort_key task_order
       (map (summarize s)
          (filter (\<lambda>r. ir_status r \<in> {IR_RELEASED, IR_COMPLETED} \<and> lines_of_receipt (ir_id r) s \<noteq> []) (ib_receipts s)))"

record task_line_view =
  tv_line :: receipt_line
  tv_progress :: progress_line
  tv_planned_qty_base :: int
  tv_received_qty_base :: int
  tv_remaining_qty_base :: int
  tv_policy :: item_policy

definition task_line_view_of :: "receiving_client \<Rightarrow> string \<Rightarrow> receipt_db \<Rightarrow> receipt_line \<Rightarrow> task_line_view result" where
  "task_line_view_of rc no s l =
     bindR (require_some (pms_policy (rc_pms rc) (irl_item_id l)) (HTTPException 404 ''item_policy_not_found'')) (\<lambda>p.
     (let got = received_base no (irl_line_no l) s
      in Inr \<lparr>tv_line = l, tv_progress = progress_of no s l, tv_planned_qty_base = planned_base l, tv_received_qty_base = got,
              tv_remaining_qty_base = max (planned_base l - got) 0, tv_policy = p\<rparr>))"

fun map_result :: "('a \<Rightarrow> 'b result) \<Rightarrow> 'a list \<Rightarrow> 'b list result" where
  "map_result f [] = Inr []"
| "map_result f (x # xs) = bindR (f x) (\<lambda>y. bindR (map_result f xs) (\<lambda>ys. Inr (y # ys)))"

definition get_inbound_task :: "receiving_client \<Rightarrow> string \<Rightarrow> receipt_db \<Rightarrow> (receipt \<times> task_line_view list) result" where
  "get_inbound_task rc no s =
     bindR (require_some (receipt_by_no no s) (HTTPException 404 ''inbound_task_not_found'')) (\<lambda>r.
     bindR (ensure (ir_status r \<in> {IR_RELEASED, IR_COMPLETED}) (HTTPException 409 ''inbound_task_not_readable'')) (\<lambda>_.
     bindR (map_result (task_line_view_of rc no s) (lines_of_receipt (ir_id r) s)) (\<lambda>ls. Inr (r, ls))))"

section \<open>Probing a barcode against a task\<close>

datatype task_probe = PROBE_MATCHED receipt_line bool | PROBE_AMBIGUOUS | PROBE_UNMATCHED | PROBE_UNBOUND

text \<open>The flag of a match says that the packaging differs from the planned one.\<close>

definition match_line :: "receipt_line list \<Rightarrow> int \<Rightarrow> int option \<Rightarrow> task_probe" where
  "match_line ls item_id item_uom_id =
     (let exact = (case item_uom_id of None \<Rightarrow> [] | Some u \<Rightarrow> filter (\<lambda>l. irl_item_id l = item_id \<and> irl_item_uom_id l = u) ls);
          by_item = filter (\<lambda>l. irl_item_id l = item_id) ls
      in case exact of
           [l] \<Rightarrow> PROBE_MATCHED l False
         | _ # _ # _ \<Rightarrow> PROBE_AMBIGUOUS
         | [] \<Rightarrow> (case by_item of
                   [l] \<Rightarrow> PROBE_MATCHED l (item_uom_id \<noteq> None \<and> Some (irl_item_uom_id l) \<noteq> item_uom_id)
                 | _ # _ # _ \<Rightarrow> PROBE_AMBIGUOUS
                 | [] \<Rightarrow> PROBE_UNMATCHED))"

definition get_inbound_task_probe_lines :: "string \<Rightarrow> receipt_db \<Rightarrow> receipt_line list result" where
  "get_inbound_task_probe_lines no s =
     bindR (require_some (receipt_by_no no s) (HTTPException 404 ''inbound_task_not_found'')) (\<lambda>r.
     bindR (ensure (ir_status r = IR_RELEASED) (HTTPException 409 ''inbound_task_not_released'')) (\<lambda>_.
     Inr (lines_of_receipt (ir_id r) s)))"

definition probe_inbound_task_barcode :: "receiving_client \<Rightarrow> string \<Rightarrow> string \<Rightarrow> receipt_db \<Rightarrow> task_probe result" where
  "probe_inbound_task_barcode rc no barcode s =
     bindR (get_inbound_task_probe_lines no s) (\<lambda>ls.
     (let probe = pms_probe (rc_pms rc) (py_strip barcode)
      in case (bp_status probe, bp_item_id probe) of
           (BOUND, Some i) \<Rightarrow> Inr (match_line ls i (bp_item_uom_id probe))
         | _ \<Rightarrow> Inr PROBE_UNBOUND))"

end
