(* ===== verification/Receipt_Create.thy ===== *)
theory Receipt_Create
  imports Receipts
begin

text \<open>
  Creating and releasing inbound receipts, \<open>repos/inbound_receipt_write_repo.py\<close>, with the source of
  a return in \<open>repos/inbound_receipt_read_repo.py\<close>.
\<close>

section \<open>Helpers\<close>

text \<open>The column \<open>name\<close> exists in the table of warehouses.\<close>

definition warehouse_name_snapshot :: "int \<Rightarrow> db \<Rightarrow> string option" where
  "warehouse_name_snapshot w d = map_option wh_name (find (\<lambda>x. wh_id x = w) (db_warehouses d))"

definition load_supplier_name_snapshot :: "int \<Rightarrow> receipt_db \<Rightarrow> string result" where
  "load_supplier_name_snapshot i s = require_some (map_of (ib_suppliers s) i) (HTTPException 404 ''supplier_not_found'')"

definition load_manual_line_snapshot :: "receiving_client \<Rightarrow> int \<Rightarrow> int \<Rightarrow> int result" where
  "load_manual_line_snapshot rc item_id item_uom_id =
     bindR (ensure (pms_item_known (rc_pms rc) item_id) (HTTPException 404 ''item_not_found'')) (\<lambda>_.
     bindR (require_some (pms_uom (rc_pms rc) item_uom_id) (HTTPException 404 ''item_uom_not_found'')) (\<lambda>u.
     bindR (ensure (pu_item_id u = item_id) (HTTPException 409 ''item_uom_item_mismatch'')) (\<lambda>_.
     Inr (pu_ratio_to_base u))))"

definition to_positive_int_exact :: "rat \<Rightarrow> int result" where
  "to_positive_int_exact v =
     bindR (ensure (v = of_int \<lfloor>v\<rfloor>) (HTTPException 409 ''must_be_integer'')) (\<lambda>_.
     bindR (ensure (0 < \<lfloor>v\<rfloor>) (HTTPException 409 ''must_be_positive'')) (\<lambda>_.
     Inr \<lfloor>v\<rfloor>))"

definition draft_receipt ::
  "string \<Rightarrow> receipt_source \<Rightarrow> int option \<Rightarrow> string option \<Rightarrow> int \<Rightarrow> string option \<Rightarrow> int option \<Rightarrow> string option \<Rightarrow> string option \<Rightarrow> receipt" where
  "draft_receipt no src doc_id doc_no w w_name supplier counterparty remark =
     \<lparr>ir_id = 0, ir_receipt_no = no, ir_source_type = src, ir_source_doc_id = doc_id, ir_source_doc_no = doc_no,
      ir_warehouse_id = w, ir_warehouse_name = w_name, ir_supplier_id = supplier, ir_counterparty_name = counterparty,
      ir_status = IR_DRAFT, ir_remark = remark, ir_released_at = None\<rparr>"

text \<open>The latest receipt of a source document that is not voided.\<close>

definition existing_receipt :: "receipt_source \<Rightarrow> int \<Rightarrow> receipt_db \<Rightarrow> receipt option" where
  "existing_receipt src doc_id s =
     (case sort_key ir_id (filter (\<lambda>r. ir_source_type r = src \<and> ir_source_doc_id r = Some doc_id \<and> ir_status r \<noteq> IR_VOIDED) (ib_receipts s)) of
        [] \<Rightarrow> None
      | rs \<Rightarrow> Some (last rs))"

section \<open>From a purchase order\<close>

record purchase_payload =
  pp_source_doc_id :: int
  pp_warehouse_id :: int
  pp_remark :: "string option"

definition insert_purchase_line :: "int \<Rightarrow> purchase_line \<Rightarrow> unit receipt_action" where
  "insert_purchase_line rid l s =
     bindR (to_positive_int_exact (pol_qty_ordered_input l)) (\<lambda>planned_qty.
     insert_receipt_line
       \<lparr>irl_id = 0, irl_receipt_id = rid, irl_line_no = pol_line_no l, irl_source_line_id = Some (pol_id l),
        irl_item_id = pol_item_id l, irl_item_uom_id = pol_uom_id l, irl_planned_qty = planned_qty,
        irl_ratio = pol_ratio_to_base l, irl_remark = pol_remark l\<rparr> s)"

definition create_inbound_receipt_from_purchase ::
  "receiving_client \<Rightarrow> string \<Rightarrow> purchase_payload \<Rightarrow> (receipt \<times> receipt_line list) receipt_action" where
  "create_inbound_receipt_from_purchase rc receipt_no p s =
     bindR (require_some (rc_purchase_order rc (pp_source_doc_id p)) (HTTPException 502 ''procurement'')) (\<lambda>po.
     bindR (ensure (po_status po = PO_CREATED) (HTTPException 409 ''purchase_order_not_creatable'')) (\<lambda>_.
     bindR (ensure (po_target_warehouse_id po = pp_warehouse_id p) (HTTPException 409 ''purchase_order_warehouse_mismatch'')) (\<lambda>_.
     bindR (ensure (existing_receipt SRC_PURCHASE_ORDER (po_id po) s = None) (HTTPException 409 ''inbound_receipt_already_exists'')) (\<lambda>_.
     bindR (ensure (po_lines po \<noteq> []) (HTTPException 409 ''purchase_order_has_no_lines'')) (\<lambda>_.
     bindR (insert_receipt
        (draft_receipt receipt_no SRC_PURCHASE_ORDER (Some (po_id po)) (Some (po_no po)) (pp_warehouse_id p)
           (warehouse_name_snapshot (pp_warehouse_id p) (core s)) (Some (po_supplier_id po)) (Some (po_supplier_name po))
           (case pp_remark p of Some r \<Rightarrow> Some r | None \<Rightarrow> po_remark po)) s) (\<lambda>(rid, s1).
     bindR (map_loop (insert_purchase_line rid) (sort_key (\<lambda>l. (pol_line_no l, pol_id l)) (po_lines po)) s1) (\<lambda>(_, s2).
     bindR (get_inbound_receipt rid s2) (\<lambda>out. Inr (out, s2)))))))))"

section \<open>By hand\<close>

record manual_receipt_line =
  mrl_item_id :: int
  mrl_item_uom_id :: int
  mrl_planned_qty :: int
  mrl_remark :: "string option"

record manual_receipt =
  mr_warehouse_id :: int
  mr_supplier_id :: "int option"
  mr_remark :: "string option"
  mr_lines :: "manual_receipt_line list"

definition insert_manual_receipt_line :: "receiving_client \<Rightarrow> int \<Rightarrow> int \<times> manual_receipt_line \<Rightarrow> unit receipt_action" where
  "insert_manual_receipt_line rc rid nl s =
     (case nl of (idx, l) \<Rightarrow>
      bindR (load_manual_line_snapshot rc (mrl_item_id l) (mrl_item_uom_id l)) (\<lambda>ratio.
      insert_receipt_line
        \<lparr>irl_id = 0, irl_receipt_id = rid, irl_line_no = idx, irl_source_line_id = None, irl_item_id = mrl_item_id l,
         irl_item_uom_id = mrl_item_uom_id l, irl_planned_qty = mrl_planned_qty l, irl_ratio = ratio, irl_remark = mrl_remark l\<rparr> s))"

definition create_inbound_receipt_manual ::
  "receiving_client \<Rightarrow> string \<Rightarrow> manual_receipt \<Rightarrow> (receipt \<times> receipt_line list) receipt_action" where
  "create_inbound_receipt_manual rc receipt_no p s =
     bindR (ensure (mr_warehouse_id p \<in> set (map wh_id (db_warehouses (core s)))) (HTTPException 404 ''warehouse_not_found'')) (\<lambda>_.
     bindR (case mr_supplier_id p of None \<Rightarrow> Inr None | Some i \<Rightarrow> bindR (load_supplier_name_snapshot i s) (\<lambda>n. Inr (Some n))) (\<lambda>supplier_name.
     bindR (insert_receipt
        (draft_receipt receipt_no SRC_MANUAL None None (mr_warehouse_id p) (warehouse_name_snapshot (mr_warehouse_id p) (core s))
           (mr_supplier_id p) supplier_name (mr_remark p)) s) (\<lambda>(rid, s1).
     bindR (map_loop (insert_manual_receipt_line rc rid) (numbered (mr_lines p)) s1) (\<lambda>(_, s2).
     bindR (get_inbound_receipt rid s2) (\<lambda>out. Inr (out, s2))))))"

section \<open>The source of a return\<close>

definition clean_item_ids :: "int list \<Rightarrow> int list" where
  "clean_item_ids xs = sort (remdups (filter (\<lambda>i. 0 < i) xs))"

definition uom_rank :: "inbound_uom \<Rightarrow> int \<times> int \<times> int" where
  "uom_rank u = (iu_item_id u, (if iu_is_inbound_default u then 0 else if iu_is_base u then 1 else 2), iu_id u)"

definition inbound_default_uom :: "receiving_client \<Rightarrow> int list \<Rightarrow> int \<Rightarrow> inbound_uom option" where
  "inbound_default_uom rc item_ids i =
     (let ids = clean_item_ids item_ids
      in if ids = [] then None else find (\<lambda>u. iu_item_id u = i) (sort_key uom_rank (rc_list_uoms rc ids)))"

definition return_ship_reasons :: "string list" where
  "return_ship_reasons = [''SHIPMENT'', ''OUTBOUND_SHIP'']"

definition load_return_source_warehouse :: "string \<Rightarrow> db \<Rightarrow> int result" where
  "load_return_source_warehouse order_ref d =
     (case remdups (map led_warehouse_id
        (filter (\<lambda>r. led_ref r = order_ref \<and> led_delta r < 0 \<and> led_reason r \<in> set return_ship_reasons) (db_stock_ledger d))) of
        [] \<Rightarrow> Inl (HTTPException 409 ''return_order_has_no_shipped_facts'')
      | [w] \<Rightarrow> Inr w
      | _ \<Rightarrow> Inl (HTTPException 409 ''return_order_multi_warehouse''))"

record return_source_line =
  rsl_order_line_id :: int
  rsl_item_id :: int
  rsl_item_uom_id :: int
  rsl_ratio :: int
  rsl_qty_ordered :: int
  rsl_qty_shipped :: int
  rsl_qty_returned :: int
  rsl_qty_remaining_refundable :: int

record return_source =
  rsr_order :: order_head
  rsr_warehouse_id :: int
  rsr_warehouse_name :: "string option"
  rsr_remaining_qty :: int
  rsr_existing :: "receipt option"
  rsr_lines :: "return_source_line list"

definition remaining_refundable :: "order_item \<Rightarrow> int" where
  "remaining_refundable x = max (oi_shipped_qty x - oi_returned_qty x) 0"

definition refundable_items :: "int \<Rightarrow> receipt_db \<Rightarrow> order_item list" where
  "refundable_items order_id s =
     sort_key oi_id (filter (\<lambda>x. oi_order_id x = order_id \<and> 0 < remaining_refundable x) (ib_order_items s))"

definition return_source_line_of :: "receiving_client \<Rightarrow> int list \<Rightarrow> order_item \<Rightarrow> return_source_line result" where
  "return_source_line_of rc ids x =
     bindR (require_some (inbound_default_uom rc ids (oi_item_id x)) (HTTPException 409 ''item_has_no_inbound_uom'')) (\<lambda>u.
     Inr \<lparr>rsl_order_line_id = oi_id x, rsl_item_id = oi_item_id x, rsl_item_uom_id = iu_id u, rsl_ratio = iu_ratio_to_base u,
          rsl_qty_ordered = (case oi_qty x of None \<Rightarrow> 0 | Some q \<Rightarrow> q), rsl_qty_shipped = oi_shipped_qty x,
          rsl_qty_returned = oi_returned_qty x, rsl_qty_remaining_refundable = remaining_refundable x\<rparr>)"

definition get_inbound_return_source :: "receiving_client \<Rightarrow> string \<Rightarrow> receipt_db \<Rightarrow> return_source result" where
  "get_inbound_return_source rc order_key s =
     bindR (resolve_order_id order_key (core s)) (\<lambda>order_id.
     bindR (require_some (find (\<lambda>h. ord_id h = order_id) (db_orders (core s))) (HTTPException 404 ''return_order_not_found'')) (\<lambda>h.
     bindR (load_return_source_warehouse (order_ref_of h) (core s)) (\<lambda>w.
     (let items = refundable_items order_id s
      in bindR (ensure (items \<noteq> []) (HTTPException 409 ''return_order_has_no_refundable_lines'')) (\<lambda>_.
         bindR (map_result (return_source_line_of rc (map oi_item_id items)) items) (\<lambda>ls.
         Inr \<lparr>rsr_order = h, rsr_warehouse_id = w, rsr_warehouse_name = warehouse_name_snapshot w (core s),
              rsr_remaining_qty = sum_list (map remaining_refundable items),
              rsr_existing = existing_receipt SRC_RETURN_ORDER order_id s, rsr_lines = ls\<rparr>))))))"

section \<open>From a return\<close>

record return_receipt_line =
  rrl_order_line_id :: int
  rrl_item_id :: int
  rrl_planned_qty :: int
  rrl_remark :: "string option"

record return_receipt =
  rr_order_key :: string
  rr_remark :: "string option"
  rr_lines :: "return_receipt_line list"

definition return_counterparty :: "string \<Rightarrow> string \<Rightarrow> string option" where
  "return_counterparty platform store_code =
     (if platform \<noteq> [] \<and> store_code \<noteq> [] then Some (platform @ '':'' @ store_code)
      else if platform \<noteq> [] then Some platform
      else if store_code \<noteq> [] then Some store_code else None)"

text \<open>The loop remembers the order lines it has seen.\<close>

definition insert_return_receipt_line ::
  "return_source_line list \<Rightarrow> int \<Rightarrow> int \<times> return_receipt_line \<Rightarrow> int list \<times> receipt_db \<Rightarrow> (unit \<times> int list \<times> receipt_db) result" where
  "insert_return_receipt_line src rid nl = (\<lambda>(seen, s).
     case nl of (idx, l) \<Rightarrow>
     bindR (ensure (rrl_order_line_id l \<notin> set seen) (HTTPException 409 ''duplicate_return_order_line'')) (\<lambda>_.
     bindR (require_some (find (\<lambda>x. rsl_order_line_id x = rrl_order_line_id l) src) (HTTPException 404 ''return_order_line_not_found'')) (\<lambda>x.
     bindR (ensure (rsl_item_id x = rrl_item_id l) (HTTPException 409 ''return_order_line_item_mismatch'')) (\<lambda>_.
     bindR (ensure (rrl_planned_qty l \<le> rsl_qty_remaining_refundable x) (HTTPException 409 ''return_qty_exceeds_remaining'')) (\<lambda>_.
     bindR (insert_receipt_line
        \<lparr>irl_id = 0, irl_receipt_id = rid, irl_line_no = idx, irl_source_line_id = Some (rrl_order_line_id l), irl_item_id = rsl_item_id x,
         irl_item_uom_id = rsl_item_uom_id x, irl_planned_qty = rrl_planned_qty l, irl_ratio = rsl_ratio x, irl_remark = rrl_remark l\<rparr> s) (\<lambda>(_, s').
     Inr ((), seen @ [rrl_order_line_id l], s')))))))"

definition create_inbound_receipt_from_return_order ::
  "receiving_client \<Rightarrow> string \<Rightarrow> return_receipt \<Rightarrow> (receipt \<times> receipt_line list) receipt_action" where
  "create_inbound_receipt_from_return_order rc receipt_no p s =
     bindR (get_inbound_return_source rc (rr_order_key p) s) (\<lambda>src.
     bindR (ensure (rsr_existing src = None) (HTTPException 409 ''inbound_receipt_already_exists'')) (\<lambda>_.
     bindR (ensure (rsr_lines src \<noteq> []) (HTTPException 409 ''return_order_has_no_refundable_lines'')) (\<lambda>_.
     (let h = rsr_order src
      in bindR (insert_receipt
           (draft_receipt receipt_no SRC_RETURN_ORDER (Some (ord_id h))
              (Some (if ord_ext_order_no h = [] then order_ref_of h else ord_ext_order_no h)) (rsr_warehouse_id src)
              (rsr_warehouse_name src) None (return_counterparty (ord_platform h) (ord_store_code h)) (rr_remark p)) s) (\<lambda>(rid, s1).
         bindR (map_loop (insert_return_receipt_line (rsr_lines src) rid) (numbered (rr_lines p)) ([], s1)) (\<lambda>(_, _, s2).
         bindR (get_inbound_receipt rid s2) (\<lambda>out. Inr (out, s2))))))))"

section \<open>Releasing\<close>

definition release_inbound_receipt :: "datetime \<Rightarrow> int \<Rightarrow> receipt receipt_action" where
  "release_inbound_receipt now rid s =
     (case receipt_by_id rid s of
        None \<Rightarrow> Inl (HTTPException 404 ''inbound_receipt_not_found'')
      | Some r \<Rightarrow>
          if ir_status r = IR_DRAFT then
            (let r' = r\<lparr>ir_status := IR_RELEASED, ir_released_at := Some (case ir_released_at r of Some t \<Rightarrow> t | None \<Rightarrow> now)\<rparr>
             in Inr (r', s\<lparr>ib_receipts := map (\<lambda>x. if ir_id x = rid then r' else x) (ib_receipts s)\<rparr>))
          else if ir_status r = IR_RELEASED then Inr (r, s)
          else Inl (HTTPException 409 ''inbound_receipt_not_releasable''))"

end
