(* ===== verification/Receiving.thy ===== *)
theory Receiving
  imports Receipt_Create
begin

text \<open>
  Receiving against a released receipt, \<open>repos/inbound_operation_write_repo.py\<close> with the request of
  \<open>contracts/operation_submit.py\<close>: one operation and one inbound event are written, and every entry of
  the request becomes an operation line, an event line, a movement of the balance and a ledger row.
  The ledger row and the balance are written by statements of this module, not by \<open>adjust_lot\<close>.
\<close>

section \<open>The request\<close>

record receive_entry =
  en_qty_inbound :: int
  en_barcode_input :: "string option"
  en_uom_id :: "int option"
  en_batch_no :: "string option"
  en_production_date :: "date option"
  en_expiry_date :: "date option"
  en_remark :: "string option"

record receive_line =
  sl_receipt_line_no :: int
  sl_entries :: "receive_entry list"

record receive_payload =
  rp_receipt_no :: string
  rp_remark :: "string option"
  rp_lines :: "receive_line list"

definition valid_entry :: "receive_entry \<Rightarrow> bool" where
  "valid_entry e \<longleftrightarrow> 1 \<le> en_qty_inbound e \<and> (case en_uom_id e of None \<Rightarrow> True | Some u \<Rightarrow> 1 \<le> u) \<and>
     (case (en_production_date e, en_expiry_date e) of (Some a, Some b) \<Rightarrow> a \<le> b | _ \<Rightarrow> True)"

definition valid_submit :: "receive_payload \<Rightarrow> bool" where
  "valid_submit p \<longleftrightarrow> rp_receipt_no p \<noteq> [] \<and> rp_lines p \<noteq> [] \<and> distinct (map sl_receipt_line_no (rp_lines p)) \<and>
     (\<forall>l \<in> set (rp_lines p). 1 \<le> sl_receipt_line_no l \<and> sl_entries l \<noteq> [] \<and> (\<forall>e \<in> set (sl_entries l). valid_entry e))"

section \<open>Helpers\<close>

definition to_int_exact :: "int \<Rightarrow> int result" where
  "to_int_exact v = bindR (ensure (0 \<le> v) (HTTPException 409 ''must_not_be_negative'')) (\<lambda>_. Inr v)"

definition map_event_source_type :: "receipt_source \<Rightarrow> string" where
  "map_event_source_type src =
     (case src of SRC_RETURN_ORDER \<Rightarrow> ''RETURN'' | SRC_PURCHASE_ORDER \<Rightarrow> ''PURCHASE_ORDER'' | SRC_MANUAL \<Rightarrow> ''MANUAL'')"

definition load_item_uom_snapshot :: "receiving_client \<Rightarrow> int \<Rightarrow> int \<Rightarrow> (int \<times> int) result" where
  "load_item_uom_snapshot rc item_id item_uom_id =
     (case pms_uom (rc_pms rc) item_uom_id of
        None \<Rightarrow> Inl (HTTPException 409 ''actual_item_uom_not_found_or_item_mismatch'')
      | Some u \<Rightarrow> (if pu_item_id u \<noteq> item_id then Inl (HTTPException 409 ''actual_item_uom_not_found_or_item_mismatch'')
                  else Inr (pu_id u, pu_ratio_to_base u)))"

definition resolve_barcode_uom_snapshot :: "receiving_client \<Rightarrow> int \<Rightarrow> string \<Rightarrow> (int \<times> int) result" where
  "resolve_barcode_uom_snapshot rc item_id barcode =
     (let code = py_strip barcode; probe = pms_probe (rc_pms rc) code; err = HTTPException 422 ''barcode_unbound_or_item_mismatch''
      in bindR (ensure (bp_status probe = BOUND \<and> rc_probe_active rc code = Some True \<and> bp_item_id probe = Some item_id) err) (\<lambda>_.
         bindR (require_some (bp_item_uom_id probe) err) (\<lambda>uid.
         bindR (require_some (pms_uom (rc_pms rc) uid) err) (\<lambda>u.
         bindR (ensure (pu_item_id u = item_id) err) (\<lambda>_. Inr (pu_id u, pu_ratio_to_base u))))))"

text \<open>The unit of an entry: from the barcode, from the request, or the planned one.\<close>

definition entry_uom :: "receiving_client \<Rightarrow> receipt_line \<Rightarrow> receive_entry \<Rightarrow> (int \<times> int) result" where
  "entry_uom rc tk e =
     (case norm_text (en_barcode_input e) of
        Some b \<Rightarrow>
          bindR (resolve_barcode_uom_snapshot rc (irl_item_id tk) b) (\<lambda>(u, ratio).
          bindR (ensure (case en_uom_id e of None \<Rightarrow> True | Some x \<Rightarrow> x = u) (HTTPException 409 ''barcode_actual_item_uom_mismatch'')) (\<lambda>_.
          Inr (u, ratio)))
      | None \<Rightarrow>
          (case en_uom_id e of
             Some x \<Rightarrow> load_item_uom_snapshot rc (irl_item_id tk) x
           | None \<Rightarrow> Inr (irl_item_uom_id tk, irl_ratio tk)))"

section \<open>Statements\<close>

definition insert_operation :: "operation \<Rightarrow> int receipt_action" where
  "insert_operation o' s =
     (let row = o'\<lparr>io_id := next_id (map io_id (ib_operations s))\<rparr>
      in bindR (ensure (io_warehouse_id row \<in> set (map wh_id (db_warehouses (core s)))) (IntegrityError ''fk_wms_inbound_operations_warehouse'')) (\<lambda>_.
         Inr (io_id row, s\<lparr>ib_operations := ib_operations s @ [row]\<rparr>)))"

definition operation_line_checks :: "operation_line \<Rightarrow> bool" where
  "operation_line_checks l \<longleftrightarrow>
     (case (iol_production_date l, iol_expiry_date l) of (Some a, Some b) \<Rightarrow> a \<le> b | _ \<Rightarrow> True) \<and>
     0 < iol_ratio l \<and> 0 < iol_qty_input l \<and> 0 < iol_qty_base l \<and> iol_qty_base l = iol_qty_input l * iol_ratio l"

definition insert_operation_line :: "operation_line \<Rightarrow> operation_line receipt_action" where
  "insert_operation_line l s =
     (let row = l\<lparr>iol_id := next_id (map iol_id (ib_operation_lines s))\<rparr>
      in bindR (ensure (operation_line_checks row) (IntegrityError ''ck_wms_inbound_operation_lines'')) (\<lambda>_.
         bindR (ensure (iol_operation_id row \<in> set (map io_id (ib_operations s))) (IntegrityError ''fk_wms_inbound_operation_lines_operation'')) (\<lambda>_.
         bindR (ensure (case iol_lot_id row of None \<Rightarrow> True | Some n \<Rightarrow> n \<in> set (map lot_id (db_lots (core s))))
            (IntegrityError ''fk_wms_inbound_operation_lines_lot'')) (\<lambda>_.
         Inr (row, s\<lparr>ib_operation_lines := ib_operation_lines s @ [row]\<rparr>)))))"

text \<open>
  \<open>INSERT INTO stocks_lot ... ON CONFLICT (item_id, warehouse_id, lot_id) DO UPDATE SET qty = qty + delta
  RETURNING qty\<close>: a new slot starts at zero and takes the delta as well.
\<close>

definition upsert_stock :: "dims \<Rightarrow> int \<Rightarrow> int action" where
  "upsert_stock k delta d =
     bindR (insert_stock_slot k d) (\<lambda>(_, d1).
     (let q = on_hand d1 k + delta in Inr (q, set_stock_qty (\<lambda>s. st_dims s = k) q d1)))"

definition receipt_ledger_row ::
  "dims \<Rightarrow> int \<Rightarrow> int \<Rightarrow> datetime \<Rightarrow> wms_event \<Rightarrow> int \<Rightarrow> date option \<Rightarrow> date option \<Rightarrow> ledger_row" where
  "receipt_ledger_row k delta after_qty occurred_at ev ref_line pd ed =
     \<lparr>led_id = 0, led_warehouse_id = fst k, led_item_id = fst (snd k), led_lot_id = snd (snd k),
      led_reason = ''RECEIPT'', led_reason_canon = Some ''RECEIPT'', led_sub_reason = Some ''INBOUND_OPERATION'',
      led_ref = ev_no ev, led_ref_line = ref_line, led_delta = delta, led_after_qty = after_qty,
      led_occurred_at = occurred_at, led_trace_id = Some (ev_trace_id ev), led_event_id = Some (ev_id ev),
      led_production_date = pd, led_expiry_date = ed\<rparr>"

text \<open>The balance and the ledger of one entry.\<close>

definition book_receipt :: "wms_event \<Rightarrow> datetime \<Rightarrow> dims \<Rightarrow> int \<Rightarrow> int \<Rightarrow> date option \<Rightarrow> date option \<Rightarrow> unit action" where
  "book_receipt ev now k delta ref_line pd ed d =
     bindR (upsert_stock k delta d) (\<lambda>(after_qty, d1).
     bindR (insert_ledger False (receipt_ledger_row k delta after_qty now ev ref_line pd ed) d1) (\<lambda>(_, d2).
     Inr ((), d2)))"

section \<open>The loop over lines and entries\<close>

text \<open>What the loop carries: the database, the number of the last event line, and the received base quantity by line number.\<close>

record receive_state =
  rv_db :: receipt_db
  rv_line_no :: int
  rv_progress :: "int \<Rightarrow> int"

record receive_context =
  rx_client :: receiving_client
  rx_now :: datetime
  rx_task :: receipt
  rx_operation_id :: int
  rx_event :: wms_event

definition operation_line_of :: "receive_context \<Rightarrow> receipt_line \<Rightarrow> receive_entry \<Rightarrow> int \<Rightarrow> int \<Rightarrow> int \<Rightarrow> int \<Rightarrow> int \<Rightarrow> operation_line" where
  "operation_line_of cx tk e uom_id ratio qty qty_base lid =
     \<lparr>iol_id = 0, iol_operation_id = rx_operation_id cx, iol_receipt_line_no = irl_line_no tk, iol_item_id = irl_item_id tk,
      iol_uom_id = uom_id, iol_ratio = ratio, iol_qty_input = qty, iol_qty_base = qty_base, iol_batch_no = en_batch_no e,
      iol_production_date = en_production_date e, iol_expiry_date = en_expiry_date e, iol_lot_id = Some lid, iol_remark = en_remark e\<rparr>"

definition event_line_of :: "receive_context \<Rightarrow> receipt_line \<Rightarrow> receive_entry \<Rightarrow> int \<Rightarrow> operation_line \<Rightarrow> inbound_event_line" where
  "event_line_of cx tk e line_no x =
     \<lparr>iel_id = 0, iel_event_id = ev_id (rx_event cx), iel_line_no = line_no, iel_item_id = irl_item_id tk, iel_uom_id = iol_uom_id x,
      iel_qty_input = iol_qty_input x, iel_ratio = iol_ratio x, iel_qty_base = iol_qty_base x, iel_lot_code_input = en_batch_no e,
      iel_production_date = en_production_date e, iel_expiry_date = en_expiry_date e, iel_lot_id = iol_lot_id x,
      iel_source_line_id = (if ir_source_type (rx_task cx) = SRC_PURCHASE_ORDER then irl_source_line_id tk else None),
      iel_remark = en_remark e\<rparr>"

definition receive_entry_step ::
  "receive_context \<Rightarrow> receipt_line \<Rightarrow> item_policy \<Rightarrow> receive_entry \<Rightarrow> receive_state \<Rightarrow> (operation_line \<times> receive_state) result" where
  "receive_entry_step cx tk pol e st =
     (let no = irl_line_no tk; w = ir_warehouse_id (rx_task cx); s = rv_db st
      in bindR (entry_uom (rx_client cx) tk e) (\<lambda>(uom_id, ratio).
         (let qty_base = en_qty_inbound e * ratio
          in bindR (ensure (rv_progress st no + qty_base \<le> planned_base tk) (HTTPException 409 ''received_qty_base_exceeds_planned'')) (\<lambda>_.
             bindR (to_int_exact qty_base) (\<lambda>qty_base_int.
             bindR (to_int_exact (en_qty_inbound e)) (\<lambda>qty_input_int.
             bindR (to_int_exact ratio) (\<lambda>ratio_int.
             bindR (on_core (resolve_inbound_lot (pms_policy (rc_pms (rx_client cx))) w pol (en_batch_no e)
                (en_production_date e) (en_expiry_date e)) s) (\<lambda>(lid, s1).
             bindR (insert_operation_line (operation_line_of cx tk e uom_id ratio_int qty_input_int qty_base_int lid) s1) (\<lambda>(x, s2).
             bindR (on_core (insert_inbound_event_line (event_line_of cx tk e (rv_line_no st + 1) x)) s2) (\<lambda>(_, s3).
             bindR (on_core (book_receipt (rx_event cx) (rx_now cx) (w, irl_item_id tk, lid) qty_base_int (rv_line_no st + 1)
                (en_production_date e) (en_expiry_date e)) s3) (\<lambda>(_, s4).
             Inr (x, \<lparr>rv_db = s4, rv_line_no = rv_line_no st + 1, rv_progress = (rv_progress st)(no := rv_progress st no + qty_base)\<rparr>))))))))))))"

definition receive_line_step ::
  "receive_context \<Rightarrow> receipt_line list \<Rightarrow> receive_line \<Rightarrow> receive_state \<Rightarrow> (operation_line list \<times> receive_state) result" where
  "receive_line_step cx tks l st =
     bindR (require_some (find (\<lambda>t. irl_line_no t = sl_receipt_line_no l) tks) (HTTPException 404 ''inbound_task_line_not_found'')) (\<lambda>tk.
     bindR (require_some (pms_policy (rc_pms (rx_client cx)) (irl_item_id tk)) (HTTPException 404 ''item_policy_not_found'')) (\<lambda>pol.
     map_loop (receive_entry_step cx tk pol) (sl_entries l) st))"

section \<open>submit\_inbound\_operation\<close>

definition complete_receipt :: "int \<Rightarrow> receipt_db \<Rightarrow> receipt_db" where
  "complete_receipt rid s =
     s\<lparr>ib_receipts := map (\<lambda>r. if ir_id r = rid \<and> ir_status r = IR_RELEASED then r\<lparr>ir_status := IR_COMPLETED\<rparr> else r) (ib_receipts s)\<rparr>"

definition all_received :: "receipt_line list \<Rightarrow> (int \<Rightarrow> int) \<Rightarrow> bool" where
  "all_received tks progress \<longleftrightarrow> tks \<noteq> [] \<and> (\<forall>l \<in> set tks. planned_base l \<le> progress (irl_line_no l))"

definition submit_inbound_operation ::
  "receiving_client \<Rightarrow> datetime \<Rightarrow> string \<Rightarrow> string \<Rightarrow> receive_payload \<Rightarrow> (int \<times> operation_line list) receipt_action" where
  "submit_inbound_operation rc now event_no trace_id p s =
     bindR (ensure (valid_submit p) (HTTPException 422 ''validation'')) (\<lambda>_.
     bindR (require_some (receipt_by_no (rp_receipt_no p) s) (HTTPException 404 ''inbound_task_not_found'')) (\<lambda>task.
     bindR (ensure (ir_status task = IR_RELEASED) (HTTPException 409 ''inbound_task_not_released'')) (\<lambda>_.
     bindR (ensure_warehouse_not_frozen (ir_warehouse_id task) (core s)) (\<lambda>_.
     (let tks = lines_of_receipt (ir_id task) s;
          progress = (\<lambda>n. received_base (rp_receipt_no p) n s)
      in bindR (insert_operation
           \<lparr>io_id = 0, io_receipt_no = ir_receipt_no task, io_warehouse_id = ir_warehouse_id task, io_supplier_id = ir_supplier_id task,
            io_supplier_name = ir_counterparty_name task, io_operated_at = now, io_remark = rp_remark p\<rparr> s) (\<lambda>(op_id, s1).
         bindR (on_core (insert_event
           \<lparr>ev_id = 0, ev_no = event_no, ev_type = EV_INBOUND, ev_warehouse_id = ir_warehouse_id task,
            ev_source_type = map_event_source_type (ir_source_type task), ev_source_ref = Some (ir_receipt_no task),
            ev_occurred_at = now, ev_trace_id = trace_id, ev_kind = EV_COMMIT, ev_target_event_id = None,
            ev_status = EV_COMMITTED, ev_remark = rp_remark p\<rparr>) s1) (\<lambda>(ev, s2).
         bindR (map_loop (receive_line_step \<lparr>rx_client = rc, rx_now = now, rx_task = task, rx_operation_id = op_id, rx_event = ev\<rparr> tks)
              (rp_lines p) \<lparr>rv_db = s2, rv_line_no = 0, rv_progress = progress\<rparr>) (\<lambda>(outs, st).
         Inr ((op_id, concat outs),
              if all_received tks (rv_progress st) then complete_receipt (ir_id task) (rv_db st) else rv_db st)))))))))"

end
