(* ===== verification/Receipt_Laws.thy ===== *)
theory Receipt_Laws
  imports Receiving Return_Run
begin

text \<open>
  What receiving does to the stock and to the tables of receipts: the booking statements refine the
  booking of the stock core, a submission appends its operation lines and moves every lot by exactly
  what they say, and no line is ever received beyond its plan.
\<close>

section \<open>Booking an entry\<close>

lemma set_stock_ledger_commute:
  "set_stock_qty P q (d\<lparr>db_stock_ledger := l\<rparr>) = (set_stock_qty P q d)\<lparr>db_stock_ledger := l\<rparr>"
  by (simp add: set_stock_qty_def)

lemma insert_ledger_Some:
  assumes "insert_ledger False r d = Inr (i, d')"
  shows "d' = d\<lparr>db_stock_ledger := db_stock_ledger d @ [r\<lparr>led_id := next_id (map led_id (db_stock_ledger d))\<rparr>]\<rparr>"
    and "led_key r \<notin> set (map led_key (db_stock_ledger d))"
  using assms by (auto simp: insert_ledger_def Let_def res_simps split: if_splits)

lemma only_stockI: "d' = d\<lparr>db_stock_ledger := db_stock_ledger d', db_stocks_lot := db_stocks_lot d'\<rparr> \<Longrightarrow> only_stock d d'"
  unfolding only_stock_def by blast

lemma insert_slot_only_stock: "insert_stock_slot k d = Inr (u, d') \<Longrightarrow> only_stock d d'"
  by (rule only_stockI) (auto simp: insert_stock_slot_def res_simps split: if_splits)

lemma book_receipt_book:
  assumes ok: "books_ok d" and run: "book_receipt ev now k delta n pd ed d = Inr (u, d')" and nn: "0 \<le> delta"
  shows "\<exists>d1 s row. insert_stock_slot k d = Inr ((), d1) \<and> s \<in> set (db_stocks_lot d1) \<and> st_dims s = k \<and> d' = book row d1 \<and>
     led_dims row = k \<and> led_delta row = delta \<and> led_after_qty row = st_qty s + delta \<and>
     led_key row \<notin> set (map led_key (db_stock_ledger d1)) \<and> led_id row \<notin> set (map led_id (db_stock_ledger d1))"
proof -
  from run obtain d1 i where slot: "insert_stock_slot k d = Inr ((), d1)"
    and led: "insert_ledger False (receipt_ledger_row k delta (on_hand d1 k + delta) now ev n pd ed)
        (set_stock_qty (\<lambda>s. st_dims s = k) (on_hand d1 k + delta) d1) = Inr (i, d')"
    by (auto simp: book_receipt_def upsert_stock_def Let_def res_simps)
  let ?row = "(receipt_ledger_row k delta (on_hand d1 k + delta) now ev n pd ed)\<lparr>led_id := next_id (map led_id (db_stock_ledger d1))\<rparr>"
  have r: "led_dims ?row = k" "led_after_qty ?row = on_hand d1 k + delta" "led_delta ?row = delta"
    by (simp_all add: receipt_ledger_row_def led_dims_def)
  note L = insert_ledger_Some [OF led]
  have d': "d' = book ?row d1" using L(1) r by (simp add: book_def set_stock_ledger_commute del: map_map)
  from insert_stock_slot_Inr(1) [OF slot] obtain s where s: "s \<in> set (db_stocks_lot d1)" "st_dims s = k" by (auto simp: slot_exists_def)
  have "distinct (map st_dims (db_stocks_lot d1))" using insert_stock_slot_Inr(6) [OF slot ok] by (simp add: books_defs)
  from on_hand_row [OF this s(1)] s(2) have "on_hand d1 k = st_qty s" by simp
  with slot s d' r L(2) show ?thesis by (intro exI [of _ d1] exI [of _ s] exI [of _ ?row]) simp
qed

lemma book_receipt_exact:
  assumes ok: "books_ok d" and run: "book_receipt ev now k delta n pd ed d = Inr (u, d')" and nn: "0 \<le> delta"
  shows "books_ok d'" and "ledger_grows d d'" and "on_hand d' j = on_hand d j + (if j = k then delta else 0)"
proof -
  obtain d1 s row where slot: "insert_stock_slot k d = Inr ((), d1)" and s: "s \<in> set (db_stocks_lot d1)" "st_dims s = k"
    and d': "d' = book row d1" and r: "led_dims row = st_dims s" "led_delta row = delta" "led_after_qty row = st_qty s + led_delta row"
      "led_key row \<notin> set (map led_key (db_stock_ledger d1))" "led_id row \<notin> set (map led_id (db_stock_ledger d1))"
    using book_receipt_book [OF assms] by metis
  note I = insert_stock_slot_Inr [OF slot]
  have ok1: "books_ok d1" by (rule I(6) [OF ok])
  have "0 \<le> st_qty s" using ok1 s(1) by (auto simp: books_defs)
  with r(2,3) nn have after: "0 \<le> led_after_qty row" by simp
  show "books_ok d'" unfolding d' by (rule books_ok_book [OF ok1 s(1) r(1,3) after r(4,5)])
  show "ledger_grows d d'" using I(3) by (auto simp: ledger_grows_def d')
  show "on_hand d' j = on_hand d j + (if j = k then delta else 0)"
    unfolding d' using on_hand_book [OF ok1 s(1) r(1,3), of j] I(2) [of j] r s(2) by simp
qed

lemma book_receipt_only_stock:
  assumes "book_receipt ev now k delta n pd ed d = Inr (u, d')"
  shows "only_stock d d'"
proof -
  from assms obtain d1 i r q where slot: "insert_stock_slot k d = Inr ((), d1)"
    and led: "insert_ledger False r (set_stock_qty (\<lambda>s. st_dims s = k) q d1) = Inr (i, d')"
    by (auto simp: book_receipt_def upsert_stock_def Let_def res_simps)
  have "only_stock d1 d'" by (rule only_stockI) (simp add: insert_ledger_Some(1) [OF led] set_stock_qty_def)
  with insert_slot_only_stock [OF slot] show ?thesis by (rule only_stock_trans)
qed

lemma book_receipt_keeps:
  assumes "book_receipt ev now k delta n pd ed d = Inr (u, d')" and "0 \<le> delta"
  shows "keeps d d' \<and> same_count_tables d d'"
  using keeps_only_stock [OF book_receipt_only_stock [OF assms(1)]] book_receipt_exact(1,2) [OF _ assms] by blast

section \<open>One entry\<close>

text \<open>What a part of a submission does: the operation lines it appends, the stock, and the progress it counts.\<close>

definition line_moves :: "int \<Rightarrow> operation_line \<Rightarrow> dims" where
  "line_moves w x = (w, iol_item_id x, the (iol_lot_id x))"

definition moved :: "int \<Rightarrow> operation_line list \<Rightarrow> dims \<Rightarrow> int" where
  "moved w xs k = sum_where iol_qty_base (\<lambda>x. line_moves w x = k) xs"

definition counted :: "operation_line list \<Rightarrow> int \<Rightarrow> int" where
  "counted xs n = sum_where iol_qty_base (\<lambda>x. iol_receipt_line_no x = n) xs"

definition line_fits :: "int \<Rightarrow> receipt_line list \<Rightarrow> operation_line \<Rightarrow> bool" where
  "line_fits op_id tks x \<longleftrightarrow> iol_operation_id x = op_id \<and> operation_line_checks x \<and> iol_lot_id x \<noteq> None \<and>
     (\<exists>tk \<in> set tks. irl_line_no tk = iol_receipt_line_no x \<and> irl_item_id tk = iol_item_id x)"

definition receives :: "receive_context \<Rightarrow> receipt_line list \<Rightarrow> receive_state \<Rightarrow> operation_line list \<Rightarrow> receive_state \<Rightarrow> bool" where
  "receives cx tks st xs st' \<longleftrightarrow> (\<exists>d'.
     rv_db st' = (set_core d' (rv_db st))\<lparr>ib_operation_lines := ib_operation_lines (rv_db st) @ xs\<rparr> \<and>
     keeps (core (rv_db st)) d' \<and> same_count_tables (core (rv_db st)) d' \<and>
     (books_ok (core (rv_db st)) \<longrightarrow>
        (\<forall>k. on_hand d' k = on_hand (core (rv_db st)) k + moved (ir_warehouse_id (rx_task cx)) xs k)) \<and>
     (\<forall>x \<in> set xs. line_fits (rx_operation_id cx) tks x) \<and>
     (\<forall>n. rv_progress st' n = rv_progress st n + counted xs n) \<and>
     (\<forall>tk \<in> set tks. rv_progress st (irl_line_no tk) \<le> planned_base tk \<longrightarrow> rv_progress st' (irl_line_no tk) \<le> planned_base tk))"

lemma core_set [simp]: "core (set_core d s) = d" "core (s\<lparr>ib_operation_lines := ls\<rparr>) = core s"
  "core (s\<lparr>ib_operations := os\<rparr>) = core s" "core (s\<lparr>ib_receipts := rs\<rparr>) = core s" "core (s\<lparr>ib_receipt_lines := rl\<rparr>) = core s"
  "core (s\<lparr>ib_order_items := oi\<rparr>) = core s" "core (s\<lparr>ib_order_status := os'\<rparr>) = core s"
  by (simp_all add: core_def set_core_def)

lemma set_core_tables [simp]:
  "ib_receipts (set_core d s) = ib_receipts s" "ib_receipt_lines (set_core d s) = ib_receipt_lines s"
  "ib_operations (set_core d s) = ib_operations s" "ib_operation_lines (set_core d s) = ib_operation_lines s"
  "ib_order_items (set_core d s) = ib_order_items s" "ib_order_status (set_core d s) = ib_order_status s"
  "ib_suppliers (set_core d s) = ib_suppliers s"
  by (simp_all add: set_core_def)

lemma set_core_set: "set_core d (set_core e s) = set_core d s"
  "set_core d (s\<lparr>ib_operation_lines := ls\<rparr>) = (set_core d s)\<lparr>ib_operation_lines := ls\<rparr>"
  "set_core d (s\<lparr>ib_operations := os\<rparr>) = (set_core d s)\<lparr>ib_operations := os\<rparr>"
  by (simp_all add: set_core_def)

lemma set_core_same [simp]: "set_core (core s) s = s"
  by (simp add: set_core_def core_def)

lemma on_core_Inr [res_simps]: "on_core f s = Inr (x, s') \<longleftrightarrow> (\<exists>d. f (core s) = Inr (x, d) \<and> s' = set_core d s)"
  by (auto simp: on_core_def res_simps)

lemma sums_append [simp]: "moved w (xs @ ys) k = moved w xs k + moved w ys k" "counted (xs @ ys) n = counted xs n + counted ys n"
  "moved w [] k = 0" "counted [] n = 0"
  by (simp_all add: moved_def counted_def)

lemma receives_refl: "receives cx tks st [] st"
  unfolding receives_def by (intro exI [of _ "core (rv_db st)"]) simp

lemma receives_trans:
  assumes "receives cx tks a xs b" and "receives cx tks b ys c"
  shows "receives cx tks a (xs @ ys) c"
proof -
  from assms(1) obtain d1 where 1: "rv_db b = (set_core d1 (rv_db a))\<lparr>ib_operation_lines := ib_operation_lines (rv_db a) @ xs\<rparr>"
    "keeps (core (rv_db a)) d1" "same_count_tables (core (rv_db a)) d1"
    "books_ok (core (rv_db a)) \<Longrightarrow> on_hand d1 k = on_hand (core (rv_db a)) k + moved (ir_warehouse_id (rx_task cx)) xs k"
    "\<forall>x \<in> set xs. line_fits (rx_operation_id cx) tks x" "\<And>n. rv_progress b n = rv_progress a n + counted xs n"
    "tk \<in> set tks \<Longrightarrow> rv_progress a (irl_line_no tk) \<le> planned_base tk \<Longrightarrow> rv_progress b (irl_line_no tk) \<le> planned_base tk" for k tk
    unfolding receives_def by blast
  from assms(2) obtain d2 where 2: "rv_db c = (set_core d2 (rv_db b))\<lparr>ib_operation_lines := ib_operation_lines (rv_db b) @ ys\<rparr>"
    "keeps (core (rv_db b)) d2" "same_count_tables (core (rv_db b)) d2"
    "books_ok (core (rv_db b)) \<Longrightarrow> on_hand d2 k = on_hand (core (rv_db b)) k + moved (ir_warehouse_id (rx_task cx)) ys k"
    "\<forall>x \<in> set ys. line_fits (rx_operation_id cx) tks x" "\<And>n. rv_progress c n = rv_progress b n + counted ys n"
    "tk \<in> set tks \<Longrightarrow> rv_progress b (irl_line_no tk) \<le> planned_base tk \<Longrightarrow> rv_progress c (irl_line_no tk) \<le> planned_base tk" for k tk
    unfolding receives_def by blast
  have b: "core (rv_db b) = d1" by (simp add: 1(1))
  have "books_ok d1" if "books_ok (core (rv_db a))" using that 1(2) by (simp add: keeps_def)
  with 1 2 show ?thesis unfolding receives_def b
    by (intro exI [of _ d2]) (auto simp: set_core_set keeps_trans [OF 1(2)] same_count_trans [OF 1(3)])
qed

lemma resolve_inbound_lot_keeps:
  assumes "resolve_inbound_lot pol w p c pd ed d = Inr (lid, d')"
  shows "keeps d d' \<and> same_count_tables d d' \<and> (\<forall>k. on_hand d' k = on_hand d k)"
proof -
  have step: "lot_step w (ip_item_id p) d lid d'"
    using assms unfolding resolve_inbound_lot_def Let_def by (rule resolve_or_create_lot_step)
  have "keeps d d' \<and> same_count_tables d d'"
    by (rule keeps_only_lots [OF lot_step_effect(6) [OF step] lot_step_only_lots [OF step]])
  with lot_step_effect(7) [OF step] show ?thesis by blast
qed

lemma insert_operation_line_Inr:
  assumes "insert_operation_line l s = Inr (x, s')"
  shows "x = l\<lparr>iol_id := next_id (map iol_id (ib_operation_lines s))\<rparr>" and "operation_line_checks x"
    and "s' = s\<lparr>ib_operation_lines := ib_operation_lines s @ [x]\<rparr>"
  using assms by (auto simp: insert_operation_line_def Let_def res_simps)

lemma receive_entry_receives:
  assumes run: "receive_entry_step cx tk pol e st = Inr (x, st')" and tk: "tk \<in> set tks"
    and uniq: "\<And>t. t \<in> set tks \<Longrightarrow> irl_line_no t = irl_line_no tk \<Longrightarrow> t = tk"
  shows "receives cx tks st [x] st'"
proof -
  let ?w = "ir_warehouse_id (rx_task cx)" and ?s = "rv_db st"
  let ?n = "rv_line_no st + 1"
  from run obtain u ratio lid d1 s2 i d3 d4 where
      fit: "rv_progress st (irl_line_no tk) + en_qty_inbound e * ratio \<le> planned_base tk"
    and nn: "0 \<le> en_qty_inbound e * ratio"
    and lot: "resolve_inbound_lot (pms_policy (rc_pms (rx_client cx))) ?w pol (en_batch_no e) (en_production_date e) (en_expiry_date e) (core ?s) = Inr (lid, d1)"
    and ins: "insert_operation_line (operation_line_of cx tk e u ratio (en_qty_inbound e) (en_qty_inbound e * ratio) lid) (set_core d1 ?s) = Inr (x, s2)"
    and evl: "insert_inbound_event_line (event_line_of cx tk e ?n x) (core s2) = Inr (i, d3)"
    and bk: "book_receipt (rx_event cx) (rx_now cx) (?w, irl_item_id tk, lid) (en_qty_inbound e * ratio) ?n (en_production_date e) (en_expiry_date e) d3 = Inr ((), d4)"
    and st': "st' = \<lparr>rv_db = set_core d4 (set_core d3 s2), rv_line_no = ?n,
        rv_progress = (rv_progress st)(irl_line_no tk := rv_progress st (irl_line_no tk) + en_qty_inbound e * ratio)\<rparr>"
    by (auto simp: receive_entry_step_def Let_def to_int_exact_def res_simps)
  note X = insert_operation_line_Inr [OF ins]
  have x: "iol_qty_base x = en_qty_inbound e * ratio" "line_moves ?w x = (?w, irl_item_id tk, lid)" "iol_receipt_line_no x = irl_line_no tk"
    "line_fits (rx_operation_id cx) tks x"
    using X(2) tk by (auto simp: X(1) operation_line_of_def line_moves_def line_fits_def)
  have s2: "core s2 = d1" by (simp add: X(3))
  have dbs: "rv_db st' = (set_core d4 ?s)\<lparr>ib_operation_lines := ib_operation_lines ?s @ [x]\<rparr>"
    by (simp add: st' X(3) set_core_set)
  have K: "keeps (core ?s) d4 \<and> same_count_tables (core ?s) d4"
    using resolve_inbound_lot_keeps [OF lot] keeps_inbound_line [OF evl] book_receipt_keeps [OF bk nn] s2
    by (metis keeps_trans same_count_trans)
  have "on_hand d4 k = on_hand (core ?s) k + moved ?w [x] k" if "books_ok (core ?s)" for k
  proof -
    have ok: "books_ok d3" using that resolve_inbound_lot_keeps [OF lot] keeps_inbound_line [OF evl] s2 by (auto simp: keeps_def)
    obtain ls where "d3 = d1\<lparr>db_inbound_event_lines := ls\<rparr>" using insert_inbound_event_line_Inr [OF evl] s2 by blast
    then have "on_hand d3 k = on_hand (core ?s) k" using resolve_inbound_lot_keeps [OF lot] on_hand_inbound_lines by metis
    with book_receipt_exact(3) [OF ok bk nn, of k] x show ?thesis by (simp add: moved_def)
  qed
  moreover have "rv_progress st' n = rv_progress st n + counted [x] n" for n using x by (simp add: st' counted_def)
  moreover have "rv_progress st' (irl_line_no t) \<le> planned_base t"
    if "t \<in> set tks" "rv_progress st (irl_line_no t) \<le> planned_base t" for t
    using that uniq [OF that(1)] fit by (auto simp: st')
  ultimately show ?thesis using dbs K x(4) unfolding receives_def by (intro exI [of _ d4]) simp
qed

section \<open>The loops\<close>

lemma map_loop_collect:
  assumes "\<And>x st y st'. x \<in> set xs \<Longrightarrow> f x st = Inr (y, st') \<Longrightarrow> R st (g y) st'"
    and "\<And>st. R st [] st" and "\<And>a b c ys zs. R a ys b \<Longrightarrow> R b zs c \<Longrightarrow> R a (ys @ zs) c"
    and "map_loop f xs st = Inr (ys, st')"
  shows "R st (concat (map g ys)) st'"
  using assms(1,4)
proof (induction xs arbitrary: st ys)
  case Nil
  then show ?case using assms(2) by simp
next
  case (Cons x xs)
  from Cons.prems(2) obtain y t zs where one: "f x st = Inr (y, t)" and rest: "map_loop f xs t = Inr (zs, st')" and ys: "ys = y # zs"
    by (auto simp: res_simps)
  have "R st (g y) t" by (rule Cons.prems(1) [OF _ one]) simp
  moreover have "R t (concat (map g zs)) st'" by (rule Cons.IH [OF _ rest]) (rule Cons.prems(1), simp_all)
  ultimately show ?case using assms(3) by (simp add: ys)
qed

lemma receive_line_receives:
  assumes run: "receive_line_step cx tks l st = Inr (xs, st')" and "distinct (map irl_line_no tks)"
  shows "receives cx tks st xs st'"
proof -
  from run obtain tk pol where tk: "tk \<in> set tks" and loop: "map_loop (receive_entry_step cx tk pol) (sl_entries l) st = Inr (xs, st')"
    by (auto simp: receive_line_step_def res_simps dest: find_SomeD)
  have uniq: "t = tk" if "t \<in> set tks" "irl_line_no t = irl_line_no tk" for t
    using distinct_key_unique [OF assms(2)] that tk by blast
  have "receives cx tks st (concat (map (\<lambda>x. [x]) xs)) st'"
    by (rule map_loop_collect [where R = "receives cx tks", OF _ receives_refl receives_trans loop])
      (use receive_entry_receives [OF _ tk uniq] in blast)
  then show ?thesis by simp
qed

lemma receive_lines_receive:
  assumes "map_loop (receive_line_step cx tks) ls st = Inr (outs, st')" and "distinct (map irl_line_no tks)"
  shows "receives cx tks st (concat outs) st'"
  using map_loop_collect [where R = "receives cx tks" and g = "\<lambda>x. x", OF receive_line_receives [OF _ assms(2)] receives_refl receives_trans assms(1)]
  by simp

section \<open>Submitting\<close>

definition fresh_operation :: "int \<Rightarrow> receipt \<Rightarrow> datetime \<Rightarrow> receive_payload \<Rightarrow> operation" where
  "fresh_operation op_id task now p =
     \<lparr>io_id = op_id, io_receipt_no = ir_receipt_no task, io_warehouse_id = ir_warehouse_id task, io_supplier_id = ir_supplier_id task,
      io_supplier_name = ir_counterparty_name task, io_operated_at = now, io_remark = rp_remark p\<rparr>"

lemma submit_Inr:
  assumes run: "submit_inbound_operation rc now no tr p s = Inr ((op_id, xs), s')"
    and uniq: "\<And>rid. distinct (map irl_line_no (lines_of_receipt rid s))"
  obtains task d' where
    "receipt_by_no (rp_receipt_no p) s = Some task" "ir_status task = IR_RELEASED" "\<not> frozen (ir_warehouse_id task) (core s)" "valid_submit p"
    "op_id = next_id (map io_id (ib_operations s))"
    "s' = (let t = (set_core d' s)\<lparr>ib_operations := ib_operations s @ [fresh_operation op_id task now p], ib_operation_lines := ib_operation_lines s @ xs\<rparr>
           in if all_received (lines_of_receipt (ir_id task) s) (\<lambda>n. received_base (rp_receipt_no p) n s + counted xs n)
              then complete_receipt (ir_id task) t else t)"
    "keeps (core s) d'" "same_count_tables (core s) d'"
    "\<forall>k. books_ok (core s) \<longrightarrow> on_hand d' k = on_hand (core s) k + moved (ir_warehouse_id task) xs k"
    "\<forall>x \<in> set xs. line_fits op_id (lines_of_receipt (ir_id task) s) x"
    "\<forall>l \<in> set (lines_of_receipt (ir_id task) s). received_base (rp_receipt_no p) (irl_line_no l) s \<le> planned_base l \<longrightarrow>
        received_base (rp_receipt_no p) (irl_line_no l) s + counted xs (irl_line_no l) \<le> planned_base l"
proof -
  from run obtain task ev d1 outs st where
      g: "receipt_by_no (rp_receipt_no p) s = Some task" "ir_status task = IR_RELEASED" "\<not> frozen (ir_warehouse_id task) (core s)" "valid_submit p"
    and id: "op_id = next_id (map io_id (ib_operations s))"
    and ev: "insert_event \<lparr>ev_id = 0, ev_no = no, ev_type = EV_INBOUND, ev_warehouse_id = ir_warehouse_id task,
            ev_source_type = map_event_source_type (ir_source_type task), ev_source_ref = Some (ir_receipt_no task),
            ev_occurred_at = now, ev_trace_id = tr, ev_kind = EV_COMMIT, ev_target_event_id = None,
            ev_status = EV_COMMITTED, ev_remark = rp_remark p\<rparr> (core s) = Inr (ev, d1)"
    and loop: "map_loop (receive_line_step \<lparr>rx_client = rc, rx_now = now, rx_task = task, rx_operation_id = op_id, rx_event = ev\<rparr> (lines_of_receipt (ir_id task) s))
        (rp_lines p) \<lparr>rv_db = set_core d1 (s\<lparr>ib_operations := ib_operations s @ [fresh_operation op_id task now p]\<rparr>), rv_line_no = 0,
            rv_progress = \<lambda>n. received_base (rp_receipt_no p) n s\<rparr> = Inr (outs, st)"
    and xs: "xs = concat outs"
    and s': "s' = (if all_received (lines_of_receipt (ir_id task) s) (rv_progress st) then complete_receipt (ir_id task) (rv_db st) else rv_db st)"
    by (auto simp: submit_inbound_operation_def insert_operation_def Let_def res_simps fresh_operation_def)
  note E = insert_event_Inr [OF ev] and K = keeps_new_event [OF ev]
  from receive_lines_receive [OF loop uniq] obtain d2 where R:
    "rv_db st = (set_core d2 (set_core d1 (s\<lparr>ib_operations := ib_operations s @ [fresh_operation op_id task now p]\<rparr>)))\<lparr>ib_operation_lines := ib_operation_lines s @ xs\<rparr>"
    "keeps d1 d2" "same_count_tables d1 d2" "\<forall>x \<in> set xs. line_fits op_id (lines_of_receipt (ir_id task) s) x"
    "books_ok d1 \<Longrightarrow> on_hand d2 k = on_hand d1 k + moved (ir_warehouse_id task) xs k"
    "rv_progress st n = received_base (rp_receipt_no p) n s + counted xs n"
    "l \<in> set (lines_of_receipt (ir_id task) s) \<Longrightarrow> received_base (rp_receipt_no p) (irl_line_no l) s \<le> planned_base l \<Longrightarrow> rv_progress st (irl_line_no l) \<le> planned_base l"
    for k n l unfolding receives_def xs by auto
  have prog: "rv_progress st = (\<lambda>n. received_base (rp_receipt_no p) n s + counted xs n)" using R(6) by blast
  have KK: "keeps (core s) d2" "same_count_tables (core s) d2" using K R(2,3) keeps_trans same_count_trans by blast+
  show thesis
  proof (rule that [OF g id, of d2])
    show "s' = (let t = (set_core d2 s)\<lparr>ib_operations := ib_operations s @ [fresh_operation op_id task now p], ib_operation_lines := ib_operation_lines s @ xs\<rparr>
           in if all_received (lines_of_receipt (ir_id task) s) (\<lambda>n. received_base (rp_receipt_no p) n s + counted xs n)
              then complete_receipt (ir_id task) t else t)"
      unfolding s' prog R(1) by (simp add: set_core_set Let_def)
    show "\<forall>k. books_ok (core s) \<longrightarrow> on_hand d2 k = on_hand (core s) k + moved (ir_warehouse_id task) xs k"
      using R(5) E(3,4) K by (auto simp: keeps_def)
    show "\<forall>l \<in> set (lines_of_receipt (ir_id task) s). received_base (rp_receipt_no p) (irl_line_no l) s \<le> planned_base l \<longrightarrow>
        received_base (rp_receipt_no p) (irl_line_no l) s + counted xs (irl_line_no l) \<le> planned_base l"
      using R(7) by (simp add: prog)
  qed (use KK R(4) in auto)
qed

end
