(* ===== verification/Order_Reconcile.thy ===== *)
theory Order_Reconcile
  imports Receiving
begin

text \<open>
  Reconciliation of an order with the facts, \<open>app/oms/orders/services\<close> (\<open>order_reconcile_service.py\<close>,
  \<open>order_reconcile_queries.py\<close>, \<open>order_reconcile_apply.py\<close>): what was shipped is read from the ledger,
  what came back from the operations of return receipts; the counters of the order's items and the
  status of the order are written from them. The batch run over a window of creation times is left
  out.
\<close>

section \<open>Queries\<close>

text \<open>The dictionary of the items: a later row of the same item replaces the quantity.\<close>

definition load_items :: "int \<Rightarrow> receipt_db \<Rightarrow> (int \<times> int) list" where
  "load_items order_id s =
     (let rows = filter (\<lambda>x. oi_order_id x = order_id) (ib_order_items s);
          qty_of = (\<lambda>i. case find (\<lambda>x. oi_item_id x = i) (rev rows) of
             Some x \<Rightarrow> (case oi_qty x of None \<Rightarrow> 0 | Some q \<Rightarrow> q) | None \<Rightarrow> 0)
      in map (\<lambda>i. (i, qty_of i)) (rev (remdups (rev (map oi_item_id rows)))))"

definition ship_ref :: "order_head \<Rightarrow> string" where
  "ship_ref h = ''ORD:'' @ py_upper (ord_platform h) @ '':'' @ ord_store_code h @ '':'' @ ord_ext_order_no h"

definition shipped_rows :: "order_head \<Rightarrow> db \<Rightarrow> ledger_row list" where
  "shipped_rows h d = filter (\<lambda>r. led_ref r = ship_ref h \<and> led_delta r < 0) (db_stock_ledger d)"

definition load_shipped :: "order_head \<Rightarrow> db \<Rightarrow> int \<Rightarrow> int" where
  "load_shipped h d i = sum_where (\<lambda>r. - led_delta r) (\<lambda>r. led_item_id r = i) (shipped_rows h d)"

text \<open>The lines of the operations on the released return receipts of an order.\<close>

definition returned_lines :: "int \<Rightarrow> receipt_db \<Rightarrow> operation_line list" where
  "returned_lines order_id s =
     concat (map (\<lambda>r. filter (\<lambda>x. iol_operation_id x \<in> set (ops_of (ir_receipt_no r) s)) (ib_operation_lines s))
       (filter (\<lambda>r. ir_source_type r = SRC_RETURN_ORDER \<and> ir_source_doc_id r = Some order_id \<and> ir_status r = IR_RELEASED) (ib_receipts s)))"

definition load_returned :: "int \<Rightarrow> receipt_db \<Rightarrow> int \<Rightarrow> int" where
  "load_returned order_id s i = sum_where iol_qty_base (\<lambda>x. iol_item_id x = i) (returned_lines order_id s)"

section \<open>reconcile\_order\<close>

record order_line_fact =
  lf_item_id :: int
  lf_qty_ordered :: int
  lf_qty_shipped :: int
  lf_qty_returned :: int
  lf_remaining_refundable :: int

datatype reconcile_issue = OVER_SHIPPED int | OVER_RETURNED int | SHIPPED_UNKNOWN int | RETURNED_UNKNOWN int

definition line_fact :: "order_head \<Rightarrow> receipt_db \<Rightarrow> int \<times> int \<Rightarrow> order_line_fact" where
  "line_fact h s = (\<lambda>(i, ordered).
     let shipped = load_shipped h (core s) i; returned = load_returned (ord_id h) s i
     in \<lparr>lf_item_id = i, lf_qty_ordered = ordered, lf_qty_shipped = shipped, lf_qty_returned = returned,
         lf_remaining_refundable = max (min ordered shipped - returned) 0\<rparr>)"

definition fact_issues :: "order_line_fact \<Rightarrow> reconcile_issue list" where
  "fact_issues f =
     (if lf_qty_ordered f < lf_qty_shipped f then [OVER_SHIPPED (lf_item_id f)] else []) @
     (if lf_qty_shipped f < lf_qty_returned f then [OVER_RETURNED (lf_item_id f)] else [])"

definition reconcile_order :: "int \<Rightarrow> receipt_db \<Rightarrow> (order_line_fact list \<times> reconcile_issue list) result" where
  "reconcile_order order_id s =
     bindR (require_some (find (\<lambda>h. ord_id h = order_id) (db_orders (core s))) (ValueError ''order not found'')) (\<lambda>h.
     (let items = load_items order_id s;
          facts = map (line_fact h s) items;
          known = set (map fst items);
          unknown = (\<lambda>is. filter (\<lambda>i. i \<notin> known) (remdups is))
      in Inr (facts,
           concat (map fact_issues facts) @
           map SHIPPED_UNKNOWN (unknown (map led_item_id (shipped_rows h (core s)))) @
           map RETURNED_UNKNOWN (unknown (map iol_item_id (returned_lines order_id s))))))"

section \<open>apply\_counters\<close>

definition set_counters :: "int \<Rightarrow> order_line_fact \<Rightarrow> order_item list \<Rightarrow> order_item list" where
  "set_counters order_id f =
     map (\<lambda>x. if oi_order_id x = order_id \<and> oi_item_id x = lf_item_id f
              then x\<lparr>oi_shipped_qty := lf_qty_shipped f, oi_returned_qty := lf_qty_returned f\<rparr> else x)"

definition new_order_status :: "order_line_fact list \<Rightarrow> string option" where
  "new_order_status facts =
     (let total_refundable = sum_list (map (\<lambda>f. min (lf_qty_ordered f) (lf_qty_shipped f)) facts);
          total_returned = sum_list (map lf_qty_returned facts)
      in if total_returned \<le> 0 \<or> total_refundable \<le> 0 then None
         else Some (if total_returned < total_refundable then ''PARTIALLY_RETURNED'' else ''RETURNED''))"

definition apply_counters :: "int \<Rightarrow> unit receipt_action" where
  "apply_counters order_id s =
     bindR (reconcile_order order_id s) (\<lambda>(facts, _).
     (let s1 = s\<lparr>ib_order_items := fold (set_counters order_id) facts (ib_order_items s)\<rparr>
      in Inr ((), case new_order_status facts of
           None \<Rightarrow> s1
         | Some st \<Rightarrow> (if ib_order_status s1 order_id = Some ''CANCELED'' then s1
                      else s1\<lparr>ib_order_status := (ib_order_status s1)(order_id \<mapsto> st)\<rparr>))))"

end
