(* ===== verification/Receipt_Run.thy ===== *)
theory Receipt_Run
  imports Receipt_Laws Order_Reconcile
begin

text \<open>
  Sequences of operations of the whole system with the receipts: the invariant of the tables of
  receipts and operations, the life of a receipt, and the claims on receiving.
\<close>

section \<open>The invariant\<close>

definition line_key :: "receipt_line \<Rightarrow> int \<times> int" where
  "line_key l = (irl_receipt_id l, irl_line_no l)"

definition fulfilled :: "receipt \<Rightarrow> receipt_db \<Rightarrow> bool" where
  "fulfilled r s \<longleftrightarrow> all_received (lines_of_receipt (ir_id r) s) (\<lambda>n. received_base (ir_receipt_no r) n s)"

definition keys_ok :: "receipt_db \<Rightarrow> bool" where
  "keys_ok s \<longleftrightarrow> distinct (map ir_id (ib_receipts s)) \<and> distinct (map ir_receipt_no (ib_receipts s)) \<and>
     distinct (map line_key (ib_receipt_lines s)) \<and> distinct (map io_id (ib_operations s))"

definition refs_ok :: "receipt_db \<Rightarrow> bool" where
  "refs_ok s \<longleftrightarrow>
     (\<forall>l \<in> set (ib_receipt_lines s). 0 < irl_planned_qty l \<and> 0 < irl_ratio l \<and> (\<exists>r \<in> set (ib_receipts s). ir_id r = irl_receipt_id l)) \<and>
     (\<forall>o' \<in> set (ib_operations s). \<exists>r \<in> set (ib_receipts s). ir_receipt_no r = io_receipt_no o' \<and> ir_status r \<in> {IR_RELEASED, IR_COMPLETED}) \<and>
     (\<forall>x \<in> set (ib_operation_lines s). operation_line_checks x \<and> (\<exists>o' \<in> set (ib_operations s). io_id o' = iol_operation_id x))"

definition progress_ok :: "receipt_db \<Rightarrow> bool" where
  "progress_ok s \<longleftrightarrow> (\<forall>r \<in> set (ib_receipts s).
     (\<forall>l \<in> set (lines_of_receipt (ir_id r) s). received_base (ir_receipt_no r) (irl_line_no l) s \<le> planned_base l) \<and>
     (ir_status r = IR_COMPLETED) = fulfilled r s)"

definition sources_ok :: "receipt_db \<Rightarrow> bool" where
  "sources_ok s \<longleftrightarrow> (\<forall>a \<in> set (ib_receipts s). \<forall>b \<in> set (ib_receipts s).
     ir_source_type a = ir_source_type b \<longrightarrow> ir_source_doc_id a = ir_source_doc_id b \<longrightarrow> ir_source_doc_id a \<noteq> None \<longrightarrow>
     ir_status a \<noteq> IR_VOIDED \<longrightarrow> ir_status b \<noteq> IR_VOIDED \<longrightarrow> a = b)"

definition receipt_inv :: "receipt_db \<Rightarrow> bool" where
  "receipt_inv s \<longleftrightarrow> keys_ok s \<and> refs_ok s \<and> progress_ok s \<and> sources_ok s"

text \<open>What happens to a receipt: it keeps its identity and its lines, its status only moves forward, and what was received stays received.\<close>

fun may_become :: "receipt_status \<Rightarrow> receipt_status \<Rightarrow> bool" where
  "may_become IR_DRAFT t = (t \<noteq> IR_VOIDED)"
| "may_become IR_RELEASED t = (t = IR_RELEASED \<or> t = IR_COMPLETED)"
| "may_become IR_COMPLETED t = (t = IR_COMPLETED)"
| "may_become IR_VOIDED t = (t = IR_VOIDED)"

definition succeeds_receipt :: "receipt \<Rightarrow> receipt \<Rightarrow> bool" where
  "succeeds_receipt r r' \<longleftrightarrow> ir_id r' = ir_id r \<and> ir_receipt_no r' = ir_receipt_no r \<and> ir_source_type r' = ir_source_type r \<and>
     ir_source_doc_id r' = ir_source_doc_id r \<and> ir_warehouse_id r' = ir_warehouse_id r \<and> may_become (ir_status r) (ir_status r')"

definition receipts_stay :: "receipt_db \<Rightarrow> receipt_db \<Rightarrow> bool" where
  "receipts_stay s s' \<longleftrightarrow> (\<forall>r \<in> set (ib_receipts s). \<exists>r' \<in> set (ib_receipts s'). succeeds_receipt r r' \<and>
     lines_of_receipt (ir_id r) s' = lines_of_receipt (ir_id r) s \<and>
     (\<forall>n. received_base (ir_receipt_no r) n s \<le> received_base (ir_receipt_no r) n s'))"

lemma may_become_refl [simp]: "may_become t t"
  by (cases t) auto

lemma may_become_trans: "may_become a b \<Longrightarrow> may_become b c \<Longrightarrow> may_become a c"
  by (cases a; cases b; cases c) auto

lemma succeeds_refl [simp]: "succeeds_receipt r r"
  by (simp add: succeeds_receipt_def)

lemma succeeds_trans: "succeeds_receipt a b \<Longrightarrow> succeeds_receipt b c \<Longrightarrow> succeeds_receipt a c"
  by (auto simp: succeeds_receipt_def intro: may_become_trans)

lemma receipts_stay_trans:
  assumes "receipts_stay a b" and "receipts_stay b c"
  shows "receipts_stay a c"
  unfolding receipts_stay_def
proof
  fix r assume "r \<in> set (ib_receipts a)"
  then obtain r1 where 1: "r1 \<in> set (ib_receipts b)" "succeeds_receipt r r1" "lines_of_receipt (ir_id r) b = lines_of_receipt (ir_id r) a"
    "\<And>n. received_base (ir_receipt_no r) n a \<le> received_base (ir_receipt_no r) n b" using assms(1) unfolding receipts_stay_def by blast
  from 1(1) obtain r2 where 2: "r2 \<in> set (ib_receipts c)" "succeeds_receipt r1 r2" "lines_of_receipt (ir_id r1) c = lines_of_receipt (ir_id r1) b"
    "\<And>n. received_base (ir_receipt_no r1) n b \<le> received_base (ir_receipt_no r1) n c" using assms(2) unfolding receipts_stay_def by blast
  have eq: "ir_id r1 = ir_id r" "ir_receipt_no r1 = ir_receipt_no r" using 1(2) by (simp_all add: succeeds_receipt_def)
  have "received_base (ir_receipt_no r) n a \<le> received_base (ir_receipt_no r) n c" for n using 1(4) [of n] 2(4) [of n] eq by simp
  with 1 2 eq succeeds_trans [OF 1(2) 2(2)] show "\<exists>r' \<in> set (ib_receipts c). succeeds_receipt r r' \<and>
     lines_of_receipt (ir_id r) c = lines_of_receipt (ir_id r) a \<and> (\<forall>n. received_base (ir_receipt_no r) n a \<le> received_base (ir_receipt_no r) n c)" by auto
qed

text \<open>Steps that leave these tables alone.\<close>

definition same_receipts :: "receipt_db \<Rightarrow> receipt_db \<Rightarrow> bool" where
  "same_receipts s s' \<longleftrightarrow> ib_receipts s' = ib_receipts s \<and> ib_receipt_lines s' = ib_receipt_lines s \<and>
     ib_operations s' = ib_operations s \<and> ib_operation_lines s' = ib_operation_lines s"

lemma same_receipts_views:
  assumes "ib_operations s' = ib_operations s" "ib_operation_lines s' = ib_operation_lines s"
  shows "received_base no n s' = received_base no n s" and "ops_of no s' = ops_of no s"
  using assms by (simp_all add: received_base_def ops_of_def)

lemma same_receipts_inv:
  assumes "same_receipts s s'"
  shows "receipt_inv s' = receipt_inv s" and "receipts_stay s s'"
proof -
  have v: "received_base no n s' = received_base no n s" "lines_of_receipt rid s' = lines_of_receipt rid s" for no n rid
    using assms by (simp_all add: same_receipts_def received_base_def ops_of_def lines_of_receipt_def)
  have t: "ib_receipts s' = ib_receipts s" "ib_receipt_lines s' = ib_receipt_lines s" "ib_operations s' = ib_operations s"
    "ib_operation_lines s' = ib_operation_lines s" using assms by (simp_all add: same_receipts_def)
  show "receipt_inv s' = receipt_inv s"
    by (simp only: receipt_inv_def keys_ok_def refs_ok_def progress_ok_def sources_ok_def fulfilled_def v t)
  show "receipts_stay s s'" unfolding receipts_stay_def t v by (intro ballI bexI [of _ _]) auto
qed

section \<open>Creating a receipt\<close>

definition drafts :: "receipt_db \<Rightarrow> receipt_db \<Rightarrow> bool" where
  "drafts s s' \<longleftrightarrow> (\<exists>row ls ids.
     s' = (set_core ((core s)\<lparr>db_inbound_receipts := ids\<rparr>) s)\<lparr>ib_receipts := ib_receipts s @ [row], ib_receipt_lines := ib_receipt_lines s @ ls\<rparr> \<and>
     ir_id row \<notin> set (map ir_id (ib_receipts s)) \<and> ir_receipt_no row \<notin> set (map ir_receipt_no (ib_receipts s)) \<and> ir_status row = IR_DRAFT \<and>
     (\<forall>l \<in> set ls. irl_receipt_id l = ir_id row \<and> 0 < irl_planned_qty l \<and> 0 < irl_ratio l) \<and> distinct (map irl_line_no ls) \<and>
     (\<forall>r \<in> set (ib_receipts s). ir_source_type r = ir_source_type row \<longrightarrow> ir_source_doc_id r = ir_source_doc_id row \<longrightarrow>
        ir_source_doc_id row \<noteq> None \<longrightarrow> ir_status r = IR_VOIDED))"

lemma planned_base_pos: "0 < irl_planned_qty l \<Longrightarrow> 0 < irl_ratio l \<Longrightarrow> 0 < planned_base l"
  by (simp add: planned_base_def)

lemma refs_ok_line: "refs_ok s \<Longrightarrow> l \<in> set (ib_receipt_lines s) \<Longrightarrow>
    0 < irl_planned_qty l \<and> 0 < irl_ratio l \<and> irl_receipt_id l \<in> set (map ir_id (ib_receipts s))"
  unfolding refs_ok_def by (auto simp: image_iff) metis

lemma refs_ok_operation: "refs_ok s \<Longrightarrow> o' \<in> set (ib_operations s) \<Longrightarrow>
    \<exists>r \<in> set (ib_receipts s). ir_receipt_no r = io_receipt_no o' \<and> ir_status r \<in> {IR_RELEASED, IR_COMPLETED}"
  unfolding refs_ok_def by blast

lemma no_ops_of:
  assumes "refs_ok s" and "no \<notin> set (map ir_receipt_no (ib_receipts s))"
  shows "ops_of no s = []" and "received_base no n s = 0"
proof -
  have "io_receipt_no o' \<noteq> no" if "o' \<in> set (ib_operations s)" for o'
    using refs_ok_operation [OF assms(1) that] assms(2) by (auto simp: image_iff)
  then show "ops_of no s = []" by (simp add: ops_of_def filter_empty_conv)
  then show "received_base no n s = 0" by (simp add: received_base_def sum_where_none)
qed

lemma drafts_inv:
  assumes inv: "receipt_inv s" and "drafts s s'"
  shows "receipt_inv s' \<and> receipts_stay s s'"
proof -
  from assms(2) obtain row ls ids where
    s': "s' = (set_core ((core s)\<lparr>db_inbound_receipts := ids\<rparr>) s)\<lparr>ib_receipts := ib_receipts s @ [row], ib_receipt_lines := ib_receipt_lines s @ ls\<rparr>"
    and fresh: "ir_id row \<notin> set (map ir_id (ib_receipts s))" "ir_receipt_no row \<notin> set (map ir_receipt_no (ib_receipts s))"
    and st: "ir_status row = IR_DRAFT" and ls: "\<And>l. l \<in> set ls \<Longrightarrow> irl_receipt_id l = ir_id row \<and> 0 < irl_planned_qty l \<and> 0 < irl_ratio l"
    and dl: "distinct (map irl_line_no ls)"
    and src: "\<And>r. r \<in> set (ib_receipts s) \<Longrightarrow> ir_source_type r = ir_source_type row \<Longrightarrow> ir_source_doc_id r = ir_source_doc_id row \<Longrightarrow>
        ir_source_doc_id row \<noteq> None \<Longrightarrow> ir_status r = IR_VOIDED"
    unfolding drafts_def by blast
  have I: "keys_ok s" "refs_ok s" "progress_ok s" "sources_ok s" using inv by (simp_all add: receipt_inv_def)
  have t: "ib_receipts s' = ib_receipts s @ [row]" "ib_receipt_lines s' = ib_receipt_lines s @ ls" "ib_operations s' = ib_operations s"
    "ib_operation_lines s' = ib_operation_lines s" by (simp_all add: s')
  have rb: "received_base no n s' = received_base no n s" for no n using t by (simp add: received_base_def ops_of_def)
  have old: "irl_receipt_id l \<noteq> ir_id row" if "l \<in> set (ib_receipt_lines s)" for l using refs_ok_line [OF I(2) that] fresh(1) by metis
  have lo: "lines_of_receipt (ir_id r) s' = lines_of_receipt (ir_id r) s" if "r \<in> set (ib_receipts s)" for r
  proof -
    have "ir_id r \<noteq> ir_id row" using that fresh(1) by (metis image_eqI set_map)
    then have "filter (\<lambda>l. irl_receipt_id l = ir_id r) ls = []" using ls by (auto simp: filter_empty_conv)
    then show ?thesis by (simp add: lines_of_receipt_def t)
  qed
  have ln: "set (lines_of_receipt (ir_id row) s') = set ls" using old ls by (auto simp: lines_of_receipt_def t)
  have z: "received_base (ir_receipt_no row) n s' = 0" for n using no_ops_of(2) [OF I(2) fresh(2)] by (simp add: rb)
  have "keys_ok s'"
  proof -
    have "distinct (map line_key ls)" using dl ls by (auto simp: distinct_map line_key_def inj_on_def)
    moreover have "set (map line_key (ib_receipt_lines s)) \<inter> set (map line_key ls) = {}" using old ls by (auto simp: line_key_def)
    ultimately show ?thesis using I(1) fresh by (auto simp: keys_ok_def t)
  qed
  moreover have "refs_ok s'" using I(2) ls by (fastforce simp: refs_ok_def t)
  moreover have "progress_ok s'"
    unfolding progress_ok_def
  proof
    fix r assume "r \<in> set (ib_receipts s')"
    then consider "r \<in> set (ib_receipts s)" | "r = row" by (auto simp: t)
    then show "(\<forall>l \<in> set (lines_of_receipt (ir_id r) s'). received_base (ir_receipt_no r) (irl_line_no l) s' \<le> planned_base l) \<and>
        (ir_status r = IR_COMPLETED) = fulfilled r s'"
    proof cases
      case 1
      with I(3) show ?thesis by (simp add: progress_ok_def fulfilled_def rb lo)
    next
      case 2
      have pos: "0 < planned_base l" if "l \<in> set ls" for l using ls [OF that] planned_base_pos by blast
      have "\<not> fulfilled row s'"
      proof
        assume "fulfilled row s'"
        then have "ls \<noteq> []" and all: "\<And>l. l \<in> set ls \<Longrightarrow> planned_base l \<le> 0"
          using ln z by (auto simp: fulfilled_def all_received_def)
        then have "hd ls \<in> set ls" by simp
        from pos [OF this] all [OF this] show False by simp
      qed
      moreover have "received_base (ir_receipt_no row) (irl_line_no l) s' \<le> planned_base l" if "l \<in> set ls" for l
        using pos [OF that] z [of "irl_line_no l"] by simp
      ultimately show ?thesis using 2 st ln by simp
    qed
  qed
  moreover have "sources_ok s'" using I(4) src st by (fastforce simp: sources_ok_def t)
  moreover have "receipts_stay s s'" unfolding receipts_stay_def
  proof
    fix r assume r: "r \<in> set (ib_receipts s)"
    with lo [OF r] rb show "\<exists>r' \<in> set (ib_receipts s'). succeeds_receipt r r' \<and> lines_of_receipt (ir_id r) s' = lines_of_receipt (ir_id r) s \<and>
        (\<forall>n. received_base (ir_receipt_no r) n s \<le> received_base (ir_receipt_no r) n s')" by (intro bexI [of _ r]) (auto simp: t)
  qed
  ultimately show ?thesis by (simp add: receipt_inv_def)
qed

text \<open>The three ways to create a receipt.\<close>

definition adds_lines :: "int \<Rightarrow> receipt_db \<Rightarrow> receipt_db \<Rightarrow> bool" where
  "adds_lines rid s t \<longleftrightarrow> (\<exists>ls. t = s\<lparr>ib_receipt_lines := ib_receipt_lines s @ ls\<rparr> \<and>
     (\<forall>l \<in> set ls. irl_receipt_id l = rid \<and> 0 < irl_planned_qty l \<and> 0 < irl_ratio l) \<and> distinct (map irl_line_no ls))"

lemma adds_lines_refl [simp]: "adds_lines rid s s"
  unfolding adds_lines_def by (intro exI [of _ "[]"]) simp

lemma adds_lines_insert:
  assumes "adds_lines rid s t" and "insert_receipt_line l t = Inr (u, t')" and "irl_receipt_id l = rid"
  shows "adds_lines rid s t'"
proof -
  from assms(1) obtain ls where ls: "t = s\<lparr>ib_receipt_lines := ib_receipt_lines s @ ls\<rparr>" "distinct (map irl_line_no ls)"
    "\<forall>l \<in> set ls. irl_receipt_id l = rid \<and> 0 < irl_planned_qty l \<and> 0 < irl_ratio l" unfolding adds_lines_def by blast
  from assms(2,3) obtain row where row: "t' = t\<lparr>ib_receipt_lines := ib_receipt_lines t @ [row]\<rparr>" "irl_receipt_id row = rid"
    "0 < irl_planned_qty row" "0 < irl_ratio row" "\<forall>x \<in> set (ib_receipt_lines t). irl_receipt_id x = rid \<longrightarrow> irl_line_no x \<noteq> irl_line_no row"
    by (auto simp: insert_receipt_line_def Let_def res_simps)
  then have "irl_line_no row \<notin> irl_line_no ` set ls" using ls by auto
  with ls row show ?thesis unfolding adds_lines_def by (intro exI [of _ "ls @ [row]"]) auto
qed

lemma insert_receipt_drafts:
  assumes "insert_receipt r s = Inr (rid, s1)" and "adds_lines rid s1 s2" and "ir_status r = IR_DRAFT"
    and "\<forall>x \<in> set (ib_receipts s). ir_source_type x = ir_source_type r \<longrightarrow> ir_source_doc_id x = ir_source_doc_id r \<longrightarrow>
        ir_source_doc_id r \<noteq> None \<longrightarrow> ir_status x = IR_VOIDED"
  shows "drafts s s2"
proof -
  let ?row = "r\<lparr>ir_id := next_id (map ir_id (ib_receipts s))\<rparr>"
  from assms(1) have s1: "s1 = (set_core ((core s)\<lparr>db_inbound_receipts := db_inbound_receipts (core s) @ [rid]\<rparr>) s)\<lparr>ib_receipts := ib_receipts s @ [?row]\<rparr>"
    and rid: "rid = ir_id ?row" and no: "ir_receipt_no r \<notin> set (map ir_receipt_no (ib_receipts s))"
    by (auto simp: insert_receipt_def Let_def res_simps)
  from assms(2) obtain ls where ls: "s2 = s1\<lparr>ib_receipt_lines := ib_receipt_lines s1 @ ls\<rparr>" "distinct (map irl_line_no ls)"
    "\<forall>l \<in> set ls. irl_receipt_id l = rid \<and> 0 < irl_planned_qty l \<and> 0 < irl_ratio l" unfolding adds_lines_def by blast
  show ?thesis
    unfolding drafts_def
    by (rule exI [of _ ?row], rule exI [of _ ls], rule exI [of _ "db_inbound_receipts (core s) @ [rid]"])
      (use ls s1 rid no assms(3,4) in auto)
qed

lemma existing_None:
  "existing_receipt src i s = None \<Longrightarrow> x \<in> set (ib_receipts s) \<Longrightarrow> ir_source_type x = src \<Longrightarrow> ir_source_doc_id x = Some i \<Longrightarrow> ir_status x = IR_VOIDED"
proof -
  let ?f = "filter (\<lambda>r. ir_source_type r = src \<and> ir_source_doc_id r = Some i \<and> ir_status r \<noteq> IR_VOIDED) (ib_receipts s)"
  assume "existing_receipt src i s = None" and x: "x \<in> set (ib_receipts s)" "ir_source_type x = src" "ir_source_doc_id x = Some i"
  then have "sort_key ir_id ?f = []" by (simp add: existing_receipt_def split: list.splits)
  then have "set ?f = {}" by (metis list.set(1) set_sort)
  with x show ?thesis by auto
qed

lemma create_from_purchase_drafts:
  assumes "create_inbound_receipt_from_purchase rc no p s = Inr (out, s')"
  shows "drafts s s'"
proof -
  from assms obtain po :: purchase_order and rid s1 us where ex: "existing_receipt SRC_PURCHASE_ORDER (po_id po) s = None"
    and ins: "insert_receipt (draft_receipt no SRC_PURCHASE_ORDER (Some (po_id po)) (Some (po_no po)) (pp_warehouse_id p)
           (warehouse_name_snapshot (pp_warehouse_id p) (core s)) (Some (po_supplier_id po)) (Some (po_supplier_name po))
           (case pp_remark p of Some r \<Rightarrow> Some r | None \<Rightarrow> po_remark po)) s = Inr (rid, s1)"
    and loop: "map_loop (insert_purchase_line rid) (sort_key (\<lambda>l. (pol_line_no l, pol_id l)) (po_lines po)) s1 = Inr (us, s')"
    by (auto simp: create_inbound_receipt_from_purchase_def res_simps)
  have "adds_lines rid s1 s'"
    by (rule map_loop_invariant [where I = "adds_lines rid s1", OF _ _ loop])
      (auto simp: insert_purchase_line_def res_simps, rule adds_lines_insert, assumption, assumption, simp)
  then show ?thesis
    by (rule insert_receipt_drafts [OF ins]) (use existing_None [OF ex] in \<open>auto simp: draft_receipt_def\<close>)
qed

lemma create_manual_drafts:
  assumes "create_inbound_receipt_manual rc no p s = Inr (out, s')"
  shows "drafts s s'"
proof -
  from assms obtain name rid s1 us where ins: "insert_receipt (draft_receipt no SRC_MANUAL None None (mr_warehouse_id p)
           (warehouse_name_snapshot (mr_warehouse_id p) (core s)) (mr_supplier_id p) name (mr_remark p)) s = Inr (rid, s1)"
    and loop: "map_loop (insert_manual_receipt_line rc rid) (numbered (mr_lines p)) s1 = Inr (us, s')"
    by (auto simp: create_inbound_receipt_manual_def res_simps)
  have "adds_lines rid s1 s'"
    by (rule map_loop_invariant [where I = "adds_lines rid s1", OF _ _ loop])
      (auto simp: insert_manual_receipt_line_def res_simps, rule adds_lines_insert, assumption, assumption, simp)
  then show ?thesis by (rule insert_receipt_drafts [OF ins]) (auto simp: draft_receipt_def)
qed

lemma create_from_return_drafts:
  assumes "create_inbound_receipt_from_return_order rc no p s = Inr (out, s')"
  shows "drafts s s'"
proof -
  from assms obtain src rid s1 us seen where got: "get_inbound_return_source rc (rr_order_key p) s = Inr src" and ex: "rsr_existing src = None"
    and ins: "insert_receipt (draft_receipt no SRC_RETURN_ORDER (Some (ord_id (rsr_order src)))
              (Some (if ord_ext_order_no (rsr_order src) = [] then order_ref_of (rsr_order src) else ord_ext_order_no (rsr_order src))) (rsr_warehouse_id src)
              (rsr_warehouse_name src) None (return_counterparty (ord_platform (rsr_order src)) (ord_store_code (rsr_order src))) (rr_remark p)) s = Inr (rid, s1)"
    and loop: "map_loop (insert_return_receipt_line (rsr_lines src) rid) (numbered (rr_lines p)) ([], s1) = Inr (us, seen, s')"
    by (auto simp: create_inbound_receipt_from_return_order_def res_simps Let_def)
  have ex': "existing_receipt SRC_RETURN_ORDER (ord_id (rsr_order src)) s = None"
    using got ex by (auto simp: get_inbound_return_source_def res_simps Let_def dest!: find_SomeD)
  have "adds_lines rid s1 (snd (seen, s'))"
    by (rule map_loop_invariant [where I = "\<lambda>u. adds_lines rid s1 (snd u)", OF _ _ loop])
      (auto simp: insert_return_receipt_line_def res_simps split_def, rule adds_lines_insert, assumption, assumption, simp)
  then have "adds_lines rid s1 s'" by simp
  then show ?thesis
    by (rule insert_receipt_drafts [OF ins]) (use existing_None [OF ex'] in \<open>auto simp: draft_receipt_def\<close>)
qed

section \<open>Steps on one receipt\<close>

lemma received_base_append:
  assumes refs: "refs_ok s" and ids: "distinct (map io_id (ib_operations s @ os))"
    and t: "ib_operations s' = ib_operations s @ os" "ib_operation_lines s' = ib_operation_lines s @ xs"
    and os: "\<And>o'. o' \<in> set os \<Longrightarrow> io_receipt_no o' = no" and xs: "\<And>x. x \<in> set xs \<Longrightarrow> iol_operation_id x \<in> set (map io_id os)"
  shows "received_base no' n s' = received_base no' n s + (if no' = no then counted xs n else 0)"
proof -
  have ops: "ops_of no' s' = ops_of no' s @ (if no' = no then map io_id os else [])"
  proof -
    have "filter (\<lambda>o'. io_receipt_no o' = no') os = (if no' = no then os else [])" using os by (auto simp: filter_empty_conv filter_id_conv)
    then show ?thesis by (simp add: ops_of_def t)
  qed
  have sub: "set (ops_of no' s) \<subseteq> set (map io_id (ib_operations s))" by (auto simp: ops_of_def)
  have dj: "set (map io_id (ib_operations s)) \<inter> set (map io_id os) = {}" using ids by auto
  have "iol_operation_id x \<notin> set (map io_id os)" if "x \<in> set (ib_operation_lines s)" for x
    using that refs dj unfolding refs_ok_def by (metis disjoint_iff image_eqI set_map)
  then have a: "sum_where iol_qty_base (\<lambda>x. iol_operation_id x \<in> set (ops_of no' s') \<and> iol_receipt_line_no x = n) (ib_operation_lines s)
      = received_base no' n s" unfolding received_base_def ops by (intro sum_where_cong) auto
  have b: "sum_where iol_qty_base (\<lambda>x. iol_operation_id x \<in> set (ops_of no' s') \<and> iol_receipt_line_no x = n) xs
      = (if no' = no then counted xs n else 0)"
  proof (cases "no' = no")
    case True
    then show ?thesis unfolding counted_def ops using xs by (auto intro: sum_where_cong)
  next
    case False
    then show ?thesis unfolding ops using xs sub dj by (auto intro!: sum_where_none)
  qed
  show ?thesis unfolding received_base_def [of no' n s'] t(2) using a b by simp
qed

lemma map_key_same: "(\<And>x. x \<in> set xs \<Longrightarrow> k (f x) = k x) \<Longrightarrow> map k (map f xs) = map k xs"
  by (induction xs) auto

text \<open>A step that replaces one receipt and appends operations on it.\<close>

lemma refresh_inv:
  assumes inv: "receipt_inv s" and r: "r \<in> set (ib_receipts s)" and up: "succeeds_receipt r r'"
    and t: "ib_receipts s' = map (\<lambda>x. if ir_id x = ir_id r then r' else x) (ib_receipts s)" "ib_receipt_lines s' = ib_receipt_lines s"
      "ib_operations s' = ib_operations s @ os" "ib_operation_lines s' = ib_operation_lines s @ xs"
    and ids: "distinct (map io_id (ib_operations s @ os))"
    and os: "\<And>o'. o' \<in> set os \<Longrightarrow> io_receipt_no o' = ir_receipt_no r \<and> ir_status r' \<in> {IR_RELEASED, IR_COMPLETED}"
    and xs: "\<And>x. x \<in> set xs \<Longrightarrow> iol_operation_id x \<in> set (map io_id os) \<and> operation_line_checks x"
    and fit: "\<And>l. l \<in> set (lines_of_receipt (ir_id r) s) \<Longrightarrow> received_base (ir_receipt_no r) (irl_line_no l) s' \<le> planned_base l"
    and comp: "(ir_status r' = IR_COMPLETED) = all_received (lines_of_receipt (ir_id r) s) (\<lambda>n. received_base (ir_receipt_no r) n s')"
  shows "receipt_inv s' \<and> receipts_stay s s'"
proof -
  have I: "keys_ok s" "refs_ok s" "progress_ok s" "sources_ok s" using inv by (simp_all add: receipt_inv_def)
  have same: "ir_id r' = ir_id r" "ir_receipt_no r' = ir_receipt_no r" "ir_source_type r' = ir_source_type r" "ir_source_doc_id r' = ir_source_doc_id r"
    and mb: "may_become (ir_status r) (ir_status r')"
    using up by (simp_all add: succeeds_receipt_def)
  have uid: "x = r" if "x \<in> set (ib_receipts s)" "ir_id x = ir_id r" for x
    using distinct_key_unique [of ir_id "ib_receipts s" x r] I(1) that r by (simp add: keys_ok_def)
  have uno: "x = r" if "x \<in> set (ib_receipts s)" "ir_receipt_no x = ir_receipt_no r" for x
    using distinct_key_unique [of ir_receipt_no "ib_receipts s" x r] I(1) that r by (simp add: keys_ok_def)
  let ?f = "\<lambda>x. if ir_id x = ir_id r then r' else x"
  have lo: "lines_of_receipt rid s' = lines_of_receipt rid s" for rid by (simp add: lines_of_receipt_def t)
  have rb: "received_base no n s' = received_base no n s + (if no = ir_receipt_no r then counted xs n else 0)" for no n
    by (rule received_base_append [OF I(2) ids t(3,4)]) (use os xs in auto)
  have nn: "0 \<le> counted xs n" for n unfolding counted_def by (rule sum_where_nonneg) (drule xs, simp only: operation_line_checks_def, linarith)
  have sel: "ir_id (?f x) = ir_id x" "ir_receipt_no (?f x) = ir_receipt_no x" "ir_source_type (?f x) = ir_source_type x"
      "ir_source_doc_id (?f x) = ir_source_doc_id x" "(ir_status (?f x) = IR_VOIDED) = (ir_status x = IR_VOIDED)"
    if "x \<in> set (ib_receipts s)" for x using uid [OF that] same mb by (auto, (cases "ir_status r"; auto)+)
  have maps: "map ir_id (map ?f (ib_receipts s)) = map ir_id (ib_receipts s)" "map ir_receipt_no (map ?f (ib_receipts s)) = map ir_receipt_no (ib_receipts s)"
    by (rule map_key_same, rule sel(1), assumption, rule map_key_same, rule sel(2))
  have "keys_ok s'" using I(1) ids unfolding keys_ok_def t maps by simp
  moreover have "refs_ok s'"
  proof -
    have a: "\<exists>y \<in> set (ib_receipts s'). ir_id y = irl_receipt_id l" if "l \<in> set (ib_receipt_lines s)" for l
      using refs_ok_line [OF I(2) that] maps(1) unfolding t(1) by (metis (no_types, lifting) imageE set_map)
    have b: "\<exists>y \<in> set (ib_receipts s'). ir_receipt_no y = io_receipt_no o' \<and> ir_status y \<in> {IR_RELEASED, IR_COMPLETED}"
      if "o' \<in> set (ib_operations s')" for o'
    proof (cases "o' \<in> set os")
      case True
      then show ?thesis using os [OF True] r same by (intro bexI [of _ r']) (auto simp: t(1))
    next
      case False
      then obtain y where y: "y \<in> set (ib_receipts s)" "ir_receipt_no y = io_receipt_no o'" "ir_status y \<in> {IR_RELEASED, IR_COMPLETED}"
        using refs_ok_operation [OF I(2)] \<open>o' \<in> set (ib_operations s')\<close> by (auto simp: t(3))
      have "ir_status (?f y) \<in> {IR_RELEASED, IR_COMPLETED}" using y(3) uid [OF y(1)] mb by auto
      with y sel(2) [OF y(1)] show ?thesis by (intro bexI [of _ "?f y"]) (auto simp: t(1))
    qed
    have c: "operation_line_checks x \<and> (\<exists>o' \<in> set (ib_operations s'). io_id o' = iol_operation_id x)" if "x \<in> set (ib_operation_lines s')" for x
    proof (cases "x \<in> set xs")
      case True
      then show ?thesis using xs [OF True] by (auto simp: t(3))
    next
      case False
      then have "x \<in> set (ib_operation_lines s)" using that by (simp add: t(4))
      then show ?thesis using I(2) by (auto simp: t(3) refs_ok_def)
    qed
    show ?thesis unfolding refs_ok_def using a b c refs_ok_line [OF I(2)] by (simp add: t(2))
  qed
  moreover have "progress_ok s'"
    unfolding progress_ok_def t(1)
  proof
    fix y assume "y \<in> set (map ?f (ib_receipts s))"
    then obtain x where x: "x \<in> set (ib_receipts s)" "y = ?f x" by auto
    show "(\<forall>l \<in> set (lines_of_receipt (ir_id y) s'). received_base (ir_receipt_no y) (irl_line_no l) s' \<le> planned_base l) \<and>
        (ir_status y = IR_COMPLETED) = fulfilled y s'"
    proof (cases "ir_id x = ir_id r")
      case True
      then have "y = r'" using x by simp
      then show ?thesis using fit comp same by (simp add: fulfilled_def lo)
    next
      case False
      then have "ir_receipt_no x \<noteq> ir_receipt_no r" using uno [OF x(1)] by blast
      with False x I(3) show ?thesis by (simp add: progress_ok_def fulfilled_def lo rb)
    qed
  qed
  moreover have "sources_ok s'"
    unfolding sources_ok_def t(1)
  proof (intro ballI impI)
    fix a b
    assume "a \<in> set (map ?f (ib_receipts s))" "b \<in> set (map ?f (ib_receipts s))" and e: "ir_source_type a = ir_source_type b"
      "ir_source_doc_id a = ir_source_doc_id b" "ir_source_doc_id a \<noteq> None" "ir_status a \<noteq> IR_VOIDED" "ir_status b \<noteq> IR_VOIDED"
    then obtain x y where x: "x \<in> set (ib_receipts s)" "a = ?f x" and y: "y \<in> set (ib_receipts s)" "b = ?f y" by (auto simp only: set_map image_iff)
    have "ir_source_type x = ir_source_type y" "ir_source_doc_id x = ir_source_doc_id y" "ir_source_doc_id x \<noteq> None"
      "ir_status x \<noteq> IR_VOIDED" "ir_status y \<noteq> IR_VOIDED"
      using e sel(3-5) [OF x(1)] sel(3-5) [OF y(1)] unfolding x(2) y(2) by simp_all
    with I(4) x(1) y(1) have "x = y" unfolding sources_ok_def by blast
    then show "a = b" by (simp only: x(2) y(2))
  qed
  moreover have "receipts_stay s s'"
    unfolding receipts_stay_def
  proof
    fix x assume x: "x \<in> set (ib_receipts s)"
    have "succeeds_receipt x (?f x)" using uid [OF x] up by auto
    moreover have "?f x \<in> set (ib_receipts s')" using x by (auto simp: t(1))
    ultimately show "\<exists>r' \<in> set (ib_receipts s'). succeeds_receipt x r' \<and> lines_of_receipt (ir_id x) s' = lines_of_receipt (ir_id x) s \<and>
        (\<forall>n. received_base (ir_receipt_no x) n s \<le> received_base (ir_receipt_no x) n s')"
      using lo rb nn by (intro bexI [of _ "?f x"]) auto
  qed
  ultimately show ?thesis by (simp add: receipt_inv_def)
qed

end
