(* ===== verification/Receipt_Life.thy ===== *)
theory Receipt_Life
  imports Receipt_Run
begin

text \<open>
  The whole system with the receipts: its operations as steps, its invariant, and the claims on
  receiving, on the life of receipts and on the system.
\<close>

section \<open>Releasing and submitting\<close>

lemma by_id_mem: "receipt_by_id rid s = Some r \<Longrightarrow> r \<in> set (ib_receipts s) \<and> ir_id r = rid"
  by (auto simp: receipt_by_id_def dest: find_SomeD)

lemma by_no_mem: "receipt_by_no no s = Some r \<Longrightarrow> r \<in> set (ib_receipts s) \<and> ir_receipt_no r = no"
  by (auto simp: receipt_by_no_def dest: find_SomeD)

lemma release_inv:
  assumes inv: "receipt_inv s" and run: "release_inbound_receipt now rid s = Inr (r', s')"
  shows "receipt_inv s' \<and> receipts_stay s s' \<and> ib_rest s' = ib_rest s"
proof -
  from run obtain r where r: "receipt_by_id rid s = Some r" by (auto simp: release_inbound_receipt_def split: option.splits)
  note m = by_id_mem [OF r]
  show ?thesis
  proof (cases "ir_status r = IR_DRAFT")
    case False
    with run r have "s' = s" by (auto simp: release_inbound_receipt_def split: if_splits)
    then show ?thesis using inv same_receipts_inv(2) [of s s] by (simp add: same_receipts_def)
  next
    case True
    with run r have r': "r' = r\<lparr>ir_status := IR_RELEASED, ir_released_at := ir_released_at r'\<rparr>"
      and s': "s' = s\<lparr>ib_receipts := map (\<lambda>x. if ir_id x = ir_id r then r' else x) (ib_receipts s)\<rparr>"
      using m by (auto simp: release_inbound_receipt_def Let_def)
    have sel: "ir_status r' = IR_RELEASED" "succeeds_receipt r r'" using True by (subst r', simp add: succeeds_receipt_def)+
    have pr: "\<forall>l \<in> set (lines_of_receipt (ir_id r) s). received_base (ir_receipt_no r) (irl_line_no l) s \<le> planned_base l"
      "\<not> all_received (lines_of_receipt (ir_id r) s) (\<lambda>n. received_base (ir_receipt_no r) n s)"
      using inv m True by (auto simp: receipt_inv_def progress_ok_def fulfilled_def)
    have rb: "received_base no n s' = received_base no n s" for no n by (simp add: s' received_base_def ops_of_def)
    have "receipt_inv s' \<and> receipts_stay s s'"
    proof (rule refresh_inv [OF inv conjunct1 [OF m] sel(2), where os = "[]" and xs = "[]"])
      show "distinct (map io_id (ib_operations s @ []))" using inv by (simp add: receipt_inv_def keys_ok_def)
    qed (use pr sel(1) rb in \<open>auto simp: s'\<close>)
    then show ?thesis by (simp add: s')
  qed
qed

lemma lines_distinct:
  assumes "receipt_inv s"
  shows "distinct (map irl_line_no (lines_of_receipt rid s))"
proof -
  have "distinct (map line_key (ib_receipt_lines s))" using assms by (simp add: receipt_inv_def keys_ok_def)
  then have "distinct (map irl_line_no (filter (\<lambda>l. irl_receipt_id l = rid) (ib_receipt_lines s)))"
    by (auto simp: distinct_map line_key_def inj_on_def)
  then show ?thesis
    unfolding lines_of_receipt_def by (metis distinct_map distinct_sort set_sort)
qed

lemma submit_inv:
  assumes inv: "receipt_inv s" and run: "submit_inbound_operation rc now no tr p s = Inr ((op_id, xs), s')"
  shows "receipt_inv s' \<and> receipts_stay s s'" and "received_base (rp_receipt_no p) n s' = received_base (rp_receipt_no p) n s + counted xs n"
    and "keeps (core s) (core s')" and "same_count_tables (core s) (core s')" and "ib_rest s' = (ib_rest s)\<lparr>rd_core := core s'\<rparr>"
proof -
  obtain task d' where task: "receipt_by_no (rp_receipt_no p) s = Some task" and rel: "ir_status task = IR_RELEASED"
    and "\<not> frozen (ir_warehouse_id task) (core s)" "valid_submit p" and op: "op_id = next_id (map io_id (ib_operations s))"
    and s': "s' = (let t = (set_core d' s)\<lparr>ib_operations := ib_operations s @ [fresh_operation op_id task now p], ib_operation_lines := ib_operation_lines s @ xs\<rparr>
           in if all_received (lines_of_receipt (ir_id task) s) (\<lambda>n. received_base (rp_receipt_no p) n s + counted xs n)
              then complete_receipt (ir_id task) t else t)"
    and K: "keeps (core s) d'" "same_count_tables (core s) d'"
    and "\<forall>k. books_ok (core s) \<longrightarrow> on_hand d' k = on_hand (core s) k + moved (ir_warehouse_id task) xs k"
    and fits: "\<forall>x \<in> set xs. line_fits op_id (lines_of_receipt (ir_id task) s) x"
    and le: "\<forall>l \<in> set (lines_of_receipt (ir_id task) s). received_base (rp_receipt_no p) (irl_line_no l) s \<le> planned_base l \<longrightarrow>
        received_base (rp_receipt_no p) (irl_line_no l) s + counted xs (irl_line_no l) \<le> planned_base l"
    by (rule submit_Inr [OF run lines_distinct [OF inv]])
  note m = by_no_mem [OF task]
  let ?full = "all_received (lines_of_receipt (ir_id task) s) (\<lambda>n. received_base (rp_receipt_no p) n s + counted xs n)"
  let ?r' = "if ?full then task\<lparr>ir_status := IR_COMPLETED\<rparr> else task"
  let ?os = "[fresh_operation op_id task now p]"
  have core: "core s' = d'" by (simp add: s' Let_def complete_receipt_def)
  have rest: "ib_rest s' = (ib_rest s)\<lparr>rd_core := d'\<rparr>" by (simp add: s' Let_def complete_receipt_def set_core_def)
  have ids: "distinct (map io_id (ib_operations s @ ?os))"
    using inv by (simp add: receipt_inv_def keys_ok_def fresh_operation_def op)
  have uid: "x = task" if "x \<in> set (ib_receipts s)" "ir_id x = ir_id task" for x
    using distinct_key_unique [of ir_id "ib_receipts s" x task] inv that m by (simp add: receipt_inv_def keys_ok_def)
  have tabs: "ib_receipt_lines s' = ib_receipt_lines s" "ib_operations s' = ib_operations s @ ?os" "ib_operation_lines s' = ib_operation_lines s @ xs"
    by (simp_all add: s' Let_def complete_receipt_def)
  have recs: "ib_receipts s' = map (\<lambda>x. if ir_id x = ir_id task then ?r' else x) (ib_receipts s)"
  proof (cases ?full)
    case True
    have "(if ir_id x = ir_id task \<and> ir_status x = IR_RELEASED then x\<lparr>ir_status := IR_COMPLETED\<rparr> else x) = (if ir_id x = ir_id task then ?r' else x)"
      if "x \<in> set (ib_receipts s)" for x using uid [OF that] rel True by auto
    with True show ?thesis by (simp add: s' Let_def complete_receipt_def)
  next
    case False
    have "(if ir_id x = ir_id task then ?r' else x) = x" if "x \<in> set (ib_receipts s)" for x using uid [OF that] False by auto
    with False show ?thesis by (simp add: s' Let_def map_idI)
  qed
  have rb: "received_base (rp_receipt_no p) n s' = received_base (rp_receipt_no p) n s + counted xs n" for n
    using received_base_append [where no = "rp_receipt_no p" and no' = "rp_receipt_no p", OF _ ids tabs(2,3)] inv fits m
    by (auto simp: receipt_inv_def fresh_operation_def line_fits_def)
  have le': "received_base (ir_receipt_no task) (irl_line_no l) s' \<le> planned_base l" if "l \<in> set (lines_of_receipt (ir_id task) s)" for l
    using bspec [OF le that] inv m that rb by (auto simp: receipt_inv_def progress_ok_def)
  have "receipt_inv s' \<and> receipts_stay s s'"
  proof (rule refresh_inv [OF inv conjunct1 [OF m] _ recs tabs ids])
    show "succeeds_receipt task ?r'" using rel by (simp add: succeeds_receipt_def)
    show "(ir_status ?r' = IR_COMPLETED) = all_received (lines_of_receipt (ir_id task) s) (\<lambda>n. received_base (ir_receipt_no task) n s')"
      using rel m rb by simp
  qed (use fits le' rel in \<open>auto simp: fresh_operation_def line_fits_def\<close>)
  then show "receipt_inv s' \<and> receipts_stay s s'" .
  show "received_base (rp_receipt_no p) n s' = received_base (rp_receipt_no p) n s + counted xs n" by (rule rb)
  show "keeps (core s) (core s')" "same_count_tables (core s) (core s')" "ib_rest s' = (ib_rest s)\<lparr>rd_core := core s'\<rparr>"
    using K core rest by simp_all
qed

section \<open>The whole system\<close>

datatype full_op =
    FO_rest return_op
  | FO_purchase string purchase_payload
  | FO_manual string manual_receipt
  | FO_return string return_receipt
  | FO_release datetime int
  | FO_receive datetime string string receive_payload
  | FO_reconcile int

fun exec_full :: "receiving_client \<Rightarrow> (int list \<Rightarrow> export_uom list) \<Rightarrow> three_books_view \<Rightarrow> full_op \<Rightarrow> receipt_db \<Rightarrow> receipt_db result" where
  "exec_full rc lu view (FO_rest op) s = bindR (exec_return_op (rc_pms rc) lu view op (ib_rest s)) (\<lambda>t. Inr (s\<lparr>ib_rest := t\<rparr>))"
| "exec_full rc lu view (FO_purchase no p) s = bindR (create_inbound_receipt_from_purchase rc no p s) (\<lambda>(_, t). Inr t)"
| "exec_full rc lu view (FO_manual no p) s = bindR (create_inbound_receipt_manual rc no p s) (\<lambda>(_, t). Inr t)"
| "exec_full rc lu view (FO_return no p) s = bindR (create_inbound_receipt_from_return_order rc no p s) (\<lambda>(_, t). Inr t)"
| "exec_full rc lu view (FO_release now i) s = bindR (release_inbound_receipt now i s) (\<lambda>(_, t). Inr t)"
| "exec_full rc lu view (FO_receive now no tr p) s = bindR (submit_inbound_operation rc now no tr p s) (\<lambda>(_, t). Inr t)"
| "exec_full rc lu view (FO_reconcile i) s = bindR (apply_counters i s) (\<lambda>(_, t). Inr t)"

inductive full_run :: "receiving_client \<Rightarrow> (int list \<Rightarrow> export_uom list) \<Rightarrow> three_books_view \<Rightarrow> receipt_db \<Rightarrow> receipt_db \<Rightarrow> bool"
  for rc lu view s0 where
  start: "full_run rc lu view s0 s0"
| step: "full_run rc lu view s0 s \<Longrightarrow> exec_full rc lu view op s = Inr s' \<Longrightarrow> full_run rc lu view s0 s'"

definition full_inv :: "receipt_db \<Rightarrow> bool" where
  "full_inv s \<longleftrightarrow> wms_inv (core s) \<and> return_inv (ib_rest s) \<and> receipt_inv s"

text \<open>The count documents are not touched by returns.\<close>

lemma commit_return_count:
  assumes "commit_return pol view now tid tr occ s = Inr (r, s')"
  shows "same_count_tables (rd_core s) (rd_core s')"
proof -
  have loop: "same_count_tables (rd_core s) (rd_core u)" if "map_loop (commit_return_line pol now t tr ts) ls s = Inr (es, u)" for t ts ls es u
  proof (rule map_loop_invariant [where I = "\<lambda>v. same_count_tables (rd_core s) (rd_core v)", OF _ _ that])
    fix l and v :: return_db and e v'
    assume v: "same_count_tables (rd_core s) (rd_core v)" and "commit_return_line pol now t tr ts l v = Inr (e, v')"
    from this(2) obtain q d' where adj: "adjust_lot pol now (return_args t tr ts (rd_core v) l) (rd_core v) = Inr (q, d')" and c: "rd_core v' = d'"
      by (rule commit_line_Inr) simp
    from same_count_trans [OF v adjusting.step_count [OF adj]] show "same_count_tables (rd_core s) (rd_core v')" by (simp add: c)
  qed simp
  show ?thesis using assms
    by (auto simp: commit_return_def res_simps Let_def split: if_splits dest!: loop)
qed

lemma exec_return_count:
  assumes "exec_return_op pms lu view op s = Inr s'" and "count_inv (rd_core s)" and "return_inv s"
  shows "count_inv (rd_core s')"
proof (cases op)
  case (RO_core o')
  with assms(1) obtain d where "exec_op pms lu o' (rd_core s) = Inr d" "s' = s\<lparr>rd_core := d\<rparr>" by (auto simp: res_simps)
  with exec_op_keeps assms(2) show ?thesis by fastforce
next
  case (RO_create r w z)
  with assms(1) obtain x where "create_for_order r w z s = Inr (x, s')" by (auto simp: res_simps)
  then have "rd_core s' = rd_core s" using create_for_order_inv [OF assms(3)] by blast
  with assms(2) show ?thesis by simp
next
  case (RO_receive i item q)
  with assms(1) obtain x where "record_receive i item q s = Inr (x, s')" by (auto simp: res_simps)
  then have "rd_core s' = rd_core s" by (auto simp: record_receive_def set_line_def Let_def res_simps split: if_splits)
  with assms(2) show ?thesis by simp
next
  case (RO_commit now i tr occ)
  with assms(1) obtain x where "commit_return (pms_policy pms) view now i tr occ s = Inr (x, s')" by (auto simp: res_simps)
  with count_inv_same [OF commit_return_count] assms(2) show ?thesis by blast
qed (use assms(1,2) in \<open>auto simp: res_simps\<close>)

lemma drafts_core:
  assumes "drafts s s'"
  shows "keeps (core s) (core s') \<and> same_count_tables (core s) (core s') \<and> ib_rest s' = (ib_rest s)\<lparr>rd_core := core s'\<rparr>"
proof -
  from assms obtain row ls ids where
    s': "s' = (set_core ((core s)\<lparr>db_inbound_receipts := ids\<rparr>) s)\<lparr>ib_receipts := ib_receipts s @ [row], ib_receipt_lines := ib_receipt_lines s @ ls\<rparr>"
    unfolding drafts_def by blast
  have c: "core s' = (core s)\<lparr>db_inbound_receipts := ids\<rparr>" by (simp add: s')
  have r: "ib_rest s' = (ib_rest s)\<lparr>rd_core := core s'\<rparr>" unfolding c by (simp add: s' set_core_def)
  have "keeps (core s) (core s')" by (rule keeps_frame) (simp_all add: c same_stock_def)
  with c r show ?thesis by (simp add: same_count_tables_def)
qed

lemma full_inv_step:
  assumes "full_inv s" and "keeps (core s) (core s')" and "same_count_tables (core s) (core s')"
    and "ib_rest s' = (ib_rest s)\<lparr>rd_core := core s'\<rparr>" and "receipt_inv s'"
  shows "full_inv s' \<and> committed_stay (ib_rest s) (ib_rest s')"
proof -
  have "wms_inv (core s')" using assms(1-3) count_inv_same [OF assms(3)] by (simp add: full_inv_def wms_inv_def keeps_def)
  moreover have "return_inv (ib_rest s')"
    unfolding assms(4) by (rule return_inv_core) (use assms(1,2) in \<open>simp_all add: full_inv_def keeps_def core_def\<close>)
  ultimately show ?thesis using assms(4,5) by (simp add: full_inv_def committed_stay_tables)
qed

lemma apply_counters_same:
  assumes "apply_counters i s = Inr (u, s')"
  shows "same_receipts s s' \<and> ib_rest s' = ib_rest s"
  using assms by (auto simp: apply_counters_def res_simps Let_def same_receipts_def split: option.splits if_splits)

lemma exec_full_inv:
  assumes inv: "full_inv s" and run: "exec_full rc lu view op s = Inr s'"
  shows "full_inv s' \<and> keeps (core s) (core s') \<and> receipts_stay s s' \<and> committed_stay (ib_rest s) (ib_rest s')"
proof -
  have R: "receipt_inv s" "return_inv (ib_rest s)" "wms_inv (core s)" using inv by (simp_all add: full_inv_def)
  have new: ?thesis if "drafts s s'"
    using drafts_inv [OF R(1) that] drafts_core [OF that] full_inv_step [OF inv, of s'] by blast
  have quiet: ?thesis if "same_receipts s s'" "ib_rest s' = ib_rest s"
    using same_receipts_inv [OF that(1)] that(2) inv by (simp add: full_inv_def core_def)
  show ?thesis
  proof (cases op)
    case (FO_rest o')
    with run obtain t where t: "exec_return_op (rc_pms rc) lu view o' (ib_rest s) = Inr t" and s': "s' = s\<lparr>ib_rest := t\<rparr>" by (auto simp: res_simps)
    have same: "same_receipts s s'" by (simp add: s' same_receipts_def)
    have "wms_inv (core s')"
      using exec_return_inv [OF R(2) t] exec_return_count [OF t _ R(2)] R(3) by (simp add: wms_inv_def keeps_def core_def s')
    with exec_return_inv [OF R(2) t] same_receipts_inv [OF same] R(1) show ?thesis by (simp add: full_inv_def core_def s')
  next
    case (FO_release now i)
    with run obtain x where "release_inbound_receipt now i s = Inr (x, s')" by (auto simp: res_simps)
    from release_inv [OF R(1) this] inv show ?thesis by (simp add: full_inv_def core_def)
  next
    case (FO_receive now no tr p)
    with run obtain op_id xs where sub: "submit_inbound_operation rc now no tr p s = Inr ((op_id, xs), s')" by (auto simp: res_simps)
    note S = submit_inv [OF R(1) sub]
    from full_inv_step [OF inv S(3,4,5) conjunct1 [OF S(1)]] S(1,3) show ?thesis by blast
  next
    case (FO_reconcile i)
    with run obtain u where "apply_counters i s = Inr (u, s')" by (auto simp: res_simps)
    with apply_counters_same quiet show ?thesis by blast
  qed (use run new in \<open>auto simp: res_simps dest: create_from_purchase_drafts create_manual_drafts create_from_return_drafts\<close>)
qed

lemma full_run_inv:
  assumes "full_run rc lu view s0 s" and "full_inv s0"
  shows "full_inv s \<and> keeps (core s0) (core s) \<and> receipts_stay s0 s \<and> committed_stay (ib_rest s0) (ib_rest s)"
  using assms
proof (induction rule: full_run.induct)
  case start
  then show ?case using same_receipts_inv(2) [of s0 s0] by (simp add: same_receipts_def)
next
  case (step s op s')
  then show ?case using exec_full_inv [of s rc lu view op s'] by (blast intro: keeps_trans receipts_stay_trans committed_stay_trans)
qed

end
