(* ===== verification/Order_State.thy ===== *)
theory Order_State
  imports Receipt_Life
begin

text \<open>
  The tables around orders: stores, the fulfilment record of an order
  (\<open>app/oms/orders/models/order_fulfillment.py\<close>), the local projection of orders that the order system
  has released, the records of their import (\<open>app/integrations/oms/projection_models.py\<close>), and the shipping
  records (\<open>app/shipping_assist/records/models/shipping_record.py\<close>). They stand beside the tables of
  \<open>receipt_db\<close> in the record \<open>wms_db\<close>, the state of the whole system. Prices, remarks, hashes, the trace
  id and the user of an import, weights and sizes of a package and time stamps that nothing reads
  are left out.
\<close>

record store =
  sto_id :: int
  sto_platform :: string
  sto_store_code :: string
  sto_store_name :: string
  sto_active :: bool

record fulfillment =
  ff_order_id :: int
  ff_planned_warehouse_id :: "int option"
  ff_actual_warehouse_id :: "int option"
  ff_status :: "string option"
  ff_blocked_reasons :: "string option"
  ff_execution_stage :: "string option"
  ff_committed_at :: "datetime option"
  ff_completed_at :: "datetime option"

record projection_order =
  pj_ready_order_id :: string
  pj_source_order_id :: int
  pj_platform :: string
  pj_store_code :: string
  pj_store_name :: string
  pj_platform_order_no :: string
  pj_receiver_name :: string
  pj_receiver_phone :: string
  pj_receiver_province :: string
  pj_receiver_city :: string
  pj_receiver_district :: "string option"
  pj_receiver_address :: string
  pj_receiver_postcode :: "string option"
  pj_component_count :: int

record projection_component =
  pc_ready_component_id :: string
  pc_ready_line_id :: string
  pc_ready_order_id :: string
  pc_item_id :: int
  pc_sku_code_id :: int
  pc_item_uom_id :: int
  pc_component_sku_code :: string
  pc_sku_code :: string
  pc_required_qty :: rat
  pc_sort_order :: int

record order_import =
  oim_ready_order_id :: string
  oim_order_id :: int
  oim_platform :: string
  oim_store_code :: string
  oim_platform_order_no :: string
  oim_source_order_id :: int
  oim_order_line_count :: int
  oim_component_count :: int

record component_import =
  cim_ready_component_id :: string
  cim_ready_order_id :: string
  cim_ready_line_id :: string
  cim_order_id :: int
  cim_order_line_id :: int
  cim_item_id :: int
  cim_sku_code_id :: int
  cim_item_uom_id :: int
  cim_required_qty :: rat

record shipping_provider =
  sp_id :: int
  sp_name :: string
  sp_code :: string
  sp_active :: bool

record shipping_record =
  sr_id :: int
  sr_order_ref :: string
  sr_platform :: string
  sr_store :: string
  sr_package_no :: int
  sr_warehouse :: int
  sr_provider_id :: int
  sr_provider_code :: string
  sr_provider_name :: string
  sr_tracking_no :: string
  sr_cost_estimated :: "rat option"
  sr_sender :: "string option"
  sr_dest_province :: "string option"
  sr_dest_city :: "string option"
  sr_created_at :: datetime

record wms_db =
  wd_rest :: receipt_db
  wd_stores :: "store list"
  wd_fulfillment :: "fulfillment list"
  wd_projection_orders :: "projection_order list"
  wd_projection_components :: "projection_component list"
  wd_order_imports :: "order_import list"
  wd_component_imports :: "component_import list"
  wd_providers :: "shipping_provider list"
  wd_shipping_records :: "shipping_record list"

type_synonym 'a wms_action = "wms_db \<Rightarrow> ('a \<times> wms_db) result"

abbreviation base :: "wms_db \<Rightarrow> db" where
  "base s \<equiv> core (wd_rest s)"

definition set_base :: "db \<Rightarrow> wms_db \<Rightarrow> wms_db" where
  "set_base d s = s\<lparr>wd_rest := set_core d (wd_rest s)\<rparr>"

lemma set_base_simps [simp]:
  "base (set_base d s) = d" "wd_stores (set_base d s) = wd_stores s" "wd_fulfillment (set_base d s) = wd_fulfillment s"
  "wd_projection_orders (set_base d s) = wd_projection_orders s" "wd_projection_components (set_base d s) = wd_projection_components s"
  "wd_order_imports (set_base d s) = wd_order_imports s" "wd_component_imports (set_base d s) = wd_component_imports s"
  "wd_providers (set_base d s) = wd_providers s" "wd_shipping_records (set_base d s) = wd_shipping_records s"
  "ib_order_items (wd_rest (set_base d s)) = ib_order_items (wd_rest s)" "ib_order_status (wd_rest (set_base d s)) = ib_order_status (wd_rest s)"
  by (simp_all add: set_base_def set_core_def core_def)

lemma find_appended: "find P (xs @ ys) = (case find P xs of None \<Rightarrow> find P ys | Some x \<Rightarrow> Some x)"
  by (induction xs) auto

text \<open>
  What an operation outside the stock core leaves alone: stock, events, manual documents and count
  documents of the core, the return tasks and snapshots, and the tables of receipts.
\<close>

definition quiet :: "wms_db \<Rightarrow> wms_db \<Rightarrow> bool" where
  "quiet s s' \<longleftrightarrow> keeps (base s) (base s') \<and> same_count_tables (base s) (base s') \<and>
     ib_rest (wd_rest s') = (ib_rest (wd_rest s))\<lparr>rd_core := base s'\<rparr> \<and> same_receipts (wd_rest s) (wd_rest s')"

lemma quiet_refl [simp]: "quiet s s"
  by (simp add: quiet_def same_receipts_def core_def same_count_tables_def)

lemma quiet_trans: "quiet a b \<Longrightarrow> quiet b c \<Longrightarrow> quiet a c"
  by (auto simp: quiet_def same_receipts_def intro: keeps_trans same_count_trans)

text \<open>Changes of orders, their lines, export records and hand-over payloads are quiet, as are those of the outer tables.\<close>

lemma quiet_core:
  assumes "same_stock (base s) (base s')" and "db_wms_events (base s') = db_wms_events (base s)"
    and "db_inbound_event_lines (base s') = db_inbound_event_lines (base s)" and "db_outbound_event_lines (base s') = db_outbound_event_lines (base s)"
    and "db_manual_docs (base s') = db_manual_docs (base s)" and "db_manual_lines (base s') = db_manual_lines (base s)"
    and "same_count_tables (base s) (base s')" and "ib_rest (wd_rest s') = (ib_rest (wd_rest s))\<lparr>rd_core := base s'\<rparr>"
    and "same_receipts (wd_rest s) (wd_rest s')"
  shows "quiet s s'"
  using keeps_frame [OF assms(1-6)] assms(7-9) by (simp add: quiet_def)

lemma quiet_outer: "wd_rest s' = wd_rest s \<Longrightarrow> quiet s s'"
  by (simp add: quiet_def same_receipts_def core_def same_count_tables_def)

lemma quiet_inv:
  assumes q: "quiet s s'" and "full_inv (wd_rest s)"
  shows "full_inv (wd_rest s') \<and> keeps (base s) (base s') \<and> receipts_stay (wd_rest s) (wd_rest s') \<and>
     committed_stay (ib_rest (wd_rest s)) (ib_rest (wd_rest s'))"
proof -
  from q have "same_receipts (wd_rest s) (wd_rest s')" by (simp add: quiet_def)
  from same_receipts_inv [OF this] assms(2) have r: "receipt_inv (wd_rest s')" "receipts_stay (wd_rest s) (wd_rest s')"
    by (simp_all add: full_inv_def)
  with full_inv_step [OF assms(2) _ _ _ r(1)] q show ?thesis by (simp add: quiet_def)
qed

text \<open>The operations of the outer tables share this contract.\<close>

locale quiet_action =
  fixes act :: "'a \<Rightarrow> 'b wms_action"
  assumes quiet_step: "act a s = Inr (b, s') \<Longrightarrow> quiet s s'"
begin

lemma quiet_loop: "map_loop act as s = Inr (bs, s') \<Longrightarrow> quiet s s'"
  by (rule map_loop_invariant [where I = "quiet s" and f = act]) (auto intro: quiet_trans quiet_step)

lemma quiet_full_inv:
  assumes "act a s = Inr (b, s')" and "full_inv (wd_rest s)"
  shows "full_inv (wd_rest s') \<and> keeps (base s) (base s') \<and> receipts_stay (wd_rest s) (wd_rest s') \<and>
     committed_stay (ib_rest (wd_rest s)) (ib_rest (wd_rest s'))"
  by (rule quiet_inv [OF quiet_step [OF assms(1)] assms(2)])

end

end
