(* ===== verification/Handoff.thy ===== *)
theory Handoff
  imports Order_State
begin

text \<open>
  The interface to the logistics service, \<open>app/shipping_assist/handoffs\<close>: which hand-overs it may fetch
  (\<open>repository_ready.py\<close>), the answer to an import (\<open>repository_import_results.py\<close>), the packages it shipped
  (\<open>repository_shipping_results.py\<close>), their requests (\<open>contracts_machine.py\<close>) and handlers (\<open>router.py\<close>).
  Weights, sizes and the split of the cost of a package are left out, as are the times of the last attempt.
  The search list of \<open>repository.py\<close> is not modelled.
\<close>

section \<open>Requests\<close>

record import_answer =
  ia_source_ref :: string
  ia_exported :: bool                        \<comment> \<open>\<open>export_status\<close> is EXPORTED or FAILED\<close>
  ia_request_id :: "int option"
  ia_request_no :: "string option"
  ia_error_message :: "string option"

definition text_between :: "nat \<Rightarrow> nat \<Rightarrow> string \<Rightarrow> bool" where
  "text_between lo hi v \<longleftrightarrow> lo \<le> length v \<and> length v \<le> hi"

definition opt_ok :: "('a \<Rightarrow> bool) \<Rightarrow> 'a option \<Rightarrow> bool" where
  "opt_ok P m = (case m of None \<Rightarrow> True | Some x \<Rightarrow> P x)"

definition valid_import_answer :: "import_answer \<Rightarrow> bool" where
  "valid_import_answer p \<longleftrightarrow> text_between 1 192 (ia_source_ref p) \<and> opt_ok (\<lambda>i. 1 \<le> i) (ia_request_id p) \<and>
     opt_ok (text_between 1 64) (ia_request_no p) \<and> opt_ok (text_between 1 2000) (ia_error_message p) \<and>
     (if ia_exported p then ia_request_id p \<noteq> None \<and> ia_request_no p \<noteq> None \<and> ia_error_message p = None
      else ia_error_message p \<noteq> None \<and> ia_request_id p = None \<and> ia_request_no p = None)"

record package =
  pk_package_no :: int
  pk_tracking_no :: string
  pk_provider_code :: string
  pk_provider_name :: "string option"
  pk_cost_estimated :: "rat option"
  pk_sender :: "string option"
  pk_dest_province :: "string option"
  pk_dest_city :: "string option"

record shipping_answer =
  sa_source_ref :: string
  sa_request_id :: "int option"
  sa_request_no :: "string option"
  sa_completed_at :: "datetime option"
  sa_packages :: "package list"

definition valid_package :: "package \<Rightarrow> bool" where
  "valid_package p \<longleftrightarrow> 1 \<le> pk_package_no p \<and> text_between 1 128 (pk_tracking_no p) \<and> text_between 1 64 (pk_provider_code p) \<and>
     opt_ok (text_between 0 128) (pk_provider_name p) \<and> opt_ok (\<lambda>c. 0 \<le> c) (pk_cost_estimated p) \<and> opt_ok (text_between 0 128) (pk_sender p) \<and>
     opt_ok (text_between 0 64) (pk_dest_province p) \<and> opt_ok (text_between 0 64) (pk_dest_city p)"

definition valid_shipping_answer :: "shipping_answer \<Rightarrow> bool" where
  "valid_shipping_answer p \<longleftrightarrow> text_between 1 192 (sa_source_ref p) \<and> opt_ok (\<lambda>i. 1 \<le> i) (sa_request_id p) \<and>
     opt_ok (text_between 1 64) (sa_request_no p) \<and> sa_packages p \<noteq> [] \<and> list_all valid_package (sa_packages p) \<and>
     distinct (map pk_package_no (sa_packages p))"

section \<open>Ready hand-overs\<close>

text \<open>\<open>NULLIF(BTRIM(COALESCE(v, '')), '') IS NOT NULL\<close>: something else than spaces.\<close>

definition filled :: "string option \<Rightarrow> bool" where
  "filled v = (case v of None \<Rightarrow> False | Some x \<Rightarrow> list_ex (\<lambda>c. c \<noteq> CHR '' '') x)"

definition ready_pair :: "source_doc_type option \<Rightarrow> export_status option \<Rightarrow> export_record \<times> handoff_payload \<Rightarrow> bool" where
  "ready_pair doc_type status rp =
     (let r = fst rp; p = snd rp
      in hp_export_record_id p = xr_id r \<and> filled (Some (hp_outbound_source_ref p)) \<and> hp_shipment_items p \<noteq> [] \<and>
         filled (hp_receiver_name p) \<and> filled (hp_receiver_phone p) \<and> filled (hp_receiver_province p) \<and> filled (hp_receiver_city p) \<and>
         filled (hp_receiver_address p) \<and> opt_ok (\<lambda>t. xr_source_doc_type r = t) doc_type \<and>
         (case status of Some e \<Rightarrow> xr_export_status r = e | None \<Rightarrow> xr_export_status r \<in> {EX_PENDING, EX_FAILED}))"

definition ready_pairs :: "source_doc_type option \<Rightarrow> export_status option \<Rightarrow> db \<Rightarrow> (export_record \<times> handoff_payload) list" where
  "ready_pairs doc_type status d = filter (ready_pair doc_type status) (List.product (db_export_records d) (db_handoff_payloads d))"

definition count_logistics_ready_records :: "source_doc_type option \<Rightarrow> export_status option \<Rightarrow> db \<Rightarrow> nat" where
  "count_logistics_ready_records doc_type status d = length (ready_pairs doc_type status d)"

text \<open>The argument \<open>created\<close> gives the column \<open>created_at\<close> of a record.\<close>

definition list_logistics_ready_records ::
  "(int \<Rightarrow> datetime) \<Rightarrow> source_doc_type option \<Rightarrow> export_status option \<Rightarrow> nat \<Rightarrow> nat \<Rightarrow> db \<Rightarrow> (export_record \<times> handoff_payload) list" where
  "list_logistics_ready_records created doc_type status limit offset d =
     take limit (drop offset (sort_key (\<lambda>rp. created (xr_id (fst rp))) (sort_key (\<lambda>rp. xr_id (fst rp)) (ready_pairs doc_type status d))))"

section \<open>Import results\<close>

definition load_export_record_for_update :: "string \<Rightarrow> db \<Rightarrow> export_record option" where
  "load_export_record_for_update ref d = find (\<lambda>x. xr_source_ref x = py_strip ref) (db_export_records d)"

definition same_logistics_request :: "export_record \<Rightarrow> int \<Rightarrow> string \<Rightarrow> bool" where
  "same_logistics_request x i no \<longleftrightarrow> xr_request_id x = Some i \<and> (case xr_request_no x of None \<Rightarrow> [] | Some n \<Rightarrow> n) = no"

definition update_export_record :: "string \<Rightarrow> (export_record \<Rightarrow> export_record) \<Rightarrow> db \<Rightarrow> db" where
  "update_export_record ref g d =
     d\<lparr>db_export_records := map (\<lambda>x. if xr_source_ref x = py_strip ref then g x else x) (db_export_records d)\<rparr>"

definition imported_statuses :: "logistics_status set" where
  "imported_statuses = {LG_IMPORTED, LG_IN_PROGRESS, LG_COMPLETED}"

definition keep_or :: "datetime option \<Rightarrow> datetime \<Rightarrow> datetime option" where
  "keep_or m t = (case m of Some u \<Rightarrow> Some u | None \<Rightarrow> Some t)"

text \<open>\<open>None\<close> when there is no such record.\<close>

definition apply_logistics_import_success :: "datetime \<Rightarrow> string \<Rightarrow> int \<Rightarrow> string \<Rightarrow> export_record option action" where
  "apply_logistics_import_success now ref i no d =
     (case load_export_record_for_update ref d of
        None \<Rightarrow> Inr (None, d)
      | Some x \<Rightarrow>
          bindR (ensure (xr_export_status x \<noteq> EX_CANCELLED) (ValueError ''logistics_export_record_cancelled'')) (\<lambda>_.
          if xr_export_status x = EX_EXPORTED
          then bindR (ensure (same_logistics_request x i no) (ValueError ''logistics_export_record_already_exported'')) (\<lambda>_. Inr (Some x, d))
          else bindR (ensure (xr_logistics_status x \<notin> imported_statuses) (ValueError ''logistics_export_record_invalid_import_transition'')) (\<lambda>_.
            (let g = (\<lambda>y. y\<lparr>xr_export_status := EX_EXPORTED, xr_logistics_status := LG_IMPORTED, xr_request_id := Some i,
                            xr_request_no := Some (py_strip no), xr_exported_at := keep_or (xr_exported_at y) now, xr_last_error := None\<rparr>)
             in Inr (Some (g x), update_export_record ref g d)))))"

definition apply_logistics_import_failure :: "string \<Rightarrow> string \<Rightarrow> export_record option action" where
  "apply_logistics_import_failure ref msg d =
     (case load_export_record_for_update ref d of
        None \<Rightarrow> Inr (None, d)
      | Some x \<Rightarrow>
          bindR (ensure (xr_export_status x \<noteq> EX_CANCELLED) (ValueError ''logistics_export_record_cancelled'')) (\<lambda>_.
          bindR (ensure (\<not> (xr_export_status x = EX_EXPORTED \<or> xr_logistics_status x \<in> imported_statuses))
             (ValueError ''logistics_export_record_already_imported'')) (\<lambda>_.
            (let g = (\<lambda>y. y\<lparr>xr_export_status := EX_FAILED, xr_logistics_status := LG_FAILED, xr_request_id := None,
                            xr_request_no := None, xr_last_error := Some (py_strip msg)\<rparr>)
             in Inr (Some (g x), update_export_record ref g d)))))"

section \<open>Shipping results\<close>

definition load_shipping_result_context :: "string \<Rightarrow> db \<Rightarrow> (export_record \<times> handoff_payload) option" where
  "load_shipping_result_context ref d =
     find (\<lambda>(r, p). hp_export_record_id p = xr_id r \<and> xr_source_ref r = py_strip ref) (List.product (db_export_records d) (db_handoff_payloads d))"

definition clean_required :: "string option \<Rightarrow> string \<Rightarrow> string result" where
  "clean_required v field = require_some (norm_text v) (ValueError (field @ ''_required''))"

record shipping_base =
  sb_platform :: string
  sb_store_code :: string
  sb_order_ref :: string
  sb_warehouse_id :: int
  sb_dest_province :: "string option"
  sb_dest_city :: "string option"

text \<open>The column \<open>warehouse_id\<close> of a payload is always set in the model, so \<open>warehouse_id_required\<close> is not raised.\<close>

definition base_shipping_record_values :: "export_record \<Rightarrow> handoff_payload \<Rightarrow> shipping_base result" where
  "base_shipping_record_values r p =
     (case xr_source_doc_type r of
        ORDER_OUTBOUND \<Rightarrow>
          bindR (clean_required (hp_platform p) ''platform'') (\<lambda>pl.
          bindR (clean_required (hp_store_code p) ''store_code'') (\<lambda>sc.
          bindR (case norm_text (hp_order_ref p) of
                   Some o' \<Rightarrow> Inr o'
                 | None \<Rightarrow> bindR (clean_required (hp_ext_order_no p) ''ext_order_no'') (\<lambda>no. Inr (''ORD:'' @ py_upper pl @ '':'' @ sc @ '':'' @ no))) (\<lambda>oref.
          Inr \<lparr>sb_platform = py_upper pl, sb_store_code = sc, sb_order_ref = oref, sb_warehouse_id = hp_warehouse_id p,
               sb_dest_province = norm_text (hp_receiver_province p), sb_dest_city = norm_text (hp_receiver_city p)\<rparr>)))
      | MANUAL_OUTBOUND \<Rightarrow>
          bindR (clean_required (Some (xr_source_doc_no r)) ''manual_doc_no'') (\<lambda>no.
          Inr \<lparr>sb_platform = ''MANUAL'', sb_store_code = ''MANUAL'', sb_order_ref = ''MANUAL:'' @ no, sb_warehouse_id = hp_warehouse_id p,
               sb_dest_province = None, sb_dest_city = None\<rparr>))"

definition resolve_shipping_provider :: "string \<Rightarrow> wms_db \<Rightarrow> shipping_provider result" where
  "resolve_shipping_provider code s =
     require_some (find (\<lambda>x. sp_code x = py_upper (py_strip code) \<and> sp_active x) (wd_providers s)) (ValueError ''shipping_provider_mapping_not_found'')"

definition or_else :: "string option \<Rightarrow> string option \<Rightarrow> string option" where
  "or_else a b = (case a of Some x \<Rightarrow> Some x | None \<Rightarrow> b)"

definition shipping_row :: "datetime \<Rightarrow> shipping_base \<Rightarrow> package \<Rightarrow> datetime option \<Rightarrow> shipping_provider \<Rightarrow> string \<Rightarrow> int \<Rightarrow> shipping_record" where
  "shipping_row now b p completed_at v tracking i =
     \<lparr>sr_id = i, sr_order_ref = sb_order_ref b, sr_platform = sb_platform b, sr_store = sb_store_code b, sr_package_no = pk_package_no p,
      sr_warehouse = sb_warehouse_id b, sr_provider_id = sp_id v, sr_provider_code = sp_code v,
      sr_provider_name = (case norm_text (pk_provider_name p) of Some n \<Rightarrow> n | None \<Rightarrow> sp_name v), sr_tracking_no = tracking,
      sr_cost_estimated = pk_cost_estimated p, sr_sender = norm_text (pk_sender p),
      sr_dest_province = or_else (norm_text (pk_dest_province p)) (norm_text (sb_dest_province b)),
      sr_dest_city = or_else (norm_text (pk_dest_city p)) (norm_text (sb_dest_city b)),
      sr_created_at = (case completed_at of Some t \<Rightarrow> t | None \<Rightarrow> now)\<rparr>"

definition shipping_key :: "shipping_record \<Rightarrow> string \<times> string \<times> string \<times> int" where
  "shipping_key r = (sr_platform r, sr_store r, sr_order_ref r, sr_package_no r)"

text \<open>\<open>INSERT ... ON CONFLICT (platform, store_code, order_ref, package_no) DO UPDATE\<close>, which keeps the id.\<close>

definition write_shipping_record :: "(int \<Rightarrow> shipping_record) \<Rightarrow> int wms_action" where
  "write_shipping_record row s =
     (let olds = wd_shipping_records s; k = shipping_key (row 0);
          i = (case find (\<lambda>x. shipping_key x = k) olds of Some x \<Rightarrow> sr_id x | None \<Rightarrow> next_id (map sr_id olds)); r = row i
      in bindR (ensure (sr_warehouse r \<in> set (map wh_id (db_warehouses (base s)))) (IntegrityError ''fk_shipping_records_warehouse'')) (\<lambda>_.
         bindR (ensure (\<not> (\<exists>x \<in> set olds. shipping_key x \<noteq> k \<and> sr_provider_id x = sr_provider_id r \<and> sr_tracking_no x = sr_tracking_no r))
            (IntegrityError ''uq_shipping_records_provider_tracking_notnull'')) (\<lambda>_.
         Inr (i, s\<lparr>wd_shipping_records := (if \<exists>x \<in> set olds. shipping_key x = k then map (\<lambda>x. if shipping_key x = k then r else x) olds else olds @ [r])\<rparr>))))"

definition upsert_shipping_record :: "datetime \<Rightarrow> shipping_base \<Rightarrow> datetime option \<Rightarrow> package \<Rightarrow> int wms_action" where
  "upsert_shipping_record now b completed_at p s =
     bindR (clean_required (Some (pk_provider_code p)) ''shipping_provider_code'') (\<lambda>code.
     bindR (resolve_shipping_provider code s) (\<lambda>v.
     bindR (clean_required (Some (pk_tracking_no p)) ''tracking_no'') (\<lambda>tracking.
     write_shipping_record (shipping_row now b p completed_at v tracking) s)))"

definition assert_request_identity :: "export_record \<Rightarrow> int option \<Rightarrow> string option \<Rightarrow> unit result" where
  "assert_request_identity x i no =
     bindR (ensure (xr_request_id x = None \<or> i = None \<or> xr_request_id x = i) (ValueError ''logistics_request_id_mismatch'')) (\<lambda>_.
     ensure (norm_text (xr_request_no x) = None \<or> no = None \<or> norm_text (xr_request_no x) = map_option py_strip no) (ValueError ''logistics_request_no_mismatch''))"

definition complete_record :: "datetime \<Rightarrow> shipping_answer \<Rightarrow> export_record \<Rightarrow> export_record" where
  "complete_record now a x =
     x\<lparr>xr_logistics_status := LG_COMPLETED, xr_request_id := (case sa_request_id a of Some i \<Rightarrow> Some i | None \<Rightarrow> xr_request_id x),
       xr_request_no := or_else (map_option py_strip (sa_request_no a)) (xr_request_no x),
       xr_completed_at := keep_or (sa_completed_at a) now, xr_last_error := None\<rparr>"

definition apply_logistics_shipping_results :: "datetime \<Rightarrow> shipping_answer \<Rightarrow> int list option wms_action" where
  "apply_logistics_shipping_results now a s =
     (case load_shipping_result_context (sa_source_ref a) (base s) of
        None \<Rightarrow> Inr (None, s)
      | Some (x, p) \<Rightarrow>
          bindR (ensure (xr_export_status x = EX_EXPORTED) (ValueError ''logistics_export_record_not_exported'')) (\<lambda>_.
          bindR (ensure (xr_logistics_status x \<in> imported_statuses) (ValueError ''logistics_export_record_not_imported'')) (\<lambda>_.
          bindR (assert_request_identity x (sa_request_id a) (sa_request_no a)) (\<lambda>_.
          bindR (base_shipping_record_values x p) (\<lambda>b.
          bindR (map_loop (upsert_shipping_record now b (sa_completed_at a)) (sa_packages a) s) (\<lambda>(ids, s1).
          Inr (Some ids, set_base (update_export_record (sa_source_ref a) (complete_record now a) (base s1)) s1)))))))"

section \<open>Handlers\<close>

definition as_conflict :: "'a result \<Rightarrow> 'a result" where
  "as_conflict m = (case m of Inl (ValueError e) \<Rightarrow> Inl (HTTPException 409 e) | _ \<Rightarrow> m)"

definition found_or_404 :: "('a option \<times> 's) result \<Rightarrow> ('a \<times> 's) result" where
  "found_or_404 m = bindR (as_conflict m) (\<lambda>(r, s). bindR (require_some r (HTTPException 404 ''logistics export record not found'')) (\<lambda>x. Inr (x, s)))"

definition record_handoff_import_result :: "datetime \<Rightarrow> import_answer \<Rightarrow> export_record wms_action" where
  "record_handoff_import_result now p s =
     bindR (ensure (valid_import_answer p) (HTTPException 422 ''validation'')) (\<lambda>_.
     bindR (found_or_404 (if ia_exported p
        then apply_logistics_import_success now (ia_source_ref p) (case ia_request_id p of Some i \<Rightarrow> i | None \<Rightarrow> 0)
               (case ia_request_no p of Some n \<Rightarrow> n | None \<Rightarrow> []) (base s)
        else apply_logistics_import_failure (ia_source_ref p) (case ia_error_message p of Some m \<Rightarrow> m | None \<Rightarrow> []) (base s))) (\<lambda>(x, d).
     Inr (x, set_base d s)))"

definition record_handoff_shipping_result :: "datetime \<Rightarrow> shipping_answer \<Rightarrow> int list wms_action" where
  "record_handoff_shipping_result now a s =
     bindR (ensure (valid_shipping_answer a) (HTTPException 422 ''validation'')) (\<lambda>_. found_or_404 (apply_logistics_shipping_results now a s))"

end
