(* ===== verification/Routing.thy ===== *)
theory Routing
  imports Stock_Ship
begin

text \<open>
  Choice of a warehouse for a whole order, \<open>app/wms/outbound/services/warehouse_router.py\<close>, and the
  matrix of \<open>order_warehouse_availability.py\<close>. The router reads quantities through the interface
  \<open>AvailabilityProvider\<close>, here the locale \<open>availability_provider\<close>, which \<open>StockAvailabilityProvider\<close>
  implements on the balances. Within one call a quantity is read once per warehouse and item
  (\<open>avail_cache\<close>), so it is a function of them. The exceptions \<open>NoWarehouseConfigured\<close> and
  \<open>NoWarehouseCanFulfill\<close> are runtime errors with these names; messages are left out.
\<close>

record order_context =
  oc_platform :: string
  oc_store_code :: string

record demand_line =
  dl_item_id :: int
  dl_qty :: int

record store_warehouse_binding =
  wb_platform :: string
  wb_store_code :: string
  wb_warehouse_id :: int
  wb_is_top :: bool
  wb_priority :: int

record routing_result =
  rr_warehouse_id :: int
  rr_reason :: string
  rr_considered :: "int list"

record insufficient_line =
  is_item_id :: int
  is_need :: int
  is_available :: int

datatype check_status = CHECK_OK | CHECK_BLOCKED

record fulfillment_check =
  fc_status :: check_status
  fc_warehouse_id :: int
  fc_insufficient :: "insufficient_line list"

text \<open>\<open>get_available(platform, store_code, warehouse_id, item_id)\<close>\<close>

type_synonym availability = "string \<Rightarrow> string \<Rightarrow> int \<Rightarrow> int \<Rightarrow> int"

definition stock_availability_provider :: "db \<Rightarrow> availability" where
  "stock_availability_provider d platform store_code warehouse_id item_id =
     (let v = get_available_for_item warehouse_id item_id d in if 0 \<le> v then v else 0)"

section \<open>The router\<close>

definition get_avail :: "availability \<Rightarrow> order_context \<Rightarrow> int \<Rightarrow> int \<Rightarrow> int" where
  "get_avail av ctx wh item = (let v = av (oc_platform ctx) (oc_store_code ctx) wh item in if v < 0 then 0 else v)"

fun can_fulfill :: "availability \<Rightarrow> order_context \<Rightarrow> demand_line list \<Rightarrow> int \<Rightarrow> bool" where
  "can_fulfill av ctx [] wh = True"
| "can_fulfill av ctx (l # ls) wh =
     (if dl_qty l \<le> 0 then can_fulfill av ctx ls wh
      else if get_avail av ctx wh (dl_item_id l) < dl_qty l then False
      else can_fulfill av ctx ls wh)"

text \<open>One of the two loops: \<open>Inl\<close> carries the warehouses considered, \<open>Inr\<close> the result.\<close>

fun try_bindings :: "availability \<Rightarrow> order_context \<Rightarrow> demand_line list \<Rightarrow> string \<Rightarrow> store_warehouse_binding list \<Rightarrow> int list \<Rightarrow> int list + routing_result" where
  "try_bindings av ctx ls reason [] considered = Inl considered"
| "try_bindings av ctx ls reason (b # bs) considered =
     (let seen = considered @ [wb_warehouse_id b]
      in if can_fulfill av ctx ls (wb_warehouse_id b)
         then Inr \<lparr>rr_warehouse_id = wb_warehouse_id b, rr_reason = reason, rr_considered = seen\<rparr>
         else try_bindings av ctx ls reason bs seen)"

definition binding_sort_key :: "store_warehouse_binding \<Rightarrow> int \<times> int" where
  "binding_sort_key b = (wb_priority b, wb_warehouse_id b)"

definition scoped_bindings :: "order_context \<Rightarrow> store_warehouse_binding list \<Rightarrow> store_warehouse_binding list" where
  "scoped_bindings ctx bs = filter (\<lambda>b. wb_platform b = oc_platform ctx \<and> wb_store_code b = oc_store_code ctx) bs"

definition route :: "availability \<Rightarrow> order_context \<Rightarrow> demand_line list \<Rightarrow> store_warehouse_binding list \<Rightarrow> routing_result result" where
  "route av ctx ls bindings =
     bindR (ensure (bindings \<noteq> []) (RuntimeError ''NoWarehouseConfigured'')) (\<lambda>_.
     (let scoped = scoped_bindings ctx bindings
      in bindR (ensure (scoped \<noteq> []) (RuntimeError ''NoWarehouseConfigured'')) (\<lambda>_.
         (let top = sort_key binding_sort_key (filter wb_is_top scoped);
              backup = sort_key binding_sort_key (filter (\<lambda>b. \<not> wb_is_top b) scoped)
          in case try_bindings av ctx ls ''top_warehouse_with_stock'' top [] of
               Inr r \<Rightarrow> Inr r
             | Inl considered \<Rightarrow>
                 (case try_bindings av ctx ls ''backup_warehouse_with_stock'' backup considered of
                    Inr r \<Rightarrow> Inr r
                  | Inl _ \<Rightarrow> Inl (RuntimeError ''NoWarehouseCanFulfill''))))))"

definition insufficient_of :: "availability \<Rightarrow> order_context \<Rightarrow> int \<Rightarrow> demand_line \<Rightarrow> insufficient_line list" where
  "insufficient_of av ctx wid l =
     (let available = get_avail av ctx wid (dl_item_id l)
      in if dl_qty l \<le> 0 then []
         else if available < dl_qty l
         then [\<lparr>is_item_id = dl_item_id l, is_need = dl_qty l, is_available = available\<rparr>] else [])"

definition check_whole_order :: "availability \<Rightarrow> order_context \<Rightarrow> int \<Rightarrow> demand_line list \<Rightarrow> fulfillment_check" where
  "check_whole_order av ctx wid ls =
     (if wid \<le> 0 then \<lparr>fc_status = CHECK_BLOCKED, fc_warehouse_id = wid, fc_insufficient = []\<rparr>
      else (let insufficient = concat (map (insufficient_of av ctx wid) ls)
            in \<lparr>fc_status = (if insufficient \<noteq> [] then CHECK_BLOCKED else CHECK_OK), fc_warehouse_id = wid, fc_insufficient = insufficient\<rparr>))"

fun scan_loop :: "availability \<Rightarrow> order_context \<Rightarrow> demand_line list \<Rightarrow> int list \<Rightarrow> int list \<Rightarrow> fulfillment_check list" where
  "scan_loop av ctx ls [] seen = []"
| "scan_loop av ctx ls (wid # ws) seen =
     (if wid \<le> 0 \<or> wid \<in> set seen then scan_loop av ctx ls ws seen
      else check_whole_order av ctx wid ls # scan_loop av ctx ls ws (wid # seen))"

definition scan_warehouses :: "availability \<Rightarrow> order_context \<Rightarrow> int list \<Rightarrow> demand_line list \<Rightarrow> fulfillment_check list" where
  "scan_warehouses av ctx candidates ls = scan_loop av ctx ls candidates []"

section \<open>The matrix of needs and warehouses\<close>

record availability_cell =
  ac_warehouse_id :: int
  ac_item_id :: int
  ac_available :: int
  ac_shortage :: int
  ac_enough :: bool

text \<open>The distinct positive ids, in the order given.\<close>

fun positive_ids :: "int list \<Rightarrow> int list \<Rightarrow> int list" where
  "positive_ids [] seen = []"
| "positive_ids (w # ws) seen =
     (if w \<le> 0 \<or> w \<in> set seen then positive_ids ws seen else w # positive_ids ws (w # seen))"

text \<open>\<open>lines\<close> are the needs of an order by item, with positive items and quantities.\<close>

definition availability_cell_of :: "db \<Rightarrow> int \<Rightarrow> demand_line list \<Rightarrow> demand_line \<Rightarrow> availability_cell" where
  "availability_cell_of d wid lines l =
     (let raw = (case map_of (get_available_for_items wid (map dl_item_id lines) d) (dl_item_id l) of None \<Rightarrow> 0 | Some v \<Rightarrow> v);
          available = (if 0 \<le> raw then raw else 0); shortage = max (dl_qty l - available) 0
      in \<lparr>ac_warehouse_id = wid, ac_item_id = dl_item_id l, ac_available = available, ac_shortage = shortage, ac_enough = (shortage = 0)\<rparr>)"

definition build_matrix :: "db \<Rightarrow> demand_line list \<Rightarrow> int list \<Rightarrow> availability_cell list" where
  "build_matrix d lines warehouse_ids =
     (if lines = [] then []
      else concat (map (\<lambda>wid. map (availability_cell_of d wid lines) lines) (positive_ids warehouse_ids [])))"

section \<open>The interface of the router\<close>

text \<open>The order in which \<open>route\<close> looks at the warehouses: top ones first, then by priority and id.\<close>

definition preference :: "order_context \<Rightarrow> store_warehouse_binding list \<Rightarrow> store_warehouse_binding list" where
  "preference ctx bs =
     sort_key binding_sort_key (filter wb_is_top (scoped_bindings ctx bs)) @
     sort_key binding_sort_key (filter (\<lambda>b. \<not> wb_is_top b) (scoped_bindings ctx bs))"

definition covers :: "(int \<Rightarrow> int) \<Rightarrow> demand_line list \<Rightarrow> bool" where
  "covers have_qty ls \<longleftrightarrow> (\<forall>l \<in> set ls. 0 < dl_qty l \<longrightarrow> dl_qty l \<le> have_qty (dl_item_id l))"

definition reason_of :: "store_warehouse_binding \<Rightarrow> string" where
  "reason_of b = (if wb_is_top b then ''top_warehouse_with_stock'' else ''backup_warehouse_with_stock'')"

text \<open>The first binding of a list that passes a test, with the warehouses looked at.\<close>

fun first_able :: "(int \<Rightarrow> bool) \<Rightarrow> store_warehouse_binding list \<Rightarrow> int list \<Rightarrow> int list + routing_result" where
  "first_able able [] seen = Inl seen"
| "first_able able (b # bs) seen =
     (let seen' = seen @ [wb_warehouse_id b]
      in if able (wb_warehouse_id b) then Inr \<lparr>rr_warehouse_id = wb_warehouse_id b, rr_reason = reason_of b, rr_considered = seen'\<rparr>
         else first_able able bs seen')"

lemma first_able_append:
  "first_able able (as @ bs) seen = (case first_able able as seen of Inl seen' \<Rightarrow> first_able able bs seen' | Inr r \<Rightarrow> Inr r)"
  by (induction as arbitrary: seen) (simp_all add: Let_def)

lemma first_able_Inr:
  "first_able able bs seen = Inr r \<longleftrightarrow>
     (\<exists>us b vs. bs = us @ b # vs \<and> (\<forall>u \<in> set us. \<not> able (wb_warehouse_id u)) \<and> able (wb_warehouse_id b) \<and>
        r = \<lparr>rr_warehouse_id = wb_warehouse_id b, rr_reason = reason_of b, rr_considered = seen @ map wb_warehouse_id us @ [wb_warehouse_id b]\<rparr>)"
proof (induction bs arbitrary: seen)
  case (Cons c bs)
  let ?r = "\<lambda>seen us b. \<lparr>rr_warehouse_id = wb_warehouse_id b, rr_reason = reason_of b, rr_considered = seen @ map wb_warehouse_id us @ [wb_warehouse_id b]\<rparr>"
  show ?case (is "?lhs \<longleftrightarrow> ?rhs")
  proof
    assume l: ?lhs
    show ?rhs
    proof (cases "able (wb_warehouse_id c)")
      case True
      with l show ?thesis by (intro exI [of _ "[]"] exI [of _ c] exI [of _ bs]) (simp add: Let_def)
    next
      case False
      with l have "first_able able bs (seen @ [wb_warehouse_id c]) = Inr r" by (simp add: Let_def)
      then obtain us b vs where "bs = us @ b # vs" "\<forall>u \<in> set us. \<not> able (wb_warehouse_id u)" "able (wb_warehouse_id b)"
        "r = ?r (seen @ [wb_warehouse_id c]) us b" by (auto simp: Cons.IH)
      with False show ?thesis by (intro exI [of _ "c # us"] exI [of _ b] exI [of _ vs]) simp
    qed
  next
    assume ?rhs
    then obtain us b vs where u: "c # bs = us @ b # vs" "\<forall>u \<in> set us. \<not> able (wb_warehouse_id u)" "able (wb_warehouse_id b)" "r = ?r seen us b"
      by auto
    show ?lhs
    proof (cases us)
      case Nil
      with u show ?thesis by (simp add: Let_def)
    next
      case (Cons x us')
      with u have "bs = us' @ b # vs" "\<not> able (wb_warehouse_id c)" "\<forall>u \<in> set us'. \<not> able (wb_warehouse_id u)"
        "r = ?r (seen @ [wb_warehouse_id c]) us' b" by auto
      with u(3) have "first_able able bs (seen @ [wb_warehouse_id c]) = Inr r" by (subst Cons.IH) blast
      with \<open>\<not> able (wb_warehouse_id c)\<close> show ?thesis by (simp add: Let_def)
    qed
  qed
qed simp

lemma first_able_Inl: "(\<exists>seen'. first_able able bs seen = Inl seen') \<longleftrightarrow> (\<forall>b \<in> set bs. \<not> able (wb_warehouse_id b))"
  by (induction bs arbitrary: seen) (auto simp: Let_def)

text \<open>
  What the router relies on: a provider says how much of an item a warehouse has, and never a
  negative quantity. The state is that of the provider.
\<close>

locale availability_provider =
  fixes get_available :: "'s \<Rightarrow> availability" and held :: "'s \<Rightarrow> int \<Rightarrow> int \<Rightarrow> int"
  assumes available: "get_available s platform store_code wh item = max 0 (held s wh item)"
begin

lemma get_avail_eq: "get_avail (get_available s) ctx wh item = max 0 (held s wh item)"
  by (simp add: get_avail_def available Let_def)

lemma can_fulfill_iff: "can_fulfill (get_available s) ctx ls wh \<longleftrightarrow> covers (held s wh) ls"
  by (induction ls) (auto simp: covers_def get_avail_eq)

lemma check_ok_iff: "fc_status (check_whole_order (get_available s) ctx wh ls) = CHECK_OK \<longleftrightarrow> 0 < wh \<and> covers (held s wh) ls"
proof -
  have "insufficient_of (get_available s) ctx wh l = [] \<longleftrightarrow> (0 < dl_qty l \<longrightarrow> dl_qty l \<le> held s wh (dl_item_id l))" for l
    by (auto simp: insufficient_of_def get_avail_eq Let_def)
  then show ?thesis by (auto simp: check_whole_order_def covers_def Let_def)
qed

lemma try_bindings_eq:
  assumes "\<forall>b \<in> set bs. reason_of b = reason"
  shows "try_bindings (get_available s) ctx ls reason bs seen = first_able (\<lambda>wh. covers (held s wh) ls) bs seen"
  using assms by (induction bs arbitrary: seen) (simp_all add: can_fulfill_iff Let_def)

lemma route_eq:
  "route (get_available s) ctx ls bs =
     (if scoped_bindings ctx bs = [] then Inl (RuntimeError ''NoWarehouseConfigured'')
      else case first_able (\<lambda>wh. covers (held s wh) ls) (preference ctx bs) [] of
             Inl _ \<Rightarrow> Inl (RuntimeError ''NoWarehouseCanFulfill'') | Inr r \<Rightarrow> Inr r)"
proof (cases "scoped_bindings ctx bs = []")
  case True
  then show ?thesis by (cases "bs = []") (simp_all add: route_def Let_def)
next
  case False
  then have ne: "bs \<noteq> []" by (auto simp: scoped_bindings_def)
  let ?top = "sort_key binding_sort_key (filter wb_is_top (scoped_bindings ctx bs))"
  let ?backup = "sort_key binding_sort_key (filter (\<lambda>b. \<not> wb_is_top b) (scoped_bindings ctx bs))"
  have "\<forall>b \<in> set ?top. reason_of b = ''top_warehouse_with_stock''" "\<forall>b \<in> set ?backup. reason_of b = ''backup_warehouse_with_stock''"
    by (simp_all add: reason_of_def)
  from this [THEN try_bindings_eq] show ?thesis
    using False ne by (simp add: route_def Let_def preference_def first_able_append split: sum.splits)
qed

end

interpretation stock: availability_provider stock_availability_provider "\<lambda>d wh item. get_available_for_item wh item d"
  by unfold_locales (simp add: stock_availability_provider_def Let_def)

lemma scan_loop_warehouses:
  "map fc_warehouse_id (scan_loop av ctx ls ws seen) = positive_ids ws seen \<and>
   (\<forall>r \<in> set (scan_loop av ctx ls ws seen). r = check_whole_order av ctx (fc_warehouse_id r) ls)"
  by (induction ws arbitrary: seen) (simp_all add: check_whole_order_def Let_def)

lemma positive_ids_props:
  "distinct (positive_ids ws seen) \<and> set (positive_ids ws seen) = {w \<in> set ws. 0 < w} - set seen"
  by (induction ws arbitrary: seen) auto

text \<open>A cell of the matrix shows what is missing, and a row without shortage is a warehouse that passes the check.\<close>

lemma matrix_cell:
  assumes "l \<in> set lines" and "0 < dl_item_id l"
  shows "ac_shortage (availability_cell_of d wid lines l) = max 0 (dl_qty l - max 0 (get_available_for_item wid (dl_item_id l) d))"
proof -
  let ?ids = "remdups (sort (filter (\<lambda>x. x > 0) (map dl_item_id lines)))"
  have "map_of (get_available_for_items wid (map dl_item_id lines) d) (dl_item_id l) = Some (get_available_for_item wid (dl_item_id l) d)"
    unfolding get_available_for_items_def by (rule map_of_is_SomeI) (use assms in \<open>auto simp: o_def\<close>)
  then show ?thesis by (simp add: availability_cell_of_def Let_def max_def)
qed

lemma matrix_row_enough:
  assumes "\<forall>l \<in> set lines. 0 < dl_item_id l \<and> 0 < dl_qty l" and "0 < wid"
  shows "(\<forall>l \<in> set lines. ac_enough (availability_cell_of d wid lines l)) \<longleftrightarrow>
     fc_status (check_whole_order (stock_availability_provider d) ctx wid lines) = CHECK_OK"
proof -
  have "ac_enough (availability_cell_of d wid lines l) \<longleftrightarrow> dl_qty l \<le> get_available_for_item wid (dl_item_id l) d" if "l \<in> set lines" for l
  proof -
    have "ac_enough (availability_cell_of d wid lines l) \<longleftrightarrow> ac_shortage (availability_cell_of d wid lines l) = 0"
      by (simp add: availability_cell_of_def Let_def)
    with matrix_cell [OF that, of d wid] assms(1) that show ?thesis by auto
  qed
  with assms show ?thesis by (auto simp: stock.check_ok_iff covers_def)
qed

lemma sum_where_ge_member:
  assumes "x \<in> set xs" and "P x" and "\<forall>y \<in> set xs. 0 \<le> f y"
  shows "f x \<le> sum_where f P xs"
  using assms by (induction xs) (auto intro: add_increasing add_increasing2 sum_where_nonneg)

lemma available_for_item_nonneg: "books_ok d \<Longrightarrow> 0 \<le> get_available_for_item w i d"
  unfolding get_available_for_item_def books_ok_def by (rule sum_where_nonneg) (simp add: stocks_ok_def)

section \<open>Properties\<close>

text \<open>
  Claim C34. The route of an order. An order goes to the first warehouse, in the order of preference (top
  warehouses of its store first, then by priority and id), whose stock covers every line, and every
  warehouse before it fails on some line. Routing fails exactly when the store has no warehouse or none
  covers the lines.
\<close>

theorem route_first_able:
  "(\<forall>r. route (stock_availability_provider d) ctx ls bs = Inr r \<longleftrightarrow>
     (\<exists>us b vs. preference ctx bs = us @ b # vs \<and>
        (\<forall>u \<in> set us. \<not> covers (\<lambda>i. get_available_for_item (wb_warehouse_id u) i d) ls) \<and>
        covers (\<lambda>i. get_available_for_item (wb_warehouse_id b) i d) ls \<and>
        r = \<lparr>rr_warehouse_id = wb_warehouse_id b, rr_reason = reason_of b, rr_considered = map wb_warehouse_id (us @ [b])\<rparr>)) \<and>
   (isl (route (stock_availability_provider d) ctx ls bs) \<longleftrightarrow>
     (\<forall>b \<in> set (scoped_bindings ctx bs). \<not> covers (\<lambda>i. get_available_for_item (wb_warehouse_id b) i d) ls))"
proof -
  let ?able = "\<lambda>wh. covers (\<lambda>i. get_available_for_item wh i d) ls"
  note R = stock.route_eq [of d ctx ls bs]
  have mem: "set (preference ctx bs) = set (scoped_bindings ctx bs)" by (auto simp: preference_def)
  have nil: "preference ctx bs = [] \<longleftrightarrow> scoped_bindings ctx bs = []" using mem by (metis set_empty)
  have "route (stock_availability_provider d) ctx ls bs = Inr r \<longleftrightarrow> first_able ?able (preference ctx bs) [] = Inr r" for r
    unfolding R using nil by (auto split: sum.splits)
  moreover have "isl (route (stock_availability_provider d) ctx ls bs) \<longleftrightarrow> (\<exists>seen. first_able ?able (preference ctx bs) [] = Inl seen)"
    unfolding R using nil by (auto split: sum.splits)
  ultimately show ?thesis by (simp add: first_able_Inr first_able_Inl mem)
qed

definition sample_bindings :: "store_warehouse_binding list" where
  "sample_bindings =
     [\<lparr>wb_platform = ''PDD'', wb_store_code = ''S1'', wb_warehouse_id = 1, wb_is_top = False, wb_priority = 1\<rparr>,
      \<lparr>wb_platform = ''PDD'', wb_store_code = ''S1'', wb_warehouse_id = 2, wb_is_top = True, wb_priority = 9\<rparr>]"

theorem route_first_able_witness:
  "route (stock_availability_provider sample_db) \<lparr>oc_platform = ''PDD'', oc_store_code = ''S1''\<rparr> [\<lparr>dl_item_id = 1, dl_qty = 3\<rparr>] sample_bindings
     = Inr \<lparr>rr_warehouse_id = 1, rr_reason = ''backup_warehouse_with_stock'', rr_considered = [2, 1]\<rparr>"
proof -
  let ?ctx = "\<lparr>oc_platform = ''PDD'', oc_store_code = ''S1''\<rparr>" and ?ls = "[\<lparr>dl_item_id = 1, dl_qty = 3\<rparr>]"
  have p: "preference ?ctx sample_bindings = [sample_bindings ! 1] @ sample_bindings ! 0 # []"
    "\<not> covers (\<lambda>i. get_available_for_item 2 i sample_db) ?ls" "covers (\<lambda>i. get_available_for_item 1 i sample_db) ?ls" by code_simp+
  show ?thesis
    by (rule route_first_able [THEN conjunct1, rule_format, THEN iffD2], rule exI, rule exI, rule exI, rule conjI [OF p(1)])
      (use p(2,3) in \<open>simp add: sample_bindings_def reason_of_def\<close>)
qed

text \<open>
  Claim C35. What routing blocks cannot be shipped anew. When the check of a whole order finds a warehouse unable to
  serve the lines, a direct shipment of these lines from it under a new reference, one that no ledger row carries, fails. (Under a
  reference that has shipped before only what is missing is shipped, and this may go through.)
\<close>

theorem blocked_cannot_ship:
  assumes "books_ok d" and "\<forall>l \<in> set ls. 0 < dl_qty l" and "\<forall>r \<in> set (db_stock_ledger d). led_ref r \<noteq> ref" and "0 < w"
    and "fc_status (check_whole_order (stock_availability_provider d) ctx w ls) = CHECK_BLOCKED"
  shows "isl (ship_commit_direct_lot_impl pol now w ref (map (\<lambda>l. (dl_item_id l, dl_qty l)) ls) occurred_at trace_id d)"
proof (rule ccontr)
  let ?ns = "map (\<lambda>l. (dl_item_id l, dl_qty l)) ls"
  assume "\<not> isl (ship_commit_direct_lot_impl pol now w ref ?ns occurred_at trace_id d)"
  then obtain res d' where run: "ship_commit_direct_lot_impl pol now w ref ?ns occurred_at trace_id d = Inr (res, d')"
    by (metis old.prod.exhaust sum.collapse(2))
  have "\<forall>n \<in> set ?ns. 0 < snd n" using assms(2) by simp
  from ship_run_needs [OF assms(1) this assms(3) run] have ok: "books_ok d'"
    and left: "get_available_for_item w i d' = get_available_for_item w i d - sum_where snd (\<lambda>n. fst n = i) ?ns" for i
    by (simp_all add: needs_of_sum(1))
  from assms(4,5) obtain l where l: "l \<in> set ls" "get_available_for_item w (dl_item_id l) d < dl_qty l"
    using stock.check_ok_iff [of d ctx w ls] by (auto simp: covers_def not_le)
  have "dl_qty l \<le> sum_where snd (\<lambda>n. fst n = dl_item_id l) ?ns"
    using sum_where_ge_member [of "(dl_item_id l, dl_qty l)" ?ns "\<lambda>n. fst n = dl_item_id l" snd] l(1) assms(2)
    by (auto simp: less_imp_le)
  with left l have "get_available_for_item w (dl_item_id l) d' < 0" by simp
  with available_for_item_nonneg [OF ok] show False by (simp add: not_less [symmetric])
qed

theorem blocked_cannot_ship_witness:
  "isl (ship_commit_direct_lot_impl sample_policy 0 1 ''SHIP-1'' [(1, 11)] (Some 7) None sample_db)"
proof -
  have "\<forall>r \<in> set (db_stock_ledger sample_db). led_ref r \<noteq> ''SHIP-1''"
    "fc_status (check_whole_order (stock_availability_provider sample_db) \<lparr>oc_platform = ''PDD'', oc_store_code = ''S1''\<rparr> 1 [\<lparr>dl_item_id = 1, dl_qty = 11\<rparr>])
       = CHECK_BLOCKED" by code_simp+
  from blocked_cannot_ship [OF sample_books_ok _ this(1) _ this(2), of sample_policy 0 "Some 7" None] show ?thesis by simp
qed

end
