(* ===== verification/Fulfilment.thy ===== *)
theory Fulfilment
  imports Order_State Routing
begin

text \<open>
  The fulfilment record of an order: \<open>app/wms/outbound/services/order_fulfillment_service.py\<close> enters the outbound
  chain and finishes it, \<open>order_fulfillment_manual_assign.py\<close> assigns a warehouse by hand. The audit event of an
  assignment is represented by the shortage it reports; its other fields are left out.
\<close>

definition stage_ship :: string where "stage_ship = ''SHIP''"

section \<open>order\_fulfillment\_service\<close>

definition load_for_update :: "int \<Rightarrow> wms_db \<Rightarrow> fulfillment option" where
  "load_for_update oid s = find (\<lambda>f. ff_order_id f = oid) (wd_fulfillment s)"

text \<open>The \<open>CASE\<close> over \<open>execution_stage\<close>.\<close>

definition advance_stage :: "string option \<Rightarrow> string option" where
  "advance_stage st =
     (case st of None \<Rightarrow> Some ''SHIP''
      | Some x \<Rightarrow> if x = ''PICK'' then Some ''SHIP'' else if x = ''SHIP'' then Some ''SHIP'' else Some x)"

definition update_fulfillment :: "int \<Rightarrow> (fulfillment \<Rightarrow> fulfillment) \<Rightarrow> wms_db \<Rightarrow> wms_db" where
  "update_fulfillment oid g s = s\<lparr>wd_fulfillment := map (\<lambda>f. if ff_order_id f = oid then g f else f) (wd_fulfillment s)\<rparr>"

definition warehouse_exists :: "int \<Rightarrow> wms_db \<Rightarrow> bool" where
  "warehouse_exists w s \<longleftrightarrow> w \<in> set (map wh_id (db_warehouses (base s)))"

definition insert_fulfillment :: "fulfillment \<Rightarrow> wms_db \<Rightarrow> wms_db result" where
  "insert_fulfillment f s =
     bindR (ensure (ff_order_id f \<notin> set (map ff_order_id (wd_fulfillment s))) (IntegrityError ''order_fulfillment_pkey'')) (\<lambda>_.
     bindR (ensure (ff_order_id f \<in> set (map ord_id (db_orders (base s)))) (IntegrityError ''fk_order_fulfillment_order'')) (\<lambda>_.
     bindR (ensure (case ff_actual_warehouse_id f of None \<Rightarrow> True | Some w \<Rightarrow> warehouse_exists w s) (IntegrityError ''fk_order_fulfillment_warehouse'')) (\<lambda>_.
     Inr (s\<lparr>wd_fulfillment := wd_fulfillment s @ [f]\<rparr>))))"

definition committed_row :: "int \<Rightarrow> int \<Rightarrow> datetime \<Rightarrow> fulfillment" where
  "committed_row oid w t =
     \<lparr>ff_order_id = oid, ff_planned_warehouse_id = None, ff_actual_warehouse_id = Some w, ff_status = None, ff_blocked_reasons = None,
      ff_execution_stage = Some stage_ship, ff_committed_at = Some t, ff_completed_at = None\<rparr>"

definition coalesce :: "'a option \<Rightarrow> 'a \<Rightarrow> 'a" where
  "coalesce m x = (case m of Some y \<Rightarrow> y | None \<Rightarrow> x)"

definition commit_row :: "int \<Rightarrow> datetime \<Rightarrow> fulfillment \<Rightarrow> fulfillment" where
  "commit_row w t f =
     f\<lparr>ff_actual_warehouse_id := Some (coalesce (ff_actual_warehouse_id f) w), ff_committed_at := Some (coalesce (ff_committed_at f) t),
       ff_execution_stage := advance_stage (ff_execution_stage f)\<rparr>"

text \<open>The result is the pair of \<open>idempotent\<close> and the time stamp.\<close>

definition ensure_outbound_committed :: "int \<Rightarrow> int \<Rightarrow> datetime \<Rightarrow> (bool \<times> datetime) wms_action" where
  "ensure_outbound_committed oid w t s =
     (case load_for_update oid s of
        None \<Rightarrow> bindR (insert_fulfillment (committed_row oid w t) s) (\<lambda>s'. Inr ((False, t), s'))
      | Some f \<Rightarrow>
          bindR (ensure (ff_actual_warehouse_id f = None \<or> ff_actual_warehouse_id f = Some w) (HTTPException 409 ''fulfillment_warehouse_conflict'')) (\<lambda>_.
          bindR (ensure (ff_actual_warehouse_id f \<noteq> None \<or> warehouse_exists w s) (IntegrityError ''fk_order_fulfillment_warehouse'')) (\<lambda>_.
          Inr ((ff_committed_at f \<noteq> None, coalesce (ff_committed_at f) t), update_fulfillment oid (commit_row w t) s))))"

definition mark_outbound_completed :: "int \<Rightarrow> datetime \<Rightarrow> (bool \<times> datetime) wms_action" where
  "mark_outbound_completed oid t s =
     (case load_for_update oid s of
        None \<Rightarrow> Inl (HTTPException 409 ''fulfillment_missing'')
      | Some f \<Rightarrow>
         (case ff_completed_at f of
            Some u \<Rightarrow> Inr ((True, u), update_fulfillment oid (\<lambda>x. x\<lparr>ff_execution_stage := advance_stage (ff_execution_stage x)\<rparr>) s)
          | None \<Rightarrow>
             bindR (ensure (ff_committed_at f \<noteq> None) (HTTPException 409 ''fulfillment_invalid_transition'')) (\<lambda>_.
             Inr ((False, t), update_fulfillment oid
               (\<lambda>x. x\<lparr>ff_completed_at := Some (coalesce (ff_completed_at x) t), ff_execution_stage := advance_stage (ff_execution_stage x)\<rparr>) s))))"

section \<open>order\_fulfillment\_manual\_assign\<close>

record manual_assign_result =
  ma_order_id :: int
  ma_from_warehouse_id :: "int option"
  ma_to_warehouse_id :: int
  ma_status :: string

definition get_order_id_and_current_actual_wh :: "string \<Rightarrow> string \<Rightarrow> string \<Rightarrow> wms_db \<Rightarrow> (int \<times> int option) result" where
  "get_order_id_and_current_actual_wh platform store_code no s =
     bindR (require_some (find (\<lambda>x. ord_platform x = platform \<and> ord_store_code x = store_code \<and> ord_ext_order_no x = no) (db_orders (base s)))
        (ValueError ''order not found'')) (\<lambda>x.
     Inr (ord_id x, case load_for_update (ord_id x) s of None \<Rightarrow> None | Some f \<Rightarrow> ff_actual_warehouse_id f))"

definition item_need :: "int \<Rightarrow> int \<Rightarrow> wms_db \<Rightarrow> int" where
  "item_need oid item s =
     sum_where (\<lambda>x. coalesce (oi_qty x) 0) (\<lambda>x. oi_order_id x = oid \<and> oi_item_id x = item) (ib_order_items (wd_rest s))"

text \<open>\<open>SELECT item_id, SUM(COALESCE(qty, 0)) ... GROUP BY item_id ORDER BY item_id\<close>\<close>

definition need_rows :: "int \<Rightarrow> wms_db \<Rightarrow> demand_line list" where
  "need_rows oid s =
     map (\<lambda>item. \<lparr>dl_item_id = item, dl_qty = item_need oid item s\<rparr>)
       (remdups (sort (map oi_item_id (filter (\<lambda>x. oi_order_id x = oid) (ib_order_items (wd_rest s))))))"

definition load_order_lines_sum :: "int \<Rightarrow> wms_db \<Rightarrow> demand_line list" where
  "load_order_lines_sum oid s = filter (\<lambda>l. 0 < dl_qty l) (need_rows oid s)"

text \<open>The needs and the matrix of \<open>order_warehouse_availability.py\<close> for one order; SKU and title are left out.\<close>

definition load_order_need_lines :: "int \<Rightarrow> wms_db \<Rightarrow> demand_line list" where
  "load_order_need_lines oid s = filter (\<lambda>l. 0 < dl_item_id l \<and> 0 < dl_qty l) (need_rows oid s)"

definition order_availability :: "int \<Rightarrow> int list \<Rightarrow> wms_db \<Rightarrow> demand_line list \<times> availability_cell list" where
  "order_availability oid warehouse_ids s =
     (let lines = load_order_need_lines oid s in (lines, build_matrix (base s) lines warehouse_ids))"

definition check_can_fulfill_whole_order_soft :: "string \<Rightarrow> string \<Rightarrow> int \<Rightarrow> demand_line list \<Rightarrow> wms_db \<Rightarrow> insufficient_line list result" where
  "check_can_fulfill_whole_order_soft platform store_code w lines s =
     bindR (ensure (lines \<noteq> []) (ValueError ''manual-assign blocked: order has no lines'')) (\<lambda>_.
     (let r = check_whole_order (stock_availability_provider (base s)) \<lparr>oc_platform = platform, oc_store_code = store_code\<rparr> w
                (filter (\<lambda>l. 0 < dl_qty l) lines)
      in Inr (if fc_status r = CHECK_OK then [] else fc_insufficient r)))"

definition manually_assigned :: string where "manually_assigned = ''MANUALLY_ASSIGNED''"

definition assigned_row :: "int \<Rightarrow> int \<Rightarrow> fulfillment" where
  "assigned_row oid w =
     \<lparr>ff_order_id = oid, ff_planned_warehouse_id = None, ff_actual_warehouse_id = Some w, ff_status = Some manually_assigned, ff_blocked_reasons = None,
      ff_execution_stage = None, ff_committed_at = None, ff_completed_at = None\<rparr>"

definition assign_row :: "int \<Rightarrow> fulfillment \<Rightarrow> fulfillment" where
  "assign_row w f = f\<lparr>ff_actual_warehouse_id := Some w, ff_status := Some manually_assigned, ff_blocked_reasons := None\<rparr>"

definition upsert_assignment :: "int \<Rightarrow> int \<Rightarrow> wms_db \<Rightarrow> wms_db result" where
  "upsert_assignment oid w s =
     (if oid \<in> set (map ff_order_id (wd_fulfillment s))
      then bindR (ensure (warehouse_exists w s) (IntegrityError ''fk_order_fulfillment_warehouse'')) (\<lambda>_. Inr (update_fulfillment oid (assign_row w) s))
      else insert_fulfillment (assigned_row oid w) s)"

text \<open>The second part of the result is the shortage in the audit event.\<close>

definition manual_assign_fulfillment_warehouse ::
  "string \<Rightarrow> string \<Rightarrow> string \<Rightarrow> int \<Rightarrow> string \<Rightarrow> (manual_assign_result \<times> insufficient_line list) wms_action" where
  "manual_assign_fulfillment_warehouse platform store_code no w reason s =
     (let plat = py_strip (py_upper platform); sid = py_strip store_code
      in bindR (ensure (0 < w) (ValueError ''manual-assign blocked: warehouse_id must be > 0'')) (\<lambda>_.
         bindR (ensure (py_strip reason \<noteq> []) (ValueError ''manual-assign blocked: reason is required'')) (\<lambda>_.
         bindR (get_order_id_and_current_actual_wh plat sid no s) (\<lambda>(oid, from_wh).
         bindR (check_can_fulfill_whole_order_soft plat sid w (load_order_lines_sum oid s) s) (\<lambda>insufficient.
         bindR (upsert_assignment oid w s) (\<lambda>s'.
         Inr ((\<lparr>ma_order_id = oid, ma_from_warehouse_id = from_wh, ma_to_warehouse_id = w, ma_status = manually_assigned\<rparr>, insufficient), s')))))))"

section \<open>What the operations do to the records\<close>

definition fulfillment_ok :: "fulfillment \<Rightarrow> bool" where
  "fulfillment_ok f \<longleftrightarrow> ff_execution_stage f \<in> {None, Some ''PICK'', Some ''SHIP''} \<and>
     (ff_completed_at f \<noteq> None \<longrightarrow> ff_committed_at f \<noteq> None) \<and>
     (ff_committed_at f \<noteq> None \<longrightarrow> ff_execution_stage f = Some ''SHIP'' \<and> ff_actual_warehouse_id f \<noteq> None)"

definition fulfillments_ok :: "wms_db \<Rightarrow> bool" where
  "fulfillments_ok s \<longleftrightarrow> distinct (map ff_order_id (wd_fulfillment s)) \<and> (\<forall>f \<in> set (wd_fulfillment s). fulfillment_ok f)"

text \<open>
  Facts once written stay, and the stage does not go back: a stage once set stays or becomes SHIP, so PICK never falls
  back to no stage and SHIP stays SHIP.
\<close>

definition advances :: "fulfillment \<Rightarrow> fulfillment \<Rightarrow> bool" where
  "advances f g \<longleftrightarrow> ff_order_id g = ff_order_id f \<and> ff_planned_warehouse_id g = ff_planned_warehouse_id f \<and>
     (ff_committed_at f \<noteq> None \<longrightarrow> ff_committed_at g = ff_committed_at f) \<and>
     (ff_completed_at f \<noteq> None \<longrightarrow> ff_completed_at g = ff_completed_at f) \<and>
     (ff_execution_stage f \<noteq> None \<longrightarrow> ff_execution_stage g \<in> {ff_execution_stage f, Some ''SHIP''}) \<and>
     (ff_actual_warehouse_id f \<noteq> None \<longrightarrow> ff_actual_warehouse_id g \<noteq> None)"

definition fulfillments_advance :: "wms_db \<Rightarrow> wms_db \<Rightarrow> bool" where
  "fulfillments_advance s t \<longleftrightarrow> (\<forall>f \<in> set (wd_fulfillment s). \<exists>g \<in> set (wd_fulfillment t). advances f g)"

lemma advances_refl [simp]: "advances f f"
  by (simp add: advances_def)

lemma advances_trans: "advances f g \<Longrightarrow> advances g h \<Longrightarrow> advances f h"
  by (auto simp: advances_def)

lemma fulfillments_advance_refl [simp]: "fulfillments_advance s s"
  unfolding fulfillments_advance_def by (meson advances_refl)

lemma fulfillments_advance_append: "wd_fulfillment t = wd_fulfillment s @ fs \<Longrightarrow> fulfillments_advance s t"
  unfolding fulfillments_advance_def by (metis UnI1 advances_refl set_append)

lemma fulfillments_advance_trans: "fulfillments_advance a b \<Longrightarrow> fulfillments_advance b c \<Longrightarrow> fulfillments_advance a c"
  unfolding fulfillments_advance_def by (meson advances_trans)

definition fulfilment_step :: "wms_db \<Rightarrow> wms_db \<Rightarrow> bool" where
  "fulfilment_step s t \<longleftrightarrow> quiet s t \<and> (fulfillments_ok s \<longrightarrow> fulfillments_ok t) \<and> fulfillments_advance s t"

lemma fulfilment_step_refl [simp]: "fulfilment_step s s"
  by (simp add: fulfilment_step_def)

lemma fulfilment_step_trans: "fulfilment_step a b \<Longrightarrow> fulfilment_step b c \<Longrightarrow> fulfilment_step a c"
  unfolding fulfilment_step_def by (blast intro: quiet_trans fulfillments_advance_trans)

lemma update_step:
  assumes "\<And>f. f \<in> set (wd_fulfillment s) \<Longrightarrow> ff_order_id f = oid \<Longrightarrow> advances f (g f)"
    and "\<And>f. fulfillments_ok s \<Longrightarrow> f \<in> set (wd_fulfillment s) \<Longrightarrow> ff_order_id f = oid \<Longrightarrow> fulfillment_ok (g f)"
  shows "fulfilment_step s (update_fulfillment oid g s)"
proof -
  let ?h = "\<lambda>f. if ff_order_id f = oid then g f else f"
  have rows: "wd_fulfillment (update_fulfillment oid g s) = map ?h (wd_fulfillment s)" by (simp add: update_fulfillment_def)
  have h: "advances f (?h f)" if "f \<in> set (wd_fulfillment s)" for f using assms(1) [OF that] by simp
  then have "map ff_order_id (map ?h (wd_fulfillment s)) = map ff_order_id (wd_fulfillment s)" by (auto simp: advances_def)
  then have "distinct (map ff_order_id (map ?h (wd_fulfillment s))) \<longleftrightarrow> distinct (map ff_order_id (wd_fulfillment s))" by (rule arg_cong)
  moreover have "\<forall>f \<in> set (map ?h (wd_fulfillment s)). fulfillment_ok f" if "fulfillments_ok s"
    using assms(2) [OF that] that by (auto simp: fulfillments_ok_def)
  ultimately have "fulfillments_ok s \<longrightarrow> fulfillments_ok (update_fulfillment oid g s)"
    unfolding fulfillments_ok_def rows by blast
  moreover have "fulfillments_advance s (update_fulfillment oid g s)"
    unfolding fulfillments_advance_def rows using h by (metis (no_types, lifting) image_eqI set_map)
  moreover have "quiet s (update_fulfillment oid g s)" by (rule quiet_outer) (simp add: update_fulfillment_def)
  ultimately show ?thesis by (simp add: fulfilment_step_def)
qed

lemma insert_step:
  assumes "insert_fulfillment f s = Inr t" and "fulfillment_ok f"
  shows "fulfilment_step s t"
proof -
  from assms(1) have t: "t = s\<lparr>wd_fulfillment := wd_fulfillment s @ [f]\<rparr>" "ff_order_id f \<notin> set (map ff_order_id (wd_fulfillment s))"
    by (simp_all add: insert_fulfillment_def res_simps)
  then have "fulfillments_ok s \<longrightarrow> fulfillments_ok t" using assms(2) by (auto simp: fulfillments_ok_def)
  with t show ?thesis by (simp add: fulfilment_step_def quiet_outer fulfillments_advance_append)
qed

lemma ok_row: "fulfillments_ok s \<Longrightarrow> f \<in> set (wd_fulfillment s) \<Longrightarrow> fulfillment_ok f"
  by (simp add: fulfillments_ok_def)

lemma advance_stage_ok:
  "x \<in> {None, Some ''PICK'', Some ''SHIP''} \<Longrightarrow> advance_stage x = Some ''SHIP''" "advance_stage (Some ''SHIP'') = Some ''SHIP''"
  by (auto simp: advance_stage_def)

lemma advance_stage_forward: "x \<noteq> None \<Longrightarrow> advance_stage x \<in> {x, Some ''SHIP''}"
  by (auto simp: advance_stage_def)

lemma ensure_outbound_committed_step:
  assumes "ensure_outbound_committed oid w t s = Inr (r, s')"
  shows "fulfilment_step s s'"
proof (cases "load_for_update oid s")
  case None
  with assms have "insert_fulfillment (committed_row oid w t) s = Inr s'" by (simp add: ensure_outbound_committed_def res_simps)
  then show ?thesis by (rule insert_step) (simp add: fulfillment_ok_def committed_row_def stage_ship_def)
next
  case (Some f)
  with assms have "s' = update_fulfillment oid (commit_row w t) s" by (simp add: ensure_outbound_committed_def res_simps)
  moreover have "advances x (commit_row w t x)" for x
    using advance_stage_forward [of "ff_execution_stage x"] by (auto simp: advances_def commit_row_def coalesce_def split: option.splits)
  moreover have "fulfillment_ok (commit_row w t x)" if "fulfillment_ok x" for x
    using that by (auto simp: fulfillment_ok_def commit_row_def advance_stage_ok)
  ultimately show ?thesis by (simp add: update_step ok_row)
qed

lemma find_by_id_unique:
  assumes "distinct (map k xs)" and "find (\<lambda>x. k x = i) xs = Some y" and "x \<in> set xs" and "k x = i"
  shows "x = y"
  using assms by (induction xs) (auto split: if_splits)

lemma loaded_row:
  assumes "load_for_update oid s = Some f" and "fulfillments_ok s" and "x \<in> set (wd_fulfillment s)" and "ff_order_id x = oid"
  shows "x = f"
  using find_by_id_unique [of ff_order_id "wd_fulfillment s" oid f x] assms by (simp add: load_for_update_def fulfillments_ok_def)

lemma mark_outbound_completed_step:
  assumes "mark_outbound_completed oid t s = Inr (r, s')"
  shows "fulfilment_step s s'"
proof -
  from assms obtain f where f: "load_for_update oid s = Some f" by (auto simp: mark_outbound_completed_def split: option.splits)
  show ?thesis
  proof (cases "ff_completed_at f")
    case None
    let ?g = "\<lambda>x. x\<lparr>ff_completed_at := Some (coalesce (ff_completed_at x) t), ff_execution_stage := advance_stage (ff_execution_stage x)\<rparr>"
    from None assms f have c: "ff_committed_at f \<noteq> None" and s': "s' = update_fulfillment oid ?g s"
      by (auto simp: mark_outbound_completed_def res_simps)
    show ?thesis unfolding s'
    proof (rule update_step)
      show "advances x (?g x)" for x using advance_stage_forward [of "ff_execution_stage x"] by (auto simp: advances_def coalesce_def split: option.splits)
      show "fulfillment_ok (?g x)" if "fulfillments_ok s" "x \<in> set (wd_fulfillment s)" "ff_order_id x = oid" for x
        using c loaded_row [OF f that] ok_row [OF that(1,2)] by (simp add: fulfillment_ok_def advance_stage_ok)
    qed
  next
    case (Some v)
    with assms f have s': "s' = update_fulfillment oid (\<lambda>x. x\<lparr>ff_execution_stage := advance_stage (ff_execution_stage x)\<rparr>) s"
      by (simp add: mark_outbound_completed_def)
    have "fulfillment_ok (x\<lparr>ff_execution_stage := advance_stage (ff_execution_stage x)\<rparr>)" if "fulfillment_ok x" for x
      using that by (auto simp: fulfillment_ok_def advance_stage_ok)
    moreover have "advances x (x\<lparr>ff_execution_stage := advance_stage (ff_execution_stage x)\<rparr>)" for x
      using advance_stage_forward [of "ff_execution_stage x"] by (simp add: advances_def)
    ultimately show ?thesis unfolding s' by (intro update_step) (auto dest: ok_row)
  qed
qed

lemma manual_assign_step:
  assumes "manual_assign_fulfillment_warehouse platform store_code no w reason s = Inr (r, s')"
  shows "fulfilment_step s s'"
proof -
  from assms obtain oid where "upsert_assignment oid w s = Inr s'"
    by (auto simp: manual_assign_fulfillment_warehouse_def Let_def res_simps)
  then consider "s' = update_fulfillment oid (assign_row w) s" | "insert_fulfillment (assigned_row oid w) s = Inr s'"
    by (auto simp: upsert_assignment_def res_simps split: if_splits)
  then show ?thesis
  proof cases
    case 1
    have "fulfillment_ok (assign_row w x)" if "fulfillment_ok x" for x using that by (simp add: fulfillment_ok_def assign_row_def)
    then show ?thesis unfolding 1 by (intro update_step) (auto simp: advances_def assign_row_def dest: ok_row)
  next
    case 2
    then show ?thesis by (rule insert_step) (simp add: fulfillment_ok_def assigned_row_def)
  qed
qed

text \<open>The contract of the operations around orders: they are quiet, and the fulfilment records move forward.\<close>

locale fulfilment_action =
  fixes act :: "'a \<Rightarrow> 'b wms_action"
  assumes fulfil_step: "act a s = Inr (b, s') \<Longrightarrow> fulfilment_step s s'"
begin

lemma fulfil_loop: "map_loop act as s = Inr (bs, s') \<Longrightarrow> fulfilment_step s s'"
  by (rule map_loop_invariant [where I = "fulfilment_step s" and f = act])
    (auto intro: fulfilment_step_trans fulfil_step)

end

sublocale fulfilment_action \<subseteq> quiet_action act
  by unfold_locales (simp add: fulfil_step [unfolded fulfilment_step_def])

interpretation committing: fulfilment_action "\<lambda>(oid, w, t). ensure_outbound_committed oid w t"
  by unfold_locales (auto dest: ensure_outbound_committed_step)

interpretation completing: fulfilment_action "\<lambda>(oid, t). mark_outbound_completed oid t"
  by unfold_locales (auto dest: mark_outbound_completed_step)

interpretation assigning: fulfilment_action "\<lambda>(platform, store_code, no, w, reason). manual_assign_fulfillment_warehouse platform store_code no w reason"
  by unfold_locales (auto dest: manual_assign_step)

section \<open>Who may move an order to another warehouse\<close>

text \<open>
  Once an order is bound to a warehouse, entering the outbound chain from another one is refused; assigning it
  by hand to another warehouse is not, even after the outbound has been committed or completed.
\<close>

lemma commit_elsewhere_refused:
  assumes "load_for_update oid s = Some f" and "ff_actual_warehouse_id f = Some v" and "v \<noteq> w"
  shows "ensure_outbound_committed oid w t s = Inl (HTTPException 409 ''fulfillment_warehouse_conflict'')"
  using assms by (simp add: ensure_outbound_committed_def ensure_def)

lemma load_updated:
  assumes "load_for_update oid s = Some f" and "\<And>x. ff_order_id (g x) = ff_order_id x"
  shows "load_for_update oid (update_fulfillment oid g s) = Some (g f)"
proof -
  have "find (\<lambda>f. ff_order_id f = oid) (map (\<lambda>f. if ff_order_id f = oid then g f else f) fs) =
      map_option g (find (\<lambda>f. ff_order_id f = oid) fs)" for fs by (induction fs) (auto simp: assms(2))
  with assms(1) show ?thesis by (simp add: load_for_update_def update_fulfillment_def)
qed

lemma manual_assign_moves_committed:
  assumes "manual_assign_fulfillment_warehouse platform store_code no w reason s = Inr ((r, short), s')"
    and "load_for_update (ma_order_id r) s = Some f"
  shows "ma_from_warehouse_id r = ff_actual_warehouse_id f \<and> load_for_update (ma_order_id r) s' = Some (assign_row w f)"
proof -
  from assms(1) obtain oid where u: "upsert_assignment oid w s = Inr s'" and r: "ma_order_id r = oid"
      "ma_from_warehouse_id r = (case load_for_update oid s of None \<Rightarrow> None | Some f \<Rightarrow> ff_actual_warehouse_id f)"
    by (auto simp: manual_assign_fulfillment_warehouse_def get_order_id_and_current_actual_wh_def Let_def res_simps)
  from assms(2) r have "oid \<in> set (map ff_order_id (wd_fulfillment s))" by (force simp: load_for_update_def dest!: find_SomeD)
  with u have "s' = update_fulfillment oid (assign_row w) s" by (simp add: upsert_assignment_def res_simps)
  with load_updated [of oid s f "assign_row w"] assms(2) r show ?thesis by (simp add: assign_row_def)
qed

end
