(* ===== verification/Handoff_Laws.thy ===== *)
theory Handoff_Laws
  imports Handoff Fulfilment
begin

text \<open>
  Laws of the hand-over to the logistics service: the two statuses of an export record only move forward, and
  the packages it reports become shipping records, once each.
\<close>

section \<open>The life of an export record\<close>

definition export_ok :: "export_record \<Rightarrow> bool" where
  "export_ok x \<longleftrightarrow> (xr_export_status x = EX_EXPORTED \<longleftrightarrow> xr_logistics_status x \<in> imported_statuses) \<and>
     (xr_export_status x = EX_EXPORTED \<longleftrightarrow> xr_request_id x \<noteq> None) \<and>
     (xr_export_status x = EX_EXPORTED \<longrightarrow> xr_request_no x \<noteq> None \<and> xr_exported_at x \<noteq> None) \<and>
     (xr_logistics_status x = LG_COMPLETED \<longleftrightarrow> xr_completed_at x \<noteq> None)"

definition doc_key :: "export_record \<Rightarrow> source_doc_type \<times> int" where
  "doc_key x = (xr_source_doc_type x, xr_source_doc_id x)"

definition records_ok :: "db \<Rightarrow> bool" where
  "records_ok d \<longleftrightarrow> distinct (map doc_key (db_export_records d)) \<and> distinct (map xr_source_ref (db_export_records d)) \<and>
     (\<forall>x \<in> set (db_export_records d). export_ok x)"

text \<open>
  What stays of a record: its document, and after the import its status, its request and the time of the export;
  a completed record stays completed.
\<close>

definition forward :: "export_record \<Rightarrow> export_record \<Rightarrow> bool" where
  "forward x y \<longleftrightarrow> xr_id y = xr_id x \<and> doc_key y = doc_key x \<and>
     (xr_export_status x = EX_EXPORTED \<longrightarrow> xr_export_status y = EX_EXPORTED \<and> xr_request_id y = xr_request_id x \<and> xr_exported_at y = xr_exported_at x \<and>
        (norm_text (xr_request_no x) \<noteq> None \<longrightarrow> norm_text (xr_request_no y) = norm_text (xr_request_no x))) \<and>
     (xr_logistics_status x = LG_COMPLETED \<longrightarrow> xr_logistics_status y = LG_COMPLETED)"

definition records_forward :: "db \<Rightarrow> db \<Rightarrow> bool" where
  "records_forward d e \<longleftrightarrow> (\<forall>x \<in> set (db_export_records d). \<exists>y \<in> set (db_export_records e). forward x y)"

lemma forward_refl [simp]: "forward x x"
  by (simp add: forward_def)

lemma forward_trans: "forward x y \<Longrightarrow> forward y z \<Longrightarrow> forward x z"
  unfolding forward_def by (elim conjE) (intro conjI impI; metis)

lemma records_forward_same: "db_export_records e = db_export_records d \<Longrightarrow> records_forward d e"
  unfolding records_forward_def by (metis forward_refl)

lemma records_forward_trans: "records_forward a b \<Longrightarrow> records_forward b c \<Longrightarrow> records_forward a c"
  unfolding records_forward_def by (meson forward_trans)

text \<open>A step on the records, with what it keeps.\<close>

definition handoff_step :: "db \<Rightarrow> db \<Rightarrow> bool" where
  "handoff_step d e \<longleftrightarrow> records_ok d \<longrightarrow> records_ok e \<and> records_forward d e"

lemma handoff_step_same: "db_export_records e = db_export_records d \<Longrightarrow> handoff_step d e"
  by (simp add: handoff_step_def records_ok_def records_forward_same)

text \<open>An update of the rows that a predicate selects, which keeps the document.\<close>

lemma map_where_step:
  assumes e: "db_export_records e = map (\<lambda>x. if P x then g x else x) (db_export_records d)"
    and g: "\<And>x. records_ok d \<Longrightarrow> x \<in> set (db_export_records d) \<Longrightarrow> P x \<Longrightarrow> forward x (g x) \<and> export_ok (g x)"
    and refs: "records_ok d \<Longrightarrow> distinct (map xr_source_ref (db_export_records e))"
  shows "handoff_step d e"
  unfolding handoff_step_def
proof
  assume ok: "records_ok d"
  let ?h = "\<lambda>x. if P x then g x else x"
  have h: "forward x (?h x)" "export_ok (?h x)" if "x \<in> set (db_export_records d)" for x
    using g [OF ok that] ok that by (auto simp: records_ok_def)
  then have "map doc_key (map ?h (db_export_records d)) = map doc_key (db_export_records d)" by (auto simp: forward_def)
  then have "distinct (map doc_key (db_export_records e))" using ok by (simp only: e records_ok_def)
  moreover have "\<forall>x \<in> set (db_export_records e). export_ok x" unfolding e set_map using h(2) by blast
  moreover have "records_forward d e" unfolding records_forward_def e using h(1) by (metis (no_types, lifting) image_eqI set_map)
  ultimately show "records_ok e \<and> records_forward d e" using refs [OF ok] by (simp add: records_ok_def)
qed

lemma update_export_step:
  assumes x: "load_export_record_for_update ref d = Some x"
    and g: "records_ok d \<Longrightarrow> x \<in> set (db_export_records d) \<Longrightarrow> export_ok x \<Longrightarrow> forward x (g x) \<and> export_ok (g x)"
    and ref: "\<And>y. xr_source_ref (g y) = xr_source_ref y"
  shows "handoff_step d (update_export_record ref g d)"
proof (rule map_where_step [where P = "\<lambda>y. xr_source_ref y = py_strip ref" and g = g])
  have refs: "map xr_source_ref (map (\<lambda>y. if xr_source_ref y = py_strip ref then g y else y) (db_export_records d)) = map xr_source_ref (db_export_records d)"
    by (simp add: ref)
  show "distinct (map xr_source_ref (db_export_records (update_export_record ref g d)))" if "records_ok d"
    using that refs by (simp add: records_ok_def update_export_record_def del: map_map)
  show "forward y (g y) \<and> export_ok (g y)" if "records_ok d" "y \<in> set (db_export_records d)" "xr_source_ref y = py_strip ref" for y
  proof -
    have "y = x" using find_by_id_unique [of xr_source_ref "db_export_records d" "py_strip ref" x y] x that
      by (simp add: records_ok_def load_export_record_for_update_def)
    with g that show ?thesis by (simp add: records_ok_def)
  qed
qed (simp add: update_export_record_def)

definition export_only :: "db \<Rightarrow> db \<Rightarrow> bool" where
  "export_only d e \<longleftrightarrow> e = d\<lparr>db_export_records := db_export_records e\<rparr>"

lemma export_only_simps [simp]: "export_only d d" "export_only d (update_export_record ref g d)"
  by (simp_all add: export_only_def update_export_record_def)

lemma import_success_step:
  assumes "apply_logistics_import_success now ref i no d = Inr (r, e)"
  shows "handoff_step d e \<and> export_only d e"
proof (cases "load_export_record_for_update ref d")
  case None
  with assms show ?thesis by (simp add: apply_logistics_import_success_def handoff_step_same)
next
  case (Some x)
  show ?thesis
  proof (cases "xr_export_status x = EX_EXPORTED")
    case True
    with Some assms show ?thesis by (simp add: apply_logistics_import_success_def handoff_step_same res_simps)
  next
    case False
    let ?g = "\<lambda>y. y\<lparr>xr_export_status := EX_EXPORTED, xr_logistics_status := LG_IMPORTED, xr_request_id := Some i,
       xr_request_no := Some (py_strip no), xr_exported_at := keep_or (xr_exported_at y) now, xr_last_error := None\<rparr>"
    from False Some assms have e: "e = update_export_record ref ?g d" "xr_logistics_status x \<notin> imported_statuses"
      by (simp_all add: apply_logistics_import_success_def Let_def res_simps)
    show ?thesis unfolding e(1)
      by (rule conjI [OF update_export_step [OF Some]])
        (use False e(2) in \<open>auto simp: forward_def export_ok_def doc_key_def imported_statuses_def keep_or_def split: option.splits\<close>)
  qed
qed

lemma import_failure_step:
  assumes "apply_logistics_import_failure ref msg d = Inr (r, e)"
  shows "handoff_step d e \<and> export_only d e"
proof (cases "load_export_record_for_update ref d")
  case None
  with assms show ?thesis by (simp add: apply_logistics_import_failure_def handoff_step_same)
next
  case (Some x)
  let ?g = "\<lambda>y. y\<lparr>xr_export_status := EX_FAILED, xr_logistics_status := LG_FAILED, xr_request_id := None,
     xr_request_no := None, xr_last_error := Some (py_strip msg)\<rparr>"
  from Some assms have e: "e = update_export_record ref ?g d" "xr_export_status x \<noteq> EX_EXPORTED" "xr_logistics_status x \<notin> imported_statuses"
    by (simp_all add: apply_logistics_import_failure_def Let_def res_simps)
  show ?thesis unfolding e(1)
    by (rule conjI [OF update_export_step [OF Some]]) (use e(2,3) in \<open>auto simp: forward_def export_ok_def doc_key_def imported_statuses_def\<close>)
qed

text \<open>The upsert of a hand-over.\<close>

lemma upsert_record_step:
  assumes "upsert_pending_logistics_export_record t i no rf d = Inr (rid, e)"
  shows "handoff_step d e"
proof (cases "find (same_doc t i) (db_export_records d)")
  case None
  let ?new = "pending_record (next_id (map xr_id (db_export_records d))) t i (py_strip no) (py_strip rf)"
  from None assms have e: "db_export_records e = db_export_records d @ [?new]"
    and ref: "\<forall>x \<in> set (db_export_records d). same_doc t i x \<or> xr_source_ref x \<noteq> py_strip rf"
    by (auto simp: upsert_pending_logistics_export_record_def Let_def res_simps)
  have "doc_key ?new \<notin> doc_key ` set (db_export_records d)" "export_ok ?new" "xr_source_ref ?new \<notin> xr_source_ref ` set (db_export_records d)"
    using None ref by (auto simp: find_None_iff same_doc_def doc_key_def pending_record_def export_ok_def imported_statuses_def)
  moreover have "records_forward d e" unfolding records_forward_def e by (metis UnI1 forward_refl set_append)
  ultimately show ?thesis by (auto simp: handoff_step_def records_ok_def e)
next
  case (Some x)
  from Some assms have e: "db_export_records e = map (\<lambda>y. if same_doc t i y then renew_record (py_strip no) (py_strip rf) y else y) (db_export_records d)"
    and ref: "\<forall>x \<in> set (db_export_records d). same_doc t i x \<or> xr_source_ref x \<noteq> py_strip rf"
    by (auto simp: upsert_pending_logistics_export_record_def Let_def res_simps)
  show ?thesis
  proof (rule map_where_step [OF e])
    show "forward y (renew_record (py_strip no) (py_strip rf) y) \<and> export_ok (renew_record (py_strip no) (py_strip rf) y)"
      if "records_ok d" "y \<in> set (db_export_records d)" for y
    proof -
      have "export_ok y" using that by (simp add: records_ok_def)
      then show ?thesis by (auto simp: forward_def export_ok_def renew_record_def doc_key_def imported_statuses_def)
    qed
    have "distinct (map xr_source_ref (map (\<lambda>y. if same_doc t i y then renew_record (py_strip no) (py_strip rf) y else y) xs))"
      if "distinct (map doc_key xs)" "distinct (map xr_source_ref xs)" "\<forall>x \<in> set xs. same_doc t i x \<or> xr_source_ref x \<noteq> py_strip rf" for xs
      using that
    proof (induction xs)
      case (Cons y ys)
      have "\<not> same_doc t i z" if "same_doc t i y" "z \<in> set ys" for z
        using Cons.prems(1) that by (auto simp: same_doc_def doc_key_def image_iff)
      with Cons show ?case by (auto simp: image_iff)
    qed simp
    with ref show "distinct (map xr_source_ref (db_export_records e))" if "records_ok d"
      using that unfolding e records_ok_def by blast
  qed
qed

section \<open>Shipping records\<close>

definition shipping_ok :: "wms_db \<Rightarrow> bool" where
  "shipping_ok s \<longleftrightarrow> distinct (map shipping_key (wd_shipping_records s)) \<and>
     distinct (map (\<lambda>r. (sr_provider_id r, sr_tracking_no r)) (wd_shipping_records s))"

text \<open>The record of a key.\<close>

definition record_at :: "wms_db \<Rightarrow> string \<times> string \<times> string \<times> int \<Rightarrow> shipping_record option" where
  "record_at s k = find (\<lambda>x. shipping_key x = k) (wd_shipping_records s)"

lemma find_replace:
  assumes "f r = k"
  shows "find (\<lambda>x. f x = j) (map (\<lambda>x. if f x = k then r else x) xs) =
     (if j = k then (if \<exists>x \<in> set xs. f x = k then Some r else None) else find (\<lambda>x. f x = j) xs)"
  using assms by (induction xs) auto

lemma write_shipping_Inr:
  assumes run: "write_shipping_record row s = Inr (i, t)" and row: "\<And>j. shipping_key (row j) = k" "\<And>j j'. sr_provider_id (row j) = sr_provider_id (row j')"
    "\<And>j j'. sr_tracking_no (row j) = sr_tracking_no (row j')"
  shows "\<exists>rs. t = s\<lparr>wd_shipping_records := rs\<rparr>" and "record_at t j = (if j = k then Some (row i) else record_at s j)"
    and "shipping_ok s \<Longrightarrow> shipping_ok t" and "record_at s k = Some x \<Longrightarrow> i = sr_id x"
    and "shipping_ok s \<Longrightarrow> set (wd_shipping_records t) = insert (row i) {x \<in> set (wd_shipping_records s). shipping_key x \<noteq> k}"
proof -
  let ?olds = "wd_shipping_records s"
  let ?has = "\<exists>x \<in> set ?olds. shipping_key x = k"
  let ?new = "if ?has then map (\<lambda>x. if shipping_key x = k then row i else x) ?olds else ?olds @ [row i]"
  from run have i: "i = (case record_at s k of Some x \<Rightarrow> sr_id x | None \<Rightarrow> next_id (map sr_id ?olds))"
    and u: "\<not> (\<exists>x \<in> set ?olds. shipping_key x \<noteq> k \<and> sr_provider_id x = sr_provider_id (row i) \<and> sr_tracking_no x = sr_tracking_no (row i))"
    and t: "t = s\<lparr>wd_shipping_records := ?new\<rparr>"
    by (auto simp: write_shipping_record_def Let_def res_simps row(1) record_at_def)
  show "\<exists>rs. t = s\<lparr>wd_shipping_records := rs\<rparr>" using t by blast
  show "record_at s k = Some x \<Longrightarrow> i = sr_id x" by (simp add: i)
  have "find (\<lambda>x. shipping_key x = j) (?olds @ [row i]) = (if j = k then Some (row i) else find (\<lambda>x. shipping_key x = j) ?olds)" if "\<not> ?has"
    using that by (auto simp: find_appended find_None_iff find_None_iff2 row(1) split: option.splits dest: find_SomeD)
  then show "record_at t j = (if j = k then Some (row i) else record_at s j)"
    by (auto simp: t record_at_def find_replace [of shipping_key "row i", OF row(1)])
  have inj: "map shipping_key (map (\<lambda>x. if shipping_key x = k then row i else x) ?olds) = map shipping_key ?olds" by (simp add: row(1))
  have tr: "distinct (map (\<lambda>r. (sr_provider_id r, sr_tracking_no r)) (map (\<lambda>x. if shipping_key x = k then row i else x) xs))"
    if "distinct (map shipping_key xs)" "distinct (map (\<lambda>r. (sr_provider_id r, sr_tracking_no r)) xs)" "set xs \<subseteq> set ?olds" for xs
    using that
  proof (induction xs)
    case (Cons y ys)
    have "shipping_key z \<noteq> k" if "shipping_key y = k" "z \<in> set ys" for z using Cons.prems(1) that by (auto simp: image_iff)
    with Cons u show ?case by (auto simp: image_iff)
  qed simp
  show "shipping_ok t" if "shipping_ok s"
  proof (cases ?has)
    case True
    with that tr [of ?olds] inj show ?thesis by (simp add: shipping_ok_def t del: map_map)
  next
    case False
    with that u show ?thesis by (auto simp: shipping_ok_def t row(1))
  qed
  show "set (wd_shipping_records t) = insert (row i) {x \<in> set ?olds. shipping_key x \<noteq> k}" if "shipping_ok s"
    by (auto simp: t)
qed

text \<open>The packages of an answer, each under its number.\<close>

definition package_key :: "shipping_base \<Rightarrow> package \<Rightarrow> string \<times> string \<times> string \<times> int" where
  "package_key b p = (sb_platform b, sb_store_code b, sb_order_ref b, pk_package_no p)"

definition recorded :: "datetime \<Rightarrow> shipping_base \<Rightarrow> datetime option \<Rightarrow> wms_db \<Rightarrow> wms_db \<Rightarrow> package \<Rightarrow> int \<Rightarrow> bool" where
  "recorded now b c s t p i \<longleftrightarrow>
     sb_warehouse_id b \<in> set (map wh_id (db_warehouses (base s))) \<and> py_strip (pk_provider_code p) \<noteq> [] \<and> py_strip (pk_tracking_no p) \<noteq> [] \<and>
     (\<exists>v. resolve_shipping_provider (pk_provider_code p) s = Inr v \<and>
        record_at t (package_key b p) = Some (shipping_row now b p c v (py_strip (pk_tracking_no p)) i)) \<and>
     (\<forall>x. record_at s (package_key b p) = Some x \<longrightarrow> sr_id x = i)"

lemma shipping_row_key [simp]: "shipping_key (shipping_row now b p c v tr i) = package_key b p"
  by (simp add: shipping_row_def shipping_key_def package_key_def)

lemma clean_required_Inr [res_simps]: "clean_required (Some v) f = Inr w \<longleftrightarrow> w = py_strip v \<and> py_strip v \<noteq> []"
  by (auto simp: clean_required_def require_some_def norm_text_def Let_def)

lemma resolve_strip [simp]: "resolve_shipping_provider (py_strip code) s = resolve_shipping_provider code s"
  by (simp add: resolve_shipping_provider_def)

lemma resolve_records [simp]: "resolve_shipping_provider code (s\<lparr>wd_shipping_records := rs\<rparr>) = resolve_shipping_provider code s"
  by (simp add: resolve_shipping_provider_def)

lemma upsert_shipping_Inr:
  assumes "upsert_shipping_record now b c p s = Inr (i, t)" and ok: "shipping_ok s"
  shows "\<exists>rs. t = s\<lparr>wd_shipping_records := rs\<rparr>" and "shipping_ok t" and "recorded now b c s t p i"
    and "k \<noteq> package_key b p \<Longrightarrow> record_at t k = record_at s k"
proof -
  from assms(1) obtain v where v: "resolve_shipping_provider (pk_provider_code p) s = Inr v" "py_strip (pk_provider_code p) \<noteq> []" "py_strip (pk_tracking_no p) \<noteq> []"
    and w: "write_shipping_record (shipping_row now b p c v (py_strip (pk_tracking_no p))) s = Inr (i, t)"
    by (auto simp: upsert_shipping_record_def res_simps)
  from w have wh: "sb_warehouse_id b \<in> set (map wh_id (db_warehouses (base s)))" by (auto simp: write_shipping_record_def Let_def res_simps shipping_row_def)
  note W = write_shipping_Inr [OF w shipping_row_key]
  have pt: "sr_provider_id (shipping_row now b p c v tr j) = sr_provider_id (shipping_row now b p c v tr j')"
    "sr_tracking_no (shipping_row now b p c v tr j) = sr_tracking_no (shipping_row now b p c v tr j')" for tr j j' by (simp_all add: shipping_row_def)
  show "\<exists>rs. t = s\<lparr>wd_shipping_records := rs\<rparr>" by (rule W(1) [OF pt])
  show "shipping_ok t" by (rule W(3) [OF pt ok])
  show "k \<noteq> package_key b p \<Longrightarrow> record_at t k = record_at s k" using W(2) [OF pt] by simp
  show "recorded now b c s t p i" using v wh W(2) [OF pt] W(4) [OF pt] by (auto simp: recorded_def)
qed

lemma packages_Inr:
  assumes "map_loop (upsert_shipping_record now b c) ps s = Inr (ids, t)" and "distinct (map pk_package_no ps)" and "shipping_ok s"
  shows "(\<exists>rs. t = s\<lparr>wd_shipping_records := rs\<rparr>) \<and> shipping_ok t \<and> list_all2 (recorded now b c s t) ps ids \<and>
     (\<forall>k. k \<notin> package_key b ` set ps \<longrightarrow> record_at t k = record_at s k)"
  using assms
proof (induction ps arbitrary: s ids)
  case (Cons p ps)
  from Cons.prems(1) obtain i u js where one: "upsert_shipping_record now b c p s = Inr (i, u)"
    and rest: "map_loop (upsert_shipping_record now b c) ps u = Inr (js, t)" and ids: "ids = i # js" by (auto simp: res_simps)
  note O = upsert_shipping_Inr [OF one Cons.prems(3)]
  from Cons.IH [OF rest _ O(2)] Cons.prems(2) have I: "\<exists>rs. t = u\<lparr>wd_shipping_records := rs\<rparr>" "shipping_ok t" "list_all2 (recorded now b c u t) ps js"
    "\<And>k. k \<notin> package_key b ` set ps \<Longrightarrow> record_at t k = record_at u k" by auto
  have fresh: "package_key b p \<notin> package_key b ` set ps" "q \<in> set ps \<Longrightarrow> package_key b q \<noteq> package_key b p" for q
    using Cons.prems(2) by (auto simp: package_key_def image_iff)
  have "recorded now b c s t p i" using O(3) I(4) [OF fresh(1)] by (simp add: recorded_def)
  moreover have "list_all2 (recorded now b c s t) ps js"
  proof (rule list.rel_mono_strong [OF I(3)])
    fix q j assume "q \<in> set ps" and "recorded now b c u t q j"
    with O(1) O(4) [OF fresh(2)] show "recorded now b c s t q j" by (auto simp: recorded_def)
  qed
  moreover have "\<exists>rs. t = s\<lparr>wd_shipping_records := rs\<rparr>" using O(1) I(1) by auto
  moreover have "record_at t k = record_at s k" if "k \<notin> package_key b ` set (p # ps)" for k using that O(4) I(4) by simp
  ultimately show ?case using I(2) by (simp add: ids)
next
  case Nil
  then show ?case by (auto intro: exI [of _ "wd_shipping_records s"])
qed

section \<open>The handlers\<close>

lemma found_or_404_Inr [res_simps]: "found_or_404 m = Inr (x, s) \<longleftrightarrow> m = Inr (Some x, s)"
  by (auto simp: found_or_404_def as_conflict_def res_simps require_some_def split: sum.splits py_error.splits option.splits)

lemma export_only_quiet: "export_only (base s) d \<Longrightarrow> fulfilment_step s (set_base d s)"
proof -
  assume "export_only (base s) d"
  then obtain rs where d: "d = (base s)\<lparr>db_export_records := rs\<rparr>" by (auto simp: export_only_def)
  have "quiet s (set_base d s)"
    by (rule quiet_core) (simp_all add: d same_stock_def same_count_tables_def set_base_def set_core_def core_def same_receipts_def)
  then show ?thesis by (simp add: fulfilment_step_def fulfillments_ok_def fulfillments_advance_append [of _ _ "[]"])
qed

lemma import_result_step:
  assumes "record_handoff_import_result now p s = Inr (x, t)"
  shows "handoff_step (base s) (base t)" and "fulfilment_step s t"
proof -
  define m where "m = (if ia_exported p
      then apply_logistics_import_success now (ia_source_ref p) (case ia_request_id p of Some i \<Rightarrow> i | None \<Rightarrow> 0)
             (case ia_request_no p of Some n \<Rightarrow> n | None \<Rightarrow> []) (base s)
      else apply_logistics_import_failure (ia_source_ref p) (case ia_error_message p of Some m \<Rightarrow> m | None \<Rightarrow> []) (base s))"
  from assms obtain d where t: "t = set_base d s" and run: "m = Inr (Some x, d)"
    unfolding record_handoff_import_result_def m_def [symmetric] by (auto simp: res_simps)
  have "handoff_step (base s) d \<and> export_only (base s) d"
    using run import_success_step import_failure_step unfolding m_def by (cases "ia_exported p") simp_all
  then show "handoff_step (base s) (base t)" "fulfilment_step s t" by (simp_all add: t export_only_quiet)
qed

lemma shipping_result_Inr:
  assumes "record_handoff_shipping_result now a s = Inr (ids, t)"
  obtains x p b s1 where "valid_shipping_answer a" "load_shipping_result_context (sa_source_ref a) (base s) = Some (x, p)"
    "xr_export_status x = EX_EXPORTED" "xr_logistics_status x \<in> imported_statuses"
    "assert_request_identity x (sa_request_id a) (sa_request_no a) = Inr ()" "base_shipping_record_values x p = Inr b"
    "map_loop (upsert_shipping_record now b (sa_completed_at a)) (sa_packages a) s = Inr (ids, s1)"
    "t = set_base (update_export_record (sa_source_ref a) (complete_record now a) (base s1)) s1"
  using assms unfolding record_handoff_shipping_result_def apply_logistics_shipping_results_def
  by (auto simp: res_simps split: option.splits)

lemma upsert_shipping_outer:
  assumes "upsert_shipping_record now b c p s = Inr (i, t)"
  shows "\<exists>rs. t = s\<lparr>wd_shipping_records := rs\<rparr>"
  using assms by (auto simp: upsert_shipping_record_def write_shipping_record_def Let_def res_simps)

lemma packages_outer:
  assumes "map_loop (upsert_shipping_record now b c) ps s = Inr (ids, t)"
  shows "\<exists>rs. t = s\<lparr>wd_shipping_records := rs\<rparr>"
proof (rule map_loop_invariant [OF _ _ assms])
  show "\<exists>rs. v = s\<lparr>wd_shipping_records := rs\<rparr>" if "\<exists>rs. u = s\<lparr>wd_shipping_records := rs\<rparr>" "upsert_shipping_record now b c p u = Inr (i, v)" for p u i v
    using that(1) upsert_shipping_outer [OF that(2)] by auto
qed (auto intro!: exI [of _ "wd_shipping_records s"])

lemma complete_record_ok:
  assumes "export_ok x" and "xr_export_status x = EX_EXPORTED" and "assert_request_identity x (sa_request_id a) (sa_request_no a) = Inr ()"
  shows "forward x (complete_record now a x) \<and> export_ok (complete_record now a x)"
proof -
  from assms(3) have i: "xr_request_id x = None \<or> sa_request_id a = None \<or> xr_request_id x = sa_request_id a"
    and n: "norm_text (xr_request_no x) = None \<or> sa_request_no a = None \<or> norm_text (xr_request_no x) = map_option py_strip (sa_request_no a)"
    by (auto simp: assert_request_identity_def ensure_def bindR_def split: if_splits)
  have "norm_text (or_else (map_option py_strip (sa_request_no a)) (xr_request_no x)) = norm_text (xr_request_no x)" if "norm_text (xr_request_no x) \<noteq> None"
  proof (cases "sa_request_no a")
    case (Some no)
    with n that have "norm_text (xr_request_no x) = Some (py_strip no)" by simp
    with norm_text_idem [of "xr_request_no x"] Some show ?thesis by (simp add: or_else_def)
  qed (simp add: or_else_def)
  with assms(1,2) i show ?thesis
    by (auto simp: forward_def export_ok_def complete_record_def doc_key_def keep_or_def imported_statuses_def or_else_def split: option.splits)
qed

lemma context_mem:
  assumes "load_shipping_result_context ref d = Some (x, p)"
  shows "x \<in> set (db_export_records d)" and "xr_source_ref x = py_strip ref"
  using find_SomeD [OF assms [unfolded load_shipping_result_context_def]] by auto

lemma shipping_result_step:
  assumes "record_handoff_shipping_result now a s = Inr (ids, t)"
  shows "handoff_step (base s) (base t)" and "fulfilment_step s t"
proof -
  from assms obtain x p b s1 where x: "load_shipping_result_context (sa_source_ref a) (base s) = Some (x, p)" "xr_export_status x = EX_EXPORTED"
    "assert_request_identity x (sa_request_id a) (sa_request_no a) = Inr ()"
    and loop: "map_loop (upsert_shipping_record now b (sa_completed_at a)) (sa_packages a) s = Inr (ids, s1)"
    and t: "t = set_base (update_export_record (sa_source_ref a) (complete_record now a) (base s1)) s1" by (rule shipping_result_Inr)
  from packages_outer [OF loop] obtain rs where s1: "s1 = s\<lparr>wd_shipping_records := rs\<rparr>" by blast
  have "records_ok (base s) \<Longrightarrow> load_export_record_for_update (sa_source_ref a) (base s) = Some x"
    using context_mem [OF x(1)] find_by_id_unique [of xr_source_ref "db_export_records (base s)" "py_strip (sa_source_ref a)" _ x]
    by (cases "load_export_record_for_update (sa_source_ref a) (base s)") (auto simp: records_ok_def load_export_record_for_update_def find_None_iff)
  moreover have "forward x (complete_record now a x) \<and> export_ok (complete_record now a x)" if "export_ok x"
    by (rule complete_record_ok [OF that x(2,3)])
  ultimately have "handoff_step (base s) (update_export_record (sa_source_ref a) (complete_record now a) (base s))"
    using update_export_step [of "sa_source_ref a" "base s" x "complete_record now a"] by (simp add: handoff_step_def complete_record_def)
  then show "handoff_step (base s) (base t)" by (simp add: t s1)
  have "fulfilment_step s s1" by (simp add: s1 fulfilment_step_def quiet_outer fulfillments_ok_def fulfillments_advance_append [of _ _ "[]"])
  moreover have "fulfilment_step s1 t" unfolding t by (rule export_only_quiet) simp
  ultimately show "fulfilment_step s t" by (rule fulfilment_step_trans)
qed

section \<open>Repeating an answer\<close>

lemma replay_package:
  assumes ok: "shipping_ok t" and rec: "recorded now b (Some u) s t p i"
    and t: "wd_providers t = wd_providers s" "db_warehouses (base t) = db_warehouses (base s)"
  shows "upsert_shipping_record now' b (Some u) p t = Inr (i, t)"
proof -
  let ?k = "package_key b p"
  have resolve: "resolve_shipping_provider code t = resolve_shipping_provider code s" for code by (simp add: resolve_shipping_provider_def t)
  from rec obtain v where v: "resolve_shipping_provider (pk_provider_code p) s = Inr v"
    and r: "record_at t ?k = Some (shipping_row now b p (Some u) v (py_strip (pk_tracking_no p)) i)" by (auto simp: recorded_def)
  define row where "row = shipping_row now b p (Some u) v (py_strip (pk_tracking_no p))"
  have same: "shipping_row now' b p (Some u) v tr = shipping_row now b p (Some u) v tr" for tr by (rule ext) (simp add: shipping_row_def)
  from r have mem: "row i \<in> set (wd_shipping_records t)" unfolding row_def by (auto simp: record_at_def dest!: find_SomeD)
  have key: "shipping_key (row j) = ?k" "sr_id (row j) = j" for j by (simp_all add: row_def) (simp add: shipping_row_def)
  have only: "x = row i" if "x \<in> set (wd_shipping_records t)" "shipping_key x = ?k" for x
    using ok that mem key(1) [of i] unfolding shipping_ok_def distinct_map by (metis inj_on_eq_iff)
  have track: "shipping_key x = ?k" if "x \<in> set (wd_shipping_records t)" "sr_provider_id x = sr_provider_id (row i)" "sr_tracking_no x = sr_tracking_no (row i)" for x
  proof -
    have "inj_on (\<lambda>r. (sr_provider_id r, sr_tracking_no r)) (set (wd_shipping_records t))" using ok unfolding shipping_ok_def distinct_map by simp
    from inj_onD [OF this _ that(1) mem] that(2,3) key(1) show ?thesis by simp
  qed
  have "map (\<lambda>x. if shipping_key x = ?k then row i else x) (wd_shipping_records t) = wd_shipping_records t"
    by (rule map_idI) (auto dest: only)
  moreover have "\<exists>x \<in> set (wd_shipping_records t). shipping_key x = ?k" using mem key(1) by blast
  moreover have "\<not> (\<exists>x \<in> set (wd_shipping_records t). shipping_key x \<noteq> ?k \<and> sr_provider_id x = sr_provider_id (row i) \<and> sr_tracking_no x = sr_tracking_no (row i))"
    using track by blast
  moreover have idx: "(case find (\<lambda>x. shipping_key x = ?k) (wd_shipping_records t) of Some x \<Rightarrow> sr_id x | None \<Rightarrow> next_id (map sr_id (wd_shipping_records t))) = i"
    using r key(2) [of i] by (simp add: record_at_def row_def)
  moreover have "sr_warehouse (row i) \<in> set (map wh_id (db_warehouses (base t)))" using rec by (simp add: recorded_def t row_def shipping_row_def)
  ultimately have "write_shipping_record row t = Inr (i, t)" unfolding write_shipping_record_def Let_def key idx by (simp add: ensure_def)
  with v rec show ?thesis
    by (simp add: upsert_shipping_record_def clean_required_def norm_text_def require_some_def Let_def recorded_def resolve same row_def)
qed

lemma replay_packages:
  assumes "list_all2 (recorded now b (Some u) s t) ps ids" and "shipping_ok t" and "wd_providers t = wd_providers s" and "db_warehouses (base t) = db_warehouses (base s)"
  shows "map_loop (upsert_shipping_record now' b (Some u)) ps t = Inr (ids, t)"
  using assms(1) by (induction rule: list_all2_induct) (simp_all add: replay_package [OF assms(2) _ assms(3,4)])

lemma find_map_pairs:
  assumes "\<And>r. xr_id (g r) = xr_id r" and "\<And>r. xr_source_ref (g r) = xr_source_ref r"
  shows "load_shipping_result_context ref (update_export_record ref g d) =
     map_option (\<lambda>(r, p). (g r, p)) (load_shipping_result_context ref d)"
proof -
  let ?h = "\<lambda>x. if xr_source_ref x = py_strip ref then g x else x"
  let ?P = "\<lambda>(r, p). hp_export_record_id p = xr_id r \<and> xr_source_ref r = py_strip ref"
  have inner: "find ?P (map (Pair (?h r)) ps) = map_option (\<lambda>(r, p). (g r, p)) (find ?P (map (Pair r) ps))" for r ps
    by (induction ps) (auto simp: assms)
  have "find ?P (List.product (map ?h rs) ps) = map_option (\<lambda>(r, p). (g r, p)) (find ?P (List.product rs ps))" for rs ps
    by (induction rs) (auto simp: find_appended inner split: option.splits)
  then show ?thesis by (simp add: load_shipping_result_context_def update_export_record_def)
qed

lemma complete_record_keys [simp]:
  "xr_id (complete_record now a x) = xr_id x" "xr_source_ref (complete_record now a x) = xr_source_ref x"
  "xr_export_status (complete_record now a x) = xr_export_status x" "xr_logistics_status (complete_record now a x) = LG_COMPLETED"
  "xr_source_doc_type (complete_record now a x) = xr_source_doc_type x" "xr_source_doc_no (complete_record now a x) = xr_source_doc_no x"
  by (simp_all add: complete_record_def)

lemma base_values_completed [simp]: "base_shipping_record_values (complete_record now a x) p = base_shipping_record_values x p"
  by (simp add: base_shipping_record_values_def split: source_doc_type.split)

lemma complete_record_again:
  assumes "sa_completed_at a = Some u"
  shows "complete_record now' a (complete_record now a x) = complete_record now a x"
    and "assert_request_identity x (sa_request_id a) (sa_request_no a) = Inr () \<Longrightarrow>
       assert_request_identity (complete_record now a x) (sa_request_id a) (sa_request_no a) = Inr ()"
  using assms by (auto simp: complete_record_def keep_or_def or_else_def assert_request_identity_def ensure_def norm_text_def Let_def bindR_def split: option.splits if_splits)

end
