(* ===== verification/Order_Import.thy ===== *)
theory Order_Import
  imports Order_State "HOL-Library.List_Lexorder" "HOL-Library.Char_ord" "HOL-Library.Product_Lexorder"
begin

text \<open>
  Import of released orders, \<open>app/wms/outbound/services/oms_projection_order_import_service.py\<close>: rows of the
  projection become orders with their address, lines, items and an empty fulfilment record, and the
  import is recorded so that it happens once. Strings are ordered by character code. The list of import
  candidates is read-only and left out.
\<close>

section \<open>Helpers\<close>

fun dedupe_ready_order_ids :: "string list \<Rightarrow> string list \<Rightarrow> string list" where
  "dedupe_ready_order_ids [] seen = []"
| "dedupe_ready_order_ids (v # vs) seen =
     (let i = py_strip v
      in if i = [] \<or> i \<in> set seen then dedupe_ready_order_ids vs seen else i # dedupe_ready_order_ids vs (i # seen))"

definition platform_to_wms :: "string \<Rightarrow> string" where
  "platform_to_wms v =
     (let raw = py_strip v; k = py_lower raw
      in if k = ''pdd'' then ''PDD'' else if k = ''taobao'' then ''TAOBAO'' else if k = ''jd'' then ''JD'' else py_upper raw)"

definition required_qty_to_int :: "rat \<Rightarrow> int option" where
  "required_qty_to_int q = (if q \<le> 0 then None else if q \<noteq> of_int \<lfloor>q\<rfloor> then None else Some \<lfloor>q\<rfloor>)"

datatype import_status = IMPORT_FAILED | ALREADY_IMPORTED | DRY_RUN | IMPORTED

record import_row =
  iw_ready_order_id :: string
  iw_status :: import_status
  iw_order_id :: "int option"
  iw_order_line_count :: int
  iw_component_count :: int
  iw_message :: string

definition import_result :: "string \<Rightarrow> import_status \<Rightarrow> int option \<Rightarrow> int \<Rightarrow> int \<Rightarrow> string \<Rightarrow> import_row" where
  "import_result rid st oid lc cc msg =
     \<lparr>iw_ready_order_id = rid, iw_status = st, iw_order_id = oid, iw_order_line_count = lc, iw_component_count = cc, iw_message = msg\<rparr>"

section \<open>What is read before the loop\<close>

definition load_projection_order :: "wms_db \<Rightarrow> string \<Rightarrow> projection_order option" where
  "load_projection_order s rid = find (\<lambda>p. pj_ready_order_id p = rid) (wd_projection_orders s)"

definition load_projection_components :: "wms_db \<Rightarrow> string \<Rightarrow> projection_component list" where
  "load_projection_components s rid =
     sort_key (\<lambda>c. (pc_ready_line_id c, pc_sort_order c, pc_ready_component_id c))
       (filter (\<lambda>c. pc_ready_order_id c = rid) (wd_projection_components s))"

definition load_existing_import :: "wms_db \<Rightarrow> string \<Rightarrow> int option" where
  "load_existing_import s rid = map_option oim_order_id (find (\<lambda>i. oim_ready_order_id i = rid) (wd_order_imports s))"

definition same_order :: "string \<Rightarrow> string \<Rightarrow> string \<Rightarrow> order_head \<Rightarrow> bool" where
  "same_order platform store_code no o' \<longleftrightarrow>
     py_upper (ord_platform o') = py_upper platform \<and> ord_store_code o' = store_code \<and> ord_ext_order_no o' = no"

text \<open>A dictionary keeps the last of several matching rows.\<close>

definition load_existing_order_conflict :: "wms_db \<Rightarrow> string \<Rightarrow> int option" where
  "load_existing_order_conflict s rid =
     (case load_projection_order s rid of
        None \<Rightarrow> None
      | Some p \<Rightarrow> map_option ord_id (find (same_order (pj_platform p) (pj_store_code p) (pj_platform_order_no p)) (rev (db_orders (base s)))))"

section \<open>Statements\<close>

definition ensure_store_from_projection :: "projection_order \<Rightarrow> int wms_action" where
  "ensure_store_from_projection p s =
     (let platform = platform_to_wms (pj_platform p); code = pj_store_code p;
          name = (if pj_store_name p = [] then code else pj_store_name p);
          this = (\<lambda>x. sto_platform x = platform \<and> sto_store_code x = code)
      in case find this (wd_stores s) of
           Some x \<Rightarrow> Inr (sto_id x, s\<lparr>wd_stores := map (\<lambda>y. if this y then y\<lparr>sto_store_name := name, sto_active := True\<rparr> else y) (wd_stores s)\<rparr>)
         | None \<Rightarrow>
             (let i = next_id (map sto_id (wd_stores s))
              in Inr (i, s\<lparr>wd_stores := wd_stores s @ [\<lparr>sto_id = i, sto_platform = platform, sto_store_code = code, sto_store_name = name, sto_active = True\<rparr>]\<rparr>)))"

text \<open>\<open>ON CONFLICT ON CONSTRAINT uq_orders_platform_store_ext DO NOTHING\<close>, then the existing order.\<close>

definition insert_execution_order :: "projection_order \<Rightarrow> int wms_action" where
  "insert_execution_order p s =
     (let platform = platform_to_wms (pj_platform p); d = base s; i = next_id (map ord_id (db_orders d))
      in if \<exists>x \<in> set (db_orders d). ord_platform x = platform \<and> ord_store_code x = pj_store_code p \<and> ord_ext_order_no x = pj_platform_order_no p
         then bindR (require_some (find (same_order platform (pj_store_code p) (pj_platform_order_no p)) (db_orders d)) (LookupError ''NoResultFound''))
                (\<lambda>x. Inr (ord_id x, s))
         else (let row = \<lparr>ord_id = i, ord_platform = platform, ord_store_code = pj_store_code p, ord_ext_order_no = pj_platform_order_no p,
                          ord_buyer_name = norm_text (Some (pj_receiver_name p)), ord_buyer_phone = norm_text (Some (pj_receiver_phone p)), ord_address = None\<rparr>;
                   s1 = set_base (d\<lparr>db_orders := db_orders d @ [row]\<rparr>) s
               in Inr (i, s1\<lparr>wd_rest := (wd_rest s1)\<lparr>ib_order_status := (ib_order_status (wd_rest s1))(i \<mapsto> ''CREATED'')\<rparr>\<rparr>)))"

definition upsert_execution_order_address :: "int \<Rightarrow> projection_order \<Rightarrow> unit wms_action" where
  "upsert_execution_order_address oid p s =
     (let a = \<lparr>oa_receiver_name = norm_text (Some (pj_receiver_name p)), oa_receiver_phone = norm_text (Some (pj_receiver_phone p)),
               oa_province = norm_text (Some (pj_receiver_province p)), oa_city = norm_text (Some (pj_receiver_city p)),
               oa_district = norm_text (pj_receiver_district p), oa_detail = norm_text (Some (pj_receiver_address p)),
               oa_zipcode = norm_text (pj_receiver_postcode p)\<rparr>; d = base s
      in Inr ((), set_base (d\<lparr>db_orders := map (\<lambda>x. if ord_id x = oid then x\<lparr>ord_address := Some a\<rparr> else x) (db_orders d)\<rparr>) s))"

definition insert_order_fulfillment_placeholder :: "int \<Rightarrow> unit wms_action" where
  "insert_order_fulfillment_placeholder oid s =
     (if oid \<in> set (map ff_order_id (wd_fulfillment s)) then Inr ((), s)
      else Inr ((), s\<lparr>wd_fulfillment := wd_fulfillment s @
             [\<lparr>ff_order_id = oid, ff_planned_warehouse_id = None, ff_actual_warehouse_id = None, ff_status = Some ''OMS_IMPORTED'',
               ff_blocked_reasons = None, ff_execution_stage = None, ff_committed_at = None, ff_completed_at = None\<rparr>]\<rparr>))"

definition insert_order_import_audit :: "int \<Rightarrow> projection_order \<Rightarrow> int \<Rightarrow> unit wms_action" where
  "insert_order_import_audit oid p n s =
     (let row = \<lparr>oim_ready_order_id = pj_ready_order_id p, oim_order_id = oid, oim_platform = platform_to_wms (pj_platform p),
                 oim_store_code = pj_store_code p, oim_platform_order_no = pj_platform_order_no p, oim_source_order_id = pj_source_order_id p,
                 oim_order_line_count = n, oim_component_count = n\<rparr>; olds = wd_order_imports s
      in bindR (ensure (oim_ready_order_id row \<notin> set (map oim_ready_order_id olds)) (IntegrityError ''pk_wms_oms_fulfillment_order_imports'')) (\<lambda>_.
         bindR (ensure (oid \<notin> set (map oim_order_id olds)) (IntegrityError ''uq_wms_oms_fulfill_order_import_order_id'')) (\<lambda>_.
         bindR (ensure (\<not> (\<exists>x \<in> set olds. oim_platform x = oim_platform row \<and> oim_store_code x = oim_store_code row \<and>
                    oim_platform_order_no x = oim_platform_order_no row)) (IntegrityError ''uq_wms_oms_fulfill_order_import_platform_store_no'')) (\<lambda>_.
         Inr ((), s\<lparr>wd_order_imports := olds @ [row]\<rparr>)))))"

definition insert_order_line :: "int \<Rightarrow> int \<Rightarrow> int \<Rightarrow> int wms_action" where
  "insert_order_line oid item q s =
     (let d = base s; i = next_id (map ol_id (db_order_lines d))
      in Inr (i, set_base (d\<lparr>db_order_lines := db_order_lines d @ [\<lparr>ol_id = i, ol_order_id = oid, ol_item_id = item, ol_req_qty = q\<rparr>]\<rparr>) s))"

text \<open>\<open>ON CONFLICT ON CONSTRAINT uq_order_items_ord_sku DO UPDATE\<close>: a second component of a SKU adds its quantity.\<close>

definition add_item_qty :: "int \<Rightarrow> order_item \<Rightarrow> order_item" where
  "add_item_qty q x = x\<lparr>oi_qty := Some ((case oi_qty x of None \<Rightarrow> 0 | Some n \<Rightarrow> n) + q)\<rparr>"

definition insert_order_item_from_component :: "int \<Rightarrow> projection_component \<Rightarrow> int \<Rightarrow> unit wms_action" where
  "insert_order_item_from_component oid c q s =
     (let t = wd_rest s; this = (\<lambda>x. oi_order_id x = oid \<and> oi_sku_id x = Some (pc_sku_code c))
      in if \<exists>x \<in> set (ib_order_items t). this x
         then Inr ((), s\<lparr>wd_rest := t\<lparr>ib_order_items := map (\<lambda>x. if this x then add_item_qty q x else x) (ib_order_items t)\<rparr>\<rparr>)
         else Inr ((), s\<lparr>wd_rest := t\<lparr>ib_order_items := ib_order_items t @
                [\<lparr>oi_id = next_id (map oi_id (ib_order_items t)), oi_order_id = oid, oi_item_id = pc_item_id c, oi_sku_id = Some (pc_sku_code c),
                  oi_qty = Some q, oi_shipped_qty = 0, oi_returned_qty = 0\<rparr>]\<rparr>\<rparr>))"

definition insert_component_import :: "int \<Rightarrow> int \<Rightarrow> projection_component \<Rightarrow> unit wms_action" where
  "insert_component_import oid lid c s =
     (let row = \<lparr>cim_ready_component_id = pc_ready_component_id c, cim_ready_order_id = pc_ready_order_id c, cim_ready_line_id = pc_ready_line_id c,
                 cim_order_id = oid, cim_order_line_id = lid, cim_item_id = pc_item_id c, cim_sku_code_id = pc_sku_code_id c,
                 cim_item_uom_id = pc_item_uom_id c, cim_required_qty = pc_required_qty c\<rparr>; olds = wd_component_imports s
      in bindR (ensure (cim_ready_component_id row \<notin> set (map cim_ready_component_id olds)) (IntegrityError ''pk_wms_oms_fulfillment_component_imports'')) (\<lambda>_.
         bindR (ensure (lid \<notin> set (map cim_order_line_id olds)) (IntegrityError ''uq_wms_oms_fulfill_component_import_order_line'')) (\<lambda>_.
         bindR (ensure (0 < cim_required_qty row) (IntegrityError ''ck_wms_oms_fulfill_component_import_required_qty_pos'')) (\<lambda>_.
         bindR (ensure (cim_ready_order_id row \<in> set (map oim_ready_order_id (wd_order_imports s)))
            (IntegrityError ''fk_wms_oms_fulfill_component_import_order_import'')) (\<lambda>_.
         Inr ((), s\<lparr>wd_component_imports := olds @ [row]\<rparr>))))))"

definition import_component :: "int \<Rightarrow> projection_component \<Rightarrow> unit wms_action" where
  "import_component oid c s =
     bindR (require_some (required_qty_to_int (pc_required_qty c)) (ValueError ''component_required_qty_must_be_positive_integer'')) (\<lambda>q.
     bindR (insert_order_line oid (pc_item_id c) q s) (\<lambda>(lid, s1).
     bindR (insert_order_item_from_component oid c q s1) (\<lambda>(_, s2).
     insert_component_import oid lid c s2)))"

definition import_order_lines_and_items :: "int \<Rightarrow> projection_component list \<Rightarrow> unit wms_action" where
  "import_order_lines_and_items oid cs s = bindR (map_loop (import_component oid) cs s) (\<lambda>(_, s'). Inr ((), s'))"

section \<open>import\_orders\_from\_oms\_projection\<close>

definition create_execution_order :: "projection_order \<Rightarrow> projection_component list \<Rightarrow> int wms_action" where
  "create_execution_order p cs s =
     bindR (ensure_store_from_projection p s) (\<lambda>(_, s1).
     bindR (insert_execution_order p s1) (\<lambda>(oid, s2).
     bindR (upsert_execution_order_address oid p s2) (\<lambda>(_, s3).
     bindR (insert_order_fulfillment_placeholder oid s3) (\<lambda>(_, s4).
     bindR (insert_order_import_audit oid p (int (length cs)) s4) (\<lambda>(_, s5).
     bindR (import_order_lines_and_items oid cs s5) (\<lambda>(_, s6).
     Inr (oid, s6)))))))"

text \<open>One round of the loop; \<open>s0\<close> is the state the dictionaries were read from.\<close>

definition import_order :: "wms_db \<Rightarrow> bool \<Rightarrow> string \<Rightarrow> import_row wms_action" where
  "import_order s0 dry_run rid s =
     (case load_projection_order s0 rid of
        None \<Rightarrow> Inr (import_result rid IMPORT_FAILED None 0 0 ''projection_order_not_found'', s)
      | Some p \<Rightarrow>
         (case load_existing_import s0 rid of
            Some oid \<Rightarrow> Inr (import_result rid ALREADY_IMPORTED (Some oid) 0 0 ''order_already_imported'', s)
          | None \<Rightarrow>
             (case load_existing_order_conflict s0 rid of
                Some oid \<Rightarrow> Inr (import_result rid IMPORT_FAILED (Some oid) 0 0 ''existing_execution_order_conflict'', s)
              | None \<Rightarrow>
                 (let cs = load_projection_components s0 rid; n = int (length cs)
                  in if cs = [] then Inr (import_result rid IMPORT_FAILED None 0 0 ''projection_components_not_found'', s)
                     else if pj_component_count p \<noteq> n then Inr (import_result rid IMPORT_FAILED None 0 n ''projection_component_count_mismatch'', s)
                     else if \<exists>c \<in> set cs. required_qty_to_int (pc_required_qty c) = None
                     then Inr (import_result rid IMPORT_FAILED None 0 n ''component_required_qty_must_be_positive_integer'', s)
                     else if dry_run then Inr (import_result rid DRY_RUN None n n ''would_import_execution_order'', s)
                     else bindR (create_execution_order p cs s) (\<lambda>(oid, s').
                          Inr (import_result rid IMPORTED (Some oid) n n ''imported_execution_order'', s'))))))"

text \<open>With no id left the statements end in \<open>IN ()\<close>, which the database refuses.\<close>

definition import_orders_from_oms_projection :: "string list \<Rightarrow> bool \<Rightarrow> import_row list wms_action" where
  "import_orders_from_oms_projection ready_order_ids dry_run s =
     (let ids = dedupe_ready_order_ids ready_order_ids []
      in bindR (ensure (ids \<noteq> []) (RuntimeError ''ProgrammingError'')) (\<lambda>_. map_loop (import_order s dry_run) ids s))"

end
