(* ===== verification/Receipt_Claims.thy ===== *)
theory Receipt_Claims
  imports Receipt_Life
begin

text \<open>
  The claims on receiving, on the life of receipts, on the reconciliation of returns and on the whole
  system, with sample data on which their hypotheses are evaluated.
\<close>

section \<open>What a submission was asked for\<close>

text \<open>The entries of a request with the number of their receipt line, in the order of the request.\<close>

definition requested :: "receive_payload \<Rightarrow> (int \<times> receive_entry) list" where
  "requested p = concat (map (\<lambda>l. map (Pair (sl_receipt_line_no l)) (sl_entries l)) (rp_lines p))"

text \<open>
  The unit and the ratio of an entry, as the product master data have them: the unit that the barcode is bound to, or the
  unit of the request; both must belong to the item of the receipt line. Without either, the planned unit of the line.
\<close>

definition unit_of_entry :: "pms_client \<Rightarrow> receipt_line \<Rightarrow> receive_entry \<Rightarrow> int \<Rightarrow> int \<Rightarrow> bool" where
  "unit_of_entry pms tk e uom ratio \<longleftrightarrow>
     (let named = (\<lambda>uid. \<exists>u. pms_uom pms uid = Some u \<and> pu_item_id u = irl_item_id tk \<and> uom = pu_id u \<and> ratio = pu_ratio_to_base u)
      in case norm_text (en_barcode_input e) of
           Some b \<Rightarrow> bp_status (pms_probe pms (py_strip b)) = BOUND \<and> bp_item_id (pms_probe pms (py_strip b)) = Some (irl_item_id tk) \<and>
             (\<exists>uid. bp_item_uom_id (pms_probe pms (py_strip b)) = Some uid \<and> named uid) \<and> en_uom_id e \<in> {None, Some uom}
         | None \<Rightarrow>
             (case en_uom_id e of
                Some uid \<Rightarrow> named uid
              | None \<Rightarrow> uom = irl_item_uom_id tk \<and> ratio = irl_ratio tk))"

text \<open>
  The operation line of an entry: for the item of the receipt line, with the entered quantity, the unit and ratio of the entry,
  their product as the quantity in base units, and the batch and dates as entered.
\<close>

definition line_of_entry :: "pms_client \<Rightarrow> receipt_line list \<Rightarrow> int \<times> receive_entry \<Rightarrow> operation_line \<Rightarrow> bool" where
  "line_of_entry pms tks ne x \<longleftrightarrow> (case ne of (n, e) \<Rightarrow>
     iol_receipt_line_no x = n \<and> iol_qty_input x = en_qty_inbound e \<and> iol_qty_base x = en_qty_inbound e * iol_ratio x \<and> 0 < iol_ratio x \<and>
     iol_batch_no x = en_batch_no e \<and> iol_production_date x = en_production_date e \<and> iol_expiry_date x = en_expiry_date e \<and>
     (\<exists>tk \<in> set tks. irl_line_no tk = n \<and> iol_item_id x = irl_item_id tk \<and> unit_of_entry pms tk e (iol_uom_id x) (iol_ratio x)))"

lemma entry_uom_unit:
  assumes "entry_uom rc tk e = Inr (uom, ratio)"
  shows "unit_of_entry (rc_pms rc) tk e uom ratio"
proof (cases "norm_text (en_barcode_input e)")
  case None
  with assms show ?thesis
    by (auto simp: entry_uom_def unit_of_entry_def load_item_uom_snapshot_def Let_def split: option.splits if_splits)
next
  case (Some b)
  with assms have r: "resolve_barcode_uom_snapshot rc (irl_item_id tk) b = Inr (uom, ratio)" and u: "en_uom_id e \<in> {None, Some uom}"
    by (auto simp: entry_uom_def res_simps split: option.splits)
  from r Some u show ?thesis
    by (auto simp: resolve_barcode_uom_snapshot_def unit_of_entry_def Let_def res_simps)
qed

lemma entry_line:
  assumes "receive_entry_step cx tk pol e st = Inr (x, st')" and "tk \<in> set tks"
  shows "line_of_entry (rc_pms (rx_client cx)) tks (irl_line_no tk, e) x"
proof -
  from assms(1) obtain uom ratio lid s1 s2 where u: "entry_uom (rx_client cx) tk e = Inr (uom, ratio)"
    and ins: "insert_operation_line (operation_line_of cx tk e uom ratio (en_qty_inbound e) (en_qty_inbound e * ratio) lid) s1 = Inr (x, s2)"
    by (auto simp: receive_entry_step_def Let_def to_int_exact_def res_simps)
  from ins obtain n where "x = (operation_line_of cx tk e uom ratio (en_qty_inbound e) (en_qty_inbound e * ratio) lid)\<lparr>iol_id := n\<rparr>"
    and "operation_line_checks x" by (auto simp: insert_operation_line_def Let_def res_simps)
  with entry_uom_unit [OF u] assms(2) show ?thesis
    by (auto simp: line_of_entry_def operation_line_of_def operation_line_checks_def intro!: bexI [of _ tk])
qed

lemma entry_lines:
  assumes "receive_line_step cx tks l st = Inr (xs, st')"
  shows "list_all2 (line_of_entry (rc_pms (rx_client cx)) tks) (map (Pair (sl_receipt_line_no l)) (sl_entries l)) xs"
proof -
  from assms obtain tk pol where tk: "tk \<in> set tks" "irl_line_no tk = sl_receipt_line_no l"
    and loop: "map_loop (receive_entry_step cx tk pol) (sl_entries l) st = Inr (xs, st')"
    by (auto simp: receive_line_step_def res_simps dest: find_SomeD)
  have "list_all2 (\<lambda>e x. line_of_entry (rc_pms (rx_client cx)) tks (sl_receipt_line_no l, e) x) (sl_entries l) xs"
    by (rule map_loop_list_all2 [OF _ loop]) (use entry_line tk in metis)
  then show ?thesis by (simp add: list_all2_map1)
qed

lemma list_all2_concat:
  assumes "list_all2 (\<lambda>x ys. list_all2 P (f x) ys) xs yss"
  shows "list_all2 P (concat (map f xs)) (concat yss)"
  using assms by (induction rule: list_all2_induct) (auto intro: list_all2_appendI)

lemma submit_requested:
  assumes "submit_inbound_operation rc now no tr p s = Inr ((op_id, xs), s')" and "receipt_by_no (rp_receipt_no p) s = Some task"
  shows "list_all2 (line_of_entry (rc_pms rc) (lines_of_receipt (ir_id task) s)) (requested p) xs"
proof -
  from assms obtain cx st st' outs where cx: "rx_client cx = rc" and xs: "xs = concat outs"
    and loop: "map_loop (receive_line_step cx (lines_of_receipt (ir_id task) s)) (rp_lines p) st = Inr (outs, st')"
    by (auto simp: submit_inbound_operation_def Let_def res_simps intro: that [of "\<lparr>rx_client = rc, rx_now = _, rx_task = _, rx_operation_id = _, rx_event = _\<rparr>"])
  have "list_all2 (\<lambda>l ys. list_all2 (line_of_entry (rc_pms rc) (lines_of_receipt (ir_id task) s)) (map (Pair (sl_receipt_line_no l)) (sl_entries l)) ys)
      (rp_lines p) outs"
    by (rule map_loop_list_all2 [OF _ loop]) (use entry_lines cx in metis)
  from list_all2_concat [OF this] show ?thesis by (simp add: requested_def xs)
qed

section \<open>Reconciling a return\<close>

lemma filter_only:
  assumes "distinct xs" and "x \<in> set xs" and "\<And>y. y \<in> set xs \<Longrightarrow> P y \<Longrightarrow> y = x" and "P x"
  shows "filter P xs = [x]"
proof -
  have "filter P xs = filter (\<lambda>y. y = x) xs" using assms(3,4) by (intro filter_cong) auto
  moreover have "filter (\<lambda>y. y = x) xs = [x]" using assms(1,2) by (induction xs) (auto simp: filter_empty_conv)
  ultimately show ?thesis by simp
qed

definition returned_by :: "receipt \<Rightarrow> receipt_db \<Rightarrow> int \<Rightarrow> int" where
  "returned_by r s i = sum_where iol_qty_base (\<lambda>x. iol_operation_id x \<in> set (ops_of (ir_receipt_no r) s) \<and> iol_item_id x = i) (ib_operation_lines s)"

lemma sum_where_filter: "sum_where f P (filter Q xs) = sum_where f (\<lambda>x. Q x \<and> P x) xs"
  by (induction xs) auto

lemma load_returned_status:
  assumes "receipt_inv s" and "r \<in> set (ib_receipts s)" and "ir_source_type r = SRC_RETURN_ORDER" and "ir_source_doc_id r = Some oid"
    and "ir_status r \<noteq> IR_VOIDED"
  shows "load_returned oid s i = (if ir_status r = IR_RELEASED then returned_by r s i else 0)"
proof -
  let ?P = "\<lambda>x. ir_source_type x = SRC_RETURN_ORDER \<and> ir_source_doc_id x = Some oid \<and> ir_status x = IR_RELEASED"
  have "distinct (map ir_id (ib_receipts s))" and src: "sources_ok s" using assms(1) by (simp_all add: receipt_inv_def keys_ok_def)
  then have dist: "distinct (ib_receipts s)" by (simp add: distinct_map)
  have only: "y = r" if "y \<in> set (ib_receipts s)" "?P y" for y using src that assms(2-5) unfolding sources_ok_def by fastforce
  have "filter ?P (ib_receipts s) = (if ir_status r = IR_RELEASED then [r] else [])"
  proof (cases "ir_status r = IR_RELEASED")
    case True
    then have "filter ?P (ib_receipts s) = [r]" by (intro filter_only [OF dist assms(2) only]) (use assms in simp_all)
    with True show ?thesis by simp
  next
    case False
    then have "filter ?P (ib_receipts s) = []" using only by (auto simp: filter_empty_conv)
    with False show ?thesis by simp
  qed
  then show ?thesis by (simp add: load_returned_def returned_lines_def returned_by_def sum_where_filter)
qed

lemma set_counters_mem:
  assumes "x \<in> set (fold (set_counters oid) facts items)" and "oi_order_id x = oid" and "\<forall>f \<in> set facts. lf_qty_returned f = 0"
    and "oi_item_id x \<in> lf_item_id ` set facts"
  shows "oi_returned_qty x = 0"
  using assms
proof (induction facts arbitrary: x rule: rev_induct)
  case (snoc f facts)
  from snoc.prems(1) have "x \<in> set (set_counters oid f (fold (set_counters oid) facts items))" by simp
  then obtain y where y: "y \<in> set (fold (set_counters oid) facts items)"
    and x: "x = (if oi_order_id y = oid \<and> oi_item_id y = lf_item_id f then y\<lparr>oi_shipped_qty := lf_qty_shipped f, oi_returned_qty := lf_qty_returned f\<rparr> else y)"
    unfolding set_counters_def set_map by (rule imageE)
  show ?case
  proof (cases "oi_order_id y = oid \<and> oi_item_id y = lf_item_id f")
    case True
    with x snoc.prems(3) show ?thesis by simp
  next
    case False
    then have "x = y" using x by (simp only: if_False)
    with snoc.IH [OF y] snoc.prems False show ?thesis by auto
  qed
qed simp

lemma set_counters_orders:
  "map (\<lambda>x. (oi_order_id x, oi_item_id x)) (fold (set_counters oid) facts items) = map (\<lambda>x. (oi_order_id x, oi_item_id x)) items"
  by (induction facts arbitrary: items) (auto simp: set_counters_def)

lemma facts_returned:
  assumes "reconcile_order oid s = Inr (facts, issues)"
  shows "lf_item_id ` set facts = oi_item_id ` {x \<in> set (ib_order_items s). oi_order_id x = oid}"
    and "f \<in> set facts \<Longrightarrow> lf_qty_returned f = load_returned oid s (lf_item_id f)"
proof -
  from assms obtain h where h: "find (\<lambda>h. ord_id h = oid) (db_orders (core s)) = Some h" and f: "facts = map (line_fact h s) (load_items oid s)"
    by (auto simp: reconcile_order_def res_simps Let_def)
  have id: "ord_id h = oid" using find_SomeD [OF h] by simp
  show "lf_item_id ` set facts = oi_item_id ` {x \<in> set (ib_order_items s). oi_order_id x = oid}"
    by (force simp: f line_fact_def load_items_def Let_def image_iff)
  show "f \<in> set facts \<Longrightarrow> lf_qty_returned f = load_returned oid s (lf_item_id f)"
    by (auto simp: f line_fact_def Let_def id)
qed

lemma apply_counters_forgets:
  assumes "apply_counters oid s = Inr (u, s')" and "\<And>i. load_returned oid s i = 0"
  shows "\<forall>x \<in> set (ib_order_items s'). oi_order_id x = oid \<longrightarrow> oi_returned_qty x = 0" and "ib_order_status s' = ib_order_status s"
proof -
  from assms(1) obtain facts issues where rec: "reconcile_order oid s = Inr (facts, issues)" by (auto simp: apply_counters_def res_simps)
  have z: "\<forall>f \<in> set facts. lf_qty_returned f = 0" using facts_returned(2) [OF rec] assms(2) by simp
  then have "sum_list (map lf_qty_returned facts) = 0" by (induction facts) auto
  then have "new_order_status facts = None" by (simp add: new_order_status_def Let_def)
  then have s': "s' = s\<lparr>ib_order_items := fold (set_counters oid) facts (ib_order_items s)\<rparr>"
    using assms(1) rec by (auto simp: apply_counters_def Let_def)
  show "\<forall>x \<in> set (ib_order_items s'). oi_order_id x = oid \<longrightarrow> oi_returned_qty x = 0"
  proof (intro ballI impI)
    fix x assume x: "x \<in> set (ib_order_items s')" "oi_order_id x = oid"
    have "(oi_order_id x, oi_item_id x) \<in> set (map (\<lambda>x. (oi_order_id x, oi_item_id x)) (fold (set_counters oid) facts (ib_order_items s)))"
      using x(1) by (auto simp: s')
    then obtain y where "y \<in> set (ib_order_items s)" "oi_order_id y = oid" "oi_item_id y = oi_item_id x"
      unfolding set_counters_orders using x(2) by auto
    then have "oi_item_id x \<in> lf_item_id ` set facts" unfolding facts_returned(1) [OF rec] by (intro image_eqI [of _ _ y]) auto
    with set_counters_mem [OF _ x(2) z] x(1) show "oi_returned_qty x = 0" by (simp add: s')
  qed
  show "ib_order_status s' = ib_order_status s" by (simp add: s')
qed

section \<open>Sample data\<close>

definition sample_client :: receiving_client where
  "sample_client = \<lparr>rc_pms = sample_pms, rc_probe_active = (\<lambda>_. Some True),
     rc_list_uoms = (\<lambda>_. [\<lparr>iu_id = 11, iu_item_id = 1, iu_ratio_to_base = 6, iu_is_inbound_default = True, iu_is_base = False\<rparr>,
                          \<lparr>iu_id = 21, iu_item_id = 2, iu_ratio_to_base = 1, iu_is_inbound_default = False, iu_is_base = True\<rparr>]),
     rc_purchase_order = (\<lambda>i. if i = 7 then Some \<lparr>po_id = 7, po_no = ''PO-7'', po_supplier_id = 3, po_supplier_name = ''Acme'',
        po_target_warehouse_id = 1, po_status = PO_CREATED, po_remark = None,
        po_lines = [\<lparr>pol_id = 70, pol_line_no = 1, pol_item_id = 1, pol_uom_id = 11, pol_ratio_to_base = 6, pol_qty_ordered_input = 2, pol_remark = None\<rparr>,
                    \<lparr>pol_id = 71, pol_line_no = 2, pol_item_id = 2, pol_uom_id = 21, pol_ratio_to_base = 1, pol_qty_ordered_input = 5, pol_remark = None\<rparr>]\<rparr>
        else None)\<rparr>"

text \<open>Order 1 has shipped three pieces of item 1 from the internal lot.\<close>

definition sample_order :: order_head where
  "sample_order = \<lparr>ord_id = 1, ord_platform = ''TB'', ord_store_code = ''S1'', ord_ext_order_no = ''E1'',
     ord_buyer_name = None, ord_buyer_phone = None, ord_address = None\<rparr>"

definition order_db :: db where
  "order_db = (case adjust_lot sample_policy 0 (sample_ship\<lparr>aa_ref := ''ORD:TB:S1:E1''\<rparr>) (sample_db\<lparr>db_orders := [sample_order]\<rparr>) of
     Inr (_, d) \<Rightarrow> d | Inl _ \<Rightarrow> sample_db)"

definition sample_receipt_start :: receipt_db where
  "sample_receipt_start = \<lparr>ib_rest = \<lparr>rd_core = order_db, rd_snapshots = [], rd_tasks = [], rd_lines = []\<rparr>, ib_receipts = [], ib_receipt_lines = [],
     ib_operations = [], ib_operation_lines = [],
     ib_order_items = [\<lparr>oi_id = 1, oi_order_id = 1, oi_item_id = 1, oi_sku_id = None, oi_qty = Some 3, oi_shipped_qty = 0, oi_returned_qty = 0\<rparr>],
     ib_order_status = (\<lambda>_. None), ib_suppliers = []\<rparr>"

definition sample_entry :: "int \<Rightarrow> receive_entry" where
  "sample_entry q = \<lparr>en_qty_inbound = q, en_barcode_input = None, en_uom_id = None, en_batch_no = None, en_production_date = None,
     en_expiry_date = None, en_remark = None\<rparr>"

definition batch_entry :: "int \<Rightarrow> receive_entry" where
  "batch_entry q = (sample_entry q)\<lparr>en_barcode_input := Some ''690'', en_batch_no := Some ''B7'', en_production_date := Some (Date 2025 3 1)\<rparr>"

definition first_delivery :: receive_payload where
  "first_delivery = \<lparr>rp_receipt_no = ''IR-1'', rp_remark = None,
     rp_lines = [\<lparr>sl_receipt_line_no = 1, sl_entries = [sample_entry 1]\<rparr>, \<lparr>sl_receipt_line_no = 2, sl_entries = [batch_entry 2, batch_entry 1]\<rparr>]\<rparr>"

definition second_delivery :: receive_payload where
  "second_delivery = \<lparr>rp_receipt_no = ''IR-1'', rp_remark = None,
     rp_lines = [\<lparr>sl_receipt_line_no = 1, sl_entries = [sample_entry 1]\<rparr>, \<lparr>sl_receipt_line_no = 2, sl_entries = [batch_entry 2]\<rparr>]\<rparr>"

fun exec_fulls :: "full_op list \<Rightarrow> receipt_db \<Rightarrow> receipt_db result" where
  "exec_fulls [] s = Inr s"
| "exec_fulls (op # ops) s = bindR (exec_full sample_client sample_uoms sample_view op s) (exec_fulls ops)"

lemma exec_fulls_run:
  "full_run sample_client sample_uoms sample_view s0 s \<Longrightarrow> exec_fulls ops s = Inr s' \<Longrightarrow> full_run sample_client sample_uoms sample_view s0 s'"
  by (induction ops arbitrary: s) (auto simp: res_simps intro: full_run.step)

definition released_db :: receipt_db where
  "released_db = (case exec_fulls [FO_purchase ''IR-1'' \<lparr>pp_source_doc_id = 7, pp_warehouse_id = 1, pp_remark = None\<rparr>, FO_release 5 1] sample_receipt_start of
     Inr s \<Rightarrow> s | Inl _ \<Rightarrow> sample_receipt_start)"

definition two_deliveries :: "full_op list" where
  "two_deliveries = [FO_receive 6 ''IE-1'' ''T1'' first_delivery, FO_receive 7 ''IE-2'' ''T2'' second_delivery]"

lemma sample_deliveries:
  "succeeds (exec_fulls two_deliveries released_db)
     (\<lambda>s. on_hand (core s) (1, 1, 1) = 19 \<and> map ir_status (ib_receipts s) = [IR_COMPLETED] \<and> received_base ''IR-1'' 2 s = 5)"
  by code_simp

lemma sample_deliveries_run:
  "\<exists>s. exec_fulls two_deliveries released_db = Inr s \<and> on_hand (core s) (1, 1, 1) = 19 \<and> map ir_status (ib_receipts s) = [IR_COMPLETED]"
  by (rule exE [OF succeedsD [OF sample_deliveries]]) (intro exI conjI, elim conjE, assumption+, (elim conjE, assumption)+)

lemma sample_start_inv: "full_inv sample_receipt_start"
  by code_simp

lemma released_db_run: "full_run sample_client sample_uoms sample_view sample_receipt_start released_db"
proof -
  have "succeeds (exec_fulls [FO_purchase ''IR-1'' \<lparr>pp_source_doc_id = 7, pp_warehouse_id = 1, pp_remark = None\<rparr>, FO_release 5 1] sample_receipt_start) (\<lambda>_. True)"
    by code_simp
  from succeedsD [OF this] exec_fulls_run [OF full_run.start] show ?thesis by (fastforce simp: released_db_def)
qed

lemma released_db_inv: "full_inv released_db"
  using full_run_inv [OF released_db_run sample_start_inv] by blast

text \<open>The goods of order 1 come back: three boxes are planned and received for the three pieces shipped.\<close>

definition sample_return_receipt :: return_receipt where
  "sample_return_receipt = \<lparr>rr_order_key = ''ORD:TB:S1:E1'', rr_remark = None,
     rr_lines = [\<lparr>rrl_order_line_id = 1, rrl_item_id = 1, rrl_planned_qty = 3, rrl_remark = None\<rparr>]\<rparr>"

definition sample_return_ops2 :: "full_op list" where
  "sample_return_ops2 = [FO_reconcile 1, FO_return ''IR-2'' sample_return_receipt, FO_release 5 1,
     FO_receive 6 ''IE-3'' ''T3'' \<lparr>rp_receipt_no = ''IR-2'', rp_remark = None, rp_lines = [\<lparr>sl_receipt_line_no = 1, sl_entries = [sample_entry 3]\<rparr>]\<rparr>]"

definition returned_db :: receipt_db where
  "returned_db = (case exec_fulls sample_return_ops2 sample_receipt_start of Inr s \<Rightarrow> s | Inl _ \<Rightarrow> sample_receipt_start)"

text \<open>
  The plan of a return receipt is counted in the item's inbound unit, but compared with the remaining
  quantity in base units: eighteen pieces come back for the three that were shipped.
\<close>

lemma return_receipt_mixes_units:
  "succeeds (exec_fulls sample_return_ops2 sample_receipt_start)
     (\<lambda>s. on_hand (core sample_receipt_start) (1, 1, 1) = 7 \<and> on_hand (core s) (1, 1, 1) = 25)"
  by code_simp

section \<open>Claims\<close>

text \<open>
  Claim C9. Receiving is exact. A submission that succeeds was made on a released receipt of a
  warehouse that is not frozen. It writes one operation line per entry of the request, for the item of the receipt
  line that the entry names and the entered quantity, in the unit that the product master data give the entry's
  barcode or unit (the planned unit of the receipt line when the entry names neither), and with the quantity in base units that
  the ratio of this unit yields. Every lot grows by exactly the base quantities of
  its lines and nothing else moves; the received quantity of every receipt line grows by the base
  quantities entered for it; and the invariant of the system is kept.
\<close>

theorem receiving_exact:
  assumes "full_inv s" and "submit_inbound_operation rc now no tr p s = Inr ((op_id, xs), s')"
  shows "\<exists>task. receipt_by_no (rp_receipt_no p) s = Some task \<and> ir_status task = IR_RELEASED \<and> \<not> frozen (ir_warehouse_id task) (core s) \<and>
     full_inv s' \<and> list_all2 (line_of_entry (rc_pms rc) (lines_of_receipt (ir_id task) s)) (requested p) xs \<and>
     ib_operation_lines s' = ib_operation_lines s @ xs \<and> (\<forall>x \<in> set xs. iol_operation_id x = op_id) \<and>
     (\<forall>k. on_hand (core s') k = on_hand (core s) k + moved (ir_warehouse_id task) xs k) \<and>
     (\<forall>n. received_base (rp_receipt_no p) n s' = received_base (rp_receipt_no p) n s + counted xs n)"
proof -
  have R: "receipt_inv s" "books_ok (core s)" using assms(1) by (simp_all add: full_inv_def wms_inv_def)
  note S = submit_inv [OF R(1) assms(2)]
  obtain task d' where T: "receipt_by_no (rp_receipt_no p) s = Some task" "ir_status task = IR_RELEASED"
      "\<not> frozen (ir_warehouse_id task) (core s)" "valid_submit p" "op_id = next_id (map io_id (ib_operations s))"
    and s': "s' = (let t = (set_core d' s)\<lparr>ib_operations := ib_operations s @ [fresh_operation op_id task now p], ib_operation_lines := ib_operation_lines s @ xs\<rparr>
           in if all_received (lines_of_receipt (ir_id task) s) (\<lambda>n. received_base (rp_receipt_no p) n s + counted xs n)
              then complete_receipt (ir_id task) t else t)"
    and "keeps (core s) d'" "same_count_tables (core s) d'"
    and move: "\<forall>k. books_ok (core s) \<longrightarrow> on_hand d' k = on_hand (core s) k + moved (ir_warehouse_id task) xs k"
    and fits: "\<forall>x \<in> set xs. line_fits op_id (lines_of_receipt (ir_id task) s) x"
    and "\<forall>l \<in> set (lines_of_receipt (ir_id task) s). received_base (rp_receipt_no p) (irl_line_no l) s \<le> planned_base l \<longrightarrow>
        received_base (rp_receipt_no p) (irl_line_no l) s + counted xs (irl_line_no l) \<le> planned_base l"
    by (rule submit_Inr [OF assms(2) lines_distinct [OF R(1)]])
  have "core s' = d'" "ib_operation_lines s' = ib_operation_lines s @ xs" by (simp_all add: s' Let_def complete_receipt_def)
  moreover have "\<forall>x \<in> set xs. iol_operation_id x = op_id"
    using fits by (simp add: line_fits_def)
  moreover have "full_inv s'" using full_inv_step [OF assms(1) S(3-5) conjunct1 [OF S(1)]] by blast
  ultimately show ?thesis using T(1-3) move R(2) submit_requested [OF assms(2) T(1)] S(2) by blast
qed

text \<open>A box of six by its unit number, and two pieces by their barcode.\<close>

definition mixed_delivery :: receive_payload where
  "mixed_delivery = \<lparr>rp_receipt_no = ''IR-1'', rp_remark = None,
     rp_lines = [\<lparr>sl_receipt_line_no = 1, sl_entries = [(sample_entry 1)\<lparr>en_uom_id := Some 11\<rparr>]\<rparr>, \<lparr>sl_receipt_line_no = 2, sl_entries = [batch_entry 2]\<rparr>]\<rparr>"

lemma mixed_delivery_run:
  "succeeds (submit_inbound_operation sample_client 6 ''IE-1'' ''T1'' mixed_delivery released_db)
     (\<lambda>((_, xs), _). map (line_moves 1) xs = [(1, 1, 1), (1, 2, 3)])"
  by code_simp

theorem receiving_exact_witness:
  "\<exists>op_id xs s'. submit_inbound_operation sample_client 6 ''IE-1'' ''T1'' mixed_delivery released_db = Inr ((op_id, xs), s') \<and>
     map iol_ratio xs = [6, 1] \<and> on_hand (core s') (1, 1, 1) = on_hand (core released_db) (1, 1, 1) + 6 \<and> full_inv s'"
proof -
  let ?run = "submit_inbound_operation sample_client 6 ''IE-1'' ''T1'' mixed_delivery released_db"
  from mixed_delivery_run obtain op_id xs s' where run: "?run = Inr ((op_id, xs), s')"
    and dims: "map (line_moves 1) xs = [(1, 1, 1), (1, 2, 3)]" by (auto dest!: succeedsD)
  have t: "map_option ir_warehouse_id (receipt_by_no ''IR-1'' released_db) = Some 1" by code_simp
  have no: "rp_receipt_no mixed_delivery = ''IR-1''" by (simp add: mixed_delivery_def)
  from receiving_exact [OF released_db_inv run] obtain task where task: "receipt_by_no ''IR-1'' released_db = Some task"
    and inv: "full_inv s'" and rel: "list_all2 (line_of_entry sample_pms (lines_of_receipt (ir_id task) released_db)) (requested mixed_delivery) xs"
    and move: "\<forall>k. on_hand (core s') k = on_hand (core released_db) k + moved (ir_warehouse_id task) xs k"
    unfolding no by (auto simp: sample_client_def)
  have w: "ir_warehouse_id task = 1" using t task by simp
  have req: "requested mixed_delivery = [(1, (sample_entry 1)\<lparr>en_uom_id := Some 11\<rparr>), (2, batch_entry 2)]"
    by (simp add: requested_def mixed_delivery_def)
  from rel obtain a b where xs: "xs = [a, b]" and f: "line_of_entry sample_pms (lines_of_receipt (ir_id task) released_db) (1, (sample_entry 1)\<lparr>en_uom_id := Some 11\<rparr>) a"
      "line_of_entry sample_pms (lines_of_receipt (ir_id task) released_db) (2, batch_entry 2) b"
    unfolding req by (auto simp: list_all2_Cons1)
  have n: "norm_text (Some ''690'') = Some ''690''" "norm_text None = None" "py_strip ''690'' = ''690''" by code_simp+
  from f have r: "iol_ratio a = 6" "iol_qty_base a = 6" "iol_ratio b = 1"
    by (auto simp: line_of_entry_def unit_of_entry_def sample_entry_def batch_entry_def sample_pms_def n Let_def split: if_splits)
  with dims have "moved 1 xs (1, 1, 1) = 6" by (simp add: moved_def xs)
  with run inv move w r show ?thesis by (auto simp: xs)
qed

text \<open>
  Claim C10. Life of the receipts, over every sequence of operations of the system. No receipt line is
  received beyond its plan, and a receipt is completed exactly when it has lines and all of them are
  received in full. A receipt keeps its identity and its lines, its status moves only from draft to
  released to completed, and what was received on a line never shrinks. A purchase order or a returned
  order has one receipt at most.
\<close>

theorem receipt_life:
  assumes "full_inv s0" and "full_run rc lu view s0 s"
  shows "(\<forall>r \<in> set (ib_receipts s). (\<forall>l \<in> set (lines_of_receipt (ir_id r) s). received_base (ir_receipt_no r) (irl_line_no l) s \<le> planned_base l) \<and>
       (ir_status r = IR_COMPLETED) = fulfilled r s) \<and> receipts_stay s0 s \<and> sources_ok s"
proof -
  have "full_inv s" "receipts_stay s0 s" using full_run_inv [OF assms(2,1)] by blast+
  then show ?thesis by (simp add: full_inv_def receipt_inv_def progress_ok_def)
qed

theorem receipt_life_witness:
  "\<exists>s. exec_fulls two_deliveries released_db = Inr s \<and>
     map ir_status (ib_receipts s) = [IR_COMPLETED] \<and> (\<forall>r \<in> set (ib_receipts s). fulfilled r s)"
proof -
  obtain s where run: "exec_fulls two_deliveries released_db = Inr s"
    and "on_hand (core s) (1, 1, 1) = 19" and st: "map ir_status (ib_receipts s) = [IR_COMPLETED]"
    using sample_deliveries_run by (elim exE conjE) (rule that)
  from receipt_life [OF released_db_inv exec_fulls_run [OF full_run.start run]]
  have life: "\<forall>r \<in> set (ib_receipts s). (ir_status r = IR_COMPLETED) = fulfilled r s" by blast
  have "\<forall>r \<in> set (ib_receipts s). ir_status r \<in> set (map ir_status (ib_receipts s))" by simp
  then have "\<forall>r \<in> set (ib_receipts s). ir_status r = IR_COMPLETED" unfolding st by simp
  with life have "\<forall>r \<in> set (ib_receipts s). fulfilled r s" by blast
  with st run show ?thesis by (intro exI conjI)
qed

text \<open>
  Claim C31. The counters of a returned order. As long as the return receipt of an order is released, the
  returned quantity of an item is the sum of what its operations received. Once the receipt is completed,
  that is when everything has come back, the returned quantity is zero for every item, and writing the
  counters resets them to zero and leaves the status of the order as it was.
\<close>

theorem completed_return_forgotten:
  assumes "receipt_inv s" and "r \<in> set (ib_receipts s)" and "ir_source_type r = SRC_RETURN_ORDER" and "ir_source_doc_id r = Some oid"
    and "ir_status r \<in> {IR_RELEASED, IR_COMPLETED}"
  shows "(ir_status r = IR_RELEASED \<longrightarrow> (\<forall>i. load_returned oid s i = returned_by r s i)) \<and>
     (ir_status r = IR_COMPLETED \<longrightarrow> (\<forall>i. load_returned oid s i = 0) \<and>
        (\<forall>u s'. apply_counters oid s = Inr (u, s') \<longrightarrow>
           (\<forall>x \<in> set (ib_order_items s'). oi_order_id x = oid \<longrightarrow> oi_returned_qty x = 0) \<and> ib_order_status s' = ib_order_status s))"
proof -
  have v: "ir_status r \<noteq> IR_VOIDED" using assms(5) by auto
  note L = load_returned_status [OF assms(1-4) v]
  then show ?thesis using apply_counters_forgets [of oid s] by auto
qed

theorem completed_return_forgotten_witness:
  "\<exists>r \<in> set (ib_receipts returned_db). ir_status r = IR_COMPLETED \<and> returned_by r returned_db 1 = 18 \<and> load_returned 1 returned_db 1 = 0"
proof -
  have inv: "receipt_inv returned_db" by code_simp
  let ?r = "hd (ib_receipts returned_db)"
  have r: "?r \<in> set (ib_receipts returned_db)" "ir_source_type ?r = SRC_RETURN_ORDER" "ir_source_doc_id ?r = Some 1" "ir_status ?r = IR_COMPLETED"
    "returned_by ?r returned_db 1 = 18" by code_simp+
  from completed_return_forgotten [OF inv r(1-3)] r show ?thesis by (intro bexI [of _ ?r]) auto
qed

end
