(* ===== verification/Import_Laws.thy ===== *)
theory Import_Laws
  imports Order_Import Receipt_Claims
begin

text \<open>
  What the import of orders does: every imported order gets exactly the lines and item quantities of its
  components, nothing else changes, and an import happens once.
\<close>

section \<open>Helpers\<close>

lemma dedupe_props:
  "distinct (dedupe_ready_order_ids vs seen) \<and> set (dedupe_ready_order_ids vs seen) = (py_strip ` set vs) - insert [] (set seen)"
  by (induction vs arbitrary: seen) (auto simp: Let_def)

lemma platform_to_wms_upper:
  assumes "p \<in> {''pdd'', ''taobao'', ''jd''}"
  shows "py_upper (platform_to_wms p) = py_upper p"
proof -
  have "py_upper (platform_to_wms ''pdd'') = py_upper ''pdd''" "py_upper (platform_to_wms ''taobao'') = py_upper ''taobao''"
    "py_upper (platform_to_wms ''jd'') = py_upper ''jd''" by code_simp+
  with assms show ?thesis by auto
qed

lemma required_qty_pos: "required_qty_to_int q = Some n \<Longrightarrow> 0 < n \<and> q = of_int n"
  by (auto simp: required_qty_to_int_def split: if_splits)

section \<open>Items of an order\<close>

definition items_of :: "int \<Rightarrow> wms_db \<Rightarrow> order_item list" where
  "items_of oid s = filter (\<lambda>x. oi_order_id x = oid) (ib_order_items (wd_rest s))"

definition sku_qty :: "int \<Rightarrow> string \<Rightarrow> wms_db \<Rightarrow> int" where
  "sku_qty oid k s = sum_where (\<lambda>x. case oi_qty x of None \<Rightarrow> 0 | Some n \<Rightarrow> n) (\<lambda>x. oi_sku_id x = Some k) (items_of oid s)"

lemma items_of_cong: "ib_order_items (wd_rest t) = ib_order_items (wd_rest s) \<Longrightarrow> items_of oid t = items_of oid s"
  by (simp add: items_of_def)

lemma sku_qty_cong: "items_of oid t = items_of oid s \<Longrightarrow> sku_qty oid k t = sku_qty oid k s"
  by (simp add: sku_qty_def)

lemma insert_item_Inr:
  assumes "insert_order_item_from_component oid c q s = Inr (u, t)" and "distinct (map oi_sku_id (items_of oid s))"
  shows "distinct (map oi_sku_id (items_of oid t)) \<and> sku_qty oid k t = sku_qty oid k s + (if k = pc_sku_code c then q else 0) \<and>
     (\<forall>i. i \<noteq> oid \<longrightarrow> items_of i t = items_of i s) \<and> (\<exists>xs. t = s\<lparr>wd_rest := (wd_rest s)\<lparr>ib_order_items := xs\<rparr>\<rparr>)"
proof -
  let ?hit = "\<lambda>x. oi_order_id x = oid \<and> oi_sku_id x = Some (pc_sku_code c)"
  let ?g = "\<lambda>x. if ?hit x then add_item_qty q x else x"
  let ?f = "\<lambda>x. case oi_qty x of None \<Rightarrow> 0 | Some n \<Rightarrow> n"
  have g: "oi_order_id (?g x) = oi_order_id x" "oi_sku_id (?g x) = oi_sku_id x" for x by (simp_all add: add_item_qty_def)
  show ?thesis
  proof (cases "\<exists>x \<in> set (ib_order_items (wd_rest s)). ?hit x")
    case True
    then have t: "t = s\<lparr>wd_rest := (wd_rest s)\<lparr>ib_order_items := map ?g (ib_order_items (wd_rest s))\<rparr>\<rparr>"
      using assms(1) by (simp add: insert_order_item_from_component_def Let_def)
    have fm: "items_of i t = map ?g (items_of i s)" for i using g(1) by (simp add: t items_of_def filter_map o_def)
    have other: "items_of i t = items_of i s" if "i \<noteq> oid" for i
      unfolding fm by (rule map_idI) (use that in \<open>auto simp: items_of_def\<close>)
    from True obtain x where x: "x \<in> set (items_of oid s)" "oi_sku_id x = Some (pc_sku_code c)" by (auto simp: items_of_def)
    have "items_of oid t = map (\<lambda>y. if oi_sku_id y = oi_sku_id x then add_item_qty q y else y) (items_of oid s)"
      unfolding fm using x(2) by (auto simp: items_of_def)
    then have "sku_qty oid k t = sku_qty oid k s + (if Some k = oi_sku_id x then ?f (add_item_qty q x) - ?f x else 0)"
      unfolding sku_qty_def using sum_where_set_one [OF assms(2) x(1), of "add_item_qty q" ?f "Some k"]
      by (simp add: add_item_qty_def)
    moreover have "map oi_sku_id (items_of oid t) = map oi_sku_id (items_of oid s)" unfolding fm using g(2) by simp
    ultimately show ?thesis using other x(2) assms(2) t by (auto simp: add_item_qty_def)
  next
    case False
    let ?row = "\<lparr>oi_id = next_id (map oi_id (ib_order_items (wd_rest s))), oi_order_id = oid, oi_item_id = pc_item_id c,
       oi_sku_id = Some (pc_sku_code c), oi_qty = Some q, oi_shipped_qty = 0, oi_returned_qty = 0\<rparr>"
    have t: "t = s\<lparr>wd_rest := (wd_rest s)\<lparr>ib_order_items := ib_order_items (wd_rest s) @ [?row]\<rparr>\<rparr>"
      using assms(1) False by (simp add: insert_order_item_from_component_def Let_def)
    have "items_of oid t = items_of oid s @ [?row]" "\<And>i. i \<noteq> oid \<Longrightarrow> items_of i t = items_of i s" by (simp_all add: t items_of_def)
    moreover have "Some (pc_sku_code c) \<notin> oi_sku_id ` set (items_of oid s)" using False by (auto simp: items_of_def)
    ultimately show ?thesis using assms(2) t by (auto simp: sku_qty_def)
  qed
qed

section \<open>The components of an order\<close>

text \<open>What the loop over the components leaves as it is.\<close>

definition adds_lines_of :: "int \<Rightarrow> wms_db \<Rightarrow> wms_db \<Rightarrow> bool" where
  "adds_lines_of oid s t \<longleftrightarrow>
     (\<exists>ls xs cs. t = s\<lparr>wd_rest := (set_core ((base s)\<lparr>db_order_lines := db_order_lines (base s) @ ls\<rparr>) (wd_rest s))\<lparr>ib_order_items := xs\<rparr>,
                     wd_component_imports := cs\<rparr> \<and> (\<forall>l \<in> set ls. ol_order_id l = oid)) \<and>
     (\<forall>i. i \<noteq> oid \<longrightarrow> items_of i t = items_of i s)"

definition line_demands :: "int \<Rightarrow> wms_db \<Rightarrow> (int \<times> int) list" where
  "line_demands oid s = map (\<lambda>l. (ol_item_id l, ol_req_qty l)) (filter (\<lambda>l. ol_order_id l = oid) (db_order_lines (base s)))"

definition demand_of :: "projection_component \<Rightarrow> int \<times> int" where
  "demand_of c = (pc_item_id c, \<lfloor>pc_required_qty c\<rfloor>)"

lemma adds_lines_of_refl [simp]: "adds_lines_of oid s s"
  unfolding adds_lines_of_def
  by (intro conjI exI [of _ "[]"] exI [of _ "ib_order_items (wd_rest s)"] exI [of _ "wd_component_imports s"]) (simp_all add: set_core_def core_def)

lemma adds_lines_of_trans:
  assumes "adds_lines_of oid a b" and "adds_lines_of oid b c"
  shows "adds_lines_of oid a c"
proof -
  from assms obtain ls xs cs ls' xs' cs' where
    b: "b = a\<lparr>wd_rest := (set_core ((base a)\<lparr>db_order_lines := db_order_lines (base a) @ ls\<rparr>) (wd_rest a))\<lparr>ib_order_items := xs\<rparr>, wd_component_imports := cs\<rparr>"
    and c: "c = b\<lparr>wd_rest := (set_core ((base b)\<lparr>db_order_lines := db_order_lines (base b) @ ls'\<rparr>) (wd_rest b))\<lparr>ib_order_items := xs'\<rparr>, wd_component_imports := cs'\<rparr>"
    and l: "\<forall>l \<in> set ls. ol_order_id l = oid" "\<forall>l \<in> set ls'. ol_order_id l = oid"
    and i: "\<forall>i. i \<noteq> oid \<longrightarrow> items_of i b = items_of i a" "\<forall>i. i \<noteq> oid \<longrightarrow> items_of i c = items_of i b"
    unfolding adds_lines_of_def by blast
  have bb: "base b = (base a)\<lparr>db_order_lines := db_order_lines (base a) @ ls\<rparr>" by (simp add: b set_core_def core_def)
  have "c = a\<lparr>wd_rest := (set_core ((base a)\<lparr>db_order_lines := db_order_lines (base a) @ (ls @ ls')\<rparr>) (wd_rest a))\<lparr>ib_order_items := xs'\<rparr>,
      wd_component_imports := cs'\<rparr>"
    unfolding c bb by (simp add: b set_core_def)
  with l i show ?thesis unfolding adds_lines_of_def by (intro conjI exI [of _ "ls @ ls'"] exI [of _ xs'] exI [of _ cs']) auto
qed

lemma import_component_Inr:
  assumes "import_component oid c s = Inr (u, t)" and "distinct (map oi_sku_id (items_of oid s))"
  shows "adds_lines_of oid s t \<and> line_demands oid t = line_demands oid s @ [demand_of c] \<and> distinct (map oi_sku_id (items_of oid t)) \<and>
     sku_qty oid k t = sku_qty oid k s + (if k = pc_sku_code c then snd (demand_of c) else 0)"
proof -
  from assms(1) obtain q lid s1 s2 u' where q: "required_qty_to_int (pc_required_qty c) = Some q"
    and l: "insert_order_line oid (pc_item_id c) q s = Inr (lid, s1)" and i: "insert_order_item_from_component oid c q s1 = Inr (u', s2)"
    and m: "insert_component_import oid lid c s2 = Inr (u, t)" by (auto simp: import_component_def res_simps)
  let ?row = "\<lparr>ol_id = lid, ol_order_id = oid, ol_item_id = pc_item_id c, ol_req_qty = q\<rparr>"
  have s1: "s1 = set_base ((base s)\<lparr>db_order_lines := db_order_lines (base s) @ [?row]\<rparr>) s"
    using l by (auto simp: insert_order_line_def Let_def)
  have io: "items_of j s1 = items_of j s" for j by (simp add: s1 items_of_def)
  then have sq: "sku_qty oid k s1 = sku_qty oid k s" by (rule sku_qty_cong)
  have I: "distinct (map oi_sku_id (items_of oid s2))" "sku_qty oid k s2 = sku_qty oid k s1 + (if k = pc_sku_code c then q else 0)"
    "\<forall>j. j \<noteq> oid \<longrightarrow> items_of j s2 = items_of j s1" "\<exists>xs. s2 = s1\<lparr>wd_rest := (wd_rest s1)\<lparr>ib_order_items := xs\<rparr>\<rparr>"
    using insert_item_Inr [OF i, of k] assms(2) io by auto
  from I(4) obtain xs where s2: "s2 = s1\<lparr>wd_rest := (wd_rest s1)\<lparr>ib_order_items := xs\<rparr>\<rparr>" by blast
  from m obtain cs where t: "t = s2\<lparr>wd_component_imports := cs\<rparr>" by (auto simp: insert_component_import_def Let_def res_simps)
  have it: "items_of j t = items_of j s2" for j by (simp add: t items_of_def)
  then have sqt: "sku_qty oid k t = sku_qty oid k s2" by (rule sku_qty_cong)
  have "t = s\<lparr>wd_rest := (set_core ((base s)\<lparr>db_order_lines := db_order_lines (base s) @ [?row]\<rparr>) (wd_rest s))\<lparr>ib_order_items := xs\<rparr>, wd_component_imports := cs\<rparr>"
    by (simp add: t s2 s1 set_base_def)
  then have "adds_lines_of oid s t" unfolding adds_lines_of_def using I(3) io it
    by (intro conjI exI [of _ "[?row]"] exI [of _ xs] exI [of _ cs]) auto
  moreover have "line_demands oid t = line_demands oid s @ [(pc_item_id c, q)]"
    by (simp add: t s2 s1 line_demands_def set_base_def set_core_def core_def)
  moreover have "demand_of c = (pc_item_id c, q)" using required_qty_pos [OF q] by (simp add: demand_of_def)
  ultimately show ?thesis using I(1,2) sq sqt it by simp
qed

lemma import_components_Inr:
  assumes "map_loop (import_component oid) cs s = Inr (us, t)" and "distinct (map oi_sku_id (items_of oid s))"
  shows "adds_lines_of oid s t \<and> line_demands oid t = line_demands oid s @ map demand_of cs \<and>
     sku_qty oid k t = sku_qty oid k s + (\<Sum>c \<leftarrow> cs. if pc_sku_code c = k then snd (demand_of c) else 0)"
  using assms
proof (induction cs arbitrary: s us)
  case (Cons c cs)
  then obtain u v us' where one: "import_component oid c s = Inr (u, v)" and rest: "map_loop (import_component oid) cs v = Inr (us', t)"
    by (auto simp: res_simps)
  from import_component_Inr [OF one Cons.prems(2), of k] have
    O: "adds_lines_of oid s v" "line_demands oid v = line_demands oid s @ [demand_of c]" "distinct (map oi_sku_id (items_of oid v))"
      "sku_qty oid k v = sku_qty oid k s + (if k = pc_sku_code c then snd (demand_of c) else 0)" by simp_all
  from Cons.IH [OF rest O(3)] O adds_lines_of_trans [OF O(1)] show ?case by auto
qed simp

section \<open>One order\<close>

definition order_ids :: "wms_db \<Rightarrow> int set" where
  "order_ids s = ord_id ` set (db_orders (base s))"

text \<open>The keys of the tables, and the platforms that the projection admits.\<close>

definition order_keys_ok :: "wms_db \<Rightarrow> bool" where
  "order_keys_ok s \<longleftrightarrow> distinct (map ord_id (db_orders (base s))) \<and> (\<forall>l \<in> set (db_order_lines (base s)). ol_order_id l \<in> order_ids s) \<and>
     (\<forall>x \<in> set (ib_order_items (wd_rest s)). oi_order_id x \<in> order_ids s) \<and>
     (\<forall>p \<in> set (wd_projection_orders s). pj_platform p \<in> {''pdd'', ''taobao'', ''jd''})"

text \<open>
  The rest of the tables. A store keeps its id, platform and code; its name changes and it becomes active only when an order of
  it is imported, and a new store is that of a new order. Fulfilment records and component records are appended, an existing order
  keeps its status, and providers and shipping records stay as they are.
\<close>

definition new_order_of :: "string \<Rightarrow> string \<Rightarrow> wms_db \<Rightarrow> wms_db \<Rightarrow> bool" where
  "new_order_of platform code s t \<longleftrightarrow>
     (\<exists>x \<in> set (db_orders (base t)). x \<notin> set (db_orders (base s)) \<and> ord_platform x = platform \<and> ord_store_code x = code)"

definition store_kept :: "wms_db \<Rightarrow> wms_db \<Rightarrow> store \<Rightarrow> store \<Rightarrow> bool" where
  "store_kept s t x y \<longleftrightarrow> sto_id y = sto_id x \<and> sto_platform y = sto_platform x \<and> sto_store_code y = sto_store_code x \<and>
     (y = x \<or> sto_active y \<and> new_order_of (sto_platform x) (sto_store_code x) s t)"

definition stores_kept :: "wms_db \<Rightarrow> wms_db \<Rightarrow> bool" where
  "stores_kept s t \<longleftrightarrow> (\<exists>olds new. wd_stores t = olds @ new \<and> list_all2 (store_kept s t) (wd_stores s) olds \<and>
     (\<forall>y \<in> set new. new_order_of (sto_platform y) (sto_store_code y) s t))"

definition others_kept :: "wms_db \<Rightarrow> wms_db \<Rightarrow> bool" where
  "others_kept s t \<longleftrightarrow> wd_providers t = wd_providers s \<and> wd_shipping_records t = wd_shipping_records s \<and>
     (\<exists>fs. wd_fulfillment t = wd_fulfillment s @ fs) \<and> (\<exists>cs. wd_component_imports t = wd_component_imports s @ cs) \<and>
     order_ids s \<subseteq> order_ids t \<and> (\<forall>i \<in> order_ids s. ib_order_status (wd_rest t) i = ib_order_status (wd_rest s) i)"

lemma others_kept_refl [simp]: "others_kept s s"
  by (simp add: others_kept_def)

lemma others_kept_trans: "others_kept a b \<Longrightarrow> others_kept b c \<Longrightarrow> others_kept a c"
  by (fastforce simp: others_kept_def)

lemma stores_kept_refl [simp]: "stores_kept s s"
  unfolding stores_kept_def by (intro exI [of _ "wd_stores s"] exI [of _ "[]"]) (simp add: list_all2_same store_kept_def)

lemma stores_kept_trans:
  assumes ab: "stores_kept a b" and bc: "stores_kept b c"
    and sub: "set (db_orders (base a)) \<subseteq> set (db_orders (base b))" "set (db_orders (base b)) \<subseteq> set (db_orders (base c))"
  shows "stores_kept a c"
proof -
  have n: "new_order_of p k a b \<Longrightarrow> new_order_of p k a c" "new_order_of p k b c \<Longrightarrow> new_order_of p k a c" for p k
    using sub unfolding new_order_of_def by blast+
  from ab obtain xs ys where A: "wd_stores b = xs @ ys" "list_all2 (store_kept a b) (wd_stores a) xs"
    "\<forall>y \<in> set ys. new_order_of (sto_platform y) (sto_store_code y) a b" unfolding stores_kept_def by blast
  from bc obtain zs ws where B: "wd_stores c = zs @ ws" "list_all2 (store_kept b c) (xs @ ys) zs"
    "\<forall>y \<in> set ws. new_order_of (sto_platform y) (sto_store_code y) b c" unfolding stores_kept_def A(1) by blast
  from B(2) obtain us vs where C: "zs = us @ vs" "list_all2 (store_kept b c) xs us" "list_all2 (store_kept b c) ys vs"
    unfolding list_all2_append1 by blast
  have "list_all2 (store_kept a c) (wd_stores a) us"
    by (rule list_all2_trans [OF _ A(2) C(2)]) (use n in \<open>auto simp: store_kept_def\<close>)
  moreover have "\<forall>y \<in> set (vs @ ws). new_order_of (sto_platform y) (sto_store_code y) a c"
  proof
    fix y assume "y \<in> set (vs @ ws)"
    then consider "y \<in> set vs" | "y \<in> set ws" by auto
    then show "new_order_of (sto_platform y) (sto_store_code y) a c"
    proof cases
      case 1
      with C(3) obtain x where "x \<in> set ys" "store_kept b c x y" by (metis in_set_conv_nth list_all2_conv_all_nth)
      with A(3) n show ?thesis by (auto simp: store_kept_def)
    qed (use B(3) n in blast)
  qed
  ultimately show ?thesis unfolding stores_kept_def B(1) C(1) by (intro exI [of _ us] exI [of _ "vs @ ws"]) simp
qed

text \<open>After the store, the creation of an order leaves the stores alone.\<close>

definition beside_stores :: "wms_db \<Rightarrow> wms_db \<Rightarrow> bool" where
  "beside_stores s t \<longleftrightarrow> others_kept s t \<and> wd_stores t = wd_stores s"

lemma beside_stores_trans: "beside_stores a b \<Longrightarrow> beside_stores b c \<Longrightarrow> beside_stores a c"
  unfolding beside_stores_def by (auto intro: others_kept_trans)

lemma beside_stores_rest:
  assumes "wd_stores t = wd_stores s" and "wd_providers t = wd_providers s" and "wd_shipping_records t = wd_shipping_records s"
    and "wd_fulfillment t = wd_fulfillment s @ fs" and "wd_component_imports t = wd_component_imports s @ cs"
    and "order_ids s \<subseteq> order_ids t" and "\<forall>i \<in> order_ids s. ib_order_status (wd_rest t) i = ib_order_status (wd_rest s) i"
  shows "beside_stores s t"
  using assms by (simp add: beside_stores_def others_kept_def)

lemma insert_execution_order_beside:
  assumes "insert_execution_order p s = Inr (oid, t)"
  shows "beside_stores s t"
proof (rule beside_stores_rest [where fs = "[]" and cs = "[]"])
  show "order_ids s \<subseteq> order_ids t" "\<forall>i \<in> order_ids s. ib_order_status (wd_rest t) i = ib_order_status (wd_rest s) i"
    using assms by (auto simp: insert_execution_order_def Let_def res_simps order_ids_def set_base_def set_core_def core_def dest: next_id_fresh_row [OF sym] split: if_splits)
qed (use assms in \<open>auto simp: insert_execution_order_def Let_def res_simps split: if_splits\<close>)

lemma order_parts_beside:
  "upsert_execution_order_address oid p s = Inr (u, t) \<Longrightarrow> beside_stores s t"
  "insert_order_fulfillment_placeholder oid s = Inr (u, t) \<Longrightarrow> beside_stores s t"
  "insert_order_import_audit oid p n s = Inr (u, t) \<Longrightarrow> beside_stores s t"
  "import_component oid c s = Inr (u, t) \<Longrightarrow> beside_stores s t"
proof -
  show "beside_stores s t" if "upsert_execution_order_address oid p s = Inr (u, t)"
  proof -
    from that obtain g where t: "t = set_base ((base s)\<lparr>db_orders := map (\<lambda>x. if ord_id x = oid then x\<lparr>ord_address := g\<rparr> else x) (db_orders (base s))\<rparr>) s"
      by (auto simp: upsert_execution_order_address_def Let_def)
    have "map ord_id (map (\<lambda>x. if ord_id x = oid then x\<lparr>ord_address := g\<rparr> else x) (db_orders (base s))) = map ord_id (db_orders (base s))" by simp
    from arg_cong [OF this, of set] have "order_ids t = order_ids s" by (simp only: order_ids_def t set_map [symmetric] set_base_simps order_head.simps db.simps) simp
    then show ?thesis
      by (intro beside_stores_rest [where fs = "[]" and cs = "[]"]) (simp_all add: t)
  qed
  show "beside_stores s t" if "insert_order_fulfillment_placeholder oid s = Inr (u, t)"
    using that by (auto simp: insert_order_fulfillment_placeholder_def beside_stores_def others_kept_def order_ids_def split: if_splits)
  show "beside_stores s t" if "insert_order_import_audit oid p n s = Inr (u, t)"
    using that by (auto simp: insert_order_import_audit_def Let_def res_simps beside_stores_def others_kept_def order_ids_def)
  show "beside_stores s t" if "import_component oid c s = Inr (u, t)"
  proof -
    from that obtain q lid s1 s2 u' where l: "insert_order_line oid (pc_item_id c) q s = Inr (lid, s1)"
      and i: "insert_order_item_from_component oid c q s1 = Inr (u', s2)" and m: "insert_component_import oid lid c s2 = Inr (u, t)"
      by (auto simp: import_component_def res_simps)
    from l obtain ls where s1: "s1 = set_base ((base s)\<lparr>db_order_lines := ls\<rparr>) s" by (auto simp: insert_order_line_def Let_def)
    from i obtain xs where s2: "s2 = s1\<lparr>wd_rest := (wd_rest s1)\<lparr>ib_order_items := xs\<rparr>\<rparr>"
      by (auto simp: insert_order_item_from_component_def Let_def split: if_splits)
    from m obtain r where t: "t = s2\<lparr>wd_component_imports := wd_component_imports s2 @ [r]\<rparr>"
      by (auto simp: insert_component_import_def Let_def res_simps)
    have "base t = (base s)\<lparr>db_order_lines := ls\<rparr>" by (simp add: t s2 s1 core_def set_base_def set_core_def)
    then have "order_ids t = order_ids s" by (simp add: order_ids_def)
    then show ?thesis by (intro beside_stores_rest [where fs = "[]" and cs = "[r]"]) (simp_all add: t s2 s1)
  qed
qed

lemma create_order_beside:
  assumes "create_execution_order p cs s = Inr (oid, t)"
  shows "\<exists>i s1. ensure_store_from_projection p s = Inr (i, s1) \<and> beside_stores s1 t"
proof -
  from assms obtain i s1 s2 u3 s3 u4 s4 u5 s5 us where st: "ensure_store_from_projection p s = Inr (i, s1)" and io: "insert_execution_order p s1 = Inr (oid, s2)"
    and ad: "upsert_execution_order_address oid p s2 = Inr (u3, s3)" and fu: "insert_order_fulfillment_placeholder oid s3 = Inr (u4, s4)"
    and au: "insert_order_import_audit oid p (int (length cs)) s4 = Inr (u5, s5)" and loop: "map_loop (import_component oid) cs s5 = Inr (us, t)"
    by (auto simp: create_execution_order_def import_order_lines_and_items_def res_simps)
  have five: "beside_stores s1 s5"
    using insert_execution_order_beside [OF io] order_parts_beside(1) [OF ad] order_parts_beside(2) [OF fu] order_parts_beside(3) [OF au]
    by (blast intro: beside_stores_trans)
  have "beside_stores s1 t"
    by (rule map_loop_invariant [where I = "beside_stores s1", OF _ _ loop]) (use five order_parts_beside(4) beside_stores_trans in blast)+
  with st show ?thesis by blast
qed

lemma create_order_stores:
  assumes "create_execution_order p cs s = Inr (oid, t)" and "x \<in> set (db_orders (base t))" and "x \<notin> set (db_orders (base s))"
    and "ord_platform x = platform_to_wms (pj_platform p)" and "ord_store_code x = pj_store_code p"
  shows "stores_kept s t" and "others_kept s t"
proof -
  from create_order_beside [OF assms(1)] obtain i s1 where st: "ensure_store_from_projection p s = Inr (i, s1)" and b: "others_kept s1 t" "wd_stores t = wd_stores s1"
    by (auto simp: beside_stores_def)
  have new: "new_order_of (platform_to_wms (pj_platform p)) (pj_store_code p) s t" using assms(2-5) unfolding new_order_of_def by blast
  from st obtain xs where s1: "s1 = s\<lparr>wd_stores := xs\<rparr>" by (auto simp: ensure_store_from_projection_def Let_def split: option.splits)
  then show "others_kept s t" using b(1) by (simp add: others_kept_def order_ids_def)
  let ?hit = "\<lambda>y. sto_platform y = platform_to_wms (pj_platform p) \<and> sto_store_code y = pj_store_code p"
  show "stores_kept s t"
  proof (cases "find ?hit (wd_stores s)")
    case (Some y)
    then have "wd_stores t = map (\<lambda>y. if ?hit y then y\<lparr>sto_store_name := (if pj_store_name p = [] then pj_store_code p else pj_store_name p), sto_active := True\<rparr> else y) (wd_stores s)"
      using st b(2) by (auto simp: ensure_store_from_projection_def Let_def)
    then show ?thesis unfolding stores_kept_def using new
      by (intro exI [of _ "wd_stores t"] exI [of _ "[]"]) (auto simp: list_all2_map2 list_all2_same store_kept_def)
  next
    case None
    then obtain y where "wd_stores t = wd_stores s @ [y]" "?hit y" using st b(2) by (auto simp: ensure_store_from_projection_def Let_def)
    then show ?thesis unfolding stores_kept_def using new
      by (intro exI [of _ "wd_stores s"] exI [of _ "[y]"]) (auto simp: list_all2_same store_kept_def)
  qed
qed

text \<open>
  A step of the import: orders, lines and import records are appended; new lines and items belong to new orders,
  every new order has an import record, and the other tables are kept.
\<close>

definition grows :: "wms_db \<Rightarrow> wms_db \<Rightarrow> bool" where
  "grows s t \<longleftrightarrow> quiet s t \<and> wd_projection_orders t = wd_projection_orders s \<and> wd_projection_components t = wd_projection_components s \<and>
     (\<exists>os. db_orders (base t) = db_orders (base s) @ os \<and> ord_id ` set os \<inter> order_ids s = {} \<and>
        (\<exists>rs. wd_order_imports t = wd_order_imports s @ rs \<and> ord_id ` set os = oim_order_id ` set rs)) \<and>
     (\<exists>ls. db_order_lines (base t) = db_order_lines (base s) @ ls \<and> ol_order_id ` set ls \<inter> order_ids s = {}) \<and>
     (\<forall>i \<in> order_ids s. items_of i t = items_of i s) \<and> stores_kept s t \<and> others_kept s t"

lemma growsE:
  assumes "grows s t"
  obtains os rs ls where "quiet s t" "wd_projection_orders t = wd_projection_orders s" "wd_projection_components t = wd_projection_components s"
    "db_orders (base t) = db_orders (base s) @ os" "ord_id ` set os \<inter> order_ids s = {}" "wd_order_imports t = wd_order_imports s @ rs"
    "ord_id ` set os = oim_order_id ` set rs" "db_order_lines (base t) = db_order_lines (base s) @ ls" "ol_order_id ` set ls \<inter> order_ids s = {}"
    "\<forall>i \<in> order_ids s. items_of i t = items_of i s" "stores_kept s t" "others_kept s t"
  using assms unfolding grows_def by (elim conjE exE) (rule that)

lemma growsI:
  assumes "quiet s t" and "wd_projection_orders t = wd_projection_orders s" and "wd_projection_components t = wd_projection_components s"
    and "db_orders (base t) = db_orders (base s) @ os" and "ord_id ` set os \<inter> order_ids s = {}" and "wd_order_imports t = wd_order_imports s @ rs"
    and "ord_id ` set os = oim_order_id ` set rs" and "db_order_lines (base t) = db_order_lines (base s) @ ls" and "ol_order_id ` set ls \<inter> order_ids s = {}"
    and "\<forall>i \<in> order_ids s. items_of i t = items_of i s" and "stores_kept s t" and "others_kept s t"
  shows "grows s t"
  unfolding grows_def by (intro conjI assms exI [of _ os] exI [of _ rs] exI [of _ ls])

lemma grows_refl [simp]: "grows s s"
  by (rule growsI [where os = "[]" and rs = "[]" and ls = "[]"]) simp_all

lemma grows_ids: "grows s t \<Longrightarrow> order_ids s \<subseteq> order_ids t"
  by (erule growsE) (auto simp: order_ids_def)

lemma grows_trans:
  assumes ab: "grows a b" and bc: "grows b c"
  shows "grows a c"
proof -
  have ids: "order_ids a \<subseteq> order_ids b" by (rule grows_ids [OF ab])
  from ab obtain os rs ls where A: "quiet a b" "wd_projection_orders b = wd_projection_orders a" "wd_projection_components b = wd_projection_components a"
    "db_orders (base b) = db_orders (base a) @ os" "ord_id ` set os \<inter> order_ids a = {}" "wd_order_imports b = wd_order_imports a @ rs"
    "ord_id ` set os = oim_order_id ` set rs" "db_order_lines (base b) = db_order_lines (base a) @ ls" "ol_order_id ` set ls \<inter> order_ids a = {}"
    "\<forall>i \<in> order_ids a. items_of i b = items_of i a" "stores_kept a b" "others_kept a b" by (rule growsE)
  from bc obtain os' rs' ls' where B: "quiet b c" "wd_projection_orders c = wd_projection_orders b" "wd_projection_components c = wd_projection_components b"
    "db_orders (base c) = db_orders (base b) @ os'" "ord_id ` set os' \<inter> order_ids b = {}" "wd_order_imports c = wd_order_imports b @ rs'"
    "ord_id ` set os' = oim_order_id ` set rs'" "db_order_lines (base c) = db_order_lines (base b) @ ls'" "ol_order_id ` set ls' \<inter> order_ids b = {}"
    "\<forall>i \<in> order_ids b. items_of i c = items_of i b" "stores_kept b c" "others_kept b c" by (rule growsE)
  show ?thesis
  proof (rule growsI [where os = "os @ os'" and rs = "rs @ rs'" and ls = "ls @ ls'"])
    show "quiet a c" by (rule quiet_trans [OF A(1) B(1)])
    show "ord_id ` set (os @ os') \<inter> order_ids a = {}" using A(5) B(5) ids by auto
    show "ol_order_id ` set (ls @ ls') \<inter> order_ids a = {}" using A(9) B(9) ids by auto
    show "\<forall>i \<in> order_ids a. items_of i c = items_of i a" using A(10) B(10) ids by (metis subsetD)
    show "stores_kept a c" by (rule stores_kept_trans [OF A(11) B(11)]) (auto simp: A(4) B(4))
    show "others_kept a c" by (rule others_kept_trans [OF A(12) B(12)])
  qed (simp_all add: A(2-4,6-8) B(2-4,6-8) image_Un)
qed

lemma grows_demands:
  assumes "grows s t" and "i \<in> order_ids s"
  shows "line_demands i t = line_demands i s" and "sku_qty i k t = sku_qty i k s"
proof -
  from assms(1) have "line_demands i t = line_demands i s \<and> items_of i t = items_of i s"
  proof (rule growsE)
    fix ls
    assume "db_order_lines (base t) = db_order_lines (base s) @ ls" and n: "ol_order_id ` set ls \<inter> order_ids s = {}"
      and "\<forall>i \<in> order_ids s. items_of i t = items_of i s"
    moreover have "filter (\<lambda>l. ol_order_id l = i) ls = []" using n assms(2) by (auto simp: filter_empty_conv)
    ultimately show ?thesis using assms(2) by (simp add: line_demands_def)
  qed
  then show "line_demands i t = line_demands i s" "sku_qty i k t = sku_qty i k s" by (simp_all add: sku_qty_def)
qed

text \<open>The order, its address, its fulfilment record and the record of the import, before the components follow.\<close>

lemma order_head_Inr:
  assumes plat: "pj_platform p \<in> {''pdd'', ''taobao'', ''jd''}"
    and known: "\<forall>x \<in> set (db_orders (base s)). same_order (pj_platform p) (pj_store_code p) (pj_platform_order_no p) x \<longrightarrow>
       ord_id x \<in> oim_order_id ` set (wd_order_imports s)"
    and st: "ensure_store_from_projection p s = Inr (i1, s1)" and io: "insert_execution_order p s1 = Inr (oid, s2)"
    and ad: "upsert_execution_order_address oid p s2 = Inr (u3, s3)" and fu: "insert_order_fulfillment_placeholder oid s3 = Inr (u4, s4)"
    and au: "insert_order_import_audit oid p n s4 = Inr (u5, s5)"
  obtains x r where "ord_id x = oid" "ord_platform x = platform_to_wms (pj_platform p)" "ord_store_code x = pj_store_code p"
    "same_order (pj_platform p) (pj_store_code p) (pj_platform_order_no p) x" "oid \<notin> order_ids s"
    "base s5 = (base s)\<lparr>db_orders := db_orders (base s) @ [x]\<rparr>" "ib_order_items (wd_rest s5) = ib_order_items (wd_rest s)"
    "same_receipts (wd_rest s) (wd_rest s5)" "ib_rest (wd_rest s5) = (ib_rest (wd_rest s))\<lparr>rd_core := base s5\<rparr>"
    "wd_projection_orders s5 = wd_projection_orders s" "wd_projection_components s5 = wd_projection_components s"
    "wd_order_imports s5 = wd_order_imports s @ [r]" "oim_ready_order_id r = pj_ready_order_id p" "oim_order_id r = oid"
proof -
  let ?pf = "platform_to_wms (pj_platform p)"
  from st obtain xs where s1: "s1 = s\<lparr>wd_stores := xs\<rparr>"
    by (auto simp: ensure_store_from_projection_def Let_def split: option.splits)
  have same: "same_order ?pf a b x = same_order (pj_platform p) a b x" for a b x
    using platform_to_wms_upper [OF plat] by (simp add: same_order_def)
  from ad obtain g where s3: "s3 = set_base ((base s2)\<lparr>db_orders := map (\<lambda>x. if ord_id x = oid then x\<lparr>ord_address := Some g\<rparr> else x) (db_orders (base s2))\<rparr>) s2"
    by (auto simp: upsert_execution_order_address_def Let_def)
  have "s4 = s3\<lparr>wd_fulfillment := wd_fulfillment s4\<rparr>"
    using fu by (cases "oid \<in> set (map ff_order_id (wd_fulfillment s3))") (auto simp: insert_order_fulfillment_placeholder_def)
  then obtain fs where s4: "s4 = s3\<lparr>wd_fulfillment := fs\<rparr>" by (rule that)
  have imp2: "wd_order_imports s2 = wd_order_imports s" using io by (auto simp: insert_execution_order_def s1 Let_def res_simps split: if_splits)
  from au obtain r where s5: "s5 = s4\<lparr>wd_order_imports := wd_order_imports s @ [r]\<rparr>" and r: "oim_ready_order_id r = pj_ready_order_id p" "oim_order_id r = oid"
    and new: "oid \<notin> oim_order_id ` set (wd_order_imports s)"
    by (auto simp: insert_order_import_audit_def Let_def res_simps s4 s3 imp2)
  have "\<not> (\<exists>x \<in> set (db_orders (base s)). ord_platform x = ?pf \<and> ord_store_code x = pj_store_code p \<and> ord_ext_order_no x = pj_platform_order_no p)"
  proof
    assume "\<exists>x \<in> set (db_orders (base s)). ord_platform x = ?pf \<and> ord_store_code x = pj_store_code p \<and> ord_ext_order_no x = pj_platform_order_no p"
    with io obtain y where "find (same_order ?pf (pj_store_code p) (pj_platform_order_no p)) (db_orders (base s)) = Some y" "oid = ord_id y"
      by (auto simp: insert_execution_order_def s1 Let_def res_simps)
    then show False using known new find_SomeD same by fastforce
  qed
  note no = this
  define row where "row = \<lparr>ord_id = oid, ord_platform = ?pf, ord_store_code = pj_store_code p, ord_ext_order_no = pj_platform_order_no p,
     ord_buyer_name = norm_text (Some (pj_receiver_name p)), ord_buyer_phone = norm_text (Some (pj_receiver_phone p)), ord_address = None\<rparr>"
  have row: "ord_id row = oid" "ord_platform row = ?pf" "ord_store_code row = pj_store_code p" "ord_ext_order_no row = pj_platform_order_no p"
    by (simp_all add: row_def)
  have oid: "oid = next_id (map ord_id (db_orders (base s)))"
    using io no by (simp add: insert_execution_order_def s1 Let_def split: if_splits)
  have s2: "s2 = (set_base ((base s)\<lparr>db_orders := db_orders (base s) @ [row]\<rparr>) s1)\<lparr>wd_rest := (wd_rest (set_base ((base s)\<lparr>db_orders := db_orders (base s) @ [row]\<rparr>) s1))
        \<lparr>ib_order_status := (ib_order_status (wd_rest s))(oid \<mapsto> ''CREATED'')\<rparr>\<rparr>"
    using io no by (auto simp: insert_execution_order_def s1 Let_def row_def oid)
  have fresh: "oid \<notin> order_ids s" by (simp add: oid order_ids_def)
  let ?x = "row\<lparr>ord_address := Some g\<rparr>"
  have old: "map (\<lambda>x. if ord_id x = oid then x\<lparr>ord_address := Some g\<rparr> else x) (db_orders (base s)) = db_orders (base s)"
    by (rule map_idI) (use fresh in \<open>auto simp: order_ids_def\<close>)
  have b2: "base s2 = (base s)\<lparr>db_orders := db_orders (base s) @ [row]\<rparr>" by (simp add: s2 set_base_def set_core_def core_def)
  have b5: "base s5 = (base s)\<lparr>db_orders := db_orders (base s) @ [?x]\<rparr>"
    unfolding s5 s4 s3 using row(1) old by (simp add: b2)
  have rest5: "ib_order_items (wd_rest s5) = ib_order_items (wd_rest s)" "same_receipts (wd_rest s) (wd_rest s5)"
      "ib_rest (wd_rest s5) = (ib_rest (wd_rest s))\<lparr>rd_core := base s5\<rparr>"
    by (simp_all add: s5 s4 s3 s2 s1 set_base_def set_core_def same_receipts_def core_def)
  have proj5: "wd_projection_orders s5 = wd_projection_orders s" "wd_projection_components s5 = wd_projection_components s"
    by (simp_all add: s5 s4 s3 s2 s1)
  have so: "same_order (pj_platform p) (pj_store_code p) (pj_platform_order_no p) ?x" using platform_to_wms_upper [OF plat] row by (simp add: same_order_def)
  have ix: "ord_id ?x = oid" "ord_platform ?x = ?pf" "ord_store_code ?x = pj_store_code p" using row by simp_all
  have im: "wd_order_imports s5 = wd_order_imports s @ [r]" by (simp add: s5)
  show thesis by (rule that [OF ix so fresh b5 rest5 proj5 im r])
qed

lemma create_execution_order_Inr:
  assumes keys: "order_keys_ok s" and run: "create_execution_order p cs s = Inr (oid, t)" and plat: "pj_platform p \<in> {''pdd'', ''taobao'', ''jd''}"
    and known: "\<forall>x \<in> set (db_orders (base s)). same_order (pj_platform p) (pj_store_code p) (pj_platform_order_no p) x \<longrightarrow>
       ord_id x \<in> oim_order_id ` set (wd_order_imports s)"
  shows "oid \<notin> order_ids s \<and> grows s t \<and> order_keys_ok t \<and> line_demands oid t = map demand_of cs \<and>
     (\<forall>k. sku_qty oid k t = (\<Sum>c \<leftarrow> cs. if pc_sku_code c = k then snd (demand_of c) else 0)) \<and>
     (\<exists>x. db_orders (base t) = db_orders (base s) @ [x] \<and> ord_id x = oid \<and> same_order (pj_platform p) (pj_store_code p) (pj_platform_order_no p) x) \<and>
     (\<exists>r. wd_order_imports t = wd_order_imports s @ [r] \<and> oim_ready_order_id r = pj_ready_order_id p \<and> oim_order_id r = oid)"
proof -
  from run obtain i1 s1 s2 u3 s3 u4 s4 u5 s5 us where
    st: "ensure_store_from_projection p s = Inr (i1, s1)" and io: "insert_execution_order p s1 = Inr (oid, s2)"
    and ad: "upsert_execution_order_address oid p s2 = Inr (u3, s3)" and fu: "insert_order_fulfillment_placeholder oid s3 = Inr (u4, s4)"
    and au: "insert_order_import_audit oid p (int (length cs)) s4 = Inr (u5, s5)" and loop: "map_loop (import_component oid) cs s5 = Inr (us, t)"
    by (auto simp: create_execution_order_def import_order_lines_and_items_def res_simps)
  obtain x r where row: "ord_id x = oid" and sto: "ord_platform x = platform_to_wms (pj_platform p)" "ord_store_code x = pj_store_code p" and so: "same_order (pj_platform p) (pj_store_code p) (pj_platform_order_no p) x" and fresh: "oid \<notin> order_ids s"
    and b5: "base s5 = (base s)\<lparr>db_orders := db_orders (base s) @ [x]\<rparr>" and rest5: "ib_order_items (wd_rest s5) = ib_order_items (wd_rest s)"
      "same_receipts (wd_rest s) (wd_rest s5)" "ib_rest (wd_rest s5) = (ib_rest (wd_rest s))\<lparr>rd_core := base s5\<rparr>"
    and proj5: "wd_projection_orders s5 = wd_projection_orders s" "wd_projection_components s5 = wd_projection_components s"
    and im: "wd_order_imports s5 = wd_order_imports s @ [r]" and r: "oim_ready_order_id r = pj_ready_order_id p" "oim_order_id r = oid"
    by (rule order_head_Inr [OF plat known st io ad fu au])
  have none: "items_of oid s5 = []" "line_demands oid s5 = []"
    using keys fresh rest5(1) by (auto simp: items_of_def order_keys_ok_def filter_empty_conv line_demands_def b5)
  then have z: "sku_qty oid k s5 = 0" for k by (simp add: sku_qty_def)
  have L: "adds_lines_of oid s5 t" "line_demands oid t = map demand_of cs"
    "sku_qty oid k t = (\<Sum>c \<leftarrow> cs. if pc_sku_code c = k then snd (demand_of c) else 0)" for k
    using import_components_Inr [OF loop, of k] none z [of k] by auto
  then obtain ls xs' cs' where t: "t = s5\<lparr>wd_rest := (set_core ((base s5)\<lparr>db_order_lines := db_order_lines (base s5) @ ls\<rparr>) (wd_rest s5))\<lparr>ib_order_items := xs'\<rparr>,
      wd_component_imports := cs'\<rparr>" and ls: "\<forall>l \<in> set ls. ol_order_id l = oid" and other: "\<forall>i. i \<noteq> oid \<longrightarrow> items_of i t = items_of i s5"
    unfolding adds_lines_of_def by blast
  have bt: "base t = (base s)\<lparr>db_orders := db_orders (base s) @ [x], db_order_lines := db_order_lines (base s) @ ls\<rparr>"
    by (simp add: t b5 set_core_def core_def [of "_\<lparr>ib_order_items := _\<rparr>"] core_def [of "_\<lparr>ib_rest := _\<rparr>"])
  have imps: "wd_order_imports t = wd_order_imports s @ [r]" using im by (simp add: t)
  have "ib_rest (wd_rest t) = (ib_rest (wd_rest s5))\<lparr>rd_core := base t\<rparr>" by (simp add: t set_core_def core_def)
  then have rt: "ib_rest (wd_rest t) = (ib_rest (wd_rest s))\<lparr>rd_core := base t\<rparr>" by (subst (asm) rest5(3)) simp
  have sr: "same_receipts (wd_rest s) (wd_rest t)" using rest5(2) by (simp add: t same_receipts_def set_core_def)
  have quiet: "quiet s t" by (rule quiet_core [OF _ _ _ _ _ _ _ rt sr]) (simp_all add: bt same_stock_def same_count_tables_def)
  have items: "items_of i t = items_of i s" if "i \<noteq> oid" for i using other that rest5(1) by (simp add: items_of_def)
  have ids: "order_ids t = insert oid (order_ids s)" using row by (simp add: order_ids_def bt)
  have "x \<in> set (db_orders (base t))" "x \<notin> set (db_orders (base s))" using fresh row by (auto simp: bt order_ids_def)
  note kept = create_order_stores [OF run this sto]
  have gr: "grows s t"
  proof (rule growsI [where os = "[x]" and rs = "[r]" and ls = ls])
    show "ord_id ` set [x] \<inter> order_ids s = {}" using row fresh by simp
    show "ol_order_id ` set ls \<inter> order_ids s = {}" using ls fresh by auto
    show "\<forall>i \<in> order_ids s. items_of i t = items_of i s" using items fresh by metis
  qed (use quiet proj5 imps row r(2) kept in \<open>simp_all add: bt, simp_all add: t\<close>)
  have it: "oi_order_id x \<in> order_ids t" if "x \<in> set (ib_order_items (wd_rest t))" for x
  proof (cases "oi_order_id x = oid")
    case False
    have "x \<in> set (items_of (oi_order_id x) t)" using that by (simp add: items_of_def)
    then have "x \<in> set (items_of (oi_order_id x) s)" by (simp only: items [OF False])
    with keys ids show ?thesis by (auto simp: items_of_def order_keys_ok_def)
  qed (simp add: ids)
  have ot: "db_orders (base t) = db_orders (base s) @ [x]" "db_order_lines (base t) = db_order_lines (base s) @ ls" by (simp_all add: bt)
  have pt: "wd_projection_orders t = wd_projection_orders s" using proj5(1) by (simp add: t)
  have "distinct (map ord_id (db_orders (base t)))" using keys fresh row by (simp add: ot order_keys_ok_def order_ids_def)
  moreover have "\<forall>l \<in> set (db_order_lines (base t)). ol_order_id l \<in> order_ids t" using keys ls by (auto simp: ot ids order_keys_ok_def)
  ultimately have ok: "order_keys_ok t" using it keys unfolding order_keys_ok_def pt by blast
  show ?thesis by (intro conjI fresh gr ok L(2) allI L(3) exI [of _ x] exI [of _ r] ot(1) imps r row so)
qed

section \<open>The loop over the orders\<close>

text \<open>What the round of an order does is settled before the loop: a row, or the creation of the order.\<close>

definition decide :: "wms_db \<Rightarrow> string \<Rightarrow> import_row + (projection_order \<times> projection_component list)" where
  "decide s0 rid =
     (case load_projection_order s0 rid of
        None \<Rightarrow> Inl (import_result rid IMPORT_FAILED None 0 0 ''projection_order_not_found'')
      | Some p \<Rightarrow>
         (case load_existing_import s0 rid of
            Some oid \<Rightarrow> Inl (import_result rid ALREADY_IMPORTED (Some oid) 0 0 ''order_already_imported'')
          | None \<Rightarrow>
             (case load_existing_order_conflict s0 rid of
                Some oid \<Rightarrow> Inl (import_result rid IMPORT_FAILED (Some oid) 0 0 ''existing_execution_order_conflict'')
              | None \<Rightarrow>
                 (let cs = load_projection_components s0 rid; n = int (length cs)
                  in if cs = [] then Inl (import_result rid IMPORT_FAILED None 0 0 ''projection_components_not_found'')
                     else if pj_component_count p \<noteq> n then Inl (import_result rid IMPORT_FAILED None 0 n ''projection_component_count_mismatch'')
                     else if \<exists>c \<in> set cs. required_qty_to_int (pc_required_qty c) = None
                     then Inl (import_result rid IMPORT_FAILED None 0 n ''component_required_qty_must_be_positive_integer'')
                     else Inr (p, cs)))))"

lemma import_order_decide:
  "import_order s0 False rid s =
     (case decide s0 rid of
        Inl row \<Rightarrow> Inr (row, s)
      | Inr (p, cs) \<Rightarrow> bindR (create_execution_order p cs s) (\<lambda>(oid, s').
          Inr (import_result rid IMPORTED (Some oid) (int (length cs)) (int (length cs)) ''imported_execution_order'', s')))"
  by (auto simp: import_order_def decide_def Let_def split: option.splits)

lemma decide_Inl: "decide s0 rid = Inl row \<Longrightarrow> iw_status row \<noteq> IMPORTED \<and> iw_ready_order_id row = rid"
  by (auto simp: decide_def import_result_def Let_def split: option.splits if_splits)

lemma decide_Inr:
  assumes "decide s0 rid = Inr (p, cs)"
  shows "load_projection_order s0 rid = Some p \<and> pj_ready_order_id p = rid \<and> p \<in> set (wd_projection_orders s0) \<and> cs = load_projection_components s0 rid \<and>
     rid \<notin> oim_ready_order_id ` set (wd_order_imports s0) \<and>
     (\<forall>x \<in> set (db_orders (base s0)). \<not> same_order (pj_platform p) (pj_store_code p) (pj_platform_order_no p) x)"
proof -
  from assms have p: "load_projection_order s0 rid = Some p" "load_existing_import s0 rid = None" "load_existing_order_conflict s0 rid = None"
    and cs: "cs = load_projection_components s0 rid"
    by (auto simp: decide_def Let_def split: option.splits if_splits)
  have "p \<in> set (wd_projection_orders s0) \<and> pj_ready_order_id p = rid" using p(1) by (auto simp: load_projection_order_def dest: find_SomeD)
  moreover have "rid \<notin> oim_ready_order_id ` set (wd_order_imports s0)" using p(2) by (auto simp: load_existing_import_def find_None_iff)
  moreover have "\<forall>x \<in> set (db_orders (base s0)). \<not> same_order (pj_platform p) (pj_store_code p) (pj_platform_order_no p) x"
    using p(1,3) by (auto simp: load_existing_order_conflict_def find_None_iff)
  ultimately show ?thesis using p(1) cs by blast
qed

text \<open>What an imported order looks like.\<close>

definition imported_as :: "wms_db \<Rightarrow> wms_db \<Rightarrow> string \<Rightarrow> int \<Rightarrow> bool" where
  "imported_as s0 s rid oid \<longleftrightarrow> oid \<notin> order_ids s0 \<and> oid \<in> order_ids s \<and> line_demands oid s = map demand_of (load_projection_components s0 rid) \<and>
     (\<forall>k. sku_qty oid k s = (\<Sum>c \<leftarrow> load_projection_components s0 rid. if pc_sku_code c = k then snd (demand_of c) else 0)) \<and>
     (\<exists>r \<in> set (wd_order_imports s). oim_ready_order_id r = rid \<and> oim_order_id r = oid)"

lemma imported_as_grows:
  assumes "imported_as s0 s rid oid" and "grows s t"
  shows "imported_as s0 t rid oid"
proof -
  have i: "oid \<in> order_ids s" using assms(1) by (simp add: imported_as_def)
  have "set (wd_order_imports s) \<subseteq> set (wd_order_imports t)" using assms(2) by (rule growsE) simp
  with assms grows_ids [OF assms(2)] i show ?thesis
    unfolding imported_as_def grows_demands [OF assms(2) i] by blast
qed

lemma import_loop:
  assumes "map_loop (import_order s0 False) ids s = Inr (rows, t)" and "distinct ids" and "order_keys_ok s" and "grows s0 s"
    and "\<forall>r \<in> set (wd_order_imports s) - set (wd_order_imports s0). oim_ready_order_id r \<notin> set ids"
  shows "order_keys_ok t \<and> grows s t \<and> map iw_ready_order_id rows = ids \<and>
     (\<forall>r \<in> set rows. (iw_status r = IMPORTED) = (\<not> isl (decide s0 (iw_ready_order_id r))) \<and>
        (iw_status r = IMPORTED \<longrightarrow> (\<exists>oid. iw_order_id r = Some oid \<and> imported_as s0 t (iw_ready_order_id r) oid))) \<and>
     length (db_orders (base t)) = length (db_orders (base s)) + length (filter (\<lambda>r. iw_status r = IMPORTED) rows) \<and>
     (\<exists>rs. wd_order_imports t = wd_order_imports s @ rs \<and> map oim_ready_order_id rs = filter (\<lambda>i. \<not> isl (decide s0 i)) ids)"
  using assms
proof (induction ids arbitrary: s rows)
  case Nil
  then show ?case by simp
next
  case (Cons rid ids)
  from Cons.prems(1) obtain row u rows' where one: "import_order s0 False rid s = Inr (row, u)"
    and rest: "map_loop (import_order s0 False) ids u = Inr (rows', t)" and rows: "rows = row # rows'" by (auto simp: res_simps)
  have d: "distinct ids" "rid \<notin> set ids" using Cons.prems(2) by simp_all
  show ?case
  proof (cases "decide s0 rid")
    case (Inl x)
    with one have x: "row = x" "u = s" by (auto simp: import_order_decide)
    from decide_Inl [OF Inl] x have row: "iw_status row \<noteq> IMPORTED" "iw_ready_order_id row = rid" by auto
    have "\<forall>r \<in> set (wd_order_imports s) - set (wd_order_imports s0). oim_ready_order_id r \<notin> set ids" using Cons.prems(5) by auto
    from Cons.IH [OF rest [unfolded x(2)] d(1) Cons.prems(3,4) this] show ?thesis
      unfolding rows using row Inl by simp
  next
    case (Inr pc)
    then obtain p cs where dec: "decide s0 rid = Inr (p, cs)" by (cases pc) auto
    from one dec obtain oid where cr: "create_execution_order p cs s = Inr (oid, u)"
      and row: "row = import_result rid IMPORTED (Some oid) (int (length cs)) (int (length cs)) ''imported_execution_order''"
      by (auto simp: import_order_decide res_simps)
    from decide_Inr [OF dec] have D: "load_projection_order s0 rid = Some p" "pj_ready_order_id p = rid" "p \<in> set (wd_projection_orders s0)"
      "cs = load_projection_components s0 rid" "rid \<notin> oim_ready_order_id ` set (wd_order_imports s0)"
      "\<forall>x \<in> set (db_orders (base s0)). \<not> same_order (pj_platform p) (pj_store_code p) (pj_platform_order_no p) x" by auto
    from Cons.prems(4) have "p \<in> set (wd_projection_orders s)" "\<forall>x \<in> set (db_orders (base s)). x \<in> set (db_orders (base s0)) \<or> ord_id x \<in> oim_order_id ` set (wd_order_imports s)"
      by (rule growsE; use D(3) in force)+
    with D(6) Cons.prems(3) have pl: "pj_platform p \<in> {''pdd'', ''taobao'', ''jd''}"
      and kn: "\<forall>x \<in> set (db_orders (base s)). same_order (pj_platform p) (pj_store_code p) (pj_platform_order_no p) x \<longrightarrow> ord_id x \<in> oim_order_id ` set (wd_order_imports s)"
      unfolding order_keys_ok_def by blast+
    from create_execution_order_Inr [OF Cons.prems(3) cr pl kn] obtain x r where C: "oid \<notin> order_ids s" "grows s u" "order_keys_ok u"
      "line_demands oid u = map demand_of cs" "\<forall>k. sku_qty oid k u = (\<Sum>c \<leftarrow> cs. if pc_sku_code c = k then snd (demand_of c) else 0)"
      "db_orders (base u) = db_orders (base s) @ [x]" "ord_id x = oid" "wd_order_imports u = wd_order_imports s @ [r]" "oim_ready_order_id r = rid" "oim_order_id r = oid"
      unfolding D(2) by blast
    have new: "oid \<notin> order_ids s0" "oid \<in> order_ids u" using C(1,6,7) grows_ids [OF Cons.prems(4)] by (auto simp: order_ids_def)
    have i: "imported_as s0 u rid oid" unfolding imported_as_def D(4) [symmetric] using new C(4,5,8-10) by auto
    have "\<forall>r \<in> set (wd_order_imports u) - set (wd_order_imports s0). oim_ready_order_id r \<notin> set ids" using Cons.prems(5) C(8,9) d(2) by auto
    from Cons.IH [OF rest d(1) C(3) grows_trans [OF Cons.prems(4) C(2)] this]
    have I: "order_keys_ok t" "grows u t" "map iw_ready_order_id rows' = ids"
      "\<forall>r \<in> set rows'. (iw_status r = IMPORTED) = (\<not> isl (decide s0 (iw_ready_order_id r))) \<and>
        (iw_status r = IMPORTED \<longrightarrow> (\<exists>oid. iw_order_id r = Some oid \<and> imported_as s0 t (iw_ready_order_id r) oid))"
      "length (db_orders (base t)) = length (db_orders (base u)) + length (filter (\<lambda>r. iw_status r = IMPORTED) rows')"
      "\<exists>rs. wd_order_imports t = wd_order_imports u @ rs \<and> map oim_ready_order_id rs = filter (\<lambda>i. \<not> isl (decide s0 i)) ids" by blast+
    from I(6) obtain rs where rs: "wd_order_imports t = wd_order_imports u @ rs" "map oim_ready_order_id rs = filter (\<lambda>i. \<not> isl (decide s0 i)) ids" by blast
    have "\<exists>rs. wd_order_imports t = wd_order_imports s @ rs \<and> map oim_ready_order_id rs = filter (\<lambda>i. \<not> isl (decide s0 i)) (rid # ids)"
      using rs C(8,9) dec by (intro exI [of _ "r # rs"]) simp
    moreover have "imported_as s0 t rid oid" by (rule imported_as_grows [OF i I(2)])
    then have "\<forall>r \<in> set rows. (iw_status r = IMPORTED) = (\<not> isl (decide s0 (iw_ready_order_id r))) \<and>
        (iw_status r = IMPORTED \<longrightarrow> (\<exists>oid. iw_order_id r = Some oid \<and> imported_as s0 t (iw_ready_order_id r) oid))"
      using I(4) dec unfolding rows by (simp add: row import_result_def)
    ultimately show ?thesis using I(1,3,5) grows_trans [OF C(2) I(2)] C(6)
      by (simp add: rows) (simp add: row import_result_def)
  qed
qed

section \<open>Properties\<close>

lemma import_run:
  assumes "order_keys_ok s" and "import_orders_from_oms_projection ids False s = Inr (rows, s')"
  shows "order_keys_ok s' \<and> grows s s' \<and> map iw_ready_order_id rows = dedupe_ready_order_ids ids [] \<and>
     (\<forall>r \<in> set rows. (iw_status r = IMPORTED) = (\<not> isl (decide s (iw_ready_order_id r))) \<and>
        (iw_status r = IMPORTED \<longrightarrow> (\<exists>oid. iw_order_id r = Some oid \<and> imported_as s s' (iw_ready_order_id r) oid))) \<and>
     length (db_orders (base s')) = length (db_orders (base s)) + length (filter (\<lambda>r. iw_status r = IMPORTED) rows) \<and>
     (\<exists>rs. wd_order_imports s' = wd_order_imports s @ rs \<and>
        map oim_ready_order_id rs = filter (\<lambda>i. \<not> isl (decide s i)) (dedupe_ready_order_ids ids []))"
proof (rule import_loop)
  show "map_loop (import_order s False) (dedupe_ready_order_ids ids []) s = Inr (rows, s')"
    using assms(2) by (simp add: import_orders_from_oms_projection_def Let_def res_simps)
qed (use assms(1) dedupe_props in auto)

lemma decide_grows:
  assumes "grows s t" and "isl (decide s rid)"
  shows "isl (decide t rid)"
proof -
  from assms(1) have p: "load_projection_order t rid = load_projection_order s rid" "load_projection_components t rid = load_projection_components s rid"
    and o: "set (db_orders (base s)) \<subseteq> set (db_orders (base t))"
    by (rule growsE; simp add: load_projection_order_def load_projection_components_def)+
  have i: "load_existing_import s rid \<noteq> None \<Longrightarrow> load_existing_import t rid \<noteq> None"
    using assms(1) by (rule growsE) (auto simp: load_existing_import_def find_None_iff)
  have none: "load_existing_order_conflict u rid = None \<longleftrightarrow>
      (\<forall>q. load_projection_order u rid = Some q \<longrightarrow> (\<forall>x \<in> set (db_orders (base u)). \<not> same_order (pj_platform q) (pj_store_code q) (pj_platform_order_no q) x))" for u
    by (auto simp: load_existing_order_conflict_def find_None_iff split: option.splits)
  have c: "load_existing_order_conflict s rid \<noteq> None \<Longrightarrow> load_existing_order_conflict t rid \<noteq> None"
    unfolding none p using o by blast
  show ?thesis using assms(2) i c by (auto simp: decide_def p Let_def split: option.splits if_splits)
qed

lemma all_decided_loop:
  assumes "\<forall>i \<in> set ids. isl (decide s i)"
  shows "map_loop (import_order s False) ids t = Inr (map (\<lambda>i. projl (decide s i)) ids, t)"
  using assms by (induction ids) (auto simp: import_order_decide split: sum.splits)

definition sample_projection_order :: "string \<Rightarrow> string \<Rightarrow> int \<Rightarrow> projection_order" where
  "sample_projection_order rid no n = \<lparr>pj_ready_order_id = rid, pj_source_order_id = 9, pj_platform = ''pdd'', pj_store_code = ''S1'', pj_store_name = ''Shop'',
     pj_platform_order_no = no, pj_receiver_name = ''Li'', pj_receiver_phone = ''138'', pj_receiver_province = ''GD'', pj_receiver_city = ''SZ'',
     pj_receiver_district = None, pj_receiver_address = ''Road 1'', pj_receiver_postcode = None, pj_component_count = n\<rparr>"

definition sample_component :: "string \<Rightarrow> string \<Rightarrow> int \<Rightarrow> string \<Rightarrow> rat \<Rightarrow> int \<Rightarrow> projection_component" where
  "sample_component rid cid item sku q n = \<lparr>pc_ready_component_id = cid, pc_ready_line_id = rid @ ''-L1'', pc_ready_order_id = rid, pc_item_id = item,
     pc_sku_code_id = item, pc_item_uom_id = 10 + item, pc_component_sku_code = sku, pc_sku_code = sku, pc_required_qty = q, pc_sort_order = n\<rparr>"

definition sample_wms :: wms_db where
  "sample_wms = \<lparr>wd_rest = sample_receipt_start, wd_stores = [], wd_fulfillment = [],
     wd_projection_orders = [sample_projection_order ''R1'' ''N1'' 3, sample_projection_order ''R2'' ''N2'' 2],
     wd_projection_components = [sample_component ''R1'' ''C2'' 2 ''SKU2'' 1 2, sample_component ''R1'' ''C1'' 1 ''SKU1'' 2 1,
       sample_component ''R1'' ''C3'' 1 ''SKU1'' 4 3, sample_component ''R2'' ''C4'' 1 ''SKU1'' (1 / 2) 1],
     wd_order_imports = [], wd_component_imports = [],
     wd_providers = [\<lparr>sp_id = 4, sp_name = ''Fast'', sp_code = ''SF'', sp_active = True\<rparr>], wd_shipping_records = []\<rparr>"

lemma sample_wms_keys: "order_keys_ok sample_wms"
  by code_simp

lemma sample_import:
  "succeeds (import_orders_from_oms_projection [''R1'', '' R1 '', ''R2''] False sample_wms)
     (\<lambda>(rows, s). map (\<lambda>r. (iw_status r, iw_order_id r)) rows = [(IMPORTED, Some 2), (IMPORT_FAILED, None)] \<and> length rows = 2)"
  by code_simp



text \<open>
  Claim C33. An order is imported once. Repeating a successful import request changes nothing: no order is imported
  again, and every order that the first request imported is reported as already imported, with the same order id.
\<close>

theorem import_once:
  assumes "order_keys_ok s" and "import_orders_from_oms_projection ids False s = Inr (rows, s')"
  shows "\<exists>rows'. import_orders_from_oms_projection ids False s' = Inr (rows', s') \<and>
     list_all2 (\<lambda>r r'. iw_ready_order_id r' = iw_ready_order_id r \<and> iw_status r' \<noteq> IMPORTED \<and>
        (iw_status r = IMPORTED \<longrightarrow> iw_status r' = ALREADY_IMPORTED \<and> iw_order_id r' = iw_order_id r)) rows rows'"
proof -
  let ?ids = "dedupe_ready_order_ids ids []"
  from import_run [OF assms] obtain rs where g: "grows s s'" and ids: "map iw_ready_order_id rows = ?ids"
    and R: "\<forall>r \<in> set rows. (iw_status r = IMPORTED) = (\<not> isl (decide s (iw_ready_order_id r))) \<and>
        (iw_status r = IMPORTED \<longrightarrow> (\<exists>oid. iw_order_id r = Some oid \<and> imported_as s s' (iw_ready_order_id r) oid))"
    and rs: "wd_order_imports s' = wd_order_imports s @ rs" "map oim_ready_order_id rs = filter (\<lambda>i. \<not> isl (decide s i)) ?ids" by blast
  have d: "distinct (map oim_ready_order_id rs)" unfolding rs(2) using dedupe_props by simp
  have proj: "load_projection_order s' i = load_projection_order s i" for i using g by (rule growsE) (simp add: load_projection_order_def)
  have again: "decide s' (iw_ready_order_id r) = Inl (import_result (iw_ready_order_id r) ALREADY_IMPORTED (iw_order_id r) 0 0 ''order_already_imported'')"
    if r: "r \<in> set rows" "iw_status r = IMPORTED" for r
  proof -
    from bspec [OF R r(1)] r(2) obtain oid where o: "iw_order_id r = Some oid" "imported_as s s' (iw_ready_order_id r) oid" "\<not> isl (decide s (iw_ready_order_id r))" by blast
    then obtain p cs where dec: "decide s (iw_ready_order_id r) = Inr (p, cs)" by (cases "decide s (iw_ready_order_id r)") auto
    from o(2) obtain x where x: "x \<in> set (wd_order_imports s')" "oim_ready_order_id x = iw_ready_order_id r" "oim_order_id x = oid" by (auto simp: imported_as_def)
    have old: "iw_ready_order_id r \<notin> oim_ready_order_id ` set (wd_order_imports s)" using decide_Inr [OF dec] by blast
    with x rs(1) have "x \<in> set rs" by (metis Un_iff image_eqI set_append)
    with find_Some_iff_unique [OF d this] x(2) have "find (\<lambda>i. oim_ready_order_id i = iw_ready_order_id r) rs = Some x" by simp
    moreover have "find (\<lambda>i. oim_ready_order_id i = iw_ready_order_id r) (wd_order_imports s) = None"
      using old by (subst find_None_iff) force
    ultimately have "load_existing_import s' (iw_ready_order_id r) = Some oid"
      using x(3) by (simp add: load_existing_import_def rs(1) find_appended)
    with decide_Inr [OF dec] proj o(1) show ?thesis by (simp add: decide_def)
  qed
  have all: "isl (decide s' i)" if "i \<in> set ?ids" for i
  proof -
    from that ids obtain r where r: "r \<in> set rows" "iw_ready_order_id r = i" by (metis (no_types, lifting) imageE list.set_map)
    show ?thesis
    proof (cases "iw_status r = IMPORTED")
      case True
      with again [OF r(1)] r(2) show ?thesis by simp
    next
      case False
      with R r have "isl (decide s i)" by blast
      with decide_grows [OF g] show ?thesis .
    qed
  qed
  have "?ids \<noteq> []" using assms(2) by (auto simp: import_orders_from_oms_projection_def Let_def res_simps)
  then have "import_orders_from_oms_projection ids False s' = Inr (map (\<lambda>i. projl (decide s' i)) ?ids, s')"
    using all_decided_loop [of ?ids s' s'] all by (simp add: import_orders_from_oms_projection_def Let_def)
  moreover have "iw_ready_order_id (projl (decide s' (iw_ready_order_id r))) = iw_ready_order_id r \<and> iw_status (projl (decide s' (iw_ready_order_id r))) \<noteq> IMPORTED \<and>
      (iw_status r = IMPORTED \<longrightarrow> iw_status (projl (decide s' (iw_ready_order_id r))) = ALREADY_IMPORTED \<and> iw_order_id (projl (decide s' (iw_ready_order_id r))) = iw_order_id r)"
    if r: "r \<in> set rows" for r
  proof -
    have "iw_ready_order_id r \<in> set ?ids" using r ids by (metis image_eqI list.set_map)
    then obtain y where "decide s' (iw_ready_order_id r) = Inl y" using all by (metis sum.collapse(1))
    with decide_Inl [OF this] again [OF r] show ?thesis by (auto simp: import_result_def)
  qed
  ultimately show ?thesis unfolding ids [symmetric] by (auto simp: list_all2_map2 intro!: list.rel_refl_strong)
qed

theorem import_once_witness:
  "\<exists>rows s rows'. import_orders_from_oms_projection [''R1'', '' R1 '', ''R2''] False sample_wms = Inr (rows, s) \<and>
     import_orders_from_oms_projection [''R1'', '' R1 '', ''R2''] False s = Inr (rows', s) \<and> iw_status (hd rows') = ALREADY_IMPORTED \<and> iw_order_id (hd rows') = Some 2"
proof -
  from succeeds_pairD [OF sample_import] obtain rows s where run: "import_orders_from_oms_projection [''R1'', '' R1 '', ''R2''] False sample_wms = Inr (rows, s)"
    and st: "map (\<lambda>r. (iw_status r, iw_order_id r)) rows = [(IMPORTED, Some 2), (IMPORT_FAILED, None)]" by auto
  from st obtain r r2 where rows: "rows = [r, r2]" "iw_status r = IMPORTED" "iw_order_id r = Some 2" by (auto simp: map_eq_Cons_conv)
  from import_once [OF sample_wms_keys run] run rows show ?thesis by (fastforce simp: list_all2_Cons1)
qed

end
