(* ===== verification/Handoff_Claims.thy ===== *)
theory Handoff_Claims
  imports Handoff_Laws Import_Laws
begin

text \<open>
  Properties of the hand-over to the logistics service. A run of it is a sequence of hand-overs of documents,
  answers of the service, and steps of other operations that leave the export records alone.
\<close>

inductive handoff_run :: "wms_db \<Rightarrow> wms_db \<Rightarrow> bool" for s0 where
  start: "handoff_run s0 s0"
| hand_over: "handoff_run s0 s \<Longrightarrow> upsert_pending_logistics_export_record t i no rf (base s) = Inr (rid, d) \<Longrightarrow> handoff_run s0 (set_base d s)"
| import_result: "handoff_run s0 s \<Longrightarrow> record_handoff_import_result now p s = Inr (x, s') \<Longrightarrow> handoff_run s0 s'"
| shipping_result: "handoff_run s0 s \<Longrightarrow> record_handoff_shipping_result now a s = Inr (ids, s') \<Longrightarrow> handoff_run s0 s'"
| other: "handoff_run s0 s \<Longrightarrow> db_export_records (base s') = db_export_records (base s) \<Longrightarrow> handoff_run s0 s'"

lemma handoff_run_step:
  assumes "handoff_run s0 s"
  shows "handoff_step (base s0) (base s)"
  using assms
proof (induction rule: handoff_run.induct)
  case start
  show ?case by (rule handoff_step_same) simp
next
  case (hand_over s t i no rf rid d)
  with upsert_record_step [OF hand_over(2)] show ?case unfolding handoff_step_def set_base_simps by (blast intro: records_forward_trans)
next
  case (import_result s now p x s')
  with import_result_step(1) [OF import_result(2)] show ?case unfolding handoff_step_def by (blast intro: records_forward_trans)
next
  case (shipping_result s now a ids s')
  with shipping_result_step(1) [OF shipping_result(2)] show ?case unfolding handoff_step_def by (blast intro: records_forward_trans)
next
  case (other s s')
  with handoff_step_same [OF other(2)] show ?case unfolding handoff_step_def by (blast intro: records_forward_trans)
qed

section \<open>Samples\<close>

definition sample_payload :: handoff_payload where
  "sample_payload = \<lparr>hp_export_record_id = 1, hp_source_doc_type = ORDER_OUTBOUND, hp_source_doc_id = 2, hp_source_doc_no = ''N1'', hp_source_ref = ''WMS:ORDER:2'',
     hp_platform = Some ''pdd'', hp_store_code = Some ''S1'', hp_order_ref = None, hp_ext_order_no = Some ''N1'', hp_warehouse_id = 1, hp_warehouse_name = None,
     hp_receiver_name = Some ''Li'', hp_receiver_phone = Some ''1'', hp_receiver_province = Some ''P'', hp_receiver_city = Some ''C'', hp_receiver_district = None,
     hp_receiver_address = Some ''A'', hp_receiver_postcode = None, hp_outbound_event_id = 1, hp_outbound_source_ref = ''ORD'', hp_outbound_completed_at = 5,
     hp_shipment_items = [\<lparr>si_source = ORDER_LINE 1, si_line_no = 1, si_item_id = 1, si_qty_outbound = 2\<rparr>]\<rparr>"

definition sample_handoff :: wms_db where
  "sample_handoff = set_base ((base sample_wms)\<lparr>db_export_records := [pending_record 1 ORDER_OUTBOUND 2 ''N1'' ''WMS:ORDER:2''],
     db_handoff_payloads := [sample_payload]\<rparr>) sample_wms"

definition sample_package :: "int \<Rightarrow> string \<Rightarrow> package" where
  "sample_package n tr = \<lparr>pk_package_no = n, pk_tracking_no = tr, pk_provider_code = ''sf'', pk_provider_name = None, pk_cost_estimated = None,
     pk_sender = None, pk_dest_province = None, pk_dest_city = Some '' Wuhan ''\<rparr>"

definition sample_import_answer :: import_answer where
  "sample_import_answer = \<lparr>ia_source_ref = ''WMS:ORDER:2'', ia_exported = True, ia_request_id = Some 9, ia_request_no = Some ''LR-9'', ia_error_message = None\<rparr>"

definition sample_shipping_answer :: shipping_answer where
  "sample_shipping_answer = \<lparr>sa_source_ref = ''WMS:ORDER:2'', sa_request_id = Some 9, sa_request_no = None, sa_completed_at = Some 8,
     sa_packages = [sample_package 1 ''T1'', sample_package 2 '' T2 '']\<rparr>"

lemma sample_handoff_ok: "records_ok (base sample_handoff)" "shipping_ok sample_handoff"
  by code_simp+

lemma sample_handoff_run:
  "succeeds (record_handoff_import_result 6 sample_import_answer sample_handoff) (\<lambda>(x, s). shipping_ok s \<and>
     succeeds (record_handoff_shipping_result 7 sample_shipping_answer s) (\<lambda>(ids, t). ids = [1, 2] \<and>
       map xr_logistics_status (db_export_records (base t)) = [LG_COMPLETED]))"
  by code_simp

section \<open>Properties\<close>

text \<open>
  Claim C37. The life of a hand-over. Over every sequence of hand-overs and answers, in any order and with any
  repetition, an export record keeps its document; it is exported exactly when the service has imported it, and
  then it has a request and a time of export which never change (a blank request number apart), whatever is
  handed over or reported later; a completed record stays completed and carries the time of completion.
\<close>

theorem handoff_life:
  assumes "records_ok (base s0)" and "handoff_run s0 s"
  shows "records_ok (base s) \<and> records_forward (base s0) (base s)"
  using handoff_run_step [OF assms(2)] assms(1) by (simp add: handoff_step_def)

theorem handoff_life_witness:
  "\<exists>x s ids t. record_handoff_import_result 6 sample_import_answer sample_handoff = Inr (x, s) \<and>
     record_handoff_shipping_result 7 sample_shipping_answer s = Inr (ids, t) \<and> records_ok (base t) \<and> records_forward (base s) (base t)"
proof -
  obtain x s ids t where run: "record_handoff_import_result 6 sample_import_answer sample_handoff = Inr (x, s)"
    "record_handoff_shipping_result 7 sample_shipping_answer s = Inr (ids, t)"
    using sample_handoff_run by (fastforce dest!: succeeds_pairD)
  have "records_ok (base s)" using handoff_life [OF sample_handoff_ok(1) handoff_run.import_result [OF handoff_run.start run(1)]] by simp
  from handoff_life [OF this handoff_run.shipping_result [OF handoff_run.start run(2)]] run show ?thesis by blast
qed

text \<open>
  Claim C38. Shipping results are exact. A successful report writes exactly one shipping record per package, under
  the order of the hand-over and the number of the package, with the active provider of its code and its tracking
  number; a record that was there keeps its id. No other shipping record changes, no tracking number of a provider
  is used twice, and no stock moves.
\<close>

theorem shipping_results_exact:
  assumes "shipping_ok s" and "record_handoff_shipping_result now a s = Inr (ids, t)"
  shows "\<exists>x p b. load_shipping_result_context (sa_source_ref a) (base s) = Some (x, p) \<and> base_shipping_record_values x p = Inr b \<and>
     list_all2 (recorded now b (sa_completed_at a) s t) (sa_packages a) ids \<and>
     (\<forall>k. k \<notin> package_key b ` set (sa_packages a) \<longrightarrow> record_at t k = record_at s k) \<and> shipping_ok t \<and> same_stock (base s) (base t)"
proof -
  from assms(2) obtain x p b s1 where ctx: "valid_shipping_answer a" "load_shipping_result_context (sa_source_ref a) (base s) = Some (x, p)"
      "base_shipping_record_values x p = Inr b"
    and loop: "map_loop (upsert_shipping_record now b (sa_completed_at a)) (sa_packages a) s = Inr (ids, s1)"
    and t: "t = set_base (update_export_record (sa_source_ref a) (complete_record now a) (base s1)) s1" by (rule shipping_result_Inr)
  from ctx(1) have "distinct (map pk_package_no (sa_packages a))" by (simp add: valid_shipping_answer_def)
  from packages_Inr [OF loop this assms(1)] obtain rs where P: "s1 = s\<lparr>wd_shipping_records := rs\<rparr>" "shipping_ok s1"
    "list_all2 (recorded now b (sa_completed_at a) s s1) (sa_packages a) ids"
    "\<forall>k. k \<notin> package_key b ` set (sa_packages a) \<longrightarrow> record_at s1 k = record_at s k" by blast
  have same: "record_at t = record_at s1" "shipping_ok t = shipping_ok s1" by (simp_all add: t record_at_def shipping_ok_def fun_eq_iff)
  then have "recorded now b (sa_completed_at a) s t = recorded now b (sa_completed_at a) s s1" by (intro ext) (simp add: recorded_def)
  moreover have "same_stock (base s) (base t)" by (simp add: t P(1) same_stock_def update_export_record_def)
  ultimately show ?thesis using ctx(2,3) P same by auto
qed

theorem shipping_results_exact_witness:
  "\<exists>x s t r. record_handoff_import_result 6 sample_import_answer sample_handoff = Inr (x, s) \<and>
     record_handoff_shipping_result 7 sample_shipping_answer s = Inr ([1, 2], t) \<and>
     record_at t (''PDD'', ''S1'', ''ORD:PDD:S1:N1'', 2) = Some r \<and> sr_tracking_no r = ''T2'' \<and> same_stock (base s) (base t)"
proof -
  obtain x s t where run: "record_handoff_import_result 6 sample_import_answer sample_handoff = Inr (x, s)" "shipping_ok s"
    "record_handoff_shipping_result 7 sample_shipping_answer s = Inr ([1, 2], t)"
    using sample_handoff_run by (fastforce dest!: succeeds_pairD)
  have "succeeds (record_handoff_import_result 6 sample_import_answer sample_handoff) (\<lambda>(x, s).
     case load_shipping_result_context ''WMS:ORDER:2'' (base s) of None \<Rightarrow> False
     | Some (x, p) \<Rightarrow> succeeds (base_shipping_record_values x p) (\<lambda>b. package_key b (sample_package 2 '' T2 '') = (''PDD'', ''S1'', ''ORD:PDD:S1:N1'', 2)))"
    by code_simp
  with run(1) have key: "package_key b (sample_package 2 '' T2 '') = (''PDD'', ''S1'', ''ORD:PDD:S1:N1'', 2)"
    if "load_shipping_result_context ''WMS:ORDER:2'' (base s) = Some (x, p)" "base_shipping_record_values x p = Inr b" for x p b
    using that by (auto simp: succeeds_def)
  have pk: "sa_packages sample_shipping_answer = [sample_package 1 ''T1'', sample_package 2 '' T2 '']" "sa_source_ref sample_shipping_answer = ''WMS:ORDER:2''"
    "py_strip (pk_tracking_no (sample_package 2 '' T2 '')) = ''T2''" by code_simp+
  from shipping_results_exact [OF run(2,3)] key show ?thesis
    using run unfolding pk by (auto simp: recorded_def pk) (fastforce simp: shipping_row_def)
qed

text \<open>
  Claim C39. Reporting a shipment twice is harmless. When a report with a time of completion succeeded, the same
  report succeeds again, answers with the same ids and changes nothing.
\<close>

theorem shipping_results_replay:
  assumes "shipping_ok s" and "sa_completed_at a = Some u" and "record_handoff_shipping_result now a s = Inr (ids, t)"
  shows "record_handoff_shipping_result now' a t = Inr (ids, t)"
proof -
  from assms(3) obtain x p b s1 where ctx: "valid_shipping_answer a" "load_shipping_result_context (sa_source_ref a) (base s) = Some (x, p)"
      "xr_export_status x = EX_EXPORTED" "assert_request_identity x (sa_request_id a) (sa_request_no a) = Inr ()" "base_shipping_record_values x p = Inr b"
    and loop: "map_loop (upsert_shipping_record now b (sa_completed_at a)) (sa_packages a) s = Inr (ids, s1)"
    and t: "t = set_base (update_export_record (sa_source_ref a) (complete_record now a) (base s1)) s1" by (rule shipping_result_Inr)
  from ctx(1) have "distinct (map pk_package_no (sa_packages a))" by (simp add: valid_shipping_answer_def)
  from packages_Inr [OF loop this assms(1)] obtain rs where P: "s1 = s\<lparr>wd_shipping_records := rs\<rparr>" "shipping_ok s1"
    "list_all2 (recorded now b (Some u) s s1) (sa_packages a) ids" by (auto simp: assms(2))
  have bt: "base t = update_export_record (sa_source_ref a) (complete_record now a) (base s)" by (simp add: t P(1))
  have c: "load_shipping_result_context (sa_source_ref a) (base t) = Some (complete_record now a x, p)"
    unfolding bt by (subst find_map_pairs) (simp_all add: ctx(2))
  have ok: "shipping_ok t" and "recorded now b (Some u) s t = recorded now b (Some u) s s1"
    using P(2) by (simp_all add: t recorded_def record_at_def shipping_ok_def fun_eq_iff)
  with P(3) have "list_all2 (recorded now b (Some u) s t) (sa_packages a) ids" by simp
  from replay_packages [OF this ok] have loop': "map_loop (upsert_shipping_record now' b (Some u)) (sa_packages a) t = Inr (ids, t)"
    by (simp add: t P(1) update_export_record_def)
  have "update_export_record (sa_source_ref a) (complete_record now' a) (base t) = base t"
    unfolding bt by (auto simp: update_export_record_def complete_record_again(1) [OF assms(2)])
  then have "set_base (update_export_record (sa_source_ref a) (complete_record now' a) (base t)) t = t" by (simp add: set_base_def set_core_def core_def)
  with c loop' show ?thesis
    by (simp add: record_handoff_shipping_result_def apply_logistics_shipping_results_def ensure_def ctx found_or_404_Inr assms(2)
        imported_statuses_def complete_record_again(2) [OF assms(2) ctx(4)])
qed

theorem shipping_results_replay_witness:
  "\<exists>x s t. record_handoff_import_result 6 sample_import_answer sample_handoff = Inr (x, s) \<and>
     record_handoff_shipping_result 7 sample_shipping_answer s = Inr ([1, 2], t) \<and> record_handoff_shipping_result 99 sample_shipping_answer t = Inr ([1, 2], t)"
proof -
  obtain x s t where run: "record_handoff_import_result 6 sample_import_answer sample_handoff = Inr (x, s)" "shipping_ok s"
    "record_handoff_shipping_result 7 sample_shipping_answer s = Inr ([1, 2], t)"
    using sample_handoff_run by (fastforce dest!: succeeds_pairD)
  have "sa_completed_at sample_shipping_answer = Some 8" by code_simp
  from shipping_results_replay [OF run(2) this run(3), of 99] run(1,3) show ?thesis by blast
qed

end
