(* ===== verification/Whole_System.thy ===== *)
theory Whole_System
  imports Handoff_Claims
begin

text \<open>
  The whole system: the operations on stock and receipts, the import of orders, the fulfilment records and the
  answers of the logistics service, in any order, as one step relation on \<open>wms_db\<close>. Every operation around
  the stock core meets the contract \<open>fulfilment_action\<close>.
\<close>

section \<open>The import meets the contract\<close>

lemma same_fulfilment_step: "quiet s t \<Longrightarrow> wd_fulfillment t = wd_fulfillment s \<Longrightarrow> fulfilment_step s t"
  by (simp add: fulfilment_step_def fulfillments_ok_def fulfillments_advance_append [of _ _ "[]"])

text \<open>Statements on orders, their lines, items and statuses.\<close>

lemma order_tables_step:
  assumes b: "base t = (base s)\<lparr>db_orders := db_orders (base t), db_order_lines := db_order_lines (base t)\<rparr>"
    and r: "wd_rest t = (wd_rest s)\<lparr>ib_rest := (ib_rest (wd_rest s))\<lparr>rd_core := base t\<rparr>,
       ib_order_items := ib_order_items (wd_rest t), ib_order_status := ib_order_status (wd_rest t)\<rparr>"
    and "wd_fulfillment t = wd_fulfillment s"
  shows "fulfilment_step s t"
proof (rule same_fulfilment_step [OF quiet_core assms(3)])
  obtain os ls where t: "base t = (base s)\<lparr>db_orders := os, db_order_lines := ls\<rparr>" using b by blast
  obtain js st where r': "wd_rest t = (wd_rest s)\<lparr>ib_rest := (ib_rest (wd_rest s))\<lparr>rd_core := base t\<rparr>, ib_order_items := js, ib_order_status := st\<rparr>"
    using r by blast
  show "ib_rest (wd_rest t) = (ib_rest (wd_rest s))\<lparr>rd_core := base t\<rparr>" "same_receipts (wd_rest s) (wd_rest t)"
    using arg_cong [OF r', of ib_rest] by (simp, unfold same_receipts_def) (subst r', simp)+
  show "same_stock (base s) (base t)" "same_count_tables (base s) (base t)" "db_wms_events (base t) = db_wms_events (base s)"
    "db_inbound_event_lines (base t) = db_inbound_event_lines (base s)" "db_outbound_event_lines (base t) = db_outbound_event_lines (base s)"
    "db_manual_docs (base t) = db_manual_docs (base s)" "db_manual_lines (base t) = db_manual_lines (base s)"
    unfolding t by (simp_all add: same_stock_def same_count_tables_def)
qed

lemmas table_simps = set_base_def set_core_def core_def

interpretation store: fulfilment_action ensure_store_from_projection
  by unfold_locales
    (auto simp: ensure_store_from_projection_def Let_def intro!: same_fulfilment_step quiet_outer split: option.splits)

interpretation head: fulfilment_action insert_execution_order
proof
  fix p s i t
  assume "insert_execution_order p s = Inr (i, t)"
  then show "fulfilment_step s t"
    by (auto simp: insert_execution_order_def Let_def res_simps table_simps intro!: order_tables_step split: if_splits)
qed

interpretation address: fulfilment_action "\<lambda>(oid, p). upsert_execution_order_address oid p"
  by unfold_locales (auto simp: upsert_execution_order_address_def Let_def table_simps intro!: order_tables_step)

interpretation placeholder: fulfilment_action insert_order_fulfillment_placeholder
proof
  fix oid s r t
  assume run: "insert_order_fulfillment_placeholder oid s = Inr (r, t)"
  show "fulfilment_step s t"
  proof (cases "oid \<in> set (map ff_order_id (wd_fulfillment s))")
    case False
    with run obtain f where t: "t = s\<lparr>wd_fulfillment := wd_fulfillment s @ [f]\<rparr>" "ff_order_id f = oid" "fulfillment_ok f"
      by (auto simp: insert_order_fulfillment_placeholder_def fulfillment_ok_def)
    with False show ?thesis by (auto simp: fulfilment_step_def quiet_outer fulfillments_ok_def fulfillments_advance_append)
  qed (use run in \<open>simp add: insert_order_fulfillment_placeholder_def\<close>)
qed

interpretation audit: fulfilment_action "\<lambda>(oid, p, n). insert_order_import_audit oid p n"
  by unfold_locales (auto simp: insert_order_import_audit_def Let_def res_simps intro!: same_fulfilment_step quiet_outer)

interpretation order_line: fulfilment_action "\<lambda>(oid, item, q). insert_order_line oid item q"
  by unfold_locales (auto simp: insert_order_line_def Let_def table_simps intro!: order_tables_step)

interpretation order_item: fulfilment_action "\<lambda>(oid, c, q). insert_order_item_from_component oid c q"
  by unfold_locales (auto simp: insert_order_item_from_component_def Let_def table_simps intro!: order_tables_step split: if_splits)

interpretation component_row: fulfilment_action "\<lambda>(oid, lid, c). insert_component_import oid lid c"
  by unfold_locales (auto simp: insert_component_import_def Let_def res_simps intro!: same_fulfilment_step quiet_outer)

interpretation component: fulfilment_action "\<lambda>(oid, c). import_component oid c"
proof
  fix a s r t
  assume run: "(\<lambda>(oid, c). import_component oid c) a s = Inr (r, t)"
  obtain oid c where a: "a = (oid, c)" by (cases a)
  from run a obtain q lid s1 u s2 where i: "insert_order_line oid (pc_item_id c) q s = Inr (lid, s1)"
    "insert_order_item_from_component oid c q s1 = Inr (u, s2)" "insert_component_import oid lid c s2 = Inr (r, t)"
    by (auto simp: import_component_def res_simps)
  have "fulfilment_step s s1" using order_line.fulfil_step [of "(oid, pc_item_id c, q)" s lid s1] i(1) by simp
  moreover have "fulfilment_step s1 s2" using order_item.fulfil_step [of "(oid, c, q)" s1 u s2] i(2) by simp
  moreover have "fulfilment_step s2 t" using component_row.fulfil_step [of "(oid, lid, c)" s2 r t] i(3) by simp
  ultimately show "fulfilment_step s t" by (blast intro: fulfilment_step_trans)
qed

lemma map_loop_map: "map_loop f (map g xs) s = map_loop (\<lambda>x. f (g x)) xs s"
  by (induction xs arbitrary: s) (simp_all add: bindR_def split: sum.splits)

interpretation creation: fulfilment_action "\<lambda>(p, cs). create_execution_order p cs"
proof
  fix a s r t
  assume run: "(\<lambda>(p, cs). create_execution_order p cs) a s = Inr (r, t)"
  obtain p cs where a: "a = (p, cs)" by (cases a)
  from run a obtain i s1 oid s2 u2 s3 u3 s4 u4 s5 us where c: "ensure_store_from_projection p s = Inr (i, s1)" "insert_execution_order p s1 = Inr (oid, s2)"
    "upsert_execution_order_address oid p s2 = Inr (u2, s3)" "insert_order_fulfillment_placeholder oid s3 = Inr (u3, s4)"
    "insert_order_import_audit oid p (int (length cs)) s4 = Inr (u4, s5)" "map_loop (import_component oid) cs s5 = Inr (us, t)"
    by (auto simp: create_execution_order_def import_order_lines_and_items_def res_simps)
  have "fulfilment_step s2 s3" using address.fulfil_step [of "(oid, p)" s2 u2 s3] c(3) by simp
  moreover have "fulfilment_step s4 s5" using audit.fulfil_step [of "(oid, p, int (length cs))" s4 u4 s5] c(5) by simp
  moreover have "fulfilment_step s5 t" using component.fulfil_loop [of "map (Pair oid) cs" s5 us t] c(6) by (simp add: map_loop_map)
  ultimately show "fulfilment_step s t"
    using store.fulfil_step [OF c(1)] head.fulfil_step [OF c(2)] placeholder.fulfil_step [OF c(4)] by (blast intro: fulfilment_step_trans)
qed

interpretation one_order: fulfilment_action "\<lambda>(s0, dry, rid). import_order s0 dry rid"
proof
  fix a s r t
  assume run: "(\<lambda>(s0, dry, rid). import_order s0 dry rid) a s = Inr (r, t)"
  then consider "t = s" | p cs oid where "create_execution_order p cs s = Inr (oid, t)"
    by (cases a) (auto simp: import_order_def Let_def res_simps split: option.splits if_splits)
  then show "fulfilment_step s t" by cases (use creation.fulfil_step [of "(p, cs)" for p cs] in auto)
qed

interpretation importing: fulfilment_action "\<lambda>(ids, dry). import_orders_from_oms_projection ids dry"
proof
  fix a s r t
  assume run: "(\<lambda>(ids, dry). import_orders_from_oms_projection ids dry) a s = Inr (r, t)"
  then obtain ids dry where "map_loop (import_order s dry) (dedupe_ready_order_ids ids []) s = Inr (r, t)"
    by (cases a) (auto simp: import_orders_from_oms_projection_def Let_def res_simps)
  then show "fulfilment_step s t"
    using one_order.fulfil_loop [of "map (\<lambda>i. (s, dry, i)) (dedupe_ready_order_ids ids [])" s r t] by (simp add: map_loop_map)
qed

section \<open>Steps of the whole system\<close>

datatype whole_op =
    WO_rest full_op
  | WO_import "string list" bool
  | WO_commit int int datetime
  | WO_complete int datetime
  | WO_assign string string string int string
  | WO_import_result datetime import_answer
  | WO_shipping_result datetime shipping_answer

definition after :: "('a \<times> wms_db) result \<Rightarrow> wms_db result" where
  "after m = bindR m (\<lambda>(_, s). Inr s)"

fun exec_whole :: "receiving_client \<Rightarrow> (int list \<Rightarrow> export_uom list) \<Rightarrow> three_books_view \<Rightarrow> whole_op \<Rightarrow> wms_db \<Rightarrow> wms_db result" where
  "exec_whole rc lu view (WO_rest op) s = bindR (exec_full rc lu view op (wd_rest s)) (\<lambda>t. Inr (s\<lparr>wd_rest := t\<rparr>))"
| "exec_whole rc lu view (WO_import ids dry) s = after (import_orders_from_oms_projection ids dry s)"
| "exec_whole rc lu view (WO_commit oid w t) s = after (ensure_outbound_committed oid w t s)"
| "exec_whole rc lu view (WO_complete oid t) s = after (mark_outbound_completed oid t s)"
| "exec_whole rc lu view (WO_assign platform store_code no w reason) s = after (manual_assign_fulfillment_warehouse platform store_code no w reason s)"
| "exec_whole rc lu view (WO_import_result now p) s = after (record_handoff_import_result now p s)"
| "exec_whole rc lu view (WO_shipping_result now a) s = after (record_handoff_shipping_result now a s)"

inductive whole_run :: "receiving_client \<Rightarrow> (int list \<Rightarrow> export_uom list) \<Rightarrow> three_books_view \<Rightarrow> wms_db \<Rightarrow> wms_db \<Rightarrow> bool"
  for rc lu view s0 where
  start: "whole_run rc lu view s0 s0"
| step: "whole_run rc lu view s0 s \<Longrightarrow> exec_whole rc lu view op s = Inr s' \<Longrightarrow> whole_run rc lu view s0 s'"

definition whole_inv :: "wms_db \<Rightarrow> bool" where
  "whole_inv s \<longleftrightarrow> full_inv (wd_rest s) \<and> fulfillments_ok s"

text \<open>What a run keeps of the state it started from.\<close>

definition whole_keeps :: "wms_db \<Rightarrow> wms_db \<Rightarrow> bool" where
  "whole_keeps s t \<longleftrightarrow> keeps (base s) (base t) \<and> receipts_stay (wd_rest s) (wd_rest t) \<and>
     committed_stay (ib_rest (wd_rest s)) (ib_rest (wd_rest t)) \<and> fulfillments_advance s t"

lemma after_Inr [res_simps]: "after m = Inr t \<longleftrightarrow> (\<exists>x. m = Inr (x, t))"
  by (auto simp: after_def res_simps)

lemma whole_keeps_trans: "whole_keeps a b \<Longrightarrow> whole_keeps b c \<Longrightarrow> whole_keeps a c"
  unfolding whole_keeps_def by (blast intro: keeps_trans receipts_stay_trans committed_stay_trans fulfillments_advance_trans)

text \<open>The operations under the contract.\<close>

lemma exec_whole_fulfil:
  assumes "exec_whole rc lu view op s = Inr t" and "\<And>o'. op \<noteq> WO_rest o'"
  shows "fulfilment_step s t"
proof (cases op)
  case (WO_import ids dry)
  with assms(1) importing.fulfil_step [of "(ids, dry)" s] show ?thesis by (auto simp: res_simps)
next
  case (WO_commit oid w u)
  with assms(1) show ?thesis by (auto simp: res_simps intro: ensure_outbound_committed_step)
next
  case (WO_complete oid u)
  with assms(1) show ?thesis by (auto simp: res_simps intro: mark_outbound_completed_step)
next
  case (WO_assign platform store_code no w reason)
  with assms(1) show ?thesis by (auto simp: res_simps intro: manual_assign_step)
next
  case (WO_import_result now p)
  with assms(1) show ?thesis by (auto simp: res_simps intro: import_result_step(2))
next
  case (WO_shipping_result now a)
  with assms(1) show ?thesis by (auto simp: res_simps intro: shipping_result_step(2))
qed (use assms(2) in simp)

lemma exec_whole_inv:
  assumes inv: "whole_inv s" and run: "exec_whole rc lu view op s = Inr t"
  shows "whole_inv t \<and> whole_keeps s t"
proof (cases "\<exists>o'. op = WO_rest o'")
  case True
  with run obtain o' u where o': "exec_full rc lu view o' (wd_rest s) = Inr u" "t = s\<lparr>wd_rest := u\<rparr>" by (auto simp: res_simps)
  from inv have "full_inv (wd_rest s)" by (simp add: whole_inv_def)
  from exec_full_inv [OF this o'(1)] inv show ?thesis
    by (simp add: o'(2) whole_inv_def whole_keeps_def fulfillments_ok_def fulfillments_advance_append [of _ _ "[]"])
next
  case False
  then have f: "fulfilment_step s t" using exec_whole_fulfil [OF run] by blast
  then have "quiet s t" by (simp add: fulfilment_step_def)
  from quiet_inv [OF this] f inv show ?thesis by (simp add: whole_inv_def whole_keeps_def fulfilment_step_def)
qed

lemma whole_run_inv:
  assumes "whole_run rc lu view s0 s" and "whole_inv s0"
  shows "whole_inv s \<and> whole_keeps s0 s"
  using assms
proof (induction rule: whole_run.induct)
  case start
  then show ?case using same_receipts_inv(2) [of "wd_rest s0" "wd_rest s0"] by (simp add: whole_keeps_def same_receipts_def)
next
  case (step s op s')
  then show ?case using exec_whole_inv [of s rc lu view op s'] by (blast intro: whole_keeps_trans)
qed

section \<open>A sample run\<close>

fun exec_wholes :: "whole_op list \<Rightarrow> wms_db \<Rightarrow> wms_db result" where
  "exec_wholes [] s = Inr s"
| "exec_wholes (op # ops) s = bindR (exec_whole sample_client sample_uoms sample_view op s) (exec_wholes ops)"

lemma exec_wholes_run:
  "whole_run sample_client sample_uoms sample_view s0 s \<Longrightarrow> exec_wholes ops s = Inr s' \<Longrightarrow> whole_run sample_client sample_uoms sample_view s0 s'"
  by (induction ops arbitrary: s) (auto simp: res_simps intro: whole_run.step)

lemma sample_wms_inv: "whole_inv sample_wms"
proof -
  have "wd_rest sample_wms = sample_receipt_start" "wd_fulfillment sample_wms = []" by (simp_all add: sample_wms_def)
  then show ?thesis by (simp add: whole_inv_def fulfillments_ok_def sample_start_inv)
qed

text \<open>An order is imported, assigned, committed and completed, and goods are received meanwhile.\<close>

definition order_and_delivery :: "whole_op list" where
  "order_and_delivery = [WO_import [''R1''] False, WO_assign ''pdd'' ''S1'' ''N1'' 1 ''near'', WO_commit 2 1 20,
     WO_rest (FO_purchase ''IR-1'' \<lparr>pp_source_doc_id = 7, pp_warehouse_id = 1, pp_remark = None\<rparr>), WO_rest (FO_release 5 1),
     WO_rest (FO_receive 6 ''IE-7'' ''T7'' first_delivery), WO_complete 2 30, WO_commit 2 1 40]"

lemma order_and_delivery_run:
  "succeeds (exec_wholes order_and_delivery sample_wms) (\<lambda>s. wd_fulfillment s \<noteq> [] \<and>
     length (db_stock_ledger (base sample_wms)) < length (db_stock_ledger (base s)) \<and>
     map (\<lambda>f. (ff_actual_warehouse_id f, ff_committed_at f, ff_completed_at f)) (wd_fulfillment s) = [(Some 1, Some 20, Some 30)])"
  by code_simp

section \<open>Properties\<close>

text \<open>
  Claim C8. The whole system keeps its invariant. Every sequence of operations of all components, in any
  order, keeps the books of stock and ledger, the keys of events and documents, the return tasks, the
  receipts and the fulfilment records; no quantity on hand is ever negative, and each equals the sum of its
  ledger rows.
\<close>

theorem whole_system_invariant:
  assumes "whole_inv s0" and "whole_run rc lu view s0 s"
  shows "whole_inv s \<and> committed_stay (ib_rest (wd_rest s0)) (ib_rest (wd_rest s)) \<and>
     (\<forall>k. 0 \<le> on_hand (base s) k \<and> on_hand (base s) k = balance (base s) k)"
proof -
  have inv: "whole_inv s" "whole_keeps s0 s" using whole_run_inv [OF assms(2,1)] by blast+
  then have "books_ok (base s)" by (simp add: whole_inv_def full_inv_def wms_inv_def)
  then have "0 \<le> on_hand (base s) k \<and> on_hand (base s) k = balance (base s) k" for k
    using balancedD [of "base s" k] on_hand_nonneg [of "base s" k] by (simp add: books_ok_def)
  with inv show ?thesis unfolding whole_keeps_def by blast
qed

theorem whole_system_invariant_witness:
  "\<exists>s. exec_wholes order_and_delivery sample_wms = Inr s \<and> whole_inv s \<and> wd_fulfillment s \<noteq> []"
proof -
  obtain s where run: "exec_wholes order_and_delivery sample_wms = Inr s" "wd_fulfillment s \<noteq> []" using succeedsD [OF order_and_delivery_run] by blast
  from whole_system_invariant [OF sample_wms_inv exec_wholes_run [OF whole_run.start run(1)]] run show ?thesis by blast
qed

text \<open>
  Claim C7. The whole system refines the stock book. Whatever sequence of operations of all components
  runs, the ledger only grows, and its new rows, read as entries in their order, lead the abstract stock
  book from the quantities on hand before to the quantities on hand after, with no entry refused: no
  balance is negative at any point in between, and no stock moves without an entry.
\<close>

theorem whole_system_refines_stock_book:
  assumes "whole_inv s0" and "whole_run rc lu view s0 s"
  shows "\<exists>rows. db_stock_ledger (base s) = db_stock_ledger (base s0) @ rows \<and>
     post_entries (map entry_of rows) (on_hand (base s0)) = Some (on_hand (base s))"
proof -
  have inv: "whole_inv s" and k: "whole_keeps s0 s" using whole_run_inv [OF assms(2,1)] by blast+
  have ok: "books_ok (base s0)" "books_ok (base s)" using inv assms(1) by (simp_all add: whole_inv_def full_inv_def wms_inv_def)
  from k ok(1) obtain rows where "db_stock_ledger (base s) = db_stock_ledger (base s0) @ rows" by (auto simp: whole_keeps_def keeps_def ledger_grows_def)
  with books_post_entries [OF ok this] show ?thesis by blast
qed

theorem whole_system_refines_stock_book_witness:
  "\<exists>s rows. exec_wholes order_and_delivery sample_wms = Inr s \<and> db_stock_ledger (base s) = db_stock_ledger (base sample_wms) @ rows \<and> rows \<noteq> [] \<and>
     post_entries (map entry_of rows) (on_hand (base sample_wms)) = Some (on_hand (base s))"
proof -
  obtain s where run: "exec_wholes order_and_delivery sample_wms = Inr s" "length (db_stock_ledger (base sample_wms)) < length (db_stock_ledger (base s))"
    using succeedsD [OF order_and_delivery_run] by blast
  from whole_system_refines_stock_book [OF sample_wms_inv exec_wholes_run [OF whole_run.start run(1)]] obtain rows where
    rows: "db_stock_ledger (base s) = db_stock_ledger (base sample_wms) @ rows"
      "post_entries (map entry_of rows) (on_hand (base sample_wms)) = Some (on_hand (base s))" by blast
  with run have "rows \<noteq> []" by auto
  with run(1) rows show ?thesis by blast
qed

text \<open>
  Claim C36. The life of a fulfilment record, over every sequence of operations of the system. An order has one
  record at most. Outbound is completed only after it was committed, and committed only at a warehouse and in
  the stage SHIP; both times are written once and never change, the planned warehouse stays, an order keeps
  having a warehouse, and the stage never goes back: once set it stays or becomes SHIP.
\<close>

theorem fulfilment_life:
  assumes "whole_inv s0" and "whole_run rc lu view s0 s"
  shows "distinct (map ff_order_id (wd_fulfillment s)) \<and> (\<forall>f \<in> set (wd_fulfillment s). fulfillment_ok f) \<and>
     (\<forall>f \<in> set (wd_fulfillment s0). \<exists>g \<in> set (wd_fulfillment s). advances f g)"
  using whole_run_inv [OF assms(2,1)]
  by (simp add: whole_inv_def whole_keeps_def fulfillments_ok_def fulfillments_advance_def)

theorem fulfilment_life_witness:
  "\<exists>s. exec_wholes order_and_delivery sample_wms = Inr s \<and> (\<forall>f \<in> set (wd_fulfillment s). fulfillment_ok f) \<and>
     map (\<lambda>f. (ff_actual_warehouse_id f, ff_committed_at f, ff_completed_at f)) (wd_fulfillment s) = [(Some 1, Some 20, Some 30)]"
proof -
  obtain s where run: "exec_wholes order_and_delivery sample_wms = Inr s"
    "map (\<lambda>f. (ff_actual_warehouse_id f, ff_committed_at f, ff_completed_at f)) (wd_fulfillment s) = [(Some 1, Some 20, Some 30)]"
    using succeedsD [OF order_and_delivery_run] by (elim exE conjE) (rule that)
  have "\<forall>f \<in> set (wd_fulfillment s). fulfillment_ok f"
    using fulfilment_life [OF sample_wms_inv exec_wholes_run [OF whole_run.start run(1)]] by (elim conjE)
  with run show ?thesis by (intro exI conjI)
qed

end
