(* ===== verification/Spec2Isabelle.thy ===== *)
theory Spec2Isabelle
  imports Lot_Identity Wms_System Barcode_Laws Scan Expiry_Alloc Return_Run Whole_System
begin

text \<open>
  Verification of the inventory core of \<open>wms-api\<close>, a warehouse management service in Python.

  \<^bold>\<open>The program.\<close> The service keeps lots (\<open>lots\<close>), balances per warehouse, item and lot
  (\<open>stocks_lot\<close>) and an append-only ledger of movements (\<open>stock_ledger\<close>) in a database. Services above
  this core receive goods (inbound commit), send them out (orders, manual documents, direct
  shipping), take events back (reversals), count (count documents), receive against receipts and take
  returned goods back (return tasks); every one of them moves stock by writing a ledger row and the
  new balance of a slot in one transaction. Snapshots record the balances of a day, and a commit can be
  checked against ledger, balances and snapshot (the three books). Orders come from the order system
  through a local projection, are routed to a warehouse and get a fulfilment record; finished outbound
  documents are handed over to the logistics service, which answers with its request and the packages it
  shipped. An entry point runs in one transaction that is rolled back when an exception leaves it.

  \<^bold>\<open>The model.\<close> The database is the record \<open>db\<close> of \<open>Wms_State\<close>, one list of rows per table, with the
  checks, unique keys and foreign keys that the SQLAlchemy models under \<open>src/app\<close> declare. An operation
  is a function \<open>db \<Rightarrow> py_error + ('a \<times> db)\<close>: a raised exception is a value and carries no state, which
  is the rollback. Statements keep the names of the Python functions; a leading underscore is dropped.
  Theories, in the order of the calls:

  \<^item> \<open>Wms_Prelude\<close>: errors, results, loops, the fragment of Python's strings and integers, rows and sums.
  \<^item> \<open>Wms_Dates\<close>: calendar dates (\<open>datetime.date\<close>), ordinals, month arithmetic.
  \<^item> \<open>Expiry_Rules\<close>: \<open>shared/services/expiry_rules.py\<close>, \<open>expiry_resolver.py\<close>.
  \<^item> \<open>Lot_Code\<close>: \<open>shared/services/lot_code_contract.py\<close>, \<open>stock/services/stock_adjust/meta.py\<close>, movement types.
  \<^item> \<open>Wms_State\<close>, \<open>Books\<close>: the tables; the invariant \<open>books_ok\<close> (keys, foreign keys, no negative balance,
    every balance is the sum of its ledger rows, \<open>after_qty\<close> is the running balance) and the locales
    \<open>books_keeper\<close>, \<open>stock_writer\<close>, \<open>stock_neutral\<close> for operations that write stock.
  \<^item> \<open>Lots\<close>, \<open>Lot_Identity\<close>: \<open>stock/services/lots.py\<close>, \<open>lot_service.py\<close>, \<open>lot_resolver.py\<close>, \<open>lot_guard.py\<close>,
    \<open>stock_contract_resolver.py\<close>: finding and creating lots.
  \<^item> \<open>Ledger\<close>, \<open>Stock_Adjust\<close>, \<open>Stock_Ship\<close>: \<open>ledger/services/ledger_writer.py\<close>, \<open>stock_adjust/adjust_lot_impl.py\<close>,
    \<open>stock_ship_service.py\<close> with \<open>invariant_guard_outbound.py\<close>.
  \<^item> \<open>Freeze_Guard\<close>, \<open>Line_Booking\<close>: the guard of frozen warehouses; the locale \<open>line_booking\<close>, the contract of a
    loop that books the lines of a document through \<open>adjust_lot\<close>.
  \<^item> \<open>Inbound_Commit\<close>: \<open>inbound/services/inbound_commit_service.py\<close> and its repositories.
  \<^item> \<open>Manual_Docs\<close>, \<open>Logistics_Export\<close>, \<open>Outbound_Event\<close>, \<open>Outbound_Docs\<close>: \<open>outbound/repos/manual_doc_repo.py\<close>,
    \<open>logistics_export_record_repo.py\<close>, \<open>outbound/services/outbound_event_submit_service.py\<close> with \<open>outbound_event_repo.py\<close>.
  \<^item> \<open>Count_Doc\<close>, \<open>Count_Tables\<close>, \<open>Count_Post\<close>, \<open>Count_Life\<close>: \<open>inventory_adjustment/count/\<close>.
  \<^item> \<open>Reversal\<close>, \<open>Reversal_Laws\<close>: \<open>inventory_adjustment/inbound_reversal/\<close> and \<open>outbound_reversal/\<close>.
  \<^item> \<open>Outbound_Life\<close>: submissions, documents and outbound reversals in any order; what was sent and what was taken
    back, which the code adds up in one counter, are told apart.
  \<^item> \<open>Wms_System\<close>: all operations as one system, with the locale \<open>keeper\<close> of an operation that keeps the
    invariants and extends the ledger; the abstract stock book and the refinement.
  \<^item> \<open>Barcode\<close>, \<open>Barcode_Laws\<close>: \<open>shared/services/barcode.py\<close>, the parser of scanned codes; round trip of GS1
    labels, shape of the results, termination, check digits.
  \<^item> \<open>Scan\<close>: \<open>src/app/wms/scan\<close> with \<open>src/app/integrations/pms/projection_read.py\<close>, the scan gateway around the parser: how an
    item is identified.
  \<^item> \<open>Expiry_Alloc\<close>: \<open>shared/services/expiry_analytics_allocator.py\<close>, a plan that takes lots by expiry date.
  \<^item> \<open>Snapshots\<close>, \<open>Snapshot_Laws\<close>: \<open>snapshot/services\<close> and \<open>snapshot/jobs\<close>, \<open>three_books_consistency.py\<close>,
    \<open>three_books_enforcer.py\<close>: the two rebuilds of a snapshot agree, and when the check of a commit passes.
  \<^item> \<open>Return_Task\<close>, \<open>Return_Laws\<close>, \<open>Return_Run\<close>: \<open>return_inbound/services/return_task_service_impl.py\<close>; the record
    \<open>return_db\<close> holds the core tables, snapshots and return tasks, and the operations on them form a system
    above \<open>Wms_System\<close>.
  \<^item> \<open>Order_Ref\<close>: \<open>oms/services/order_ref_resolver.py\<close>, references to orders.
  \<^item> \<open>Receipts\<close>, \<open>Receipt_Create\<close>, \<open>Receiving\<close>: \<open>return_inbound/repos\<close> with their models, contracts and the barcode
    probe of a task; the record \<open>receipt_db\<close> extends \<open>return_db\<close> by receipts, operations and order lines.
  \<^item> \<open>Order_Reconcile\<close>: \<open>oms/orders/services/order_reconcile_*.py\<close>, shipped and returned counters of an order.
  \<^item> \<open>Receipt_Laws\<close>, \<open>Receipt_Run\<close>, \<open>Receipt_Life\<close>, \<open>Receipt_Claims\<close>: the invariant of the receipts, that every operation
    of every component on stock and receipts keeps it, and the system \<open>full_run\<close> of these operations.
  \<^item> \<open>Routing\<close>: \<open>outbound/services/warehouse_router.py\<close>, \<open>order_warehouse_availability.py\<close>; the locale
    \<open>availability_provider\<close> is the interface through which the router reads stock.
  \<^item> \<open>Order_State\<close>: stores, fulfilment records, the projection of orders, imports and shipping records, in the
    record \<open>wms_db\<close> above \<open>receipt_db\<close>; the locale \<open>quiet_action\<close> of an operation that moves no stock.
  \<^item> \<open>Order_Import\<close>, \<open>Import_Laws\<close>: \<open>outbound/services/oms_projection_order_import_service.py\<close>.
  \<^item> \<open>Fulfilment\<close>: \<open>outbound/services/order_fulfillment_service.py\<close>, \<open>order_fulfillment_manual_assign.py\<close>; the locale
    \<open>fulfilment_action\<close>, which extends the contract of \<open>quiet_action\<close> by the fulfilment records.
  \<^item> \<open>Handoff\<close>, \<open>Handoff_Laws\<close>, \<open>Handoff_Claims\<close>: \<open>src/app/shipping_assist/handoffs\<close>, the answers of the logistics service.
  \<^item> \<open>Whole_System\<close>: the operations of all components as the step relation \<open>whole_run\<close> on \<open>wms_db\<close>.
  \<^item> \<open>Samples\<close>: the database on which witnesses are evaluated.

  \<^bold>\<open>What is shown.\<close> Dates: derivation and its inverse, ordering, agreement of the two month arithmetics. Lots:
  identity by production date, idempotence, the internal singleton, immutability of what a lot records.
  Stock core: a booking is exact, replays are harmless, a plain request is decided by the balance alone.
  Each service: what it moves, exactly, in the units that the product master data give, and what it leaves alone; frozen
  warehouses refuse it; no order line is ever sent out beyond what was ordered; life
  cycles of manual and count documents over all sequences of operations; commit and reversal cancel.
  Receipts and return tasks: nothing is received beyond the plan, a receipt is completed exactly when
  it is received in full, what is booked is exactly what was requested, and committing a return twice changes nothing
  more. Snapshots: both rebuilds of the present day give the
  same quantities as long as no movement is dated later, and the three-books check of a commit dated today passes exactly when its effects stand
  in the ledger. Orders: an import is exact and happens once, an order goes to the first warehouse that can
  serve it, what the check of a warehouse blocks cannot be shipped from it under a new reference, and fulfilment records only
  move forward. Logistics: export records only move forward, shipped packages are recorded once each, and a
  repeated report changes nothing. Barcodes: every input is parsed, well-formed labels are read back, one misread digit is not
  accepted, and a scan takes its item from the first source that knows one. The system: every sequence of operations keeps the invariant of all components, and refines
  an abstract book of balances that accepts only entries which leave no balance negative. Theorems
  that show a defect (a shelf life in years counted in days, over-submission within one payload, a second
  shipment refused by a key, a surplus that cannot be posted, a reversal that counts as a further
  shipment and lets orders be handed over and documents be completed too early, a movement dated in the future that
  makes the snapshots differ, a carton number dropped from a label, a quantity of zero that counts as one, a return that is forgotten once it is complete, a second return task for goods that are
  already back, a return booked into a frozen warehouse, an assignment that moves an order already committed elsewhere) state what the code does.

  \<^bold>\<open>Parameters.\<close> The product master data service (policies, units, barcode probe) and the list of units are
  arguments of the operations that call them. Trace ids, event numbers, document numbers and the clock
  are arguments; a hypothesis that a number is fresh stands where the code draws it at random. The
  services that receiving calls (product master data, purchase orders) are the record \<open>receiving_client\<close>. The
  database view \<open>v_three_books\<close>, which only migrations define, is the parameter \<open>view\<close>; the mapping of a GTIN
  to an SKU is the callback that the barcode resolver is constructed with.

  \<^bold>\<open>Bounds.\<close> Integers are unbounded: Python's are, and the 32-bit range of database columns is not modelled.
  All recursion is structural or has a termination proof; no fuel is used. Text is ASCII. Time is an
  integer of microseconds.

  \<^bold>\<open>Not modelled.\<close> Routers (glue), reports and most read-only queries, display names and the operator of a
  document, migrations, users and permissions, HTTP clients and the projections they fill, finance. The branch
  of \<open>resolve_order_id\<close> that creates orders in a test environment, and the batch reconciliation over a window of
  creation times. The repair tool \<open>analysis/services/rebuild_stocks_service.py\<close>, which refills \<open>stocks_lot\<close> from the ledger.
  Interleaving of transactions: operations are atomic, as row locks make them for one
  slot. Audit events, and the search lists of import candidates and hand-overs.
\<close>

end
